(* ===== verification/Memdbg_Prelude.thy ===== *)
theory Memdbg_Prelude
  imports Main "HOL-Library.Word" "HOL-Library.AList" "HOL-Library.State_Monad"
begin

text \<open>
  Shared vocabulary of the development: the machine integer types of the sources, the
  operations of \<^verbatim>\<open>std::string\<close> the sources use, the \<^verbatim>\<open>printf\<close> conversions
  (\<^verbatim>\<open>%x\<close>, \<^verbatim>\<open>%02x\<close>, \<^verbatim>\<open>%d\<close>), little-endian byte views of words, the
  interface of byte codecs as a locale, and a weakest-precondition calculus for the state
  monad in which the stateful classes are written.
\<close>

unbundle bit_operations_syntax

named_theorems wp_simps \<open>weakest preconditions of the operations of the stateful classes\<close>

section \<open>Machine types\<close>

type_synonym byte = "8 word"
type_synonym u16 = "16 word"
type_synonym u32 = "32 word"
type_synonym u64 = "64 word"

text \<open>
  A \<^verbatim>\<open>std::string\<close> is a sequence of bytes; Isabelle's \<^typ>\<open>char\<close> is a byte, so a
  \<^typ>\<open>string\<close> is exactly that. A buffer of \<^verbatim>\<open>uint8_t\<close> is a \<^typ>\<open>byte list\<close>.
\<close>

definition byte_of_char :: "char \<Rightarrow> byte" where
  "byte_of_char c = word_of_nat (of_char c)"

definition char_of_byte :: "byte \<Rightarrow> char" where
  "char_of_byte b = char_of (unat b)"

lemma char_of_byte_of_char [simp]: "char_of_byte (byte_of_char c) = c"
  by (simp add: char_of_byte_def byte_of_char_def unat_of_nat)

lemma byte_of_char_of_byte [simp]: "byte_of_char (char_of_byte b) = b"
proof -
  have "unat b < 256"
    using unsigned_less [of b] by simp
  then show ?thesis
    by (simp add: char_of_byte_def byte_of_char_def)
qed

lemma word_of_nat_unat: "word_of_nat (unat w) = w"
  by (metis of_int_of_nat_eq of_nat_unat word_of_int_uint)

text \<open>Widening an unsigned integer keeps its value.\<close>

lemma unat_ucast_up:
  "LENGTH('a::len) \<le> LENGTH('b::len) \<Longrightarrow> unat (ucast (w :: 'a word) :: 'b word) = unat w"
proof -
  assume le: "LENGTH('a) \<le> LENGTH('b)"
  have "unat w < 2 ^ LENGTH('a)" by (rule unsigned_less)
  also have "(2 :: nat) ^ LENGTH('a) \<le> 2 ^ LENGTH('b)" using le by simp
  finally show ?thesis
    by (simp add: unsigned_ucast_eq take_bit_nat_eq_self_iff)
qed

lemma unat_ucast_widen [simp]:
  "unat (ucast (w :: u32) :: u64) = unat w"
  "unat (ucast (x :: u16) :: u64) = unat x"
  "unat (ucast (b :: byte) :: u64) = unat b"
  "unat (ucast (b :: byte) :: u32) = unat b"
  by (rule unat_ucast_up, simp)+

text \<open>The cast \<^verbatim>\<open>static_cast<unsigned>(x)\<close> of an \<^verbatim>\<open>int32_t\<close>.\<close>

definition unsigned32 :: "int \<Rightarrow> nat" where
  "unsigned32 x = nat (x mod 2 ^ 32)"

lemma unsigned32_less: "unsigned32 x < 2 ^ 32"
  by (simp add: unsigned32_def nat_less_iff)

lemma unsigned32_pos: "0 \<le> x \<Longrightarrow> x < 2 ^ 31 \<Longrightarrow> unsigned32 x = nat x"
  by (simp add: unsigned32_def)

section \<open>Operations of std::string\<close>

text \<open>\<open>index_of\<close> is the position of the first occurrence of a character.\<close>

fun index_of :: "'a \<Rightarrow> 'a list \<Rightarrow> nat option" where
  "index_of c [] = None"
| "index_of c (x # xs) = (if x = c then Some 0 else map_option Suc (index_of c xs))"

text \<open>\<^verbatim>\<open>s.find(c, pos)\<close>; \<^const>\<open>None\<close> is \<^verbatim>\<open>std::string::npos\<close>.\<close>

definition find_char :: "string \<Rightarrow> char \<Rightarrow> nat \<Rightarrow> nat option" where
  "find_char s c pos = map_option (\<lambda>i. pos + i) (index_of c (drop pos s))"

text \<open>\<^verbatim>\<open>s.substr(begin, end - begin)\<close> for positions inside the string.\<close>

definition substr :: "'a list \<Rightarrow> nat \<Rightarrow> nat \<Rightarrow> 'a list" where
  "substr s b e = take (e - b) (drop b s)"

text \<open>\<^verbatim>\<open>s.rfind(p, 0) == 0\<close>: the string starts with the prefix.\<close>

definition starts_with :: "string \<Rightarrow> string \<Rightarrow> bool" where
  "starts_with s p \<longleftrightarrow> take (length p) s = p"

text \<open>
  \<^verbatim>\<open>std::string(s.c_str() + k)\<close>: the text from position \<open>k\<close> up to the first NUL,
  which is what a function taking \<^verbatim>\<open>const char *\<close> sees of a \<^verbatim>\<open>std::string\<close>.
\<close>

definition c_str :: "string \<Rightarrow> nat \<Rightarrow> string" where
  "c_str s k = takeWhile (\<lambda>c. c \<noteq> CHR 0x00) (drop k s)"

text \<open>\<^verbatim>\<open>snprintf\<close> into a buffer of \<open>n\<close> bytes keeps the first \<open>n - 1\<close> characters.\<close>

definition snprintf :: "nat \<Rightarrow> string \<Rightarrow> string" where
  "snprintf n s = take (n - 1) s"

lemma snprintf_fits [simp]: "length s < n \<Longrightarrow> snprintf n s = s"
  by (simp add: snprintf_def)

lemma index_of_Some_iff:
  "index_of c xs = Some i \<longleftrightarrow> i < length xs \<and> xs ! i = c \<and> (\<forall>j < i. xs ! j \<noteq> c)"
proof (induction xs arbitrary: i)
  case Nil
  then show ?case by simp
next
  case (Cons x xs)
  show ?case
  proof (cases i)
    case 0
    then show ?thesis by auto
  next
    case (Suc k)
    then show ?thesis
      by (auto simp: Cons.IH less_Suc_eq_0_disj)
  qed
qed

lemma index_of_None_iff: "index_of c xs = None \<longleftrightarrow> c \<notin> set xs"
  by (induction xs) auto

lemma index_of_append:
  "c \<notin> set xs \<Longrightarrow> index_of c (xs @ ys) = map_option ((+) (length xs)) (index_of c ys)"
  by (induction xs) (auto simp: option.map_comp o_def map_option.id [unfolded id_def] cong: map_option_cong)

lemma find_char_Some_iff:
  "find_char s c pos = Some i \<longleftrightarrow>
     pos \<le> i \<and> i < length s \<and> s ! i = c \<and> (\<forall>j. pos \<le> j \<and> j < i \<longrightarrow> s ! j \<noteq> c)"
proof -
  have "find_char s c pos = Some i \<longleftrightarrow> pos \<le> i \<and> index_of c (drop pos s) = Some (i - pos)"
    by (auto simp: find_char_def)
  also have "\<dots> \<longleftrightarrow> pos \<le> i \<and> i < length s \<and> s ! i = c \<and>
      (\<forall>j < i - pos. s ! (pos + j) \<noteq> c)"
    by (auto simp: index_of_Some_iff)
  also have "\<dots> \<longleftrightarrow> pos \<le> i \<and> i < length s \<and> s ! i = c \<and>
      (\<forall>j. pos \<le> j \<and> j < i \<longrightarrow> s ! j \<noteq> c)"
    by (metis add_diff_inverse_nat less_diff_conv add.commute le_add1 not_less)
  finally show ?thesis .
qed

lemma find_char_None_iff: "find_char s c pos = None \<longleftrightarrow> c \<notin> set (drop pos s)"
  by (simp add: find_char_def index_of_None_iff)

lemma find_char_bounds: "find_char s c pos = Some i \<Longrightarrow> pos \<le> i \<and> i < length s"
  by (simp add: find_char_Some_iff)

lemma length_substr [simp]: "length (substr s b e) = min (e - b) (length s - b)"
  by (simp add: substr_def)

lemma starts_with_append [simp]: "starts_with (p @ s) p"
  by (simp add: starts_with_def)

lemma starts_with_iff: "starts_with s p \<longleftrightarrow> (\<exists>t. s = p @ t)"
  by (metis append_take_drop_id append_eq_conv_conj starts_with_def)

lemma substr_field: "length pre = off \<Longrightarrow> length x = n \<Longrightarrow> substr (pre @ x @ post) off (off + n) = x"
  by (simp add: substr_def)

text \<open>Records of equal size, one after the other.\<close>

lemma drop_concat_chunks:
  assumes "\<forall>x \<in> set xs. length (f x) = k" and "i < length xs"
  shows "drop (i * k) (concat (map f xs)) = f (xs ! i) @ concat (map f (drop (Suc i) xs))"
  using assms
proof (induction xs arbitrary: i)
  case Nil
  then show ?case by simp
next
  case (Cons x xs)
  then show ?case by (cases i) simp_all
qed

lemma length_concat_chunks:
  "\<forall>x \<in> set xs. length (f x) = k \<Longrightarrow> length (concat (map f xs)) = length xs * k"
  by (induction xs) auto

lemma c_str_no_nul: "CHR 0x00 \<notin> set (drop k s) \<Longrightarrow> c_str s k = drop k s"
  by (auto simp: c_str_def takeWhile_eq_all_conv)

section \<open>Number formatting\<close>

text \<open>One lower-case hexadecimal digit.\<close>

definition hex_digit :: "nat \<Rightarrow> char" where
  "hex_digit n = (if n < 10 then char_of (48 + n) else char_of (97 + (n - 10)))"

text \<open>\<^verbatim>\<open>%x\<close> and \<^verbatim>\<open>%llx\<close> of an unsigned value.\<close>

fun hex_of_nat :: "nat \<Rightarrow> string" where
  "hex_of_nat n =
     (if n < 16 then [hex_digit n] else hex_of_nat (n div 16) @ [hex_digit (n mod 16)])"

declare hex_of_nat.simps [simp del]

text \<open>\<^verbatim>\<open>%02x\<close> of a value below 256.\<close>

definition hex2 :: "nat \<Rightarrow> string" where
  "hex2 n = [hex_digit (n div 16), hex_digit (n mod 16)]"

text \<open>\<^verbatim>\<open>%d\<close> and \<^verbatim>\<open>std::to_string\<close>.\<close>

fun dec_of_nat :: "nat \<Rightarrow> string" where
  "dec_of_nat n =
     (if n < 10 then [char_of (48 + n)] else dec_of_nat (n div 10) @ [char_of (48 + n mod 10)])"

declare dec_of_nat.simps [simp del]

definition dec_of_int :: "int \<Rightarrow> string" where
  "dec_of_int x = (if x < 0 then CHR ''-'' # dec_of_nat (nat (- x)) else dec_of_nat (nat x))"

lemma hex_of_nat_nonempty [simp]: "hex_of_nat n \<noteq> []"
  by (subst hex_of_nat.simps) simp

lemma length_hex_of_nat: "n < 16 ^ k \<Longrightarrow> 0 < k \<Longrightarrow> length (hex_of_nat n) \<le> k"
proof (induction n arbitrary: k rule: hex_of_nat.induct)
  case (1 n)
  show ?case
  proof (cases "n < 16")
    case True
    with "1.prems" show ?thesis by (subst hex_of_nat.simps) simp
  next
    case False
    with "1.prems" have "k \<noteq> 1" by auto
    with "1.prems" obtain m where k: "k = Suc m" and m: "0 < m"
      by (cases k) auto
    from "1.prems" k have "n div 16 < 16 ^ m"
      by (simp add: less_mult_imp_div_less mult.commute)
    with "1.IH" [OF False this m] False k show ?thesis
      by (subst hex_of_nat.simps) simp
  qed
qed

lemma length_hex_u64: "length (hex_of_nat (unat (w :: u64))) \<le> 16"
  using length_hex_of_nat [of "unat w" 16] unsigned_less [of w, where 'a = nat] by simp

lemma length_hex_u32: "n < 2 ^ 32 \<Longrightarrow> length (hex_of_nat n) \<le> 8"
  using length_hex_of_nat [of n 8] by simp

section \<open>Character classes\<close>

text \<open>
  The functions of \<^verbatim>\<open><cctype>\<close> in the C locale, on the value of the character as an
  \<^verbatim>\<open>unsigned char\<close>.
\<close>

abbreviation char_code :: "char \<Rightarrow> nat" where
  "char_code c \<equiv> of_char c"

definition isdigit :: "char \<Rightarrow> bool" where
  "isdigit c \<longleftrightarrow> 48 \<le> char_code c \<and> char_code c \<le> 57"

definition isupper :: "char \<Rightarrow> bool" where
  "isupper c \<longleftrightarrow> 65 \<le> char_code c \<and> char_code c \<le> 90"

definition isalpha :: "char \<Rightarrow> bool" where
  "isalpha c \<longleftrightarrow> isupper c \<or> (97 \<le> char_code c \<and> char_code c \<le> 122)"

definition isalnum :: "char \<Rightarrow> bool" where
  "isalnum c \<longleftrightarrow> isalpha c \<or> isdigit c"

definition isxdigit :: "char \<Rightarrow> bool" where
  "isxdigit c \<longleftrightarrow> isdigit c \<or> (65 \<le> char_code c \<and> char_code c \<le> 70) \<or> (97 \<le> char_code c \<and> char_code c \<le> 102)"

definition isspace :: "char \<Rightarrow> bool" where
  "isspace c \<longleftrightarrow> char_code c = 32 \<or> (9 \<le> char_code c \<and> char_code c \<le> 13)"

definition tolower :: "char \<Rightarrow> char" where
  "tolower c = (if isupper c then char_of (char_code c + 32) else c)"

lemmas cctype_defs = isdigit_def isupper_def isalpha_def isalnum_def isxdigit_def isspace_def

section \<open>Little-endian views of words\<close>

text \<open>The first \<open>n\<close> bytes in memory of an unsigned 64-bit variable on the (x86-64) host.\<close>

fun le_bytes :: "nat \<Rightarrow> u64 \<Rightarrow> byte list" where
  "le_bytes 0 w = []"
| "le_bytes (Suc n) w = ucast w # le_bytes n (drop_bit 8 w)"

text \<open>A zeroed 64-bit variable after its first bytes were overwritten by the list.\<close>

fun of_le :: "byte list \<Rightarrow> u64" where
  "of_le [] = 0"
| "of_le (b # bs) = ucast b OR push_bit 8 (of_le bs)"

lemma length_le_bytes [simp]: "length (le_bytes n w) = n"
  by (induction n arbitrary: w) auto

lemma of_le_le_bytes: "of_le (le_bytes n w) = take_bit (8 * n) w"
proof (induction n arbitrary: w)
  case 0
  then show ?case by simp
next
  case (Suc n)
  have "bit (ucast (ucast w :: byte) OR push_bit 8 (take_bit (8 * n) (drop_bit 8 w)) :: u64) i
      \<longleftrightarrow> bit (take_bit (8 * Suc n) w) i" for i
    by (cases "i < 8")
      (auto simp: bit_simps dest: bit_imp_le_length)
  then have "(ucast (ucast w :: byte) OR push_bit 8 (take_bit (8 * n) (drop_bit 8 w)) :: u64)
      = take_bit (8 * Suc n) w"
    by (rule bit_eqI)
  with Suc show ?case by simp
qed

lemma le_bytes_of_le: "length bs \<le> 8 \<Longrightarrow> le_bytes (length bs) (of_le bs) = bs"
proof (induction bs)
  case Nil
  then show ?case by simp
next
  case (Cons b bs)
  have "bit (ucast (ucast b OR push_bit 8 (of_le bs) :: u64) :: byte) i \<longleftrightarrow> bit b i" for i
    by (auto simp: bit_simps dest: bit_imp_le_length)
  then have hd: "(ucast (ucast b OR push_bit 8 (of_le bs) :: u64) :: byte) = b"
    by (rule bit_eqI)
  have small: "\<not> bit (of_le bs) i" if "8 * length bs \<le> i" for i
    using that
  proof (induction bs arbitrary: i)
    case (Cons c cs)
    then show ?case
      by (auto simp: bit_simps dest: bit_imp_le_length)
  qed simp
  have "bit (drop_bit 8 (ucast b OR push_bit 8 (of_le bs) :: u64)) i \<longleftrightarrow> bit (of_le bs) i" for i
    using small [of i] Cons.prems by (auto simp: bit_simps dest: bit_imp_le_length)
  then have "drop_bit 8 (ucast b OR push_bit 8 (of_le bs) :: u64) = of_le bs"
    by (rule bit_eqI)
  with hd Cons show ?case by simp
qed

text \<open>Reading and writing integers at a byte offset (\<^verbatim>\<open>memcpy\<close> on a little-endian host).\<close>

definition put_u32 :: "u32 \<Rightarrow> byte list" where
  "put_u32 w = le_bytes 4 (ucast w)"

definition put_i32 :: "int \<Rightarrow> byte list" where
  "put_i32 x = put_u32 (word_of_int x)"

definition get_u64 :: "byte list \<Rightarrow> nat \<Rightarrow> u64" where
  "get_u64 bs off = of_le (substr bs off (off + 8))"

definition get_u32 :: "byte list \<Rightarrow> nat \<Rightarrow> u32" where
  "get_u32 bs off = ucast (of_le (substr bs off (off + 4)))"

definition get_i32 :: "byte list \<Rightarrow> nat \<Rightarrow> int" where
  "get_i32 bs off = sint (get_u32 bs off)"

lemma length_put [simp]: "length (put_u32 w) = 4" "length (put_i32 x) = 4"
  by (simp_all add: put_u32_def put_i32_def)

lemma get_put_u32: "length pre = off \<Longrightarrow> get_u32 (pre @ put_u32 w @ post) off = w"
proof -
  assume "length pre = off"
  then have "get_u32 (pre @ put_u32 w @ post) off = ucast (of_le (le_bytes 4 (ucast w)))"
    by (simp add: get_u32_def put_u32_def substr_field)
  also have "\<dots> = w"
    by (simp add: of_le_le_bytes bit_eq_iff bit_simps)
  finally show ?thesis .
qed

lemma get_put_i32:
  "length pre = off \<Longrightarrow> - (2 ^ 31) \<le> x \<Longrightarrow> x < 2 ^ 31 \<Longrightarrow> get_i32 (pre @ put_i32 x @ post) off = x"
  by (simp add: get_i32_def put_i32_def get_put_u32 signed_of_int
      signed_take_bit_int_eq_self_iff)

lemma get_put_u64: "length pre = off \<Longrightarrow> get_u64 (pre @ le_bytes 8 w @ post) off = w"
  by (simp add: get_u64_def substr_field of_le_le_bytes take_bit_word_eq_self)

section \<open>Interfaces: codecs and invariants\<close>

text \<open>
  A codec is a printer and a parser of which the parser undoes the printer on every value
  the printer is used for. The clients' consequences are proved once.
\<close>

locale codec =
  fixes enc :: "'a \<Rightarrow> 'c list"
    and dec :: "'c list \<Rightarrow> 'a option"
    and dom_enc :: "'a \<Rightarrow> bool"
  assumes dec_enc: "dom_enc x \<Longrightarrow> dec (enc x) = Some x"
begin

lemma enc_inject: "dom_enc x \<Longrightarrow> dom_enc y \<Longrightarrow> enc x = enc y \<longleftrightarrow> x = y"
  by (metis dec_enc option.inject)

lemma dec_unique: "dom_enc x \<Longrightarrow> dec (enc x) = Some y \<Longrightarrow> y = x"
  using dec_enc [of x] by simp

end

text \<open>A codec whose printer has a fixed width decodes a field of a larger record.\<close>

locale field_codec = codec +
  fixes width :: nat
  assumes length_enc: "dom_enc x \<Longrightarrow> length (enc x) = width"
begin

lemma dec_field:
  "dom_enc x \<Longrightarrow> length pre = off \<Longrightarrow> dec (substr (pre @ enc x @ post) off (off + width)) = Some x"
  by (simp add: substr_def length_enc dec_enc)

end

text \<open>
  A component whose operations all keep an invariant keeps it along every sequence of
  operations.
\<close>

locale invariant_machine =
  fixes step :: "'e \<Rightarrow> 's \<Rightarrow> 's"
    and inv :: "'s \<Rightarrow> bool"
  assumes step_inv: "inv s \<Longrightarrow> inv (step e s)"
begin

lemma run_inv: "inv s \<Longrightarrow> inv (fold step es s)"
  by (induction es arbitrary: s) (auto intro: step_inv)

end

section \<open>A weakest-precondition calculus for the state monad\<close>

definition wp :: "('s, 'a) state \<Rightarrow> ('a \<Rightarrow> 's \<Rightarrow> bool) \<Rightarrow> 's \<Rightarrow> bool" where
  "wp m Q s = (case run_state m s of (a, s') \<Rightarrow> Q a s')"

text \<open>Updates of the object's fields, and reads of its state.\<close>

definition modify :: "('s \<Rightarrow> 's) \<Rightarrow> ('s, unit) state" where
  "modify f = State (\<lambda>s. ((), f s))"

definition gets :: "('s \<Rightarrow> 'a) \<Rightarrow> ('s, 'a) state" where
  "gets f = State (\<lambda>s. (f s, s))"

lemma run_state_modify [simp]: "run_state (modify f) s = ((), f s)"
  by (simp add: modify_def)

lemma run_state_gets [simp]: "run_state (gets f) s = (f s, s)"
  by (simp add: gets_def)

lemma wp_return [wp_simps]: "wp (State_Monad.return a) Q = Q a"
  by (rule ext) (simp add: wp_def)

lemma wp_bind [wp_simps]: "wp (State_Monad.bind m f) Q = wp m (\<lambda>a. wp (f a) Q)"
  by (rule ext) (simp add: wp_def split: prod.split)

lemma wp_modify [wp_simps]: "wp (modify f) Q s = Q () (f s)"
  by (simp add: wp_def)

lemma wp_gets [wp_simps]: "wp (gets f) Q s = Q (f s) s"
  by (simp add: wp_def)

lemma wp_if [wp_simps]: "wp (if b then m else n) Q s = (if b then wp m Q s else wp n Q s)"
  by simp

lemma wp_mono: "wp m Q s \<Longrightarrow> (\<And>a t. Q a t \<Longrightarrow> R a t) \<Longrightarrow> wp m R s"
  by (auto simp: wp_def split: prod.splits)

lemma wp_conj: "wp m (\<lambda>a t. Q a t \<and> R a t) s \<longleftrightarrow> wp m Q s \<and> wp m R s"
  by (auto simp: wp_def split: prod.splits)

lemma wp_runD: "wp m Q s \<Longrightarrow> run_state m s = (a, t) \<Longrightarrow> Q a t"
  by (simp add: wp_def)

lemma wp_iff_run: "wp m Q s \<longleftrightarrow> Q (fst (run_state m s)) (snd (run_state m s))"
  by (simp add: wp_def split: prod.split)

text \<open>
  Partial correctness of a method with pre- and postcondition, and the rules that take a
  method apart along its text. \<open>hoare P m Q\<close> with equal conditions says that the method
  keeps an invariant.
\<close>

definition hoare :: "('s \<Rightarrow> bool) \<Rightarrow> ('s, 'a) state \<Rightarrow> ('s \<Rightarrow> bool) \<Rightarrow> bool" where
  "hoare P m Q \<longleftrightarrow> (\<forall>s. P s \<longrightarrow> wp m (\<lambda>_. Q) s)"

lemma hoareD: "hoare P m Q \<Longrightarrow> P s \<Longrightarrow> Q (snd (run_state m s))"
  by (simp add: hoare_def wp_iff_run)

lemma hoareI: "(\<And>s. P s \<Longrightarrow> wp m (\<lambda>_. Q) s) \<Longrightarrow> hoare P m Q"
  by (simp add: hoare_def)

lemma hoare_weaken: "hoare P m Q \<Longrightarrow> (\<And>s. P' s \<Longrightarrow> P s) \<Longrightarrow> (\<And>s. Q s \<Longrightarrow> Q' s) \<Longrightarrow> hoare P' m Q'"
  unfolding hoare_def by (meson wp_mono)

lemma hoare_return: "(\<And>s. P s \<Longrightarrow> Q s) \<Longrightarrow> hoare P (State_Monad.return a) Q"
  by (simp add: hoare_def wp_return)

lemma hoare_bind: "hoare P m R \<Longrightarrow> (\<And>a. hoare R (f a) Q) \<Longrightarrow> hoare P (State_Monad.bind m f) Q"
  unfolding hoare_def wp_bind by (meson wp_mono)

lemma hoare_if: "hoare P m Q \<Longrightarrow> hoare P n Q \<Longrightarrow> hoare P (if b then m else n) Q"
  by simp

lemma hoare_option: "hoare P m Q \<Longrightarrow> (\<And>x. hoare P (f x) Q) \<Longrightarrow> hoare P (case_option m f v) Q"
  by (cases v) simp_all

lemma hoare_list: "hoare P m Q \<Longrightarrow> (\<And>x xs. hoare P (f x xs) Q) \<Longrightarrow> hoare P (case_list m f v) Q"
  by (cases v) simp_all

lemma hoare_prod: "(\<And>x y. hoare P (f x y) Q) \<Longrightarrow> hoare P (case_prod f v) Q"
  by (cases v) simp

lemma hoare_let: "(\<And>x. hoare P (f x) Q) \<Longrightarrow> hoare P (Let v f) Q"
  by simp

lemma hoare_gets: "(\<And>s. P s \<Longrightarrow> Q s) \<Longrightarrow> hoare P (gets f) Q"
  by (simp add: hoare_def wp_gets)

lemma hoare_modify: "(\<And>s. P s \<Longrightarrow> Q (f s)) \<Longrightarrow> hoare P (modify f) Q"
  by (simp add: hoare_def wp_modify)

lemmas hoare_structure = hoare_if hoare_option hoare_list hoare_prod hoare_let

end
