(* ===== verification/Hex_Codec.thy ===== *)
theory Hex_Codec
  imports Memdbg_Prelude
begin

text \<open>
  Hexadecimal text on the wire: \<^verbatim>\<open>hex_nibble\<close>, \<^verbatim>\<open>hex_value\<close>,
  \<^verbatim>\<open>bytes_to_hex\<close> and \<^verbatim>\<open>hex_to_bytes\<close> of
  \<^verbatim>\<open>src/tools/gdb_bridge/gdb_regs.cpp\<close> and the two overloads of
  \<^verbatim>\<open>parse_hex_u64\<close> of \<^verbatim>\<open>rsp_protocol.cpp\<close>. The byte codec is an instance of
  the codec interface; the number parser is proved equal to unbounded base-16 evaluation
  cut off at 64 bits, and to undo \<^verbatim>\<open>%llx\<close>.
\<close>

section \<open>Definitions\<close>

text \<open>\<^verbatim>\<open>hex_nibble\<close>: one digit of output.\<close>

definition hex_nibble :: "nat \<Rightarrow> char" where
  "hex_nibble value = (if value < 10 then char_of (48 + value) else char_of (97 + (value - 10)))"

text \<open>\<^verbatim>\<open>hex_value\<close>: \<^const>\<open>None\<close> is the result \<^verbatim>\<open>-1\<close> of the source.\<close>

definition hex_value :: "char \<Rightarrow> nat option" where
  "hex_value c =
     (let n = (of_char c :: nat) in
      if 48 \<le> n \<and> n \<le> 57 then Some (n - 48)
      else if 97 \<le> n \<and> n \<le> 102 then Some (n - 97 + 10)
      else if 65 \<le> n \<and> n \<le> 70 then Some (n - 65 + 10)
      else None)"

fun bytes_to_hex :: "byte list \<Rightarrow> string" where
  "bytes_to_hex [] = []"
| "bytes_to_hex (b # bs) =
     hex_nibble (unat (drop_bit 4 b AND 0x0F)) # hex_nibble (unat (b AND 0x0F)) # bytes_to_hex bs"

text \<open>The loop of \<^verbatim>\<open>hex_to_bytes\<close>, two digits per round.\<close>

fun hex_pairs :: "string \<Rightarrow> byte list option" where
  "hex_pairs [] = Some []"
| "hex_pairs [c] = None"
| "hex_pairs (c # d # cs) =
     (case hex_value c of None \<Rightarrow> None
      | Some hi \<Rightarrow> (case hex_value d of None \<Rightarrow> None
        | Some lo \<Rightarrow> map_option (\<lambda>bs. (push_bit 4 (word_of_nat hi) OR word_of_nat lo) # bs)
            (hex_pairs cs)))"

definition hex_to_bytes :: "string \<Rightarrow> nat \<Rightarrow> byte list option" where
  "hex_to_bytes hex n = (if length hex \<noteq> n * 2 then None else hex_pairs hex)"

text \<open>
  The loop of \<^verbatim>\<open>parse_hex_u64\<close> over the digits, with the source's overflow test on
  64-bit words.
\<close>

fun parse_hex_loop :: "string \<Rightarrow> u64 \<Rightarrow> u64 option" where
  "parse_hex_loop [] value = Some value"
| "parse_hex_loop (c # cs) value =
     (case hex_value c of None \<Rightarrow> None
      | Some n \<Rightarrow>
          if value > (- 1 - word_of_nat n) div 16 then None
          else parse_hex_loop cs (value * 16 + word_of_nat n))"

definition parse_hex_u64 :: "string \<Rightarrow> nat \<Rightarrow> nat \<Rightarrow> u64 option" where
  "parse_hex_u64 s begin_pos end_pos =
     (if begin_pos \<ge> end_pos \<or> end_pos > length s then None
      else parse_hex_loop (substr s begin_pos end_pos) 0)"

text \<open>The overload on \<^verbatim>\<open>const char *\<close>; its argument is already cut at the NUL.\<close>

definition parse_hex_u64_cstr :: "string \<Rightarrow> u64 option" where
  "parse_hex_u64_cstr s = (if s = [] then None else parse_hex_u64 s 0 (length s))"

text \<open>Reference: the value of a digit string in unbounded arithmetic.\<close>

fun hex_number_from :: "nat \<Rightarrow> string \<Rightarrow> nat option" where
  "hex_number_from v [] = Some v"
| "hex_number_from v (c # cs) =
     (case hex_value c of None \<Rightarrow> None | Some n \<Rightarrow> hex_number_from (v * 16 + n) cs)"

definition hex_number :: "string \<Rightarrow> nat option" where
  "hex_number s = (if s = [] then None else hex_number_from 0 s)"

section \<open>Digits\<close>

lemma hex_nibble_eq_hex_digit: "hex_nibble = hex_digit"
  by (rule ext) (simp add: hex_nibble_def hex_digit_def)

lemma hex_value_hex_digit [simp]: "n < 16 \<Longrightarrow> hex_value (hex_digit n) = Some n"
  by (auto simp: hex_value_def hex_digit_def Let_def)

lemma hex_value_bound: "hex_value c = Some n \<Longrightarrow> n < 16"
  by (auto simp: hex_value_def Let_def split: if_splits)

lemma hex_digit_code: "n < 16 \<Longrightarrow> of_char (hex_digit n) = (if n < 10 then 48 + n else 87 + n :: nat)"
  by (auto simp: hex_digit_def of_char_of take_bit_eq_mod)

text \<open>The characters that separate fields on the wire; none of them is a digit.\<close>

definition separators :: "char set" where
  "separators = {CHR '','', CHR '';'', CHR '':'', CHR ''.'', CHR ''='', CHR ''#'', CHR 0x00,
     CHR ''p'', CHR ''-''}"

lemma hex_digit_not_separator: "n < 16 \<Longrightarrow> hex_digit n \<notin> separators"
  using hex_digit_code [of n] by (auto simp: separators_def split: if_splits)

section \<open>The byte codec\<close>

lemma unat_high_nibble: "unat (drop_bit 4 (b :: byte) AND 0x0F) = unat b div 16"
proof -
  have *: "unat b < 256" using unsigned_less [of b, where 'a = nat] by simp
  have "drop_bit 4 b AND mask 4 = take_bit 4 (drop_bit 4 b)"
    by (simp only: take_bit_eq_mask)
  then have "unat (drop_bit 4 b AND 0x0F) = (unat b div 16) mod 16"
    by (simp add: mask_eq_exp_minus_1 take_bit_eq_mod drop_bit_eq_div unat_div_distrib
        unat_mod_distrib)
  with * show ?thesis by simp
qed

lemma unat_low_nibble: "unat ((b :: byte) AND 0x0F) = unat b mod 16"
proof -
  have "b AND mask 4 = take_bit 4 b"
    by (simp only: take_bit_eq_mask)
  then show ?thesis
    by (simp add: mask_eq_exp_minus_1 take_bit_eq_mod unat_mod_distrib)
qed

lemma nibbles_byte:
  "push_bit 4 (word_of_nat (unat b div 16)) OR word_of_nat (unat b mod 16) = (b :: byte)"
proof -
  have "unat (drop_bit 4 b) = unat b div 16"
    by (simp add: drop_bit_eq_div unat_div_distrib)
  then have "(word_of_nat (unat b div 16) :: byte) = drop_bit 4 b"
    by (metis word_of_nat_unat)
  moreover have "unat (take_bit 4 b) = unat b mod 16"
    by (simp add: take_bit_eq_mod unat_mod_distrib)
  then have "(word_of_nat (unat b mod 16) :: byte) = take_bit 4 b"
    by (metis word_of_nat_unat)
  moreover have "push_bit 4 (drop_bit 4 b) OR take_bit 4 b = b"
    by (rule bit_eqI) (auto simp: bit_simps)
  ultimately show ?thesis by simp
qed

lemma hex_pairs_bytes_to_hex [simp]: "hex_pairs (bytes_to_hex bs) = Some bs"
proof (induction bs)
  case (Cons b bs)
  have "unat b < 256" using unsigned_less [of b, where 'a = nat] by simp
  then have "hex_value (hex_digit (unat b div 16)) = Some (unat b div 16)"
    by simp
  with Cons show ?case
    by (simp only: bytes_to_hex.simps hex_nibble_eq_hex_digit unat_high_nibble)
      (simp add: nibbles_byte unat_low_nibble)
qed simp

lemma length_bytes_to_hex [simp]: "length (bytes_to_hex bs) = 2 * length bs"
  by (induction bs) auto

lemma bytes_to_hex_append [simp]: "bytes_to_hex (xs @ ys) = bytes_to_hex xs @ bytes_to_hex ys"
  by (induction xs) auto

lemma length_hex_pairs: "hex_pairs s = Some bs \<Longrightarrow> length s = 2 * length bs"
  by (induction s arbitrary: bs rule: hex_pairs.induct) (auto split: option.splits)

interpretation hexc: codec bytes_to_hex hex_pairs "\<lambda>_. True"
  by unfold_locales simp

interpretation hexn: field_codec bytes_to_hex "\<lambda>s. hex_to_bytes s n" "\<lambda>bs. length bs = n" "2 * n"
  for n
  by unfold_locales (simp_all add: hex_to_bytes_def)

section \<open>The number parser\<close>

text \<open>The overflow test is exact: it accepts a digit iff the new value fits in 64 bits.\<close>

lemma overflow_test_exact:
  fixes v :: u64
  assumes "n < 16"
  shows "v > (- 1 - word_of_nat n) div 16 \<longleftrightarrow> unat v * 16 + n \<ge> 2 ^ 64"
proof -
  have m1: "unat (- 1 :: u64) = 2 ^ 64 - 1"
    by (simp add: unsigned_minus_1_eq_mask mask_eq_exp_minus_1)
  have n: "unat (word_of_nat n :: u64) = n"
    using assms by (simp add: unat_of_nat)
  have "(word_of_nat n :: u64) \<le> - 1"
    by simp
  then have "unat (- 1 - word_of_nat n :: u64) = 2 ^ 64 - 1 - n"
    using m1 n by (simp add: unat_sub)
  then have "unat ((- 1 - word_of_nat n :: u64) div 16) = (2 ^ 64 - 1 - n) div 16"
    by (simp add: unat_div_distrib)
  then have "v > (- 1 - word_of_nat n) div 16 \<longleftrightarrow> (2 ^ 64 - 1 - n) div 16 < unat v"
    by (simp add: word_less_nat_alt)
  also have "\<dots> \<longleftrightarrow> unat v * 16 + n \<ge> 2 ^ 64"
    using assms by (simp add: div_less_iff_less_mult) linarith
  finally show ?thesis .
qed

lemma parse_hex_loop_hex_number:
  "parse_hex_loop cs v = Some w \<longleftrightarrow> hex_number_from (unat v) cs = Some (unat w)"
proof (induction cs arbitrary: v)
  case Nil
  then show ?case by (auto simp: word_unat_eq_iff)
next
  case (Cons c cs)
  show ?case
  proof (cases "hex_value c")
    case None
    then show ?thesis by simp
  next
    case (Some n)
    then have n: "n < 16" by (rule hex_value_bound)
    show ?thesis
    proof (cases "unat v * 16 + n < 2 ^ 64")
      case True
      then have "unat (v * 16 + word_of_nat n) = unat v * 16 + n"
        using n by (simp add: unat_word_ariths unat_of_nat)
      with True Some n Cons.IH [of "v * 16 + word_of_nat n"] show ?thesis
        by (simp add: overflow_test_exact)
    next
      case False
      have mono: "hex_number_from x ds = Some y \<Longrightarrow> x \<le> y" for x y ds
        by (induction ds arbitrary: x) (force split: option.splits)+
      have "hex_number_from (unat v * 16 + n) cs \<noteq> Some (unat w)"
        using mono [of "unat v * 16 + n" cs "unat w"] False unsigned_less [of w, where 'a = nat]
        by auto
      with False Some n show ?thesis
        by (simp add: overflow_test_exact)
    qed
  qed
qed

lemma hex_number_from_append:
  "hex_number_from v (xs @ ys) = Option.bind (hex_number_from v xs) (\<lambda>w. hex_number_from w ys)"
  by (induction xs arbitrary: v) (auto split: option.splits)

lemma hex_number_from_hex_of_nat: "hex_number_from 0 (hex_of_nat n) = Some n"
proof (induction n rule: hex_of_nat.induct)
  case (1 n)
  then show ?case
    by (cases "n < 16") (simp_all add: hex_of_nat.simps [of n] hex_number_from_append)
qed

lemma hex_of_nat_digits: "set (hex_of_nat n) \<subseteq> hex_digit ` {..<16}"
proof (induction n rule: hex_of_nat.induct)
  case (1 n)
  then show ?case
    by (cases "n < 16") (auto simp: hex_of_nat.simps [of n])
qed

lemma hex_of_nat_no_separator: "c \<in> separators \<Longrightarrow> c \<notin> set (hex_of_nat n)"
  using hex_of_nat_digits [of n] hex_digit_not_separator by auto

lemma parse_hex_u64_Some_iff:
  "parse_hex_u64 s b e = Some v \<longleftrightarrow>
     b < e \<and> e \<le> length s \<and> hex_number (substr s b e) = Some (unat v)"
proof (cases "b < e \<and> e \<le> length s")
  case True
  then have "substr s b e \<noteq> []"
    by (simp add: substr_def)
  with True show ?thesis
    by (simp add: parse_hex_u64_def parse_hex_loop_hex_number hex_number_def)
next
  case False
  then show ?thesis
    by (auto simp: parse_hex_u64_def)
qed

lemma parse_hex_u64_print [simp]:
  "parse_hex_u64 (pre @ hex_of_nat (unat v) @ post) (length pre) (length pre + length (hex_of_nat (unat v)))
     = Some v"
  by (subst parse_hex_u64_Some_iff) (simp add: substr_def hex_number_def hex_number_from_hex_of_nat)

section \<open>Properties of the number parser\<close>

text \<open>
  \<^verbatim>\<open>parse_hex_u64\<close> is exact: it accepts a range of the string iff the range is
  inside the string, is not empty, has only hexadecimal digits and denotes a number that fits
  in 64 bits, and then it returns that number. In particular the overflow test neither
  rejects a value that fits nor lets one wrap around.
\<close>

theorem parse_hex_u64_exact:
  "parse_hex_u64 s b e = Some v \<longleftrightarrow>
     b < e \<and> e \<le> length s \<and> hex_number (substr s b e) = Some (unat v)"
  by (rule parse_hex_u64_Some_iff)

text \<open>
  Memory contents survive the hexadecimal wire format: decoding the text
  \<^verbatim>\<open>bytes_to_hex\<close> printed for a buffer, cut out of any longer packet, gives back exactly
  the buffer.
\<close>

theorem hex_bytes_roundtrip:
  assumes "length bs = n"
  shows "hex_to_bytes (substr (pre @ bytes_to_hex bs @ post) (length pre) (length pre + 2 * n)) n = Some bs"
  using hexn.dec_field [OF assms refl, of pre post] .

theorem hex_bytes_roundtrip_witness:
  "hex_to_bytes (substr (''M'' @ bytes_to_hex [0xCC, 0x0F] @ '';'') 1 5) 2 = Some [0xCC, 0x0F] \<and>
   bytes_to_hex [0xCC, 0x0F] = ''cc0f''"
proof -
  have "bytes_to_hex [0xCC, 0x0F] = ''cc0f''"
    by code_simp
  then show ?thesis
    using hex_bytes_roundtrip [of "[0xCC, 0x0F]" 2 "''M''" "'';''"] by simp
qed

end
