(* ===== verification/Rsp_Protocol.thy ===== *)
theory Rsp_Protocol
  imports Hex_Codec
begin

text \<open>
  The pure primitives of the GDB Remote Serial Protocol bridge,
  \<^verbatim>\<open>src/tools/gdb_bridge/rsp_protocol.cpp\<close>: error packets, XML escaping, the windowed
  \<^verbatim>\<open>qXfer\<close> transfer and its request parser, thread ids, the stop field of a hardware
  watchpoint, and the check that a memory range is mapped. Also the structures of the client
  (\<^verbatim>\<open>frontend/src/core/client/memdbg_client.hpp\<close>) these functions take.
\<close>

section \<open>Client structures\<close>

record map_entry =
  map_start :: u64
  map_end :: u64
  map_protection :: u32
  map_flags :: u32
  map_name :: string
  map_type :: string

record process_entry =
  pe_pid :: int
  pe_ppid :: int
  pe_name :: string

record process_info =
  pi_pid :: int
  pi_name :: string
  pi_title_id :: string
  pi_content_id :: string
  pi_path :: string

record watchpoint_entry =
  wp_address :: u64
  wp_length :: u32
  wp_type :: u32
  wp_slot :: u32
  wp_installed :: bool

section \<open>Packets and escaping\<close>

definition kMemChunk :: nat where
  "kMemChunk = 0x10000"

definition kRspMaxMemory :: u64 where
  "kRspMaxMemory = 0x100000"

definition err_packet :: "nat \<Rightarrow> string" where
  "err_packet code = snprintf 8 (''E'' @ hex2 (code mod 256))"

text \<open>\<open>-1\<close> for a kind that is no watchpoint.\<close>

definition watch_type_from_z :: "char \<Rightarrow> int" where
  "watch_type_from_z kind =
     (if kind = CHR ''1'' then 0 else if kind = CHR ''2'' then 1
      else if kind = CHR ''3'' then 2 else if kind = CHR ''4'' then 3 else - 1)"

fun xml_escape :: "string \<Rightarrow> string" where
  "xml_escape [] = []"
| "xml_escape (c # cs) =
     (if c = CHR ''&'' then ''&amp;''
      else if c = CHR ''<'' then ''&lt;''
      else if c = CHR ''>'' then ''&gt;''
      else if c = CHR 0x22 then ''&quot;''
      else if c = CHR 0x27 then ''&apos;''
      else [c]) @ xml_escape cs"

section \<open>Windowed transfers\<close>

definition qxfer_slice :: "string \<Rightarrow> nat \<Rightarrow> nat \<Rightarrow> string" where
  "qxfer_slice data off len =
     (if len = 0 then err_packet 1
      else if off \<ge> length data then ''l''
      else let n = min len (length data - off)
           in (if off + n \<ge> length data then CHR ''l'' else CHR ''m'') # take n (drop off data))"

text \<open>The triple is \<^verbatim>\<open>(annex, offset, length)\<close>; \<^const>\<open>None\<close> is the result \<^verbatim>\<open>false\<close>.\<close>

definition parse_qxfer_request :: "string \<Rightarrow> string \<Rightarrow> (string \<times> nat \<times> nat) option" where
  "parse_qxfer_request packet pfx =
     (if \<not> starts_with packet pfx then None
      else let rest = drop (length pfx) packet in
        case find_char rest CHR '':'' 0 of None \<Rightarrow> None
        | Some colon \<Rightarrow> (case find_char rest CHR '','' (colon + 1) of None \<Rightarrow> None
          | Some comma \<Rightarrow> (case parse_hex_u64 rest (colon + 1) comma of None \<Rightarrow> None
            | Some parsed_offset \<Rightarrow> (case parse_hex_u64 rest (comma + 1) (length rest) of None \<Rightarrow> None
              | Some parsed_length \<Rightarrow>
                  if parsed_length = 0 then None
                  else Some (take colon rest, unat parsed_offset, unat parsed_length)))))"

section \<open>Thread ids\<close>

definition parse_component :: "string \<Rightarrow> nat \<Rightarrow> nat \<Rightarrow> int option" where
  "parse_component txt b e =
     (if b \<ge> e then None
      else if e - b = 2 \<and> substr txt b e = ''-1'' then Some (- 1)
      else case parse_hex_u64 txt b e of None \<Rightarrow> None
        | Some parsed \<Rightarrow> if parsed > 0x7FFFFFFF then None else Some (int (unat parsed)))"

definition parse_thread_id :: "string \<Rightarrow> (int \<times> int) option" where
  "parse_thread_id s =
     (if s = [] then None
      else let multiprocess = (s ! 0 = CHR ''p''); first = (if multiprocess then 1 else 0) in
        if first \<ge> length s then None
        else if \<not> multiprocess then map_option (Pair 0) (parse_component s 0 (length s))
        else case find_char s CHR ''.'' first of None \<Rightarrow> None
          | Some dot \<Rightarrow>
              if find_char s CHR ''.'' (dot + 1) \<noteq> None then None
              else case parse_component s first dot of None \<Rightarrow> None
                | Some pid_out \<Rightarrow> map_option (Pair pid_out) (parse_component s (dot + 1) (length s)))"

section \<open>Watchpoint stop field\<close>

fun gdb_watchpoint_stop_field :: "u64 \<Rightarrow> watchpoint_entry list \<Rightarrow> string" where
  "gdb_watchpoint_stop_field dr6 [] = []"
| "gdb_watchpoint_stop_field dr6 (entry # entries) =
     (let hits = dr6 AND 0xF in
      if \<not> wp_installed entry \<or> wp_slot entry \<ge> 4 \<or> hits AND push_bit (unat (wp_slot entry)) 1 = 0
      then gdb_watchpoint_stop_field dr6 entries
      else if wp_type entry = 0 then ''hwbreak:;''
      else let reason = (if wp_type entry = 1 then ''watch''
                         else if wp_type entry = 2 then ''rwatch'' else ''awatch'')
           in snprintf 64 (reason @ '':'' @ hex_of_nat (unat (wp_address entry)) @ '';''))"

section \<open>Mapped ranges\<close>

text \<open>The body of the inner loop: the end of the map, if the map covers the cursor and reaches further.\<close>

definition cover_step :: "u64 \<Rightarrow> u64 \<Rightarrow> map_entry \<Rightarrow> u64 \<Rightarrow> u64" where
  "cover_step cursor request_end m covered_end =
     (if map_start m \<le> cursor \<and> cursor < map_end m \<and> map_end m > covered_end
      then (if map_end m < request_end then map_end m else request_end) else covered_end)"

definition covered_end_of :: "map_entry list \<Rightarrow> u64 \<Rightarrow> u64 \<Rightarrow> u64" where
  "covered_end_of maps request_end cursor = fold (cover_step cursor request_end) maps cursor"

definition covers :: "map_entry \<Rightarrow> u64 \<Rightarrow> bool" where
  "covers m a \<longleftrightarrow> map_start m \<le> a \<and> a < map_end m"

lemma covered_end_fold:
  assumes "cursor < request_end"
  shows "cursor \<le> c \<Longrightarrow> c \<le> request_end \<Longrightarrow>
      c = cursor \<or> (\<exists>m \<in> M. covers m cursor \<and> c \<le> map_end m) \<Longrightarrow>
      fold (cover_step cursor request_end) maps c = d \<Longrightarrow>
    c \<le> d \<and> d \<le> request_end \<and>
    (d = cursor \<or> (\<exists>m \<in> M \<union> set maps. covers m cursor \<and> d \<le> map_end m)) \<and>
    (d = cursor \<longrightarrow> (\<forall>m \<in> set maps. \<not> covers m cursor))"
proof (induction maps arbitrary: c M)
  case Nil
  then show ?case by auto
next
  case (Cons m maps)
  let ?c = "cover_step cursor request_end m c"
  have ge: "c \<le> ?c" "?c \<le> request_end"
    using Cons.prems(2) by (auto simp: cover_step_def)
  have just: "?c = cursor \<or> (\<exists>x \<in> insert m M. covers x cursor \<and> ?c \<le> map_end x)"
    using Cons.prems(3) by (auto simp: cover_step_def covers_def)
  have progress: "covers m cursor \<Longrightarrow> cursor < ?c"
    using Cons.prems(1) assms by (auto simp: cover_step_def covers_def)
  have "cursor \<le> ?c" and "fold (cover_step cursor request_end) maps ?c = d"
    using ge(1) Cons.prems(1,4) by auto
  from Cons.IH [OF this(1) ge(2) just this(2)] ge(1) progress show ?case
    by auto
qed

lemma covered_end_of_props:
  assumes "cursor < request_end" and "d = covered_end_of maps request_end cursor"
  shows "cursor \<le> d" and "d \<le> request_end"
    and "d = cursor \<or> (\<exists>m \<in> set maps. covers m cursor \<and> d \<le> map_end m)"
    and "d = cursor \<Longrightarrow> \<forall>m \<in> set maps. \<not> covers m cursor"
  using covered_end_fold [of cursor request_end cursor "{}" maps d] assms
  unfolding covered_end_of_def by (auto simp: less_imp_le)

text \<open>The outer loop; every round moves the cursor up or stops.\<close>

function range_walk :: "map_entry list \<Rightarrow> u64 \<Rightarrow> u64 \<Rightarrow> bool" where
  "range_walk maps request_end cursor =
     (if cursor < request_end
      then let covered_end = covered_end_of maps request_end cursor
           in if covered_end = cursor then False else range_walk maps request_end covered_end
      else True)"
  by pat_completeness auto
termination
proof (relation "measure (\<lambda>(maps, e, c). unat e - unat c)", goal_cases)
  case 1
  show ?case by simp
next
  case (2 maps request_end cursor c)
  with covered_end_of_props(1) [of cursor request_end c maps] have "cursor < c"
    by (simp add: order.strict_iff_order)
  with 2 show ?case
    by (simp add: word_less_nat_alt diff_less_mono2)
qed

declare range_walk.simps [simp del]

definition gdb_memory_range_mapped :: "map_entry list \<Rightarrow> u64 \<Rightarrow> u64 \<Rightarrow> bool" where
  "gdb_memory_range_mapped maps address len =
     (if len = 0 then True
      else if address > - 1 - len then False
      else range_walk maps (address + len) address)"

section \<open>Mapped ranges: the walk decides coverage\<close>

lemma range_walk_iff:
  "range_walk maps request_end cursor \<longleftrightarrow>
     (\<forall>a. cursor \<le> a \<and> a < request_end \<longrightarrow> (\<exists>m \<in> set maps. covers m a))"
proof (induction maps request_end cursor rule: range_walk.induct)
  case (1 maps request_end cursor)
  let ?all = "\<lambda>c. \<forall>a. c \<le> a \<and> a < request_end \<longrightarrow> (\<exists>m \<in> set maps. covers m a)"
  show ?case
  proof (cases "cursor < request_end")
    case False
    then show ?thesis by (subst range_walk.simps) auto
  next
    case True
    let ?d = "covered_end_of maps request_end cursor"
    note props = covered_end_of_props [OF True refl, of maps]
    show ?thesis
    proof (cases "?d = cursor")
      case stuck: True
      with props(4) True have "\<not> ?all cursor" by auto
      with stuck True show ?thesis by (subst range_walk.simps) (simp add: Let_def)
    next
      case moved: False
      with props(3) obtain m where m: "m \<in> set maps" "covers m cursor" "?d \<le> map_end m"
        by auto
      have "covers m a" if "cursor \<le> a" "a < ?d" for a
        using m(2,3) that by (auto simp: covers_def)
      then have "?all cursor \<longleftrightarrow> ?all ?d"
        using m(1) props(1) by (meson le_less_linear order_trans)
      moreover have "range_walk maps request_end cursor = range_walk maps request_end ?d"
        using True moved by (subst range_walk.simps) (simp add: Let_def)
      ultimately show ?thesis
        using "1.IH" [OF True refl moved] by simp
    qed
  qed
qed

lemma no_wrap_test: "(a :: u64) > - 1 - n \<longleftrightarrow> unat a + unat n \<ge> 2 ^ 64"
proof -
  have "unat (- 1 :: u64) = 2 ^ 64 - 1"
    by (simp add: unsigned_minus_1_eq_mask mask_eq_exp_minus_1)
  then have "unat (- 1 - n) = 2 ^ 64 - 1 - unat n"
    by (simp add: unat_sub)
  then show ?thesis
    using unsigned_less [of n, where 'a = nat] by (simp add: word_less_nat_alt) linarith
qed

lemma gdb_memory_range_mapped_iff:
  "gdb_memory_range_mapped maps address len \<longleftrightarrow>
     len = 0 \<or> (unat address + unat len < 2 ^ 64 \<and>
       (\<forall>a. address \<le> a \<and> a < address + len \<longrightarrow> (\<exists>m \<in> set maps. covers m a)))"
  by (auto simp: gdb_memory_range_mapped_def range_walk_iff no_wrap_test not_less [symmetric])

section \<open>Windowed transfers\<close>

text \<open>
  The reader's side of a \<^verbatim>\<open>qXfer\<close> object as the protocol documents it: ask for windows of
  \<open>n\<close> characters, moving the offset by what was received, until a window starts with
  \<^verbatim>\<open>l\<close>. \<^const>\<open>None\<close> is an answer that is no window, or an exhausted step budget.
\<close>

fun qxfer_read_all :: "nat \<Rightarrow> (nat \<Rightarrow> nat \<Rightarrow> string) \<Rightarrow> nat \<Rightarrow> nat \<Rightarrow> string option" where
  "qxfer_read_all 0 ask n off = None"
| "qxfer_read_all (Suc fuel) ask n off =
     (case ask off n of [] \<Rightarrow> None
      | c # win \<Rightarrow>
          if c = CHR ''l'' then Some win
          else if c = CHR ''m''
          then map_option (\<lambda>more. win @ more) (qxfer_read_all fuel ask n (off + length win))
          else None)"

lemma qxfer_read_all_slice:
  "0 < n \<Longrightarrow> length data - off < fuel \<Longrightarrow> qxfer_read_all fuel (qxfer_slice data) n off = Some (drop off data)"
proof (induction fuel arbitrary: off)
  case 0
  then show ?case by simp
next
  case (Suc fuel)
  show ?case
  proof (cases "off + n < length data")
    case True
    then have "qxfer_slice data off n = CHR ''m'' # take n (drop off data)"
      using Suc.prems(1) by (simp add: qxfer_slice_def Let_def)
    moreover have "qxfer_read_all fuel (qxfer_slice data) n (off + n) = Some (drop (off + n) data)"
      using Suc True by simp
    moreover have "take n (drop off data) @ drop (off + n) data = drop off data"
      by (metis add.commute append_take_drop_id drop_drop)
    ultimately show ?thesis
      using True by simp
  next
    case False
    then have "qxfer_slice data off n = CHR ''l'' # drop off data"
      using Suc.prems(1) by (simp add: qxfer_slice_def Let_def min_def) arith
    then show ?thesis by simp
  qed
qed

lemma parse_qxfer_request_print:
  assumes "CHR '':'' \<notin> set annex" and "0 < len" and "off < 2 ^ 64" and "len < 2 ^ 64"
  shows "parse_qxfer_request (pfx @ annex @ '':'' @ hex_of_nat off @ '','' @ hex_of_nat len) pfx
    = Some (annex, off, len)"
proof -
  let ?rest = "annex @ '':'' @ hex_of_nat off @ '','' @ hex_of_nat len"
  let ?c = "length annex" and ?m = "length annex + 1 + length (hex_of_nat off)"
  have colon: "find_char ?rest CHR '':'' 0 = Some ?c"
    using assms(1) by (simp add: find_char_def index_of_append)
  have "CHR '','' \<notin> set (hex_of_nat off)"
    by (rule hex_of_nat_no_separator) (simp add: separators_def)
  then have comma: "find_char ?rest CHR '','' (?c + 1) = Some ?m"
    by (simp add: find_char_def index_of_append)
  have off: "parse_hex_u64 ?rest (?c + 1) ?m = Some (word_of_nat off)"
    using parse_hex_u64_print [of "annex @ '':''" "word_of_nat off" "'','' @ hex_of_nat len"] assms(3)
    by (simp add: unat_of_nat)
  have len: "parse_hex_u64 ?rest (?m + 1) (length ?rest) = Some (word_of_nat len)"
    using parse_hex_u64_print [of "annex @ '':'' @ hex_of_nat off @ '',''" "word_of_nat len" "[]"] assms(4)
    by (simp add: unat_of_nat add.assoc)
  have "(word_of_nat len :: u64) \<noteq> 0"
    using assms(2,4) by (simp add: word_of_nat_eq_0_iff nat_dvd_not_less)
  with colon comma off len assms show ?thesis
    by (simp add: parse_qxfer_request_def Let_def unat_of_nat)
qed

section \<open>XML escaping\<close>

text \<open>Reference: the reader of the five predefined entities.\<close>

function xml_unescape :: "string \<Rightarrow> string option" where
  "xml_unescape s =
     (if s = [] then Some []
      else if hd s \<noteq> CHR ''&'' then map_option (Cons (hd s)) (xml_unescape (tl s))
      else if starts_with s ''&amp;'' then map_option (Cons CHR ''&'') (xml_unescape (drop 5 s))
      else if starts_with s ''&lt;'' then map_option (Cons CHR ''<'') (xml_unescape (drop 4 s))
      else if starts_with s ''&gt;'' then map_option (Cons CHR ''>'') (xml_unescape (drop 4 s))
      else if starts_with s ''&quot;'' then map_option (Cons CHR 0x22) (xml_unescape (drop 6 s))
      else if starts_with s ''&apos;'' then map_option (Cons CHR 0x27) (xml_unescape (drop 6 s))
      else None)"
  by pat_completeness auto
termination
  by (relation "measure length") auto

declare xml_unescape.simps [simp del]

lemma xml_unescape_escape: "xml_unescape (xml_escape s) = Some s"
proof (induction s)
  case Nil
  then show ?case by (subst xml_unescape.simps) simp
next
  case (Cons c s)
  then show ?case
    by (subst xml_unescape.simps) (auto simp: starts_with_def)
qed

lemma xml_escape_no_markup: "set (xml_escape s) \<inter> {CHR ''<'', CHR ''>'', CHR 0x22, CHR 0x27} = {}"
  by (induction s) auto

interpretation xmlc: codec xml_escape xml_unescape "\<lambda>_. True"
  by unfold_locales (rule xml_unescape_escape)

section \<open>Thread ids\<close>

definition print_thread_id :: "int \<times> int \<Rightarrow> string" where
  "print_thread_id pt = ''p'' @ hex_of_nat (nat (fst pt)) @ ''.'' @ hex_of_nat (nat (snd pt))"

definition tid_ok :: "int \<Rightarrow> bool" where
  "tid_ok t \<longleftrightarrow> 0 \<le> t \<and> t < 2 ^ 31"

lemma parse_component_hex:
  assumes "n < 2 ^ 31"
  shows "parse_component (pre @ hex_of_nat n @ post) (length pre) (length pre + length (hex_of_nat n)) = Some (int n)"
proof -
  have n: "unat (word_of_nat n :: u64) = n"
    using assms by (simp add: unat_of_nat)
  have "substr (pre @ hex_of_nat n @ post) (length pre) (length pre + length (hex_of_nat n)) \<noteq> ''-1''"
    using hex_of_nat_no_separator [of "CHR ''-''" n] by (auto simp: substr_def separators_def)
  moreover have "parse_hex_u64 (pre @ hex_of_nat n @ post) (length pre) (length pre + length (hex_of_nat n))
      = Some (word_of_nat n)"
    using parse_hex_u64_print [of pre "word_of_nat n" post] n by simp
  moreover have "\<not> (word_of_nat n :: u64) > 0x7FFFFFFF"
    using assms n by (simp add: word_less_nat_alt)
  moreover have "\<not> length pre + length (hex_of_nat n) \<le> length pre"
    by simp
  ultimately show ?thesis
    by (simp only: parse_component_def if_False simp_thms option.case n)
qed

lemma parse_print_thread_id:
  assumes "tid_ok p" and "tid_ok t"
  shows "parse_thread_id (print_thread_id (p, t)) = Some (p, t)"
proof -
  let ?h = "hex_of_nat (nat p)" and ?k = "hex_of_nat (nat t)"
  let ?s = "''p'' @ ?h @ ''.'' @ ?k"
  have nodot: "CHR ''.'' \<notin> set ?h" "CHR ''.'' \<notin> set ?k"
    by (rule hex_of_nat_no_separator, simp add: separators_def)+
  then have dot: "find_char ?s CHR ''.'' 1 = Some (1 + length ?h)"
    and nodot2: "find_char ?s CHR ''.'' (1 + length ?h + 1) = None"
    by (simp_all add: find_char_def index_of_append index_of_None_iff)
  have np: "nat p < 2 ^ 31" and nt: "nat t < 2 ^ 31"
    using assms by (auto simp: tid_ok_def nat_less_iff)
  have "parse_component ?s 1 (1 + length ?h) = Some p"
    using parse_component_hex [of "nat p" "''p''" "''.'' @ ?k"] assms(1) np by (simp add: tid_ok_def)
  moreover have "parse_component ?s (1 + length ?h + 1) (length ?s) = Some t"
    using parse_component_hex [of "nat t" "''p'' @ ?h @ ''.''" "[]"] assms(2) nt by (simp add: tid_ok_def)
  ultimately show ?thesis
    using dot nodot2 by (simp add: parse_thread_id_def print_thread_id_def Let_def)
qed

lemma parse_component_range: "parse_component s b e = Some v \<Longrightarrow> - 1 \<le> v \<and> v < 2 ^ 31"
proof -
  have "int (unat w) < 2 ^ 31" if "\<not> (w :: u64) > 0x7FFFFFFF" for w
    using that by (simp add: word_less_nat_alt del: of_nat_unat)
  then show "parse_component s b e = Some v \<Longrightarrow> - 1 \<le> v \<and> v < 2 ^ 31"
    by (auto simp: parse_component_def simp del: of_nat_unat split: if_splits option.splits)
qed

lemma parse_thread_id_range:
  "parse_thread_id s = Some (p, t) \<Longrightarrow> - 1 \<le> p \<and> p < 2 ^ 31 \<and> - 1 \<le> t \<and> t < 2 ^ 31"
  by (auto simp: parse_thread_id_def Let_def split: if_splits option.splits dest: parse_component_range)

interpretation tidc: codec print_thread_id parse_thread_id "\<lambda>(p, t). tid_ok p \<and> tid_ok t"
  by unfold_locales (auto simp: parse_print_thread_id)

section \<open>Properties of the protocol primitives\<close>

text \<open>
  C22. The mapped-range check decides coverage. For a request of at least one byte it answers
  yes iff the request does not run past the 64-bit address space and every address of it lies
  in some map, whatever the order, overlap or adjacency of the maps; the walk over the maps
  always terminates.
\<close>

theorem memory_range_mapped_correct:
  "gdb_memory_range_mapped maps address len \<longleftrightarrow>
     len = 0 \<or> (unat address + unat len < 2 ^ 64 \<and>
       (\<forall>a. address \<le> a \<and> a < address + len \<longrightarrow>
          (\<exists>m \<in> set maps. map_start m \<le> a \<and> a < map_end m)))"
  using gdb_memory_range_mapped_iff by (simp add: covers_def)

theorem memory_range_mapped_correct_witness:
  "gdb_memory_range_mapped
     [\<lparr>map_start = 0x3000, map_end = 0x4000, map_protection = 1, map_flags = 0, map_name = [], map_type = []\<rparr>,
      \<lparr>map_start = 0x1000, map_end = 0x3000, map_protection = 1, map_flags = 0, map_name = [], map_type = []\<rparr>]
     0x2FFF 2"
proof -
  have "(\<exists>m \<in> {\<lparr>map_start = 0x3000, map_end = 0x4000, map_protection = 1, map_flags = 0, map_name = [], map_type = []\<rparr>,
      \<lparr>map_start = 0x1000, map_end = 0x3000, map_protection = 1, map_flags = 0, map_name = [], map_type = []\<rparr>}.
      map_start m \<le> a \<and> a < map_end m)" if "0x2FFF \<le> a \<and> a < 0x3001" for a :: u64
    using that by (auto simp: word_le_nat_alt word_less_nat_alt)
  then show ?thesis
    by (subst memory_range_mapped_correct) simp
qed

text \<open>
  A \<^verbatim>\<open>qXfer\<close> object arrives complete. A debugger that reads the object in windows of
  any positive size, following the protocol's \<^verbatim>\<open>m\<close> (more) and \<^verbatim>\<open>l\<close> (last) marks,
  assembles exactly the document, and needs at most one request more than the document has
  characters.
\<close>

theorem qxfer_transfer_complete:
  "0 < n \<Longrightarrow> qxfer_read_all (Suc (length data)) (qxfer_slice data) n 0 = Some data"
  using qxfer_read_all_slice [of n data 0 "Suc (length data)"] by (simp del: qxfer_read_all.simps)

theorem qxfer_transfer_complete_witness:
  "qxfer_read_all 10 (qxfer_slice ''<threads>'') 4 0 = Some ''<threads>''"
  using qxfer_transfer_complete [of 4 "''<threads>''"] by (simp del: qxfer_read_all.simps add: eval_nat_numeral)

text \<open>
  Names are safe in the XML documents: the escaped text has no tag or attribute
  delimiter, and reading the entities back gives exactly the name.
\<close>

theorem xml_escape_safe:
  "xml_unescape (xml_escape s) = Some s \<and>
   set (xml_escape s) \<inter> {CHR ''<'', CHR ''>'', CHR 0x22, CHR 0x27} = {}"
  by (intro conjI xmlc.dec_enc [OF TrueI] xml_escape_no_markup)

text \<open>
  Thread ids. Parsing the multiprocess form the protocol prints gives back the process
  and the thread, and whatever the text, an accepted id is \<open>-1\<close> or a positive 32-bit
  value: the cast to \<^verbatim>\<open>int32_t\<close> never changes a value.
\<close>

theorem thread_id_roundtrip_and_range:
  assumes "tid_ok p" and "tid_ok t"
  shows "parse_thread_id (print_thread_id (p, t)) = Some (p, t) \<and>
    (\<forall>s p' t'. parse_thread_id s = Some (p', t') \<longrightarrow>
       - 1 \<le> p' \<and> p' < 2 ^ 31 \<and> - 1 \<le> t' \<and> t' < 2 ^ 31)"
  using tidc.dec_enc [of "(p, t)"] assms parse_thread_id_range by blast

theorem thread_id_roundtrip_and_range_witness:
  "parse_thread_id (print_thread_id (88, 100101)) = Some (88, 100101) \<and>
   print_thread_id (88, 100101) = ''p58.18705''"
proof -
  have "parse_thread_id (print_thread_id (88, 100101)) = Some (88, 100101)"
    using thread_id_roundtrip_and_range [of 88 100101] by (simp add: tid_ok_def)
  moreover have "print_thread_id (88, 100101) = ''p58.18705''"
    by (simp add: print_thread_id_def hex_of_nat.simps hex_digit_def char_of_eq_iff)
  ultimately show ?thesis by simp
qed

end
