(* ===== verification/Rsp_Framing.thy ===== *)
theory Rsp_Framing
  imports Rsp_Protocol
begin

text \<open>
  Packet framing of the bridge, \<^verbatim>\<open>src/tools/gdb_bridge/rsp_server.cpp\<close>: the checksum, the
  escape and run-length coding, and \<^verbatim>\<open>RspConnection\<close> with its reads, writes, the packet
  receiver and the packet sender. The socket is the environment: a list of what the
  successive \<^verbatim>\<open>recv\<close> calls return and a list of what the successive \<^verbatim>\<open>send\<close> calls
  return, both finite; a connection whose list is used up is closed for reading and accepts
  all it is given for writing. Receive timeouts only decide when \<^verbatim>\<open>recv\<close> gives up, so
  \<^verbatim>\<open>socket_set_recv_timeout\<close> has no state here and a timeout may appear at any read.
\<close>

section \<open>Checksum and escaping\<close>

definition kMaxRspPacketBytes :: nat where
  "kMaxRspPacketBytes = 0x200000"

definition rsp_checksum :: "string \<Rightarrow> byte" where
  "rsp_checksum payload =
     ucast (fold (\<lambda>c s. (s + word_of_nat (of_char c)) AND 0xFF) payload (0 :: u32))"

text \<open>\<^verbatim>\<open>c ^ 0x20U\<close> on a character.\<close>

definition xor20 :: "char \<Rightarrow> char" where
  "xor20 c = char_of_byte (byte_of_char c XOR 0x20)"

definition needs_escape :: "char \<Rightarrow> bool" where
  "needs_escape c \<longleftrightarrow> c = CHR ''$'' \<or> c = CHR ''#'' \<or> c = CHR ''}'' \<or> c = CHR ''*''"

fun rsp_escape :: "string \<Rightarrow> string" where
  "rsp_escape [] = []"
| "rsp_escape (c # cs) = (if needs_escape c then [CHR ''}'', xor20 c] else [c]) @ rsp_escape cs"

text \<open>\<^verbatim>\<open>a - b\<close> on \<^verbatim>\<open>size_t\<close>, which wraps.\<close>

definition size_sub :: "nat \<Rightarrow> nat \<Rightarrow> nat" where
  "size_sub a b = nat ((int a - int b) mod 2 ^ 64)"

text \<open>
  The loop of \<^verbatim>\<open>rsp_decode\<close>: the result flag and the contents of \<^verbatim>\<open>out\<close> at the
  return, which the caller sees even on failure.
\<close>

fun rsp_decode_loop :: "string \<Rightarrow> string \<Rightarrow> bool \<times> string" where
  "rsp_decode_loop [] out = (True, out)"
| "rsp_decode_loop (c # cs) out =
     (if c = CHR ''}'' then
        (case cs of [] \<Rightarrow> (False, out)
         | d # ds \<Rightarrow> rsp_decode_loop ds (out @ [xor20 d]))
      else if c = CHR ''*'' then
        (case cs of [] \<Rightarrow> (False, out)
         | d # ds \<Rightarrow>
             if out = [] then (False, out)
             else let encoded_count = (of_char d :: nat) in
               if encoded_count < 32 \<or> encoded_count > 126 then (False, out)
               else let repeat = encoded_count - 29 in
                 if repeat > size_sub kMaxRspPacketBytes (length out) then (False, out)
                 else rsp_decode_loop ds (out @ replicate repeat (last out)))
      else let out' = out @ [c] in
        if length out' > kMaxRspPacketBytes then (False, out') else rsp_decode_loop cs out')"

definition rsp_decode :: "string \<Rightarrow> bool \<times> string" where
  "rsp_decode encoded = rsp_decode_loop encoded []"

definition rsp_unescape :: "string \<Rightarrow> string" where
  "rsp_unescape escaped = (case rsp_decode escaped of (ok, out) \<Rightarrow> if ok then out else [])"

section \<open>The connection\<close>

datatype rx_event = RxByte char | RxClosed | RxTimeout | RxError

text \<open>\<open>Sent k\<close>: the call takes \<open>k + 1\<close> bytes, or all it was offered if that is less.\<close>

datatype tx_event = Sent nat | SendIntr | SendErr

record rsp_conn =
  fd_open :: bool
  no_ack :: bool
  rx_buf :: string
  rx :: "rx_event list"
  tx :: string
  tx_events :: "tx_event list"

record rsp_packet =
  payload :: string
  is_interrupt :: bool
  pkt_ok :: bool
  timed_out :: bool

definition conn_close :: "rsp_conn \<Rightarrow> rsp_conn" where
  "conn_close c = (if fd_open c then c\<lparr>fd_open := False\<rparr> else c)"

fun write_loop :: "tx_event list \<Rightarrow> string \<Rightarrow> bool \<times> string \<times> tx_event list" where
  "write_loop evs [] = (True, [], evs)"
| "write_loop [] data = (True, data, [])"
| "write_loop (SendIntr # evs) data = write_loop evs data"
| "write_loop (SendErr # evs) data = (False, [], evs)"
| "write_loop (Sent k # evs) data =
     (case write_loop evs (drop (Suc k) data) of
        (ok, sent, evs') \<Rightarrow> (ok, take (Suc k) data @ sent, evs'))"

definition write_all :: "string \<Rightarrow> rsp_conn \<Rightarrow> bool \<times> rsp_conn" where
  "write_all data c =
     (case write_loop (tx_events c) data of
        (ok, sent, evs) \<Rightarrow> (ok, c\<lparr>tx := tx c @ sent, tx_events := evs\<rparr>))"

text \<open>\<^verbatim>\<open>read_byte\<close>: a byte, the result \<^verbatim>\<open>-1\<close> or the result \<^verbatim>\<open>-2\<close> with \<^verbatim>\<open>*timed_out\<close> set.\<close>

datatype read_result = GotByte char | ReadClosed | ReadTimeout

definition read_byte :: "rsp_conn \<Rightarrow> read_result \<times> rsp_conn" where
  "read_byte c =
     (case rx_buf c of
        b # bs \<Rightarrow> (GotByte b, c\<lparr>rx_buf := bs\<rparr>)
      | [] \<Rightarrow> (case rx c of
          [] \<Rightarrow> (ReadClosed, c)
        | RxByte b # es \<Rightarrow> (GotByte b, c\<lparr>rx := es\<rparr>)
        | RxClosed # es \<Rightarrow> (ReadClosed, c\<lparr>rx := es\<rparr>)
        | RxTimeout # es \<Rightarrow> (ReadTimeout, c\<lparr>rx := es\<rparr>)
        | RxError # es \<Rightarrow> (ReadClosed, c\<lparr>rx := es\<rparr>)))"

definition send_ack :: "bool \<Rightarrow> rsp_conn \<Rightarrow> bool \<times> rsp_conn" where
  "send_ack positive c = write_all [if positive then CHR ''+'' else CHR ''-''] c"

text \<open>All that is still to be read: pushed-back bytes first, then the socket.\<close>

definition events :: "rsp_conn \<Rightarrow> rx_event list" where
  "events c = map RxByte (rx_buf c) @ rx c"

lemma read_byte_shrinks: "read_byte c = (GotByte b, c') \<Longrightarrow> length (events c') < length (events c)"
  by (auto simp: read_byte_def events_def split: list.splits rx_event.splits)

text \<open>The inner loop of \<^verbatim>\<open>recv_packet\<close>; \<^const>\<open>None\<close> is its early \<^verbatim>\<open>return packet\<close>.\<close>

function read_body :: "rsp_conn \<Rightarrow> string \<Rightarrow> string option \<times> rsp_conn" where
  "read_body c body =
     (case read_byte c of
        (GotByte ch, c') \<Rightarrow>
          if ch = CHR ''#'' then (Some body, c')
          else let body' = body @ [ch] in
            if length body' > kMaxRspPacketBytes then (None, c') else read_body c' body'
      | (_, c') \<Rightarrow> (None, c'))"
  by pat_completeness auto
termination
  by (relation "measure (\<lambda>(c, body). length (events c))") (auto dest: read_byte_shrinks [OF sym])

declare read_body.simps [simp del]

definition nack :: "rsp_conn \<Rightarrow> rsp_conn" where
  "nack c = (if no_ack c then c else snd (send_ack False c))"

definition ack :: "rsp_conn \<Rightarrow> rsp_conn" where
  "ack c = (if no_ack c then c else snd (send_ack True c))"

text \<open>The trailer check of one packet body: the decoded payload if everything matches.\<close>

datatype frame_verdict = Accept string | Reject string

definition check_frame :: "string \<Rightarrow> char \<Rightarrow> char \<Rightarrow> string \<Rightarrow> frame_verdict" where
  "check_frame body c1 c2 old_payload =
     (case hex_value c1 of None \<Rightarrow> Reject old_payload
      | Some hi \<Rightarrow> (case hex_value c2 of None \<Rightarrow> Reject old_payload
        | Some lo \<Rightarrow>
            if push_bit 4 (word_of_nat hi) OR word_of_nat lo \<noteq> rsp_checksum body
            then Reject old_payload
            else (case rsp_decode body of (ok, out) \<Rightarrow> if ok then Accept out else Reject out)))"

lemma read_byte_not_longer: "read_byte c = (r, c') \<Longrightarrow> length (events c') \<le> length (events c)"
  by (auto simp: read_byte_def events_def split: list.splits rx_event.splits)

lemma read_body_not_longer: "read_body c body = (r, c') \<Longrightarrow> length (events c') \<le> length (events c)"
proof (induction c body rule: read_body.induct)
  case (1 c body)
  obtain res c1 where rb: "read_byte c = (res, c1)" by force
  then have le: "length (events c1) \<le> length (events c)" by (rule read_byte_not_longer)
  show ?case
  proof (cases res)
    case (GotByte ch)
    show ?thesis
    proof (cases "ch = CHR ''#'' \<or> length (body @ [ch]) > kMaxRspPacketBytes")
      case True
      with "1.prems" rb GotByte le show ?thesis
        by (auto simp: read_body.simps [of c body] Let_def split: if_splits)
    next
      case False
      with "1.prems" rb GotByte have "read_body c1 (body @ [ch]) = (r, c')"
        by (simp add: read_body.simps [of c body] Let_def)
      with "1.IH" [OF rb [symmetric] GotByte _ refl] False le show ?thesis by simp
    qed
  qed (use "1.prems" rb le in \<open>simp_all add: read_body.simps [of c body]\<close>)
qed

lemma events_nack [simp]: "events (nack c) = events c" "events (ack c) = events c"
  by (auto simp: nack_def ack_def send_ack_def write_all_def events_def split: prod.splits)

text \<open>
  The outer loop of \<^verbatim>\<open>recv_packet\<close>. The argument carries \<^verbatim>\<open>packet.payload\<close>, which a
  body that fails to decode leaves behind. Every round reads at least one byte.
\<close>

function recv_loop :: "rsp_conn \<Rightarrow> string \<Rightarrow> rsp_packet \<times> rsp_conn" where
  "recv_loop c old =
     (case read_byte c of
        (ReadTimeout, c0) \<Rightarrow>
          (\<lparr>payload = old, is_interrupt = False, pkt_ok = False, timed_out = True\<rparr>, c0)
      | (ReadClosed, c0) \<Rightarrow>
          (\<lparr>payload = old, is_interrupt = False, pkt_ok = False, timed_out = False\<rparr>, c0)
      | (GotByte b, c0) \<Rightarrow>
          if b = CHR 0x03 then
            (\<lparr>payload = old, is_interrupt = True, pkt_ok = True, timed_out = False\<rparr>, c0)
          else if b \<noteq> CHR ''$'' then recv_loop c0 old
          else (case read_body c0 [] of
              (None, c1) \<Rightarrow>
                (\<lparr>payload = old, is_interrupt = False, pkt_ok = False, timed_out = False\<rparr>, c1)
            | (Some body, c1) \<Rightarrow>
                (case read_byte c1 of (r1, c2) \<Rightarrow> (case read_byte c2 of (r2, c3) \<Rightarrow>
                   (case r1 of
                      GotByte d1 \<Rightarrow> (case r2 of
                        GotByte d2 \<Rightarrow> (case check_frame body d1 d2 old of
                            Accept out \<Rightarrow>
                              (\<lparr>payload = out, is_interrupt = False, pkt_ok = True,
                                timed_out = False\<rparr>, ack c3)
                          | Reject out \<Rightarrow> recv_loop (nack c3) out)
                      | _ \<Rightarrow> (\<lparr>payload = old, is_interrupt = False, pkt_ok = False,
                                timed_out = False\<rparr>, c3))
                    | _ \<Rightarrow> (\<lparr>payload = old, is_interrupt = False, pkt_ok = False,
                              timed_out = False\<rparr>, c3))))))"
  by pat_completeness auto
termination
proof (relation "measure (\<lambda>(c, old). length (events c))", goal_cases)
  case 1
  show ?case by simp
next
  case (2 c old r c0 b)
  then show ?case by (auto dest: read_byte_shrinks [OF sym])
next
  case (3 c old r c0 b rb c1 body r1 c2 r2 c3 d1 d2 out)
  then have "length (events c0) < length (events c)"
    by (auto dest: read_byte_shrinks [OF sym])
  moreover have "length (events c1) \<le> length (events c0)"
    using 3 by (auto dest: read_body_not_longer [OF sym])
  moreover have "length (events c2) \<le> length (events c1)" "length (events c3) \<le> length (events c2)"
    using 3 by (auto dest: read_byte_not_longer [OF sym])
  ultimately show ?case by simp
qed

declare recv_loop.simps [simp del]

definition recv_packet :: "rsp_conn \<Rightarrow> rsp_packet \<times> rsp_conn" where
  "recv_packet c = recv_loop c []"

definition poll_interrupt :: "rsp_conn \<Rightarrow> bool \<times> rsp_conn" where
  "poll_interrupt c =
     (case read_byte c of
        (GotByte b, c') \<Rightarrow>
          if b = CHR 0x03 then (True, c') else (False, c'\<lparr>rx_buf := b # rx_buf c'\<rparr>)
      | (_, c') \<Rightarrow> (False, c'))"

text \<open>The bytes of one packet on the wire.\<close>

definition trailer :: "string \<Rightarrow> string" where
  "trailer escaped =
     (let cs = rsp_checksum escaped in
      [CHR ''#'', hex_digit (unat (drop_bit 4 cs AND 0x0F)), hex_digit (unat (cs AND 0x0F))])"

definition send_packet :: "string \<Rightarrow> rsp_conn \<Rightarrow> bool \<times> rsp_conn" where
  "send_packet reply c =
     (let escaped = rsp_escape reply in
      case write_all ''$'' c of (ok1, c1) \<Rightarrow> if \<not> ok1 then (False, c1) else
      case write_all escaped c1 of (ok2, c2) \<Rightarrow> if \<not> ok2 then (False, c2) else
      case write_all (trailer escaped) c2 of (ok3, c3) \<Rightarrow> if \<not> ok3 then (False, c3) else
      if no_ack c3 then (True, c3)
      else case read_byte c3 of (r, c4) \<Rightarrow> (r = GotByte (CHR ''+'') \<or> r = ReadTimeout, c4))"

section \<open>Escape coding\<close>

lemma xor20_xor20 [simp]: "xor20 (xor20 c) = c"
proof -
  have "(byte_of_char c XOR 0x20) XOR 0x20 = byte_of_char c"
    by (simp only: xor.assoc xor_self_eq xor.right_neutral)
  then show ?thesis by (simp add: xor20_def)
qed

lemma rsp_escape_append [simp]: "rsp_escape (xs @ ys) = rsp_escape xs @ rsp_escape ys"
  by (induction xs) auto

lemma xor20_escaped: "needs_escape c \<Longrightarrow> xor20 c \<noteq> CHR ''#''"
  by (auto simp: needs_escape_def xor20_def char_of_byte_def byte_of_char_def char_of_eq_iff)

lemma rsp_escape_no_hash: "CHR ''#'' \<notin> set (rsp_escape p)"
  by (induction p) (auto simp: xor20_escaped xor20_escaped [symmetric] needs_escape_def)

lemma rsp_decode_loop_escape:
  "length out + length p \<le> kMaxRspPacketBytes \<Longrightarrow>
     rsp_decode_loop (rsp_escape p @ rest) out = rsp_decode_loop rest (out @ p)"
proof (induction p arbitrary: out)
  case Nil
  then show ?case by simp
next
  case (Cons c cs)
  then show ?case
    by (cases "needs_escape c") (simp_all add: Let_def needs_escape_def)
qed

lemma length_rsp_escape: "length p \<le> length (rsp_escape p)"
  by (induction p) auto

lemma rsp_decode_escape:
  "length p \<le> kMaxRspPacketBytes \<Longrightarrow> rsp_decode (rsp_escape p) = (True, p)"
  using rsp_decode_loop_escape [of "[]" p "[]"] by (simp add: rsp_decode_def)

interpretation escc: codec rsp_escape
  "\<lambda>e. case rsp_decode e of (ok, out) \<Rightarrow> if ok then Some out else None"
  "\<lambda>p. length p \<le> kMaxRspPacketBytes"
  by unfold_locales (simp add: rsp_decode_escape)

section \<open>Reads consume the event stream\<close>

text \<open>Reading changes only the read side of the connection.\<close>

definition same_io :: "rsp_conn \<Rightarrow> rsp_conn \<Rightarrow> bool" where
  "same_io c c' \<longleftrightarrow> no_ack c' = no_ack c \<and> tx c' = tx c \<and> tx_events c' = tx_events c \<and>
     fd_open c' = fd_open c"

lemma same_io_refl [simp]: "same_io c c"
  by (simp add: same_io_def)

lemma same_io_trans [trans]: "same_io a b \<Longrightarrow> same_io b c \<Longrightarrow> same_io a c"
  by (simp add: same_io_def)

lemma read_byte_GotByteD:
  "read_byte c = (GotByte b, c') \<Longrightarrow> events c = RxByte b # events c' \<and> same_io c c'"
  by (auto simp: read_byte_def events_def same_io_def split: list.splits rx_event.splits)

lemma read_byte_events:
  "events c = RxByte b # es \<Longrightarrow> \<exists>c'. read_byte c = (GotByte b, c') \<and> events c' = es \<and> same_io c c'"
  by (auto simp: read_byte_def events_def same_io_def split: list.splits rx_event.splits)

lemma read_byte_suffix: "read_byte c = (r, c') \<Longrightarrow> \<exists>pre. events c = pre @ events c'"
  by (auto simp: read_byte_def events_def split: list.splits rx_event.splits)

lemma read_body_events:
  "events c = map RxByte (s @ ''#'') @ es \<Longrightarrow> CHR ''#'' \<notin> set s \<Longrightarrow>
     length body + length s \<le> kMaxRspPacketBytes \<Longrightarrow>
     \<exists>c'. read_body c body = (Some (body @ s), c') \<and> events c' = es \<and> same_io c c'"
proof (induction s arbitrary: c body)
  case Nil
  then obtain c' where "read_byte c = (GotByte CHR ''#'', c')" "events c' = es" "same_io c c'"
    using read_byte_events [of c "CHR ''#''" es] by auto
  then show ?case by (subst read_body.simps) simp
next
  case (Cons ch s)
  then obtain c1 where c1: "read_byte c = (GotByte ch, c1)" "events c1 = map RxByte (s @ ''#'') @ es"
    "same_io c c1"
    using read_byte_events [of c ch] by auto
  obtain c' where "read_body c1 (body @ [ch]) = (Some (body @ ch # s), c')"
    "events c' = es" "same_io c1 c'"
    using Cons.IH [OF c1(2), of "body @ [ch]"] Cons.prems by auto
  with c1 Cons.prems show ?case
    by (subst read_body.simps) (auto simp: Let_def intro: same_io_trans)
qed

lemma read_body_SomeD:
  "read_body c body = (Some b, c') \<Longrightarrow>
     \<exists>s. b = body @ s \<and> CHR ''#'' \<notin> set s \<and> events c = map RxByte (s @ ''#'') @ events c' \<and> same_io c c'"
proof (induction c body arbitrary: b c' rule: read_body.induct)
  case (1 c body)
  obtain r c1 where rb: "read_byte c = (r, c1)" by force
  with "1.prems" obtain ch where r: "r = GotByte ch"
    by (cases r) (auto simp: read_body.simps [of c body])
  with rb have ev: "events c = RxByte ch # events c1" and io: "same_io c c1"
    by (auto dest: read_byte_GotByteD)
  show ?case
  proof (cases "ch = CHR ''#''")
    case True
    with "1.prems" rb r ev io show ?thesis
      by (auto simp: read_body.simps [of c body])
  next
    case False
    with "1.prems" rb r have len: "\<not> length (body @ [ch]) > kMaxRspPacketBytes"
      and rest: "read_body c1 (body @ [ch]) = (Some b, c')"
      by (auto simp: read_body.simps [of c body] Let_def split: if_splits)
    from "1.IH" [OF rb [symmetric] r False refl len rest] obtain s where
      "b = body @ ch # s" "CHR ''#'' \<notin> set s" "events c1 = map RxByte (s @ ''#'') @ events c'" "same_io c1 c'"
      by auto
    with ev io False show ?thesis
      by (intro exI [of _ "ch # s"]) (auto intro: same_io_trans)
  qed
qed

section \<open>Writes\<close>

lemma write_loop_ok: "write_loop evs data = (True, sent, evs') \<Longrightarrow> sent = data"
  by (induction evs data arbitrary: sent evs' rule: write_loop.induct) (auto split: prod.splits)

lemma write_all_okD:
  "write_all data c = (True, c') \<Longrightarrow> tx c' = tx c @ data \<and> events c' = events c \<and>
     no_ack c' = no_ack c \<and> fd_open c' = fd_open c"
  by (auto simp: write_all_def events_def split: prod.splits dest: write_loop_ok)

lemma write_all_no_fault: "tx_events c = [] \<Longrightarrow> write_all data c = (True, c\<lparr>tx := tx c @ data\<rparr>)"
  by (cases data) (simp_all add: write_all_def)

definition frame :: "string \<Rightarrow> string" where
  "frame p = ''$'' @ rsp_escape p @ trailer (rsp_escape p)"

lemma send_packet_okD: "send_packet p c = (True, c') \<Longrightarrow> tx c' = tx c @ frame p"
proof -
  assume ok: "send_packet p c = (True, c')"
  then obtain c1 c2 c3 where w: "write_all ''$'' c = (True, c1)"
    "write_all (rsp_escape p) c1 = (True, c2)" "write_all (trailer (rsp_escape p)) c2 = (True, c3)"
    and c': "c' = c3 \<or> (\<exists>r. read_byte c3 = (r, c'))"
    by (auto simp: send_packet_def Let_def split: prod.splits if_splits)
  from c' have "tx c' = tx c3"
    by (auto simp: read_byte_def split: list.splits rx_event.splits)
  with w [THEN write_all_okD] show ?thesis by (simp add: frame_def)
qed

section \<open>Receiving\<close>

lemma check_frame_trailer:
  assumes "length p \<le> kMaxRspPacketBytes" and "trailer (rsp_escape p) = [h, d1, d2]"
  shows "h = CHR ''#''" and "check_frame (rsp_escape p) d1 d2 old = Accept p"
proof -
  let ?cs = "rsp_checksum (rsp_escape p)"
  have "unat ?cs < 256" using unsigned_less [of ?cs, where 'a = nat] by simp
  then have v: "hex_value (hex_digit (unat ?cs div 16)) = Some (unat ?cs div 16)"
    by simp
  have t: "trailer (rsp_escape p) = [CHR ''#'', hex_digit (unat ?cs div 16), hex_digit (unat ?cs mod 16)]"
    by (simp only: trailer_def Let_def unat_high_nibble) (simp only: unat_low_nibble)
  with assms(2) show "h = CHR ''#''" by simp
  from t assms(2) v show "check_frame (rsp_escape p) d1 d2 old = Accept p"
    by (auto simp: check_frame_def nibbles_byte rsp_decode_escape [OF assms(1)])
qed

text \<open>A complete packet at the head of the stream is accepted or rejected as a whole.\<close>

lemma recv_loop_frame:
  assumes "events c = map RxByte (''$'' @ body @ [CHR ''#'', d1, d2]) @ es"
    and "CHR ''#'' \<notin> set body" and "length body \<le> kMaxRspPacketBytes"
  shows "\<exists>c3. events c3 = es \<and> same_io c c3 \<and>
    recv_loop c old = (case check_frame body d1 d2 old of
        Accept out \<Rightarrow> (\<lparr>payload = out, is_interrupt = False, pkt_ok = True, timed_out = False\<rparr>, ack c3)
      | Reject out \<Rightarrow> recv_loop (nack c3) out)"
proof -
  obtain c0 where c0: "read_byte c = (GotByte CHR ''$'', c0)"
    "events c0 = map RxByte (body @ ''#'') @ RxByte d1 # RxByte d2 # es" "same_io c c0"
    using read_byte_events [of c "CHR ''$''"] assms(1) by auto
  obtain c1 where c1: "read_body c0 [] = (Some body, c1)" "events c1 = RxByte d1 # RxByte d2 # es"
    "same_io c0 c1"
    using read_body_events [OF c0(2) assms(2), of "[]"] assms(3) by auto
  obtain c2 where c2: "read_byte c1 = (GotByte d1, c2)" "events c2 = RxByte d2 # es" "same_io c1 c2"
    using read_byte_events [OF c1(2)] by auto
  obtain c3 where c3: "read_byte c2 = (GotByte d2, c3)" "events c3 = es" "same_io c2 c3"
    using read_byte_events [OF c2(2)] by auto
  have "recv_loop c old = (case check_frame body d1 d2 old of
        Accept out \<Rightarrow> (\<lparr>payload = out, is_interrupt = False, pkt_ok = True, timed_out = False\<rparr>, ack c3)
      | Reject out \<Rightarrow> recv_loop (nack c3) out)"
    using c0(1) c1(1) c2(1) c3(1) by (subst recv_loop.simps) simp
  moreover have "same_io c c3"
    using c0(3) c1(3) c2(3) c3(3) by (simp add: same_io_def)
  ultimately show ?thesis using c3(2) by blast
qed

lemma recv_loop_skip:
  assumes "events c = map RxByte noise @ es" and "set noise \<inter> {CHR ''$'', CHR 0x03} = {}"
  shows "\<exists>c'. events c' = es \<and> same_io c c' \<and> recv_loop c old = recv_loop c' old"
  using assms
proof (induction noise arbitrary: c)
  case Nil
  then show ?case by auto
next
  case (Cons b noise)
  then obtain c1 where c1: "read_byte c = (GotByte b, c1)" "events c1 = map RxByte noise @ es" "same_io c c1"
    using read_byte_events [of c b] by auto
  from Cons.prems(2) have "b \<noteq> CHR ''$''" "b \<noteq> CHR 0x03" by auto
  with c1(1) have "recv_loop c old = recv_loop c1 old"
    by (subst recv_loop.simps) simp
  moreover obtain c' where "events c' = es" "same_io c1 c'" "recv_loop c1 old = recv_loop c' old"
    using Cons.IH [OF c1(2)] Cons.prems(2) by auto
  ultimately show ?case
    using c1(3) same_io_trans by auto
qed

lemma tx_ack:
  "tx_events c = [] \<Longrightarrow> tx (ack c) = tx c @ (if no_ack c then [] else ''+'')"
  "tx_events c = [] \<Longrightarrow> tx (nack c) = tx c @ (if no_ack c then [] else ''-'')"
  "tx_events c = [] \<Longrightarrow> tx_events (nack c) = []"
  by (simp_all add: ack_def nack_def send_ack_def write_all_no_fault)

lemma same_io_nack: "no_ack (nack c) = no_ack c"
  by (simp add: nack_def send_ack_def write_all_def split: prod.splits)

lemma recv_frame:
  assumes "events c = map RxByte (noise @ frame p) @ es"
    and "set noise \<inter> {CHR ''$'', CHR 0x03} = {}"
    and "length (rsp_escape p) \<le> kMaxRspPacketBytes"
  shows "\<exists>c3. events c3 = es \<and> same_io c c3 \<and>
    recv_loop c old = (\<lparr>payload = p, is_interrupt = False, pkt_ok = True, timed_out = False\<rparr>, ack c3)"
proof -
  obtain h d1 d2 where t: "trailer (rsp_escape p) = [h, d1, d2]"
    by (simp add: trailer_def Let_def)
  have len: "length p \<le> kMaxRspPacketBytes"
    using length_rsp_escape assms(3) order_trans by blast
  note chk = check_frame_trailer [OF len t]
  obtain c1 where c1: "events c1 = map RxByte (frame p) @ es" "same_io c c1" "recv_loop c old = recv_loop c1 old"
    using recv_loop_skip [of c noise "map RxByte (frame p) @ es" old] assms(1,2) by auto
  have "events c1 = map RxByte (''$'' @ rsp_escape p @ [CHR ''#'', d1, d2]) @ es"
    using c1(1) t chk(1) by (simp add: frame_def)
  from recv_loop_frame [OF this rsp_escape_no_hash assms(3), of old] c1(2,3) chk(2) [of old] same_io_trans
  show ?thesis by auto
qed

text \<open>The ways \<^verbatim>\<open>recv_packet\<close> can come to deliver something.\<close>

lemma recv_loop_okE:
  assumes "recv_loop c old = (pkt, c')" and "pkt_ok pkt"
  obtains (intr) "events c = RxByte CHR 0x03 # events c'" "is_interrupt pkt"
  | (skip) b c0 where "events c = RxByte b # events c0" "recv_loop c0 old = (pkt, c')"
  | (accept) body d1 d2 where "events c = map RxByte (''$'' @ body @ [CHR ''#'', d1, d2]) @ events c'"
      "CHR ''#'' \<notin> set body" "check_frame body d1 d2 old = Accept (payload pkt)" "\<not> is_interrupt pkt"
  | (reject) body d1 d2 c1 out where
      "events c = map RxByte (''$'' @ body @ [CHR ''#'', d1, d2]) @ events c1" "recv_loop c1 out = (pkt, c')"
proof -
  obtain r c0 where r: "read_byte c = (r, c0)" by force
  with assms obtain b where b: "r = GotByte b"
    by (cases r) (auto simp: recv_loop.simps [of c old])
  have ev: "events c = RxByte b # events c0"
    using r b by (auto dest: read_byte_GotByteD)
  consider "b = CHR 0x03" | "b \<noteq> CHR 0x03" "b \<noteq> CHR ''$''" | (dollar) "b = CHR ''$''"
    by blast
  then show thesis
  proof cases
    case 1
    with assms(1) r b have "is_interrupt pkt" "c' = c0"
      by (auto simp: recv_loop.simps [of c old])
    with ev 1 intr show thesis by auto
  next
    case 2
    with assms(1) r b have "recv_loop c0 old = (pkt, c')"
      by (simp add: recv_loop.simps [of c old])
    with ev skip show thesis by blast
  next
    case dollar
    obtain bo c1 where bo: "read_body c0 [] = (bo, c1)" by force
    with assms r b dollar obtain body where body: "bo = Some body"
      by (cases bo) (auto simp: recv_loop.simps [of c old])
    obtain r1 c2 where r1: "read_byte c1 = (r1, c2)" by force
    obtain r2 c3 where r2: "read_byte c2 = (r2, c3)" by force
    from assms r b dollar bo body r1 r2 obtain d1 d2 where d: "r1 = GotByte d1" "r2 = GotByte d2"
      by (cases r1; cases r2) (auto simp: recv_loop.simps [of c old])
    have b0: "CHR ''#'' \<notin> set body" "events c0 = map RxByte (body @ ''#'') @ events c1"
      using read_body_SomeD [of c0 "[]" body c1] bo body by auto
    have "events c1 = RxByte d1 # RxByte d2 # events c3"
      using r1 r2 d by (auto dest!: read_byte_GotByteD)
    with ev b0 dollar have ev3: "events c = map RxByte (''$'' @ body @ [CHR ''#'', d1, d2]) @ events c3"
      by simp
    show thesis
      using assms(1) r b dollar bo body r1 r2 d b0(1) ev3 accept [of body d1 d2]
        reject [of body d1 d2 "nack c3"]
      by (cases "check_frame body d1 d2 old") (auto simp: recv_loop.simps [of c old])
  qed
qed

text \<open>What must have been on the wire for a packet to be delivered.\<close>

definition justifies :: "rx_event list \<Rightarrow> rsp_packet \<Rightarrow> bool" where
  "justifies es pkt \<longleftrightarrow>
     (if is_interrupt pkt then \<exists>pre. es = pre @ [RxByte CHR 0x03]
      else \<exists>pre body d1 d2 hi lo. es = pre @ map RxByte (''$'' @ body @ [CHR ''#'', d1, d2]) \<and>
        CHR ''#'' \<notin> set body \<and> hex_value d1 = Some hi \<and> hex_value d2 = Some lo \<and>
        push_bit 4 (word_of_nat hi) OR word_of_nat lo = rsp_checksum body \<and>
        rsp_decode body = (True, payload pkt))"

lemma justifies_append: "justifies es pkt \<Longrightarrow> justifies (xs @ es) pkt"
  unfolding justifies_def by (metis append_assoc)

lemma check_frame_AcceptD:
  "check_frame body d1 d2 old = Accept out \<Longrightarrow> \<exists>hi lo. hex_value d1 = Some hi \<and> hex_value d2 = Some lo \<and>
     push_bit 4 (word_of_nat hi) OR word_of_nat lo = rsp_checksum body \<and> rsp_decode body = (True, out)"
  by (auto simp: check_frame_def split: option.splits if_splits prod.splits)

lemma recv_loop_justified:
  "recv_loop c old = (pkt, c') \<Longrightarrow> pkt_ok pkt \<Longrightarrow> \<exists>es. events c = es @ events c' \<and> justifies es pkt"
proof (induction "length (events c)" arbitrary: c old rule: less_induct)
  case less
  from less.prems show ?case
  proof (cases rule: recv_loop_okE)
    case intr
    then show ?thesis
      by (intro exI [of _ "[RxByte CHR 0x03]"]) (auto simp: justifies_def)
  next
    case (skip b c0)
    with less.hyps [of c0 old] less.prems(2) obtain es where "events c0 = es @ events c'" "justifies es pkt"
      by auto
    with skip(1) justifies_append [of es pkt "[RxByte b]"] show ?thesis
      by (intro exI [of _ "RxByte b # es"]) auto
  next
    case (accept body d1 d2)
    then have "justifies (map RxByte (''$'' @ body @ [CHR ''#'', d1, d2])) pkt"
      using check_frame_AcceptD [OF accept(3)] unfolding justifies_def by (auto intro: exI [of _ "[]"])
    with accept(1) show ?thesis by blast
  next
    case (reject body d1 d2 c1 out)
    with less.hyps [of c1 out] less.prems(2) obtain es where "events c1 = es @ events c'" "justifies es pkt"
      by auto
    with reject(1) justifies_append show ?thesis
      by (metis append_assoc)
  qed
qed

section \<open>Properties of the framing\<close>

text \<open>
  C17. Round trip of a packet between two peers. Whatever bytes a successful
  \<^verbatim>\<open>send_packet\<close> put on the wire, a receiver that finds them in its stream, possibly
  after acknowledgement characters and other noise, returns exactly the payload that was
  sent, leaves the rest of the stream unread and answers with one \<^verbatim>\<open>+\<close>, unless it is in
  no-acknowledgement mode.
\<close>

theorem send_recv_roundtrip:
  assumes sent: "send_packet p a = (True, a')"
    and wire: "events b = map RxByte (noise @ drop (length (tx a)) (tx a')) @ es"
    and noise: "set noise \<inter> {CHR ''$'', CHR 0x03} = {}"
    and fits: "length (rsp_escape p) \<le> kMaxRspPacketBytes"
    and quiet: "tx_events b = []"
  shows "\<exists>b'. recv_packet b = (\<lparr>payload = p, is_interrupt = False, pkt_ok = True, timed_out = False\<rparr>, b') \<and>
    events b' = es \<and> tx b' = tx b @ (if no_ack b then [] else ''+'')"
proof -
  have "drop (length (tx a)) (tx a') = frame p"
    using send_packet_okD [OF sent] by simp
  with wire recv_frame [of b noise p es "[]"] noise fits obtain c3 where
    c3: "events c3 = es" "same_io b c3"
      "recv_packet b = (\<lparr>payload = p, is_interrupt = False, pkt_ok = True, timed_out = False\<rparr>, ack c3)"
    by (auto simp: recv_packet_def)
  then show ?thesis
    using quiet tx_ack(1) [of c3] by (auto simp: same_io_def)
qed

theorem send_recv_roundtrip_witness:
  "\<exists>b'. recv_packet \<lparr>fd_open = True, no_ack = False, rx_buf = ''+'', rx = map RxByte ''$OK#9a'', tx = [], tx_events = []\<rparr>
     = (\<lparr>payload = ''OK'', is_interrupt = False, pkt_ok = True, timed_out = False\<rparr>, b') \<and>
    events b' = [] \<and> tx b' = ''+''"
proof -
  let ?a = "\<lparr>fd_open = True, no_ack = True, rx_buf = [], rx = [], tx = [], tx_events = []\<rparr> :: rsp_conn"
  have s: "send_packet ''OK'' ?a = (True, ?a\<lparr>tx := ''$OK#9a''\<rparr>)"
    by code_simp
  show ?thesis
    using send_recv_roundtrip [OF s, of
        "\<lparr>fd_open = True, no_ack = False, rx_buf = ''+'', rx = map RxByte ''$OK#9a'', tx = [], tx_events = []\<rparr>"
        "''+''" "[]"]
    by (simp add: events_def needs_escape_def kMaxRspPacketBytes_def)
qed

text \<open>
  C18. Soundness of the receiver. A packet is delivered only if its bytes were on the wire,
  immediately before what is left of the stream: a \<^verbatim>\<open>$\<close>, a body without \<^verbatim>\<open>#\<close>, the
  \<^verbatim>\<open>#\<close> and two hexadecimal digits that are the checksum of the body, and the payload is the
  decoding of that body. An interrupt is delivered only for a byte \<^verbatim>\<open>0x03\<close>.
\<close>

theorem recv_packet_sound:
  assumes "recv_packet c = (pkt, c')" and "pkt_ok pkt"
  shows "\<exists>es. events c = es @ events c' \<and>
    (if is_interrupt pkt then \<exists>pre. es = pre @ [RxByte CHR 0x03]
     else \<exists>pre body d1 d2 hi lo. es = pre @ map RxByte (''$'' @ body @ [CHR ''#'', d1, d2]) \<and>
       CHR ''#'' \<notin> set body \<and> hex_value d1 = Some hi \<and> hex_value d2 = Some lo \<and>
       push_bit 4 (word_of_nat hi) OR word_of_nat lo = rsp_checksum body \<and>
       rsp_decode body = (True, payload pkt))"
  using recv_loop_justified assms unfolding recv_packet_def justifies_def by blast

theorem recv_packet_sound_witness:
  "\<exists>es. map RxByte ''$?#3f'' = es @ [] \<and>
     (\<exists>pre body d1 d2 hi lo. es = pre @ map RxByte (''$'' @ body @ [CHR ''#'', d1, d2]) \<and>
       CHR ''#'' \<notin> set body \<and> hex_value d1 = Some hi \<and> hex_value d2 = Some lo \<and>
       push_bit 4 (word_of_nat hi) OR word_of_nat lo = rsp_checksum body \<and>
       rsp_decode body = (True, ''?''))"
proof -
  let ?c = "\<lparr>fd_open = True, no_ack = True, rx_buf = [], rx = map RxByte ''$?#3f'', tx = [], tx_events = []\<rparr> :: rsp_conn"
  have "frame ''?'' = ''$?#3f''"
    by code_simp
  then obtain c' where r: "recv_packet ?c = (\<lparr>payload = ''?'', is_interrupt = False, pkt_ok = True, timed_out = False\<rparr>, c')"
    and "events c' = []"
    using recv_frame [of ?c "[]" "''?''" "[]" "[]"]
    by (auto simp: recv_packet_def events_def needs_escape_def kMaxRspPacketBytes_def ack_def same_io_def)
  with recv_packet_sound [OF r] show ?thesis
    by (simp add: events_def)
qed

text \<open>
  C19. Resynchronisation. A packet whose trailer or coding is wrong is answered with one
  \<^verbatim>\<open>-\<close> and dropped as a whole, and an intact packet behind it is still delivered and
  answered with one \<^verbatim>\<open>+\<close>.
\<close>

theorem recv_resync_after_bad_frame:
  assumes "events c = map RxByte (''$'' @ bad @ [CHR ''#'', d1, d2] @ frame p) @ es"
    and "CHR ''#'' \<notin> set bad" and "length bad \<le> kMaxRspPacketBytes"
    and "check_frame bad d1 d2 [] = Reject junk"
    and "length (rsp_escape p) \<le> kMaxRspPacketBytes" and "tx_events c = []"
  shows "\<exists>c'. recv_packet c = (\<lparr>payload = p, is_interrupt = False, pkt_ok = True, timed_out = False\<rparr>, c') \<and>
    events c' = es \<and> tx c' = tx c @ (if no_ack c then [] else ''-+'')"
proof -
  obtain c3 where c3: "events c3 = map RxByte (frame p) @ es" "same_io c c3"
    "recv_packet c = recv_loop (nack c3) junk"
    using recv_loop_frame [of c bad d1 d2 "map RxByte (frame p) @ es" "[]"] assms
    by (auto simp: recv_packet_def)
  then obtain c4 where c4: "events c4 = es" "same_io (nack c3) c4"
    "recv_packet c = (\<lparr>payload = p, is_interrupt = False, pkt_ok = True, timed_out = False\<rparr>, ack c4)"
    using recv_frame [of "nack c3" "[]" p es junk] assms(5) by auto
  have "tx (ack c4) = tx c @ (if no_ack c then [] else ''-+'')"
    using c3(2) c4(2) assms(6) tx_ack [of c3] tx_ack(1) [of c4] same_io_nack [of c3]
    by (auto simp: same_io_def)
  with c4 show ?thesis by simp
qed

theorem recv_resync_after_bad_frame_witness:
  "\<exists>c'. recv_packet \<lparr>fd_open = True, no_ack = False, rx_buf = [], rx = map RxByte (''$OK#00'' @ frame ''OK''),
       tx = [], tx_events = []\<rparr>
     = (\<lparr>payload = ''OK'', is_interrupt = False, pkt_ok = True, timed_out = False\<rparr>, c') \<and>
    events c' = [] \<and> tx c' = ''-+''"
proof -
  let ?c = "\<lparr>fd_open = True, no_ack = False, rx_buf = [], rx = map RxByte (''$OK#00'' @ frame ''OK''),
       tx = [], tx_events = []\<rparr> :: rsp_conn"
  have "check_frame ''OK'' CHR ''0'' CHR ''0'' [] = Reject []"
    by code_simp
  from recv_resync_after_bad_frame [OF _ _ _ this, of ?c "''OK''" "[]"] show ?thesis
    by (simp add: events_def needs_escape_def kMaxRspPacketBytes_def)
qed

lemma size_sub_le [simp]: "n \<le> kMaxRspPacketBytes \<Longrightarrow> size_sub kMaxRspPacketBytes n = kMaxRspPacketBytes - n"
  by (simp add: size_sub_def kMaxRspPacketBytes_def)

lemma decode_runs:
  "0 < m \<Longrightarrow> m + 97 * n \<le> kMaxRspPacketBytes \<Longrightarrow>
     rsp_decode_loop (concat (replicate n ''*~'') @ rest) (replicate m CHR ''a'')
       = rsp_decode_loop rest (replicate (m + 97 * n) CHR ''a'')"
proof (induction n arbitrary: m)
  case (Suc n)
  then have "\<not> kMaxRspPacketBytes - m < 97" by simp
  then have "rsp_decode_loop (concat (replicate (Suc n) ''*~'') @ rest) (replicate m CHR ''a'')
      = rsp_decode_loop (concat (replicate n ''*~'') @ rest) (replicate (m + 97) CHR ''a'')"
    using Suc.prems by (simp add: Let_def replicate_add)
  also have "\<dots> = rsp_decode_loop rest (replicate (m + 97 + 97 * n) CHR ''a'')"
    by (rule Suc.IH) (use Suc.prems in simp_all)
  finally show ?case by (simp add: ac_simps)
qed simp

lemma decode_plain:
  "m + n \<le> kMaxRspPacketBytes \<Longrightarrow>
     rsp_decode_loop (replicate n CHR ''a'' @ rest) (replicate m CHR ''a'')
       = rsp_decode_loop rest (replicate (m + n) CHR ''a'')"
proof (induction n arbitrary: m)
  case (Suc n)
  then have "rsp_decode_loop (replicate (Suc n) CHR ''a'' @ rest) (replicate m CHR ''a'')
      = rsp_decode_loop (replicate n CHR ''a'' @ rest) (replicate (Suc m) CHR ''a'')"
    by (simp add: Let_def replicate_append_same)
  with Suc.IH [of "Suc m"] Suc.prems show ?case by simp
qed simp

text \<open>
  C39. The size limit of decoded packets can be bypassed. \<^verbatim>\<open>kMaxRspPacketBytes\<close> bounds the
  decoded size on the plain and the run-length paths, but the escape path appends without the
  check, so the subtraction \<^verbatim>\<open>kMaxRspPacketBytes - out.size()\<close> can wrap around and every
  later run is accepted: a body far below the limit decodes to more than the limit.
\<close>

theorem rsp_decode_limit_bypass:
  "\<exists>body out. length body \<le> 50000 \<and> rsp_decode body = (True, out) \<and> length out > kMaxRspPacketBytes"
proof -
  let ?k = 21620
  let ?body = "''a'' @ concat (replicate ?k ''*~'') @ replicate 11 CHR ''a'' @ ''}A*~''"
  have full: "1 + 97 * ?k + 11 = kMaxRspPacketBytes"
    by (simp add: kMaxRspPacketBytes_def)
  have wrap: "size_sub kMaxRspPacketBytes (Suc kMaxRspPacketBytes) = 2 ^ 64 - 1"
    by (simp add: size_sub_def)
  have "rsp_decode ?body = rsp_decode_loop (concat (replicate ?k ''*~'') @ replicate 11 CHR ''a'' @ ''}A*~'')
      (replicate 1 CHR ''a'')"
    by (simp add: rsp_decode_def Let_def kMaxRspPacketBytes_def)
  also have "\<dots> = rsp_decode_loop (replicate 11 CHR ''a'' @ ''}A*~'') (replicate (1 + 97 * ?k) CHR ''a'')"
    by (rule decode_runs) (simp_all add: kMaxRspPacketBytes_def)
  also have "\<dots> = rsp_decode_loop ''}A*~'' (replicate kMaxRspPacketBytes CHR ''a'')"
    using decode_plain [of "1 + 97 * ?k" 11 "''}A*~''", unfolded full] by (simp only: order_refl)
  also have "\<dots> = (True, replicate kMaxRspPacketBytes CHR ''a'' @ xor20 CHR ''A'' # replicate 97 (xor20 CHR ''A''))"
    using wrap by (simp add: Let_def)
  finally have dec: "rsp_decode ?body = \<dots>" .
  have "length ?body \<le> 50000"
    by (simp add: length_concat sum_list_replicate)
  with dec show ?thesis
    by (intro exI [of _ ?body] exI conjI) (assumption, assumption, simp)
qed

end
