(* ===== verification/Gdb_Regs.thy ===== *)
theory Gdb_Regs
  imports Hex_Codec
begin

text \<open>
  The register file on the wire, \<^verbatim>\<open>src/tools/gdb_bridge/gdb_regs.cpp\<close>: the amd64
  register numbering of GDB, access to the core registers of \<^verbatim>\<open>memdbg_debug_regs_t\<close> and
  to the x87 and SSE registers in the FXSAVE image of \<^verbatim>\<open>memdbg_debug_fpregs_t\<close>, and the
  \<^verbatim>\<open>g\<close>/\<^verbatim>\<open>G\<close> packets. Register files are an interface (locale \<open>register_file\<close>) with
  the core registers and the FXSAVE image as its two instances; that a packet written back
  restores every register is proved once, for the interface.
\<close>

section \<open>Structures\<close>

text \<open>The signed fields of \<^verbatim>\<open>memdbg_debug_regs_t\<close> are only cast to and from unsigned.\<close>

record debug_regs =
  r_r15 :: u64
  r_r14 :: u64
  r_r13 :: u64
  r_r12 :: u64
  r_r11 :: u64
  r_r10 :: u64
  r_r9 :: u64
  r_r8 :: u64
  r_rdi :: u64
  r_rsi :: u64
  r_rbp :: u64
  r_rbx :: u64
  r_rdx :: u64
  r_rcx :: u64
  r_rax :: u64
  r_trapno :: u32
  r_fs :: u16
  r_gs :: u16
  r_err :: u32
  r_es :: u16
  r_ds :: u16
  r_rip :: u64
  r_cs :: u64
  r_rflags :: u64
  r_rsp :: u64
  r_ss :: u64

record debug_fpregs =
  fp_length :: nat
  fp_flags :: u32
  fp_data :: "byte list"

definition kFxsaveMinLen :: nat where
  "kFxsaveMinLen = 512"

definition kGdbCorePacketHexSize :: nat where
  "kGdbCorePacketHexSize = 328"

definition kGdbPacketHexSize :: nat where
  "kGdbPacketHexSize = 1072"

text \<open>The value-initialised structures \<^verbatim>\<open>memdbg_debug_regs_t regs{}\<close> and
  \<^verbatim>\<open>memdbg_debug_fpregs_t fpregs{}\<close>.\<close>

definition zero_regs :: debug_regs where
  "zero_regs = \<lparr>r_r15 = 0, r_r14 = 0, r_r13 = 0, r_r12 = 0, r_r11 = 0, r_r10 = 0, r_r9 = 0, r_r8 = 0,
     r_rdi = 0, r_rsi = 0, r_rbp = 0, r_rbx = 0, r_rdx = 0, r_rcx = 0, r_rax = 0, r_trapno = 0, r_fs = 0,
     r_gs = 0, r_err = 0, r_es = 0, r_ds = 0, r_rip = 0, r_cs = 0, r_rflags = 0, r_rsp = 0, r_ss = 0\<rparr>"

definition zero_fpregs :: debug_fpregs where
  "zero_fpregs = \<lparr>fp_length = 0, fp_flags = 0, fp_data = replicate 1024 0\<rparr>"

section \<open>Register properties\<close>

definition gdb_reg_is_core :: "int \<Rightarrow> bool" where
  "gdb_reg_is_core regno \<longleftrightarrow> regno \<ge> 0 \<and> regno < 24"

definition gdb_reg_is_x87 :: "int \<Rightarrow> bool" where
  "gdb_reg_is_x87 regno \<longleftrightarrow> regno \<ge> 24 \<and> regno \<le> 39"

definition gdb_reg_is_sse :: "int \<Rightarrow> bool" where
  "gdb_reg_is_sse regno \<longleftrightarrow> (regno \<ge> 40 \<and> regno \<le> 55) \<or> regno = 56"

definition gdb_reg_valid :: "int \<Rightarrow> bool" where
  "gdb_reg_valid regno \<longleftrightarrow> gdb_reg_is_core regno \<or> gdb_reg_is_x87 regno \<or> gdb_reg_is_sse regno"

definition gdb_reg_size :: "int \<Rightarrow> nat" where
  "gdb_reg_size regno =
     (if gdb_reg_is_core regno then (if regno \<le> 16 then 8 else 4)
      else if gdb_reg_is_x87 regno then (if regno \<le> 31 then 10 else 4)
      else if regno \<ge> 40 \<and> regno \<le> 55 then 16
      else if regno = 56 then 4 else 0)"

section \<open>Core registers\<close>

definition gdb_get_reg_value :: "debug_regs \<Rightarrow> int \<Rightarrow> u64" where
  "gdb_get_reg_value regs regno =
     (if regno = 0 then r_rax regs else if regno = 1 then r_rbx regs
      else if regno = 2 then r_rcx regs else if regno = 3 then r_rdx regs
      else if regno = 4 then r_rsi regs else if regno = 5 then r_rdi regs
      else if regno = 6 then r_rbp regs else if regno = 7 then r_rsp regs
      else if regno = 8 then r_r8 regs else if regno = 9 then r_r9 regs
      else if regno = 10 then r_r10 regs else if regno = 11 then r_r11 regs
      else if regno = 12 then r_r12 regs else if regno = 13 then r_r13 regs
      else if regno = 14 then r_r14 regs else if regno = 15 then r_r15 regs
      else if regno = 16 then r_rip regs
      else if regno = 17 then r_rflags regs AND 0xFFFFFFFF
      else if regno = 18 then r_cs regs AND 0xFFFFFFFF
      else if regno = 19 then r_ss regs AND 0xFFFFFFFF
      else if regno = 20 then ucast (r_ds regs) else if regno = 21 then ucast (r_es regs)
      else if regno = 22 then ucast (r_fs regs) else if regno = 23 then ucast (r_gs regs)
      else 0)"

definition gdb_set_reg_value :: "debug_regs \<Rightarrow> int \<Rightarrow> u64 \<Rightarrow> debug_regs option" where
  "gdb_set_reg_value regs regno v =
     (if regno = 0 then Some (regs\<lparr>r_rax := v\<rparr>) else if regno = 1 then Some (regs\<lparr>r_rbx := v\<rparr>)
      else if regno = 2 then Some (regs\<lparr>r_rcx := v\<rparr>) else if regno = 3 then Some (regs\<lparr>r_rdx := v\<rparr>)
      else if regno = 4 then Some (regs\<lparr>r_rsi := v\<rparr>) else if regno = 5 then Some (regs\<lparr>r_rdi := v\<rparr>)
      else if regno = 6 then Some (regs\<lparr>r_rbp := v\<rparr>) else if regno = 7 then Some (regs\<lparr>r_rsp := v\<rparr>)
      else if regno = 8 then Some (regs\<lparr>r_r8 := v\<rparr>) else if regno = 9 then Some (regs\<lparr>r_r9 := v\<rparr>)
      else if regno = 10 then Some (regs\<lparr>r_r10 := v\<rparr>) else if regno = 11 then Some (regs\<lparr>r_r11 := v\<rparr>)
      else if regno = 12 then Some (regs\<lparr>r_r12 := v\<rparr>) else if regno = 13 then Some (regs\<lparr>r_r13 := v\<rparr>)
      else if regno = 14 then Some (regs\<lparr>r_r14 := v\<rparr>) else if regno = 15 then Some (regs\<lparr>r_r15 := v\<rparr>)
      else if regno = 16 then Some (regs\<lparr>r_rip := v\<rparr>)
      else if regno = 17 then
        Some (regs\<lparr>r_rflags := (r_rflags regs AND NOT 0xFFFFFFFF) OR (v AND 0xFFFFFFFF)\<rparr>)
      else if regno = 18 then Some (regs\<lparr>r_cs := v AND 0xFFFFFFFF\<rparr>)
      else if regno = 19 then Some (regs\<lparr>r_ss := v AND 0xFFFFFFFF\<rparr>)
      else if regno = 20 then Some (regs\<lparr>r_ds := ucast (v AND 0xFFFF)\<rparr>)
      else if regno = 21 then Some (regs\<lparr>r_es := ucast (v AND 0xFFFF)\<rparr>)
      else if regno = 22 then Some (regs\<lparr>r_fs := ucast (v AND 0xFFFF)\<rparr>)
      else if regno = 23 then Some (regs\<lparr>r_gs := ucast (v AND 0xFFFF)\<rparr>)
      else None)"

section \<open>The FXSAVE image\<close>

text \<open>\<^verbatim>\<open>memcpy\<close> out of and into a buffer.\<close>

definition peek :: "byte list \<Rightarrow> nat \<Rightarrow> nat \<Rightarrow> byte list" where
  "peek data off n = take n (drop off data)"

definition poke :: "byte list \<Rightarrow> nat \<Rightarrow> byte list \<Rightarrow> byte list" where
  "poke data off bs = take off data @ bs @ drop (off + length bs) data"

definition fxsave_ready :: "debug_fpregs \<Rightarrow> bool" where
  "fxsave_ready fp \<longleftrightarrow> fp_length fp \<ge> kFxsaveMinLen"

definition ensure_fxsave :: "debug_fpregs \<Rightarrow> debug_fpregs" where
  "ensure_fxsave fp =
     (if fp_length fp < kFxsaveMinLen
      then fp\<lparr>fp_data := poke (fp_data fp) (fp_length fp) (replicate (kFxsaveMinLen - fp_length fp) 0),
              fp_length := kFxsaveMinLen\<rparr>
      else fp)"

text \<open>
  The getters fill the first \<^verbatim>\<open>gdb_reg_size\<close> bytes of the caller's buffer; \<^const>\<open>None\<close>
  is the result \<^verbatim>\<open>false\<close>.
\<close>

definition gdb_get_sse_bytes :: "debug_fpregs \<Rightarrow> int \<Rightarrow> nat \<Rightarrow> byte list option" where
  "gdb_get_sse_bytes fp regno out_size =
     (if \<not> gdb_reg_is_sse regno then None
      else let need = gdb_reg_size regno in
        if out_size < need then None
        else if \<not> fxsave_ready fp then Some (replicate need 0)
        else if regno = 56 then Some (peek (fp_data fp) 24 4)
        else Some (peek (fp_data fp) (160 + nat (regno - 40) * 16) 16))"

definition gdb_set_sse_bytes :: "debug_fpregs \<Rightarrow> int \<Rightarrow> byte list \<Rightarrow> debug_fpregs option" where
  "gdb_set_sse_bytes fp0 regno data =
     (if \<not> gdb_reg_is_sse regno then None
      else if length data \<noteq> gdb_reg_size regno then None
      else let fp = ensure_fxsave fp0 in
        if regno = 56 then Some (fp\<lparr>fp_data := poke (fp_data fp) 24 (take 4 data)\<rparr>)
        else Some (fp\<lparr>fp_data := poke (fp_data fp) (160 + nat (regno - 40) * 16) (take 16 data)\<rparr>))"

definition gdb_get_x87_bytes :: "debug_fpregs \<Rightarrow> int \<Rightarrow> nat \<Rightarrow> byte list option" where
  "gdb_get_x87_bytes fp regno out_size =
     (if \<not> gdb_reg_is_x87 regno then None
      else let need = gdb_reg_size regno in
        if out_size < need then None
        else if \<not> fxsave_ready fp then Some (replicate need 0)
        else if regno \<ge> 24 \<and> regno \<le> 31 then Some (peek (fp_data fp) (32 + nat (regno - 24) * 16) 10)
        else if regno = 32 then Some (peek (fp_data fp) 0 2 @ [0, 0])
        else if regno = 33 then Some (peek (fp_data fp) 2 2 @ [0, 0])
        else if regno = 34 then Some (peek (fp_data fp) 4 1 @ [0, 0, 0])
        else if regno = 35 then Some [0, 0, 0, 0]
        else if regno = 36 then Some (peek (fp_data fp) 8 4)
        else if regno = 37 then Some [0, 0, 0, 0]
        else if regno = 38 then Some (peek (fp_data fp) 16 4)
        else if regno = 39 then Some (peek (fp_data fp) 6 2 @ [0, 0])
        else None)"

definition gdb_set_x87_bytes :: "debug_fpregs \<Rightarrow> int \<Rightarrow> byte list \<Rightarrow> debug_fpregs option" where
  "gdb_set_x87_bytes fp0 regno data =
     (if \<not> gdb_reg_is_x87 regno \<or> length data \<noteq> gdb_reg_size regno then None
      else let fp = ensure_fxsave fp0; put = (\<lambda>off n. Some (fp\<lparr>fp_data := poke (fp_data fp) off (take n data)\<rparr>)) in
        if regno \<ge> 24 \<and> regno \<le> 31 then put (32 + nat (regno - 24) * 16) 10
        else if regno = 32 then put 0 2
        else if regno = 33 then put 2 2
        else if regno = 34 then put 4 1
        else if regno = 35 then Some fp
        else if regno = 36 then put 8 4
        else if regno = 37 then Some fp
        else if regno = 38 then put 16 4
        else if regno = 39 then put 6 2
        else None)"

section \<open>The g and G packets\<close>

text \<open>The bytes of a core register on the wire; \<^verbatim>\<open>bytes_to_hex(&value, size)\<close> prints them.\<close>

definition core_bytes :: "debug_regs \<Rightarrow> int \<Rightarrow> byte list" where
  "core_bytes regs regno =
     (let size_r = gdb_reg_size regno; v = gdb_get_reg_value regs regno
      in le_bytes size_r (if size_r = 4 then v AND 0xFFFFFFFF else v))"

definition gdb_encode_g_core :: "debug_regs \<Rightarrow> string" where
  "gdb_encode_g_core regs = concat (map (\<lambda>regno. bytes_to_hex (core_bytes regs regno)) [0..23])"

text \<open>
  The loop the decoders share: check that the field is there, decode it, store it, move on.
  \<^verbatim>\<open>gdb_set_reg_value\<close>, \<^verbatim>\<open>gdb_set_x87_bytes\<close> and \<^verbatim>\<open>gdb_set_sse_bytes\<close> are its stores.
\<close>

fun decode_regs :: "('f \<Rightarrow> int \<Rightarrow> byte list \<Rightarrow> 'f option) \<Rightarrow> string \<Rightarrow> int list \<Rightarrow> nat \<Rightarrow> 'f \<Rightarrow> ('f \<times> nat) option" where
  "decode_regs put hex [] off f = Some (f, off)"
| "decode_regs put hex (regno # rs) off f =
     (let n = gdb_reg_size regno in
      if off + n * 2 > length hex then None
      else case hex_to_bytes (substr hex off (off + n * 2)) n of None \<Rightarrow> None
        | Some bs \<Rightarrow> (case put f regno bs of None \<Rightarrow> None
          | Some f' \<Rightarrow> decode_regs put hex rs (off + n * 2) f'))"

definition core_put :: "debug_regs \<Rightarrow> int \<Rightarrow> byte list \<Rightarrow> debug_regs option" where
  "core_put regs regno bs = gdb_set_reg_value regs regno (of_le bs)"

definition gdb_decode_g_core :: "string \<Rightarrow> debug_regs \<Rightarrow> debug_regs option" where
  "gdb_decode_g_core hex regs = map_option fst (decode_regs core_put hex [0..23] 0 regs)"

text \<open>\<open>None\<close> for the register block is the null pointer of the source.\<close>

definition x87_bytes :: "debug_fpregs option \<Rightarrow> int \<Rightarrow> byte list" where
  "x87_bytes fpregs regno =
     (case fpregs of None \<Rightarrow> replicate (gdb_reg_size regno) 0
      | Some fp \<Rightarrow> (case gdb_get_x87_bytes fp regno 10 of
          None \<Rightarrow> replicate (gdb_reg_size regno) 0 | Some bs \<Rightarrow> bs))"

definition sse_bytes :: "debug_fpregs option \<Rightarrow> int \<Rightarrow> byte list" where
  "sse_bytes fpregs regno =
     (case fpregs of None \<Rightarrow> replicate (gdb_reg_size regno) 0
      | Some fp \<Rightarrow> (case gdb_get_sse_bytes fp regno (gdb_reg_size regno) of
          None \<Rightarrow> replicate (gdb_reg_size regno) 0 | Some bs \<Rightarrow> bs))"

definition gdb_encode_g_packet :: "debug_regs \<Rightarrow> debug_fpregs option \<Rightarrow> string" where
  "gdb_encode_g_packet regs fpregs =
     gdb_encode_g_core regs
     @ concat (map (\<lambda>regno. bytes_to_hex (x87_bytes fpregs regno)) [24..39])
     @ concat (map (\<lambda>regno. bytes_to_hex (sse_bytes fpregs regno)) [40..55])
     @ bytes_to_hex (sse_bytes fpregs 56)"

text \<open>
  With no block the rest of the packet is only checked to be hexadecimal, byte by byte.
\<close>

definition gdb_decode_g_packet ::
  "string \<Rightarrow> debug_regs \<Rightarrow> debug_fpregs option \<Rightarrow> (debug_regs \<times> debug_fpregs option) option" where
  "gdb_decode_g_packet hex regs fpregs =
     (if length hex \<noteq> kGdbPacketHexSize then None
      else case gdb_decode_g_core hex regs of None \<Rightarrow> None
        | Some regs' \<Rightarrow> (case fpregs of
            None \<Rightarrow> (case hex_pairs (drop kGdbCorePacketHexSize hex) of
                None \<Rightarrow> None | Some _ \<Rightarrow> Some (regs', None))
          | Some fp \<Rightarrow>
              (case decode_regs gdb_set_x87_bytes hex [24..39] kGdbCorePacketHexSize (ensure_fxsave fp) of
                 None \<Rightarrow> None
               | Some (fp1, off1) \<Rightarrow>
                   (case decode_regs gdb_set_sse_bytes hex [40..55] off1 fp1 of
                      None \<Rightarrow> None
                    | Some (fp2, off2) \<Rightarrow>
                        (case decode_regs gdb_set_sse_bytes hex [56] off2 fp2 of
                           None \<Rightarrow> None
                         | Some (fp3, off3) \<Rightarrow> Some (regs', Some fp3))))))"

section \<open>Thread names\<close>

text \<open>
  \<^verbatim>\<open>gdb_thread_extra_info_hex\<close>: an unprintable name, or one that is only the firmware's
  fill character, is replaced by the thread number.
\<close>

definition gdb_thread_extra_info_hex :: "int \<Rightarrow> string \<Rightarrow> string" where
  "gdb_thread_extra_info_hex tid name =
     (let unprintable = (\<exists>c \<in> set name. (of_char c :: nat) < 0x20 \<or> (of_char c :: nat) > 0x7E);
          firmware_fill = (length name \<ge> 8 \<and> (\<forall>c \<in> set name. c = CHR ''F'' \<or> c = CHR ''f''));
          display = (if unprintable \<or> firmware_fill then [] else name);
          shown = (if display = [] then snprintf 32 (''LWP '' @ dec_of_int tid) else display)
      in bytes_to_hex (map byte_of_char shown))"

section \<open>Register files\<close>

text \<open>
  What the packet decoders rely on: a stored value is read back, no other register changes,
  and the state outside the registers (\<open>rest\<close>) is kept. \<open>valid\<close> are the wire values
  a register can take; reading a register of a file gives one.
\<close>

locale register_file =
  fixes get :: "'f \<Rightarrow> int \<Rightarrow> byte list"
    and put :: "'f \<Rightarrow> int \<Rightarrow> byte list \<Rightarrow> 'f option"
    and ok :: "'f \<Rightarrow> bool"
    and valid :: "int \<Rightarrow> byte list \<Rightarrow> bool"
    and rest :: "'f \<Rightarrow> 'z"
    and regs :: "int set"
  assumes valid_length: "valid r bs \<Longrightarrow> length bs = gdb_reg_size r"
    and get_valid: "ok f \<Longrightarrow> r \<in> regs \<Longrightarrow> valid r (get f r)"
    and put_valid: "ok f \<Longrightarrow> r \<in> regs \<Longrightarrow> valid r bs \<Longrightarrow>
      \<exists>f'. put f r bs = Some f' \<and> ok f' \<and> rest f' = rest f \<and> get f' r = bs
        \<and> (\<forall>s \<in> regs. s \<noteq> r \<longrightarrow> get f' s = get f s)"
begin

text \<open>Decoding a block of registers stores exactly the values of the block.\<close>

lemma decode_block:
  assumes "ok f" "set rs \<subseteq> regs" "distinct rs" "\<And>r. r \<in> set rs \<Longrightarrow> valid r (vals r)"
  shows "\<exists>f'. decode_regs put (pre @ concat (map (\<lambda>r. bytes_to_hex (vals r)) rs) @ post) rs (length pre) f
      = Some (f', length pre + length (concat (map (\<lambda>r. bytes_to_hex (vals r)) rs)))
    \<and> ok f' \<and> rest f' = rest f \<and> (\<forall>r \<in> set rs. get f' r = vals r)
    \<and> (\<forall>r \<in> regs - set rs. get f' r = get f r)"
  using assms
proof (induction rs arbitrary: f pre)
  case Nil
  then show ?case by simp
next
  case (Cons r rs)
  let ?bs = "vals r"
  let ?tail = "concat (map (\<lambda>r. bytes_to_hex (vals r)) rs)"
  have v: "valid r ?bs" and reg: "r \<in> regs"
    using Cons.prems by auto
  then have len: "length ?bs = gdb_reg_size r"
    by (simp add: valid_length)
  obtain f1 where f1: "put f r ?bs = Some f1" "ok f1" "rest f1 = rest f" "get f1 r = ?bs"
      "\<And>s. s \<in> regs \<Longrightarrow> s \<noteq> r \<Longrightarrow> get f1 s = get f s"
    using put_valid [OF \<open>ok f\<close> reg v] by auto
  obtain f2 where f2: "decode_regs put ((pre @ bytes_to_hex ?bs) @ ?tail @ post) rs
        (length (pre @ bytes_to_hex ?bs)) f1
      = Some (f2, length (pre @ bytes_to_hex ?bs) + length ?tail)"
      "ok f2" "rest f2 = rest f1" "\<And>s. s \<in> set rs \<Longrightarrow> get f2 s = vals s"
      "\<And>s. s \<in> regs \<Longrightarrow> s \<notin> set rs \<Longrightarrow> get f2 s = get f1 s"
    using Cons.IH [OF f1(2), of "pre @ bytes_to_hex ?bs"] Cons.prems by auto
  have here: "hex_to_bytes (substr (pre @ bytes_to_hex ?bs @ ?tail @ post) (length pre)
      (length pre + gdb_reg_size r * 2)) (gdb_reg_size r) = Some ?bs"
    using hexn.dec_field [OF len refl, of pre "?tail @ post"] by (simp add: mult.commute)
  have "decode_regs put (pre @ bytes_to_hex ?bs @ ?tail @ post) (r # rs) (length pre) f
      = Some (f2, length pre + length (bytes_to_hex ?bs) + length ?tail)"
    using f1(1) f2(1) here by (simp add: Let_def length_bytes_to_hex len mult.commute)
  moreover have "\<forall>s \<in> set (r # rs). get f2 s = vals s"
    using f2(4,5) f1(4) reg Cons.prems by auto
  moreover have "\<forall>s \<in> regs - set (r # rs). get f2 s = get f s"
    using f2(5) f1(5) by auto
  ultimately show ?case
    using f2 f1 by auto
qed

end

section \<open>The core registers are a register file\<close>

definition core_valid :: "int \<Rightarrow> byte list \<Rightarrow> bool" where
  "core_valid regno bs \<longleftrightarrow> length bs = gdb_reg_size regno \<and> (20 \<le> regno \<longrightarrow> drop 2 bs = [0, 0])"

text \<open>The part of the structure no core register shows.\<close>

definition core_rest :: "debug_regs \<Rightarrow> u32 \<times> u32 \<times> u64" where
  "core_rest regs = (r_trapno regs, r_err regs, drop_bit 32 (r_rflags regs))"

text \<open>The value a register reads back after a value was written to it.\<close>

definition core_mask :: "int \<Rightarrow> u64 \<Rightarrow> u64" where
  "core_mask regno v =
     (if regno \<le> 16 then v else if regno \<le> 19 then take_bit 32 v else take_bit 16 v)"

lemma mask_eqs:
  "(w :: u64) AND 0xFFFFFFFF = take_bit 32 w"
  "(w :: u64) AND 0xFFFF = take_bit 16 w"
  by (simp_all add: take_bit_eq_mask mask_eq_exp_minus_1)

lemma eflags_low: "take_bit 32 ((w AND NOT 0xFFFFFFFF) OR take_bit 32 v :: u64) = take_bit 32 v"
proof -
  have m: "(0xFFFFFFFF :: u64) = mask 32" by (simp add: mask_eq_exp_minus_1)
  show ?thesis
    unfolding m by (intro bit_eqI) (auto simp: bit_simps)
qed

text \<open>The upper half of \<^verbatim>\<open>rflags\<close> after a store, in the form the simplifier gives it.\<close>

lemma eflags_high: "take_bit 32 (drop_bit 32 w) OR drop_bit 32 (take_bit 32 v) = (drop_bit 32 w :: u64)"
  by (intro bit_eqI) (auto simp: bit_simps dest: bit_imp_le_length)

lemma ucast_ucast16: "ucast (ucast (take_bit 16 w) :: u16) = (take_bit 16 w :: u64)"
  by (intro bit_eqI) (auto simp: bit_simps dest: bit_imp_le_length)

lemma core_regno_cases:
  fixes r :: int
  assumes "r \<in> {0..23}"
  shows "r \<in> {0, 1, 2, 3, 4, 5, 6, 7, 8, 9, 10, 11, 12, 13, 14, 15, 16, 17, 18, 19, 20, 21, 22, 23}"
  using assms by simp presburger

lemma gdb_set_get:
  assumes "r \<in> {0..23}"
  shows "\<exists>f'. gdb_set_reg_value f r v = Some f' \<and> core_rest f' = core_rest f
    \<and> gdb_get_reg_value f' r = core_mask r v
    \<and> (\<forall>s. s \<noteq> r \<longrightarrow> gdb_get_reg_value f' s = gdb_get_reg_value f s)"
  using core_regno_cases [OF assms]
  by (elim insertE emptyE; hypsubst)
    (simp_all add: gdb_set_reg_value_def gdb_get_reg_value_def core_rest_def core_mask_def mask_eqs
      eflags_low eflags_high ucast_ucast16)

lemma gdb_reg_size_core: "r \<in> {0..23} \<Longrightarrow> gdb_reg_size r = (if r \<le> 16 then 8 else 4)"
  by (simp add: gdb_reg_size_def gdb_reg_is_core_def)

lemma le_bytes_take_bit: "le_bytes n (take_bit (8 * n) w) = le_bytes n w"
proof (induction n arbitrary: w)
  case (Suc n)
  have "drop_bit 8 (take_bit (8 * Suc n) w) = take_bit (8 * n) (drop_bit 8 w)"
    by (simp add: drop_bit_take_bit)
  moreover have "(ucast (take_bit (8 * Suc n) w) :: byte) = ucast w"
    by (intro bit_eqI) (auto simp: bit_simps dest: bit_imp_le_length)
  ultimately show ?case
    by (simp only: le_bytes.simps Suc)
qed simp

lemma core_bytes_eq:
  assumes "r \<in> {0..23}"
  shows "core_bytes f r = le_bytes (gdb_reg_size r) (gdb_get_reg_value f r)"
  using assms le_bytes_take_bit [of 4]
  by (simp add: core_bytes_def Let_def gdb_reg_size_core mask_eqs)

text \<open>A segment register keeps the two low bytes it was given.\<close>

lemma le_bytes_16:
  assumes "length bs = 4" "drop 2 bs = [0, 0]"
  shows "le_bytes 4 (take_bit 16 (of_le bs)) = bs"
proof -
  obtain a b where bs: "bs = [a, b, 0, 0]"
    using assms by (auto simp: numeral_eq_Suc length_Suc_conv)
  have "take_bit 16 (of_le bs) = of_le bs"
    unfolding bs by (intro bit_eqI) (auto simp: bit_simps dest: bit_imp_le_length)
  then show ?thesis
    using le_bytes_of_le [of bs] assms(1) by simp
qed

lemma core_bytes_put:
  assumes "r \<in> {0..23}" "core_valid r bs"
  shows "le_bytes (gdb_reg_size r) (core_mask r (of_le bs)) = bs"
proof -
  have len: "length bs = (if r \<le> 16 then 8 else 4)"
    using assms by (simp add: core_valid_def gdb_reg_size_core)
  consider "r \<le> 16" | "16 < r" "r \<le> 19" | "20 \<le> r" by linarith
  then show ?thesis
  proof cases
    case 1
    then show ?thesis
      using le_bytes_of_le [of bs] len assms by (simp add: core_mask_def gdb_reg_size_core)
  next
    case 2
    then show ?thesis
      using le_bytes_of_le [of bs] le_bytes_take_bit [of 4] len assms
      by (simp add: core_mask_def gdb_reg_size_core)
  next
    case 3
    then show ?thesis
      using le_bytes_16 [of bs] len assms by (simp add: core_mask_def core_valid_def gdb_reg_size_core)
  qed
qed

lemma core_valid_get:
  assumes "r \<in> {0..23}"
  shows "core_valid r (core_bytes f r)"
proof (cases "20 \<le> r")
  case True
  then have r: "r \<in> {20, 21, 22, 23}" using assms by auto
  have "\<exists>w :: u16. gdb_get_reg_value f r = ucast w"
    using r by (auto simp: gdb_get_reg_value_def)
  then obtain w :: u16 where w: "gdb_get_reg_value f r = ucast w" by blast
  have "drop_bit 8 (drop_bit 8 (ucast w :: u64)) = 0"
    by (intro bit_eqI) (auto simp: bit_simps dest: bit_imp_le_length)
  then have "drop 2 (le_bytes 4 (ucast w)) = [0, 0]"
    by (simp add: numeral_eq_Suc)
  with True assms w show ?thesis
    by (simp add: core_valid_def core_bytes_eq gdb_reg_size_core)
next
  case False
  with assms show ?thesis
    by (simp add: core_valid_def core_bytes_eq)
qed

interpretation core: register_file core_bytes core_put "\<lambda>_. True" core_valid core_rest "{0..23}"
proof unfold_locales
  fix f :: debug_regs and r bs
  assume r: "r \<in> {0..23}" and v: "core_valid r bs"
  obtain f' where f': "gdb_set_reg_value f r (of_le bs) = Some f'" "core_rest f' = core_rest f"
      "gdb_get_reg_value f' r = core_mask r (of_le bs)"
      "\<And>s. s \<noteq> r \<Longrightarrow> gdb_get_reg_value f' s = gdb_get_reg_value f s"
    using gdb_set_get [OF r] by blast
  then have "core_bytes f' r = bs" "\<forall>s \<in> {0..23}. s \<noteq> r \<longrightarrow> core_bytes f' s = core_bytes f s"
    using r v core_bytes_put by (simp_all add: core_bytes_eq)
  with f' show "\<exists>f'. core_put f r bs = Some f' \<and> True \<and> core_rest f' = core_rest f \<and> core_bytes f' r = bs
      \<and> (\<forall>s \<in> {0..23}. s \<noteq> r \<longrightarrow> core_bytes f' s = core_bytes f s)"
    by (simp add: core_put_def)
next
  show "core_valid r bs \<Longrightarrow> length bs = gdb_reg_size r" for r bs
    by (simp add: core_valid_def)
qed (rule core_valid_get)

section \<open>The FXSAVE image is a register file\<close>

text \<open>Where a register lives in the image, and how many bytes of it the image has.\<close>

definition fx_off :: "int \<Rightarrow> nat" where
  "fx_off r =
     (if r \<le> 31 then 32 + nat (r - 24) * 16 else if r = 32 then 0 else if r = 33 then 2
      else if r = 34 then 4 else if r = 36 then 8 else if r = 38 then 16 else if r = 39 then 6
      else if r = 56 then 24 else 160 + nat (r - 40) * 16)"

definition fx_len :: "int \<Rightarrow> nat" where
  "fx_len r =
     (if r \<le> 31 then 10 else if r = 32 \<or> r = 33 \<or> r = 39 then 2 else if r = 34 then 1
      else if r = 35 \<or> r = 37 then 0 else if r = 36 \<or> r = 38 \<or> r = 56 then 4 else 16)"

definition fx_get :: "debug_fpregs \<Rightarrow> int \<Rightarrow> byte list" where
  "fx_get fp r = (if gdb_reg_is_x87 r then x87_bytes (Some fp) r else sse_bytes (Some fp) r)"

definition fx_put :: "debug_fpregs \<Rightarrow> int \<Rightarrow> byte list \<Rightarrow> debug_fpregs option" where
  "fx_put fp r bs = (if gdb_reg_is_x87 r then gdb_set_x87_bytes fp r bs else gdb_set_sse_bytes fp r bs)"

definition fx_ok :: "debug_fpregs \<Rightarrow> bool" where
  "fx_ok fp \<longleftrightarrow> fxsave_ready fp \<and> kFxsaveMinLen \<le> length (fp_data fp)"

definition fx_valid :: "int \<Rightarrow> byte list \<Rightarrow> bool" where
  "fx_valid r bs \<longleftrightarrow> length bs = gdb_reg_size r \<and> drop (fx_len r) bs = replicate (gdb_reg_size r - fx_len r) 0"

lemma length_poke [simp]:
  "off + length bs \<le> length data \<Longrightarrow> length (poke data off bs) = length data"
  by (simp add: poke_def)

lemma peek_poke_same: "off + length bs \<le> length data \<Longrightarrow> peek (poke data off bs) off (length bs) = bs"
  by (simp add: peek_def poke_def)

lemma peek_poke_other:
  assumes "off + length bs \<le> length data" "a + n \<le> off \<or> off + length bs \<le> a"
  shows "peek (poke data off bs) a n = peek data a n"
  using assms(2)
proof
  assume "a + n \<le> off"
  then show ?thesis
    using assms(1) by (simp add: peek_def poke_def take_drop)
next
  assume a: "off + length bs \<le> a"
  then have "drop a (poke data off bs) = drop (a - (off + length bs)) (drop (off + length bs) data)"
    using assms(1) by (simp add: poke_def drop_append)
  with a show ?thesis by (simp add: peek_def)
qed

lemma fx_regno_cases:
  fixes r :: int
  assumes "r \<in> {24..56}"
  obtains "r \<in> {24..31}" | "r \<in> {32, 33, 34, 35, 36, 37, 38, 39}" | "r \<in> {40..55}" | "r = 56"
proof -
  have "r \<in> {24..31} \<or> r \<in> {32, 33, 34, 35, 36, 37, 38, 39} \<or> r \<in> {40..55} \<or> r = 56"
    using assms by simp presburger
  then show thesis using that by blast
qed

lemma fx_len_le_size: "r \<in> {24..56} \<Longrightarrow> fx_len r \<le> gdb_reg_size r"
  by (erule fx_regno_cases)
    (auto simp: fx_len_def gdb_reg_size_def gdb_reg_is_core_def gdb_reg_is_x87_def)

lemma fx_end: "r \<in> {24..56} \<Longrightarrow> fx_off r + fx_len r \<le> 512"
  by (erule fx_regno_cases) (auto simp: fx_len_def fx_off_def)

lemma fx_disjoint:
  assumes "r \<in> {24..56}" "s \<in> {24..56}" "r \<noteq> s"
  shows "fx_off r + fx_len r \<le> fx_off s \<or> fx_off s + fx_len s \<le> fx_off r \<or> fx_len r = 0 \<or> fx_len s = 0"
  using assms(1)
proof (cases rule: fx_regno_cases)
  case 1
  from assms(2) show ?thesis
    by (cases rule: fx_regno_cases) (use 1 assms(3) in \<open>auto simp: fx_off_def fx_len_def\<close>)
next
  case 2
  from assms(2) show ?thesis
    by (cases rule: fx_regno_cases) (use 2 assms(3) in \<open>auto simp: fx_off_def fx_len_def\<close>)
next
  case 3
  from assms(2) show ?thesis
    by (cases rule: fx_regno_cases) (use 3 assms(3) in \<open>auto simp: fx_off_def fx_len_def\<close>)
next
  case 4
  from assms(2) show ?thesis
    by (cases rule: fx_regno_cases) (use 4 assms(3) in \<open>auto simp: fx_off_def fx_len_def\<close>)
qed

lemma replicate_small:
  "replicate 2 x = [x, x]" "replicate 3 x = [x, x, x]" "replicate 4 x = [x, x, x, x]"
  by (simp_all add: numeral_eq_Suc)

lemmas fx_get_defs = fx_get_def x87_bytes_def sse_bytes_def gdb_get_x87_bytes_def
  gdb_get_sse_bytes_def gdb_reg_size_def gdb_reg_is_core_def gdb_reg_is_x87_def gdb_reg_is_sse_def
  fx_off_def fx_len_def peek_def replicate_small Let_def

lemma fx_get_eq:
  assumes "r \<in> {24..56}" "fxsave_ready fp"
  shows "fx_get fp r = peek (fp_data fp) (fx_off r) (fx_len r) @ replicate (gdb_reg_size r - fx_len r) 0"
  using assms(1)
proof (cases rule: fx_regno_cases)
  case 2
  then show ?thesis
    by (elim insertE emptyE; hypsubst) (simp_all add: fx_get_defs assms(2))
qed (simp_all add: fx_get_defs assms(2))

lemma ensure_fxsave_ready [simp]: "fxsave_ready fp \<Longrightarrow> ensure_fxsave fp = fp"
  by (simp add: ensure_fxsave_def fxsave_ready_def)

lemma poke_nothing [simp]: "poke data off [] = data"
  by (simp add: poke_def)

lemma fx_put_eq:
  assumes "r \<in> {24..56}" "fxsave_ready fp" "length bs = gdb_reg_size r"
  shows "fx_put fp r bs = Some (fp\<lparr>fp_data := poke (fp_data fp) (fx_off r) (take (fx_len r) bs)\<rparr>)"
  using assms(1)
proof (cases rule: fx_regno_cases)
  case 2
  then show ?thesis
    using assms(3)
    by (elim insertE emptyE; hypsubst)
      (simp_all add: fx_put_def gdb_set_x87_bytes_def fx_get_defs assms(2))
qed (use assms(3) in \<open>simp_all add: fx_put_def gdb_set_x87_bytes_def gdb_set_sse_bytes_def fx_get_defs assms(2)\<close>)

lemma fx_valid_split:
  "fx_valid r bs \<Longrightarrow> bs = take (fx_len r) bs @ replicate (gdb_reg_size r - fx_len r) 0"
  by (metis append_take_drop_id fx_valid_def)

lemma fx_valid_get:
  assumes "r \<in> {24..56}" "fx_ok fp"
  shows "fx_valid r (fx_get fp r)"
proof -
  have "length (peek (fp_data fp) (fx_off r) (fx_len r)) = fx_len r"
    using fx_end [OF assms(1)] assms(2) by (simp add: peek_def fx_ok_def kFxsaveMinLen_def) linarith
  then show ?thesis
    using assms fx_len_le_size [OF assms(1)] by (simp add: fx_get_eq fx_ok_def fx_valid_def)
qed

interpretation fx: register_file fx_get fx_put fx_ok fx_valid "\<lambda>fp. (fp_length fp, fp_flags fp, length (fp_data fp))" "{24..56}"
proof unfold_locales
  fix f :: debug_fpregs and r bs
  assume ok: "fx_ok f" and r: "r \<in> {24..56}" and v: "fx_valid r bs"
  let ?bs = "take (fx_len r) bs"
  let ?f = "f\<lparr>fp_data := poke (fp_data f) (fx_off r) ?bs\<rparr>"
  have len: "length bs = gdb_reg_size r" and lt: "length ?bs = fx_len r"
    using v fx_len_le_size [OF r] by (simp_all add: fx_valid_def)
  have fits: "fx_off r + length ?bs \<le> length (fp_data f)"
    using fx_end [OF r] ok lt by (simp add: fx_ok_def kFxsaveMinLen_def)
  have ready: "fxsave_ready f" "fxsave_ready ?f"
    using ok by (simp_all add: fx_ok_def fxsave_ready_def)
  have "fx_ok ?f"
    using ok fits by (simp add: fx_ok_def fxsave_ready_def)
  moreover have "fx_get ?f r = bs"
    using peek_poke_same [OF fits] fx_valid_split [OF v, symmetric] unfolding lt
    by (simp add: fx_get_eq [OF r ready(2)])
  moreover have "fx_get ?f s = fx_get f s" if s: "s \<in> {24..56}" "s \<noteq> r" for s
  proof -
    have "peek (poke (fp_data f) (fx_off r) ?bs) (fx_off s) (fx_len s) = peek (fp_data f) (fx_off s) (fx_len s)"
      using fx_disjoint [OF s(1) r s(2)] peek_poke_other [OF fits, of "fx_off s" "fx_len s"] lt
      by (auto simp: peek_def)
    then show ?thesis by (simp add: fx_get_eq [OF s(1)] ready)
  qed
  ultimately show "\<exists>f'. fx_put f r bs = Some f' \<and> fx_ok f' \<and>
      (fp_length f', fp_flags f', length (fp_data f')) = (fp_length f, fp_flags f, length (fp_data f)) \<and>
      fx_get f' r = bs \<and> (\<forall>s \<in> {24..56}. s \<noteq> r \<longrightarrow> fx_get f' s = fx_get f s)"
    using fits by (simp add: fx_put_eq [OF r ready(1) len])
next
  show "fx_valid r bs \<Longrightarrow> length bs = gdb_reg_size r" for r bs
    by (simp add: fx_valid_def)
qed (rule fx_valid_get)

section \<open>Properties of the register packets\<close>

text \<open>The decoder over two blocks, and with a store that agrees on the block.\<close>

lemma decode_regs_append:
  "decode_regs put hex (xs @ ys) off f =
     (case decode_regs put hex xs off f of None \<Rightarrow> None
      | Some (f', off') \<Rightarrow> decode_regs put hex ys off' f')"
  by (induction xs arbitrary: off f) (auto simp: Let_def split: option.splits)

lemma decode_regs_cong:
  "(\<And>f r bs. r \<in> set rs \<Longrightarrow> p f r bs = q f r bs) \<Longrightarrow> decode_regs p hex rs off f = decode_regs q hex rs off f"
  by (induction rs arbitrary: off f) (simp_all add: Let_def split: option.splits)

lemma upto_core: "[0..23] = [0, 1, 2, 3, 4, 5, 6, 7, 8, 9, 10, 11, 12, 13, 14, 15, 16, 17, 18, 19, 20, 21, 22, 23 :: int]"
  by (simp add: upto_rec1)

lemma length_encode_g_core: "length (gdb_encode_g_core regs) = kGdbCorePacketHexSize"
  by (simp add: gdb_encode_g_core_def upto_core core_bytes_def Let_def gdb_reg_size_def
      gdb_reg_is_core_def kGdbCorePacketHexSize_def)

lemma decode_encode_core:
  "\<exists>f'. decode_regs core_put (gdb_encode_g_core regs @ post) [0..23] 0 f = Some (f', kGdbCorePacketHexSize)
    \<and> core_rest f' = core_rest f \<and> (\<forall>r \<in> {0..23}. core_bytes f' r = core_bytes regs r)"
  using core.decode_block [where vals = "core_bytes regs" and rs = "[0..23]" and pre = "[]" and f = f and post = post]
    length_encode_g_core [of regs]
  by (simp add: gdb_encode_g_core_def core_valid_get)

text \<open>Of an unready or absent block every register reads as zero.\<close>

lemma fx_blocks:
  "gdb_encode_g_packet regs fp =
     gdb_encode_g_core regs @ concat (map (\<lambda>r. bytes_to_hex (if gdb_reg_is_x87 r then x87_bytes fp r else sse_bytes fp r)) [24..56])"
proof -
  have split: "[24..56] = [24..39] @ [40..55] @ [56 :: int]"
    by (simp add: upto_rec1)
  have "map (\<lambda>r. bytes_to_hex (if gdb_reg_is_x87 r then x87_bytes fp r else sse_bytes fp r)) [24..39]
      = map (\<lambda>r. bytes_to_hex (x87_bytes fp r)) [24..39]"
    "map (\<lambda>r. bytes_to_hex (if gdb_reg_is_x87 r then x87_bytes fp r else sse_bytes fp r)) [40..55]
      = map (\<lambda>r. bytes_to_hex (sse_bytes fp r)) [40..55]"
    by (auto intro!: map_cong simp: gdb_reg_is_x87_def)
  then show ?thesis
    unfolding gdb_encode_g_packet_def split map_append concat_append
    by (simp add: gdb_reg_is_x87_def)
qed

lemma fx_valid_bytes:
  assumes "r \<in> {24..56}" "\<And>f. fp = Some f \<Longrightarrow> kFxsaveMinLen \<le> length (fp_data f)"
  shows "fx_valid r (if gdb_reg_is_x87 r then x87_bytes fp r else sse_bytes fp r)"
proof (cases "\<exists>f. fp = Some f \<and> fxsave_ready f")
  case True
  then show ?thesis
    using assms fx_valid_get [OF assms(1)] by (auto simp: fx_get_def fx_ok_def)
next
  case False
  have "(if gdb_reg_is_x87 r then x87_bytes fp r else sse_bytes fp r) = replicate (gdb_reg_size r) 0"
    using False assms(1) by (auto simp: x87_bytes_def sse_bytes_def gdb_get_x87_bytes_def
        gdb_get_sse_bytes_def gdb_reg_is_x87_def gdb_reg_is_sse_def Let_def split: option.splits)
  then show ?thesis by (simp add: fx_valid_def)
qed

lemma length_encode_g_packet:
  assumes "\<And>f. fp = Some f \<Longrightarrow> kFxsaveMinLen \<le> length (fp_data f)"
  shows "length (gdb_encode_g_packet regs fp) = kGdbPacketHexSize"
proof -
  let ?v = "\<lambda>r. if gdb_reg_is_x87 r then x87_bytes fp r else sse_bytes fp r"
  have "length (bytes_to_hex (?v r)) = 2 * gdb_reg_size r" if "r \<in> set [24..56]" for r
    using fx.valid_length [OF fx_valid_bytes [OF that [unfolded set_upto] assms]] by simp
  then have "map (\<lambda>r. length (bytes_to_hex (?v r))) [24..56] = map (\<lambda>r. 2 * gdb_reg_size r) [24..56]"
    by (rule map_cong [OF refl])
  then have "length (concat (map (\<lambda>r. bytes_to_hex (?v r)) [24..56])) = sum_list (map (\<lambda>r. 2 * gdb_reg_size r) [24..56])"
    by (simp add: length_concat o_def)
  also have "\<dots> = 744"
    by (simp add: upto_rec1 gdb_reg_size_def gdb_reg_is_core_def gdb_reg_is_x87_def)
  finally show ?thesis
    by (simp add: fx_blocks length_encode_g_core kGdbCorePacketHexSize_def kGdbPacketHexSize_def)
qed

lemma take_bit_get_reg:
  assumes "r \<in> {0..23}"
  shows "take_bit (8 * gdb_reg_size r) (gdb_get_reg_value f r) = gdb_get_reg_value f r"
proof (cases "r \<le> 16")
  case True
  with assms show ?thesis by (simp add: gdb_reg_size_core take_bit_word_eq_self)
next
  case False
  have seg: "take_bit 32 (ucast (w :: u16)) = (ucast w :: u64)" for w
    by (intro bit_eqI) (auto simp: bit_simps dest: bit_imp_le_length)
  from False assms have "r \<in> {17, 18, 19, 20, 21, 22, 23}" by auto
  then show ?thesis
    by (elim insertE emptyE; hypsubst)
      (simp_all add: gdb_reg_size_core gdb_get_reg_value_def mask_eqs seg)
qed

lemma core_value_of_bytes:
  "r \<in> {0..23} \<Longrightarrow> core_bytes f r = core_bytes g r \<Longrightarrow> gdb_get_reg_value f r = gdb_get_reg_value g r"
  by (metis core_bytes_eq of_le_le_bytes take_bit_get_reg)

text \<open>One pass over three blocks is three passes, each with the store of its block.\<close>

lemma decode_regs_three:
  assumes "decode_regs p hex (xs @ ys @ zs) off f = Some (f3, off3)"
    and "\<And>f r bs. r \<in> set xs \<Longrightarrow> p f r bs = q f r bs"
    and "\<And>f r bs. r \<in> set ys \<union> set zs \<Longrightarrow> p f r bs = q' f r bs"
  shows "\<exists>f1 off1 f2 off2. decode_regs q hex xs off f = Some (f1, off1)
    \<and> decode_regs q' hex ys off1 f1 = Some (f2, off2) \<and> decode_regs q' hex zs off2 f2 = Some (f3, off3)"
proof -
  have eqs: "decode_regs p hex xs = decode_regs q hex xs" "decode_regs p hex ys = decode_regs q' hex ys"
      "decode_regs p hex zs = decode_regs q' hex zs"
    by (intro ext decode_regs_cong; simp add: assms)+
  show ?thesis
    using assms(1) unfolding decode_regs_append eqs
    by (auto split: option.splits prod.splits)
qed

lemma decode_fx:
  assumes "\<And>f. fp = Some f \<Longrightarrow> kFxsaveMinLen \<le> length (fp_data f)" "fx_ok f0" "length pre = off"
    and hex: "hex = pre @ concat (map (\<lambda>r. bytes_to_hex (if gdb_reg_is_x87 r then x87_bytes fp r else sse_bytes fp r)) [24..56])"
  shows "\<exists>fp1 off1 fp2 off2 fp3 off3.
     decode_regs gdb_set_x87_bytes hex [24..39] off f0 = Some (fp1, off1) \<and>
     decode_regs gdb_set_sse_bytes hex [40..55] off1 fp1 = Some (fp2, off2) \<and>
     decode_regs gdb_set_sse_bytes hex [56] off2 fp2 = Some (fp3, off3) \<and>
     fx_ok fp3 \<and> fp_flags fp3 = fp_flags f0 \<and>
     (\<forall>r \<in> {24..56}. fx_get fp3 r = (if gdb_reg_is_x87 r then x87_bytes fp r else sse_bytes fp r))"
proof -
  let ?vals = "\<lambda>r. if gdb_reg_is_x87 r then x87_bytes fp r else sse_bytes fp r"
  have split: "[24..56] = [24..39] @ [40..55] @ [56 :: int]"
    by (simp add: upto_rec1)
  have v: "fx_valid r (?vals r)" if "r \<in> {24..56}" for r
    using that assms(1) by (rule fx_valid_bytes)
  have "\<exists>f3. decode_regs fx_put hex [24..56] off f0
        = Some (f3, length pre + length (concat (map (\<lambda>r. bytes_to_hex (?vals r)) [24..56])))
      \<and> fx_ok f3 \<and> (fp_length f3, fp_flags f3, length (fp_data f3)) = (fp_length f0, fp_flags f0, length (fp_data f0))
      \<and> (\<forall>r \<in> set [24..56]. fx_get f3 r = ?vals r) \<and> (\<forall>r \<in> {24..56} - set [24..56]. fx_get f3 r = fx_get f0 r)"
    unfolding hex assms(3) [symmetric]
    using fx.decode_block [OF assms(2) _ distinct_upto, of 24 56 ?vals pre "[]"] v
    unfolding set_upto append_Nil2 by blast
  then obtain f3 off3 where d: "decode_regs fx_put hex ([24..39] @ [40..55] @ [56]) off f0 = Some (f3, off3)"
      and ok: "fx_ok f3" "fp_flags f3 = fp_flags f0" "\<forall>r \<in> {24..56}. fx_get f3 r = ?vals r"
    unfolding split [symmetric] set_upto by auto
  have "\<exists>fp1 off1 fp2 off2. decode_regs gdb_set_x87_bytes hex [24..39] off f0 = Some (fp1, off1) \<and>
     decode_regs gdb_set_sse_bytes hex [40..55] off1 fp1 = Some (fp2, off2) \<and>
     decode_regs gdb_set_sse_bytes hex [56] off2 fp2 = Some (f3, off3)"
    by (rule decode_regs_three [OF d]) (auto simp: fx_put_def gdb_reg_is_x87_def)
  with ok show ?thesis by blast
qed

lemma fx_ok_ensure: "kFxsaveMinLen \<le> length (fp_data fp) \<Longrightarrow> fx_ok (ensure_fxsave fp)"
  by (simp add: fx_ok_def ensure_fxsave_def fxsave_ready_def)

lemma fp_flags_ensure [simp]: "fp_flags (ensure_fxsave fp) = fp_flags fp"
  by (simp add: ensure_fxsave_def)

text \<open>
  C20. A register dump written back restores every register: for any register state and any
  floating-point block (also an absent or an empty one), the \<^verbatim>\<open>g\<close> packet has the length the
  \<^verbatim>\<open>G\<close> decoder insists on, decoding it over any other state succeeds, and then all 24 core
  registers, all 16 x87 registers and all 17 SSE registers read the same as in the state that
  was dumped, while what no register shows (\<^verbatim>\<open>trapno\<close>, \<^verbatim>\<open>err\<close>, the upper half of
  \<^verbatim>\<open>rflags\<close>, the block's flags) is kept.
\<close>

theorem g_packet_roundtrip:
  assumes "\<And>f. fp = Some f \<Longrightarrow> kFxsaveMinLen \<le> length (fp_data f)" "kFxsaveMinLen \<le> length (fp_data fp0)"
  shows "length (gdb_encode_g_packet regs fp) = kGdbPacketHexSize \<and>
    (\<exists>regs' fp'. gdb_decode_g_packet (gdb_encode_g_packet regs fp) regs0 (Some fp0) = Some (regs', Some fp')
      \<and> (\<forall>r \<in> {0..23}. gdb_get_reg_value regs' r = gdb_get_reg_value regs r)
      \<and> (\<forall>r \<in> {24..39}. x87_bytes (Some fp') r = x87_bytes fp r)
      \<and> (\<forall>r \<in> {40..56}. sse_bytes (Some fp') r = sse_bytes fp r)
      \<and> r_trapno regs' = r_trapno regs0 \<and> r_err regs' = r_err regs0
      \<and> drop_bit 32 (r_rflags regs') = drop_bit 32 (r_rflags regs0) \<and> fp_flags fp' = fp_flags fp0)"
proof -
  let ?core = "gdb_encode_g_core regs"
  let ?fx = "concat (map (\<lambda>r. bytes_to_hex (if gdb_reg_is_x87 r then x87_bytes fp r else sse_bytes fp r)) [24..56])"
  obtain regs' where core: "decode_regs core_put (?core @ ?fx) [0..23] 0 regs0 = Some (regs', kGdbCorePacketHexSize)"
      "core_rest regs' = core_rest regs0" "\<forall>r \<in> {0..23}. core_bytes regs' r = core_bytes regs r"
    using decode_encode_core by blast
  obtain f1 o1 f2 o2 f3 o3 where fx:
      "decode_regs gdb_set_x87_bytes (?core @ ?fx) [24..39] kGdbCorePacketHexSize (ensure_fxsave fp0) = Some (f1, o1)"
      "decode_regs gdb_set_sse_bytes (?core @ ?fx) [40..55] o1 f1 = Some (f2, o2)"
      "decode_regs gdb_set_sse_bytes (?core @ ?fx) [56] o2 f2 = Some (f3, o3)"
      "fp_flags f3 = fp_flags fp0"
      "\<forall>r \<in> {24..56}. fx_get f3 r = (if gdb_reg_is_x87 r then x87_bytes fp r else sse_bytes fp r)"
    using decode_fx [OF assms(1) fx_ok_ensure [OF assms(2)] length_encode_g_core refl, of fp]
    unfolding fp_flags_ensure by blast
  have len: "length (?core @ ?fx) = kGdbPacketHexSize"
    using length_encode_g_packet [OF assms(1)] by (simp only: fx_blocks)
  have dec: "gdb_decode_g_packet (?core @ ?fx) regs0 (Some fp0) = Some (regs', Some f3)"
    unfolding gdb_decode_g_packet_def gdb_decode_g_core_def
    by (simp only: len core(1) fx(1-3) if_False simp_thms option.map fst_conv option.case prod.case)
  have "gdb_get_reg_value regs' r = gdb_get_reg_value regs r" if "r \<in> {0..23}" for r
    using core(3) that by (intro core_value_of_bytes) auto
  moreover have "x87_bytes (Some f3) r = x87_bytes fp r" if "r \<in> {24..39}" for r
    using fx(5) that by (auto simp: fx_get_def gdb_reg_is_x87_def dest: bspec [of _ _ r])
  moreover have "sse_bytes (Some f3) r = sse_bytes fp r" if "r \<in> {40..56}" for r
    using fx(5) that by (auto simp: fx_get_def gdb_reg_is_x87_def dest: bspec [of _ _ r])
  ultimately show ?thesis
    using dec len core(2) fx(4) unfolding fx_blocks core_rest_def by blast
qed

theorem g_packet_roundtrip_witness:
  "length (gdb_encode_g_packet (zero_regs\<lparr>r_rip := 0x401000\<rparr>) None) = kGdbPacketHexSize \<and>
    (\<exists>regs' fp'. gdb_decode_g_packet (gdb_encode_g_packet (zero_regs\<lparr>r_rip := 0x401000\<rparr>) None)
        zero_regs (Some zero_fpregs) = Some (regs', Some fp')
      \<and> gdb_get_reg_value regs' 16 = 0x401000)"
proof -
  have "gdb_get_reg_value (zero_regs\<lparr>r_rip := 0x401000\<rparr>) 16 = 0x401000"
    by (simp add: gdb_get_reg_value_def)
  moreover have "kFxsaveMinLen \<le> length (fp_data zero_fpregs)"
    by (simp add: zero_fpregs_def kFxsaveMinLen_def)
  ultimately show ?thesis
    using g_packet_roundtrip [of None zero_fpregs "zero_regs\<lparr>r_rip := 0x401000\<rparr>" zero_regs] by force
qed

end
