(* ===== verification/Rsp_Handler.thy ===== *)
theory Rsp_Handler
  imports Rsp_Protocol Rsp_Framing Gdb_Regs
begin

text \<open>
  The state of \<^verbatim>\<open>RspHandler\<close> (\<^verbatim>\<open>src/tools/gdb_bridge/rsp_handler.hpp\<close>), the
  interface \<^verbatim>\<open>RspBackend\<close> it drives, and the session routines of
  \<^verbatim>\<open>rsp_handler.cpp\<close>. The class is written in the state monad over its fields, the
  connection, the answers of \<^verbatim>\<open>shutdown_requested\<close> and the state of the backend. The
  backend is an abstract class, so it is a parameter: a record of functions on a state of its
  own. Every call made to it is recorded in \<open>w_calls\<close>, which no definition reads.
  Logging is left out.
\<close>

section \<open>The backend interface\<close>

record stop_info =
  si_pl_event :: int
  si_stop_signal :: int
  si_pl_flags :: int
  si_pl_sigmask_lo :: u64
  si_pl_sigmask_hi :: u64
  si_pl_siglist_lo :: u64
  si_pl_siglist_hi :: u64

record thread_entry =
  t_lwp :: int
  t_state :: u32
  t_stop_info :: stop_info
  t_priority :: int
  t_runtime_us :: u64
  t_pctcpu :: int
  t_cpu_id :: int
  t_name :: string

text \<open>
  The virtual functions. A result \<^verbatim>\<open>false\<close> whose output parameter the callers ignore is
  \<^const>\<open>None\<close>; \<^verbatim>\<open>debug_get_threads\<close>, \<^verbatim>\<open>memory_write\<close> and
  \<^verbatim>\<open>debug_poll_events\<close>, whose outputs are read in any case, return both.
\<close>

record 'b backend =
  be_process_list :: "'b \<Rightarrow> process_entry list option \<times> 'b"
  be_process_maps :: "int \<Rightarrow> 'b \<Rightarrow> map_entry list option \<times> 'b"
  be_process_info :: "int \<Rightarrow> 'b \<Rightarrow> process_info option \<times> 'b"
  be_process_kill :: "int \<Rightarrow> 'b \<Rightarrow> bool \<times> 'b"
  be_memory_read :: "int \<Rightarrow> u64 \<Rightarrow> nat \<Rightarrow> 'b \<Rightarrow> byte list option \<times> 'b"
  be_memory_write :: "int \<Rightarrow> u64 \<Rightarrow> byte list \<Rightarrow> 'b \<Rightarrow> (bool \<times> u32) \<times> 'b"
  be_attach :: "int \<Rightarrow> 'b \<Rightarrow> bool \<times> 'b"
  be_detach :: "'b \<Rightarrow> bool \<times> 'b"
  be_stop :: "'b \<Rightarrow> bool \<times> 'b"
  be_continue :: "'b \<Rightarrow> bool \<times> 'b"
  be_step :: "int \<Rightarrow> 'b \<Rightarrow> bool \<times> 'b"
  be_get_threads :: "'b \<Rightarrow> (bool \<times> thread_entry list) \<times> 'b"
  be_get_regs :: "int \<Rightarrow> 'b \<Rightarrow> debug_regs option \<times> 'b"
  be_set_regs :: "int \<Rightarrow> debug_regs \<Rightarrow> 'b \<Rightarrow> bool \<times> 'b"
  be_get_dbregs :: "int \<Rightarrow> 'b \<Rightarrow> u64 list option \<times> 'b"
  be_fpregs_supported :: "'b \<Rightarrow> bool"
  be_get_fpregs :: "int \<Rightarrow> 'b \<Rightarrow> debug_fpregs option \<times> 'b"
  be_set_fpregs :: "int \<Rightarrow> debug_fpregs \<Rightarrow> 'b \<Rightarrow> bool \<times> 'b"
  be_set_breakpoint :: "u64 \<Rightarrow> u32 \<Rightarrow> 'b \<Rightarrow> bool \<times> 'b"
  be_clear_breakpoint :: "u64 \<Rightarrow> 'b \<Rightarrow> bool \<times> 'b"
  be_set_watchpoint :: "u64 \<Rightarrow> u32 \<Rightarrow> u32 \<Rightarrow> 'b \<Rightarrow> bool \<times> 'b"
  be_clear_watchpoint :: "u64 \<Rightarrow> 'b \<Rightarrow> bool \<times> 'b"
  be_get_watchpoints :: "'b \<Rightarrow> watchpoint_entry list option \<times> 'b"
  be_poll_events :: "'b \<Rightarrow> (bool \<times> bool \<times> int) \<times> 'b"

text \<open>What is recorded of a call: its arguments and whether it returned \<^verbatim>\<open>true\<close>.\<close>

datatype backend_call =
    CProcessList bool
  | CProcessMaps int bool
  | CProcessInfo int bool
  | CProcessKill int bool
  | CMemoryRead int u64 nat bool
  | CMemoryWrite int u64 "byte list" bool
  | CAttach int bool
  | CDetach bool
  | CStop bool
  | CContinue bool
  | CStep int bool
  | CGetThreads bool
  | CGetRegs int bool
  | CSetRegs int debug_regs bool
  | CGetDbregs int bool
  | CGetFpregs int bool
  | CSetFpregs int debug_fpregs bool
  | CSetBreakpoint u64 u32 bool
  | CClearBreakpoint u64 bool
  | CSetWatchpoint u64 u32 u32 bool
  | CClearWatchpoint u64 bool
  | CGetWatchpoints bool
  | CPollEvents bool

text \<open>A backend that refuses every call; concrete backends are updates of it.\<close>

definition null_backend :: "'b backend" where
  "null_backend = \<lparr>be_process_list = (\<lambda>b. (None, b)), be_process_maps = (\<lambda>_ b. (None, b)),
     be_process_info = (\<lambda>_ b. (None, b)), be_process_kill = (\<lambda>_ b. (False, b)),
     be_memory_read = (\<lambda>_ _ _ b. (None, b)), be_memory_write = (\<lambda>_ _ _ b. ((False, 0), b)),
     be_attach = (\<lambda>_ b. (False, b)), be_detach = (\<lambda>b. (False, b)), be_stop = (\<lambda>b. (False, b)),
     be_continue = (\<lambda>b. (False, b)), be_step = (\<lambda>_ b. (False, b)),
     be_get_threads = (\<lambda>b. ((False, []), b)), be_get_regs = (\<lambda>_ b. (None, b)),
     be_set_regs = (\<lambda>_ _ b. (False, b)), be_get_dbregs = (\<lambda>_ b. (None, b)),
     be_fpregs_supported = (\<lambda>b. False), be_get_fpregs = (\<lambda>_ b. (None, b)),
     be_set_fpregs = (\<lambda>_ _ b. (False, b)), be_set_breakpoint = (\<lambda>_ _ b. (False, b)),
     be_clear_breakpoint = (\<lambda>_ b. (False, b)), be_set_watchpoint = (\<lambda>_ _ _ b. (False, b)),
     be_clear_watchpoint = (\<lambda>_ b. (False, b)), be_get_watchpoints = (\<lambda>b. (None, b)),
     be_poll_events = (\<lambda>b. ((False, False, 0), b))\<rparr>"

section \<open>The object and its surroundings\<close>

record handler =
  h_pid :: int
  h_attached :: bool
  h_general_thread :: int
  h_continue_thread :: int
  h_stop_lwp :: int
  h_stop_signal :: byte
  h_stop_reason :: string
  h_thread_info_started :: bool
  h_threads :: "thread_entry list"
  h_memory_maps :: "map_entry list"
  h_memory_maps_known :: bool
  h_sw_breakpoints :: "(u64 \<times> byte) list"

text \<open>
  \<open>w_shutdown_flag\<close> is the flag of \<^verbatim>\<open>rsp_server.cpp\<close>; \<open>w_shutdown_events\<close> says, for
  each call of \<^verbatim>\<open>shutdown_requested\<close>, whether a signal or the sentinel file has asked for
  a shutdown by then.
\<close>

record 'b world = handler +
  w_conn :: rsp_conn
  w_shutdown_flag :: bool
  w_shutdown_events :: "bool list"
  w_backend :: 'b
  w_calls :: "backend_call list"

type_synonym ('b, 'a) bridge = "('b world, 'a) state"

abbreviation ret :: "'a \<Rightarrow> ('s, 'a) state" where
  "ret \<equiv> State_Monad.return"

text \<open>A call of the backend, recorded; an operation of the connection.\<close>

definition invoke :: "('b \<Rightarrow> 'a \<times> 'b) \<Rightarrow> ('a \<Rightarrow> backend_call) \<Rightarrow> ('b, 'a) bridge" where
  "invoke f c = State (\<lambda>w. case f (w_backend w) of
     (a, b) \<Rightarrow> (a, w\<lparr>w_backend := b, w_calls := w_calls w @ [c a]\<rparr>))"

definition on_conn :: "(rsp_conn \<Rightarrow> 'a \<times> rsp_conn) \<Rightarrow> ('b, 'a) bridge" where
  "on_conn f = State (\<lambda>w. case f (w_conn w) of (a, c) \<Rightarrow> (a, w\<lparr>w_conn := c\<rparr>))"

definition process_list :: "'b backend \<Rightarrow> ('b, process_entry list option) bridge" where
  "process_list B = invoke (be_process_list B) (\<lambda>r. CProcessList (r \<noteq> None))"

definition process_maps :: "'b backend \<Rightarrow> int \<Rightarrow> ('b, map_entry list option) bridge" where
  "process_maps B pid = invoke (be_process_maps B pid) (\<lambda>r. CProcessMaps pid (r \<noteq> None))"

definition get_process_info :: "'b backend \<Rightarrow> int \<Rightarrow> ('b, process_info option) bridge" where
  "get_process_info B pid = invoke (be_process_info B pid) (\<lambda>r. CProcessInfo pid (r \<noteq> None))"

definition process_kill :: "'b backend \<Rightarrow> int \<Rightarrow> ('b, bool) bridge" where
  "process_kill B pid = invoke (be_process_kill B pid) (CProcessKill pid)"

definition memory_read :: "'b backend \<Rightarrow> int \<Rightarrow> u64 \<Rightarrow> nat \<Rightarrow> ('b, byte list option) bridge" where
  "memory_read B pid a n = invoke (be_memory_read B pid a n) (\<lambda>r. CMemoryRead pid a n (r \<noteq> None))"

definition memory_write :: "'b backend \<Rightarrow> int \<Rightarrow> u64 \<Rightarrow> byte list \<Rightarrow> ('b, bool \<times> u32) bridge" where
  "memory_write B pid a data = invoke (be_memory_write B pid a data) (\<lambda>r. CMemoryWrite pid a data (fst r))"

definition debug_attach :: "'b backend \<Rightarrow> int \<Rightarrow> ('b, bool) bridge" where
  "debug_attach B pid = invoke (be_attach B pid) (CAttach pid)"

definition debug_detach :: "'b backend \<Rightarrow> ('b, bool) bridge" where
  "debug_detach B = invoke (be_detach B) CDetach"

definition debug_stop :: "'b backend \<Rightarrow> ('b, bool) bridge" where
  "debug_stop B = invoke (be_stop B) CStop"

definition debug_continue :: "'b backend \<Rightarrow> ('b, bool) bridge" where
  "debug_continue B = invoke (be_continue B) CContinue"

definition debug_step :: "'b backend \<Rightarrow> int \<Rightarrow> ('b, bool) bridge" where
  "debug_step B lwp = invoke (be_step B lwp) (CStep lwp)"

definition debug_get_threads :: "'b backend \<Rightarrow> ('b, bool \<times> thread_entry list) bridge" where
  "debug_get_threads B = invoke (be_get_threads B) (\<lambda>r. CGetThreads (fst r))"

definition debug_get_regs :: "'b backend \<Rightarrow> int \<Rightarrow> ('b, debug_regs option) bridge" where
  "debug_get_regs B lwp = invoke (be_get_regs B lwp) (\<lambda>r. CGetRegs lwp (r \<noteq> None))"

definition debug_set_regs :: "'b backend \<Rightarrow> int \<Rightarrow> debug_regs \<Rightarrow> ('b, bool) bridge" where
  "debug_set_regs B lwp r = invoke (be_set_regs B lwp r) (CSetRegs lwp r)"

definition debug_get_dbregs :: "'b backend \<Rightarrow> int \<Rightarrow> ('b, u64 list option) bridge" where
  "debug_get_dbregs B lwp = invoke (be_get_dbregs B lwp) (\<lambda>r. CGetDbregs lwp (r \<noteq> None))"

definition debug_fpregs_supported :: "'b backend \<Rightarrow> ('b, bool) bridge" where
  "debug_fpregs_supported B = gets (\<lambda>w. be_fpregs_supported B (w_backend w))"

definition debug_get_fpregs :: "'b backend \<Rightarrow> int \<Rightarrow> ('b, debug_fpregs option) bridge" where
  "debug_get_fpregs B lwp = invoke (be_get_fpregs B lwp) (\<lambda>r. CGetFpregs lwp (r \<noteq> None))"

definition debug_set_fpregs :: "'b backend \<Rightarrow> int \<Rightarrow> debug_fpregs \<Rightarrow> ('b, bool) bridge" where
  "debug_set_fpregs B lwp r = invoke (be_set_fpregs B lwp r) (CSetFpregs lwp r)"

definition debug_set_breakpoint :: "'b backend \<Rightarrow> u64 \<Rightarrow> u32 \<Rightarrow> ('b, bool) bridge" where
  "debug_set_breakpoint B a kind = invoke (be_set_breakpoint B a kind) (CSetBreakpoint a kind)"

definition debug_clear_breakpoint :: "'b backend \<Rightarrow> u64 \<Rightarrow> ('b, bool) bridge" where
  "debug_clear_breakpoint B a = invoke (be_clear_breakpoint B a) (CClearBreakpoint a)"

definition debug_set_watchpoint :: "'b backend \<Rightarrow> u64 \<Rightarrow> u32 \<Rightarrow> u32 \<Rightarrow> ('b, bool) bridge" where
  "debug_set_watchpoint B a len kind = invoke (be_set_watchpoint B a len kind) (CSetWatchpoint a len kind)"

definition debug_clear_watchpoint :: "'b backend \<Rightarrow> u64 \<Rightarrow> ('b, bool) bridge" where
  "debug_clear_watchpoint B a = invoke (be_clear_watchpoint B a) (CClearWatchpoint a)"

definition debug_get_watchpoints :: "'b backend \<Rightarrow> ('b, watchpoint_entry list option) bridge" where
  "debug_get_watchpoints B = invoke (be_get_watchpoints B) (\<lambda>r. CGetWatchpoints (r \<noteq> None))"

definition debug_poll_events :: "'b backend \<Rightarrow> ('b, bool \<times> bool \<times> int) bridge" where
  "debug_poll_events B = invoke (be_poll_events B) (\<lambda>r. CPollEvents (fst r))"

lemmas backend_defs = process_list_def process_maps_def get_process_info_def process_kill_def
  memory_read_def memory_write_def debug_attach_def debug_detach_def debug_stop_def debug_continue_def
  debug_step_def debug_get_threads_def debug_get_regs_def debug_set_regs_def debug_get_dbregs_def
  debug_get_fpregs_def debug_set_fpregs_def debug_set_breakpoint_def
  debug_clear_breakpoint_def debug_set_watchpoint_def debug_clear_watchpoint_def
  debug_get_watchpoints_def debug_poll_events_def

text \<open>\<^verbatim>\<open>shutdown_requested\<close>; the flag stays set once a request was seen.\<close>

definition shutdown_requested :: "('b, bool) bridge" where
  "shutdown_requested = State (\<lambda>w.
     if w_shutdown_flag w then (True, w)
     else case w_shutdown_events w of [] \<Rightarrow> (False, w)
       | e # es \<Rightarrow> (e, w\<lparr>w_shutdown_events := es, w_shutdown_flag := e\<rparr>))"

section \<open>Session routines\<close>

text \<open>The state of a freshly constructed handler, and the fields \<^verbatim>\<open>safe_detach\<close> resets.\<close>

definition new_handler :: "int \<Rightarrow> handler" where
  "new_handler initial_pid = \<lparr>h_pid = initial_pid, h_attached = False, h_general_thread = 0,
     h_continue_thread = 0, h_stop_lwp = 0, h_stop_signal = 5, h_stop_reason = [],
     h_thread_info_started = False, h_threads = [], h_memory_maps = [], h_memory_maps_known = False,
     h_sw_breakpoints = []\<rparr>"

definition reset_session :: "'z handler_scheme \<Rightarrow> 'z handler_scheme" where
  "reset_session h = h\<lparr>h_attached := False, h_stop_lwp := 0, h_stop_signal := 5, h_stop_reason := [],
     h_general_thread := 0, h_continue_thread := 0, h_threads := [], h_memory_maps := [],
     h_memory_maps_known := False, h_sw_breakpoints := []\<rparr>"

definition safe_detach :: "'b backend \<Rightarrow> ('b, bool) bridge" where
  "safe_detach B = do {
     attached \<leftarrow> gets h_attached;
     if \<not> attached then ret True
     else do {
       _ \<leftarrow> debug_stop B;
       detached \<leftarrow> debug_detach B;
       if \<not> detached then ret False
       else do { _ \<leftarrow> modify reset_session; ret True }
     }
   }"

definition cleanup :: "'b backend \<Rightarrow> ('b, unit) bridge" where
  "cleanup B = do { _ \<leftarrow> safe_detach B; ret () }"

definition refresh_threads :: "'b backend \<Rightarrow> ('b, unit) bridge" where
  "refresh_threads B = do {
     _ \<leftarrow> modify (\<lambda>w. w\<lparr>h_threads := []\<rparr>);
     attached \<leftarrow> gets h_attached;
     if \<not> attached then ret ()
     else do {
       (_, threads) \<leftarrow> debug_get_threads B;
       modify (\<lambda>w. w\<lparr>h_threads := threads\<rparr>)
     }
   }"

definition refresh_memory_maps :: "'b backend \<Rightarrow> ('b, bool) bridge" where
  "refresh_memory_maps B = do {
     pid \<leftarrow> gets h_pid;
     maps \<leftarrow> process_maps B pid;
     case maps of
       None \<Rightarrow> do { _ \<leftarrow> modify (\<lambda>w. w\<lparr>h_memory_maps := [], h_memory_maps_known := False\<rparr>); ret False }
     | Some ms \<Rightarrow> do { _ \<leftarrow> modify (\<lambda>w. w\<lparr>h_memory_maps := ms, h_memory_maps_known := True\<rparr>); ret True }
   }"

text \<open>The part \<^verbatim>\<open>ensure_attached\<close> and \<^verbatim>\<open>vAttach\<close> share after a successful attach.\<close>

definition enter_session :: "'b backend \<Rightarrow> ('b, unit) bridge" where
  "enter_session B = do {
     _ \<leftarrow> modify (\<lambda>w. w\<lparr>h_attached := True\<rparr>);
     _ \<leftarrow> refresh_threads B;
     _ \<leftarrow> modify (\<lambda>w. case h_threads w of [] \<Rightarrow> w
            | t # _ \<Rightarrow> w\<lparr>h_stop_lwp := t_lwp t, h_general_thread := t_lwp t\<rparr>);
     _ \<leftarrow> refresh_memory_maps B;
     ret ()
   }"

definition ensure_attached :: "'b backend \<Rightarrow> ('b, bool) bridge" where
  "ensure_attached B = do {
     attached \<leftarrow> gets h_attached;
     pid \<leftarrow> gets h_pid;
     if attached then ret True
     else if pid \<le> 0 then ret False
     else do {
       ok \<leftarrow> debug_attach B pid;
       if \<not> ok then ret False
       else do { _ \<leftarrow> enter_session B; ret True }
     }
   }"

definition current_thread :: "'z handler_scheme \<Rightarrow> int" where
  "current_thread h =
     (if h_general_thread h > 0 then h_general_thread h
      else if h_stop_lwp h > 0 then h_stop_lwp h
      else if h_threads h \<noteq> [] \<and> t_lwp (hd (h_threads h)) > 0 then t_lwp (hd (h_threads h))
      else if h_pid h > 0 then h_pid h else 0)"

definition stop_reply :: "'z handler_scheme \<Rightarrow> string" where
  "stop_reply h =
     (let tid = (if h_stop_lwp h > 0 then h_stop_lwp h else current_thread h);
          reply = snprintf 4 (''T'' @ hex2 (unat (h_stop_signal h))) @ h_stop_reason h
      in if tid > 0 then reply @ snprintf 32 (''thread:'' @ hex_of_nat (unsigned32 tid) @ '';'') else reply)"

definition capture_stop_reason :: "'b backend \<Rightarrow> int \<Rightarrow> ('b, unit) bridge" where
  "capture_stop_reason B lwp = do {
     _ \<leftarrow> modify (\<lambda>w. w\<lparr>h_stop_reason := []\<rparr>);
     if lwp \<le> 0 then ret ()
     else do {
       dbregs \<leftarrow> debug_get_dbregs B lwp;
       reason \<leftarrow> (case dbregs of None \<Rightarrow> ret []
         | Some dr \<Rightarrow> do {
             entries \<leftarrow> debug_get_watchpoints B;
             case entries of None \<Rightarrow> ret []
             | Some es \<Rightarrow> ret (gdb_watchpoint_stop_field (dr ! 6) es)
           });
       _ \<leftarrow> modify (\<lambda>w. w\<lparr>h_stop_reason := reason\<rparr>);
       if reason \<noteq> [] then ret ()
       else do {
         regs \<leftarrow> debug_get_regs B lwp;
         case regs of None \<Rightarrow> ret ()
         | Some r \<Rightarrow>
             modify (\<lambda>w. if r_rip r \<noteq> 0 \<and> map_of (h_sw_breakpoints w) (r_rip r - 1) \<noteq> None
                         then w\<lparr>h_stop_reason := ''swbreak:;''\<rparr> else w)
       }
     }
   }"

end
