(* ===== verification/Rsp_Memory.thy ===== *)
theory Rsp_Memory
  imports Rsp_Handler
begin

text \<open>
  The memory packets, \<^verbatim>\<open>src/tools/gdb_bridge/rsp_handler_memory.cpp\<close>: \<^verbatim>\<open>m\<close>,
  \<^verbatim>\<open>M\<close>, \<^verbatim>\<open>X\<close> and \<^verbatim>\<open>qSearch:memory\<close>. Reads are made in chunks and the original
  bytes of the software breakpoints are put back over the INT3 instructions.
\<close>

section \<open>Reading\<close>

text \<open>The loop over \<^verbatim>\<open>sw_breakpoints_\<close> in \<^verbatim>\<open>handle_memory_read\<close>.\<close>

definition mask_breakpoints :: "(u64 \<times> byte) list \<Rightarrow> u64 \<Rightarrow> byte list \<Rightarrow> byte list" where
  "mask_breakpoints entries chunk_begin data =
     fold (\<lambda>(bp_addr, original) d.
       if bp_addr \<ge> chunk_begin \<and> bp_addr < chunk_begin + word_of_nat (length data)
       then d[unat (bp_addr - chunk_begin) := original] else d) entries data"

text \<open>
  The reading loop. The counters are natural numbers: the length was checked to be at most
  \<^const>\<open>kRspMaxMemory\<close>, so that neither \<^verbatim>\<open>done\<close> nor the cast of the chunk to 32 bits loses
  anything; addresses are 64-bit words.
\<close>

function read_chunks :: "'b backend \<Rightarrow> u64 \<Rightarrow> nat \<Rightarrow> nat \<Rightarrow> string \<Rightarrow> ('b, string) bridge" where
  "read_chunks B addr len progress hex =
     (if progress < len then
        (let chunk = min (len - progress) kMemChunk; chunk_begin = addr + word_of_nat progress in do {
           pid \<leftarrow> gets h_pid;
           r \<leftarrow> memory_read B pid chunk_begin chunk;
           case r of None \<Rightarrow> ret (err_packet 1)
           | Some data \<Rightarrow>
               if length data \<noteq> chunk then ret (err_packet 1)
               else do {
                 bps \<leftarrow> gets h_sw_breakpoints;
                 read_chunks B addr len (progress + chunk)
                   (hex @ bytes_to_hex (mask_breakpoints bps chunk_begin data))
               }
         })
      else ret hex)"
  by pat_completeness auto
termination
  by (relation "measure (\<lambda>(B, addr, len, progress, hex). len - progress)") (auto simp: kMemChunk_def)

declare read_chunks.simps [simp del]

definition handle_memory_read :: "'b backend \<Rightarrow> string \<Rightarrow> ('b, string) bridge" where
  "handle_memory_read B packet = do {
     ok \<leftarrow> ensure_attached B;
     if \<not> ok then ret (err_packet 1)
     else case find_char packet CHR '','' 0 of None \<Rightarrow> ret (err_packet 1)
     | Some comma \<Rightarrow>
        (case parse_hex_u64 packet 1 comma of None \<Rightarrow> ret (err_packet 1)
         | Some addr \<Rightarrow>
            (case parse_hex_u64 packet (comma + 1) (length packet) of None \<Rightarrow> ret (err_packet 1)
             | Some len \<Rightarrow>
                if len = 0 then ret []
                else if len > kRspMaxMemory \<or> addr > - 1 - len then ret (err_packet 0x22)
                else do {
                  known \<leftarrow> gets h_memory_maps_known;
                  maps \<leftarrow> gets h_memory_maps;
                  if known \<and> \<not> gdb_memory_range_mapped maps addr len then ret (err_packet 1)
                  else read_chunks B addr (unat len) 0 []
                }))
   }"

section \<open>Writing\<close>

text \<open>The end both write packets share: one backend write, which must take all the bytes.\<close>

definition write_bytes :: "'b backend \<Rightarrow> u64 \<Rightarrow> byte list \<Rightarrow> ('b, string) bridge" where
  "write_bytes B addr data = do {
     pid \<leftarrow> gets h_pid;
     (ok, written) \<leftarrow> memory_write B pid addr data;
     ret (if \<not> ok \<or> written \<noteq> word_of_nat (length data) then err_packet 1 else ''OK'')
   }"

definition handle_memory_write :: "'b backend \<Rightarrow> string \<Rightarrow> ('b, string) bridge" where
  "handle_memory_write B packet = do {
     ok \<leftarrow> ensure_attached B;
     if \<not> ok then ret (err_packet 1)
     else case find_char packet CHR '','' 0 of None \<Rightarrow> ret (err_packet 1)
     | Some comma \<Rightarrow> (case find_char packet CHR '':'' 0 of None \<Rightarrow> ret (err_packet 1)
     | Some colon \<Rightarrow>
        if colon < comma then ret (err_packet 1)
        else (case parse_hex_u64 packet 1 comma of None \<Rightarrow> ret (err_packet 1)
         | Some addr \<Rightarrow>
            (case parse_hex_u64 packet (comma + 1) colon of None \<Rightarrow> ret (err_packet 1)
             | Some len \<Rightarrow>
                if len > kRspMaxMemory \<or> addr > - 1 - len then ret (err_packet 0x22)
                else do {
                  known \<leftarrow> gets h_memory_maps_known;
                  maps \<leftarrow> gets h_memory_maps;
                  if known \<and> \<not> gdb_memory_range_mapped maps addr len then ret (err_packet 1)
                  else let hex = drop (colon + 1) packet in
                    if length hex \<noteq> unat len * 2 then ret (err_packet 1)
                    else case hex_to_bytes hex (unat len) of None \<Rightarrow> ret (err_packet 1)
                      | Some data \<Rightarrow> write_bytes B addr data
                })))
   }"

definition handle_binary_memory_write :: "'b backend \<Rightarrow> string \<Rightarrow> ('b, string) bridge" where
  "handle_binary_memory_write B packet = do {
     ok \<leftarrow> ensure_attached B;
     if \<not> ok then ret (err_packet 1)
     else case find_char packet CHR '','' 0 of None \<Rightarrow> ret (err_packet 1)
     | Some comma \<Rightarrow> (case find_char packet CHR '':'' 0 of None \<Rightarrow> ret (err_packet 1)
     | Some colon \<Rightarrow>
        if comma \<le> 1 \<or> colon \<le> comma + 1 then ret (err_packet 1)
        else (case parse_hex_u64 packet 1 comma of None \<Rightarrow> ret (err_packet 1)
         | Some addr \<Rightarrow>
            (case parse_hex_u64 packet (comma + 1) colon of None \<Rightarrow> ret (err_packet 1)
             | Some len \<Rightarrow>
                if len > kRspMaxMemory \<or> addr > - 1 - len then ret (err_packet 0x22)
                else do {
                  known \<leftarrow> gets h_memory_maps_known;
                  maps \<leftarrow> gets h_memory_maps;
                  if known \<and> \<not> gdb_memory_range_mapped maps addr len then ret (err_packet 1)
                  else if length packet - colon - 1 \<noteq> unat len then ret (err_packet 1)
                  else write_bytes B addr (map byte_of_char (drop (colon + 1) packet))
                })))
   }"

section \<open>Searching\<close>

text \<open>\<^verbatim>\<open>std::search\<close>: the position of the first occurrence of the pattern.\<close>

fun search :: "'a list \<Rightarrow> 'a list \<Rightarrow> nat option" where
  "search pattern [] = (if pattern = [] then Some 0 else None)"
| "search pattern (x # xs) =
     (if take (length pattern) (x # xs) = pattern then Some 0 else map_option Suc (search pattern xs))"

text \<open>\<open>finish\<close> is \<^verbatim>\<open>address + length\<close>.\<close>

function search_chunks :: "'b backend \<Rightarrow> byte list \<Rightarrow> u64 \<Rightarrow> u64 \<Rightarrow> byte list \<Rightarrow> ('b, string) bridge" where
  "search_chunks B pattern finish cursor carry =
     (if cursor < finish then
        (let amount = min (word_of_nat kMemChunk) (finish - cursor) in do {
           pid \<leftarrow> gets h_pid;
           r \<leftarrow> memory_read B pid cursor (unat amount);
           case r of None \<Rightarrow> ret (err_packet 1)
           | Some data \<Rightarrow>
               if length data \<noteq> unat amount then ret (err_packet 1)
               else let window = carry @ data in
                 (case search pattern window of
                    Some hit \<Rightarrow>
                      ret (snprintf 40 (''1,'' @ hex_of_nat (unat (cursor - word_of_nat (length carry) + word_of_nat hit))))
                  | None \<Rightarrow>
                      let keep = min (length pattern - 1) (length window) in
                      search_chunks B pattern finish (cursor + amount) (drop (length window - keep) window))
         })
      else ret ''0'')"
  by pat_completeness auto

lemma search_progress:
  fixes cursor finish :: u64
  assumes "cursor < finish"
  defines "amount \<equiv> min (word_of_nat kMemChunk) (finish - cursor)"
  shows "unat (cursor + amount) = unat cursor + unat amount" "cursor < cursor + amount" "cursor + amount \<le> finish"
proof -
  have le: "amount \<le> finish - cursor"
    by (simp add: amount_def)
  have d: "unat (finish - cursor) = unat finish - unat cursor"
    using assms(1) by (simp add: unat_sub order.strict_implies_order)
  have c: "unat cursor < unat finish"
    using assms(1) by (simp add: word_less_nat_alt)
  have la: "unat amount \<le> unat finish - unat cursor"
    using le d by (simp add: word_le_nat_alt)
  have "finish - cursor \<noteq> 0"
    using c d by (metis unsigned_0 zero_less_diff less_numeral_extra(3))
  then have "amount \<noteq> 0"
    by (auto simp: amount_def kMemChunk_def min_def)
  then have pos: "0 < unat amount"
    by (simp add: unat_gt_0)
  have "unat cursor + unat amount < 2 ^ 64"
    using la c unsigned_less [of finish, where 'a = nat] by simp
  then show s: "unat (cursor + amount) = unat cursor + unat amount"
    by (simp add: unat_word_ariths)
  show "cursor < cursor + amount" "cursor + amount \<le> finish"
    using s pos la c by (simp_all add: word_less_nat_alt word_le_nat_alt)
qed

lemma search_measure:
  "cursor < finish \<Longrightarrow>
     unat finish - unat (cursor + min (word_of_nat kMemChunk) (finish - cursor)) < unat finish - unat cursor"
  for cursor :: u64
  using search_progress [of cursor finish]
  by (simp add: word_less_nat_alt word_le_nat_alt)

termination search_chunks
  by (relation "measure (\<lambda>(B, pattern, finish, cursor, carry). unat finish - unat cursor)")
    (simp_all add: search_measure)

declare search_chunks.simps [simp del]

definition handle_search_memory :: "'b backend \<Rightarrow> string \<Rightarrow> ('b, string) bridge" where
  "handle_search_memory B packet = do {
     ok \<leftarrow> ensure_attached B;
     let prefix = ''qSearch:memory:'' in
     if \<not> ok \<or> \<not> starts_with packet prefix then ret (err_packet 1)
     else let begin_pos = length prefix in
       case find_char packet CHR '';'' begin_pos of None \<Rightarrow> ret (err_packet 1)
       | Some semi1 \<Rightarrow> (case find_char packet CHR '';'' (semi1 + 1) of None \<Rightarrow> ret (err_packet 1)
       | Some semi2 \<Rightarrow>
          (case parse_hex_u64 packet begin_pos semi1 of None \<Rightarrow> ret (err_packet 0x22)
           | Some address \<Rightarrow>
              (case parse_hex_u64 packet (semi1 + 1) semi2 of None \<Rightarrow> ret (err_packet 0x22)
               | Some len \<Rightarrow>
                  if len > 0x4000000 \<or> address > - 1 - len then ret (err_packet 0x22)
                  else let pattern = map byte_of_char (drop (semi2 + 1) packet) in do {
                    known \<leftarrow> gets h_memory_maps_known;
                    maps \<leftarrow> gets h_memory_maps;
                    if pattern = [] \<or> length pattern > 0x1000 \<or> length pattern > unat len
                       \<or> (known \<and> \<not> gdb_memory_range_mapped maps address len)
                    then ret (if length pattern > unat len then ''0'' else err_packet 1)
                    else search_chunks B pattern (address + len) address []
                  })))
   }"

end
