(* ===== verification/Target_Xml.thy ===== *)
theory Target_Xml
  imports Gdb_Regs
begin

text \<open>
  The target description \<^verbatim>\<open>src/tools/gdb_bridge/target_xml.cpp\<close> that GDB fetches with
  \<^verbatim>\<open>qXfer:features:read:target.xml\<close>. The literal is given line by line; the lines of one
  shape (registers, flag fields) are printed from tables, so that the tables can be compared
  with the register numbering of \<^verbatim>\<open>gdb_regs.hpp\<close>.
\<close>

section \<open>Tables\<close>

record xml_reg =
  x_name :: string
  x_bitsize :: nat
  x_type :: string
  x_regnum :: "nat option"
  x_group :: "string option"

definition reg_line :: "xml_reg \<Rightarrow> string" where
  \<open>reg_line r = ''    <reg name="'' @ x_name r @ ''" bitsize="'' @ dec_of_nat (x_bitsize r) @ ''" type="'' @ x_type r @ ''"''
     @ (case x_regnum r of None \<Rightarrow> [] | Some n \<Rightarrow> '' regnum="'' @ dec_of_nat n @ ''"'')
     @ (case x_group r of None \<Rightarrow> [] | Some g \<Rightarrow> '' group="'' @ g @ ''"'') @ ''/>''\<close>

definition flag_line :: "string \<times> nat \<Rightarrow> string" where
  \<open>flag_line f = ''      <field name="'' @ fst f @ ''" start="'' @ dec_of_nat (snd f) @ ''" end="'' @ dec_of_nat (snd f) @ ''"/>''\<close>

definition plain_reg :: "string \<Rightarrow> nat \<Rightarrow> string \<Rightarrow> xml_reg" where
  "plain_reg name bits ty = \<lparr>x_name = name, x_bitsize = bits, x_type = ty, x_regnum = None, x_group = None\<rparr>"

definition core_xml_regs :: "xml_reg list" where
  "core_xml_regs = [
     (plain_reg ''rax'' 64 ''int64'')\<lparr>x_regnum := Some 0\<rparr>,
     plain_reg ''rbx'' 64 ''int64'',
     plain_reg ''rcx'' 64 ''int64'',
     plain_reg ''rdx'' 64 ''int64'',
     plain_reg ''rsi'' 64 ''int64'',
     plain_reg ''rdi'' 64 ''int64'',
     plain_reg ''rbp'' 64 ''data_ptr'',
     plain_reg ''rsp'' 64 ''data_ptr'',
     plain_reg ''r8'' 64 ''int64'',
     plain_reg ''r9'' 64 ''int64'',
     plain_reg ''r10'' 64 ''int64'',
     plain_reg ''r11'' 64 ''int64'',
     plain_reg ''r12'' 64 ''int64'',
     plain_reg ''r13'' 64 ''int64'',
     plain_reg ''r14'' 64 ''int64'',
     plain_reg ''r15'' 64 ''int64'',
     plain_reg ''rip'' 64 ''code_ptr'',
     plain_reg ''eflags'' 32 ''i386_eflags'',
     plain_reg ''cs'' 32 ''int32'',
     plain_reg ''ss'' 32 ''int32'',
     plain_reg ''ds'' 32 ''int32'',
     plain_reg ''es'' 32 ''int32'',
     plain_reg ''fs'' 32 ''int32'',
     plain_reg ''gs'' 32 ''int32'']"

definition x87_xml_regs :: "xml_reg list" where
  "x87_xml_regs = [
     plain_reg ''st0'' 80 ''i387_ext'',
     plain_reg ''st1'' 80 ''i387_ext'',
     plain_reg ''st2'' 80 ''i387_ext'',
     plain_reg ''st3'' 80 ''i387_ext'',
     plain_reg ''st4'' 80 ''i387_ext'',
     plain_reg ''st5'' 80 ''i387_ext'',
     plain_reg ''st6'' 80 ''i387_ext'',
     plain_reg ''st7'' 80 ''i387_ext'',
     (plain_reg ''fctrl'' 32 ''int'')\<lparr>x_group := Some ''float''\<rparr>,
     (plain_reg ''fstat'' 32 ''int'')\<lparr>x_group := Some ''float''\<rparr>,
     (plain_reg ''ftag'' 32 ''int'')\<lparr>x_group := Some ''float''\<rparr>,
     (plain_reg ''fiseg'' 32 ''int'')\<lparr>x_group := Some ''float''\<rparr>,
     (plain_reg ''fioff'' 32 ''int'')\<lparr>x_group := Some ''float''\<rparr>,
     (plain_reg ''foseg'' 32 ''int'')\<lparr>x_group := Some ''float''\<rparr>,
     (plain_reg ''fooff'' 32 ''int'')\<lparr>x_group := Some ''float''\<rparr>,
     (plain_reg ''fop'' 32 ''int'')\<lparr>x_group := Some ''float''\<rparr>]"

definition sse_xml_regs :: "xml_reg list" where
  "sse_xml_regs = [
     (plain_reg ''xmm0'' 128 ''vec128'')\<lparr>x_regnum := Some 40\<rparr>,
     plain_reg ''xmm1'' 128 ''vec128'',
     plain_reg ''xmm2'' 128 ''vec128'',
     plain_reg ''xmm3'' 128 ''vec128'',
     plain_reg ''xmm4'' 128 ''vec128'',
     plain_reg ''xmm5'' 128 ''vec128'',
     plain_reg ''xmm6'' 128 ''vec128'',
     plain_reg ''xmm7'' 128 ''vec128'',
     plain_reg ''xmm8'' 128 ''vec128'',
     plain_reg ''xmm9'' 128 ''vec128'',
     plain_reg ''xmm10'' 128 ''vec128'',
     plain_reg ''xmm11'' 128 ''vec128'',
     plain_reg ''xmm12'' 128 ''vec128'',
     plain_reg ''xmm13'' 128 ''vec128'',
     plain_reg ''xmm14'' 128 ''vec128'',
     plain_reg ''xmm15'' 128 ''vec128'',
     (plain_reg ''mxcsr'' 32 ''i386_mxcsr'')\<lparr>x_group := Some ''vector''\<rparr>]"

definition eflags_fields :: "(string \<times> nat) list" where
  "eflags_fields = [
     (''CF'', 0), (''PF'', 2), (''AF'', 4), (''ZF'', 6), (''SF'', 7), (''TF'', 8), (''IF'', 9), (''DF'', 10),
     (''OF'', 11), (''NT'', 14), (''RF'', 16), (''VM'', 17), (''AC'', 18), (''VIF'', 19), (''VIP'', 20), (''ID'', 21)]"

definition mxcsr_fields :: "(string \<times> nat) list" where
  "mxcsr_fields = [
     (''IE'', 0), (''DE'', 1), (''ZE'', 2), (''OE'', 3), (''UE'', 4), (''PE'', 5), (''DAZ'', 6), (''IM'', 7),
     (''DM'', 8), (''ZM'', 9), (''OM'', 10), (''UM'', 11), (''PM'', 12), (''FZ'', 15)]"

section \<open>The document\<close>

definition target_xml_lines :: "string list" where
  \<open>target_xml_lines =
     [''<?xml version="1.0"?>'',
      ''<!-- Register descriptions adapted from GDB'' @ [CHR 0x27] @ ''s 64bit-core.xml and'',
      ''     64bit-sse.xml. Copyright (C) 2010-2026 Free Software Foundation, Inc.'',
      ''     Copying and distribution of this description, with or without'',
      ''     modification, are permitted provided this notice is preserved. -->'',
      ''<!DOCTYPE target SYSTEM "gdb-target.dtd">'',
      ''<target version="1.0">'',
      ''  <architecture>i386:x86-64</architecture>'',
      ''  <osabi>none</osabi>'',
      [],
      ''  <feature name="org.gnu.gdb.i386.core">'',
      ''    <flags id="i386_eflags" size="4">'']
     @ map flag_line eflags_fields
     @ [''    </flags>'',
      []]
     @ map reg_line core_xml_regs
     @ [[]]
     @ map reg_line x87_xml_regs
     @ [''  </feature>'',
      [],
      ''  <feature name="org.gnu.gdb.i386.sse">'',
      ''    <vector id="v4f" type="ieee_single" count="4"/>'',
      ''    <vector id="v2d" type="ieee_double" count="2"/>'',
      ''    <vector id="v16i8" type="int8" count="16"/>'',
      ''    <vector id="v8i16" type="int16" count="8"/>'',
      ''    <vector id="v4i32" type="int32" count="4"/>'',
      ''    <vector id="v2i64" type="int64" count="2"/>'',
      ''    <union id="vec128">'',
      ''      <field name="v4_float" type="v4f"/>'',
      ''      <field name="v2_double" type="v2d"/>'',
      ''      <field name="v16_int8" type="v16i8"/>'',
      ''      <field name="v8_int16" type="v8i16"/>'',
      ''      <field name="v4_int32" type="v4i32"/>'',
      ''      <field name="v2_int64" type="v2i64"/>'',
      ''      <field name="uint128" type="uint128"/>'',
      ''    </union>'',
      ''    <flags id="i386_mxcsr" size="4">'']
     @ map flag_line mxcsr_fields
     @ [''    </flags>'',
      []]
     @ map reg_line sse_xml_regs
     @ [''  </feature>'',
      ''</target>'']\<close>

text \<open>Every line ends with a newline.\<close>

definition kMemdbgGdbTargetXml :: string where
  "kMemdbgGdbTargetXml = concat (map (\<lambda>l. l @ [CHR 0x0A]) target_xml_lines)"

end
