(* ===== verification/Rsp_Query.thy ===== *)
theory Rsp_Query
  imports Rsp_Memory Target_Xml
begin

text \<open>
  The query packets, \<^verbatim>\<open>src/tools/gdb_bridge/rsp_handler_query.cpp\<close>: the \<^verbatim>\<open>qXfer\<close>
  documents, \<^verbatim>\<open>qMemoryRegionInfo\<close> and the dispatch of the \<^verbatim>\<open>q\<close> and \<^verbatim>\<open>Q\<close> packets.
\<close>

section \<open>Documents\<close>

definition qxfer_features :: "string \<Rightarrow> nat \<Rightarrow> nat \<Rightarrow> string" where
  "qxfer_features annex offset len =
     (if annex \<noteq> ''target.xml'' then err_packet 1 else qxfer_slice kMemdbgGdbTargetXml offset len)"

definition memory_map_item :: "map_entry \<Rightarrow> string" where
  \<open>memory_map_item m =
     (if map_end m \<le> map_start m then []
      else snprintf 128 (''<memory type="ram" start="0x'' @ hex_of_nat (unat (map_start m)) @ ''" length="0x''
        @ hex_of_nat (unat (map_end m - map_start m)) @ ''"/>''))\<close>

definition memory_map_xml :: "map_entry list \<Rightarrow> string" where
  \<open>memory_map_xml maps =
     ''<?xml version="1.0"?><!DOCTYPE memory-map PUBLIC "+//IDN gnu.org/DTD GDB Memory Map V1.0//EN" ''
     @ ''"http://sourceware.org/gdb/gdb-memory-map.dtd"><memory-map>''
     @ concat (map memory_map_item maps) @ ''</memory-map>''\<close>

text \<open>The refresh rule of the map documents: on the first slice, or when the maps are unknown.\<close>

definition maps_for_xfer :: "'b backend \<Rightarrow> nat \<Rightarrow> ('b, bool) bridge" where
  "maps_for_xfer B offset = do {
     known \<leftarrow> gets h_memory_maps_known;
     if offset = 0 \<or> \<not> known then refresh_memory_maps B else ret True
   }"

definition qxfer_memory_map :: "'b backend \<Rightarrow> nat \<Rightarrow> nat \<Rightarrow> ('b, string) bridge" where
  "qxfer_memory_map B offset len = do {
     attached \<leftarrow> ensure_attached B;
     if \<not> attached then ret (err_packet 1)
     else do {
       ok \<leftarrow> maps_for_xfer B offset;
       if \<not> ok then ret (err_packet 1)
       else gets (\<lambda>w. qxfer_slice (memory_map_xml (h_memory_maps w)) offset len)
     }
   }"

definition thread_item :: "thread_entry \<Rightarrow> string" where
  \<open>thread_item t =
     (if t_lwp t \<le> 0 then []
      else snprintf 48 (''<thread id="'' @ hex_of_nat (unsigned32 (t_lwp t)) @ ''" name="'')
        @ xml_escape (if t_name t = [] then ''LWP '' @ dec_of_int (t_lwp t) else t_name t) @ ''"/>'')\<close>

definition threads_xml :: "'z handler_scheme \<Rightarrow> string" where
  \<open>threads_xml h =
     ''<?xml version="1.0"?><threads>''
     @ (if h_threads h = [] \<and> h_pid h > 0
        then snprintf 96 (''<thread id="'' @ hex_of_nat (unsigned32 (h_pid h)) @ ''" name="main (fallback)"/>'')
        else concat (map thread_item (h_threads h)))
     @ ''</threads>''\<close>

definition qxfer_threads :: "'b backend \<Rightarrow> nat \<Rightarrow> nat \<Rightarrow> ('b, string) bridge" where
  "qxfer_threads B offset len = do {
     attached \<leftarrow> ensure_attached B;
     if \<not> attached then ret (err_packet 1)
     else do {
       _ \<leftarrow> (if offset = 0 then refresh_threads B else ret ());
       gets (\<lambda>w. qxfer_slice (threads_xml w) offset len)
     }
   }"

definition segment_item :: "map_entry \<Rightarrow> string" where
  \<open>segment_item m = snprintf 64 (''<segment address="0x'' @ hex_of_nat (unat (map_start m)) @ ''"/>'')\<close>

definition library_item :: "map_entry list \<Rightarrow> string \<Rightarrow> string" where
  \<open>library_item maps name =
     ''<library name="'' @ xml_escape name @ ''">''
     @ concat (map segment_item (filter (\<lambda>m. map_name m = name \<and> map_start m < map_end m) maps))
     @ ''</library>''\<close>

text \<open>The outer loop; \<open>emitted\<close> are the names already written.\<close>

fun library_items :: "map_entry list \<Rightarrow> map_entry list \<Rightarrow> string list \<Rightarrow> string" where
  "library_items all_maps [] emitted = []"
| "library_items all_maps (m # ms) emitted =
     (if map_end m \<le> map_start m \<or> map_name m = [] \<or> map_name m \<in> set emitted
      then library_items all_maps ms emitted
      else library_item all_maps (map_name m) @ library_items all_maps ms (emitted @ [map_name m]))"

definition libraries_xml :: "map_entry list \<Rightarrow> string" where
  \<open>libraries_xml maps = ''<?xml version="1.0"?><library-list>'' @ library_items maps maps [] @ ''</library-list>''\<close>

definition qxfer_libraries :: "'b backend \<Rightarrow> nat \<Rightarrow> nat \<Rightarrow> ('b, string) bridge" where
  "qxfer_libraries B offset len = do {
     attached \<leftarrow> ensure_attached B;
     if \<not> attached then ret (err_packet 1)
     else do {
       ok \<leftarrow> maps_for_xfer B offset;
       if \<not> ok then ret (err_packet 1)
       else gets (\<lambda>w. qxfer_slice (libraries_xml (h_memory_maps w)) offset len)
     }
   }"

definition qxfer_exec_file :: "'b backend \<Rightarrow> nat \<Rightarrow> nat \<Rightarrow> ('b, string) bridge" where
  "qxfer_exec_file B offset len = do {
     attached \<leftarrow> ensure_attached B;
     if \<not> attached then ret (err_packet 1)
     else do {
       pid \<leftarrow> gets h_pid;
       info \<leftarrow> get_process_info B pid;
       case info of None \<Rightarrow> ret (err_packet 1)
       | Some i \<Rightarrow> ret (qxfer_slice (if pi_path i \<noteq> [] then pi_path i else pi_name i) offset len)
     }
   }"

definition process_item :: "process_entry \<Rightarrow> string" where
  \<open>process_item p =
     ''<item><column name="pid">'' @ dec_of_int (pe_pid p) @ ''</column><column name="ppid">''
     @ dec_of_int (pe_ppid p) @ ''</column><column name="command">'' @ xml_escape (pe_name p)
     @ ''</column></item>''\<close>

definition osdata_xml :: "process_entry list \<Rightarrow> string" where
  \<open>osdata_xml ps =
     ''<?xml version="1.0"?><osdata type="processes">'' @ concat (map process_item ps) @ ''</osdata>''\<close>

definition qxfer_osdata :: "'b backend \<Rightarrow> string \<Rightarrow> nat \<Rightarrow> nat \<Rightarrow> ('b, string) bridge" where
  "qxfer_osdata B annex offset len =
     (if annex \<noteq> ''processes'' then ret (err_packet 1)
      else do {
        ps \<leftarrow> process_list B;
        case ps of None \<Rightarrow> ret (err_packet 1)
        | Some entries \<Rightarrow> ret (qxfer_slice (osdata_xml entries) offset len)
      })"

section \<open>Memory regions\<close>

definition permissions :: "u32 \<Rightarrow> string" where
  "permissions prot =
     (if prot AND 1 \<noteq> 0 then ''r'' else []) @ (if prot AND 2 \<noteq> 0 then ''w'' else [])
     @ (if prot AND 4 \<noteq> 0 then ''x'' else [])"

definition region_reply :: "map_entry \<Rightarrow> string" where
  "region_reply m =
     snprintf 128 (''start:'' @ hex_of_nat (unat (map_start m)) @ '';size:''
       @ hex_of_nat (unat (map_end m - map_start m)) @ '';permissions:'' @ permissions (map_protection m) @ '';'')
     @ (if map_name m \<noteq> [] then ''name:'' @ bytes_to_hex (map byte_of_char (map_name m)) @ '';'' else [])"

text \<open>The second loop of \<^verbatim>\<open>memory_region_info\<close>: the nearest map above the address.\<close>

definition next_start :: "map_entry list \<Rightarrow> u64 \<Rightarrow> u64" where
  "next_start maps address =
     fold (\<lambda>m nxt. if map_start m > address \<and> map_start m < nxt then map_start m else nxt) maps (- 1)"

definition gap_reply :: "map_entry list \<Rightarrow> u64 \<Rightarrow> string" where
  "gap_reply maps address =
     (let nxt = next_start maps address; gap = (if nxt = - 1 then - 1 - address else nxt - address) in
      snprintf 96 (''start:'' @ hex_of_nat (unat address) @ '';size:'' @ hex_of_nat (unat gap) @ '';permissions:;''))"

definition region_lookup :: "map_entry list \<Rightarrow> u64 \<Rightarrow> string" where
  "region_lookup maps address =
     (case find (\<lambda>m. map_start m \<le> address \<and> address < map_end m) maps of
        Some m \<Rightarrow> region_reply m | None \<Rightarrow> gap_reply maps address)"

definition memory_region_info :: "'b backend \<Rightarrow> string \<Rightarrow> ('b, string) bridge" where
  "memory_region_info B packet = do {
     attached \<leftarrow> ensure_attached B;
     let prefix = ''qMemoryRegionInfo:'' in
     if \<not> attached \<or> \<not> starts_with packet prefix then ret (err_packet 1)
     else case parse_hex_u64_cstr (c_str packet (length prefix)) of None \<Rightarrow> ret (err_packet 1)
     | Some address \<Rightarrow> do {
         known \<leftarrow> gets h_memory_maps_known;
         ok \<leftarrow> (if \<not> known then refresh_memory_maps B else ret True);
         if \<not> ok then ret (err_packet 1)
         else gets (\<lambda>w. region_lookup (h_memory_maps w) address)
       }
   }"

section \<open>Thread queries\<close>

definition thread_stop_info :: "'b backend \<Rightarrow> string \<Rightarrow> ('b, string) bridge" where
  "thread_stop_info B packet = do {
     attached \<leftarrow> ensure_attached B;
     let skip = length ''qThreadStopInfo'';
         id_begin = (if skip < length packet \<and> packet ! skip = CHR '','' then skip + 1 else skip) in
     if \<not> attached then ret (err_packet 1)
     else if id_begin \<ge> length packet then ret (err_packet 1)
     else case parse_thread_id (c_str packet id_begin) of None \<Rightarrow> ret (err_packet 1)
     | Some (req_pid, req_tid) \<Rightarrow> do {
         pid \<leftarrow> gets h_pid;
         if req_pid > 0 \<and> req_pid \<noteq> pid then ret (err_packet 1)
         else do {
           _ \<leftarrow> refresh_threads B;
           threads \<leftarrow> gets h_threads;
           if req_tid \<noteq> pid \<and> \<not> list_ex (\<lambda>t. t_lwp t = req_tid) threads then ret (err_packet 1)
           else gets (\<lambda>w. stop_reply (w\<lparr>h_stop_lwp := req_tid\<rparr>))
         }
       }
   }"

text \<open>The comma separated list of \<^verbatim>\<open>qfThreadInfo\<close>.\<close>

fun thread_ids :: "int \<Rightarrow> thread_entry list \<Rightarrow> string" where
  "thread_ids pid [] = []"
| "thread_ids pid [t] = snprintf 16 (hex_of_nat (unsigned32 (if t_lwp t > 0 then t_lwp t else pid)))"
| "thread_ids pid (t # u # ts) =
     snprintf 16 (hex_of_nat (unsigned32 (if t_lwp t > 0 then t_lwp t else pid))) @ '','' @ thread_ids pid (u # ts)"

definition first_thread_info :: "'b backend \<Rightarrow> ('b, string) bridge" where
  "first_thread_info B = do {
     _ \<leftarrow> refresh_threads B;
     _ \<leftarrow> modify (\<lambda>w. w\<lparr>h_thread_info_started := True\<rparr>);
     pid \<leftarrow> gets h_pid;
     threads \<leftarrow> gets h_threads;
     ret (if threads = []
          then (if pid > 0 then snprintf 16 (''m'' @ hex_of_nat (unsigned32 pid)) else ''l'')
          else ''m'' @ thread_ids pid threads)
   }"

definition thread_extra_info :: "'b backend \<Rightarrow> string \<Rightarrow> ('b, string) bridge" where
  "thread_extra_info B packet =
     (case parse_thread_id (c_str packet (length ''qThreadExtraInfo,'')) of None \<Rightarrow> ret (err_packet 1)
      | Some (req_pid, req_tid) \<Rightarrow> do {
          _ \<leftarrow> refresh_threads B;
          threads \<leftarrow> gets h_threads;
          pid \<leftarrow> gets h_pid;
          case find (\<lambda>t. t_lwp t = req_tid \<or> (req_tid \<le> 0 \<and> t_lwp t > 0)) threads of
            Some t \<Rightarrow> ret (gdb_thread_extra_info_hex (t_lwp t) (t_name t))
          | None \<Rightarrow> ret (gdb_thread_extra_info_hex (if req_tid > 0 then req_tid else if pid > 0 then pid else 1) [])
        })"

section \<open>The dispatch\<close>

definition supported_reply :: string where
  "supported_reply =
     ''PacketSize=200000;qXfer:features:read+;qXfer:memory-map:read+;qXfer:threads:read+;''
     @ ''qXfer:libraries:read+;qXfer:exec-file:read+;qXfer:osdata:read+;swbreak+;hwbreak+;''
     @ ''QStartNoAckMode+;vContSupported+''"

definition attached_reply :: "'b world \<Rightarrow> string \<Rightarrow> string" where
  "attached_reply w packet =
     (case parse_hex_u64 packet (length ''qAttached:'') (length packet) of None \<Rightarrow> err_packet 1
      | Some requested_pid \<Rightarrow>
          if h_attached w \<and> requested_pid = word_of_int (h_pid w) then ''1'' else ''0'')"

text \<open>The \<^verbatim>\<open>qXfer\<close> requests; \<^const>\<open>None\<close> is a request that is not one of them.\<close>

definition handle_qxfer :: "'b backend \<Rightarrow> string \<Rightarrow> ('b, string) bridge option" where
  "handle_qxfer B packet =
     (if starts_with packet ''qXfer:features:read:'' then Some
        (case parse_qxfer_request packet ''qXfer:features:read:'' of None \<Rightarrow> ret (err_packet 1)
         | Some (annex, offset, len) \<Rightarrow> ret (qxfer_features annex offset len))
      else if starts_with packet ''qXfer:memory-map:read:'' then Some
        (case parse_qxfer_request packet ''qXfer:memory-map:read:'' of None \<Rightarrow> ret (err_packet 1)
         | Some (annex, offset, len) \<Rightarrow> if annex \<noteq> [] then ret (err_packet 1) else qxfer_memory_map B offset len)
      else if starts_with packet ''qXfer:threads:read:'' then Some
        (case parse_qxfer_request packet ''qXfer:threads:read:'' of None \<Rightarrow> ret (err_packet 1)
         | Some (annex, offset, len) \<Rightarrow> if annex \<noteq> [] then ret (err_packet 1) else qxfer_threads B offset len)
      else if starts_with packet ''qXfer:libraries:read:'' then Some
        (case parse_qxfer_request packet ''qXfer:libraries:read:'' of None \<Rightarrow> ret (err_packet 1)
         | Some (annex, offset, len) \<Rightarrow> if annex \<noteq> [] then ret (err_packet 1) else qxfer_libraries B offset len)
      else if starts_with packet ''qXfer:exec-file:read:'' then Some
        (case parse_qxfer_request packet ''qXfer:exec-file:read:'' of None \<Rightarrow> ret (err_packet 1)
         | Some (annex, offset, len) \<Rightarrow> do {
             pid \<leftarrow> gets h_pid;
             if annex \<noteq> [] \<and> parse_hex_u64 annex 0 (length annex) \<noteq> Some (word_of_int pid) then ret (err_packet 1)
             else qxfer_exec_file B offset len
           })
      else if starts_with packet ''qXfer:osdata:read:'' then Some
        (case parse_qxfer_request packet ''qXfer:osdata:read:'' of None \<Rightarrow> ret (err_packet 1)
         | Some (annex, offset, len) \<Rightarrow> qxfer_osdata B annex offset len)
      else None)"

definition handle_query :: "'b backend \<Rightarrow> string \<Rightarrow> ('b, string) bridge" where
  "handle_query B packet =
     (if starts_with packet ''qSupported'' then ret supported_reply
      else if packet = ''QStartNoAckMode'' then do {
        _ \<leftarrow> on_conn (\<lambda>c. ((), c\<lparr>no_ack := True\<rparr>));
        ret ''OK''
      }
      else if packet = ''QNonStop:0'' \<or> packet = ''QThreadEvents:0'' \<or> packet = ''QThreadEvents:1'' then ret ''OK''
      else if packet = ''QNonStop:1'' then ret (err_packet 1)
      else if packet = ''qAttached'' then gets (\<lambda>w. if h_attached w then ''1'' else ''0'')
      else if starts_with packet ''qAttached:'' then gets (\<lambda>w. attached_reply w packet)
      else if packet = ''qProcessInfo'' \<or> starts_with packet ''qProcessInfo:'' then
        gets (\<lambda>w. snprintf 128 (''pid:'' @ hex_of_nat (unsigned32 (if h_pid w > 0 then h_pid w else 1))
          @ '';triple:x86_64-unknown-freebsd;endian:little;''))
      else if packet = ''qC'' then gets (\<lambda>w. snprintf 32 (''QC'' @ hex_of_nat (unsigned32 (current_thread w))))
      else if packet = ''qHostInfo'' then
        ret (''triple:7838365f36342d756e6b6e6f776e2d66726565627364;'' @ ''endian:little;ptrsize:8;'')
      else if packet = ''qOffsets'' then ret ''Text=0;Data=0;Bss=0''
      else if packet = ''qSymbol::'' \<or> starts_with packet ''qSymbol:'' then ret ''OK''
      else if packet = ''qTStatus'' \<or> packet = ''qTfV'' \<or> packet = ''qTsV'' then ret []
      else if starts_with packet ''qMemoryRegionInfo:'' then memory_region_info B packet
      else if starts_with packet ''qSearch:memory:'' then handle_search_memory B packet
      else if starts_with packet ''qThreadStopInfo'' then thread_stop_info B packet
      else if packet = ''qfThreadInfo'' then first_thread_info B
      else if packet = ''qsThreadInfo'' then ret ''l''
      else if starts_with packet ''qThreadExtraInfo,'' then thread_extra_info B packet
      else case handle_qxfer B packet of Some m \<Rightarrow> m | None \<Rightarrow> ret [])"

end
