(* ===== verification/Rsp_Run.thy ===== *)
theory Rsp_Run
  imports Rsp_Handler
begin

text \<open>
  Run control, \<^verbatim>\<open>src/tools/gdb_bridge/rsp_handler_run.cpp\<close>: continue and step with the
  loop that waits for the target to stop, breakpoints and watchpoints, \<^verbatim>\<open>vAttach\<close>,
  \<^verbatim>\<open>vKill\<close> and \<^verbatim>\<open>vCont\<close>. The waiting loop has no bound in the source; it takes
  fuel here, and \<^const>\<open>None\<close> means that the target is still running.
\<close>

section \<open>Waiting for a stop\<close>

text \<open>The loop over \<^verbatim>\<open>threads_\<close> that picks the signal of the stopped thread.\<close>

fun stop_signal_of :: "thread_entry list \<Rightarrow> int \<Rightarrow> byte \<Rightarrow> byte" where
  "stop_signal_of [] lwp signal = signal"
| "stop_signal_of (t # ts) lwp signal =
     (if t_lwp t = lwp \<and> si_stop_signal (t_stop_info t) > 0 \<and> si_stop_signal (t_stop_info t) \<le> 0xFF
      then word_of_int (si_stop_signal (t_stop_info t)) else stop_signal_of ts lwp signal)"

definition on_interrupt :: "'b backend \<Rightarrow> ('b, string) bridge" where
  "on_interrupt B = do {
     _ \<leftarrow> debug_stop B;
     (_, _, stop_lwp) \<leftarrow> debug_poll_events B;
     _ \<leftarrow> modify (\<lambda>w. if stop_lwp \<noteq> 0 then w\<lparr>h_stop_lwp := stop_lwp\<rparr> else w);
     _ \<leftarrow> modify (\<lambda>w. w\<lparr>h_stop_signal := 2\<rparr>);
     _ \<leftarrow> refresh_memory_maps B;
     gets stop_reply
   }"

definition on_stop :: "'b backend \<Rightarrow> int \<Rightarrow> ('b, string) bridge" where
  "on_stop B stop_lwp = do {
     _ \<leftarrow> modify (\<lambda>w. if stop_lwp \<noteq> 0 then w\<lparr>h_stop_lwp := stop_lwp\<rparr> else w);
     _ \<leftarrow> modify (\<lambda>w. w\<lparr>h_stop_signal := 5\<rparr>);
     _ \<leftarrow> refresh_threads B;
     _ \<leftarrow> modify (\<lambda>w. w\<lparr>h_stop_signal := stop_signal_of (h_threads w) (h_stop_lwp w) (h_stop_signal w)\<rparr>);
     lwp \<leftarrow> gets h_stop_lwp;
     _ \<leftarrow> capture_stop_reason B lwp;
     _ \<leftarrow> modify (\<lambda>w. w\<lparr>h_general_thread := h_stop_lwp w\<rparr>);
     _ \<leftarrow> refresh_memory_maps B;
     gets stop_reply
   }"

fun wait_stop :: "nat \<Rightarrow> 'b backend \<Rightarrow> ('b, string option) bridge" where
  "wait_stop 0 B = ret None"
| "wait_stop (Suc fuel) B = do {
     shutdown \<leftarrow> shutdown_requested;
     if shutdown then do { _ \<leftarrow> safe_detach B; gets (\<lambda>w. Some (stop_reply w)) }
     else do {
       interrupted \<leftarrow> on_conn poll_interrupt;
       if interrupted then do { r \<leftarrow> on_interrupt B; ret (Some r) }
       else do {
         (ok, stopped, stop_lwp) \<leftarrow> debug_poll_events B;
         if \<not> ok then ret (Some (err_packet 1))
         else if stopped then do { r \<leftarrow> on_stop B stop_lwp; ret (Some r) }
         else wait_stop fuel B
       }
     }
   }"

definition handle_continue_or_step :: "nat \<Rightarrow> 'b backend \<Rightarrow> bool \<Rightarrow> int \<Rightarrow> ('b, string option) bridge" where
  "handle_continue_or_step fuel B step lwp = do {
     attached \<leftarrow> ensure_attached B;
     if \<not> attached then ret (Some (err_packet 1))
     else do {
       tid \<leftarrow> gets (\<lambda>w. if lwp \<noteq> 0 then lwp else current_thread w);
       ok \<leftarrow> (if step then debug_step B tid else debug_continue B);
       if \<not> ok then ret (Some (err_packet 1))
       else do {
         _ \<leftarrow> modify (\<lambda>w. w\<lparr>h_stop_reason := []\<rparr>);
         wait_stop fuel B
       }
     }
   }"

definition set_program_counter :: "'b backend \<Rightarrow> u64 \<Rightarrow> ('b, bool) bridge" where
  "set_program_counter B address = do {
     tid \<leftarrow> gets current_thread;
     regs \<leftarrow> debug_get_regs B tid;
     case regs of None \<Rightarrow> ret False
     | Some r \<Rightarrow> do {
         tid' \<leftarrow> gets current_thread;
         debug_set_regs B tid' (r\<lparr>r_rip := address\<rparr>)
       }
   }"

definition kill_process :: "'b backend \<Rightarrow> int \<Rightarrow> ('b, bool) bridge" where
  "kill_process B target_pid = do {
     attached \<leftarrow> gets h_attached;
     pid \<leftarrow> gets h_pid;
     if target_pid \<le> 1 then ret False
     else do {
       free \<leftarrow> (if attached then (if target_pid \<noteq> pid then ret False else safe_detach B) else ret True);
       if \<not> free then ret False else process_kill B target_pid
     }
   }"

text \<open>
  The packets \<^verbatim>\<open>c\<close>, \<^verbatim>\<open>C\<close>, \<^verbatim>\<open>s\<close>, \<^verbatim>\<open>S\<close>; \<open>resume_at\<close> is the part after the signal,
  \<open>resume_thread\<close> its last statement.
\<close>

definition resume_thread :: "nat \<Rightarrow> 'b backend \<Rightarrow> bool \<Rightarrow> ('b, string option) bridge" where
  "resume_thread fuel B step = do {
     cont \<leftarrow> gets h_continue_thread;
     handle_continue_or_step fuel B step cont
   }"

definition resume_at :: "nat \<Rightarrow> 'b backend \<Rightarrow> string \<Rightarrow> bool \<Rightarrow> nat \<Rightarrow> ('b, string option) bridge" where
  "resume_at fuel B packet step address_begin =
     (if address_begin < length packet then
       (case parse_hex_u64 packet address_begin (length packet) of None \<Rightarrow> ret (Some (err_packet 1))
        | Some address \<Rightarrow> do {
            attached \<leftarrow> ensure_attached B;
            if \<not> attached then ret (Some (err_packet 1))
            else do {
              ok \<leftarrow> set_program_counter B address;
              if \<not> ok then ret (Some (err_packet 1))
              else resume_thread fuel B step
            }
          })
      else resume_thread fuel B step)"

definition handle_resume_packet :: "nat \<Rightarrow> 'b backend \<Rightarrow> string \<Rightarrow> bool \<Rightarrow> ('b, string option) bridge" where
  "handle_resume_packet fuel B packet step =
     (if packet = [] then ret (Some (err_packet 1))
      else if packet ! 0 = CHR ''C'' \<or> packet ! 0 = CHR ''S'' then
        (let semi = find_char packet CHR '';'' 1;
             signal_end = (case semi of None \<Rightarrow> length packet | Some i \<Rightarrow> i)
         in case parse_hex_u64 packet 1 signal_end of None \<Rightarrow> ret (Some (err_packet 1))
           | Some signal \<Rightarrow>
               if signal > 0xFF then ret (Some (err_packet 1))
               else (case semi of
                   None \<Rightarrow> resume_thread fuel B step
                 | Some i \<Rightarrow> resume_at fuel B packet step (i + 1)))
      else resume_at fuel B packet step 1)"

section \<open>Breakpoints\<close>

text \<open>\<open>sw_breakpoints_[addr] = b\<close> and \<open>sw_breakpoints_.erase(addr)\<close> on the association list.\<close>

definition insert_bp :: "u64 \<Rightarrow> byte \<Rightarrow> 'z handler_scheme \<Rightarrow> 'z handler_scheme" where
  "insert_bp addr b h = h\<lparr>h_sw_breakpoints := AList.update addr b (h_sw_breakpoints h)\<rparr>"

definition erase_bp :: "u64 \<Rightarrow> 'z handler_scheme \<Rightarrow> 'z handler_scheme" where
  "erase_bp addr h = h\<lparr>h_sw_breakpoints := AList.delete addr (h_sw_breakpoints h)\<rparr>"

definition software_breakpoint :: "'b backend \<Rightarrow> u64 \<Rightarrow> bool \<Rightarrow> ('b, string) bridge" where
  "software_breakpoint B addr enable =
     (if enable then do {
        pid \<leftarrow> gets h_pid;
        r \<leftarrow> memory_read B pid addr 1;
        case r of
          Some [original] \<Rightarrow> do {
            ok \<leftarrow> debug_set_breakpoint B addr 0;
            if \<not> ok then ret (err_packet 1)
            else do { _ \<leftarrow> modify (insert_bp addr original); ret ''OK'' }
          }
        | _ \<Rightarrow> ret (err_packet 1)
      }
      else do {
        ok \<leftarrow> debug_clear_breakpoint B addr;
        if \<not> ok then ret (err_packet 1)
        else do { _ \<leftarrow> modify (erase_bp addr); ret ''OK'' }
      })"

definition hardware_breakpoint :: "'b backend \<Rightarrow> u64 \<Rightarrow> bool \<Rightarrow> ('b, string) bridge" where
  "hardware_breakpoint B addr enable = do {
     ok \<leftarrow> (if enable then debug_set_breakpoint B addr 1 else debug_clear_breakpoint B addr);
     ret (if ok then ''OK'' else err_packet 1)
   }"

definition watchpoint :: "'b backend \<Rightarrow> u64 \<Rightarrow> u64 \<Rightarrow> int \<Rightarrow> bool \<Rightarrow> ('b, string) bridge" where
  "watchpoint B addr kind wtype enable =
     (if kind > 0xFFFFFFFF then ret (err_packet 0x22)
      else let len = (if kind = 0 then 1 else ucast kind :: u32) in
        if len \<noteq> 1 \<and> len \<noteq> 2 \<and> len \<noteq> 4 \<and> len \<noteq> 8 then ret (err_packet 0x22)
        else do {
          ok \<leftarrow> (if enable then debug_set_watchpoint B addr len (word_of_int wtype) else debug_clear_watchpoint B addr);
          ret (if ok then ''OK'' else err_packet 1)
        })"

definition handle_breakpoint :: "'b backend \<Rightarrow> string \<Rightarrow> bool \<Rightarrow> ('b, string) bridge" where
  "handle_breakpoint B packet enable = do {
     attached \<leftarrow> ensure_attached B;
     if \<not> attached then ret (err_packet 1)
     else if length packet < 5 then ret (err_packet 1)
     else let kind_char = packet ! 1 in
       case find_char packet CHR '','' 2 of None \<Rightarrow> ret (err_packet 1)
       | Some comma1 \<Rightarrow>
          (let comma2 = (case find_char packet CHR '','' (comma1 + 1) of None \<Rightarrow> length packet | Some i \<Rightarrow> i) in
           case parse_hex_u64 packet (comma1 + 1) comma2 of None \<Rightarrow> ret (err_packet 1)
           | Some addr \<Rightarrow>
              (case (if comma2 < length packet then parse_hex_u64 packet (comma2 + 1) (length packet) else Some 1) of
                 None \<Rightarrow> ret (err_packet 1)
               | Some kind \<Rightarrow>
                  if kind_char = CHR ''0'' then
                    (if kind \<noteq> 1 then ret (err_packet 0x22) else software_breakpoint B addr enable)
                  else if kind_char = CHR ''1'' then
                    (if kind \<noteq> 1 then ret (err_packet 0x22) else hardware_breakpoint B addr enable)
                  else let wtype = watch_type_from_z kind_char in
                    if wtype < 0 then ret [] else watchpoint B addr kind wtype enable))
   }"

section \<open>The v packets\<close>

definition vattach :: "'b backend \<Rightarrow> string \<Rightarrow> ('b, string) bridge" where
  "vattach B packet =
     (case parse_thread_id (c_str packet 8) of None \<Rightarrow> ret (err_packet 1)
      | Some (req_pid, req_tid) \<Rightarrow>
          (let attach_pid = (if req_pid > 0 then req_pid else req_tid) in
           if attach_pid \<le> 1 then ret (err_packet 1)
           else do {
             attached \<leftarrow> gets h_attached;
             pid \<leftarrow> gets h_pid;
             if attached \<and> pid = attach_pid then gets stop_reply
             else do {
               free \<leftarrow> (if attached then safe_detach B else ret True);
               if \<not> free then ret (err_packet 1)
               else do {
                 _ \<leftarrow> modify (\<lambda>w. w\<lparr>h_pid := attach_pid\<rparr>);
                 ok \<leftarrow> debug_attach B attach_pid;
                 if \<not> ok then ret (err_packet 1)
                 else do { _ \<leftarrow> enter_session B; gets stop_reply }
               }
             }
           }))"

definition vkill :: "'b backend \<Rightarrow> string \<Rightarrow> ('b, string) bridge" where
  "vkill B packet =
     (case parse_hex_u64 packet 6 (length packet) of None \<Rightarrow> ret (err_packet 1)
      | Some requested_pid \<Rightarrow>
          if requested_pid > 0x7FFFFFFF then ret (err_packet 1)
          else do {
            ok \<leftarrow> kill_process B (int (unat requested_pid));
            ret (if ok then ''OK'' else err_packet 1)
          })"

text \<open>
  One action of \<^verbatim>\<open>vCont\<close>: the action letter and its thread, 0 for all threads.
  \<open>pid\<close> is \<^verbatim>\<open>pid_\<close>.
\<close>

definition vcont_spec :: "int \<Rightarrow> string \<Rightarrow> (char \<times> int) option" where
  "vcont_spec pid spec =
     (if spec = [] then None
      else let candidate = spec ! 0 in
        if candidate \<noteq> CHR ''c'' \<and> candidate \<noteq> CHR ''C'' \<and> candidate \<noteq> CHR ''s'' \<and> candidate \<noteq> CHR ''S'' then None
        else let colon = find_char spec CHR '':'' 0;
                 action_arg_end = (case colon of None \<Rightarrow> length spec | Some i \<Rightarrow> i);
                 arg_ok = (if candidate = CHR ''C'' \<or> candidate = CHR ''S''
                           then (case parse_hex_u64 spec 1 action_arg_end of None \<Rightarrow> False | Some signal \<Rightarrow> signal \<le> 0xFF)
                           else action_arg_end = 1)
        in if \<not> arg_ok then None
           else case colon of None \<Rightarrow> Some (candidate, 0)
             | Some i \<Rightarrow> (case parse_thread_id (c_str spec (i + 1)) of None \<Rightarrow> None
                 | Some (p_out, t_out) \<Rightarrow>
                     if p_out > 0 \<and> p_out \<noteq> pid then None
                     else Some (candidate, if t_out > 0 then t_out else 0)))"

text \<open>The choice between the actions: the first one, or the first that names a thread.\<close>

definition vcont_choose :: "(char \<times> int) option \<Rightarrow> char \<times> int \<Rightarrow> (char \<times> int) option" where
  "vcont_choose chosen cand =
     (case chosen of None \<Rightarrow> Some cand
      | Some (action, lwp) \<Rightarrow> if lwp = 0 \<and> snd cand > 0 then Some cand else chosen)"

function vcont_loop :: "int \<Rightarrow> string \<Rightarrow> nat \<Rightarrow> (char \<times> int) option \<Rightarrow> (char \<times> int) option" where
  "vcont_loop pid packet begin_pos chosen =
     (if begin_pos < length packet then
        (let fin = find_char packet CHR '';'' begin_pos;
             spec = substr packet begin_pos (case fin of None \<Rightarrow> length packet | Some e \<Rightarrow> e)
         in case vcont_spec pid spec of None \<Rightarrow> None
            | Some cand \<Rightarrow>
                (case fin of None \<Rightarrow> vcont_choose chosen cand
                 | Some e \<Rightarrow>
                     if e + 1 = length packet then None
                     else vcont_loop pid packet (e + 1) (vcont_choose chosen cand)))
      else chosen)"
  by pat_completeness auto
termination
  by (relation "measure (\<lambda>(pid, packet, begin_pos, chosen). length packet - begin_pos)")
    (auto dest!: find_char_bounds sym [of "Some _"])

declare vcont_loop.simps [simp del]

definition vcont :: "nat \<Rightarrow> 'b backend \<Rightarrow> string \<Rightarrow> ('b, string option) bridge" where
  "vcont fuel B packet = do {
     pid \<leftarrow> gets h_pid;
     case vcont_loop pid packet 6 None of None \<Rightarrow> ret (Some (err_packet 1))
     | Some (action, lwp) \<Rightarrow>
         if action = CHR ''c'' \<or> action = CHR ''C'' then handle_continue_or_step fuel B False lwp
         else if action = CHR ''s'' \<or> action = CHR ''S'' then handle_continue_or_step fuel B True lwp
         else ret (Some (err_packet 1))
   }"

definition handle_v :: "nat \<Rightarrow> 'b backend \<Rightarrow> string \<Rightarrow> ('b, string option) bridge" where
  "handle_v fuel B packet =
     (if starts_with packet ''vAttach;'' then do { r \<leftarrow> vattach B packet; ret (Some r) }
      else if packet = ''vCont?'' then ret (Some ''vCont;c;C;s;S'')
      else if starts_with packet ''vKill;'' then do { r \<leftarrow> vkill B packet; ret (Some r) }
      else if starts_with packet ''vCont;'' then vcont fuel B packet
      else ret (Some []))"

end
