(* ===== verification/Rsp_Registers.thy ===== *)
theory Rsp_Registers
  imports Rsp_Handler
begin

text \<open>
  The register packets \<^verbatim>\<open>g\<close>, \<^verbatim>\<open>G\<close>, \<^verbatim>\<open>p\<close> and \<^verbatim>\<open>P\<close>,
  \<^verbatim>\<open>src/tools/gdb_bridge/rsp_handler_registers.cpp\<close>.
\<close>

text \<open>\<^verbatim>\<open>static_cast<int>(regno)\<close> of a 64-bit number keeps the low 32 bits.\<close>

definition to_int :: "u64 \<Rightarrow> int" where
  "to_int v = sint (ucast v :: u32)"

definition handle_read_all_registers :: "'b backend \<Rightarrow> ('b, string) bridge" where
  "handle_read_all_registers B = do {
     attached \<leftarrow> ensure_attached B;
     if \<not> attached then ret (err_packet 1)
     else do {
       tid \<leftarrow> gets current_thread;
       regs \<leftarrow> debug_get_regs B tid;
       case regs of None \<Rightarrow> ret (err_packet 1)
       | Some r \<Rightarrow> do {
           supported \<leftarrow> debug_fpregs_supported B;
           if supported then do {
             fpregs \<leftarrow> debug_get_fpregs B tid;
             case fpregs of None \<Rightarrow> ret (err_packet 1)
             | Some fp \<Rightarrow> ret (gdb_encode_g_packet r (Some fp))
           }
           else ret (gdb_encode_g_packet r None)
         }
     }
   }"

definition handle_write_all_registers :: "'b backend \<Rightarrow> string \<Rightarrow> ('b, string) bridge" where
  "handle_write_all_registers B packet = do {
     attached \<leftarrow> ensure_attached B;
     if \<not> attached then ret (err_packet 1)
     else let body = drop 1 packet in do {
       tid \<leftarrow> gets current_thread;
       regs \<leftarrow> debug_get_regs B tid;
       case regs of None \<Rightarrow> ret (err_packet 1)
       | Some r \<Rightarrow>
           if length body = kGdbCorePacketHexSize then
             (case gdb_decode_g_core body r of None \<Rightarrow> ret (err_packet 1)
              | Some r' \<Rightarrow> do {
                  ok \<leftarrow> debug_set_regs B tid r';
                  ret (if ok then ''OK'' else err_packet 1)
                })
           else do {
             supported \<leftarrow> debug_fpregs_supported B;
             if supported then do {
               fpregs \<leftarrow> debug_get_fpregs B tid;
               case fpregs of None \<Rightarrow> ret (err_packet 1)
               | Some fp \<Rightarrow>
                   (case gdb_decode_g_packet body r (Some fp) of
                      Some (r', Some fp') \<Rightarrow> do {
                        ok \<leftarrow> debug_set_regs B tid r';
                        if \<not> ok then ret (err_packet 1)
                        else do {
                          ok' \<leftarrow> debug_set_fpregs B tid fp';
                          ret (if ok' then ''OK'' else err_packet 1)
                        }
                      }
                    | _ \<Rightarrow> ret (err_packet 1))
             }
             else (case gdb_decode_g_packet body r None of None \<Rightarrow> ret (err_packet 1)
               | Some (r', _) \<Rightarrow> do {
                   ok \<leftarrow> debug_set_regs B tid r';
                   ret (if ok then ''OK'' else err_packet 1)
                 })
           }
     }
   }"

text \<open>The getters and setters of one x87 or SSE register, by the kind of the register.\<close>

definition get_fp_bytes :: "debug_fpregs \<Rightarrow> int \<Rightarrow> nat \<Rightarrow> byte list option" where
  "get_fp_bytes fp ir n = (if gdb_reg_is_sse ir then gdb_get_sse_bytes fp ir n else gdb_get_x87_bytes fp ir n)"

definition set_fp_bytes :: "debug_fpregs \<Rightarrow> int \<Rightarrow> byte list \<Rightarrow> debug_fpregs option" where
  "set_fp_bytes fp ir bs = (if gdb_reg_is_sse ir then gdb_set_sse_bytes fp ir bs else gdb_set_x87_bytes fp ir bs)"

definition handle_read_register :: "'b backend \<Rightarrow> string \<Rightarrow> ('b, string) bridge" where
  "handle_read_register B packet = do {
     attached \<leftarrow> ensure_attached B;
     if \<not> attached then ret (err_packet 1)
     else case parse_hex_u64_cstr (c_str packet 1) of None \<Rightarrow> ret (err_packet 1)
     | Some regno \<Rightarrow>
        (let ir = to_int regno; n = gdb_reg_size ir in
         if \<not> gdb_reg_valid ir then ret (err_packet 1)
         else if gdb_reg_is_sse ir \<or> gdb_reg_is_x87 ir then do {
           supported \<leftarrow> debug_fpregs_supported B;
           if \<not> supported then ret (replicate (n * 2) CHR ''0'')
           else do {
             tid \<leftarrow> gets current_thread;
             fpregs \<leftarrow> debug_get_fpregs B tid;
             case fpregs of None \<Rightarrow> ret (err_packet 1)
             | Some fp \<Rightarrow> (case get_fp_bytes fp ir 16 of None \<Rightarrow> ret (err_packet 1)
                 | Some bs \<Rightarrow> ret (bytes_to_hex bs))
           }
         }
         else do {
           tid \<leftarrow> gets current_thread;
           regs \<leftarrow> debug_get_regs B tid;
           case regs of None \<Rightarrow> ret (err_packet 1)
           | Some r \<Rightarrow> ret (bytes_to_hex (core_bytes r ir))
         })
   }"

definition handle_write_register :: "'b backend \<Rightarrow> string \<Rightarrow> ('b, string) bridge" where
  "handle_write_register B packet = do {
     attached \<leftarrow> ensure_attached B;
     if \<not> attached then ret (err_packet 1)
     else case find_char packet CHR ''='' 0 of None \<Rightarrow> ret (err_packet 1)
     | Some eq \<Rightarrow> (case parse_hex_u64 packet 1 eq of None \<Rightarrow> ret (err_packet 1)
     | Some regno \<Rightarrow>
        (let ir = to_int regno; n = gdb_reg_size ir in
         if \<not> gdb_reg_valid ir then ret (err_packet 1)
         else (case hex_to_bytes (drop (eq + 1) packet) n of None \<Rightarrow> ret (err_packet 1)
           | Some bs \<Rightarrow>
               if gdb_reg_is_sse ir \<or> gdb_reg_is_x87 ir then do {
                 supported \<leftarrow> debug_fpregs_supported B;
                 if \<not> supported then ret ''OK''
                 else do {
                   tid \<leftarrow> gets current_thread;
                   fpregs \<leftarrow> debug_get_fpregs B tid;
                   case fpregs of None \<Rightarrow> ret (err_packet 1)
                   | Some fp \<Rightarrow> (case set_fp_bytes fp ir bs of None \<Rightarrow> ret (err_packet 1)
                       | Some fp' \<Rightarrow> do {
                           ok \<leftarrow> debug_set_fpregs B tid fp';
                           ret (if ok then ''OK'' else err_packet 1)
                         })
                 }
               }
               else do {
                 tid \<leftarrow> gets current_thread;
                 regs \<leftarrow> debug_get_regs B tid;
                 case regs of None \<Rightarrow> ret (err_packet 1)
                 | Some r \<Rightarrow> (case gdb_set_reg_value r ir (of_le bs) of None \<Rightarrow> ret (err_packet 1)
                     | Some r' \<Rightarrow> do {
                         ok \<leftarrow> debug_set_regs B tid r';
                         ret (if ok then ''OK'' else err_packet 1)
                       })
               })))
   }"

end
