(* ===== verification/Rsp_Session.thy ===== *)
theory Rsp_Session
  imports Rsp_Query Rsp_Run Rsp_Registers
begin

text \<open>
  The packet dispatch \<^verbatim>\<open>RspHandler::handle\<close> (\<^verbatim>\<open>rsp_handler.cpp\<close>), the serving loop
  \<^verbatim>\<open>RspServer::serve\<close> (\<^verbatim>\<open>rsp_server.cpp\<close>), and the properties of a whole debug
  session: which calls the bridge makes to its backend, and what state it keeps.
\<close>

section \<open>The dispatch\<close>

definition question_mark :: "'b backend \<Rightarrow> ('b, string) bridge" where
  "question_mark B = do {
     attached \<leftarrow> gets h_attached;
     pid \<leftarrow> gets h_pid;
     if \<not> attached \<and> pid > 0 then do {
       ok \<leftarrow> ensure_attached B;
       if \<not> ok then ret ''W00'' else gets stop_reply
     }
     else if attached then gets stop_reply else ret ''W00''
   }"

text \<open>The assignment \<^verbatim>\<open>Hg\<close> or \<^verbatim>\<open>Hc\<close> makes.\<close>

definition select_thread :: "char \<Rightarrow> int \<Rightarrow> ('b, string) bridge" where
  "select_thread which req_tid =
     (if which = CHR ''g'' then do { _ \<leftarrow> modify (\<lambda>w. w\<lparr>h_general_thread := req_tid\<rparr>); ret ''OK'' }
      else if which = CHR ''c'' then do { _ \<leftarrow> modify (\<lambda>w. w\<lparr>h_continue_thread := req_tid\<rparr>); ret ''OK'' }
      else ret [])"

definition handle_H :: "'b backend \<Rightarrow> string \<Rightarrow> ('b, string) bridge" where
  "handle_H B packet =
     (if length packet < 3 then ret (err_packet 1)
      else case parse_thread_id (c_str packet 2) of None \<Rightarrow> ret (err_packet 1)
        | Some (req_pid, req_tid) \<Rightarrow> do {
            pid \<leftarrow> gets h_pid;
            attached \<leftarrow> gets h_attached;
            if req_pid > 0 \<and> pid > 0 \<and> req_pid \<noteq> pid then ret (err_packet 1)
            else if attached \<and> req_tid > 0 then do {
              _ \<leftarrow> refresh_threads B;
              threads \<leftarrow> gets h_threads;
              if \<not> (req_tid = pid \<or> list_ex (\<lambda>t. t_lwp t = req_tid) threads) then ret (err_packet 1)
              else select_thread (packet ! 1) req_tid
            }
            else select_thread (packet ! 1) req_tid
          })"

definition handle_D :: "'b backend \<Rightarrow> string \<Rightarrow> ('b, string) bridge" where
  "handle_D B packet = do {
     pid \<leftarrow> gets h_pid;
     if packet = ''D'' \<or> (starts_with packet ''D;'' \<and> parse_hex_u64 packet 2 (length packet) = Some (word_of_int pid))
     then do {
       ok \<leftarrow> safe_detach B;
       ret (if ok then ''OK'' else err_packet 1)
     }
     else ret (err_packet 1)
   }"

definition handle_k :: "'b backend \<Rightarrow> ('b, string) bridge" where
  "handle_k B = do {
     attached \<leftarrow> gets h_attached;
     pid \<leftarrow> gets h_pid;
     if attached then do {
       ok \<leftarrow> kill_process B pid;
       ret (if ok then ''OK'' else err_packet 1)
     }
     else ret (err_packet 1)
   }"

definition handle_T :: "'b backend \<Rightarrow> string \<Rightarrow> ('b, string) bridge" where
  "handle_T B packet = do {
     _ \<leftarrow> refresh_threads B;
     pid \<leftarrow> gets h_pid;
     attached \<leftarrow> gets h_attached;
     threads \<leftarrow> gets h_threads;
     case parse_thread_id (c_str packet 1) of None \<Rightarrow> ret (err_packet 1)
     | Some (req_pid, req_tid) \<Rightarrow>
         if req_pid > 0 \<and> req_pid \<noteq> pid then ret (err_packet 1)
         else ret (if req_tid \<le> 0 \<and> attached \<or> list_ex (\<lambda>t. t_lwp t = req_tid) threads then ''OK'' else err_packet 1)
   }"

definition lift_reply :: "('b, string) bridge \<Rightarrow> ('b, string option) bridge" where
  "lift_reply m = do { r \<leftarrow> m; ret (Some r) }"

definition handle :: "nat \<Rightarrow> 'b backend \<Rightarrow> string \<Rightarrow> ('b, string option) bridge" where
  "handle fuel B packet =
     (case packet of [] \<Rightarrow> ret (Some [])
      | c # _ \<Rightarrow>
         if c = CHR ''q'' \<or> c = CHR ''Q'' then lift_reply (handle_query B packet)
         else if c = CHR ''v'' then handle_v fuel B packet
         else if packet = ''?'' then lift_reply (question_mark B)
         else if packet = ''!'' then ret (Some ''OK'')
         else if c = CHR ''H'' then lift_reply (handle_H B packet)
         else if packet = ''g'' then lift_reply (handle_read_all_registers B)
         else if c = CHR ''G'' then lift_reply (handle_write_all_registers B packet)
         else if c = CHR ''p'' then lift_reply (handle_read_register B packet)
         else if c = CHR ''P'' then lift_reply (handle_write_register B packet)
         else if c = CHR ''m'' then lift_reply (handle_memory_read B packet)
         else if c = CHR ''M'' then lift_reply (handle_memory_write B packet)
         else if c = CHR ''X'' then lift_reply (handle_binary_memory_write B packet)
         else if c = CHR ''c'' \<or> c = CHR ''C'' then handle_resume_packet fuel B packet False
         else if c = CHR ''s'' \<or> c = CHR ''S'' then handle_resume_packet fuel B packet True
         else if c = CHR ''Z'' then lift_reply (handle_breakpoint B packet True)
         else if c = CHR ''z'' then lift_reply (handle_breakpoint B packet False)
         else if c = CHR ''D'' then lift_reply (handle_D B packet)
         else if packet = ''k'' then lift_reply (handle_k B)
         else if c = CHR ''T'' then lift_reply (handle_T B packet)
         else ret (Some []))"

section \<open>The serving loop\<close>

text \<open>
  \<^verbatim>\<open>RspServer::serve\<close>, with fuel for the packets and for each wait. \<^const>\<open>True\<close> means
  that the loop has ended, \<^const>\<open>False\<close> that the fuel ran out.
\<close>

fun serve :: "nat \<Rightarrow> 'b backend \<Rightarrow> ('b, bool) bridge" where
  "serve 0 B = ret False"
| "serve (Suc fuel) B = do {
     packet \<leftarrow> on_conn recv_packet;
     if timed_out packet \<and> \<not> pkt_ok packet then do {
       stop \<leftarrow> shutdown_requested;
       if stop then ret True else serve fuel B
     }
     else if \<not> pkt_ok packet then ret True
     else if is_interrupt packet then serve fuel B
     else do {
       reply \<leftarrow> handle fuel B (payload packet);
       case reply of None \<Rightarrow> ret False
       | Some r \<Rightarrow> do {
           sent \<leftarrow> on_conn (send_packet r);
           if \<not> sent then ret True
           else do {
             stop \<leftarrow> shutdown_requested;
             if stop then ret True else serve fuel B
           }
         }
     }
   }"

text \<open>One client of \<^verbatim>\<open>main\<close>: a new handler serves it and is cleaned up.\<close>

definition serve_client :: "nat \<Rightarrow> 'b backend \<Rightarrow> int \<Rightarrow> ('b, bool) bridge" where
  "serve_client fuel B pid = do {
     _ \<leftarrow> modify (\<lambda>w. handler.extend (new_handler pid) (handler.more w));
     ended \<leftarrow> serve fuel B;
     if \<not> ended then ret False
     else do { _ \<leftarrow> cleanup B; ret True }
   }"

end
