(* ===== verification/Rsp_Safety.thy ===== *)
theory Rsp_Safety
  imports Rsp_Session
begin

text \<open>
  Safety of a debug session. The calls the bridge makes are checked against an automaton of
  the debug protocol: one session at a time, every call inside the session of the process it
  names, a stop right before every detach, a kill only outside a session. The invariant says
  that the calls so far conform and that a handler without a session has no session state.
\<close>

section \<open>The protocol of a session\<close>

text \<open>
  State: the attached process, if any, and whether the last call was a stop. \<^const>\<open>None\<close>
  is a violation.
\<close>

type_synonym session = "int option \<times> bool"

fun session_step :: "session \<Rightarrow> backend_call \<Rightarrow> session option" where
  "session_step (s, stopped) (CProcessList ok) = Some (s, False)"
| "session_step (s, stopped) (CAttach pid ok) =
     (if s = None then Some (if ok then Some pid else None, False) else None)"
| "session_step (s, stopped) (CStop ok) = (if s \<noteq> None then Some (s, True) else None)"
| "session_step (s, stopped) (CDetach ok) =
     (if s \<noteq> None \<and> stopped then Some (if ok then None else s, False) else None)"
| "session_step (s, stopped) (CProcessKill pid ok) = (if s = None then Some (s, False) else None)"
| "session_step (s, stopped) (CProcessMaps pid ok) = (if s = Some pid then Some (s, False) else None)"
| "session_step (s, stopped) (CProcessInfo pid ok) = (if s = Some pid then Some (s, False) else None)"
| "session_step (s, stopped) (CMemoryRead pid a n ok) = (if s = Some pid then Some (s, False) else None)"
| "session_step (s, stopped) (CMemoryWrite pid a bs ok) = (if s = Some pid then Some (s, False) else None)"
| "session_step (s, stopped) c = (if s \<noteq> None then Some (s, False) else None)"

fun session_run :: "session \<Rightarrow> backend_call list \<Rightarrow> session option" where
  "session_run s [] = Some s"
| "session_run s (c # cs) = (case session_step s c of None \<Rightarrow> None | Some s' \<Rightarrow> session_run s' cs)"

lemma session_run_append:
  "session_run s (xs @ ys) = (case session_run s xs of None \<Rightarrow> None | Some s' \<Rightarrow> session_run s' ys)"
  by (induction xs arbitrary: s) (auto split: option.split)

definition clean :: "'z handler_scheme \<Rightarrow> bool" where
  "clean h \<longleftrightarrow> h_stop_lwp h = 0 \<and> h_stop_signal h = 5 \<and> h_stop_reason h = [] \<and> h_threads h = []
     \<and> h_memory_maps h = [] \<and> \<not> h_memory_maps_known h \<and> h_sw_breakpoints h = []"

definition session_of :: "'b world \<Rightarrow> session option" where
  "session_of w = session_run (None, False) (w_calls w)"

definition session_inv :: "'b world \<Rightarrow> bool" where
  "session_inv w \<longleftrightarrow>
     map_option fst (session_of w) = Some (if h_attached w then Some (h_pid w) else None)
     \<and> (\<not> h_attached w \<longrightarrow> clean w) \<and> distinct (map fst (h_sw_breakpoints w))"

text \<open>Inside the session of a given process.\<close>

definition in_session :: "int \<Rightarrow> 'b world \<Rightarrow> bool" where
  "in_session p w \<longleftrightarrow> h_attached w \<and> h_pid w = p \<and> map_option fst (session_of w) = Some (Some p)
     \<and> distinct (map fst (h_sw_breakpoints w))"

lemma clean_distinct [simp]: "clean w \<Longrightarrow> distinct (map fst (h_sw_breakpoints w))"
  by (simp add: clean_def)

lemma session_inv_cases: "session_inv w \<longleftrightarrow>
    in_session (h_pid w) w \<or> (\<not> h_attached w \<and> clean w \<and> map_option fst (session_of w) = Some None)"
  by (auto simp: session_inv_def in_session_def clean_def)

lemma in_session_inv: "in_session p w \<Longrightarrow> session_inv w"
  by (auto simp: session_inv_cases in_session_def)

section \<open>Calls inside a session\<close>

lemma wp_invoke [wp_simps]:
  "wp (invoke f c) Q w =
     (case f (w_backend w) of (a, b) \<Rightarrow> Q a (w\<lparr>w_backend := b, w_calls := w_calls w @ [c a]\<rparr>))"
  by (simp add: wp_def invoke_def split: prod.split)

lemma wp_on_conn [wp_simps]:
  "wp (on_conn f) Q w = (case f (w_conn w) of (a, c) \<Rightarrow> Q a (w\<lparr>w_conn := c\<rparr>))"
  by (simp add: wp_def on_conn_def split: prod.split)

lemma session_of_call:
  "session_of (w\<lparr>w_backend := b, w_calls := w_calls w @ [c]\<rparr>) =
     (case session_of w of None \<Rightarrow> None | Some s \<Rightarrow> session_step s c)"
  by (simp add: session_of_def session_run_append split: option.split)

definition stays :: "int \<Rightarrow> backend_call \<Rightarrow> bool" where
  "stays p c \<longleftrightarrow> (\<forall>b. map_option fst (session_step (Some p, b) c) = Some (Some p))"

lemma in_session_call:
  assumes "in_session p w" "stays p c"
  shows "in_session p (w\<lparr>w_backend := b, w_calls := w_calls w @ [c]\<rparr>)"
proof -
  obtain k where "session_of w = Some (Some p, k)"
    using assms(1) by (auto simp: in_session_def)
  with assms show ?thesis
    by (simp add: in_session_def session_of_call stays_def)
qed

lemma hoare_invoke: "(\<And>a. stays p (c a)) \<Longrightarrow> hoare (in_session p) (invoke f c) (in_session p)"
  by (rule hoareI) (auto simp: wp_invoke intro: in_session_call split: prod.split)

lemma stays_simps [simp]:
  "stays p (CProcessList ok)" "stays p (CStop ok)" "stays p (CContinue ok)" "stays p (CStep l ok)"
  "stays p (CGetThreads ok)" "stays p (CGetRegs l ok)" "stays p (CSetRegs l r ok)" "stays p (CGetDbregs l ok)"
  "stays p (CGetFpregs l ok)" "stays p (CSetFpregs l fp ok)" "stays p (CSetBreakpoint a k ok)"
  "stays p (CClearBreakpoint a ok)" "stays p (CSetWatchpoint a m k ok)" "stays p (CClearWatchpoint a ok)"
  "stays p (CGetWatchpoints ok)" "stays p (CPollEvents ok)"
  "stays p (CProcessMaps p ok)" "stays p (CProcessInfo p ok)" "stays p (CMemoryRead p a n ok)"
  "stays p (CMemoryWrite p a bs ok)"
  by (simp_all add: stays_def)

lemma hoare_backend:
  "hoare (in_session p) (process_list B) (in_session p)"
  "hoare (in_session p) (process_maps B p) (in_session p)"
  "hoare (in_session p) (get_process_info B p) (in_session p)"
  "hoare (in_session p) (memory_read B p a n) (in_session p)"
  "hoare (in_session p) (memory_write B p a bs) (in_session p)"
  "hoare (in_session p) (debug_stop B) (in_session p)"
  "hoare (in_session p) (debug_continue B) (in_session p)"
  "hoare (in_session p) (debug_step B l) (in_session p)"
  "hoare (in_session p) (debug_get_threads B) (in_session p)"
  "hoare (in_session p) (debug_get_regs B l) (in_session p)"
  "hoare (in_session p) (debug_set_regs B l r) (in_session p)"
  "hoare (in_session p) (debug_get_dbregs B l) (in_session p)"
  "hoare (in_session p) (debug_fpregs_supported B) (in_session p)"
  "hoare (in_session p) (debug_get_fpregs B l) (in_session p)"
  "hoare (in_session p) (debug_set_fpregs B l fp) (in_session p)"
  "hoare (in_session p) (debug_set_breakpoint B a k) (in_session p)"
  "hoare (in_session p) (debug_clear_breakpoint B a) (in_session p)"
  "hoare (in_session p) (debug_set_watchpoint B a m k) (in_session p)"
  "hoare (in_session p) (debug_clear_watchpoint B a) (in_session p)"
  "hoare (in_session p) (debug_get_watchpoints B) (in_session p)"
  "hoare (in_session p) (debug_poll_events B) (in_session p)"
  by (simp_all add: backend_defs hoare_invoke debug_fpregs_supported_def hoare_gets)

text \<open>Inside a session the process is known.\<close>

lemma hoare_pid: "hoare (in_session p) (f p) Q \<Longrightarrow> hoare (in_session p) (State_Monad.bind (gets h_pid) f) Q"
  by (auto simp: hoare_def wp_bind wp_gets in_session_def)

lemma in_session_fields [simp]:
  "in_session p (w\<lparr>h_general_thread := i\<rparr>) = in_session p w"
  "in_session p (w\<lparr>h_continue_thread := i\<rparr>) = in_session p w"
  "in_session p (w\<lparr>h_stop_lwp := i\<rparr>) = in_session p w"
  "in_session p (w\<lparr>h_stop_signal := sg\<rparr>) = in_session p w"
  "in_session p (w\<lparr>h_stop_reason := s\<rparr>) = in_session p w"
  "in_session p (w\<lparr>h_thread_info_started := b\<rparr>) = in_session p w"
  "in_session p (w\<lparr>h_threads := ts\<rparr>) = in_session p w"
  "in_session p (w\<lparr>h_memory_maps := ms\<rparr>) = in_session p w"
  "in_session p (w\<lparr>h_memory_maps_known := b\<rparr>) = in_session p w"
  "in_session p (w\<lparr>w_conn := c\<rparr>) = in_session p w"
  by (simp_all add: in_session_def session_of_def)

lemma hoare_session_modify:
  "(\<And>w. in_session p (f w) = in_session p w) \<Longrightarrow> hoare (in_session p) (modify f) (in_session p)"
  by (simp add: hoare_modify)

lemma hoare_session_ret: "hoare (in_session p) (ret a) (in_session p)"
  by (simp add: hoare_return)

lemma hoare_session_gets: "hoare (in_session p) (gets f) (in_session p)"
  by (simp add: hoare_gets)

text \<open>The rules that take apart a method that stays inside its session.\<close>

lemma hoare_session_bind:
  "hoare (in_session p) m (in_session p) \<Longrightarrow> (\<And>a. hoare (in_session p) (f a) Q) \<Longrightarrow>
     hoare (in_session p) (State_Monad.bind m f) Q"
  by (rule hoare_bind)

lemmas session_structure = hoare_structure [where P = "in_session p" for p]

lemmas session_rules = hoare_pid hoare_session_bind hoare_session_ret hoare_session_gets
  session_structure hoare_backend

lemma refresh_threads_in_session: "hoare (in_session p) (refresh_threads B) (in_session p)"
  unfolding refresh_threads_def by (rule session_rules hoare_session_modify | simp)+

lemma refresh_memory_maps_in_session: "hoare (in_session p) (refresh_memory_maps B) (in_session p)"
  unfolding refresh_memory_maps_def by (rule session_rules hoare_session_modify | simp)+

lemma capture_stop_reason_in_session: "hoare (in_session p) (capture_stop_reason B lwp) (in_session p)"
  unfolding capture_stop_reason_def by (rule session_rules hoare_session_modify | simp)+

lemma on_conn_in_session: "hoare (in_session p) (on_conn f) (in_session p)"
  by (rule hoareI) (simp add: wp_on_conn split: prod.split)

section \<open>Entering and leaving a session\<close>

text \<open>Outside a session, and the moment between a successful attach and its bookkeeping.\<close>

definition detached :: "int \<Rightarrow> 'b world \<Rightarrow> bool" where
  "detached p w \<longleftrightarrow> \<not> h_attached w \<and> h_pid w = p \<and> clean w \<and> map_option fst (session_of w) = Some None"

definition just_attached :: "int \<Rightarrow> 'b world \<Rightarrow> bool" where
  "just_attached p w \<longleftrightarrow> h_pid w = p \<and> map_option fst (session_of w) = Some (Some p)
     \<and> distinct (map fst (h_sw_breakpoints w))"

lemma session_inv_iff: "session_inv w \<longleftrightarrow> in_session (h_pid w) w \<or> detached (h_pid w) w"
  by (auto simp: session_inv_cases detached_def)

lemma detached_inv: "detached p w \<Longrightarrow> session_inv w"
  by (auto simp: session_inv_cases detached_def)

lemma enter_session_ok: "hoare (just_attached p) (enter_session B) (in_session p)"
  unfolding enter_session_def
proof (rule hoare_bind)
  show "hoare (just_attached p) (modify (h_attached_update (\<lambda>_. True))) (in_session p)"
    by (rule hoare_modify) (simp add: just_attached_def in_session_def session_of_def)
qed (rule session_rules refresh_threads_in_session refresh_memory_maps_in_session hoare_session_modify
      | simp split: list.split)+

lemma clean_calls [simp]: "clean (w\<lparr>w_backend := b, w_calls := cs\<rparr>) = clean w"
  by (simp add: clean_def)

lemma session_None_E:
  assumes "map_option fst (session_of w) = Some None"
  obtains k where "session_of w = Some (None, k)"
  using assms by auto

lemma debug_attach_ok:
  assumes "detached p w"
  shows "wp (debug_attach B p) (\<lambda>ok w'. if ok then just_attached p w' else detached p w') w"
proof -
  obtain k where "session_of w = Some (None, k)"
    using assms by (auto simp: detached_def)
  with assms show ?thesis
    by (auto simp: debug_attach_def wp_invoke detached_def just_attached_def session_of_call split: prod.split)
qed

lemma ensure_attached_ok:
  assumes "session_inv w"
  shows "wp (ensure_attached B) (\<lambda>ok w'. if ok then in_session (h_pid w) w' else detached (h_pid w) w') w"
proof (cases "h_attached w")
  case True
  with assms show ?thesis
    by (auto simp: ensure_attached_def session_inv_iff detached_def wp_simps)
next
  case False
  then have d: "detached (h_pid w) w"
    using assms by (auto simp: session_inv_iff in_session_def)
  have "wp (enter_session B) (\<lambda>_. in_session (h_pid w)) w'" if "just_attached (h_pid w) w'" for w'
    using enter_session_ok that by (auto simp: hoare_def)
  then have "wp (debug_attach B (h_pid w)) (\<lambda>ok w'.
      if ok then wp (enter_session B) (\<lambda>_. in_session (h_pid w)) w' else detached (h_pid w) w') w"
    by (intro wp_mono [OF debug_attach_ok [OF d]]) (simp split: if_splits)
  then have "wp (debug_attach B (h_pid w)) (\<lambda>ok. wp (if \<not> ok then ret False else do { _ \<leftarrow> enter_session B; ret True })
      (\<lambda>ok w'. if ok then in_session (h_pid w) w' else detached (h_pid w) w')) w"
    by (rule wp_mono) (simp add: wp_simps split: if_splits)
  then show ?thesis
    using False d by (simp add: ensure_attached_def wp_simps)
qed

lemma hoare_ensure_attached:
  assumes "hoare session_inv (f False) session_inv" "\<And>p. hoare (in_session p) (f True) session_inv"
  shows "hoare session_inv (State_Monad.bind (ensure_attached B) f) session_inv"
proof (rule hoareI)
  fix w :: "'a world" assume inv: "session_inv w"
  show "wp (State_Monad.bind (ensure_attached B) f) (\<lambda>_. session_inv) w"
    unfolding wp_bind
  proof (rule wp_mono [OF ensure_attached_ok [OF inv]])
    fix ok and w' :: "'a world"
    assume "if ok then in_session (h_pid w) w' else detached (h_pid w) w'"
    then show "wp (f ok) (\<lambda>_. session_inv) w'"
      using assms by (cases ok) (auto simp: hoare_def dest: detached_inv)
  qed
qed

lemma clean_reset [simp]: "clean (reset_session w)"
  by (simp add: clean_def reset_session_def)

lemma safe_detach_ok:
  assumes "session_inv w"
  shows "wp (safe_detach B) (\<lambda>ok w'. if ok then detached (h_pid w) w' else in_session (h_pid w) w') w"
proof (cases "h_attached w")
  case False
  with assms show ?thesis
    by (auto simp: safe_detach_def wp_simps session_inv_iff in_session_def)
next
  case True
  then have ins: "in_session (h_pid w) w"
    using assms by (auto simp: session_inv_iff detached_def)
  then obtain k where k: "session_of w = Some (Some (h_pid w), k)"
    by (auto simp: in_session_def)
  then have "session_run (None, False) (w_calls w @ [CStop a, CDetach b]) = Some (if b then None else Some (h_pid w), False)" for a b
    by (simp add: session_run_append session_of_def)
  with True k show ?thesis
    using ins
    by (auto simp: safe_detach_def debug_stop_def debug_detach_def wp_simps detached_def in_session_def
        session_of_def reset_session_def clean_def split: prod.split)
qed

lemma safe_detach_inv: "hoare session_inv (safe_detach B) session_inv"
  by (rule hoareI, rule wp_mono [OF safe_detach_ok])
    (auto intro: in_session_inv detached_inv split: if_splits)

section \<open>Every packet keeps the invariant\<close>

lemma hoare_to_inv: "hoare (in_session p) m (in_session p) \<Longrightarrow> hoare (in_session p) m session_inv"
  by (erule hoare_weaken) (auto intro: in_session_inv)

lemma hoare_inv_ret: "hoare session_inv (ret a) session_inv"
  by (simp add: hoare_return)

lemma hoare_inv_gets: "hoare session_inv (gets f) session_inv"
  by (simp add: hoare_gets)

text \<open>A handler that attaches on demand and then stays inside the session.\<close>

lemma hoare_in_session_handler:
  assumes "hoare session_inv (f False) session_inv" "\<And>p. hoare (in_session p) (f True) (in_session p)"
  shows "hoare session_inv (State_Monad.bind (ensure_attached B) f) session_inv"
  using assms by (intro hoare_ensure_attached hoare_to_inv)

lemma read_chunks_in_session: "hoare (in_session p) (read_chunks B addr len progress hex) (in_session p)"
proof (induction "len - progress" arbitrary: progress hex rule: less_induct)
  case less
  show ?case
  proof (cases "progress < len")
    case True
    then have "len - (progress + min (len - progress) kMemChunk) < len - progress"
      by (simp add: kMemChunk_def)
    note IH = less [OF this]
    show ?thesis
      unfolding read_chunks.simps [of B addr len progress hex] Let_def if_P [OF True]
      by (rule session_rules IH | simp)+
  qed (simp add: read_chunks.simps hoare_session_ret)
qed

lemma search_chunks_in_session: "hoare (in_session p) (search_chunks B pattern finish cursor carry) (in_session p)"
proof (induction "unat finish - unat cursor" arbitrary: cursor carry rule: less_induct)
  case less
  show ?case
  proof (cases "cursor < finish")
    case True
    note IH = less [OF search_measure [OF True]]
    show ?thesis
      unfolding search_chunks.simps [of B pattern finish cursor carry] Let_def if_P [OF True]
      by (rule session_rules IH | simp)+
  qed (simp add: search_chunks.simps hoare_session_ret)
qed

lemma memory_handlers_inv:
  "hoare session_inv (handle_memory_read B packet) session_inv"
  "hoare session_inv (handle_memory_write B packet) session_inv"
  "hoare session_inv (handle_binary_memory_write B packet) session_inv"
  "hoare session_inv (handle_search_memory B packet) session_inv"
  unfolding handle_memory_read_def handle_memory_write_def handle_binary_memory_write_def
    handle_search_memory_def write_bytes_def
  by (rule hoare_in_session_handler session_rules read_chunks_in_session search_chunks_in_session
      | simp add: hoare_inv_ret)+

lemma register_handlers_inv:
  "hoare session_inv (handle_read_all_registers B) session_inv"
  "hoare session_inv (handle_write_all_registers B packet) session_inv"
  "hoare session_inv (handle_read_register B packet) session_inv"
  "hoare session_inv (handle_write_register B packet) session_inv"
  unfolding handle_read_all_registers_def handle_write_all_registers_def handle_read_register_def
    handle_write_register_def
  by (rule hoare_in_session_handler session_rules | simp add: hoare_inv_ret)+

lemma table_in_session:
  "hoare (in_session p) (modify (insert_bp a b)) (in_session p)"
  "hoare (in_session p) (modify (erase_bp a)) (in_session p)"
  by (auto intro!: hoare_modify simp: in_session_def session_of_def insert_bp_def erase_bp_def
      distinct_update distinct_delete)

lemma breakpoint_handler_inv: "hoare session_inv (handle_breakpoint B packet enable) session_inv"
  unfolding handle_breakpoint_def software_breakpoint_def hardware_breakpoint_def watchpoint_def
  by (rule hoare_in_session_handler session_rules table_in_session | simp add: hoare_inv_ret)+

lemma maps_for_xfer_in_session: "hoare (in_session p) (maps_for_xfer B offset) (in_session p)"
  unfolding maps_for_xfer_def by (rule session_rules refresh_memory_maps_in_session | simp)+

lemma document_handlers_inv:
  "hoare session_inv (qxfer_memory_map B offset len) session_inv"
  "hoare session_inv (qxfer_threads B offset len) session_inv"
  "hoare session_inv (qxfer_libraries B offset len) session_inv"
  "hoare session_inv (qxfer_exec_file B offset len) session_inv"
  "hoare session_inv (memory_region_info B packet) session_inv"
  "hoare session_inv (thread_stop_info B packet) session_inv"
  unfolding qxfer_memory_map_def qxfer_threads_def qxfer_libraries_def qxfer_exec_file_def
    memory_region_info_def thread_stop_info_def
  by (rule hoare_in_session_handler session_rules maps_for_xfer_in_session refresh_threads_in_session
      refresh_memory_maps_in_session | simp add: hoare_inv_ret)+

text \<open>Methods that also run outside a session: rules for the invariant itself.\<close>

lemma hoare_by_session:
  assumes "\<And>p. hoare (in_session p) m session_inv" "\<And>p. hoare (detached p) m session_inv"
  shows "hoare session_inv m session_inv"
  using assms by (auto simp: hoare_def session_inv_iff)

lemma hoare_inv_bind:
  "hoare session_inv m session_inv \<Longrightarrow> (\<And>a. hoare session_inv (f a) session_inv) \<Longrightarrow>
     hoare session_inv (State_Monad.bind m f) session_inv"
  by (rule hoare_bind)

lemmas inv_structure = hoare_structure [where P = session_inv]

lemmas inv_rules = hoare_inv_bind hoare_inv_ret hoare_inv_gets inv_structure

lemma session_inv_fields [simp]:
  "session_inv (w\<lparr>h_general_thread := i\<rparr>) = session_inv w"
  "session_inv (w\<lparr>h_continue_thread := i\<rparr>) = session_inv w"
  "session_inv (w\<lparr>h_thread_info_started := b\<rparr>) = session_inv w"
  "session_inv (w\<lparr>w_conn := c\<rparr>) = session_inv w"
  "session_inv (w\<lparr>w_shutdown_events := es, w_shutdown_flag := b\<rparr>) = session_inv w"
  by (simp_all add: session_inv_def session_of_def clean_def)

lemma hoare_inv_modify: "(\<And>w. session_inv (f w) = session_inv w) \<Longrightarrow> hoare session_inv (modify f) session_inv"
  by (simp add: hoare_modify)

lemma on_conn_inv: "hoare session_inv (on_conn f) session_inv"
  by (rule hoareI) (simp add: wp_on_conn split: prod.split)

lemma wp_shutdown_requested:
  "wp shutdown_requested Q w =
     (if w_shutdown_flag w then Q True w
      else case w_shutdown_events w of [] \<Rightarrow> Q False w
        | e # es \<Rightarrow> Q e (w\<lparr>w_shutdown_events := es, w_shutdown_flag := e\<rparr>))"
  by (simp add: wp_def shutdown_requested_def split: list.split)

lemma in_session_shutdown [simp]:
  "in_session p (w\<lparr>w_shutdown_events := es, w_shutdown_flag := b\<rparr>) = in_session p w"
  by (simp add: in_session_def session_of_def)

lemma shutdown_requested_in_session: "hoare (in_session p) shutdown_requested (in_session p)"
  by (rule hoareI) (simp add: wp_shutdown_requested split: list.split)

lemma shutdown_requested_inv: "hoare session_inv shutdown_requested session_inv"
  by (rule hoareI) (simp add: wp_shutdown_requested split: list.split)

lemma refresh_threads_inv: "hoare session_inv (refresh_threads B) session_inv"
proof (rule hoare_by_session)
  show "hoare (in_session p) (refresh_threads B) session_inv" for p
    by (rule hoare_to_inv) (rule refresh_threads_in_session)
  show "hoare (detached p) (refresh_threads B) session_inv" for p
    by (rule hoareI)
      (simp add: refresh_threads_def wp_simps detached_def session_inv_def session_of_def clean_def)
qed

lemma process_list_inv: "hoare session_inv (process_list B) session_inv"
proof (rule hoareI)
  fix w :: "'a world" assume inv: "session_inv w"
  then obtain s k where s: "session_of w = Some (s, k)"
    by (auto simp: session_inv_def)
  with inv show "wp (process_list B) (\<lambda>_. session_inv) w"
    by (auto simp: process_list_def wp_invoke session_inv_def session_of_call split: prod.split)
qed

lemma query_handlers_inv:
  "hoare session_inv (first_thread_info B) session_inv"
  "hoare session_inv (thread_extra_info B packet) session_inv"
  "hoare session_inv (qxfer_osdata B annex offset len) session_inv"
  unfolding first_thread_info_def thread_extra_info_def qxfer_osdata_def
  by (rule inv_rules refresh_threads_inv process_list_inv hoare_inv_modify | simp)+

lemma handle_qxfer_inv: "handle_qxfer B packet = Some m \<Longrightarrow> hoare session_inv m session_inv"
  unfolding handle_qxfer_def
  by (auto split: if_splits intro!: inv_rules document_handlers_inv query_handlers_inv)

lemma handle_query_inv: "hoare session_inv (handle_query B packet) session_inv"
  unfolding handle_query_def
  by (intro hoare_if hoare_inv_ret hoare_inv_gets document_handlers_inv query_handlers_inv
      memory_handlers_inv)
    (auto intro: hoare_inv_bind on_conn_inv hoare_inv_ret handle_qxfer_inv split: option.split)

lemma on_stop_in_session:
  "hoare (in_session p) (on_stop B lwp) (in_session p)"
  "hoare (in_session p) (on_interrupt B) (in_session p)"
  unfolding on_stop_def on_interrupt_def
  by (rule session_rules refresh_threads_in_session refresh_memory_maps_in_session
      capture_stop_reason_in_session hoare_session_modify | simp)+

lemma hoare_leave:
  assumes "hoare session_inv m session_inv"
  shows "hoare (in_session p) m session_inv"
  by (rule hoare_weaken [OF assms]) (auto intro: in_session_inv)

lemma wait_stop_inv: "hoare (in_session p) (wait_stop fuel B) session_inv"
proof (induction fuel)
  case 0
  then show ?case by (simp add: hoare_to_inv hoare_session_ret)
next
  case (Suc fuel)
  have detach: "hoare (in_session p) (do { _ \<leftarrow> safe_detach B; gets (\<lambda>w. Some (stop_reply w)) }) session_inv"
    by (rule hoare_leave) (rule inv_rules safe_detach_inv)+
  have stop: "hoare (in_session p) (do { r \<leftarrow> on_stop B lwp; ret (Some r) }) session_inv"
    "hoare (in_session p) (do { r \<leftarrow> on_interrupt B; ret (Some r) }) session_inv" for lwp
    by (rule hoare_session_bind, rule on_stop_in_session, rule hoare_to_inv, rule hoare_session_ret)+
  show ?case
    unfolding wait_stop.simps
    by (rule detach stop Suc hoare_session_bind shutdown_requested_in_session on_conn_in_session hoare_backend
        session_structure | rule hoare_to_inv, rule hoare_session_ret)+
qed

lemma continue_inv: "hoare session_inv (handle_continue_or_step fuel B step lwp) session_inv"
  unfolding handle_continue_or_step_def
  by (rule hoare_ensure_attached, simp add: hoare_inv_ret)
    (rule wait_stop_inv hoare_session_bind hoare_session_gets session_structure hoare_backend
      | rule hoare_to_inv, rule hoare_session_ret | rule hoare_session_modify, simp)+

lemma resume_inv:
  "hoare session_inv (resume_thread fuel B step) session_inv"
  "hoare session_inv (resume_at fuel B packet step k) session_inv"
  "hoare session_inv (handle_resume_packet fuel B packet step) session_inv"
proof -
  show t: "hoare session_inv (resume_thread fuel B step) session_inv"
    unfolding resume_thread_def by (rule inv_rules continue_inv)+
  have pc: "hoare (in_session p) (set_program_counter B a) (in_session p)" for p a
    unfolding set_program_counter_def by (rule session_rules)+
  have body: "hoare (in_session p) (do { ok \<leftarrow> set_program_counter B a;
      if \<not> ok then ret (Some (err_packet 1)) else resume_thread fuel B step }) session_inv" for p a
    by (rule hoare_session_bind pc session_structure | rule hoare_leave, rule t hoare_inv_ret)+
  show at: "hoare session_inv (resume_at fuel B packet step k) session_inv" for k
    unfolding resume_at_def
    by (rule hoare_if, rule hoare_option, rule hoare_inv_ret, rule hoare_ensure_attached,
        simp add: hoare_inv_ret, simp only: not_True_eq_False if_False body, rule t)
  show "hoare session_inv (handle_resume_packet fuel B packet step) session_inv"
    unfolding handle_resume_packet_def by (rule t at hoare_inv_ret inv_structure)+
qed

lemma kill_process_inv: "hoare session_inv (kill_process B pid) session_inv"
proof (rule hoareI)
  fix w :: "'a world" assume inv: "session_inv w"
  have kill: "wp (process_kill B pid) (\<lambda>_. session_inv) w'" if d: "detached p w'" for p w'
  proof -
    obtain k where "session_of w' = Some (None, k)"
      using d by (auto simp: detached_def)
    with d show ?thesis
      by (auto simp: process_kill_def wp_invoke session_inv_def detached_def session_of_call split: prod.split)
  qed
  have "wp (safe_detach B) (\<lambda>free. wp (if \<not> free then ret False else process_kill B pid) (\<lambda>_. session_inv)) w"
    by (rule wp_mono [OF safe_detach_ok [OF inv]])
      (auto simp: wp_simps intro: kill in_session_inv split: if_splits)
  moreover have "wp (process_kill B pid) (\<lambda>_. session_inv) w" if "\<not> h_attached w"
    using inv that by (intro kill [of "h_pid w"]) (auto simp: session_inv_iff in_session_def)
  ultimately show "wp (kill_process B pid) (\<lambda>_. session_inv) w"
    using inv by (auto simp: kill_process_def wp_simps)
qed

lemma vattach_inv: "hoare session_inv (vattach B packet) session_inv"
proof (rule hoareI)
  fix w :: "'a world" assume inv: "session_inv w"
  have go: "wp (do { _ \<leftarrow> modify (\<lambda>w. w\<lparr>h_pid := q\<rparr>); ok \<leftarrow> debug_attach B q;
      if \<not> ok then ret (err_packet 1) else do { _ \<leftarrow> enter_session B; gets stop_reply } }) (\<lambda>_. session_inv) w'"
    if "detached p w'" for p q w'
  proof -
    have d: "detached q (w'\<lparr>h_pid := q\<rparr>)"
      using that by (simp add: detached_def clean_def session_of_def)
    have "wp (enter_session B) (\<lambda>_. session_inv) v" if "just_attached q v" for v
      by (rule wp_mono [OF enter_session_ok [unfolded hoare_def, rule_format, OF that]])
        (rule in_session_inv)
    then show ?thesis
      unfolding wp_bind wp_modify
      by (intro wp_mono [OF debug_attach_ok [OF d]])
        (auto simp: wp_simps wp_gets [abs_def] intro: detached_inv split: if_splits)
  qed
  have det: "wp (safe_detach B) (\<lambda>free. wp (if \<not> free then ret (err_packet 1) else do {
      _ \<leftarrow> modify (\<lambda>w. w\<lparr>h_pid := q\<rparr>); ok \<leftarrow> debug_attach B q;
      if \<not> ok then ret (err_packet 1) else do { _ \<leftarrow> enter_session B; gets stop_reply } }) (\<lambda>_. session_inv)) w" for q
  proof (rule wp_mono [OF safe_detach_ok [OF inv]])
    fix ok and t :: "'a world"
    assume "if ok then detached (h_pid w) t else in_session (h_pid w) t"
    then show "wp (if \<not> ok then ret (err_packet 1) else do {
      _ \<leftarrow> modify (\<lambda>w. w\<lparr>h_pid := q\<rparr>); ok \<leftarrow> debug_attach B q;
      if \<not> ok then ret (err_packet 1) else do { _ \<leftarrow> enter_session B; gets stop_reply } }) (\<lambda>_. session_inv) t"
      using go [of "h_pid w" t q] by (cases ok) (simp_all add: wp_return in_session_inv)
  qed
  have "detached (h_pid w) w" if "\<not> h_attached w"
    using inv that by (auto simp: session_inv_iff in_session_def)
  note out = go [OF this]
  show "wp (vattach B packet) (\<lambda>_. session_inv) w"
    unfolding vattach_def Let_def
    using inv det out by (auto simp: wp_bind wp_gets wp_return split: option.split prod.split)
qed

lemma v_handlers_inv: "hoare session_inv (handle_v fuel B packet) session_inv"
  unfolding handle_v_def vcont_def vkill_def
  by (intro hoare_if hoare_inv_bind hoare_option hoare_prod hoare_inv_ret hoare_inv_gets vattach_inv
      kill_process_inv continue_inv)

lemma dispatch_inv:
  "hoare session_inv (question_mark B) session_inv"
  "hoare session_inv (handle_H B packet) session_inv"
  "hoare session_inv (handle_D B packet) session_inv"
  "hoare session_inv (handle_k B) session_inv"
  "hoare session_inv (handle_T B packet) session_inv"
proof -
  have ensure: "hoare session_inv (ensure_attached B) session_inv"
    by (rule hoareI, rule wp_mono [OF ensure_attached_ok])
      (auto intro: in_session_inv detached_inv split: if_splits)
  have select: "hoare session_inv (select_thread c i) session_inv" for c i
    unfolding select_thread_def by (rule inv_rules hoare_inv_modify | simp)+
  show "hoare session_inv (question_mark B) session_inv" "hoare session_inv (handle_H B packet) session_inv"
    "hoare session_inv (handle_D B packet) session_inv" "hoare session_inv (handle_k B) session_inv"
    "hoare session_inv (handle_T B packet) session_inv"
    unfolding question_mark_def handle_H_def handle_D_def handle_k_def handle_T_def
    by (rule ensure select safe_detach_inv kill_process_inv refresh_threads_inv inv_rules)+
qed

lemma handle_inv: "hoare session_inv (handle fuel B packet) session_inv"
  unfolding handle_def lift_reply_def
  by (intro hoare_list hoare_if hoare_inv_bind hoare_inv_ret handle_query_inv v_handlers_inv dispatch_inv
      register_handlers_inv memory_handlers_inv resume_inv breakpoint_handler_inv)

lemma serve_inv: "hoare session_inv (serve fuel B) session_inv"
proof (induction fuel)
  case 0
  then show ?case by (simp add: hoare_inv_ret)
next
  case (Suc fuel)
  then show ?case
    unfolding serve.simps
    by (intro hoare_if hoare_inv_bind hoare_option hoare_inv_ret on_conn_inv shutdown_requested_inv
        handle_inv)
qed

text \<open>A bridge as \<^verbatim>\<open>main\<close> sets it up for a client, and the packets handled one after another.\<close>

definition fresh :: "int \<Rightarrow> rsp_conn \<Rightarrow> bool list \<Rightarrow> 'b \<Rightarrow> 'b world" where
  "fresh pid conn shutdowns b = handler.extend (new_handler pid) (world.fields conn False shutdowns b [])"

definition run_packets :: "nat \<Rightarrow> 'b backend \<Rightarrow> string list \<Rightarrow> 'b world \<Rightarrow> 'b world" where
  "run_packets fuel B packets w = fold (\<lambda>packet w. snd (run_state (handle fuel B packet) w)) packets w"

lemma fresh_inv: "session_inv (fresh pid conn shutdowns b)"
  by (simp add: fresh_def session_inv_def session_of_def clean_def new_handler_def handler.defs world.defs)

interpretation bridge: invariant_machine "\<lambda>packet w. snd (run_state (handle fuel B packet) w)" session_inv
  for fuel B
  by unfold_locales (rule hoareD [OF handle_inv])

section \<open>Properties\<close>

text \<open>
  C1. Session safety. Whatever the backend answers and whatever packets the client sends, in
  any order and number, the calls the bridge has made conform to the protocol of a debug
  session: it attaches only when it has no session, every register, breakpoint, run-control
  and memory call is made inside a session and every call that names a process names the
  attached one, it detaches only right after a stop, and it kills only outside a session. The
  fields \<^verbatim>\<open>attached_\<close> and \<^verbatim>\<open>pid_\<close> agree with the calls, and without a session the
  handler keeps nothing of an earlier one: no threads, no memory maps, no breakpoint bytes,
  no stop reason.
\<close>

theorem session_safety:
  "map_option fst (session_run (None, False) (w_calls (run_packets fuel B packets (fresh pid conn shutdowns b))))
      = Some (if h_attached (run_packets fuel B packets (fresh pid conn shutdowns b))
              then Some (h_pid (run_packets fuel B packets (fresh pid conn shutdowns b))) else None)
    \<and> (h_attached (run_packets fuel B packets (fresh pid conn shutdowns b))
       \<or> clean (run_packets fuel B packets (fresh pid conn shutdowns b)))"
proof -
  have "session_inv (run_packets fuel B packets (fresh pid conn shutdowns b))"
    unfolding run_packets_def by (rule bridge.run_inv [OF fresh_inv])
  then show ?thesis
    by (auto simp: session_inv_def session_of_def)
qed

lemma safe_detach_last:
  "wp (safe_detach B) (\<lambda>ok w'. ok = (\<not> h_attached w') \<and> (\<not> ok \<longrightarrow> last (w_calls w') = CDetach False)) w"
  by (simp add: safe_detach_def debug_stop_def debug_detach_def wp_simps reset_session_def split: prod.split)

lemma cleanup_ok:
  assumes "session_inv v"
  shows "wp (cleanup B) (\<lambda>_ v. session_inv v \<and> (h_attached v \<longrightarrow> last (w_calls v) = CDetach False)) v"
proof -
  have "wp (safe_detach B) (\<lambda>_. session_inv) v"
    using safe_detach_inv assms by (auto simp: hoare_def)
  with safe_detach_last [of B v] have "wp (safe_detach B) (\<lambda>ok w'.
      (ok = (\<not> h_attached w') \<and> (\<not> ok \<longrightarrow> last (w_calls w') = CDetach False)) \<and> session_inv w') v"
    by (simp only: wp_conj)
  then show ?thesis
    unfolding cleanup_def wp_bind wp_return by (rule wp_mono) auto
qed

lemma serve_client_ok:
  assumes "map_option fst (session_of w) = Some None"
  shows "wp (serve_client fuel B pid) (\<lambda>ended v. ended \<longrightarrow> session_inv v \<and> (h_attached v \<longrightarrow> last (w_calls v) = CDetach False)) w"
proof -
  let ?w0 = "handler.extend (new_handler pid) (handler.more w)"
  let ?Q = "\<lambda>v. session_inv v \<and> (h_attached v \<longrightarrow> last (w_calls v) = CDetach False)"
  have inv: "session_inv ?w0"
    using assms by (cases w) (simp add: session_inv_def session_of_def clean_def new_handler_def handler.defs)
  have "wp (serve fuel B) (\<lambda>ended. wp (if \<not> ended then ret False else do { _ \<leftarrow> cleanup B; ret True })
      (\<lambda>ended v. ended \<longrightarrow> ?Q v)) ?w0"
  proof (rule wp_mono [where Q = "\<lambda>_. session_inv"])
    show "wp (serve fuel B) (\<lambda>_. session_inv) ?w0"
      using serve_inv inv by (auto simp: hoare_def)
    show "wp (if \<not> ended then ret False else do { _ \<leftarrow> cleanup B; ret True }) (\<lambda>ended v. ended \<longrightarrow> ?Q v) v"
      if "session_inv v" for ended and v
      using cleanup_ok [OF that, of B] by (simp add: wp_simps)
  qed
  then show ?thesis
    by (simp add: serve_client_def wp_simps)
qed

text \<open>
  No client leaves a session behind. When the serving loop of a client has ended, for
  whatever reason (the client closed the connection, an error on the socket, a shutdown
  request), the handler has detached, and the calls of the whole connection conform to the
  session protocol and end outside a session; the one exception is a backend that refused the
  final detach.
\<close>

theorem disconnect_detaches:
  assumes "run_state (serve_client fuel B pid) w = (True, w')" "w_calls w = []"
  shows "(\<not> h_attached w' \<and> clean w' \<and> map_option fst (session_run (None, False) (w_calls w')) = Some None)
    \<or> (last (w_calls w') = CDetach False \<and> map_option fst (session_run (None, False) (w_calls w')) = Some (Some (h_pid w')))"
  using wp_runD [OF serve_client_ok [of w fuel B pid] assms(1)] assms(2) by (auto simp: session_inv_def session_of_def)

text \<open>The frontend's sentinel file asks an idle bridge to shut down.\<close>

theorem disconnect_detaches_witness:
  "\<exists>w'. run_state (serve_client 1 null_backend 42)
      (fresh 7 \<lparr>fd_open = True, no_ack = False, rx_buf = [], rx = [RxTimeout], tx = [], tx_events = []\<rparr> [True] ())
      = (True, w') \<and> \<not> h_attached w' \<and> h_pid w' = 42"
proof -
  let ?w = "fresh 7 \<lparr>fd_open = True, no_ack = False, rx_buf = [], rx = [RxTimeout], tx = [], tx_events = []\<rparr> [True] ()"
  have r: "run_state (serve_client 1 null_backend 42) ?w =
      (True, (fresh 42 \<lparr>fd_open = True, no_ack = False, rx_buf = [], rx = [], tx = [], tx_events = []\<rparr> [] ())
        \<lparr>w_shutdown_flag := True\<rparr>)"
    by (simp add: serve_client_def fresh_def new_handler_def handler.defs world.defs on_conn_def recv_packet_def
        recv_loop.simps read_byte_def shutdown_requested_def cleanup_def safe_detach_def)
  show ?thesis
    using disconnect_detaches [OF r] r by (simp add: fresh_def new_handler_def handler.defs world.defs)
qed

end
