(* ===== verification/Rsp_Memory_Correct.thy ===== *)
theory Rsp_Memory_Correct
  imports Rsp_Safety
begin

text \<open>
  What the memory packets return. The backend is assumed to give access to a memory
  (\<open>reads_memory\<close>); then \<^verbatim>\<open>m\<close> returns the memory with the software breakpoints
  masked, whatever the chunking, and \<^verbatim>\<open>qSearch\<close> finds what a search of the whole range
  at once finds.
\<close>

section \<open>Masking\<close>

lemma word_offset:
  fixes base :: u64
  assumes "i < n" "unat base + n < 2 ^ 64"
  shows "unat (base + word_of_nat i) = unat base + i" "base \<le> base + word_of_nat i"
    "base + word_of_nat i < base + word_of_nat n" "unat (base + word_of_nat i - base) = i"
proof -
  have i: "unat (word_of_nat i :: u64) = i" and n: "unat (word_of_nat n :: u64) = n"
    using assms by (simp_all add: unat_of_nat)
  show a: "unat (base + word_of_nat i) = unat base + i"
    using assms i by (simp add: unat_word_ariths)
  have "unat (base + word_of_nat n) = unat base + n"
    using assms n by (simp add: unat_word_ariths)
  with a assms show "base \<le> base + word_of_nat i" "base + word_of_nat i < base + word_of_nat n"
    by (simp_all add: word_le_nat_alt word_less_nat_alt)
  show "unat (base + word_of_nat i - base) = i"
    using i by simp
qed

lemma length_mask_fold:
  "length (fold (\<lambda>(a, v) d. if P a then d[f a := v] else d) es d) = length d"
  by (induction es arbitrary: d) (auto split: prod.split)

lemma length_mask_breakpoints [simp]: "length (mask_breakpoints es base data) = length data"
  unfolding mask_breakpoints_def by (rule length_mask_fold)

lemma mask_breakpoints_nth:
  assumes "distinct (map fst es)" "unat base + length data < 2 ^ 64" "i < length data"
  shows "mask_breakpoints es base data ! i =
    (case map_of es (base + word_of_nat i) of Some v \<Rightarrow> v | None \<Rightarrow> data ! i)"
proof -
  define n where "n = length data"
  define F :: "u64 \<times> byte \<Rightarrow> byte list \<Rightarrow> byte list" where
    "F = (\<lambda>(a, v) d. if base \<le> a \<and> a < base + word_of_nat n then d[unat (a - base) := v] else d)"
  have len_F: "length (F e d) = length d" for e d
    by (simp add: F_def split: prod.split)
  have "fold F es d ! i = (case map_of es (base + word_of_nat i) of Some v \<Rightarrow> v | None \<Rightarrow> d ! i)"
    if "length d = n" for d
    using assms(1) that
  proof (induction es arbitrary: d)
    case (Cons e es)
    obtain a v where e: "e = (a, v)" by force
    have rec: "fold F (e # es) d ! i = (case map_of es (base + word_of_nat i) of Some v \<Rightarrow> v | None \<Rightarrow> F e d ! i)"
      using Cons.IH [of "F e d"] Cons.prems len_F by simp
    show ?case
    proof (cases "a = base + word_of_nat i")
      case True
      then have none: "map_of es (base + word_of_nat i) = None"
        using Cons.prems(1) e by (simp add: map_of_eq_None_iff)
      have "F e d ! i = v"
        using True word_offset [of i n base] assms Cons.prems(2) by (simp add: F_def e n_def)
      then show ?thesis
        using none True unfolding rec by (simp add: e)
    next
      case False
      then have "unat (a - base) \<noteq> i"
        by (metis add.commute diff_add_cancel word_of_nat_unat)
      then have same: "F e d ! i = d ! i"
        by (simp add: F_def e)
      show ?thesis
        unfolding rec same using False by (simp add: e)
    qed
  qed simp
  then show ?thesis
    by (simp add: mask_breakpoints_def F_def n_def)
qed

section \<open>Reading\<close>

text \<open>The backend reads the memory \<open>mem\<close> of process \<open>pid\<close> in state \<open>b\<close>, without changing its state.\<close>

definition reads_memory :: "'b backend \<Rightarrow> int \<Rightarrow> 'b \<Rightarrow> (u64 \<Rightarrow> byte) \<Rightarrow> bool" where
  "reads_memory B pid b mem \<longleftrightarrow>
     (\<forall>a n. be_memory_read B pid a n b = (Some (map (\<lambda>i. mem (a + word_of_nat i)) [0..<n]), b))"

text \<open>The memory as the client sees it: without the breakpoints of the bridge.\<close>

definition masked :: "(u64 \<times> byte) list \<Rightarrow> (u64 \<Rightarrow> byte) \<Rightarrow> u64 \<Rightarrow> byte" where
  "masked bps mem a = (case map_of bps a of Some original \<Rightarrow> original | None \<Rightarrow> mem a)"

lemma mask_chunk:
  assumes "distinct (map fst bps)" "unat base + n < 2 ^ 64"
  shows "mask_breakpoints bps base (map (\<lambda>i. mem (base + word_of_nat i)) [0..<n])
    = map (\<lambda>i. masked bps mem (base + word_of_nat i)) [0..<n]"
  by (rule nth_equalityI) (use assms in \<open>auto simp: mask_breakpoints_nth masked_def split: option.split\<close>)

lemma map_upt_shift: "map (\<lambda>i. f (k + i)) [0..<n] = map f [k..<k + n]"
  by (rule nth_equalityI) auto

lemma run_memory_read:
  assumes "reads_memory B pid (w_backend w) mem"
  shows "run_state (memory_read B pid a n) w =
    (Some (map (\<lambda>i. mem (a + word_of_nat i)) [0..<n]), w\<lparr>w_calls := w_calls w @ [CMemoryRead pid a n True]\<rparr>)"
  using assms by (simp add: memory_read_def invoke_def reads_memory_def)

lemma read_chunks_correct:
  assumes "reads_memory B (h_pid w) (w_backend w) mem" "distinct (map fst (h_sw_breakpoints w))"
    and "unat addr + len < 2 ^ 64" "progress \<le> len"
  shows "\<exists>cs. run_state (read_chunks B addr len progress hex) w =
    (hex @ bytes_to_hex (map (\<lambda>i. masked (h_sw_breakpoints w) mem (addr + word_of_nat i)) [progress..<len]),
     w\<lparr>w_calls := w_calls w @ cs\<rparr>)"
  using assms
proof (induction "len - progress" arbitrary: progress hex w rule: less_induct)
  case less
  show ?case
  proof (cases "progress < len")
    case True
    let ?chunk = "min (len - progress) kMemChunk"
    let ?w = "w\<lparr>w_calls := w_calls w @ [CMemoryRead (h_pid w) (addr + word_of_nat progress) ?chunk True]\<rparr>"
    let ?view = "\<lambda>i. masked (h_sw_breakpoints w) mem (addr + word_of_nat i)"
    have chunk: "0 < ?chunk" "progress + ?chunk \<le> len"
      using True by (auto simp: kMemChunk_def)
    have base: "unat (addr + word_of_nat progress) = unat addr + progress"
      using word_offset(1) [of progress len addr] True less.prems by simp
    have m: "mask_breakpoints (h_sw_breakpoints w) (addr + word_of_nat progress)
        (map (\<lambda>i. mem (addr + word_of_nat progress + word_of_nat i)) [0..<?chunk])
        = map ?view [progress..<progress + ?chunk]"
      using mask_chunk [OF less.prems(2), of "addr + word_of_nat progress" ?chunk mem] base chunk less.prems
        map_upt_shift [of ?view progress ?chunk] by (simp add: add.assoc)
    have "\<exists>cs. run_state (read_chunks B addr len (progress + ?chunk)
        (hex @ bytes_to_hex (map ?view [progress..<progress + ?chunk]))) ?w =
      ((hex @ bytes_to_hex (map ?view [progress..<progress + ?chunk]))
        @ bytes_to_hex (map (\<lambda>i. masked (h_sw_breakpoints ?w) mem (addr + word_of_nat i)) [progress + ?chunk..<len]),
       ?w\<lparr>w_calls := w_calls ?w @ cs\<rparr>)"
      using less.prems chunk by (intro less.hyps) auto
    then obtain cs where cs: "run_state (read_chunks B addr len (progress + ?chunk)
        (hex @ bytes_to_hex (map ?view [progress..<progress + ?chunk]))) ?w =
      (hex @ bytes_to_hex (map ?view [progress..<progress + ?chunk] @ map ?view [progress + ?chunk..<len]),
       ?w\<lparr>w_calls := w_calls ?w @ cs\<rparr>)"
      by auto
    have "[progress..<len] = [progress..<progress + ?chunk] @ [progress + ?chunk..<len]"
      using chunk(2) by (metis le_add1 le_add_diff_inverse upt_add_eq_append)
    then have "run_state (read_chunks B addr len progress hex) w =
      (hex @ bytes_to_hex (map ?view [progress..<len]),
       w\<lparr>w_calls := w_calls w @ CMemoryRead (h_pid w) (addr + word_of_nat progress) ?chunk True # cs\<rparr>)"
      using True cs m run_memory_read [OF less.prems(1), of "addr + word_of_nat progress" ?chunk]
      by (subst read_chunks.simps) (simp add: Let_def)
    then show ?thesis by blast
  next
    case False
    then have "run_state (read_chunks B addr len progress hex) w = (hex, w\<lparr>w_calls := w_calls w @ []\<rparr>)"
      by (subst read_chunks.simps) simp
    with False show ?thesis by (intro exI [of _ "[]"]) simp
  qed
qed

text \<open>A handler that has a session does not attach again.\<close>

lemma ensure_attached_in_session [simp]: "h_attached w \<Longrightarrow> run_state (ensure_attached B) w = (True, w)"
  by (simp add: ensure_attached_def)

text \<open>The fields of a printed packet are found and parsed back.\<close>

lemma find_char_field:
  "c \<in> separators \<Longrightarrow> c \<notin> set pre \<Longrightarrow>
     find_char (pre @ hex_of_nat n @ c # post) c 0 = Some (length pre + length (hex_of_nat n))"
  using hex_of_nat_no_separator [of c n]
  by (simp add: find_char_def index_of_append)

lemma parse_field:
  "k = length pre \<Longrightarrow> l = length pre + length (hex_of_nat (unat v)) \<Longrightarrow>
     parse_hex_u64 (pre @ hex_of_nat (unat v) @ post) k l = Some v"
  using parse_hex_u64_print [of pre v post] by simp

lemma parse_last_field:
  "k = length pre \<Longrightarrow> l = length pre + length (hex_of_nat (unat v)) \<Longrightarrow>
     parse_hex_u64 (pre @ hex_of_nat (unat v)) k l = Some v"
  using parse_hex_u64_print [of pre v "[]"] by simp

text \<open>The packet \<^verbatim>\<open>m<address>,<length>\<close>.\<close>

definition read_packet :: "u64 \<Rightarrow> u64 \<Rightarrow> string" where
  "read_packet addr len = ''m'' @ hex_of_nat (unat addr) @ '','' @ hex_of_nat (unat len)"

lemma read_packet_parse:
  fixes addr len :: u64
  defines "p \<equiv> read_packet addr len"
  shows "find_char p CHR '','' 0 = Some (1 + length (hex_of_nat (unat addr)))"
    "parse_hex_u64 p 1 (1 + length (hex_of_nat (unat addr))) = Some addr"
    "parse_hex_u64 p (Suc (1 + length (hex_of_nat (unat addr)))) (length p) = Some len"
proof -
  show "find_char p CHR '','' 0 = Some (1 + length (hex_of_nat (unat addr)))"
    using find_char_field [of "CHR '',''" "''m''" "unat addr" "hex_of_nat (unat len)"]
    by (simp add: p_def read_packet_def separators_def)
  show "parse_hex_u64 p 1 (1 + length (hex_of_nat (unat addr))) = Some addr"
    using parse_field [of 1 "''m''" "1 + length (hex_of_nat (unat addr))" addr "'','' @ hex_of_nat (unat len)"] by (simp add: p_def read_packet_def)
  show "parse_hex_u64 p (Suc (1 + length (hex_of_nat (unat addr)))) (length p) = Some len"
    using parse_last_field [of _ "''m'' @ hex_of_nat (unat addr) @ '',''" _ len] by (simp add: p_def read_packet_def)
qed

lemma handle_m: "handle fuel B (read_packet addr len) = lift_reply (handle_memory_read B (read_packet addr len))"
  by (simp add: handle_def read_packet_def)

lemma run_lift_reply: "run_state m w = (r, w') \<Longrightarrow> run_state (lift_reply m) w = (Some r, w')"
  by (simp add: lift_reply_def)

lemma run_memory_read_packet:
  assumes "h_attached w" "reads_memory B (h_pid w) (w_backend w) mem"
    and "distinct (map fst (h_sw_breakpoints w))"
    and "0 < len" "len \<le> kRspMaxMemory" "unat addr + unat len < 2 ^ 64"
    and "h_memory_maps_known w \<Longrightarrow> gdb_memory_range_mapped (h_memory_maps w) addr len"
  shows "\<exists>cs. run_state (handle_memory_read B (read_packet addr len)) w =
    (bytes_to_hex (map (\<lambda>i. masked (h_sw_breakpoints w) mem (addr + word_of_nat i)) [0..<unat len]),
     w\<lparr>w_calls := w_calls w @ cs\<rparr>)"
proof -
  obtain cs where cs: "run_state (read_chunks B addr (unat len) 0 []) w =
    (bytes_to_hex (map (\<lambda>i. masked (h_sw_breakpoints w) mem (addr + word_of_nat i)) [0..<unat len]),
     w\<lparr>w_calls := w_calls w @ cs\<rparr>)"
    using read_chunks_correct [OF assms(2,3,6), of 0 "[]"] by auto
  have "\<not> addr > - 1 - len"
    using assms(6) unfolding no_wrap_test by simp
  then have "run_state (handle_memory_read B (read_packet addr len)) w =
    (bytes_to_hex (map (\<lambda>i. masked (h_sw_breakpoints w) mem (addr + word_of_nat i)) [0..<unat len]),
     w\<lparr>w_calls := w_calls w @ cs\<rparr>)"
    using assms(1,4,5,7) cs
    by (auto simp: handle_memory_read_def read_packet_parse [simplified] not_less)
  then show ?thesis by blast
qed

text \<open>
  C2. A memory read returns the program's own bytes. In a session over a target whose memory
  is \<open>mem\<close>, the reply to \<^verbatim>\<open>m<addr>,<len>\<close> for a mapped range of at most 1 MiB is the
  hexadecimal text of exactly the bytes \<open>addr\<close> to \<open>addr + len - 1\<close>, with the original
  byte in place of each software breakpoint the bridge has inserted, independently of how the
  read is cut into 64 KiB chunks and of where in a chunk the breakpoints lie; nothing of the
  session changes.
\<close>

theorem memory_read_correct:
  assumes "h_attached w" "reads_memory B (h_pid w) (w_backend w) mem"
    and "distinct (map fst (h_sw_breakpoints w))"
    and "0 < len" "len \<le> kRspMaxMemory" "unat addr + unat len < 2 ^ 64"
    and "h_memory_maps_known w \<Longrightarrow> gdb_memory_range_mapped (h_memory_maps w) addr len"
  shows "\<exists>cs. run_state (handle fuel B (read_packet addr len)) w =
    (Some (bytes_to_hex (map (\<lambda>i. masked (h_sw_breakpoints w) mem (addr + word_of_nat i)) [0..<unat len])),
     w\<lparr>w_calls := w_calls w @ cs\<rparr>)"
  using run_memory_read_packet [OF assms] unfolding handle_m by (auto dest: run_lift_reply)

text \<open>A target whose memory holds the low byte of every address, seen from a session.\<close>

definition ramp_backend :: "unit backend" where
  "ramp_backend = null_backend\<lparr>be_memory_read := \<lambda>pid a n b. (Some (map (\<lambda>i. ucast (a + word_of_nat i)) [0..<n]), b)\<rparr>"

definition sample_world :: "(u64 \<times> byte) list \<Rightarrow> unit world" where
  "sample_world bps =
     (fresh 42 \<lparr>fd_open = True, no_ack = True, rx_buf = [], rx = [], tx = [], tx_events = []\<rparr> [] ())
       \<lparr>h_attached := True, h_sw_breakpoints := bps\<rparr>"

lemma sample_world_fields [simp]:
  "h_attached (sample_world bps)" "h_sw_breakpoints (sample_world bps) = bps"
  "\<not> h_memory_maps_known (sample_world bps)" "h_pid (sample_world bps) = 42"
  by (simp_all add: sample_world_def fresh_def new_handler_def handler.defs world.defs)

lemma ramp_reads: "reads_memory ramp_backend pid b ucast"
  by (simp add: reads_memory_def ramp_backend_def)

theorem memory_read_correct_witness:
  "fst (run_state (handle 0 ramp_backend (read_packet 0x1000 3)) (sample_world [(0x1001, 0x90)])) = Some ''009002''"
proof -
  have "map (\<lambda>i. masked [(0x1001, 0x90)] ucast (0x1000 + word_of_nat i)) [0..<3] = [0x00, 0x90, 0x02 :: byte]"
    by (simp add: upt_rec masked_def)
  moreover have "bytes_to_hex [0x00, 0x90, 0x02] = ''009002''"
    by code_simp
  moreover have "\<exists>cs. run_state (handle 0 ramp_backend (read_packet 0x1000 3)) (sample_world [(0x1001, 0x90)]) =
    (Some (bytes_to_hex (map (\<lambda>i. masked (h_sw_breakpoints (sample_world [(0x1001, 0x90)])) ucast (0x1000 + word_of_nat i)) [0..<unat (3 :: u64)])),
     (sample_world [(0x1001, 0x90)])\<lparr>w_calls := w_calls (sample_world [(0x1001, 0x90)]) @ cs\<rparr>)"
    by (rule memory_read_correct [OF _ ramp_reads]) (simp_all add: kRspMaxMemory_def)
  ultimately show ?thesis by auto
qed

section \<open>Searching\<close>

definition occurs :: "'a list \<Rightarrow> 'a list \<Rightarrow> nat \<Rightarrow> bool" where
  "occurs p xs j \<longleftrightarrow> j + length p \<le> length xs \<and> take (length p) (drop j xs) = p"

lemma occurs_Cons: "occurs p (x # xs) (Suc j) = occurs p xs j"
  by (simp add: occurs_def)

lemma take_eq_occurs: "p \<noteq> [] \<Longrightarrow> take (length p) (drop j xs) = p \<longleftrightarrow> occurs p xs j"
  unfolding occurs_def
  by (metis add.commute drop_eq_Nil le_diff_conv2 length_drop length_take min.cobounded1 nat_le_linear take_Nil)

lemma search_occurs:
  assumes "p \<noteq> []"
  shows "search p xs = None \<longleftrightarrow> (\<forall>j. \<not> occurs p xs j)"
    "search p xs = Some i \<longleftrightarrow> occurs p xs i \<and> (\<forall>j < i. \<not> occurs p xs j)"
proof -
  have zero: "take (length p) xs = p \<longleftrightarrow> occurs p xs 0" for xs
    using take_eq_occurs [OF assms, of 0] by simp
  have split: "(\<forall>j. Q j) \<longleftrightarrow> Q 0 \<and> (\<forall>j. Q (Suc j))" for Q :: "nat \<Rightarrow> bool"
    by (metis not0_implies_Suc)
  show "search p xs = None \<longleftrightarrow> (\<forall>j. \<not> occurs p xs j)"
  proof (induction xs)
    case Nil
    show ?case using assms by (simp add: occurs_def)
  next
    case (Cons x xs)
    show ?case
      unfolding search.simps zero split [of "\<lambda>j. \<not> occurs p (x # xs) j"] occurs_Cons Cons.IH [symmetric] by simp
  qed
  show "search p xs = Some i \<longleftrightarrow> occurs p xs i \<and> (\<forall>j < i. \<not> occurs p xs j)"
  proof (induction xs arbitrary: i)
    case Nil
    show ?case using assms by (simp add: occurs_def)
  next
    case (Cons x xs)
    show ?case
      by (cases i) (auto simp: zero occurs_Cons Cons.IH less_Suc_eq_0_disj)
  qed
qed

lemma occurs_window:
  assumes "d \<le> n" "n \<le> length xs" "p \<noteq> []"
  shows "occurs p (drop d (take n xs)) j \<longleftrightarrow> occurs p xs (d + j) \<and> d + j + length p \<le> n"
proof (cases "d + j + length p \<le> n")
  case True
  then have "take (length p) (drop j (drop d (take n xs))) = take (length p) (drop (d + j) xs)"
    by (simp add: drop_take add.commute)
  with True assms show ?thesis
    by (auto simp: occurs_def)
next
  case False
  with assms show ?thesis
    by (auto simp: occurs_def)
qed

text \<open>
  One round of the search loop on the memory \<open>M\<close>, of which \<open>k\<close> bytes are searched; \<open>d\<close> is
  where the window starts.
\<close>

lemma search_round:
  assumes "p \<noteq> []" "k \<le> n" "n \<le> length M" "\<And>j. occurs p M j \<Longrightarrow> k < j + length p"
  defines "d \<equiv> k - min (length p - 1) k"
  shows "search p (drop d (take n M)) = Some h \<Longrightarrow> search p M = Some (d + h)"
    "search p (drop d (take n M)) = None \<Longrightarrow> occurs p M j \<Longrightarrow> n < j + length p"
proof -
  have d: "d \<le> n" using assms(2) by (simp add: d_def)
  have ge: "d \<le> j" if "occurs p M j" for j
    using assms(1) assms(4) [OF that] by (cases p) (auto simp: d_def)
  show "search p M = Some (d + h)" if "search p (drop d (take n M)) = Some h"
  proof -
    from that have o: "occurs p M (d + h)" and le: "d + h + length p \<le> n"
        and min: "\<And>j. j < h \<Longrightarrow> \<not> (occurs p M (d + j) \<and> d + j + length p \<le> n)"
      by (auto simp: search_occurs [OF assms(1)] occurs_window [OF d assms(3,1)])
    have "\<not> occurs p M j" if "j < d + h" for j
    proof
      assume oj: "occurs p M j"
      then obtain j' where "j = d + j'"
        using ge le_Suc_ex by blast
      with oj that min [of j'] le show False by simp
    qed
    with o show ?thesis
      by (simp add: search_occurs [OF assms(1)])
  qed
  show "n < j + length p" if "search p (drop d (take n M)) = None" "occurs p M j"
  proof -
    from that(2) ge obtain j' where "j = d + j'"
      using le_Suc_ex by blast
    with that show ?thesis
      by (auto simp: search_occurs [OF assms(1)] occurs_window [OF d assms(3,1)] not_le)
  qed
qed

definition search_reply :: "u64 \<Rightarrow> nat option \<Rightarrow> string" where
  "search_reply address hit =
     (case hit of None \<Rightarrow> ''0'' | Some i \<Rightarrow> ''1,'' @ hex_of_nat (unat (address + word_of_nat i)))"

lemma search_amount:
  fixes addr :: u64
  assumes "k < len" "unat addr + len < 2 ^ 64"
  defines "a \<equiv> min kMemChunk (len - k)"
  shows "addr + word_of_nat k < addr + word_of_nat len"
    "min (word_of_nat kMemChunk) (addr + word_of_nat len - (addr + word_of_nat k)) = word_of_nat a"
    "unat (word_of_nat a :: u64) = a"
proof -
  show "addr + word_of_nat k < addr + word_of_nat len"
    using word_offset(3) assms by blast
  have "addr + word_of_nat len - (addr + word_of_nat k) = word_of_nat (len - k)"
    using assms(1) by (simp add: of_nat_diff)
  moreover have "unat (word_of_nat (len - k) :: u64) = len - k" "unat (word_of_nat kMemChunk :: u64) = kMemChunk"
    using assms by (simp_all add: unat_of_nat kMemChunk_def del: of_nat_diff)
  ultimately show "min (word_of_nat kMemChunk) (addr + word_of_nat len - (addr + word_of_nat k)) = word_of_nat a"
    by (auto simp: a_def min_def word_le_nat_alt)
  show "unat (word_of_nat a :: u64) = a"
    using assms by (simp add: unat_of_nat a_def)
qed

lemma window_step:
  assumes "k + a \<le> length M" "c = k - min (length p - 1) k"
    and "window = drop c (take k M) @ take a (drop k M)"
  shows "window = drop c (take (k + a) M)"
    "drop (length window - min (length p - 1) (length window)) window = drop (k + a - min (length p - 1) (k + a)) (take (k + a) M)"
proof -
  show w: "window = drop c (take (k + a) M)"
    using assms by (simp add: take_add drop_append)
  show "drop (length window - min (length p - 1) (length window)) window = drop (k + a - min (length p - 1) (k + a)) (take (k + a) M)"
    using assms(1,2) unfolding w by (auto simp: drop_drop min_def intro!: arg_cong [where f = "\<lambda>i. drop i (take (k + a) M)"])
qed

lemma search_chunks_correct:
  assumes "reads_memory B (h_pid w) (w_backend w) mem" "p \<noteq> []" "unat addr + len < 2 ^ 64" "k \<le> len"
    and "M = map (\<lambda>i. mem (addr + word_of_nat i)) [0..<len]"
    and "\<And>j. occurs p M j \<Longrightarrow> k < j + length p"
    and "carry = drop (k - min (length p - 1) k) (take k M)"
  shows "\<exists>cs. run_state (search_chunks B p (addr + word_of_nat len) (addr + word_of_nat k) carry) w =
    (search_reply addr (search p M), w\<lparr>w_calls := w_calls w @ cs\<rparr>)"
  using assms
proof (induction "len - k" arbitrary: k carry w rule: less_induct)
  case less
  note reads = less.prems(1) and p = less.prems(2) and fits = less.prems(3) and M = less.prems(5)
  let ?d = "k - min (length p - 1) k"
  show ?case
  proof (cases "k < len")
    case True
    define a where "a = min kMemChunk (len - k)"
    note amount = search_amount [OF True fits, folded a_def]
    have a: "0 < a" "k + a \<le> len" "k + a \<le> length M"
      using True M by (auto simp: a_def kMemChunk_def)
    let ?data = "map (\<lambda>i. mem (addr + word_of_nat k + word_of_nat i)) [0..<a]"
    let ?w = "w\<lparr>w_calls := w_calls w @ [CMemoryRead (h_pid w) (addr + word_of_nat k) a True]\<rparr>"
    have data: "?data = take a (drop k M)"
      by (rule nth_equalityI) (use a M in \<open>auto simp: add.assoc\<close>)
    define window where "window = carry @ ?data"
    note step = window_step [of k a M ?d p window, OF a(3) refl, folded data less.prems(7), OF window_def]
    have keep: "length (take k M) = k" "length carry = min (length p - 1) k"
      using less.prems(4,5,7) by auto
    have run: "run_state (search_chunks B p (addr + word_of_nat len) (addr + word_of_nat k) carry) w =
      (case search p window of
         Some h \<Rightarrow> (snprintf 40 (''1,'' @ hex_of_nat (unat (addr + word_of_nat k - word_of_nat (length carry) + word_of_nat h))), ?w)
       | None \<Rightarrow> run_state (search_chunks B p (addr + word_of_nat len) (addr + word_of_nat (k + a))
           (drop (length window - min (length p - 1) (length window)) window)) ?w)"
      using amount run_memory_read [OF reads, of "addr + word_of_nat k" a]
      by (subst search_chunks.simps) (simp add: Let_def window_def add.assoc split: option.split)
    show ?thesis
    proof (cases "search p window")
      case None
      have "k + a < j + length p" if "occurs p M j" for j
        using search_round(2) [OF p _ a(3) less.prems(6), of j] None that step(1) by simp
      then have "\<exists>cs. run_state (search_chunks B p (addr + word_of_nat len) (addr + word_of_nat (k + a))
           (drop (length window - min (length p - 1) (length window)) window)) ?w
          = (search_reply addr (search p M), ?w\<lparr>w_calls := w_calls ?w @ cs\<rparr>)"
        using less.prems a True step(2) by (intro less.hyps) auto
      then show ?thesis
        unfolding run None by auto
    next
      case (Some h)
      have "search p M = Some (?d + h)"
        using search_round(1) [OF p _ a(3) less.prems(6), of h] Some step(1) by simp
      moreover have "addr + word_of_nat k - word_of_nat (length carry) + word_of_nat h = addr + word_of_nat (?d + h)"
        unfolding keep(2) by (simp add: of_nat_diff)
      moreover have "length (''1,'' @ hex_of_nat (unat (addr + word_of_nat (?d + h)))) < 40"
        using length_hex_u64 [of "addr + word_of_nat (?d + h)"] by simp
      ultimately have "(snprintf 40 (''1,'' @ hex_of_nat (unat (addr + word_of_nat k - word_of_nat (length carry) + word_of_nat h))), ?w)
          = (search_reply addr (search p M), ?w)"
        by (simp only: search_reply_def option.case snprintf_fits)
      then show ?thesis
        unfolding run Some option.case by blast
    qed
  next
    case False
    then have "k = len" using less.prems(4) by simp
    then have "search p M = None"
      using less.prems(5,6) p by (auto simp: search_occurs occurs_def)
    moreover have "run_state (search_chunks B p (addr + word_of_nat len) (addr + word_of_nat k) carry) w
        = (''0'', w\<lparr>w_calls := w_calls w @ []\<rparr>)"
      using \<open>k = len\<close> by (subst search_chunks.simps) simp
    ultimately show ?thesis
      by (intro exI [of _ "[]"]) (simp add: search_reply_def)
  qed
qed

text \<open>The packet \<^verbatim>\<open>qSearch:memory:<address>;<length>;<pattern>\<close>.\<close>

definition search_packet :: "u64 \<Rightarrow> u64 \<Rightarrow> byte list \<Rightarrow> string" where
  "search_packet addr len pat =
     ''qSearch:memory:'' @ hex_of_nat (unat addr) @ '';'' @ hex_of_nat (unat len) @ '';'' @ map char_of_byte pat"

lemma find_char_after:
  "k = length pre \<Longrightarrow> c \<in> separators \<Longrightarrow>
     find_char (pre @ hex_of_nat n @ c # post) c k = Some (k + length (hex_of_nat n))"
  using hex_of_nat_no_separator [of c n] by (simp add: find_char_def index_of_append)

lemma search_packet_parse:
  fixes addr len :: u64 and pat :: "byte list"
  defines "p \<equiv> search_packet addr len pat" and "s1 \<equiv> 15 + length (hex_of_nat (unat addr))"
  defines "s2 \<equiv> s1 + 1 + length (hex_of_nat (unat len))"
  shows "find_char p CHR '';'' 15 = Some s1" "find_char p CHR '';'' (s1 + 1) = Some s2"
    "parse_hex_u64 p 15 s1 = Some addr" "parse_hex_u64 p (s1 + 1) s2 = Some len"
    "map byte_of_char (drop (s2 + 1) p) = pat" "starts_with p ''qSearch:memory:''"
proof -
  let ?pre = "''qSearch:memory:''" and ?mid = "''qSearch:memory:'' @ hex_of_nat (unat addr) @ '';''"
  have semi: "CHR '';'' \<in> separators" by (simp add: separators_def)
  have l: "15 = length ?pre" "s1 + 1 = length ?mid" by (simp_all add: s1_def)
  show "find_char p CHR '';'' 15 = Some s1"
    using find_char_after [OF l(1) semi, of "unat addr" "hex_of_nat (unat len) @ '';'' @ map char_of_byte pat"]
    by (simp add: p_def search_packet_def s1_def)
  show "find_char p CHR '';'' (s1 + 1) = Some s2"
    using find_char_after [OF l(2) semi, of "unat len" "map char_of_byte pat"]
    by (simp add: p_def search_packet_def s2_def)
  show "parse_hex_u64 p 15 s1 = Some addr"
    using parse_field [of 15 ?pre s1 addr "'';'' @ hex_of_nat (unat len) @ '';'' @ map char_of_byte pat"]
    by (simp add: p_def search_packet_def s1_def)
  show "parse_hex_u64 p (s1 + 1) s2 = Some len"
    using parse_field [of "s1 + 1" ?mid s2 len "'';'' @ map char_of_byte pat"]
    by (simp add: p_def search_packet_def s1_def s2_def)
  have "p = (?mid @ hex_of_nat (unat len) @ '';'') @ map char_of_byte pat"
    "s2 + 1 = length (?mid @ hex_of_nat (unat len) @ '';'')"
    by (simp_all add: p_def search_packet_def s1_def s2_def)
  then have "drop (s2 + 1) p = map char_of_byte pat"
    by (metis append_eq_conv_conj)
  then show "map byte_of_char (drop (s2 + 1) p) = pat"
    by (simp add: o_def)
  show "starts_with p ''qSearch:memory:''"
    by (simp add: p_def search_packet_def starts_with_def)
qed

lemma handle_q_search:
  "handle fuel B (search_packet addr len pat) = lift_reply (handle_search_memory B (search_packet addr len pat))"
  by (simp add: handle_def handle_query_def search_packet_def starts_with_def)

text \<open>
  C3. A memory search is exact. The bridge reads the range in 64 KiB chunks and carries the
  tail of each chunk over to the next; the reply is nevertheless what one search through the
  whole range would give: the address of the first occurrence of the pattern, also when it
  straddles a chunk boundary, and \<^verbatim>\<open>0\<close> exactly when the pattern does not occur.
\<close>

theorem memory_search_exact:
  assumes "h_attached w" "reads_memory B (h_pid w) (w_backend w) mem"
    and "pat \<noteq> []" "length pat \<le> 0x1000" "length pat \<le> unat len" "len \<le> 0x4000000"
    and "unat addr + unat len < 2 ^ 64"
    and "h_memory_maps_known w \<Longrightarrow> gdb_memory_range_mapped (h_memory_maps w) addr len"
  shows "\<exists>cs. run_state (handle fuel B (search_packet addr len pat)) w =
      (Some (search_reply addr (search pat (map (\<lambda>i. mem (addr + word_of_nat i)) [0..<unat len]))),
       w\<lparr>w_calls := w_calls w @ cs\<rparr>)
    \<and> (search pat (map (\<lambda>i. mem (addr + word_of_nat i)) [0..<unat len]) = None \<longleftrightarrow>
        (\<forall>j. \<not> occurs pat (map (\<lambda>i. mem (addr + word_of_nat i)) [0..<unat len]) j))
    \<and> (\<forall>i. search pat (map (\<lambda>i. mem (addr + word_of_nat i)) [0..<unat len]) = Some i \<longleftrightarrow>
        occurs pat (map (\<lambda>i. mem (addr + word_of_nat i)) [0..<unat len]) i
        \<and> (\<forall>j < i. \<not> occurs pat (map (\<lambda>i. mem (addr + word_of_nat i)) [0..<unat len]) j))"
proof -
  let ?M = "map (\<lambda>i. mem (addr + word_of_nat i)) [0..<unat len]"
  obtain cs where cs: "run_state (search_chunks B pat (addr + len) addr []) w =
      (search_reply addr (search pat ?M), w\<lparr>w_calls := w_calls w @ cs\<rparr>)"
    using search_chunks_correct [OF assms(2,3,7), of 0 ?M "[]"] assms(3)
    by (auto simp: word_of_nat_unat)
  have prefix: "length ''qSearch:memory:'' = 15"
    by simp
  have "\<not> addr > - 1 - len" "\<not> len > 0x4000000"
    using assms(6,7) unfolding no_wrap_test by simp_all
  moreover have "\<not> (known \<and> \<not> gdb_memory_range_mapped maps addr len)"
    if "known = h_memory_maps_known w" "maps = h_memory_maps w" for known maps
    using assms(8) that by simp
  ultimately have "run_state (handle_search_memory B (search_packet addr len pat)) w =
      (search_reply addr (search pat ?M), w\<lparr>w_calls := w_calls w @ cs\<rparr>)"
    using assms(1,3-5) cs search_packet_parse [of addr len pat]
    unfolding handle_search_memory_def Let_def prefix by auto
  from run_lift_reply [OF this] show ?thesis
    unfolding handle_q_search search_occurs [OF assms(3)] by blast
qed

theorem memory_search_exact_witness:
  "fst (run_state (handle 0 ramp_backend (search_packet 0x1000 8 [2, 3])) (sample_world [])) = Some ''1,1002''"
proof -
  let ?w = "sample_world []"
  have m: "map (\<lambda>i. ucast (0x1000 + word_of_nat i :: u64)) [0..<unat (8 :: u64)] = [0, 1, 2, 3, 4, 5, 6, 7 :: byte]"
    by (simp add: upt_rec)
  have "\<exists>cs. run_state (handle 0 ramp_backend (search_packet 0x1000 8 [2, 3])) ?w =
      (Some (search_reply 0x1000 (search [2, 3 :: byte] (map (\<lambda>i. ucast (0x1000 + word_of_nat i :: u64)) [0..<unat (8 :: u64)]))),
       ?w\<lparr>w_calls := w_calls ?w @ cs\<rparr>)"
    using memory_search_exact [of ?w ramp_backend ucast "[2, 3]" 8 "0x1000" 0] ramp_reads by simp
  then show ?thesis
    unfolding m by (auto simp: search_reply_def hex_of_nat.simps hex_digit_def char_of_eq_iff)
qed

section \<open>Breakpoints and memory\<close>

text \<open>The packets \<^verbatim>\<open>Z0,<address>,1\<close> and \<^verbatim>\<open>M<address>,1:<byte>\<close>.\<close>

definition z0_packet :: "char \<Rightarrow> u64 \<Rightarrow> string" where
  "z0_packet z addr = [z] @ ''0,'' @ hex_of_nat (unat addr) @ '',1''"

lemma z0_packet_parse:
  fixes addr :: u64 and z :: char
  defines "p \<equiv> z0_packet z addr" and "s \<equiv> 3 + length (hex_of_nat (unat addr))"
  assumes "z \<noteq> CHR '',''"
  shows "find_char p CHR '','' 2 = Some 2" "find_char p CHR '','' 3 = Some s" "length p = s + 2"
    "parse_hex_u64 p 3 s = Some addr" "parse_hex_u64 p (s + 1) (length p) = Some 1" "p ! 1 = CHR ''0''"
    "\<not> length p < 5" "s < length p"
proof -
  show len: "length p = s + 2" by (simp add: p_def z0_packet_def s_def)
  show "find_char p CHR '','' 2 = Some 2" by (simp add: p_def z0_packet_def find_char_def)
  show "find_char p CHR '','' 3 = Some s"
    using find_char_after [of 3 "[z] @ ''0,''" "CHR '',''" "unat addr" "''1''"]
    by (simp add: p_def z0_packet_def s_def separators_def)
  show "parse_hex_u64 p 3 s = Some addr"
    using parse_field [of 3 "[z] @ ''0,''" s addr "'',1''"] by (simp add: p_def z0_packet_def s_def)
  have "hex_of_nat (unat (1 :: u64)) = ''1''"
    by (simp add: hex_of_nat.simps hex_digit_def char_of_eq_iff)
  then show "parse_hex_u64 p (s + 1) (length p) = Some 1"
    using parse_last_field [of "s + 1" "[z] @ ''0,'' @ hex_of_nat (unat addr) @ '',''" "length p" 1]
    by (simp add: p_def z0_packet_def s_def)
  show "p ! 1 = CHR ''0''" "s < length p" by (simp_all add: p_def z0_packet_def s_def)
  have "hex_of_nat (unat addr) \<noteq> []" by simp
  then show "\<not> length p < 5"
    by (simp add: len s_def)
qed

lemma run_set_breakpoint:
  assumes "h_attached w" "reads_memory B (h_pid w) (w_backend w) mem"
    and "be_set_breakpoint B addr 0 (w_backend w) = (True, b')"
  shows "\<exists>w' cs. run_state (handle fuel B (z0_packet CHR ''Z'' addr)) w = (Some ''OK'', w')
    \<and> w' = w\<lparr>h_sw_breakpoints := AList.update addr (mem addr) (h_sw_breakpoints w), w_backend := b', w_calls := w_calls w @ cs\<rparr>"
proof -
  have sw: "run_state (software_breakpoint B addr True) w = (''OK'',
      w\<lparr>h_sw_breakpoints := AList.update addr (mem addr) (h_sw_breakpoints w), w_backend := b',
        w_calls := w_calls w @ [CMemoryRead (h_pid w) addr 1 True, CSetBreakpoint addr 0 True]\<rparr>)"
    using assms(3) run_memory_read [OF assms(2), of addr 1]
    by (simp add: software_breakpoint_def debug_set_breakpoint_def invoke_def insert_bp_def)
  have "run_state (handle_breakpoint B (z0_packet CHR ''Z'' addr) True) w = run_state (software_breakpoint B addr True) w"
    using z0_packet_parse [of "CHR ''Z''" addr] assms(1) by (simp add: handle_breakpoint_def)
  moreover have "handle fuel B (z0_packet CHR ''Z'' addr) = lift_reply (handle_breakpoint B (z0_packet CHR ''Z'' addr) True)"
    by (simp add: handle_def z0_packet_def)
  ultimately show ?thesis
    using run_lift_reply sw by metis
qed

lemma masked_insert:
  "masked (AList.update a (mem a) bps) (mem(a := v)) x = (if x = a then mem a else masked bps mem x)"
  by (simp add: masked_def update_conv' split: option.split)

text \<open>
  Software breakpoints are invisible to memory reads. When \<^verbatim>\<open>Z0\<close> succeeds at an address
  that carries no breakpoint yet, the payload has put an INT3 there; still, every memory read
  that follows returns exactly what it would have returned before.
\<close>

theorem breakpoint_invisible:
  assumes "h_attached w" "distinct (map fst (h_sw_breakpoints w))" "map_of (h_sw_breakpoints w) a = None"
    and "reads_memory B (h_pid w) (w_backend w) mem"
    and "be_set_breakpoint B a 0 (w_backend w) = (True, b')"
    and "reads_memory B (h_pid w) b' (mem(a := 0xCC))"
    and "0 < len" "len \<le> kRspMaxMemory" "unat addr + unat len < 2 ^ 64"
    and "h_memory_maps_known w \<Longrightarrow> gdb_memory_range_mapped (h_memory_maps w) addr len"
  shows "\<exists>w'. run_state (handle fuel B (z0_packet CHR ''Z'' a)) w = (Some ''OK'', w')
    \<and> fst (run_state (handle fuel B (read_packet addr len)) w') = fst (run_state (handle fuel B (read_packet addr len)) w)"
proof -
  obtain w' cs where z: "run_state (handle fuel B (z0_packet CHR ''Z'' a)) w = (Some ''OK'', w')"
    and w': "w' = w\<lparr>h_sw_breakpoints := AList.update a (mem a) (h_sw_breakpoints w), w_backend := b', w_calls := w_calls w @ cs\<rparr>"
    using run_set_breakpoint [OF assms(1,4,5)] by blast
  have view: "masked (h_sw_breakpoints w') (mem(a := 0xCC)) x = masked (h_sw_breakpoints w) mem x" for x
    using assms(3) by (simp add: w' masked_insert) (simp add: masked_def)
  have "\<exists>cs. run_state (handle_memory_read B (read_packet addr len)) w =
    (bytes_to_hex (map (\<lambda>i. masked (h_sw_breakpoints w) mem (addr + word_of_nat i)) [0..<unat len]), w\<lparr>w_calls := w_calls w @ cs\<rparr>)"
    by (rule run_memory_read_packet [OF assms(1,4,2,7-10)])
  moreover have "\<exists>cs. run_state (handle_memory_read B (read_packet addr len)) w' =
    (bytes_to_hex (map (\<lambda>i. masked (h_sw_breakpoints w') (mem(a := 0xCC)) (addr + word_of_nat i)) [0..<unat len]), w'\<lparr>w_calls := w_calls w' @ cs\<rparr>)"
    using assms by (intro run_memory_read_packet) (simp_all add: w' distinct_update)
  ultimately show ?thesis
    using z unfolding view handle_m by (auto simp: run_lift_reply)
qed

text \<open>A target that is just a memory: reads, writes and breakpoints act on it.\<close>

definition write_mem :: "u64 \<Rightarrow> byte list \<Rightarrow> (u64 \<Rightarrow> byte) \<Rightarrow> u64 \<Rightarrow> byte" where
  "write_mem a bs mem = fold (\<lambda>(i, v) m. m(a + word_of_nat i := v)) (zip [0..<length bs] bs) mem"

definition mem_backend :: "(u64 \<Rightarrow> byte) backend" where
  "mem_backend = null_backend\<lparr>
     be_memory_read := \<lambda>pid a n m. (Some (map (\<lambda>i. m (a + word_of_nat i)) [0..<n]), m),
     be_memory_write := \<lambda>pid a bs m. ((True, word_of_nat (length bs)), write_mem a bs m),
     be_set_breakpoint := \<lambda>a kind m. (True, m(a := 0xCC))\<rparr>"

definition mem_world :: "(u64 \<times> byte) list \<Rightarrow> (u64 \<Rightarrow> byte) \<Rightarrow> (u64 \<Rightarrow> byte) world" where
  "mem_world bps mem =
     (fresh 42 \<lparr>fd_open = True, no_ack = True, rx_buf = [], rx = [], tx = [], tx_events = []\<rparr> [] mem)
       \<lparr>h_attached := True, h_sw_breakpoints := bps\<rparr>"

lemma mem_world_fields [simp]:
  "h_attached (mem_world bps mem)" "h_sw_breakpoints (mem_world bps mem) = bps"
  "\<not> h_memory_maps_known (mem_world bps mem)" "h_pid (mem_world bps mem) = 42" "w_backend (mem_world bps mem) = mem"
  by (simp_all add: mem_world_def fresh_def new_handler_def handler.defs world.defs)

lemma mem_backend_reads [simp]: "reads_memory mem_backend pid mem mem"
  by (simp add: reads_memory_def mem_backend_def)

theorem breakpoint_invisible_witness:
  "\<exists>w'. run_state (handle 0 mem_backend (z0_packet CHR ''Z'' 0x1001)) (mem_world [] ucast) = (Some ''OK'', w')
    \<and> fst (run_state (handle 0 mem_backend (read_packet 0x1000 3)) w')
      = fst (run_state (handle 0 mem_backend (read_packet 0x1000 3)) (mem_world [] ucast))"
  by (rule breakpoint_invisible [where mem = ucast and b' = "ucast(0x1001 := 0xCC)"])
    (simp_all add: mem_backend_def kRspMaxMemory_def reads_memory_def)

text \<open>The packet \<^verbatim>\<open>M<address>,<length>:<bytes>\<close>.\<close>

definition write_packet :: "u64 \<Rightarrow> byte list \<Rightarrow> string" where
  "write_packet addr bs = ''M'' @ hex_of_nat (unat addr) @ '','' @ hex_of_nat (length bs) @ '':'' @ bytes_to_hex bs"

lemma bytes_to_hex_digits: "set (bytes_to_hex bs) \<subseteq> hex_digit ` {..<16}"
proof (induction bs)
  case (Cons b bs)
  have "unat b < 256" using unsigned_less [of b, where 'a = nat] by simp
  then have "unat b div 16 < 16" "unat b mod 16 < 16" by auto
  with Cons show ?case
    by (simp only: bytes_to_hex.simps hex_nibble_eq_hex_digit unat_high_nibble unat_low_nibble) auto
qed simp

lemma write_packet_parse:
  fixes addr :: u64 and bs :: "byte list"
  defines "p \<equiv> write_packet addr bs" and "s1 \<equiv> 1 + length (hex_of_nat (unat addr))"
  defines "s2 \<equiv> s1 + 1 + length (hex_of_nat (length bs))"
  assumes "length bs < 2 ^ 64"
  shows "find_char p CHR '','' 0 = Some s1" "find_char p CHR '':'' 0 = Some s2"
    "parse_hex_u64 p 1 s1 = Some addr" "parse_hex_u64 p (s1 + 1) s2 = Some (word_of_nat (length bs))"
    "drop (s2 + 1) p = bytes_to_hex bs" "\<not> s2 < s1"
proof -
  let ?mid = "''M'' @ hex_of_nat (unat addr) @ '',''"
  have u: "unat (word_of_nat (length bs) :: u64) = length bs"
    using assms by (simp add: unat_of_nat)
  have sep: "CHR '','' \<in> separators" "CHR '':'' \<in> separators" by (simp_all add: separators_def)
  show "find_char p CHR '','' 0 = Some s1"
    using find_char_field [OF sep(1), of "''M''" "unat addr" "hex_of_nat (length bs) @ '':'' @ bytes_to_hex bs"]
    by (simp add: p_def write_packet_def s1_def)
  show "find_char p CHR '':'' 0 = Some s2"
    using find_char_field [OF sep(2), of ?mid "length bs" "bytes_to_hex bs"] hex_of_nat_no_separator [OF sep(2)]
    by (simp add: p_def write_packet_def s1_def s2_def)
  show "parse_hex_u64 p 1 s1 = Some addr"
    using parse_field [of 1 "''M''" s1 addr "'','' @ hex_of_nat (length bs) @ '':'' @ bytes_to_hex bs"]
    by (simp add: p_def write_packet_def s1_def)
  show "parse_hex_u64 p (s1 + 1) s2 = Some (word_of_nat (length bs))"
    using parse_field [of "s1 + 1" ?mid s2 "word_of_nat (length bs)" "'':'' @ bytes_to_hex bs"] u
    by (simp add: p_def write_packet_def s1_def s2_def)
  have "p = (?mid @ hex_of_nat (length bs) @ '':'') @ bytes_to_hex bs"
    "s2 + 1 = length (?mid @ hex_of_nat (length bs) @ '':'')"
    by (simp_all add: p_def write_packet_def s1_def s2_def)
  then show "drop (s2 + 1) p = bytes_to_hex bs"
    by (metis append_eq_conv_conj)
  show "\<not> s2 < s1" by (simp add: s2_def)
qed

lemma handle_M: "handle fuel B (write_packet addr bs) = lift_reply (handle_memory_write B (write_packet addr bs))"
  by (simp add: handle_def write_packet_def)

lemma run_write_packet:
  assumes "h_attached w" "length bs \<le> unat kRspMaxMemory" "unat addr + length bs < 2 ^ 64"
    and "be_memory_write B (h_pid w) addr bs (w_backend w) = ((ok, written), b')"
  shows "run_state (handle fuel B (write_packet addr bs)) w =
    (if h_memory_maps_known w \<and> \<not> gdb_memory_range_mapped (h_memory_maps w) addr (word_of_nat (length bs))
     then (Some (err_packet 1), w)
     else (Some (if ok \<and> written = word_of_nat (length bs) then ''OK'' else err_packet 1),
       w\<lparr>w_backend := b', w_calls := w_calls w @ [CMemoryWrite (h_pid w) addr bs ok]\<rparr>))"
proof -
  have u: "unat (word_of_nat (length bs) :: u64) = length bs"
    using assms(3) by (simp add: unat_of_nat)
  have "\<not> addr > - 1 - word_of_nat (length bs)"
    using assms(3) u unfolding no_wrap_test by simp
  moreover have "\<not> word_of_nat (length bs) > kRspMaxMemory"
    using assms(2) u by (simp add: word_less_nat_alt)
  moreover have "length bs < 2 ^ 64"
    using assms(3) by simp
  note write_packet_parse [OF this, of addr]
  moreover have "hex_to_bytes (bytes_to_hex bs) (length bs) = Some bs"
    by (simp add: hex_to_bytes_def)
  ultimately show ?thesis
    unfolding handle_M lift_reply_def
    using assms(1,4) u
    by (auto simp: handle_memory_write_def write_bytes_def memory_write_def invoke_def Let_def)
qed

text \<open>
  A memory write is one write of exactly the given bytes. For a range inside the limits
  the bridge asks the backend once to write the bytes of the packet at the address of the
  packet in the attached process, and reports success exactly when the backend did and took
  all the bytes; when the maps are known and the range is not mapped, it answers with an
  error and makes no call at all.
\<close>

theorem memory_write_exact:
  assumes "h_attached w" "length bs \<le> unat kRspMaxMemory" "unat addr + length bs < 2 ^ 64"
    and "be_memory_write B (h_pid w) addr bs (w_backend w) = ((ok, written), b')"
  shows "run_state (handle fuel B (write_packet addr bs)) w =
    (if h_memory_maps_known w \<and> \<not> gdb_memory_range_mapped (h_memory_maps w) addr (word_of_nat (length bs))
     then (Some (err_packet 1), w)
     else (Some (if ok \<and> written = word_of_nat (length bs) then ''OK'' else err_packet 1),
       w\<lparr>w_backend := b', w_calls := w_calls w @ [CMemoryWrite (h_pid w) addr bs ok]\<rparr>))"
  using assms by (rule run_write_packet)

theorem memory_write_exact_witness:
  "fst (run_state (handle 0 mem_backend (write_packet 0x1000 [0xAB])) (mem_world [] ucast)) = Some ''OK''"
  using memory_write_exact [of "mem_world [] ucast" "[0xAB]" "0x1000" mem_backend True 1 "write_mem 0x1000 [0xAB] ucast" 0]
  by (simp add: mem_backend_def kRspMaxMemory_def)

text \<open>
  C40. A write under a software breakpoint is lost to the reader. With a breakpoint of the
  bridge at an address, a write of another byte to that address is acknowledged and reaches the
  target's memory, but the next read of the address still returns the byte recorded when the
  breakpoint was set, not the byte just written.
\<close>

theorem write_under_breakpoint_hidden:
  assumes "h_attached w" "distinct (map fst (h_sw_breakpoints w))" "map_of (h_sw_breakpoints w) a = Some orig"
    and "\<not> h_memory_maps_known w" "unat a + 1 < 2 ^ 64"
    and "be_memory_write B (h_pid w) a [v] (w_backend w) = ((True, 1), b')"
    and "reads_memory B (h_pid w) b' mem" "mem a = v" "v \<noteq> orig"
  shows "\<exists>w'. run_state (handle fuel B (write_packet a [v])) w = (Some ''OK'', w')
    \<and> fst (run_state (handle fuel B (read_packet a 1)) w') = Some (bytes_to_hex [orig])"
proof -
  let ?w = "w\<lparr>w_backend := b', w_calls := w_calls w @ [CMemoryWrite (h_pid w) a [v] True]\<rparr>"
  have "run_state (handle fuel B (write_packet a [v])) w = (Some ''OK'', ?w)"
    using run_write_packet [of w "[v]" a B True 1 b' fuel] assms(1,4,5,6) by (simp add: kRspMaxMemory_def)
  moreover have "\<exists>cs. run_state (handle_memory_read B (read_packet a 1)) ?w =
    (bytes_to_hex (map (\<lambda>i. masked (h_sw_breakpoints ?w) mem (a + word_of_nat i)) [0..<unat (1 :: u64)]), ?w\<lparr>w_calls := w_calls ?w @ cs\<rparr>)"
    using assms by (intro run_memory_read_packet) (simp_all add: kRspMaxMemory_def)
  ultimately show ?thesis
    using assms(3) by (auto simp: handle_m run_lift_reply masked_def)
qed

theorem write_under_breakpoint_hidden_witness:
  "\<exists>w'. run_state (handle 0 mem_backend (write_packet 0x1000 [0xAB])) (mem_world [(0x1000, 0x55)] (ucast(0x1000 := 0xCC)))
      = (Some ''OK'', w')
    \<and> fst (run_state (handle 0 mem_backend (read_packet 0x1000 1)) w') = Some (bytes_to_hex [0x55])"
  by (rule write_under_breakpoint_hidden
      [where v = "0xAB" and b' = "write_mem 0x1000 [0xAB] (ucast(0x1000 := 0xCC))"
        and mem = "write_mem 0x1000 [0xAB] (ucast(0x1000 := 0xCC))"])
    (simp_all add: mem_backend_def reads_memory_def write_mem_def)

end
