(* ===== verification/Scan_Plan.thy ===== *)
theory Scan_Plan
  imports Rsp_Protocol "HOL-Library.Product_Lexorder"
begin

text \<open>
  The planning of scan requests in the frontend: \<^verbatim>\<open>build_unknown_scan_units\<close>
  (\<^verbatim>\<open>src/frontend/src/screens/scanner/unknown_scan_plan.hpp\<close>), which cuts the readable
  maps into overlapping units of bounded size, and the map selection helpers of
  \<^verbatim>\<open>src/frontend/src/screens/processes/map_selection.hpp\<close>. Addresses are 64-bit words;
  the planning loop is a recursive function whose termination does not depend on its guard
  against a cursor that does not advance being unreachable. That it is unreachable is part
  of what is proved: the plan holds every value position of every readable map once.
\<close>

section \<open>Unknown-scan units\<close>

record scan_unit =
  su_start :: u64
  su_end :: u64

definition MEMDBG_SCAN_UNKNOWN_MAX_UNIT_BYTES :: u64 where
  "MEMDBG_SCAN_UNKNOWN_MAX_UNIT_BYTES = 8 * 1024 * 1024"

definition MEMDBG_MAP_PROT_READ :: u32 where
  "MEMDBG_MAP_PROT_READ = 1"

text \<open>
  The inner loop over one map, from the cursor to the end; \<^const>\<open>None\<close> is the error return
  for a cursor that does not advance. The test of the error return makes every recursive
  call move the cursor up, so the loop ends whatever its arguments are.
\<close>

function unit_loop :: "u32 \<Rightarrow> u64 \<Rightarrow> u64 \<Rightarrow> u64 \<Rightarrow> scan_unit list option" where
  "unit_loop value_size unit_budget e cursor =
     (if e - cursor \<ge> ucast value_size
      then let unit_end = (if unit_budget < e - cursor then cursor + unit_budget else e);
               u = \<lparr>su_start = cursor, su_end = unit_end\<rparr>
           in if unit_end = e then Some [u]
              else let next_cursor = unit_end - ucast (value_size - 1)
                   in if next_cursor \<le> cursor then None
                      else map_option ((#) u) (unit_loop value_size unit_budget e next_cursor)
      else Some [])"
  by pat_completeness auto

termination
proof (relation "measure (\<lambda>(value_size, unit_budget, e, cursor). 2 ^ 64 - unat cursor)", goal_cases)
  case 1
  then show ?case by simp
next
  case (2 value_size unit_budget e cursor unit_end u next_cursor)
  then have "cursor < next_cursor" by simp
  then have "unat cursor < unat next_cursor" by (simp add: word_less_nat_alt)
  moreover have "unat next_cursor < 2 ^ 64"
    using unsigned_less [of next_cursor, where 'a = nat] by simp
  ultimately show ?case by simp
qed

declare unit_loop.simps [simp del]

text \<open>The body of the loop over the maps: the map is skipped, or planned by the inner loop.\<close>

definition map_units :: "u64 \<Rightarrow> u64 \<Rightarrow> u32 \<Rightarrow> u64 \<Rightarrow> map_entry \<Rightarrow> scan_unit list option" where
  "map_units filter_start filter_end value_size unit_budget m =
     (if map_protection m AND MEMDBG_MAP_PROT_READ = 0 \<or> map_end m \<le> map_start m then Some []
      else let start = max (map_start m) filter_start;
               e = (if filter_end \<noteq> 0 then min (map_end m) filter_end else map_end m)
           in if e \<le> start \<or> e - start < ucast value_size then Some []
              else unit_loop value_size unit_budget e start)"

fun plan_maps :: "u64 \<Rightarrow> u64 \<Rightarrow> u32 \<Rightarrow> u64 \<Rightarrow> map_entry list \<Rightarrow> scan_unit list option" where
  "plan_maps filter_start filter_end value_size unit_budget [] = Some []"
| "plan_maps filter_start filter_end value_size unit_budget (m # maps) =
     (case map_units filter_start filter_end value_size unit_budget m of
        None \<Rightarrow> None
      | Some us \<Rightarrow> map_option ((@) us) (plan_maps filter_start filter_end value_size unit_budget maps))"

text \<open>The result is the error message or the units.\<close>

definition build_unknown_scan_units ::
    "map_entry list \<Rightarrow> u64 \<Rightarrow> u64 \<Rightarrow> u32 \<Rightarrow> u64 \<Rightarrow> string + scan_unit list" where
  "build_unknown_scan_units maps filter_start filter_end value_size unit_budget =
     (if value_size = 0 \<or> unit_budget < ucast value_size \<or>
         unit_budget > MEMDBG_SCAN_UNKNOWN_MAX_UNIT_BYTES
      then Inl ''invalid unknown-scan unit budget''
      else if filter_end \<noteq> 0 \<and> filter_end \<le> filter_start
      then Inl ''invalid unknown-scan address window''
      else case plan_maps filter_start filter_end value_size unit_budget
             (sort_key (\<lambda>m. (map_start m, map_end m)) maps) of
             None \<Rightarrow> Inl ''unknown-scan unit planning did not advance''
           | Some units \<Rightarrow> Inr units)"

section \<open>Map selection\<close>

text \<open>\<^verbatim>\<open>metadata.find(filter) != npos\<close>.\<close>

fun has_infix :: "string \<Rightarrow> string \<Rightarrow> bool" where
  "has_infix [] f = (f = [])"
| "has_infix (c # cs) f = (starts_with (c # cs) f \<or> has_infix cs f)"

definition map_matches_name_or_type :: "map_entry \<Rightarrow> string \<Rightarrow> bool" where
  "map_matches_name_or_type m f =
     has_infix (map tolower (map_name m @ '' '' @ map_type m)) (map tolower f)"

definition replace_map_selection_with_filtered ::
    "map_entry list \<Rightarrow> (map_entry \<Rightarrow> bool) \<Rightarrow> u64 set" where
  "replace_map_selection_with_filtered maps passes_filter =
     fold (\<lambda>m selected. if passes_filter m then insert (map_start m) selected else selected) maps {}"

text \<open>
  The inner loop of \<^verbatim>\<open>complete_protection_mask\<close>: the number of maps that match the mask,
  or \<^const>\<open>None\<close> when one of them is not selected.
\<close>

fun match_mask :: "u32 \<Rightarrow> u64 set \<Rightarrow> map_entry list \<Rightarrow> nat \<Rightarrow> nat option" where
  "match_mask prot selected [] matching = Some matching"
| "match_mask prot selected (m # maps) matching =
     (if map_end m \<le> map_start m \<or> map_protection m AND prot \<noteq> prot
      then match_mask prot selected maps matching
      else if map_start m \<notin> selected then None
      else match_mask prot selected maps (matching + 1))"

fun mask_loop :: "map_entry list \<Rightarrow> u64 set \<Rightarrow> nat \<Rightarrow> nat" where
  "mask_loop maps selected 0 = 0"
| "mask_loop maps selected (Suc k) =
     (if match_mask (word_of_nat (Suc k)) selected maps 0 = Some (card selected) then Suc k
      else mask_loop maps selected k)"

definition complete_protection_mask :: "map_entry list \<Rightarrow> u64 set \<Rightarrow> nat" where
  "complete_protection_mask maps selected = (if selected = {} then 0 else mask_loop maps selected 7)"

section \<open>The plan is exact\<close>

text \<open>
  A value of \<open>n\<close> bytes at the address \<open>a\<close> lies in a range of addresses; the part of a map
  that the address window leaves.
\<close>

definition value_in :: "nat \<Rightarrow> nat \<Rightarrow> nat \<Rightarrow> nat \<Rightarrow> bool" where
  "value_in n a lo hi \<longleftrightarrow> lo \<le> a \<and> a + n \<le> hi"

definition in_unit :: "nat \<Rightarrow> nat \<Rightarrow> scan_unit \<Rightarrow> bool" where
  "in_unit n a u \<longleftrightarrow> value_in n a (unat (su_start u)) (unat (su_end u))"

definition window_end :: "u64 \<Rightarrow> nat" where
  "window_end filter_end = (if filter_end = 0 then 2 ^ 64 else unat filter_end)"

definition scannable :: "u64 \<Rightarrow> u64 \<Rightarrow> nat \<Rightarrow> nat \<Rightarrow> map_entry \<Rightarrow> bool" where
  "scannable filter_start filter_end n a m \<longleftrightarrow>
     map_protection m AND MEMDBG_MAP_PROT_READ \<noteq> 0 \<and>
     value_in n a (unat (map_start m)) (unat (map_end m)) \<and>
     value_in n a (unat filter_start) (window_end filter_end)"

definition bounded_unit :: "nat \<Rightarrow> nat \<Rightarrow> scan_unit \<Rightarrow> bool" where
  "bounded_unit n budget u \<longleftrightarrow>
     unat (su_start u) + n \<le> unat (su_end u) \<and> unat (su_end u) \<le> unat (su_start u) + budget"

lemma unit_loop_exact:
  assumes "0 < value_size" and "ucast value_size \<le> unit_budget" and "cursor \<le> e"
  shows "\<exists>us. unit_loop value_size unit_budget e cursor = Some us \<and>
    (\<forall>u \<in> set us. bounded_unit (unat value_size) (unat unit_budget) u) \<and>
    (\<forall>a. length (filter (in_unit (unat value_size) a) us) =
       (if value_in (unat value_size) a (unat cursor) (unat e) then 1 else 0))"
  using assms
proof (induction value_size unit_budget e cursor rule: unit_loop.induct)
  case (1 n b e c)
  let ?n = "unat n" and ?b = "unat b" and ?c = "unat c" and ?e = "unat e"
  have ce: "?c \<le> ?e" and nb: "?n \<le> ?b" and n0: "0 < ?n"
    using "1.prems" by (simp_all add: word_le_nat_alt word_less_nat_alt unat_gt_0)
  have diff: "unat (e - c) = ?e - ?c"
    using "1.prems"(3) by (rule unat_sub)
  consider (short) "?e < ?c + ?n" | (last) "?c + ?n \<le> ?e" "?e \<le> ?c + ?b" | (cut) "?c + ?b < ?e"
    using nb by linarith
  then show ?case
  proof cases
    case short
    then have "\<not> ucast n \<le> e - c"
      using diff ce by (simp add: word_le_nat_alt)
    then have "unit_loop n b e c = Some []"
      by (subst unit_loop.simps) simp
    then show ?thesis
      using short by (simp add: value_in_def)
  next
    case last
    then have "ucast n \<le> e - c" "\<not> b < e - c"
      using diff ce by (simp_all add: word_le_nat_alt word_less_nat_alt)
    then have "unit_loop n b e c = Some [\<lparr>su_start = c, su_end = e\<rparr>]"
      by (subst unit_loop.simps) simp
    then show ?thesis
      using last by (simp add: value_in_def in_unit_def bounded_unit_def)
  next
    case cut
    let ?ue = "c + b" and ?u = "\<lparr>su_start = c, su_end = c + b\<rparr>"
    let ?x = "?ue - ucast (n - 1)"
    have e64: "?e < 2 ^ 64"
      using unsigned_less [of e, where 'a = nat] by simp
    have ue: "unat ?ue = ?c + ?b"
      using cut e64 by (simp add: unat_word_ariths)
    have ovl: "unat (ucast (n - 1) :: u64) = ?n - 1"
      using n0 by (simp add: unat_sub word_le_nat_alt)
    have x: "unat ?x = ?c + ?b - (?n - 1)"
      using ue ovl nb by (subst unat_sub) (simp_all add: word_le_nat_alt)
    have guard: "ucast n \<le> e - c" "b < e - c" "?ue \<noteq> e" "\<not> ?x \<le> c"
      using cut nb n0 diff ue x by (auto simp: word_le_nat_alt word_less_nat_alt)
    have step: "unit_loop n b e c = map_option ((#) ?u) (unit_loop n b e ?x)"
      using guard by (subst unit_loop.simps) (simp add: Let_def)
    have "?x \<le> e"
      using x cut by (simp add: word_le_nat_alt)
    with "1.IH" [of ?ue ?u ?x] guard "1.prems" obtain us where us: "unit_loop n b e ?x = Some us"
      "\<forall>u \<in> set us. bounded_unit ?n ?b u"
      "\<And>a. length (filter (in_unit ?n a) us) = (if value_in ?n a (unat ?x) ?e then 1 else 0)"
      by auto
    have "bounded_unit ?n ?b ?u"
      using ue nb by (simp add: bounded_unit_def)
    moreover have "length (filter (in_unit ?n a) (?u # us)) = (if value_in ?n a ?c ?e then 1 else 0)" for a
      using us(3) [of a] ue x cut nb n0 by (auto simp: in_unit_def value_in_def)
    ultimately show ?thesis
      using step us by auto
  qed
qed

lemma map_units_exact:
  assumes "0 < value_size" and "ucast value_size \<le> unit_budget"
  shows "\<exists>us. map_units fs fe value_size unit_budget m = Some us \<and>
    (\<forall>u \<in> set us. bounded_unit (unat value_size) (unat unit_budget) u) \<and>
    (\<forall>a. length (filter (in_unit (unat value_size) a) us) =
       (if scannable fs fe (unat value_size) a m then 1 else 0))"
proof -
  let ?n = "unat value_size"
  let ?s = "max (map_start m) fs"
  let ?e = "if fe \<noteq> 0 then min (map_end m) fe else map_end m"
  have n0: "0 < ?n"
    using assms by (simp add: unat_gt_0)
  have s: "unat ?s = max (unat (map_start m)) (unat fs)"
    by (simp add: max_def word_le_nat_alt)
  have e: "unat ?e = min (unat (map_end m)) (window_end fe)"
    using unsigned_less [of "map_end m", where 'a = nat]
    by (simp add: min_def word_le_nat_alt window_end_def)
  have scan: "scannable fs fe ?n a m \<longleftrightarrow>
      map_protection m AND MEMDBG_MAP_PROT_READ \<noteq> 0 \<and> value_in ?n a (unat ?s) (unat ?e)" for a
    unfolding s e by (auto simp: scannable_def value_in_def)
  show ?thesis
  proof (cases "map_protection m AND MEMDBG_MAP_PROT_READ = 0 \<or> map_end m \<le> map_start m")
    case True
    then have "\<not> scannable fs fe ?n a m" for a
      using n0 by (auto simp: scannable_def value_in_def word_le_nat_alt)
    then show ?thesis
      using True by (auto simp: map_units_def)
  next
    case readable: False
    show ?thesis
    proof (cases "?e \<le> ?s \<or> ?e - ?s < ucast value_size")
      case True
      then have "unat ?e < unat ?s + ?n"
      proof
        assume "?e - ?s < ucast value_size"
        then show ?thesis
          using n0 by (cases "?s \<le> ?e") (auto simp: word_less_nat_alt unat_sub word_le_nat_alt)
      qed (use n0 in \<open>simp add: word_le_nat_alt\<close>)
      then have "\<not> scannable fs fe ?n a m" for a
        unfolding scan by (simp add: value_in_def)
      then show ?thesis
        using True readable by (simp add: map_units_def Let_def)
    next
      case False
      then have "map_units fs fe value_size unit_budget m = unit_loop value_size unit_budget ?e ?s"
        using readable by (simp add: map_units_def Let_def)
      moreover have "?s \<le> ?e"
        using False linear by blast
      moreover have "map_protection m AND MEMDBG_MAP_PROT_READ \<noteq> 0"
        using readable by simp
      ultimately show ?thesis
        using unit_loop_exact [OF assms, of ?s ?e] unfolding scan by simp
    qed
  qed
qed

lemma plan_maps_exact:
  assumes "0 < value_size" and "ucast value_size \<le> unit_budget"
  shows "\<exists>us. plan_maps fs fe value_size unit_budget maps = Some us \<and>
    (\<forall>u \<in> set us. bounded_unit (unat value_size) (unat unit_budget) u) \<and>
    (\<forall>a. length (filter (in_unit (unat value_size) a) us) =
       length (filter (scannable fs fe (unat value_size) a) maps))"
proof (induction maps)
  case Nil
  then show ?case by simp
next
  case (Cons m maps)
  with map_units_exact [OF assms, of fs fe m] show ?case
    by fastforce
qed

lemma length_filter_sort_key: "length (filter P (sort_key f xs)) = length (filter P xs)"
  by (simp add: filter_sort)

text \<open>
  C30. The unknown-scan plan is exact. For a value size of at least one byte that fits into the
  unit budget, and an address window that is not empty, planning succeeds: the error return
  for a cursor that does not advance is never taken. Every unit holds at least one value and
  is no longer than the budget, and an address is the start of a value inside a unit exactly
  as often as it is the start of a value inside a readable map and the window, so nothing is
  missed at the seams between units and nothing is scanned twice.
\<close>

theorem unknown_scan_plan_exact:
  assumes "value_size \<noteq> 0" and "ucast value_size \<le> unit_budget"
    and "unit_budget \<le> MEMDBG_SCAN_UNKNOWN_MAX_UNIT_BYTES"
    and "filter_end = 0 \<or> filter_start < filter_end"
  shows "\<exists>units. build_unknown_scan_units maps filter_start filter_end value_size unit_budget = Inr units \<and>
    (\<forall>u \<in> set units. bounded_unit (unat value_size) (unat unit_budget) u) \<and>
    (\<forall>a. length (filter (in_unit (unat value_size) a) units) =
       length (filter (scannable filter_start filter_end (unat value_size) a) maps))"
proof -
  from assms(1) have "0 < value_size"
    by (simp add: word_neq_0_conv)
  then show ?thesis
    using plan_maps_exact [OF _ assms(2), of filter_start filter_end
        "sort_key (\<lambda>m. (map_start m, map_end m)) maps"] assms
    by (auto simp: build_unknown_scan_units_def length_filter_sort_key)
qed

theorem unknown_scan_plan_exact_witness:
  "\<exists>units. build_unknown_scan_units
     [\<lparr>map_start = 0x1000, map_end = 0x1014, map_protection = 3, map_flags = 0, map_name = [], map_type = []\<rparr>]
     0 0 4 8 = Inr units \<and>
    (\<forall>u \<in> set units. bounded_unit 4 8 u) \<and>
    (\<forall>a. length (filter (in_unit 4 a) units) = length (filter (scannable 0 0 4 a)
     [\<lparr>map_start = 0x1000, map_end = 0x1014, map_protection = 3, map_flags = 0, map_name = [], map_type = []\<rparr>]))"
  using unknown_scan_plan_exact [where value_size = 4 and unit_budget = 8 and filter_start = 0 and filter_end = 0
      and maps = "[\<lparr>map_start = 0x1000, map_end = 0x1014, map_protection = 3, map_flags = 0, map_name = [], map_type = []\<rparr>]"]
  by (simp add: MEMDBG_SCAN_UNKNOWN_MAX_UNIT_BYTES_def)

section \<open>A selection by protection\<close>

text \<open>The start addresses of the maps a scan by protection mask covers.\<close>

definition mask_starts :: "map_entry list \<Rightarrow> nat \<Rightarrow> u64 set" where
  "mask_starts maps k = map_start ` {m \<in> set maps. map_start m < map_end m \<and>
     map_protection m AND word_of_nat k = word_of_nat k}"

lemma match_mask_eq:
  "match_mask prot selected maps k =
     (let ms = filter (\<lambda>m. map_start m < map_end m \<and> map_protection m AND prot = prot) maps
      in if map_start ` set ms \<subseteq> selected then Some (k + length ms) else None)"
  by (induction maps arbitrary: k) (auto simp: Let_def not_le)

lemma match_mask_iff:
  assumes "distinct (map map_start (filter (\<lambda>m. map_start m < map_end m) maps))" and "finite selected"
  shows "match_mask (word_of_nat k) selected maps 0 = Some (card selected) \<longleftrightarrow> mask_starts maps k = selected"
proof -
  define ms where "ms = filter (\<lambda>m. map_start m < map_end m \<and>
    map_protection m AND word_of_nat k = word_of_nat k) maps"
  have starts: "map_start ` set ms = mask_starts maps k"
    by (auto simp: ms_def mask_starts_def)
  have "ms = filter (\<lambda>m. map_protection m AND word_of_nat k = word_of_nat k)
      (filter (\<lambda>m. map_start m < map_end m) maps)"
    by (simp add: ms_def conj_commute)
  with assms(1) have "distinct (map map_start ms)"
    by (simp only: distinct_map_filter)
  then have "length ms = card (mask_starts maps k)"
    by (metis distinct_card length_map list.set_map starts)
  then show ?thesis
    using assms(2) card_subset_eq [of selected "mask_starts maps k"]
    by (auto simp: match_mask_eq Let_def ms_def [symmetric] starts)
qed

lemma mask_loop_cases:
  assumes "distinct (map map_start (filter (\<lambda>m. map_start m < map_end m) maps))" and "finite selected"
  shows "mask_loop maps selected n \<le> n \<and>
    (mask_loop maps selected n \<noteq> 0 \<longrightarrow> mask_starts maps (mask_loop maps selected n) = selected) \<and>
    (\<forall>k. mask_loop maps selected n < k \<and> k \<le> n \<longrightarrow> mask_starts maps k \<noteq> selected)"
  by (induction n) (auto simp: match_mask_iff [OF assms] simp del: of_nat_Suc dest: le_SucE)

lemma mask_loop_numeral [simp]:
  "mask_loop maps selected (numeral v) =
     (if match_mask (numeral v) selected maps 0 = Some (card selected) then numeral v
      else mask_loop maps selected (pred_numeral v))"
  by (metis mask_loop.simps(2) numeral_eq_Suc of_nat_numeral)

text \<open>
  A selection of maps is turned into a protection mask only when the two cover the same
  maps. When the maps that are not empty have distinct start addresses, a mask other than 0
  selects exactly the chosen maps and is the largest that does, and 0 means that no mask
  from 1 to 7 does.
\<close>

theorem protection_mask_exact:
  assumes "distinct (map map_start (filter (\<lambda>m. map_start m < map_end m) maps))"
    and "finite selected" and "selected \<noteq> {}"
  shows "complete_protection_mask maps selected \<le> 7 \<and>
    (complete_protection_mask maps selected \<noteq> 0 \<longrightarrow>
       mask_starts maps (complete_protection_mask maps selected) = selected) \<and>
    (\<forall>k. complete_protection_mask maps selected < k \<and> k \<le> 7 \<longrightarrow> mask_starts maps k \<noteq> selected)"
  using mask_loop_cases [OF assms(1,2), of 7] assms(3) by (simp add: complete_protection_mask_def)

theorem protection_mask_exact_witness:
  "complete_protection_mask
     [\<lparr>map_start = 0x1000, map_end = 0x2000, map_protection = 5, map_flags = 0, map_name = [], map_type = []\<rparr>,
      \<lparr>map_start = 0x2000, map_end = 0x3000, map_protection = 3, map_flags = 0, map_name = [], map_type = []\<rparr>]
     {0x1000} = 5 \<and>
   mask_starts
     [\<lparr>map_start = 0x1000, map_end = 0x2000, map_protection = 5, map_flags = 0, map_name = [], map_type = []\<rparr>,
      \<lparr>map_start = 0x2000, map_end = 0x3000, map_protection = 3, map_flags = 0, map_name = [], map_type = []\<rparr>]
     5 = {0x1000}"
  using protection_mask_exact [of
     "[\<lparr>map_start = 0x1000, map_end = 0x2000, map_protection = 5, map_flags = 0, map_name = [], map_type = []\<rparr>,
      \<lparr>map_start = 0x2000, map_end = 0x3000, map_protection = 3, map_flags = 0, map_name = [], map_type = []\<rparr>]"
     "{0x1000}"]
  by (simp add: complete_protection_mask_def)

end
