(* ===== verification/Structure_Compare.thy ===== *)
theory Structure_Compare
  imports Memdbg_Prelude
begin

text \<open>
  The structure comparison engine of the frontend
  (\<^verbatim>\<open>src/frontend/src/scanner/structure_compare.cpp\<close> and the helpers of
  \<^verbatim>\<open>src/frontend/src/screens/scanner/scanner_compare.cpp\<close>): snapshots of a player and of
  one or two enemies are cut into fields, and each field is labelled.
\<close>

datatype structure_field_relation =
    Common | PlayerVsEnemies | EnemyAOutlier | EnemyBOutlier | AllDifferent | Different

record structure_compare_field =
  scf_offset :: u32
  scf_player :: "byte list"
  scf_enemy_a :: "byte list"
  scf_enemy_b :: "byte list"
  scf_relation :: structure_field_relation

text \<open>\<^verbatim>\<open>MEMDBG_VALUE_*\<close> as the frontend numbers the value types.\<close>

definition structure_field_width :: "int \<Rightarrow> nat" where
  "structure_field_width value_type =
     (if value_type = 1 then 1
      else if value_type = 2 then 2
      else if value_type = 3 \<or> value_type = 5 then 4
      else if value_type = 4 \<or> value_type = 6 \<or> value_type = 7 then 8
      else 0)"

fun structure_relation_name :: "structure_field_relation \<Rightarrow> string" where
  "structure_relation_name Common = ''Common''"
| "structure_relation_name PlayerVsEnemies = ''Player vs enemies''"
| "structure_relation_name EnemyAOutlier = ''Enemy A outlier''"
| "structure_relation_name EnemyBOutlier = ''Enemy B outlier''"
| "structure_relation_name AllDifferent = ''All different''"
| "structure_relation_name Different = ''Different''"

text \<open>One round of the loop of \<^verbatim>\<open>StructureCompareEngine::compare\<close>.\<close>

definition compare_field ::
    "byte list \<Rightarrow> byte list \<Rightarrow> byte list \<Rightarrow> nat \<Rightarrow> nat \<Rightarrow> structure_compare_field" where
  "compare_field player enemy_a enemy_b field_width offset =
     (let p = substr player offset (offset + field_width);
          a = substr enemy_a offset (offset + field_width);
          player_eq_a = (p = a)
      in if enemy_b = []
         then \<lparr>scf_offset = word_of_nat offset, scf_player = p, scf_enemy_a = a, scf_enemy_b = [],
               scf_relation = (if player_eq_a then Common else Different)\<rparr>
         else let b = substr enemy_b offset (offset + field_width);
                  player_eq_b = (p = b);
                  enemies_match = (a = b)
              in \<lparr>scf_offset = word_of_nat offset, scf_player = p, scf_enemy_a = a, scf_enemy_b = b,
                  scf_relation = (if player_eq_a \<and> enemies_match then Common
                    else if enemies_match then PlayerVsEnemies
                    else if player_eq_a then EnemyBOutlier
                    else if player_eq_b then EnemyAOutlier
                    else AllDifferent)\<rparr>)"

text \<open>The loop; the caller has checked that the width is not 0.\<close>

function compare_loop ::
    "byte list \<Rightarrow> byte list \<Rightarrow> byte list \<Rightarrow> nat \<Rightarrow> nat \<Rightarrow> structure_compare_field list" where
  "compare_loop player enemy_a enemy_b field_width offset =
     (if 0 < field_width \<and> offset + field_width \<le> length player
      then compare_field player enemy_a enemy_b field_width offset #
           compare_loop player enemy_a enemy_b field_width (offset + field_width)
      else [])"
  by pat_completeness auto

termination
  by (relation "measure (\<lambda>(player, _, _, _, offset). length player - offset)") auto

declare compare_loop.simps [simp del]

definition structure_compare ::
    "byte list \<Rightarrow> byte list \<Rightarrow> byte list \<Rightarrow> nat \<Rightarrow> structure_compare_field list" where
  "structure_compare player enemy_a enemy_b field_width =
     (if field_width = 0 \<or> player = [] \<or> length player \<noteq> length enemy_a \<or>
         (enemy_b \<noteq> [] \<and> length player \<noteq> length enemy_b) \<or>
         length player mod field_width \<noteq> 0
      then []
      else compare_loop player enemy_a enemy_b field_width 0)"

text \<open>
  The task started by \<^verbatim>\<open>start_structure_compare\<close>: the snapshots are read one after the
  other and compared. The client's \<^verbatim>\<open>memory_read\<close> is a parameter; its error text is the
  second one.
\<close>

definition structure_compare_task ::
    "(u64 \<Rightarrow> nat \<Rightarrow> byte list option) \<Rightarrow> string \<Rightarrow> u64 \<Rightarrow> u64 \<Rightarrow> u64 \<Rightarrow> bool \<Rightarrow> nat \<Rightarrow> nat \<Rightarrow>
     string + structure_compare_field list" where
  "structure_compare_task memory_read last_error player_base enemy_a_base enemy_b_base has_enemy_b
     read_size field_width =
     (let checked = (\<lambda>base. case memory_read base read_size of
            Some bs \<Rightarrow> if length bs = read_size then Some bs else None | None \<Rightarrow> None)
      in case checked player_base of
           None \<Rightarrow> Inl (''Could not read player structure: '' @ last_error)
         | Some player \<Rightarrow> (case checked enemy_a_base of
             None \<Rightarrow> Inl (''Could not read enemy A structure: '' @ last_error)
           | Some enemy_a \<Rightarrow> (case (if has_enemy_b then checked enemy_b_base else Some []) of
               None \<Rightarrow> Inl (''Could not read enemy B structure: '' @ last_error)
             | Some enemy_b \<Rightarrow>
                 (let fields = structure_compare player enemy_a enemy_b field_width
                  in if fields = [] then Inl ''Could not split the captured structures into fields''
                     else Inr fields))))"

section \<open>The fields partition the snapshots and are labelled by equality\<close>

text \<open>What a label says of the three byte groups, independently of the order of the tests.\<close>

definition labelled :: "bool \<Rightarrow> structure_compare_field \<Rightarrow> bool" where
  "labelled three f \<longleftrightarrow>
     (let p = scf_player f; a = scf_enemy_a f; b = scf_enemy_b f; r = scf_relation f
      in if three
         then (r = Common \<longleftrightarrow> p = a \<and> p = b) \<and> (r = PlayerVsEnemies \<longleftrightarrow> a = b \<and> p \<noteq> a) \<and>
              (r = EnemyAOutlier \<longleftrightarrow> p = b \<and> a \<noteq> p) \<and> (r = EnemyBOutlier \<longleftrightarrow> p = a \<and> b \<noteq> p) \<and>
              (r = AllDifferent \<longleftrightarrow> distinct [p, a, b])
         else (r = Common \<longleftrightarrow> p = a) \<and> (r = Different \<longleftrightarrow> p \<noteq> a))"

lemma compare_field_labelled: "labelled (enemy_b \<noteq> []) (compare_field player enemy_a enemy_b w off)"
  by (auto simp: labelled_def compare_field_def Let_def)

lemma drop_substr: "substr xs off (off + w) @ drop (off + w) xs = drop off xs"
  by (metis add_diff_cancel_left' append_take_drop_id drop_drop add.commute substr_def)

lemma compare_loop_partition:
  assumes "0 < w" and "w dvd length player - off" and "length enemy_a = length player"
    and "enemy_b = [] \<or> length enemy_b = length player"
  shows "concat (map scf_player (compare_loop player enemy_a enemy_b w off)) = drop off player \<and>
    concat (map scf_enemy_a (compare_loop player enemy_a enemy_b w off)) = drop off enemy_a \<and>
    concat (map scf_enemy_b (compare_loop player enemy_a enemy_b w off)) = drop off enemy_b \<and>
    (\<forall>f \<in> set (compare_loop player enemy_a enemy_b w off).
       length (scf_player f) = w \<and> labelled (enemy_b \<noteq> []) f)"
  using assms
proof (induction player enemy_a enemy_b w off rule: compare_loop.induct)
  case (1 player enemy_a enemy_b w off)
  show ?case
  proof (cases "off + w \<le> length player")
    case True
    then have dvd: "w dvd length player - (off + w)"
      using "1.prems"(2) by (metis diff_diff_left dvd_diff_nat dvd_refl)
    have step: "compare_loop player enemy_a enemy_b w off =
        compare_field player enemy_a enemy_b w off # compare_loop player enemy_a enemy_b w (off + w)"
      using True "1.prems"(1) by (subst compare_loop.simps) simp
    note IH = "1.IH" [OF conjI [OF "1.prems"(1) True] "1.prems"(1) dvd "1.prems"(3,4)]
    have "scf_player (compare_field player enemy_a enemy_b w off) = substr player off (off + w)"
      "scf_enemy_a (compare_field player enemy_a enemy_b w off) = substr enemy_a off (off + w)"
      "scf_enemy_b (compare_field player enemy_a enemy_b w off) = substr enemy_b off (off + w)"
      by (auto simp: compare_field_def Let_def substr_def)
    then show ?thesis
      unfolding step using IH True
      by (simp add: drop_substr compare_field_labelled)
  next
    case False
    have "length player \<le> off"
    proof (rule ccontr)
      assume "\<not> length player \<le> off"
      then have "w \<le> length player - off"
        using "1.prems"(2) by (simp add: dvd_imp_le)
      then show False using False \<open>\<not> length player \<le> off\<close> by linarith
    qed
    moreover have "compare_loop player enemy_a enemy_b w off = []"
      using False by (subst compare_loop.simps) simp
    ultimately show ?thesis
      using "1.prems" by auto
  qed
qed

lemma compare_loop_offsets:
  "0 < w \<Longrightarrow> i < length (compare_loop player enemy_a enemy_b w off) \<Longrightarrow>
   scf_offset (compare_loop player enemy_a enemy_b w off ! i) = word_of_nat (off + i * w)"
proof (induction player enemy_a enemy_b w off arbitrary: i rule: compare_loop.induct)
  case (1 player enemy_a enemy_b w off)
  show ?case
  proof (cases "off + w \<le> length player")
    case True
    then have step: "compare_loop player enemy_a enemy_b w off =
        compare_field player enemy_a enemy_b w off # compare_loop player enemy_a enemy_b w (off + w)"
      using "1.prems"(1) by (subst compare_loop.simps) simp
    show ?thesis
    proof (cases i)
      case 0
      then show ?thesis by (simp add: step compare_field_def Let_def)
    next
      case (Suc j)
      then show ?thesis
        using "1.IH" [of j] "1.prems" True by (simp add: step algebra_simps)
    qed
  next
    case False
    then have "compare_loop player enemy_a enemy_b w off = []"
      by (subst compare_loop.simps) simp
    with "1.prems"(2) show ?thesis by simp
  qed
qed

text \<open>
  The comparison loses and mixes no byte. For snapshots of equal size that the field width
  divides, the fields in order concatenate to each of the snapshots, every field is as wide as
  asked, the field number \<open>i\<close> carries the offset \<open>i\<close> times the width, and its label says
  exactly which of the byte groups are equal.
\<close>

theorem structure_compare_exact:
  assumes "0 < w" and "player \<noteq> []" and "w dvd length player" and "length enemy_a = length player"
    and "enemy_b = [] \<or> length enemy_b = length player"
  shows "concat (map scf_player (structure_compare player enemy_a enemy_b w)) = player \<and>
    concat (map scf_enemy_a (structure_compare player enemy_a enemy_b w)) = enemy_a \<and>
    concat (map scf_enemy_b (structure_compare player enemy_a enemy_b w)) = enemy_b \<and>
    (\<forall>f \<in> set (structure_compare player enemy_a enemy_b w).
       length (scf_player f) = w \<and> labelled (enemy_b \<noteq> []) f) \<and>
    (\<forall>i < length (structure_compare player enemy_a enemy_b w).
       scf_offset (structure_compare player enemy_a enemy_b w ! i) = word_of_nat (i * w))"
proof -
  have "structure_compare player enemy_a enemy_b w = compare_loop player enemy_a enemy_b w 0"
    using assms by (auto simp: structure_compare_def dvd_imp_mod_0)
  then show ?thesis
    using compare_loop_partition [of w player 0 enemy_a enemy_b]
      compare_loop_offsets [of w _ player enemy_a enemy_b 0] assms by simp
qed

theorem structure_compare_exact_witness:
  "concat (map scf_player (structure_compare [1, 2, 3, 4] [1, 2, 5, 6] [1, 2, 5, 6 :: byte] 2)) = [1, 2, 3, 4]"
  using structure_compare_exact [of 2 "[1, 2, 3, 4]" "[1, 2, 5, 6]" "[1, 2, 5, 6]"] by simp

end
