(* ===== verification/Wire_Parsers.thy ===== *)
theory Wire_Parsers
  imports Rsp_Protocol
begin

text \<open>
  The process list and the memory maps on the wire: the payloads built by the daemon
  (\<^verbatim>\<open>src/src/core/daemon/handlers/process.c\<close>) from its packed structs
  (\<^verbatim>\<open>memdbg_protocol.h\<close>), and the parsers of the client
  (\<^verbatim>\<open>src/frontend/src/core/client/process_list_parser.hpp\<close>,
  \<^verbatim>\<open>process_maps_parser.hpp\<close>). The process list parser decodes the payload in the current
  and in the legacy record layout and keeps the more plausible result; it is shown to decide
  correctly for every well-formed list in either layout.
\<close>

section \<open>Fields and records\<close>

datatype memdbg_status =
    MEMDBG_OK | MEMDBG_ERR_PARAM | MEMDBG_ERR_NOMEM | MEMDBG_ERR_IO | MEMDBG_ERR_NET
  | MEMDBG_ERR_PROTOCOL | MEMDBG_ERR_UNSUPPORTED | MEMDBG_ERR_NOT_FOUND | MEMDBG_ERR_PERMISSION
  | MEMDBG_ERR_OVERFLOW | MEMDBG_ERR_STATE

record wire_process =
  wp_pid :: int
  wp_ppid :: int
  wp_name :: "byte list"

record wire_map =
  wm_start :: u64
  wm_end :: u64
  wm_protection :: u32
  wm_flags :: u32
  wm_name :: "byte list"

definition process_bytes :: "wire_process \<Rightarrow> byte list" where
  "process_bytes w = put_i32 (wp_pid w) @ put_i32 (wp_ppid w) @ wp_name w"

definition map_bytes :: "wire_map \<Rightarrow> byte list" where
  "map_bytes w = le_bytes 8 (wm_start w) @ le_bytes 8 (wm_end w) @ put_u32 (wm_protection w) @
     put_u32 (wm_flags w) @ wm_name w"

section \<open>The daemon\<close>

text \<open>
  The payload of the response, from the enumeration's result and whether \<^verbatim>\<open>malloc\<close>
  succeeds. \<open>entry_size\<close> is \<^verbatim>\<open>sizeof\<close> of the record, and sizes are computed in
  \<^verbatim>\<open>size_t\<close>.
\<close>

definition size_t_max :: nat where
  "size_t_max = 2 ^ 64"

definition list_payload :: "nat \<Rightarrow> ('a \<Rightarrow> byte list) \<Rightarrow> 'a list \<Rightarrow> byte list" where
  "list_payload entry_size enc xs = put_u32 (word_of_nat (length xs)) @
     (if length xs * entry_size mod size_t_max \<noteq> 0 then concat (map enc xs) else [])"

definition handle_process_list :: "memdbg_status + wire_process list \<Rightarrow> bool \<Rightarrow> memdbg_status + byte list" where
  "handle_process_list enumeration malloc_ok =
     (case enumeration of Inl st \<Rightarrow> Inl st
      | Inr xs \<Rightarrow>
        (let entries_size = length xs * 56 mod size_t_max;
             payload_len = (4 + entries_size) mod size_t_max
         in if length xs > 2 ^ 32 - 1 \<or> entries_size div 56 \<noteq> length xs \<or> payload_len > 2 ^ 32 - 1
            then Inl MEMDBG_ERR_OVERFLOW
            else if \<not> malloc_ok then Inl MEMDBG_ERR_NOMEM
            else Inr (list_payload 56 process_bytes xs)))"

definition MEMDBG_PROTOCOL_MAX_PACKET :: nat where
  "MEMDBG_PROTOCOL_MAX_PACKET = 1024 * 1024"

definition MEMDBG_PROTOCOL_MAX_MAP_RESPONSE :: nat where
  "MEMDBG_PROTOCOL_MAX_MAP_RESPONSE = 8 * 1024 * 1024"

definition handle_process_maps :: "memdbg_status + wire_map list \<Rightarrow> bool \<Rightarrow> memdbg_status + byte list" where
  "handle_process_maps enumeration malloc_ok =
     (case enumeration of Inl st \<Rightarrow> Inl st
      | Inr xs \<Rightarrow>
        (let entries_size = length xs * 88 mod size_t_max;
             payload_len = (4 + entries_size) mod size_t_max
         in if length xs > 2 ^ 32 - 1 \<or> entries_size div 88 \<noteq> length xs \<or> payload_len > 2 ^ 32 - 1 \<or>
               payload_len > MEMDBG_PROTOCOL_MAX_MAP_RESPONSE
            then Inl MEMDBG_ERR_OVERFLOW
            else if \<not> malloc_ok then Inl MEMDBG_ERR_NOMEM
            else Inr (list_payload 88 map_bytes xs)))"

section \<open>The process list parser\<close>

definition kLegacyProcessEntrySize :: nat where
  "kLegacyProcessEntrySize = 52"

text \<open>The text of a fixed-size field up to its first NUL.\<close>

definition process_wire_string :: "byte list \<Rightarrow> string" where
  "process_wire_string data = map char_of_byte (takeWhile (\<lambda>b. b \<noteq> 0) data)"

definition process_name_is_plausible :: "string \<Rightarrow> bool" where
  "process_name_is_plausible name \<longleftrightarrow>
     name \<noteq> [] \<and> (\<forall>c \<in> set name. \<not> (char_code c < 0x20 \<or> char_code c = 0x7f))"

definition decode_record :: "byte list \<Rightarrow> bool \<Rightarrow> process_entry" where
  "decode_record cursor current =
     (if current
      then \<lparr>pe_pid = get_i32 cursor 0, pe_ppid = get_i32 cursor 4,
            pe_name = process_wire_string (substr cursor 8 56)\<rparr>
      else \<lparr>pe_pid = get_i32 cursor 0, pe_ppid = 0,
            pe_name = process_wire_string (substr cursor 4 52)\<rparr>)"

text \<open>The loop over the records, from the record number \<open>i\<close> on.\<close>

fun decode_records :: "byte list \<Rightarrow> nat \<Rightarrow> bool \<Rightarrow> nat list \<Rightarrow> int set \<Rightarrow> int \<times> process_entry list" where
  "decode_records payload stride current [] seen_pids = (0, [])"
| "decode_records payload stride current (i # is) seen_pids =
     (let entry = decode_record (drop (i * stride) payload) current
      in if pe_pid entry \<le> 0
         then (case decode_records payload stride current is seen_pids of (score, entries) \<Rightarrow>
                (score - 6, entries))
         else let s = (if pe_pid entry \<le> 0x00ffffff then 3 else - 8)
                    + (if pe_pid entry \<notin> seen_pids then 1 else - 3)
                    + (if process_name_is_plausible (pe_name entry) then 4 else - 4);
                  entry' = (if pe_name entry = []
                            then entry\<lparr>pe_name := ''pid '' @ dec_of_int (pe_pid entry)\<rparr> else entry)
              in (case decode_records payload stride current is (insert (pe_pid entry) seen_pids) of
                    (score, entries) \<Rightarrow> (s + score, entry' # entries)))"

record process_list_candidate =
  plc_entries :: "process_entry list"
  plc_score :: int
  plc_complete :: bool

definition decode_process_candidate :: "byte list \<Rightarrow> nat \<Rightarrow> nat \<Rightarrow> bool \<Rightarrow> process_list_candidate" where
  "decode_process_candidate payload declared_count stride current =
     (let available_count = length payload div stride;
          decode_count = min declared_count available_count;
          complete = (decode_count = declared_count \<and> length payload = decode_count * stride)
      in case decode_records payload stride current [0..<decode_count] {} of (score, entries) \<Rightarrow>
           \<lparr>plc_entries = entries,
            plc_score = score + (if complete then 4 else 0) + int (length entries),
            plc_complete = complete\<rparr>)"

definition kMaxProcessEntries :: nat where
  "kMaxProcessEntries = (MEMDBG_PROTOCOL_MAX_PACKET - 4) div kLegacyProcessEntrySize"

definition parse_process_list_response :: "byte list \<Rightarrow> string + process_entry list" where
  "parse_process_list_response response =
     (if length response < 4 then Inl ''short process list response''
      else let count = unat (get_u32 response 0)
      in if count > kMaxProcessEntries then Inl ''process list response has an invalid item count''
      else let payload = drop 4 response;
               payload_size = length response - 4;
               current_expected = count * 56;
               legacy_expected = count * kLegacyProcessEntrySize
      in if payload_size \<noteq> current_expected \<and> payload_size \<noteq> legacy_expected
         then Inl (if payload_size < current_expected \<and> payload_size < legacy_expected
                   then ''truncated process list response''
                   else ''process list response has an unsupported record size'')
      else let current = decode_process_candidate payload count 56 True;
               legacy = decode_process_candidate payload count kLegacyProcessEntrySize False;
               best = (if plc_score current > plc_score legacy then current else legacy)
      in if plc_entries best = [] \<and> count \<noteq> 0
         then Inl ''process list response did not contain valid records''
         else Inr (plc_entries best))"

section \<open>The process map parser\<close>

definition map_type_name :: "u32 \<Rightarrow> string" where
  "map_type_name flags =
     (let t = unat (drop_bit 24 (flags AND 0xff000000))
      in if t = 0 then ''untyped'' else if t = 1 then ''default'' else if t = 2 then ''file''
         else if t = 3 then ''swap'' else if t = 4 then ''device'' else if t = 5 then ''physical''
         else if t = 6 then ''dead'' else if t = 7 then ''scatter/gather''
         else if t = 8 then ''managed device'' else ''unknown'')"

definition map_wire_string :: "byte list \<Rightarrow> string" where
  "map_wire_string data = map char_of_byte (takeWhile (\<lambda>b. b \<noteq> 0) data)"

text \<open>The record that the loop copies out of the response, and the entry made from it.\<close>

definition wire_map_at :: "byte list \<Rightarrow> nat \<Rightarrow> wire_map" where
  "wire_map_at bs off =
     \<lparr>wm_start = get_u64 bs off, wm_end = get_u64 bs (off + 8), wm_protection = get_u32 bs (off + 16),
      wm_flags = get_u32 bs (off + 20), wm_name = substr bs (off + 24) (off + 88)\<rparr>"

definition map_of_wire :: "wire_map \<Rightarrow> map_entry" where
  "map_of_wire w =
     (let t = map_type_name (wm_flags w); n = map_wire_string (wm_name w)
      in \<lparr>map_start = wm_start w, map_end = wm_end w, map_protection = wm_protection w AND 7,
          map_flags = wm_flags w, map_name = (if n = [] then ''['' @ t @ '']'' else n), map_type = t\<rparr>)"

definition kMaxMapEntries :: nat where
  "kMaxMapEntries = (MEMDBG_PROTOCOL_MAX_MAP_RESPONSE - 4) div 88"

definition parse_process_maps_response :: "byte list \<Rightarrow> string + map_entry list" where
  "parse_process_maps_response response =
     (if length response < 4 then Inl ''short map response''
      else let count = unat (get_u32 response 0)
      in if count > kMaxMapEntries then Inl ''map response has an invalid item count''
      else let expected = 4 + count * 88
      in if length response \<noteq> expected
         then Inl (if length response < expected then ''truncated map response''
                   else ''map response has trailing data'')
      else Inr (map map_of_wire (filter (\<lambda>w. \<not> wm_end w \<le> wm_start w)
                  (map (\<lambda>i. wire_map_at response (4 + i * 88)) [0..<count]))))"

section \<open>Maps\<close>

lemma length_map_bytes: "length (wm_name w) = 64 \<Longrightarrow> length (map_bytes w) = 88"
  by (simp add: map_bytes_def)

lemma wire_map_at_bytes:
  assumes "length pre = off" and "length (wm_name w) = 64"
  shows "wire_map_at (pre @ map_bytes w @ post) off = w"
proof -
  have "get_u64 (pre @ map_bytes w @ post) off = wm_start w"
    using assms get_put_u64 [of pre off] by (simp add: map_bytes_def)
  moreover have "get_u64 (pre @ map_bytes w @ post) (off + 8) = wm_end w"
    using assms get_put_u64 [of "pre @ le_bytes 8 (wm_start w)" "off + 8"] by (simp add: map_bytes_def)
  moreover have "get_u32 (pre @ map_bytes w @ post) (off + 16) = wm_protection w"
    using assms get_put_u32 [of "pre @ le_bytes 8 (wm_start w) @ le_bytes 8 (wm_end w)" "off + 16"]
    by (simp add: map_bytes_def)
  moreover have "get_u32 (pre @ map_bytes w @ post) (off + 20) = wm_flags w"
    using assms get_put_u32 [of "pre @ le_bytes 8 (wm_start w) @ le_bytes 8 (wm_end w) @
      put_u32 (wm_protection w)" "off + 20"]
    by (simp add: map_bytes_def)
  moreover have "substr (pre @ map_bytes w @ post) (off + 24) (off + 88) = wm_name w"
    using assms substr_field [of "pre @ le_bytes 8 (wm_start w) @ le_bytes 8 (wm_end w) @
      put_u32 (wm_protection w) @ put_u32 (wm_flags w)" "off + 24" "wm_name w" 64]
    by (simp add: map_bytes_def add.commute)
  ultimately show ?thesis
    by (simp add: wire_map_at_def)
qed

lemma list_payload_eq:
  assumes "length xs < 2 ^ 32" and "0 < k" and "k < 2 ^ 32"
  shows "list_payload k enc xs = put_u32 (word_of_nat (length xs)) @ concat (map enc xs)"
proof -
  have "length xs * k \<le> 2 ^ 32 * k"
    using assms(1) by simp
  also have "\<dots> < 2 ^ 32 * 2 ^ 32"
    using assms(3) by simp
  finally have "length xs * k mod size_t_max = length xs * k"
    by (simp add: size_t_max_def)
  then show ?thesis
    using assms(2) by (auto simp: list_payload_def)
qed

lemma get_count: "length xs < 2 ^ 32 \<Longrightarrow> unat (get_u32 (put_u32 (word_of_nat (length xs)) @ rest) 0) = length xs"
  using get_put_u32 [of "[]" 0 "word_of_nat (length xs)" rest] by (simp add: unat_of_nat)

lemma get_count_zero [simp]: "unat (get_u32 (put_u32 0) 0) = 0"
  using get_count [of "[]" "[]"] by simp

lemma chunk_at:
  assumes "\<forall>x \<in> set xs. length (enc x) = k" and "i < length xs" and "length pre = off"
  shows "\<exists>before post. pre @ concat (map enc xs) = before @ enc (xs ! i) @ post \<and> length before = off + i * k"
proof -
  have "pre @ concat (map enc xs) = (pre @ take (i * k) (concat (map enc xs))) @
      enc (xs ! i) @ concat (map enc (drop (Suc i) xs))"
    using drop_concat_chunks [OF assms(1,2)] by (metis append.assoc append_take_drop_id)
  moreover have "i * k \<le> length (concat (map enc xs))"
    unfolding length_concat_chunks [OF assms(1)] using assms(2) by simp
  ultimately show ?thesis
    using assms(3) by (intro exI conjI) (assumption, simp del: length_concat)
qed

lemma maps_roundtrip:
  assumes "\<forall>w \<in> set ws. length (wm_name w) = 64" and "handle_process_maps (Inr ws) malloc_ok = Inr payload"
  shows "parse_process_maps_response payload = Inr (map map_of_wire (filter (\<lambda>w. wm_start w < wm_end w) ws))"
proof -
  from assms(2) have small: "length ws < 2 ^ 32"
    and div: "length ws * 88 mod size_t_max div 88 = length ws"
    and fits: "(4 + length ws * 88 mod size_t_max) mod size_t_max \<le> MEMDBG_PROTOCOL_MAX_MAP_RESPONSE"
    and payload: "payload = list_payload 88 map_bytes ws"
    by (auto simp: handle_process_maps_def Let_def split: if_splits)
  have "length ws * 88 < size_t_max - 4"
    using small by (simp add: size_t_max_def)
  with fits have max: "4 + length ws * 88 \<le> MEMDBG_PROTOCOL_MAX_MAP_RESPONSE"
    by simp
  have eq: "payload = put_u32 (word_of_nat (length ws)) @ concat (map map_bytes ws)"
    using small by (simp add: payload list_payload_eq)
  have width: "\<forall>w \<in> set ws. length (map_bytes w) = 88"
    using assms(1) by (simp add: length_map_bytes)
  have len: "length payload = 4 + length ws * 88"
    by (simp add: eq length_concat_chunks [OF width] del: length_concat)
  have count: "unat (get_u32 payload 0) = length ws"
    using small by (simp add: eq get_count)
  have at: "wire_map_at payload (4 + i * 88) = ws ! i" if i: "i < length ws" for i
    using chunk_at [OF width i, of "put_u32 (word_of_nat (length ws))" 4] assms(1) i wire_map_at_bytes
    by (metis eq length_put(1) nth_mem)
  have "map (\<lambda>i. wire_map_at payload (4 + i * 88)) [0..<length ws] = ws"
    by (rule nth_equalityI) (simp_all add: at)
  moreover have "length ws \<le> kMaxMapEntries"
    using max by (simp add: kMaxMapEntries_def MEMDBG_PROTOCOL_MAX_MAP_RESPONSE_def)
  ultimately show ?thesis
    by (simp add: parse_process_maps_response_def len count Let_def not_le)
qed

text \<open>
  The client reads the maps the daemon sends. Whenever the daemon builds a map response,
  the client accepts it and gets every map of the list with \<open>start < end\<close>, in order, with
  its protection, flags, type and name; a list too long for the client's limit is refused by
  the daemon's own limit.
\<close>

theorem process_maps_roundtrip:
  assumes "\<forall>w \<in> set ws. length (wm_name w) = 64" and "handle_process_maps (Inr ws) malloc_ok = Inr payload"
  shows "parse_process_maps_response payload = Inr (map map_of_wire (filter (\<lambda>w. wm_start w < wm_end w) ws))"
  by (rule maps_roundtrip [OF assms])

theorem process_maps_roundtrip_witness:
  "parse_process_maps_response (list_payload 88 map_bytes
     [\<lparr>wm_start = 0x400000, wm_end = 0x401000, wm_protection = 5, wm_flags = 0x2000000,
       wm_name = replicate 64 0\<rparr>]) =
   Inr [\<lparr>map_start = 0x400000, map_end = 0x401000, map_protection = 5, map_flags = 0x2000000,
      map_name = ''[file]'', map_type = ''file''\<rparr>]"
  using process_maps_roundtrip [of "[\<lparr>wm_start = 0x400000, wm_end = 0x401000, wm_protection = 5,
      wm_flags = 0x2000000, wm_name = replicate 64 0\<rparr>]" True]
  by (simp add: handle_process_maps_def size_t_max_def MEMDBG_PROTOCOL_MAX_MAP_RESPONSE_def
      map_of_wire_def map_type_name_def map_wire_string_def Let_def)

section \<open>Process lists\<close>

text \<open>The entry a wire record stands for, and the records of payloads before \<^verbatim>\<open>ppid\<close> was added.\<close>

definition entry_of_wire :: "wire_process \<Rightarrow> process_entry" where
  "entry_of_wire w = \<lparr>pe_pid = wp_pid w, pe_ppid = wp_ppid w, pe_name = process_wire_string (wp_name w)\<rparr>"

definition legacy_process_bytes :: "wire_process \<Rightarrow> byte list" where
  "legacy_process_bytes w = put_i32 (wp_pid w) @ wp_name w"

definition plausible_process :: "wire_process \<Rightarrow> bool" where
  "plausible_process w \<longleftrightarrow> 0 < wp_pid w \<and> wp_pid w \<le> 0x00ffffff \<and>
     - (2 ^ 31) \<le> wp_ppid w \<and> wp_ppid w < 2 ^ 31 \<and> length (wp_name w) = 48 \<and>
     process_name_is_plausible (process_wire_string (wp_name w))"

lemma decode_record_current:
  assumes "plausible_process w"
  shows "decode_record (process_bytes w @ post) True = entry_of_wire w"
proof -
  have "get_i32 (process_bytes w @ post) 0 = wp_pid w"
    using assms get_put_i32 [of "[]" 0] by (simp add: process_bytes_def plausible_process_def)
  moreover have "get_i32 (process_bytes w @ post) 4 = wp_ppid w"
    using assms get_put_i32 [of "put_i32 (wp_pid w)" 4] by (simp add: process_bytes_def plausible_process_def)
  moreover have "substr (process_bytes w @ post) 8 56 = wp_name w"
    using assms substr_field [of "put_i32 (wp_pid w) @ put_i32 (wp_ppid w)" 8 "wp_name w" 48]
    by (simp add: process_bytes_def plausible_process_def)
  ultimately show ?thesis
    by (simp add: decode_record_def entry_of_wire_def)
qed

lemma decode_record_legacy:
  assumes "plausible_process w"
  shows "decode_record (legacy_process_bytes w @ post) False = (entry_of_wire w)\<lparr>pe_ppid := 0\<rparr>"
proof -
  have "get_i32 (legacy_process_bytes w @ post) 0 = wp_pid w"
    using assms get_put_i32 [of "[]" 0] by (simp add: legacy_process_bytes_def plausible_process_def)
  moreover have "substr (legacy_process_bytes w @ post) 4 52 = wp_name w"
    using assms substr_field [of "put_i32 (wp_pid w)" 4 "wp_name w" 48]
    by (simp add: legacy_process_bytes_def plausible_process_def)
  ultimately show ?thesis
    by (simp add: decode_record_def entry_of_wire_def)
qed

text \<open>No record scores more than 8; records that are all plausible and distinct score 8 each.\<close>

lemma decode_records_bound:
  "fst (decode_records payload stride current is seen) \<le> 8 * int (length is) \<and>
   length (snd (decode_records payload stride current is seen)) \<le> length is"
proof (induction "is" arbitrary: seen)
  case (Cons i "is")
  let ?e = "decode_record (drop (i * stride) payload) current"
  show ?case
    using Cons.IH [of seen] Cons.IH [of "insert (pe_pid ?e) seen"]
    by (auto simp: Let_def split: prod.split)
qed simp

lemma decode_records_plausible:
  assumes "\<forall>i \<in> set is. decode_record (drop (i * stride) payload) current = E i \<and>
      0 < pe_pid (E i) \<and> pe_pid (E i) \<le> 0x00ffffff \<and> process_name_is_plausible (pe_name (E i))"
    and "distinct (map (\<lambda>i. pe_pid (E i)) is)" and "\<forall>i \<in> set is. pe_pid (E i) \<notin> seen"
  shows "decode_records payload stride current is seen = (8 * int (length is), map E is)"
  using assms
proof (induction "is" arbitrary: seen)
  case (Cons i "is")
  have "decode_records payload stride current is (insert (pe_pid (E i)) seen) = (8 * int (length is), map E is)"
    using Cons.prems by (intro Cons.IH) (auto simp: image_iff)
  moreover have "pe_name (E i) \<noteq> []"
    using Cons.prems(1) by (auto simp: process_name_is_plausible_def)
  ultimately show ?case
    using Cons.prems by (simp add: Let_def)
qed simp

lemma candidate_bound:
  "\<not> (length payload = min n (length payload div stride) * stride \<and> n \<le> length payload div stride) \<Longrightarrow>
   plc_score (decode_process_candidate payload n stride current) \<le> 9 * int (min n (length payload div stride))"
  using decode_records_bound [of payload stride current "[0..<min n (length payload div stride)]" "{}"]
  by (auto simp: decode_process_candidate_def Let_def split: prod.split)

lemma candidate_plausible:
  assumes "length payload = n * stride" and "0 < stride"
    and "\<And>i. i < n \<Longrightarrow> decode_record (drop (i * stride) payload) current = E i"
    and "\<And>i. i < n \<Longrightarrow> 0 < pe_pid (E i) \<and> pe_pid (E i) \<le> 0x00ffffff \<and> process_name_is_plausible (pe_name (E i))"
    and "distinct (map (\<lambda>i. pe_pid (E i)) [0..<n])"
  shows "decode_process_candidate payload n stride current =
    \<lparr>plc_entries = map E [0..<n], plc_score = 9 * int n + 4, plc_complete = True\<rparr>"
proof -
  have "decode_records payload stride current [0..<n] {} = (8 * int (length [0..<n]), map E [0..<n])"
    by (rule decode_records_plausible) (use assms in auto)
  then show ?thesis
    using assms(1,2) by (simp add: decode_process_candidate_def)
qed

lemma map_E_nth: "(\<And>i. i < length ws \<Longrightarrow> E i = g (ws ! i)) \<Longrightarrow> map E [0..<length ws] = map g ws"
  by (rule nth_equalityI) simp_all

lemma list_candidate:
  assumes "\<forall>w \<in> set ws. plausible_process w \<and> length (enc w) = k" and "0 < k"
    and "\<And>w post. plausible_process w \<Longrightarrow> decode_record (enc w @ post) current = g w"
    and "\<And>w. pe_pid (g w) = wp_pid w" and "\<And>w. pe_name (g w) = process_wire_string (wp_name w)"
    and "distinct (map wp_pid ws)"
  shows "decode_process_candidate (concat (map enc ws)) (length ws) k current =
    \<lparr>plc_entries = map g ws, plc_score = 9 * int (length ws) + 4, plc_complete = True\<rparr>"
proof -
  have "decode_process_candidate (concat (map enc ws)) (length ws) k current =
      \<lparr>plc_entries = map (\<lambda>i. g (ws ! i)) [0..<length ws], plc_score = 9 * int (length ws) + 4, plc_complete = True\<rparr>"
  proof (rule candidate_plausible)
    show "length (concat (map enc ws)) = length ws * k"
      using assms(1) by (intro length_concat_chunks) auto
    show "decode_record (drop (i * k) (concat (map enc ws))) current = g (ws ! i)" if "i < length ws" for i
      using that assms(1,3) drop_concat_chunks [of ws enc k i] by simp
    show "distinct (map (\<lambda>i. pe_pid (g (ws ! i))) [0..<length ws])"
      using assms(6) map_E_nth [of ws "\<lambda>i. wp_pid (ws ! i)" wp_pid] by (simp add: assms(4))
  qed (use assms in \<open>auto simp: plausible_process_def\<close>)
  then show ?thesis
    by (simp add: map_E_nth)
qed

text \<open>
  The process list survives the wire in both layouts. For at most as many processes as the
  client accepts, with distinct positive identifiers below 2 to the 24 and printable names, the
  client decodes the response the daemon builds to exactly those processes, and decodes a
  response in the layout of the payloads without parent identifiers to the same processes with
  parent 0. The plausibility scores never pick the wrong layout for such a list.
\<close>

theorem process_list_roundtrip:
  assumes "\<forall>w \<in> set ws. plausible_process w" and "distinct (map wp_pid ws)"
    and "length ws \<le> kMaxProcessEntries"
  shows "(\<exists>payload. handle_process_list (Inr ws) True = Inr payload \<and>
      parse_process_list_response payload = Inr (map entry_of_wire ws)) \<and>
    parse_process_list_response (put_u32 (word_of_nat (length ws)) @ concat (map legacy_process_bytes ws)) =
      Inr (map (\<lambda>w. (entry_of_wire w)\<lparr>pe_ppid := 0\<rparr>) ws)"
proof
  let ?n = "length ws"
  have n: "?n \<le> 20164"
    using assms(3) by (simp add: kMaxProcessEntries_def MEMDBG_PROTOCOL_MAX_PACKET_def kLegacyProcessEntrySize_def)
  have w56: "\<forall>w \<in> set ws. plausible_process w \<and> length (process_bytes w) = 56"
    and w52: "\<forall>w \<in> set ws. plausible_process w \<and> length (legacy_process_bytes w) = 52"
    using assms(1) by (auto simp: process_bytes_def legacy_process_bytes_def plausible_process_def)
  note defs = parse_process_list_response_def Let_def kLegacyProcessEntrySize_def get_count
  show "\<exists>payload. handle_process_list (Inr ws) True = Inr payload \<and>
      parse_process_list_response payload = Inr (map entry_of_wire ws)"
  proof -
    let ?p = "concat (map process_bytes ws)"
    have len: "length ?p = ?n * 56"
      using w56 by (intro length_concat_chunks) auto
    have cur: "decode_process_candidate ?p ?n 56 True =
        \<lparr>plc_entries = map entry_of_wire ws, plc_score = 9 * int ?n + 4, plc_complete = True\<rparr>"
      by (rule list_candidate [OF w56]) (use assms decode_record_current in \<open>auto simp: entry_of_wire_def\<close>)
    have "plc_score (decode_process_candidate ?p ?n 52 False) \<le> 9 * int ?n" if "ws \<noteq> []"
    proof -
      have "min ?n (length ?p div 52) = ?n"
        unfolding len by simp
      then show ?thesis
        using candidate_bound [of ?p ?n 52 False] that by (simp add: len del: length_concat)
    qed
    then have "parse_process_list_response (put_u32 (word_of_nat ?n) @ ?p) = Inr (map entry_of_wire ws)"
      using cur assms(3) n by (cases "ws = []") (auto simp: defs len decode_process_candidate_def simp del: length_concat)
    moreover have "handle_process_list (Inr ws) True = Inr (put_u32 (word_of_nat ?n) @ ?p)"
      using n by (simp add: handle_process_list_def Let_def size_t_max_def list_payload_eq)
    ultimately show ?thesis by blast
  qed
  show "parse_process_list_response (put_u32 (word_of_nat ?n) @ concat (map legacy_process_bytes ws)) =
      Inr (map (\<lambda>w. (entry_of_wire w)\<lparr>pe_ppid := 0\<rparr>) ws)"
  proof -
    let ?p = "concat (map legacy_process_bytes ws)"
    have len: "length ?p = ?n * 52"
      using w52 by (intro length_concat_chunks) auto
    have leg: "decode_process_candidate ?p ?n 52 False =
        \<lparr>plc_entries = map (\<lambda>w. (entry_of_wire w)\<lparr>pe_ppid := 0\<rparr>) ws, plc_score = 9 * int ?n + 4, plc_complete = True\<rparr>"
      by (rule list_candidate [OF w52]) (use assms decode_record_legacy in \<open>auto simp: entry_of_wire_def\<close>)
    have "plc_score (decode_process_candidate ?p ?n 56 True) \<le> 9 * int ?n" if "ws \<noteq> []"
    proof -
      have lt: "length ?p div 56 < ?n"
        unfolding len using that by (intro less_mult_imp_div_less) simp
      then show ?thesis
        using candidate_bound [of ?p ?n 56 True] by simp
    qed
    then show ?thesis
      using leg assms(3) n by (cases "ws = []") (auto simp: defs len decode_process_candidate_def simp del: length_concat)
  qed
qed

definition sample_process :: wire_process where
  "sample_process = \<lparr>wp_pid = 88, wp_ppid = 1,
     wp_name = map byte_of_char ''eboot.bin'' @ replicate 39 0\<rparr>"

theorem process_list_roundtrip_witness:
  "parse_process_list_response (put_u32 1 @ legacy_process_bytes sample_process) =
     Inr [\<lparr>pe_pid = 88, pe_ppid = 0, pe_name = ''eboot.bin''\<rparr>]"
proof -
  have "process_wire_string (wp_name sample_process) = ''eboot.bin''"
    by (simp add: process_wire_string_def sample_process_def byte_of_char_def char_of_byte_def char_of_eq_iff)
  moreover have "process_name_is_plausible ''eboot.bin''"
    by (simp add: process_name_is_plausible_def)
  ultimately show ?thesis
    using process_list_roundtrip [of "[sample_process]"]
    by (simp add: plausible_process_def kMaxProcessEntries_def MEMDBG_PROTOCOL_MAX_PACKET_def
        kLegacyProcessEntrySize_def entry_of_wire_def) (simp add: sample_process_def)
qed

section \<open>What the client accepts\<close>

lemma decode_records_valid:
  "e \<in> set (snd (decode_records payload stride current is seen)) \<Longrightarrow> 0 < pe_pid e \<and> pe_name e \<noteq> []"
proof (induction "is" arbitrary: seen)
  case (Cons i "is")
  let ?e = "decode_record (drop (i * stride) payload) current"
  show ?case
    using Cons.IH [of seen] Cons.IH [of "insert (pe_pid ?e) seen"] Cons.prems
    by (auto simp: Let_def not_le split: prod.splits if_splits)
qed simp

lemma candidate_valid:
  "e \<in> set (plc_entries (decode_process_candidate payload n stride current)) \<Longrightarrow> 0 < pe_pid e \<and> pe_name e \<noteq> []"
  using decode_records_valid [of e payload stride current "[0..<min n (length payload div stride)]" "{}"]
  by (auto simp: decode_process_candidate_def Let_def split: prod.splits)

lemma and_7_le: "unat (w AND (7 :: u32)) \<le> 7"
proof -
  have "w AND 7 = take_bit 3 w"
    by (simp add: take_bit_eq_mask mask_eq_exp_minus_1)
  then show ?thesis
    using take_bit_nat_less_exp [of 3 "unat w"] by (simp add: unsigned_take_bit_eq)
qed

text \<open>
  Whatever bytes arrive, what the client accepts is well formed: a process list has only
  entries with a positive identifier and a name, no more than were announced, and a map list
  has only non-empty maps with a protection of three bits and a name.
\<close>

theorem parsed_entries_valid:
  "(case parse_process_list_response response of Inl _ \<Rightarrow> True
    | Inr es \<Rightarrow> length es \<le> unat (get_u32 response 0) \<and> list_all (\<lambda>e. 0 < pe_pid e \<and> pe_name e \<noteq> []) es) \<and>
   (case parse_process_maps_response response of Inl _ \<Rightarrow> True
    | Inr ms \<Rightarrow> length ms \<le> unat (get_u32 response 0) \<and>
        list_all (\<lambda>m. map_start m < map_end m \<and> unat (map_protection m) \<le> 7 \<and> map_name m \<noteq> []) ms)"
proof
  have len: "length (plc_entries (decode_process_candidate payload n stride current)) \<le> n" for payload n stride current
    using decode_records_bound [of payload stride current "[0..<min n (length payload div stride)]" "{}"]
    by (auto simp: decode_process_candidate_def Let_def split: prod.split)
  show "case parse_process_list_response response of Inl _ \<Rightarrow> True
    | Inr es \<Rightarrow> length es \<le> unat (get_u32 response 0) \<and> list_all (\<lambda>e. 0 < pe_pid e \<and> pe_name e \<noteq> []) es"
    using len by (auto simp: parse_process_list_response_def Let_def list_all_iff dest: candidate_valid)
  show "case parse_process_maps_response response of Inl _ \<Rightarrow> True
    | Inr ms \<Rightarrow> length ms \<le> unat (get_u32 response 0) \<and>
        list_all (\<lambda>m. map_start m < map_end m \<and> unat (map_protection m) \<le> 7 \<and> map_name m \<noteq> []) ms"
    using length_filter_le [where xs = "map (\<lambda>i. wire_map_at response (4 + i * 88)) [0..<unat (get_u32 response 0)]"]
    by (auto simp: parse_process_maps_response_def Let_def map_of_wire_def and_7_le list_all_iff simp del: filter_map)
qed

end
