(* ===== verification/Lz4.thy ===== *)
theory Lz4
  imports Memdbg_Prelude
begin

text \<open>
  The LZ4 codec of the payload (\<^verbatim>\<open>src/src/util/lz4.c\<close>). Pointers into the source are
  positions; the output written so far is a list, and so is the input the decompressor has
  still to read. Every load of the compressor is checked against the source buffer:
  \<^const>\<open>None\<close> stands for an access outside it, and one of the results is that it never
  occurs. The thread-local hash table with its generation counter is a state that is passed
  in and out, and nothing is assumed of its content.
\<close>

section \<open>The hash table\<close>

record lz4_table =
  lz4_ht :: "nat \<Rightarrow> u32"
  lz4_ht_gen :: u32

text \<open>The table of a new thread.\<close>

definition lz4_table0 :: lz4_table where
  "lz4_table0 = \<lparr>lz4_ht = (\<lambda>_. 0), lz4_ht_gen = 0\<rparr>"

text \<open>Unaligned loads of 1, 4 and 8 bytes.\<close>

definition rd8 :: "byte list \<Rightarrow> nat \<Rightarrow> byte option" where
  "rd8 src p = (if p < length src then Some (src ! p) else None)"

definition rd32 :: "byte list \<Rightarrow> nat \<Rightarrow> u32 option" where
  "rd32 src p = (if p + 4 \<le> length src then Some (get_u32 src p) else None)"

definition rd64 :: "byte list \<Rightarrow> nat \<Rightarrow> u64 option" where
  "rd64 src p = (if p + 8 \<le> length src then Some (get_u64 src p) else None)"

definition lz4_hash_position :: "byte list \<Rightarrow> nat \<Rightarrow> nat option" where
  "lz4_hash_position src p = map_option (\<lambda>v. unat (drop_bit 20 (v * 2654435761))) (rd32 src p)"

definition lz4_ht_put :: "nat \<Rightarrow> nat \<Rightarrow> lz4_table \<Rightarrow> lz4_table" where
  "lz4_ht_put h pos t = t\<lparr>lz4_ht := (lz4_ht t)(h := push_bit 20 (lz4_ht_gen t) OR (word_of_nat pos AND 0xFFFFF))\<rparr>"

text \<open>\<^const>\<open>None\<close> is the result -1 for an entry of another generation.\<close>

definition lz4_ht_get :: "nat \<Rightarrow> lz4_table \<Rightarrow> nat option" where
  "lz4_ht_get h t =
     (let entry = lz4_ht t h
      in if drop_bit 20 entry \<noteq> lz4_ht_gen t then None else Some (unat (entry AND 0xFFFFF)))"

text \<open>\<^verbatim>\<open>memset(lz4_ht, 0xFF, ...)\<close> and the advance of the generation at the start of a call.\<close>

definition lz4_ht_reset :: "lz4_table \<Rightarrow> lz4_table" where
  "lz4_ht_reset t = t\<lparr>lz4_ht := (\<lambda>_. 0xFFFFFFFF)\<rparr>"

definition lz4_new_generation :: "nat \<Rightarrow> lz4_table \<Rightarrow> lz4_table" where
  "lz4_new_generation src_size t =
     (let t1 = t\<lparr>lz4_ht_gen := (lz4_ht_gen t + 1) AND 0xFFF\<rparr>;
          t2 = (if lz4_ht_gen t1 = 0 then lz4_ht_reset t1 else t1)
      in if src_size \<le> 0xFFFFF then t2 else (lz4_ht_reset t2)\<lparr>lz4_ht_gen := 0\<rparr>)"

section \<open>Compression\<close>

definition lz4_len_bytes :: "nat \<Rightarrow> nat \<Rightarrow> nat" where
  "lz4_len_bytes len base = (if len < base then 0 else 1 + (len - base) div 255)"

text \<open>
  The portable loop of \<^verbatim>\<open>lz4_first_diff_byte\<close>, which the compiler builtin abbreviates; it is
  only called on a difference that is not 0.
\<close>

function lz4_first_diff_byte :: "u64 \<Rightarrow> nat" where
  "lz4_first_diff_byte diff =
     (if diff \<noteq> 0 \<and> diff AND 0xFF = 0 then 1 + lz4_first_diff_byte (drop_bit 8 diff) else 0)"
  by pat_completeness auto

termination
proof (relation "measure unat")
  fix diff :: u64
  assume "diff \<noteq> 0 \<and> diff AND 0xFF = 0"
  then have "0 < unat diff"
    by (simp add: unat_gt_0)
  then have "unat (drop_bit 8 diff) < unat diff"
    by (simp add: drop_bit_eq_div unat_div)
  then show "(drop_bit 8 diff, diff) \<in> measure unat" by simp
qed simp

declare lz4_first_diff_byte.simps [simp del]

text \<open>The bytes \<^verbatim>\<open>lz4_write_len\<close> writes for the remainder above the base.\<close>

fun write_len_loop :: "nat \<Rightarrow> byte list" where
  "write_len_loop rem = (if rem \<ge> 255 then 255 # write_len_loop (rem - 255) else [word_of_nat rem])"

declare write_len_loop.simps [simp del]

definition lz4_write_len :: "nat \<Rightarrow> nat \<Rightarrow> byte list" where
  "lz4_write_len len base = write_len_loop (len - base)"

text \<open>
  The search loop: from \<open>forward_ip\<close>, with growing steps, the first position whose four bytes
  occur at the position the table holds for their hash. The inner result is the position and
  the match, or \<^const>\<open>None\<close> when the loop has passed \<open>src_mf\<close>. The counter
  \<open>search_nb\<close> starts at 256 and counts iterations, so it stays far below its 32 bits.
\<close>

definition candidate_matches :: "byte list \<Rightarrow> nat \<Rightarrow> nat option \<Rightarrow> bool option" where
  "candidate_matches src forward_ip ref_idx =
     (case ref_idx of None \<Rightarrow> Some False
      | Some candidate \<Rightarrow>
        if candidate < forward_ip \<and> forward_ip - candidate \<le> 65535
        then (case (rd32 src candidate, rd32 src forward_ip) of
                (Some cv, Some fv) \<Rightarrow> Some (cv = fv)
              | _ \<Rightarrow> None)
        else Some False)"

function search_loop ::
    "byte list \<Rightarrow> nat \<Rightarrow> nat \<Rightarrow> nat \<Rightarrow> nat \<Rightarrow> lz4_table \<Rightarrow> ((nat \<times> nat) option \<times> lz4_table) option" where
  "search_loop src src_mf forward_ip step search_nb t =
     (case lz4_hash_position src forward_ip of None \<Rightarrow> None
      | Some h \<Rightarrow>
        (let ref_idx = lz4_ht_get h t; t' = lz4_ht_put h forward_ip t
         in case candidate_matches src forward_ip ref_idx of None \<Rightarrow> None
            | Some True \<Rightarrow> Some (Some (forward_ip, the ref_idx), t')
            | Some False \<Rightarrow>
              if forward_ip + step \<le> src_mf
              then search_loop src src_mf (forward_ip + step) (search_nb div 256) (search_nb + 1) t'
              else Some (None, t')))"
  by pat_completeness auto

termination
  by (relation "measures [\<lambda>(src, src_mf, forward_ip, step, search_nb, t). src_mf + 1 - forward_ip,
        \<lambda>(src, src_mf, forward_ip, step, search_nb, t). if step = 0 then 1 + (256 - search_nb) else 0]")
    (auto simp: div_eq_0_iff)

declare search_loop.simps [simp del]

text \<open>The positions skipped by the search are entered into the table.\<close>

fun put_positions :: "byte list \<Rightarrow> nat \<Rightarrow> nat list \<Rightarrow> lz4_table \<Rightarrow> lz4_table option" where
  "put_positions src src_mf [] t = Some t"
| "put_positions src src_mf (p # ps) t =
     (if p \<le> src_mf
      then (case lz4_hash_position src p of None \<Rightarrow> None
            | Some h \<Rightarrow> put_positions src src_mf ps (lz4_ht_put h p t))
      else Some t)"

text \<open>
  The extension of a match by words and then by bytes. The subtraction in the loop test is
  made in \<^verbatim>\<open>size_t\<close>, where a negative difference is a large number.
\<close>

function extend_words :: "byte list \<Rightarrow> nat \<Rightarrow> nat \<Rightarrow> nat \<Rightarrow> (bool \<times> nat \<times> nat) option" where
  "extend_words src src_limit match_end match_cursor =
     (if src_limit < match_end \<or> 8 \<le> src_limit - match_end
      then (case (rd64 src match_end, rd64 src match_cursor) of
              (Some a, Some b) \<Rightarrow>
                if a \<noteq> b then Some (True, match_end + lz4_first_diff_byte (a XOR b), match_cursor)
                else extend_words src src_limit (match_end + 8) (match_cursor + 8)
            | _ \<Rightarrow> None)
      else Some (False, match_end, match_cursor))"
  by pat_completeness auto

termination
  by (relation "measure (\<lambda>(src, src_limit, match_end, match_cursor). length src - match_end)")
    (auto simp: rd64_def split: if_splits)

declare extend_words.simps [simp del]

function extend_bytes :: "byte list \<Rightarrow> nat \<Rightarrow> nat \<Rightarrow> nat \<Rightarrow> nat option" where
  "extend_bytes src src_limit match_end match_cursor =
     (if match_end < src_limit
      then (case (rd8 src match_end, rd8 src match_cursor) of
              (Some a, Some b) \<Rightarrow>
                if a = b then extend_bytes src src_limit (match_end + 1) (match_cursor + 1) else Some match_end
            | _ \<Rightarrow> None)
      else Some match_end)"
  by pat_completeness auto

termination
  by (relation "measure (\<lambda>(src, src_limit, match_end, match_cursor). src_limit - match_end)") auto

declare extend_bytes.simps [simp del]

definition extend_match :: "byte list \<Rightarrow> nat \<Rightarrow> nat \<Rightarrow> nat \<Rightarrow> nat option" where
  "extend_match src src_limit match_end match_cursor =
     (case extend_words src src_limit match_end match_cursor of
        None \<Rightarrow> None
      | Some (ext_early, me, mc) \<Rightarrow> if ext_early then Some me else extend_bytes src src_limit me mc)"

text \<open>The results of the loops do not lie before their starting points.\<close>

lemma search_loop_mono:
  "search_loop src src_mf forward_ip step search_nb t = Some (Some (fip, m), t') \<Longrightarrow> forward_ip \<le> fip"
proof (induction src src_mf forward_ip step search_nb t rule: search_loop.induct)
  case (1 src src_mf forward_ip step search_nb t)
  from "1.prems" show ?case
    by (subst (asm) search_loop.simps)
      (auto simp: Let_def split: option.splits bool.splits if_splits dest: "1.IH")
qed

lemma extend_words_mono:
  "extend_words src src_limit me mc = Some (early, me', mc') \<Longrightarrow> me \<le> me'"
proof (induction src src_limit me mc rule: extend_words.induct)
  case (1 src src_limit me mc)
  have "me + 8 \<le> me'" if "extend_words src src_limit (me + 8) (mc + 8) = Some (early, me', mc')"
    "src_limit < me \<or> 8 \<le> src_limit - me" "rd64 src me = Some a" "rd64 src mc = Some a" for a
    using "1.IH" that by simp
  with "1.prems" show ?case
    by (subst (asm) extend_words.simps) (fastforce split: option.splits if_splits)
qed

lemma extend_bytes_mono: "extend_bytes src src_limit me mc = Some me' \<Longrightarrow> me \<le> me'"
proof (induction src src_limit me mc rule: extend_bytes.induct)
  case (1 src src_limit me mc)
  from "1.prems" show ?case
    by (subst (asm) extend_bytes.simps) (auto split: option.splits if_splits dest: "1.IH")
qed

lemma extend_match_mono: "extend_match src src_limit me mc = Some me' \<Longrightarrow> me \<le> me'"
  by (auto simp: extend_match_def split: option.splits prod.splits if_splits
      dest!: extend_words_mono extend_bytes_mono)

text \<open>
  A sequence: token, literal length, literals, offset, match length. \<open>copy_literals\<close> keeps
  the eight-byte copy of short literals, which loads beyond them.
\<close>

definition copy_literals :: "byte list \<Rightarrow> nat \<Rightarrow> nat \<Rightarrow> nat \<Rightarrow> byte list option" where
  "copy_literals src anchor literal_len room =
     (if literal_len = 0 then Some []
      else if literal_len \<le> 8 \<and> 8 \<le> room
      then map_option (\<lambda>v. take literal_len (le_bytes 8 v)) (rd64 src anchor)
      else if anchor + literal_len \<le> length src then Some (substr src anchor (anchor + literal_len))
      else None)"

definition literal_ext :: "nat \<Rightarrow> byte list" where
  "literal_ext len = (if len \<ge> 15 then lz4_write_len len 15 else [])"

definition lz4_sequence :: "byte list \<Rightarrow> nat \<Rightarrow> nat \<Rightarrow> byte list" where
  "lz4_sequence literals offset match_token =
     ((if length literals \<ge> 15 then 0xF0 else push_bit 4 (word_of_nat (length literals))) OR
      (if match_token \<ge> 15 then 0x0F else word_of_nat match_token)) #
     literal_ext (length literals) @ literals @
     [word_of_nat (offset mod 256), word_of_nat (offset div 256 mod 256)] @ literal_ext match_token"

definition sequence_needed :: "nat \<Rightarrow> nat \<Rightarrow> nat" where
  "sequence_needed literal_len match_token = 1 + literal_len + 2 +
     (if literal_len \<ge> 15 then lz4_len_bytes literal_len 15 else 0) +
     (if match_token \<ge> 15 then lz4_len_bytes match_token 15 else 0)"

text \<open>
  The main loop. The outer \<^const>\<open>None\<close> is an access outside the source, the inner one the
  early \<^verbatim>\<open>return 0\<close>; otherwise the loop ends with the anchor and the output so far.
\<close>

function compress_loop ::
    "byte list \<Rightarrow> nat \<Rightarrow> nat \<Rightarrow> nat \<Rightarrow> byte list \<Rightarrow> lz4_table \<Rightarrow> ((nat \<times> byte list) option \<times> lz4_table) option" where
  "compress_loop src cap ip anchor out t =
     (let src_mf = length src - 12; src_limit = length src - 5
      in case search_loop src src_mf ip 1 256 t of
           None \<Rightarrow> None
         | Some (None, t1) \<Rightarrow> Some (Some (anchor, out), t1)
         | Some (Some (fip, m), t1) \<Rightarrow>
           (case put_positions src src_mf [ip..<fip] t1 of
              None \<Rightarrow> None
            | Some t2 \<Rightarrow>
              (case extend_match src src_limit (fip + 4) (m + 4) of
                 None \<Rightarrow> None
               | Some match_end \<Rightarrow>
                 (let literal_len = fip - anchor; match_token = match_end - fip - 4
                  in if cap - length out < sequence_needed literal_len match_token then Some (None, t2)
                     else (case copy_literals src anchor literal_len
                              (cap - (length out + 1 + length (literal_ext literal_len))) of
                             None \<Rightarrow> None
                           | Some literals \<Rightarrow>
                             (let out' = out @ lz4_sequence literals (fip - m) match_token
                              in if match_end > src_mf then Some (Some (match_end, out'), t2)
                                 else compress_loop src cap match_end match_end out' t2))))))"
  by pat_completeness auto

termination
  by (relation "measure (\<lambda>(src, cap, ip, anchor, out, t). length src + 1 - ip)")
    (auto dest!: search_loop_mono extend_match_mono)

declare compress_loop.simps [simp del]

text \<open>The trailing literals.\<close>

definition last_literals :: "byte list \<Rightarrow> byte list" where
  "last_literals rest =
     (if length rest \<ge> 15 then 0xF0 else push_bit 4 (word_of_nat (length rest))) #
     literal_ext (length rest) @ rest"

text \<open>The result is the bytes written, empty for the result 0.\<close>

definition lz4_compress_default :: "byte list \<Rightarrow> int \<Rightarrow> lz4_table \<Rightarrow> (byte list \<times> lz4_table) option" where
  "lz4_compress_default src dst_capacity t =
     (if length src < 32 \<or> dst_capacity \<le> 0 then Some ([], t)
      else let cap = nat dst_capacity; t0 = lz4_new_generation (length src) t
      in case lz4_hash_position src 0 of
           None \<Rightarrow> None
         | Some h \<Rightarrow>
           (case compress_loop src cap 1 0 [] (lz4_ht_put h 0 t0) of
              None \<Rightarrow> None
            | Some (None, t1) \<Rightarrow> Some ([], t1)
            | Some (Some (anchor, out), t1) \<Rightarrow>
              (let last = length src - anchor;
                   needed = 1 + last + (if last \<ge> 15 then lz4_len_bytes last 15 else 0)
               in if cap - length out < needed then Some ([], t1)
                  else Some (out @ last_literals (drop anchor src), t1))))"

definition LZ4_MAX_INPUT_SIZE :: int where
  "LZ4_MAX_INPUT_SIZE = 0x7E000000"

definition lz4_compress_bound :: "int \<Rightarrow> int" where
  "lz4_compress_bound input_size =
     (if input_size < 0 \<or> input_size > LZ4_MAX_INPUT_SIZE then 0
      else input_size + input_size div 255 + 16)"

section \<open>Decompression\<close>

text \<open>
  The extension bytes of a length; the length is a 32-bit unsigned integer and wraps around.
  \<^const>\<open>None\<close> is the end of the input.
\<close>

fun read_len :: "u32 \<Rightarrow> byte list \<Rightarrow> (u32 \<times> byte list) option" where
  "read_len len [] = None"
| "read_len len (s # ip) =
     (if s = 255 then read_len (len + ucast s) ip else Some (len + ucast s, ip))"

text \<open>A length from its nibble of the token and the extension bytes; the offset of a match.\<close>

definition token_length :: "byte \<Rightarrow> u32 \<Rightarrow> byte list \<Rightarrow> (u32 \<times> byte list) option" where
  "token_length nibble base ip =
     (if nibble = 15 then read_len (ucast nibble + base) ip else Some (ucast nibble + base, ip))"

definition read_offset :: "byte list \<Rightarrow> nat" where
  "read_offset ip = unat (ucast (ip ! 0) OR push_bit 8 (ucast (ip ! 1)) :: u32)"

text \<open>The three ways of copying a match to the end of the output.\<close>

fun copy_bytes :: "byte list \<Rightarrow> nat \<Rightarrow> nat \<Rightarrow> byte list" where
  "copy_bytes out offset 0 = out"
| "copy_bytes out offset (Suc n) = copy_bytes (out @ [out ! (length out - offset)]) offset n"

fun copy_words :: "byte list \<Rightarrow> nat \<Rightarrow> nat \<Rightarrow> byte list" where
  "copy_words out offset match_len =
     (if match_len \<ge> 8
      then copy_words (out @ take 8 (drop (length out - offset) out)) offset (match_len - 8)
      else copy_bytes out offset match_len)"

declare copy_words.simps [simp del]

definition copy_match :: "byte list \<Rightarrow> nat \<Rightarrow> nat \<Rightarrow> byte list" where
  "copy_match out offset match_len =
     (if offset \<ge> 8 then copy_words out offset match_len
      else if offset = 1 then out @ replicate match_len (out ! (length out - 1))
      else copy_bytes out offset match_len)"

lemma read_len_shorter: "read_len len ip = Some (len', ip') \<Longrightarrow> length ip' < length ip"
  by (induction len ip rule: read_len.induct) (auto split: if_splits)

lemma token_length_shorter: "token_length nibble base ip = Some (len', ip') \<Longrightarrow> length ip' \<le> length ip"
  by (auto simp: token_length_def split: if_splits dest!: read_len_shorter)

text \<open>\<^const>\<open>None\<close> is the result -1.\<close>

function decompress_loop :: "nat \<Rightarrow> byte list \<Rightarrow> byte list \<Rightarrow> byte list option" where
  "decompress_loop cap out [] = Some out"
| "decompress_loop cap out (token # ip1) =
     (case token_length (drop_bit 4 token) 0 ip1 of
        None \<Rightarrow> None
      | Some (lit_len, ip2) \<Rightarrow>
        if length ip2 < unat lit_len \<or> cap - length out < unat lit_len then None
        else let out2 = out @ take (unat lit_len) ip2; ip3 = drop (unat lit_len) ip2
        in if ip3 = [] then Some out2
        else if length ip3 < 2 then None
        else let offset = read_offset ip3; ip4 = drop 2 ip3
        in if offset = 0 \<or> length out2 < offset then None
        else (case token_length (token AND 0x0F) 4 ip4 of
                None \<Rightarrow> None
              | Some (match_len, ip5) \<Rightarrow>
                if cap - length out2 < unat match_len then None
                else decompress_loop cap (copy_match out2 offset (unat match_len)) ip5))"
  by pat_completeness auto

termination
  by (relation "measure (\<lambda>(cap, out, ip). length ip)")
    (auto dest!: token_length_shorter)

declare decompress_loop.simps(2) [simp del]

definition lz4_decompress_safe :: "byte list \<Rightarrow> int \<Rightarrow> byte list option" where
  "lz4_decompress_safe src dst_capacity =
     (if dst_capacity < 0 then None else decompress_loop (nat dst_capacity) [] src)"

end
