(* ===== verification/Lz4_Correct.thy ===== *)
theory Lz4_Correct
  imports Lz4
begin

text \<open>
  Correctness of the LZ4 codec. The three copy loops of the decompressor are the byte-wise
  overlapping copy; the decompressor reads back each sequence the compressor writes; the
  compressor makes no access outside its source, its output always decompresses to the
  source whatever the hash table held before, and a buffer of \<^verbatim>\<open>lz4_compress_bound\<close> bytes is
  always large enough.
\<close>

section \<open>Copying a match\<close>

lemma copy_bytes_add: "copy_bytes out off (m + n) = copy_bytes (copy_bytes out off m) off n"
  by (induction m arbitrary: out) simp_all

lemma copy_bytes_snoc:
  "copy_bytes out off (Suc n) = (let o' = copy_bytes out off n in o' @ [o' ! (length o' - off)])"
  using copy_bytes_add [of out off n 1] by (simp add: Let_def)

lemma copy_bytes_disjoint:
  "n \<le> off \<Longrightarrow> off \<le> length out \<Longrightarrow> copy_bytes out off n = out @ take n (drop (length out - off) out)"
proof (induction n)
  case 0
  then show ?case by simp
next
  case (Suc n)
  then have "copy_bytes out off n = out @ take n (drop (length out - off) out)" by simp
  moreover have "(out @ take n (drop (length out - off) out)) ! (length out + n - off) = out ! (length out - off + n)"
    using Suc.prems by (simp add: nth_append)
  ultimately show ?case
    using Suc.prems by (simp add: copy_bytes_snoc Let_def take_Suc_conv_app_nth del: copy_bytes.simps)
qed

lemma copy_words_eq: "8 \<le> off \<Longrightarrow> off \<le> length out \<Longrightarrow> copy_words out off n = copy_bytes out off n"
proof (induction out off n rule: copy_words.induct)
  case (1 out off n)
  show ?case
  proof (cases "8 \<le> n")
    case True
    have "copy_words out off n = copy_words (out @ take 8 (drop (length out - off) out)) off (n - 8)"
      using True by (subst copy_words.simps) simp
    also have "\<dots> = copy_bytes (copy_bytes out off 8) off (n - 8)"
      using 1 True by (simp add: copy_bytes_disjoint)
    finally show ?thesis
      using True by (simp add: copy_bytes_add [symmetric])
  next
    case False
    then show ?thesis by (subst copy_words.simps) simp
  qed
qed

lemma copy_bytes_one: "out \<noteq> [] \<Longrightarrow> copy_bytes out (Suc 0) n = out @ replicate n (out ! (length out - Suc 0))"
proof (induction n arbitrary: out)
  case (Suc n)
  then show ?case
    using Suc.IH [of "out @ [out ! (length out - Suc 0)]"] by (simp add: nth_append)
qed simp

lemma copy_match_eq: "0 < off \<Longrightarrow> off \<le> length out \<Longrightarrow> copy_match out off n = copy_bytes out off n"
  using copy_bytes_one [of out n] by (cases "out = []") (auto simp: copy_match_def copy_words_eq)

lemma copy_bytes_match:
  assumes "0 < off" and "off \<le> p" and "p + n \<le> length src" and "\<forall>j < n. src ! (p + j) = src ! (p - off + j)"
  shows "copy_bytes (take p src) off n = take (p + n) src"
  using assms(3,4)
proof (induction n)
  case (Suc n)
  then have "copy_bytes (take p src) off n = take (p + n) src" by simp
  moreover have "take (p + n) src ! (p + n - off) = src ! (p + n)"
    using Suc.prems assms(1,2) by simp
  ultimately show ?case
    using Suc.prems by (simp add: copy_bytes_snoc Let_def take_Suc_conv_app_nth del: copy_bytes.simps)
qed simp

section \<open>Lengths and tokens\<close>

lemma read_write_len: "read_len len (write_len_loop r @ tail) = Some (len + word_of_nat r, tail)"
proof (induction r arbitrary: len rule: write_len_loop.induct)
  case (1 r)
  show ?case
  proof (cases "255 \<le> r")
    case True
    then have "word_of_nat r = (255 + word_of_nat (r - 255) :: u32)"
      by (metis le_add_diff_inverse of_nat_add of_nat_numeral)
    then show ?thesis
      using 1 True by (subst write_len_loop.simps) (simp add: add.assoc)
  next
    case False
    then have r: "unat (word_of_nat r :: byte) = r"
      by (simp add: unat_of_nat)
    then have "(word_of_nat r :: byte) \<noteq> 255"
      using False by auto
    moreover have "ucast (word_of_nat r :: byte) = (word_of_nat r :: u32)"
      using r by (metis unat_ucast_widen(4) word_of_nat_unat)
    ultimately show ?thesis
      using False by (subst write_len_loop.simps) simp
  qed
qed

lemma length_write_len_loop: "length (write_len_loop r) = 1 + r div 255"
proof (induction r rule: write_len_loop.induct)
  case (1 r)
  then show ?case
    by (subst write_len_loop.simps) (simp add: le_div_geq)
qed

lemma length_literal_ext: "length (literal_ext n) = (if n \<ge> 15 then lz4_len_bytes n 15 else 0)"
  by (simp add: literal_ext_def lz4_write_len_def length_write_len_loop lz4_len_bytes_def)

lemma length_lz4_sequence: "length (lz4_sequence literals offset mt) = sequence_needed (length literals) mt"
  by (simp add: lz4_sequence_def sequence_needed_def length_literal_ext)

lemma small_nat_bit: "bit (h :: nat) i \<Longrightarrow> h < 16 \<Longrightarrow> i < 4"
proof (rule ccontr)
  assume "bit h i" "h < 16" "\<not> i < 4"
  then have "h < 2 ^ i"
    using power_increasing [of 4 i "2 :: nat"] by simp
  then show False using \<open>bit h i\<close> by (simp add: bit_iff_odd)
qed

lemma token_nibbles:
  assumes "h < 16" and "l < 16"
  shows "drop_bit 4 (push_bit 4 (word_of_nat h) OR word_of_nat l :: byte) = word_of_nat h"
    and "(push_bit 4 (word_of_nat h) OR word_of_nat l :: byte) AND 15 = word_of_nat l"
proof -
  have mask: "(15 :: byte) = mask 4"
    by (simp add: mask_eq_exp_minus_1)
  show "drop_bit 4 (push_bit 4 (word_of_nat h) OR word_of_nat l :: byte) = word_of_nat h"
    using assms by (intro bit_word_eqI) (auto simp: bit_simps dest: small_nat_bit)
  show "(push_bit 4 (word_of_nat h) OR word_of_nat l :: byte) AND 15 = word_of_nat l"
    unfolding mask using assms by (intro bit_word_eqI) (auto simp: bit_simps not_less dest: small_nat_bit)
qed

lemma token_high: "(if n \<ge> 15 then 0xF0 else push_bit 4 (word_of_nat n) :: byte) = push_bit 4 (word_of_nat (min 15 n))"
  by simp

lemma token_low: "(if n \<ge> 15 then 0x0F else word_of_nat n :: byte) = word_of_nat (min 15 n)"
  by simp

text \<open>The length a nibble and its extension bytes stand for.\<close>

lemma token_length_ext:
  assumes "nib = (word_of_nat (min 15 n) :: byte)"
  shows "token_length nib b (literal_ext n @ tail) = Some (word_of_nat n + b, tail)"
proof (cases "15 \<le> n")
  case True
  then have "(15 :: u32) + word_of_nat (n - 15) = word_of_nat n"
    by (metis le_add_diff_inverse of_nat_add of_nat_numeral)
  then have "15 + b + word_of_nat (n - 15) = word_of_nat n + b"
    by (metis add.commute add.left_commute)
  then show ?thesis
    using True assms by (simp add: token_length_def literal_ext_def lz4_write_len_def read_write_len)
next
  case False
  then have u: "unat (word_of_nat n :: byte) = n"
    by (simp add: unat_of_nat)
  then have "(word_of_nat n :: byte) \<noteq> 15"
    using False by auto
  moreover have "ucast (word_of_nat n :: byte) = (word_of_nat n :: u32)"
    using u by (metis unat_ucast_widen(4) word_of_nat_unat)
  ultimately show ?thesis
    using False assms by (simp add: token_length_def literal_ext_def)
qed

lemma read_offset_bytes:
  assumes "off \<le> 65535"
  shows "read_offset (word_of_nat (off mod 256) # word_of_nat (off div 256 mod 256) # rest) = off"
proof -
  let ?lo = "word_of_nat (off mod 256) :: byte" and ?hi = "word_of_nat (off div 256 mod 256) :: byte"
  have "bit (ucast ?lo OR push_bit 8 (ucast ?hi) :: u32) i \<longleftrightarrow> bit (word_of_nat off :: u32) i" for i
  proof -
    have small: "bit off i \<Longrightarrow> i < 8 + 8"
      using assms power_increasing [of 16 i "2 :: nat"] by (cases "16 \<le> i") (simp_all add: bit_iff_odd)
    have "off mod 256 = take_bit 8 off" "off div 256 mod 256 = take_bit 8 (drop_bit 8 off)"
      by (simp_all add: take_bit_eq_mod drop_bit_eq_div)
    then show ?thesis
      using small by (auto simp: bit_simps less_diff_conv2 simp del: of_nat_take_bit)
  qed
  then have "(ucast ?lo OR push_bit 8 (ucast ?hi) :: u32) = word_of_nat off"
    by (rule bit_eqI)
  then show ?thesis
    using assms by (simp add: read_offset_def unat_of_nat)
qed

lemma decompress_token:
  assumes "length lits < 2 ^ 32" and "l < 16" and "length out + length lits \<le> cap"
    and token: "token = push_bit 4 (word_of_nat (min 15 (length lits))) OR word_of_nat l"
  shows "decompress_loop cap out (token # literal_ext (length lits) @ lits @ rest) =
    (if rest = [] then Some (out @ lits)
     else if length rest < 2 then None
     else if read_offset rest = 0 \<or> length (out @ lits) < read_offset rest then None
     else (case token_length (word_of_nat l) 4 (drop 2 rest) of
             None \<Rightarrow> None
           | Some (match_len, ip5) \<Rightarrow>
             if cap - length (out @ lits) < unat match_len then None
             else decompress_loop cap (copy_match (out @ lits) (read_offset rest) (unat match_len)) ip5))"
proof -
  let ?n = "length lits"
  have hi: "drop_bit 4 token = word_of_nat (min 15 ?n)" and lo: "token AND 15 = word_of_nat l"
    unfolding token using assms(2) by (intro token_nibbles; simp)+
  have len: "token_length (drop_bit 4 token) 0 (literal_ext ?n @ lits @ rest) = Some (word_of_nat ?n, lits @ rest)"
    using token_length_ext [OF hi, of 0] by simp
  have "unat (word_of_nat ?n :: u32) = ?n"
    using assms(1) by (simp add: unat_of_nat)
  moreover have "\<not> cap - length out < ?n"
    using assms(3) by linarith
  ultimately show ?thesis
    by (simp only: decompress_loop.simps(2) len lo) (simp add: Let_def)
qed

text \<open>A sequence of the compressor takes the decompressor from one prefix of the source to the next.\<close>

lemma decompress_sequence:
  assumes "anchor \<le> ip" and "0 < off" and "off \<le> ip" and "off \<le> 65535"
    and "ip + (mt + 4) \<le> length src" and "length src < 2 ^ 31" and "length src \<le> cap"
    and "\<forall>j < mt + 4. src ! (ip + j) = src ! (ip - off + j)"
  shows "decompress_loop cap (take anchor src) (lz4_sequence (substr src anchor ip) off mt @ tail) =
    decompress_loop cap (take (ip + (mt + 4)) src) tail"
proof -
  let ?lits = "substr src anchor ip"
  have lits: "length ?lits = ip - anchor" "take anchor src @ ?lits = take ip src"
    using assms(1,5) by (auto simp: substr_def take_add [symmetric])
  have mlen: "unat (word_of_nat mt + 4 :: u32) = mt + 4"
    using assms(5,6) unat_of_nat [of "mt + 4", where 'a = 32] by simp
  let ?token = "push_bit 4 (word_of_nat (min 15 (length ?lits))) OR word_of_nat (min 15 mt) :: byte"
  define rest :: "byte list" where
    "rest = word_of_nat (off mod 256) # word_of_nat (off div 256 mod 256) # literal_ext mt @ tail"
  have rest: "rest \<noteq> []" "\<not> length rest < 2" "drop 2 rest = literal_ext mt @ tail" "read_offset rest = off"
    using read_offset_bytes [OF assms(4)] unfolding rest_def by auto
  have seq: "lz4_sequence ?lits off mt @ tail = ?token # literal_ext (length ?lits) @ ?lits @ rest"
    unfolding lz4_sequence_def token_high token_low rest_def by simp
  have copy: "copy_match (take ip src) off (mt + 4) = take (ip + (mt + 4)) src"
    using assms by (simp add: copy_match_eq copy_bytes_match)
  have fits: "length (take ip src) = ip" "\<not> ip < off" "\<not> cap - ip < mt + 4"
    using assms by auto
  show ?thesis
    unfolding seq
    using assms(1,2,5,6,7) rest fits
    by (subst decompress_token [where l = "min 15 mt"])
      (simp_all add: lits token_length_ext [OF refl] mlen copy)
qed

lemma decompress_last:
  assumes "anchor \<le> length src" and "length src < 2 ^ 31" and "length src \<le> cap"
  shows "decompress_loop cap (take anchor src) (last_literals (drop anchor src)) = Some src"
proof -
  have eq: "last_literals (drop anchor src) = (push_bit 4 (word_of_nat (min 15 (length (drop anchor src)))) OR word_of_nat 0)
      # literal_ext (length (drop anchor src)) @ drop anchor src @ []"
    unfolding last_literals_def token_high by simp
  show ?thesis
    unfolding eq by (subst decompress_token [where l = 0]) (use assms in simp_all)
qed

section \<open>Loads and the extension of a match\<close>

lemma le_bytes_nth: "j < n \<Longrightarrow> le_bytes n w ! j = ucast (drop_bit (8 * j) w)"
proof (induction n arbitrary: j w)
  case (Suc n)
  then show ?case by (cases j) (simp_all add: algebra_simps)
qed simp

lemma get_u64_bytes: "p + 8 \<le> length src \<Longrightarrow> le_bytes 8 (get_u64 src p) = substr src p (p + 8)"
  using le_bytes_of_le [of "substr src p (p + 8)"] by (simp add: get_u64_def)

lemma get_u32_bytes: "p + 4 \<le> length src \<Longrightarrow> put_u32 (get_u32 src p) = substr src p (p + 4)"
proof -
  assume "p + 4 \<le> length src"
  then have "le_bytes 4 (of_le (substr src p (p + 4))) = substr src p (p + 4)"
    using le_bytes_of_le [of "substr src p (p + 4)"] by simp
  moreover have "le_bytes 4 (ucast (ucast w :: u32)) = le_bytes 4 w" for w :: u64
  proof (rule nth_equalityI)
    fix j
    assume "j < length (le_bytes 4 (ucast (ucast w :: u32)))"
    then show "le_bytes 4 (ucast (ucast w :: u32)) ! j = le_bytes 4 w ! j"
      by (auto simp: le_bytes_nth bit_eq_iff bit_simps)
  qed simp
  ultimately show ?thesis
    by (simp add: get_u32_def put_u32_def)
qed

definition agree :: "byte list \<Rightarrow> nat \<Rightarrow> nat \<Rightarrow> nat \<Rightarrow> bool" where
  "agree src p q n \<longleftrightarrow> (\<forall>j < n. src ! (p + j) = src ! (q + j))"

lemma agree_add: "agree src p q m \<Longrightarrow> agree src (p + m) (q + m) n \<Longrightarrow> agree src p q (m + n)"
  unfolding agree_def
  by (metis add.assoc add_diff_inverse_nat nat_add_left_cancel_less)

lemma substr_agree:
  "substr src p (p + n) = substr src q (q + n) \<Longrightarrow> p + n \<le> length src \<Longrightarrow> q + n \<le> length src \<Longrightarrow> agree src p q n"
  unfolding agree_def substr_def by (metis add_diff_cancel_left' add_leD1 nth_drop nth_take)

lemma candidate_agree:
  assumes "candidate_matches src fip (Some m) = Some True"
  shows "m < fip" "fip - m \<le> 65535" "agree src fip m 4" "fip + 4 \<le> length src"
proof -
  from assms have eq: "get_u32 src m = get_u32 src fip" "m + 4 \<le> length src" "fip + 4 \<le> length src"
    "m < fip" "fip - m \<le> 65535"
    by (auto simp: candidate_matches_def rd32_def split: if_splits)
  then show "m < fip" "fip - m \<le> 65535" "fip + 4 \<le> length src" by auto
  show "agree src fip m 4"
    using eq get_u32_bytes by (intro substr_agree) (metis, simp_all)
qed

lemma first_diff_zero: "j < lz4_first_diff_byte d \<Longrightarrow> (ucast (drop_bit (8 * j) d) :: byte) = 0"
proof (induction d arbitrary: j rule: lz4_first_diff_byte.induct)
  case (1 d)
  show ?case
  proof (cases "d \<noteq> 0 \<and> d AND 0xFF = 0")
    case True
    then have "lz4_first_diff_byte d = 1 + lz4_first_diff_byte (drop_bit 8 d)"
      by (subst lz4_first_diff_byte.simps) simp
    moreover have "(ucast d :: byte) = 0"
    proof -
      have "d AND mask 8 = 0"
        using True by (simp add: mask_eq_exp_minus_1)
      then have "take_bit 8 d = 0"
        by (simp add: take_bit_eq_mask)
      then show ?thesis
        by (simp add: bit_eq_iff bit_simps)
    qed
    ultimately show ?thesis
      using 1 True by (cases j) (simp_all add: algebra_simps)
  next
    case False
    then have "lz4_first_diff_byte d = 0"
      by (subst lz4_first_diff_byte.simps) simp
    with "1.prems" show ?thesis by simp
  qed
qed

lemma first_diff_less: "d \<noteq> 0 \<Longrightarrow> lz4_first_diff_byte d < 8"
proof (rule ccontr)
  assume "d \<noteq> 0" and "\<not> lz4_first_diff_byte d < 8"
  then have zero: "(ucast (drop_bit (8 * j) d) :: byte) = 0" if "j < 8" for j
    using that by (intro first_diff_zero) simp
  have "\<not> bit d i" if "i < 64" for i
  proof -
    have "\<not> bit (ucast (drop_bit (8 * (i div 8)) d) :: byte) (i mod 8)"
      using zero [of "i div 8"] that by simp
    then show ?thesis by (simp add: bit_simps)
  qed
  then have "d = 0"
    by (intro bit_word_eqI) simp
  with \<open>d \<noteq> 0\<close> show False by simp
qed

lemma xor_eq_0: "(a :: u64) XOR b = 0 \<longleftrightarrow> a = b"
  by (auto simp: bit_eq_iff bit_simps)

lemma first_diff_agree:
  assumes "rd64 src p = Some a" and "rd64 src q = Some b"
  shows "agree src p q (if a = b then 8 else lz4_first_diff_byte (a XOR b))"
proof -
  let ?n = "if a = b then 8 else lz4_first_diff_byte (a XOR b)"
  have bounds: "p + 8 \<le> length src" "q + 8 \<le> length src" and ab: "a = get_u64 src p" "b = get_u64 src q"
    using assms by (auto simp: rd64_def split: if_splits)
  have "src ! (p + j) = src ! (q + j)" if j: "j < ?n" for j
  proof -
    have j8: "j < 8"
      using j first_diff_less [of "a XOR b"] by (auto simp: xor_eq_0 split: if_splits)
    have "(ucast (drop_bit (8 * j) a) :: byte) = ucast (drop_bit (8 * j) b)"
    proof (cases "a = b")
      case False
      then have "(ucast (drop_bit (8 * j) (a XOR b)) :: byte) = 0"
        using j by (intro first_diff_zero) simp
      then show ?thesis
        by (auto simp: bit_eq_iff bit_simps)
    qed simp
    then have "le_bytes 8 a ! j = le_bytes 8 b ! j"
      using j8 by (simp add: le_bytes_nth)
    then show ?thesis
      using j8 bounds unfolding ab get_u64_bytes [OF bounds(1)] get_u64_bytes [OF bounds(2)]
      by (simp add: substr_def)
  qed
  then show ?thesis by (simp add: agree_def)
qed

lemma extend_words_agree:
  "me \<le> limit \<Longrightarrow> limit \<le> length src \<Longrightarrow> mc < me \<Longrightarrow>
   \<exists>early me' mc'. extend_words src limit me mc = Some (early, me', mc') \<and> me \<le> me' \<and> me' \<le> limit \<and>
     agree src me mc (me' - me) \<and> (\<not> early \<longrightarrow> mc' = mc + (me' - me))"
proof (induction src limit me mc rule: extend_words.induct)
  case (1 src limit me mc)
  show ?case
  proof (cases "8 \<le> limit - me")
    case False
    then have "extend_words src limit me mc = Some (False, me, mc)"
      using "1.prems" by (subst extend_words.simps) simp
    then show ?thesis
      using "1.prems" by (auto simp: agree_def)
  next
    case True
    have "me + 8 \<le> length src" "mc + 8 \<le> length src"
      using True "1.prems" by linarith+
    then obtain a b where ab: "rd64 src me = Some a" "rd64 src mc = Some b"
      by (simp add: rd64_def)
    note agree = first_diff_agree [OF ab]
    show ?thesis
    proof (cases "a = b")
      case False
      then have "extend_words src limit me mc = Some (True, me + lz4_first_diff_byte (a XOR b), mc)"
        using True ab by (subst extend_words.simps) simp
      moreover have "lz4_first_diff_byte (a XOR b) < 8"
        using False by (simp add: first_diff_less xor_eq_0)
      moreover have "agree src me mc (lz4_first_diff_byte (a XOR b))"
        using agree False by simp
      ultimately show ?thesis
        using True by (intro exI [of _ True] exI [of _ "me + lz4_first_diff_byte (a XOR b)"] exI [of _ mc]) simp
    next
      case eq: True
      have step: "extend_words src limit me mc = extend_words src limit (me + 8) (mc + 8)"
        using True ab eq by (subst extend_words.simps) simp
      obtain early me' mc' where IH: "extend_words src limit (me + 8) (mc + 8) = Some (early, me', mc')"
        "me + 8 \<le> me'" "me' \<le> limit" "agree src (me + 8) (mc + 8) (me' - (me + 8))"
        "\<not> early \<longrightarrow> mc' = mc + 8 + (me' - (me + 8))"
        using "1.IH" True ab eq "1.prems" by fastforce
      have "agree src me mc (8 + (me' - (me + 8)))"
        using agree eq IH(4) by (intro agree_add) simp_all
      moreover have "8 + (me' - (me + 8)) = me' - me"
        using IH(2) by simp
      ultimately show ?thesis
        using step IH by auto
    qed
  qed
qed

lemma extend_bytes_agree:
  "me \<le> limit \<Longrightarrow> limit \<le> length src \<Longrightarrow> mc < me \<Longrightarrow>
   \<exists>me'. extend_bytes src limit me mc = Some me' \<and> me \<le> me' \<and> me' \<le> limit \<and> agree src me mc (me' - me)"
proof (induction src limit me mc rule: extend_bytes.induct)
  case (1 src limit me mc)
  show ?case
  proof (cases "me < limit \<and> src ! me = src ! mc")
    case False
    then have "extend_bytes src limit me mc = Some me"
      using "1.prems" by (subst extend_bytes.simps) (auto simp: rd8_def)
    then show ?thesis
      using "1.prems" by (simp add: agree_def)
  next
    case True
    then have step: "extend_bytes src limit me mc = extend_bytes src limit (me + 1) (mc + 1)"
      using "1.prems" by (subst extend_bytes.simps) (simp add: rd8_def)
    obtain me' where IH: "extend_bytes src limit (me + 1) (mc + 1) = Some me'" "me + 1 \<le> me'" "me' \<le> limit"
      "agree src (me + 1) (mc + 1) (me' - (me + 1))"
      using "1.IH" True "1.prems" by (fastforce simp: rd8_def)
    have "agree src me mc (1 + (me' - (me + 1)))"
      using True IH(4) by (intro agree_add) (simp_all add: agree_def)
    moreover have "1 + (me' - (me + 1)) = me' - me"
      using IH(2) by simp
    ultimately show ?thesis
      using step IH by auto
  qed
qed

lemma extend_match_agree:
  assumes "me \<le> limit" and "limit \<le> length src" and "mc < me"
  shows "\<exists>me'. extend_match src limit me mc = Some me' \<and> me \<le> me' \<and> me' \<le> limit \<and> agree src me mc (me' - me)"
proof -
  obtain early me1 mc1 where words: "extend_words src limit me mc = Some (early, me1, mc1)" "me \<le> me1" "me1 \<le> limit"
    "agree src me mc (me1 - me)" "\<not> early \<longrightarrow> mc1 = mc + (me1 - me)"
    using extend_words_agree [OF assms] by auto
  show ?thesis
  proof (cases early)
    case True
    then show ?thesis
      using words by (simp add: extend_match_def)
  next
    case False
    then have mc1: "mc1 = mc + (me1 - me)" and "mc1 < me1"
      using words assms(3) by auto
    then obtain me2 where bytes: "extend_bytes src limit me1 mc1 = Some me2" "me1 \<le> me2" "me2 \<le> limit"
      "agree src me1 mc1 (me2 - me1)"
      using extend_bytes_agree [OF words(3) assms(2)] by auto
    have "agree src me mc ((me1 - me) + (me2 - me1))"
      using words bytes mc1 by (intro agree_add) simp_all
    then show ?thesis
      using words bytes False by (auto simp: extend_match_def)
  qed
qed

section \<open>The compressor\<close>

lemma hash_position_Some: "p + 4 \<le> length src \<Longrightarrow> \<exists>h. lz4_hash_position src p = Some h"
  by (simp add: lz4_hash_position_def rd32_def)

lemma hash_position_less: "lz4_hash_position src p = Some h \<Longrightarrow> h < 4096"
proof -
  have "unat (drop_bit 20 w) < 4096" for w :: u32
    using unsigned_less [of w, where 'a = nat] by (simp add: drop_bit_eq_div unat_div less_mult_imp_div_less)
  then show "lz4_hash_position src p = Some h \<Longrightarrow> h < 4096"
    by (auto simp: lz4_hash_position_def)
qed

lemma candidate_matches_Some: "fip + 4 \<le> length src \<Longrightarrow> \<exists>b. candidate_matches src fip r = Some b"
  by (auto simp: candidate_matches_def rd32_def split: option.split)

lemma search_loop_sound:
  "fip \<le> mf \<Longrightarrow> mf + 4 \<le> length src \<Longrightarrow>
   \<exists>r t'. search_loop src mf fip step nb t = Some (r, t') \<and>
     (case r of None \<Rightarrow> True
      | Some (f, m) \<Rightarrow> fip \<le> f \<and> f \<le> mf \<and> candidate_matches src f (Some m) = Some True)"
proof (induction src mf fip step nb t rule: search_loop.induct)
  case (1 src mf fip step nb t)
  obtain h where h: "lz4_hash_position src fip = Some h"
    using hash_position_Some [of fip src] "1.prems" by auto
  obtain b where b: "candidate_matches src fip (lz4_ht_get h t) = Some b"
    using candidate_matches_Some [of fip src "lz4_ht_get h t"] "1.prems" by auto
  show ?case
  proof (cases b)
    case True
    then obtain m where "lz4_ht_get h t = Some m"
      using b by (auto simp: candidate_matches_def split: option.splits)
    then show ?thesis
      using h b True "1.prems" by (subst search_loop.simps) simp
  next
    case False
    show ?thesis
    proof (cases "fip + step \<le> mf")
      case True
      then have "search_loop src mf fip step nb t =
          search_loop src mf (fip + step) (nb div 256) (nb + 1) (lz4_ht_put h fip t)"
        using h b False by (subst search_loop.simps) (simp add: Let_def)
      then show ?thesis
        using "1.IH" [OF h refl refl b] False True "1.prems" by (fastforce split: option.split)
    next
      case stop: False
      then show ?thesis
        using h b False by (subst search_loop.simps) (simp add: Let_def)
    qed
  qed
qed

lemma put_positions_Some: "mf + 4 \<le> length src \<Longrightarrow> \<exists>t'. put_positions src mf ps t = Some t'"
proof (induction ps arbitrary: t)
  case (Cons p ps)
  then show ?case
    using hash_position_Some [of p src] by auto
qed simp

lemma copy_literals_eq:
  assumes "anchor + n + 12 \<le> length src"
  shows "copy_literals src anchor n room = Some (substr src anchor (anchor + n))"
  using assms get_u64_bytes [of anchor src]
  by (auto simp: copy_literals_def rd64_def substr_def min_def)

text \<open>
  The invariant of the main loop: the output so far takes the decompressor to the source up
  to the anchor, and it is at most one byte in 255 longer than that.
\<close>

definition decodes :: "byte list \<Rightarrow> nat \<Rightarrow> byte list \<Rightarrow> bool" where
  "decodes src anchor out \<longleftrightarrow> length out \<le> anchor + anchor div 255 \<and>
     (\<forall>cap tail. length src \<le> cap \<longrightarrow>
        decompress_loop cap [] (out @ tail) = decompress_loop cap (take anchor src) tail)"

lemma div_255_add: "a div 255 + b div 255 \<le> (a + b) div (255 :: nat)"
  by (metis div_add1_eq le_add1)

lemma lz4_len_bytes_le: "(if n \<ge> 15 then lz4_len_bytes n 15 else 0) \<le> 1 + n div 255"
proof -
  have "(n - 15) div 255 \<le> n div 255" by (rule div_le_mono) simp
  then show ?thesis by (simp add: lz4_len_bytes_def)
qed

lemma sequence_needed_le:
  "anchor + anchor div 255 + sequence_needed lit mt \<le> (anchor + lit + (mt + 4)) + (anchor + lit + (mt + 4)) div 255"
proof -
  have "(if mt \<ge> 15 then lz4_len_bytes mt 15 else 0) \<le> mt"
    by (simp add: lz4_len_bytes_def) (metis Suc_leI diff_le_self div_le_dividend le_less_trans less_diff_conv2
        diff_less dual_order.strict_trans1 zero_less_numeral less_le_trans)
  moreover have "anchor div 255 + lit div 255 \<le> (anchor + lit + (mt + 4)) div 255"
    using div_255_add [of anchor lit] div_le_mono [of "anchor + lit" "anchor + lit + (mt + 4)" 255] by linarith
  ultimately show ?thesis
    using lz4_len_bytes_le [of lit] by (simp add: sequence_needed_def)
qed

lemma compress_loop_correct:
  assumes "32 \<le> length src" and "length src < 2 ^ 31"
  shows "ip \<le> length src - 12 \<Longrightarrow> anchor \<le> ip \<Longrightarrow> decodes src anchor out \<Longrightarrow>
    \<exists>r t'. compress_loop src cap ip anchor out t = Some (r, t') \<and>
      (case r of None \<Rightarrow> cap < length src + length src div 255
       | Some (a, out') \<Rightarrow> a \<le> length src \<and> decodes src a out')"
  using assms
proof (induction src cap ip anchor out t rule: compress_loop.induct)
  case (1 src cap ip anchor out t)
  let ?mf = "length src - 12" and ?limit = "length src - 5"
  have mf: "?mf + 4 \<le> length src" using "1.prems" by simp
  obtain r t1 where search: "search_loop src ?mf ip 1 256 t = Some (r, t1)"
    and r: "case r of None \<Rightarrow> True | Some (f, m) \<Rightarrow> ip \<le> f \<and> f \<le> ?mf \<and> candidate_matches src f (Some m) = Some True"
    using search_loop_sound [OF "1.prems"(1) mf, of 1 256 t] by auto
  show ?case
  proof (cases r)
    case None
    then show ?thesis
      using search "1.prems" by (subst compress_loop.simps) (simp add: Let_def)
  next
    case (Some fm)
    then obtain f m where fm: "r = Some (f, m)" by (cases fm) auto
    with r have f: "ip \<le> f" "f \<le> ?mf" and cm: "candidate_matches src f (Some m) = Some True" by auto
    note cand = candidate_agree [OF cm]
    obtain t2 where put: "put_positions src ?mf [ip..<f] t1 = Some t2"
      using put_positions_Some [OF mf] by blast
    have "f + 4 \<le> ?limit"
      using f "1.prems" by linarith
    then obtain me where ext: "extend_match src ?limit (f + 4) (m + 4) = Some me" "f + 4 \<le> me" "me \<le> ?limit"
      "agree src (f + 4) (m + 4) (me - (f + 4))"
      using extend_match_agree [of "f + 4" ?limit src "m + 4"] cand by auto
    let ?lit = "f - anchor" and ?mt = "me - f - 4"
    have me: "f + (?mt + 4) = me" using ext(2) by simp
    have "agree src f m (4 + ?mt)"
      using cand(3) ext(4) by (intro agree_add) simp_all
    then have agree: "\<forall>j < ?mt + 4. src ! (f + j) = src ! (f - (f - m) + j)"
      using cand(1) by (simp add: agree_def add.commute)
    have size: "length out + sequence_needed ?lit ?mt \<le> me + me div 255"
      using sequence_needed_le [of anchor ?lit ?mt] "1.prems"(2,3) f(1) me by (simp add: decodes_def)
    show ?thesis
    proof (cases "cap - length out < sequence_needed ?lit ?mt")
      case True
      have "me + me div 255 \<le> length src + length src div 255"
        using ext(3) by (intro add_mono div_le_mono) simp_all
      then have "cap < length src + length src div 255"
        using True size by linarith
      then show ?thesis
        using search fm put ext(1) True by (subst compress_loop.simps) (simp add: Let_def)
    next
      case False
      let ?lits = "substr src anchor f"
      have lits: "copy_literals src anchor ?lit room = Some ?lits" for room
        using copy_literals_eq [of anchor ?lit src room] f "1.prems" by simp
      define out' where "out' = out @ lz4_sequence ?lits (f - m) ?mt"
      have len: "length ?lits = ?lit"
        using f "1.prems" by simp
      have dec: "decodes src me out'"
        unfolding decodes_def
      proof (intro conjI allI impI)
        show "length out' \<le> me + me div 255"
          using size by (simp add: out'_def length_lz4_sequence len del: length_substr)
        fix c tail
        assume "length src \<le> c"
        then show "decompress_loop c [] (out' @ tail) = decompress_loop c (take me src) tail"
          using "1.prems" f cand ext agree me decompress_sequence [of anchor f "f - m" ?mt src c tail]
          by (simp add: out'_def decodes_def)
      qed
      have step: "compress_loop src cap ip anchor out t =
          (if me > ?mf then Some (Some (me, out'), t2) else compress_loop src cap me me out' t2)"
        using search fm put ext(1) False lits by (subst compress_loop.simps) (simp add: Let_def out'_def)
      show ?thesis
      proof (cases "me > ?mf")
        case True
        then show ?thesis
          using step dec ext(3) by simp
      next
        case more: False
        have "\<exists>r t'. compress_loop src cap me me out' t2 = Some (r, t') \<and>
            (case r of None \<Rightarrow> cap < length src + length src div 255
             | Some (a, out') \<Rightarrow> a \<le> length src \<and> decodes src a out')"
          using "1.IH" [OF refl refl search refl _ _ put ext(1) refl refl False lits out'_def more] fm more dec "1.prems"
          by simp
        then show ?thesis
          using step more by simp
      qed
    qed
  qed
qed

text \<open>The compressor's result, for every state of the hash table.\<close>

lemma compress_correct:
  assumes "length src < 2 ^ 31"
  shows "\<exists>out t'. lz4_compress_default src dst_capacity t = Some (out, t') \<and>
    (out \<noteq> [] \<longrightarrow> lz4_decompress_safe out (int (length src)) = Some src \<and> int (length out) \<le> dst_capacity) \<and>
    (32 \<le> length src \<and> int (length src + length src div 255 + 16) \<le> dst_capacity \<longrightarrow> out \<noteq> [])"
proof (cases "length src < 32 \<or> dst_capacity \<le> 0")
  case True
  then show ?thesis
    by (auto simp: lz4_compress_default_def)
next
  case False
  let ?t0 = "lz4_new_generation (length src) t" and ?n = "length src"
  obtain h where h: "lz4_hash_position src 0 = Some h"
    using hash_position_Some [of 0 src] False by auto
  have "decodes src 0 []" "1 \<le> ?n - 12"
    using False by (auto simp: decodes_def)
  then obtain r t1 where loop: "compress_loop src (nat dst_capacity) 1 0 [] (lz4_ht_put h 0 ?t0) = Some (r, t1)"
    and r: "case r of None \<Rightarrow> nat dst_capacity < ?n + ?n div 255 | Some (a, out') \<Rightarrow> a \<le> ?n \<and> decodes src a out'"
    using compress_loop_correct [of src 1 0 "[]" "nat dst_capacity" "lz4_ht_put h 0 ?t0"] False assms by auto
  show ?thesis
  proof (cases r)
    case None
    then show ?thesis
      using h loop r False by (auto simp: lz4_compress_default_def Let_def)
  next
    case (Some ao)
    then obtain a out where ao: "r = Some (a, out)" "a \<le> ?n" "decodes src a out"
      using r by (cases ao) auto
    let ?last = "?n - a"
    let ?need = "1 + ?last + (if ?last \<ge> 15 then lz4_len_bytes ?last 15 else 0)"
    have need: "length (last_literals (drop a src)) = ?need"
      by (simp add: last_literals_def length_literal_ext)
    have "length out \<le> a + a div 255" "a + ?last = ?n"
      using ao by (auto simp: decodes_def)
    then have bound: "length out + ?need \<le> ?n + ?n div 255 + 2"
      using lz4_len_bytes_le [of ?last] div_255_add [of a ?last] by linarith
    have dec: "decompress_loop ?n [] (out @ last_literals (drop a src)) = Some src"
      using ao assms by (simp add: decodes_def decompress_last)
    have result: "lz4_compress_default src dst_capacity t =
        (if nat dst_capacity - length out < ?need then Some ([], t1)
         else Some (out @ last_literals (drop a src), t1))"
      using h loop ao False by (simp add: lz4_compress_default_def Let_def)
    show ?thesis
    proof (cases "nat dst_capacity - length out < ?need")
      case True
      then have "\<not> int (?n + ?n div 255 + 16) \<le> dst_capacity"
        using bound by linarith
      then show ?thesis
        using result True by simp
    next
      case fits: False
      have "length (out @ last_literals (drop a src)) = length out + ?need"
        by (simp only: length_append need)
      also have "\<dots> \<le> nat dst_capacity"
        using fits by linarith
      finally have "int (length (out @ last_literals (drop a src))) \<le> dst_capacity"
        using False by linarith
      then show ?thesis
        using result fits dec by (auto simp: lz4_decompress_safe_def last_literals_def)
    qed
  qed
qed

text \<open>
  C23. LZ4 compression is lossless and memory safe. For a source of any content and any state of
  the thread's hash table, the compressor returns without an access outside the source; a
  result other than 0 fits into the destination, and decompressing it into a buffer of the
  source's size gives back exactly the source.
\<close>

theorem lz4_roundtrip:
  assumes "length src < 2 ^ 31"
  shows "\<exists>out t'. lz4_compress_default src dst_capacity t = Some (out, t') \<and>
    (out \<noteq> [] \<longrightarrow> int (length out) \<le> dst_capacity \<and> lz4_decompress_safe out (int (length src)) = Some src)"
  using compress_correct [OF assms] by blast

theorem lz4_roundtrip_witness:
  "\<exists>out t'. lz4_compress_default (replicate 64 7) 80 lz4_table0 = Some (out, t') \<and>
    (out \<noteq> [] \<longrightarrow> int (length out) \<le> 80 \<and> lz4_decompress_safe out 64 = Some (replicate 64 7))"
  using lz4_roundtrip [of "replicate 64 7" 80 lz4_table0] by simp

text \<open>
  C24. The compression bound is sufficient. For every source the compressor accepts, of at least
  32 bytes and at most the maximum input size, a destination of \<^verbatim>\<open>lz4_compress_bound\<close> bytes
  is never too small: compression succeeds.
\<close>

theorem lz4_bound_sufficient:
  assumes "32 \<le> length src" and "int (length src) \<le> LZ4_MAX_INPUT_SIZE"
  shows "\<exists>out t'. lz4_compress_default src (lz4_compress_bound (int (length src))) t = Some (out, t') \<and>
    out \<noteq> [] \<and> int (length out) \<le> lz4_compress_bound (int (length src))"
proof -
  have "length src < 2 ^ 31"
    using assms(2) by (simp add: LZ4_MAX_INPUT_SIZE_def)
  moreover have "lz4_compress_bound (int (length src)) = int (length src + length src div 255 + 16)"
    using assms(2) by (simp add: lz4_compress_bound_def zdiv_int)
  ultimately show ?thesis
    using compress_correct [of src "lz4_compress_bound (int (length src))" t] assms(1) by auto
qed

theorem lz4_bound_sufficient_witness:
  "\<exists>out t'. lz4_compress_default (replicate 64 7) 80 lz4_table0 = Some (out, t') \<and> out \<noteq> [] \<and> int (length out) \<le> 80"
  using lz4_bound_sufficient [of "replicate 64 7" lz4_table0] by (simp add: lz4_compress_bound_def LZ4_MAX_INPUT_SIZE_def)

end
