(* ===== verification/Framed_Payload.thy ===== *)
theory Framed_Payload
  imports Wire_Parsers Lz4_Correct
begin

text \<open>
  Framed payloads: the daemon's \<^verbatim>\<open>build_framed_payload\<close>
  (\<^verbatim>\<open>src/src/core/daemon/packet_builder.c\<close>), which compresses large responses when that
  pays, and the client's \<^verbatim>\<open>maybe_decompress\<close>
  (\<^verbatim>\<open>src/frontend/src/core/client/client_internal.hpp\<close>). The two are shown to be inverse
  on every payload, whatever the compressor's table holds and whichever allocations fail.
\<close>

definition MEMDBG_LZ4_THRESHOLD :: nat where
  "MEMDBG_LZ4_THRESHOLD = 4096"

text \<open>
  The raw frame; \<open>raw_ok\<close> is whether its allocation succeeds. The size \<^verbatim>\<open>data_len + 1\<close>
  is computed in 32 bits; \<^const>\<open>None\<close> is the copy beyond the allocation when it wraps.
\<close>

definition raw_frame :: "byte list \<Rightarrow> bool \<Rightarrow> (memdbg_status + byte list) option" where
  "raw_frame data raw_ok =
     (if \<not> raw_ok then Some (Inl MEMDBG_ERR_NOMEM)
      else if length data + 1 \<ge> 2 ^ 32 then None
      else Some (Inr (0 # data)))"

text \<open>
  The frame of a payload, with the compressor's table; the outer option is an access outside
  a buffer, by the compressor or the raw copy. \<open>comp_ok\<close> is whether the allocation of the
  compression buffer succeeds.
\<close>

definition build_framed_payload ::
    "byte list \<Rightarrow> bool \<Rightarrow> bool \<Rightarrow> lz4_table \<Rightarrow> ((memdbg_status + byte list) \<times> lz4_table) option" where
  "build_framed_payload data raw_ok comp_ok t =
     (let data_len = length data
      in if data_len < MEMDBG_LZ4_THRESHOLD \<or> data_len > 2 ^ 31 - 1 \<or> \<not> comp_ok
         then map_option (\<lambda>r. (r, t)) (raw_frame data raw_ok)
         else case lz4_compress_default data (lz4_compress_bound (int data_len)) t of
                None \<Rightarrow> None
              | Some (compressed, t') \<Rightarrow>
                if compressed = [] \<or> length compressed \<ge> data_len - data_len div 8
                then map_option (\<lambda>r. (r, t')) (raw_frame data raw_ok)
                else Some (Inr (1 # put_u32 (word_of_nat data_len) @ compressed), t'))"

text \<open>
  The client. \<^verbatim>\<open>out.resize\<close> fills with zeros, the capacity and the comparison use the
  length cast to \<^verbatim>\<open>int\<close>, and \<^const>\<open>None\<close> is the result \<^verbatim>\<open>false\<close>. A failing
  decompression returns -1, and before writing anything when the capacity is negative.
\<close>

definition maybe_decompress :: "byte list \<Rightarrow> byte list option" where
  "maybe_decompress response =
     (if response = [] then Some []
      else if response ! 0 = 0 then Some (drop 1 response)
      else if response ! 0 = 1 \<and> length response \<ge> 5
      then let uncomp_len = get_u32 response 1
           in (case lz4_decompress_safe (drop 5 response) (sint uncomp_len) of
                 None \<Rightarrow> if - 1 \<noteq> sint uncomp_len then None else Some (replicate (unat uncomp_len) 0)
               | Some out \<Rightarrow> if int (length out) \<noteq> sint uncomp_len then None else Some out)
      else Some response)"

lemma sint_word_of_nat: "n < 2 ^ 31 \<Longrightarrow> sint (word_of_nat n :: u32) = int n"
  by (simp add: signed_of_nat signed_take_bit_int_eq_self_iff)

lemma maybe_decompress_raw [simp]: "maybe_decompress (0 # data) = Some data"
  by (simp add: maybe_decompress_def)

lemma maybe_decompress_compressed:
  assumes "n < 2 ^ 31" and "lz4_decompress_safe compressed (int n) = Some data" and "length data = n"
  shows "maybe_decompress (1 # put_u32 (word_of_nat n) @ compressed) = Some data"
proof -
  have "get_u32 (1 # put_u32 (word_of_nat n) @ compressed) 1 = word_of_nat n"
    using get_put_u32 [of "[1]" 1] by simp
  then show ?thesis
    using assms by (simp add: maybe_decompress_def Let_def sint_word_of_nat)
qed

text \<open>
  C25. Framing is transparent. For every payload shorter than 4 GiB, every state of the
  compressor's table and every outcome of the allocations, the daemon either reports that it
  is out of memory, and then only when the raw frame could not be allocated, or builds a
  frame at most one byte longer than the payload from which the client recovers exactly the
  payload.
\<close>

theorem framed_payload_roundtrip:
  assumes "length data < 2 ^ 32 - 1"
  shows "\<exists>r t'. build_framed_payload data raw_ok comp_ok t = Some (r, t') \<and>
    (case r of Inl st \<Rightarrow> st = MEMDBG_ERR_NOMEM \<and> \<not> raw_ok
     | Inr frame \<Rightarrow> maybe_decompress frame = Some data \<and> length frame \<le> length data + 1)"
proof -
  have raw: "\<exists>r. raw_frame data raw_ok = Some r \<and> (case r of Inl st \<Rightarrow> st = MEMDBG_ERR_NOMEM \<and> \<not> raw_ok
     | Inr frame \<Rightarrow> maybe_decompress frame = Some data \<and> length frame \<le> length data + 1)"
    using assms by (simp add: raw_frame_def)
  let ?bound = "lz4_compress_bound (int (length data))"
  show ?thesis
  proof (cases "length data < MEMDBG_LZ4_THRESHOLD \<or> length data > 2 ^ 31 - 1 \<or> \<not> comp_ok")
    case True
    then show ?thesis
      using raw by (auto simp: build_framed_payload_def)
  next
    case False
    then have small: "length data < 2 ^ 31" by simp
    obtain out t' where comp: "lz4_compress_default data ?bound t = Some (out, t')"
      "out \<noteq> [] \<longrightarrow> lz4_decompress_safe out (int (length data)) = Some data"
      using compress_correct [OF small, of ?bound t] by auto
    show ?thesis
    proof (cases "out = [] \<or> length out \<ge> length data - length data div 8")
      case True
      then show ?thesis
        using raw comp(1) False by (auto simp: build_framed_payload_def Let_def)
    next
      case fits: False
      then have "maybe_decompress (1 # put_u32 (word_of_nat (length data)) @ out) = Some data"
        using small comp(2) by (intro maybe_decompress_compressed) auto
      moreover have "512 \<le> length data div 8"
        using False div_le_mono [of 4096 "length data" 8] by (simp add: MEMDBG_LZ4_THRESHOLD_def)
      then have "length (1 # put_u32 (word_of_nat (length data)) @ out) \<le> length data + 1"
        using fits by simp linarith
      ultimately show ?thesis
        using comp(1) False fits by (auto simp: build_framed_payload_def Let_def)
    qed
  qed
qed

theorem framed_payload_roundtrip_witness:
  "\<exists>r t'. build_framed_payload [1, 2, 3] True True lz4_table0 = Some (r, t') \<and>
    (case r of Inl st \<Rightarrow> st = MEMDBG_ERR_NOMEM \<and> \<not> True
     | Inr frame \<Rightarrow> maybe_decompress frame = Some [1, 2, 3] \<and> length frame \<le> length [1, 2, 3 :: byte] + 1)"
  by (rule framed_payload_roundtrip) simp

lemma maybe_decompress_minus_one:
  assumes "response ! 0 = 1" and "5 \<le> length response" and "get_u32 response 1 = u" and "sint u = - 1"
  shows "maybe_decompress response = Some (replicate (unat u) 0)"
  using assms by (auto simp: maybe_decompress_def Let_def lz4_decompress_safe_def)

text \<open>
  A frame that announces the length 2 to the 32 minus 1 is accepted without being
  decompressed. The length becomes -1 as an \<^verbatim>\<open>int\<close>; the decompressor rejects it with -1,
  the comparison takes this for success, and the client goes on with 4 GiB of zeros.
\<close>

theorem bogus_length_accepted:
  "maybe_decompress (1 # 255 # 255 # 255 # 255 # rest) = Some (replicate (2 ^ 32 - 1) 0)"
proof -
  have four: "(4 :: nat) = Suc (Suc (Suc (Suc 0)))" by simp
  have "put_u32 0xFFFFFFFF = [255, 255, 255, 255]"
    unfolding put_u32_def four le_bytes.simps by (simp add: drop_bit_eq_div)
  then have "get_u32 (1 # 255 # 255 # 255 # 255 # rest) 1 = 0xFFFFFFFF"
    using get_put_u32 [of "[1]" 1 "0xFFFFFFFF" rest] by simp
  then have "maybe_decompress (1 # 255 # 255 # 255 # 255 # rest) = Some (replicate (unat (0xFFFFFFFF :: u32)) 0)"
    by (intro maybe_decompress_minus_one) simp_all
  moreover have "unat (0xFFFFFFFF :: u32) = 2 ^ 32 - 1"
    by simp
  ultimately show ?thesis
    by (simp only:)
qed

end
