(* ===== verification/Client_Transport.thy ===== *)
theory Client_Transport
  imports Framed_Payload
begin

text \<open>
  The transport of the frontend's \<^verbatim>\<open>Client\<close> (\<^verbatim>\<open>src/frontend/src/core/client/memdbg_client.cpp\<close>):
  requests, responses and the request pipeline over one socket, and the writer of the
  daemon's responses (\<^verbatim>\<open>src/src/core/daemon/packet_builder.c\<close>). The object is a record in
  the state monad. What the socket does is a list of events per direction: a call of
  \<^verbatim>\<open>recv\<close> takes bytes of the first chunk or reports its failure, a call of \<^verbatim>\<open>send\<close>
  accepts some bytes or fails. With the receive timeout set, a socket with nothing more to
  deliver times out, and one with no further send event accepts the rest. Locks are left out:
  every operation runs under \<^verbatim>\<open>io_mutex_\<close>.
\<close>

section \<open>Headers\<close>

definition put_u16 :: "u16 \<Rightarrow> byte list" where
  "put_u16 w = le_bytes 2 (ucast w)"

definition get_u16 :: "byte list \<Rightarrow> nat \<Rightarrow> u16" where
  "get_u16 bs off = ucast (of_le (substr bs off (off + 2)))"

record packet_header =
  ph_magic :: u32
  ph_version :: u16
  ph_command :: u16
  ph_request_id :: u32
  ph_length :: u32

record response_header =
  rh_magic :: u32
  rh_version :: u16
  rh_command :: u16
  rh_request_id :: u32
  rh_status :: int
  rh_length :: u32

definition packet_header_bytes :: "packet_header \<Rightarrow> byte list" where
  "packet_header_bytes h = put_u32 (ph_magic h) @ put_u16 (ph_version h) @ put_u16 (ph_command h) @
     put_u32 (ph_request_id h) @ put_u32 (ph_length h)"

definition response_header_bytes :: "response_header \<Rightarrow> byte list" where
  "response_header_bytes h = put_u32 (rh_magic h) @ put_u16 (rh_version h) @ put_u16 (rh_command h) @
     put_u32 (rh_request_id h) @ put_i32 (rh_status h) @ put_u32 (rh_length h)"

definition response_header_of :: "byte list \<Rightarrow> response_header" where
  "response_header_of bs = \<lparr>rh_magic = get_u32 bs 0, rh_version = get_u16 bs 4, rh_command = get_u16 bs 6,
     rh_request_id = get_u32 bs 8, rh_status = get_i32 bs 12, rh_length = get_u32 bs 16\<rparr>"

definition MEMDBG_PACKET_MAGIC :: u32 where
  "MEMDBG_PACKET_MAGIC = 0x4742444d"

definition MEMDBG_PROTOCOL_VERSION :: u16 where
  "MEMDBG_PROTOCOL_VERSION = 1"

section \<open>The daemon's responses\<close>

text \<open>\<^verbatim>\<open>memdbg_status_t\<close> as its number.\<close>

fun status_code :: "memdbg_status \<Rightarrow> int" where
  "status_code MEMDBG_OK = 0"
| "status_code MEMDBG_ERR_PARAM = - 1"
| "status_code MEMDBG_ERR_NOMEM = - 2"
| "status_code MEMDBG_ERR_IO = - 3"
| "status_code MEMDBG_ERR_NET = - 4"
| "status_code MEMDBG_ERR_PROTOCOL = - 5"
| "status_code MEMDBG_ERR_UNSUPPORTED = - 6"
| "status_code MEMDBG_ERR_NOT_FOUND = - 7"
| "status_code MEMDBG_ERR_PERMISSION = - 8"
| "status_code MEMDBG_ERR_OVERFLOW = - 9"
| "status_code MEMDBG_ERR_STATE = - 10"

definition reply_header :: "packet_header \<Rightarrow> memdbg_status \<Rightarrow> nat \<Rightarrow> response_header" where
  "reply_header req status len = \<lparr>rh_magic = MEMDBG_PACKET_MAGIC, rh_version = MEMDBG_PROTOCOL_VERSION,
     rh_command = ph_command req, rh_request_id = ph_request_id req, rh_status = status_code status,
     rh_length = word_of_nat len\<rparr>"

text \<open>
  The bytes of a response on the socket; the branches of \<^verbatim>\<open>send_response\<close> differ in how
  many writes they use. The payload's length is a \<^verbatim>\<open>uint32_t\<close>.
\<close>

definition send_response :: "packet_header \<Rightarrow> memdbg_status \<Rightarrow> byte list \<Rightarrow> byte list" where
  "send_response req status payload = response_header_bytes (reply_header req status (length payload)) @ payload"

text \<open>
  \<^verbatim>\<open>send_framed_response\<close>, which compresses into a buffer of its own; \<open>comp_ok\<close> is
  whether that buffer could be allocated.
\<close>

definition send_framed_response ::
    "packet_header \<Rightarrow> memdbg_status \<Rightarrow> byte list \<Rightarrow> bool \<Rightarrow> lz4_table \<Rightarrow> (byte list \<times> lz4_table) option" where
  "send_framed_response req status data comp_ok t =
     (let raw = response_header_bytes (reply_header req status (length data + 1)) @ 0 # data
      in if length data < MEMDBG_LZ4_THRESHOLD \<or> length data > 2 ^ 31 - 1 \<or> \<not> comp_ok then Some (raw, t)
         else case lz4_compress_default data (lz4_compress_bound (int (length data))) t of
                None \<Rightarrow> None
              | Some (compressed, t') \<Rightarrow>
                if compressed \<noteq> [] \<and> length compressed < length data - length data div 8
                then Some (response_header_bytes (reply_header req status (length compressed + 5)) @
                           1 # put_u32 (word_of_nat (length data)) @ compressed, t')
                else Some (raw, t'))"

section \<open>The client object\<close>

datatype socket_error = Interrupted | WouldBlock | Broken_Pipe | Connection_Reset | Other_Error string

text \<open>
  A failure comes with the value \<^verbatim>\<open>cancel_requested_\<close> has when it is examined; another
  thread may set it while the call waits. A chunk is not empty. The klog fields are the
  second socket, whether \<^verbatim>\<open>klog_reader_thread_\<close> is joinable, the flags of the reader and
  the chunks it has queued.
\<close>

datatype recv_event = Recv_Data byte "byte list" | Recv_Fail bool socket_error | Recv_Closed bool

datatype send_event = Send_Some nat | Send_Fail bool socket_error | Send_Zero

record client =
  c_fd :: bool
  c_klog_fd :: bool
  c_cancel_requested :: bool
  c_klog_joinable :: bool
  c_klog_running :: bool
  c_klog_closed :: bool
  c_klog_buf :: "byte list list"
  c_socket_runtime_active :: bool
  c_next_request_id :: u32
  c_last_error :: string
  c_compressed_maps_support :: int
  c_pipeline_buffer :: "byte list"
  c_pipeline_requests :: "(u32 \<times> u16) list"
  c_pipeline_responses :: "u32 \<rightharpoonup> byte list"
  c_pipeline_statuses :: "u32 \<rightharpoonup> int"
  c_rx :: "recv_event list"
  c_tx :: "send_event list"
  c_sent :: "byte list"

definition set_error :: "string \<Rightarrow> (client, unit) state" where
  "set_error message = modify (\<lambda>c. c\<lparr>c_last_error := message\<rparr>)"

definition clear_error :: "(client, unit) state" where
  "clear_error = modify (\<lambda>c. c\<lparr>c_last_error := []\<rparr>)"

definition pipeline_reset_unlocked :: "client \<Rightarrow> client" where
  "pipeline_reset_unlocked c = c\<lparr>c_pipeline_buffer := [], c_pipeline_requests := [],
     c_pipeline_responses := Map.empty, c_pipeline_statuses := Map.empty\<rparr>"

text \<open>
  Joining the reader thread waits for the end of its loop, which sets
  \<^verbatim>\<open>klog_reader_closed_\<close>.
\<close>

definition klog_stop_reader :: "client \<Rightarrow> client" where
  "klog_stop_reader c = (if c_klog_joinable c
     then c\<lparr>c_klog_running := False, c_klog_closed := True, c_klog_joinable := False, c_klog_buf := []\<rparr>
     else c\<lparr>c_klog_running := False, c_klog_buf := []\<rparr>)"

definition klog_disconnect :: "client \<Rightarrow> client" where
  "klog_disconnect c = (klog_stop_reader c)\<lparr>c_klog_fd := False\<rparr>"

definition disconnect_unlocked :: "client \<Rightarrow> client" where
  "disconnect_unlocked c = (pipeline_reset_unlocked (klog_disconnect c))\<lparr>c_compressed_maps_support := - 1,
     c_fd := False, c_socket_runtime_active := False\<rparr>"

definition errno_text :: "string \<Rightarrow> socket_error \<Rightarrow> string \<Rightarrow> string" where
  "errno_text prefix e other =
     (case e of
        Broken_Pipe \<Rightarrow> prefix @ '': connection lost '' @ [CHR 0xE2, CHR 0x80, CHR 0x94] @
          '' the console disconnected abruptly''
      | Connection_Reset \<Rightarrow> prefix @ '': connection reset by console''
      | _ \<Rightarrow> prefix @ '': '' @ other)"

definition error_text :: "socket_error \<Rightarrow> string" where
  "error_text e = (case e of Other_Error s \<Rightarrow> s | _ \<Rightarrow> ''socket error'')"

text \<open>The loop of \<^verbatim>\<open>read_exact\<close>: an error message, or the bytes; and the events left.\<close>

fun read_events :: "nat \<Rightarrow> recv_event list \<Rightarrow> (string + byte list) \<times> recv_event list" where
  "read_events 0 es = (Inr [], es)"
| "read_events (Suc n) [] = (Inl ''recv: timed out waiting for payload response'', [])"
| "read_events (Suc n) (Recv_Data b bs # es) =
     (if n < length bs then (Inr (b # take n bs), Recv_Data (bs ! n) (drop (Suc n) bs) # es)
      else case read_events (n - length bs) es of
             (Inl e, es') \<Rightarrow> (Inl e, es')
           | (Inr cs, es') \<Rightarrow> (Inr (b # bs @ cs), es'))"
| "read_events (Suc n) (Recv_Fail cancelled e # es) =
     (if cancelled then (Inl ''operation cancelled'', es)
      else if e = Interrupted then read_events (Suc n) es
      else if e = WouldBlock then (Inl ''recv: timed out waiting for payload response'', es)
      else (Inl (errno_text ''recv'' e (error_text e)), es))"
| "read_events (Suc n) (Recv_Closed cancelled # es) =
     (Inl (if cancelled then ''operation cancelled'' else ''connection closed by console''), es)"

definition read_exact :: "nat \<Rightarrow> (client, byte list option) state" where
  "read_exact n = State (\<lambda>c.
     if \<not> c_fd c then (None, c\<lparr>c_last_error := ''not connected''\<rparr>)
     else case read_events n (c_rx c) of
            (Inr bs, es) \<Rightarrow> (Some bs, c\<lparr>c_rx := es\<rparr>)
          | (Inl e, es) \<Rightarrow> (None, disconnect_unlocked (c\<lparr>c_rx := es, c_last_error := e\<rparr>)))"

text \<open>The loop of \<^verbatim>\<open>write_all\<close>: the error, the bytes the socket took, the events left.\<close>

fun write_events :: "byte list \<Rightarrow> send_event list \<Rightarrow> string option \<times> byte list \<times> send_event list" where
  "write_events [] es = (None, [], es)"
| "write_events (b # bs) [] = (None, b # bs, [])"
| "write_events (b # bs) (Send_Some k # es) =
     (case write_events (drop k bs) es of (e, sent, es') \<Rightarrow> (e, b # take k bs @ sent, es'))"
| "write_events (b # bs) (Send_Fail cancelled e # es) =
     (if cancelled then (Some ''operation cancelled'', [], es)
      else if e = Interrupted then write_events (b # bs) es
      else (Some (errno_text ''send'' e (error_text e)), [], es))"
| "write_events (b # bs) (Send_Zero # es) = (Some ''send: connection lost'', [], es)"

definition write_all :: "byte list \<Rightarrow> (client, bool) state" where
  "write_all data = State (\<lambda>c.
     if \<not> c_fd c then (False, c\<lparr>c_last_error := ''not connected''\<rparr>)
     else case write_events data (c_tx c) of
            (None, sent, es) \<Rightarrow> (True, c\<lparr>c_tx := es, c_sent := c_sent c @ sent\<rparr>)
          | (Some e, sent, es) \<Rightarrow> (False, disconnect_unlocked
              (c\<lparr>c_tx := es, c_sent := c_sent c @ sent, c_last_error := e\<rparr>)))"

definition next_request_id_unlocked :: "(client, u32) state" where
  "next_request_id_unlocked = do {
     request_id \<leftarrow> gets c_next_request_id;
     _ \<leftarrow> modify (\<lambda>c. c\<lparr>c_next_request_id := request_id + 1\<rparr>);
     if request_id = 0
     then do {
       request_id' \<leftarrow> gets c_next_request_id;
       _ \<leftarrow> modify (\<lambda>c. c\<lparr>c_next_request_id := request_id' + 1\<rparr>);
       State_Monad.return request_id'
     }
     else State_Monad.return request_id
   }"

section \<open>Requests\<close>

definition MEMDBG_CMD_PROCESS_MAPS :: u16 where "MEMDBG_CMD_PROCESS_MAPS = 0x0101"
definition MEMDBG_CMD_PROCESS_MAPS_V2 :: u16 where "MEMDBG_CMD_PROCESS_MAPS_V2 = 0x0110"

definition max_response_for_command :: "u16 \<Rightarrow> nat" where
  "max_response_for_command command =
     (if command = MEMDBG_CMD_PROCESS_MAPS \<or> command = MEMDBG_CMD_PROCESS_MAPS_V2
      then MEMDBG_PROTOCOL_MAX_MAP_RESPONSE else MEMDBG_PROTOCOL_MAX_PACKET + 1024 * 1024)"

definition request_header :: "u16 \<Rightarrow> u32 \<Rightarrow> nat \<Rightarrow> packet_header" where
  "request_header command rid len = \<lparr>ph_magic = MEMDBG_PACKET_MAGIC, ph_version = MEMDBG_PROTOCOL_VERSION,
     ph_command = command, ph_request_id = rid, ph_length = word_of_nat len\<rparr>"

definition valid_response :: "u16 \<Rightarrow> u32 \<Rightarrow> response_header \<Rightarrow> bool" where
  "valid_response command rid h \<longleftrightarrow> rh_magic h = MEMDBG_PACKET_MAGIC \<and>
     rh_version h = MEMDBG_PROTOCOL_VERSION \<and> rh_command h = command \<and> rh_request_id h = rid"

definition payload_status_name :: "int \<Rightarrow> string" where
  "payload_status_name status =
     (if status = 0 then ''ok'' else if status = - 1 then ''invalid parameter''
      else if status = - 2 then ''out of memory'' else if status = - 3 then ''i/o error''
      else if status = - 4 then ''network error'' else if status = - 5 then ''protocol error''
      else if status = - 6 then ''unsupported'' else if status = - 7 then ''not found''
      else if status = - 8 then ''permission denied'' else if status = - 9 then ''overflow''
      else if status = - 10 then ''invalid state'' else ''unknown error'')"

definition payload_status_hint :: "u16 \<Rightarrow> int \<Rightarrow> string" where
  "payload_status_hint command status =
     (let scan_unknown = (command = 0x0304 \<or> command = 0x0306);
          scan = (scan_unknown \<or> command = 0x0300 \<or> command = 0x0301 \<or> command = 0x0302 \<or>
                  command = 0x0305 \<or> command = 0x0303);
          general = (if status = - 3 then ''verify the target process, selected map/range, and payload privileges''
            else if status = - 8 then ''the payload could not access the target process memory''
            else if status = - 1 then ''check that a process and a valid address/range are selected''
            else if status = - 6 then ''this payload/platform does not expose the requested operation''
            else [])
      in if command = 0x0600 \<and> status = - 8
         then ''ptrace attach was denied; try a user process/game process and check payload privileges''
         else if command = 0x0600 \<and> status = - 7
         then ''the target process no longer exists; refresh PIDs''
         else if command = 0x0600 \<and> status = - 10
         then ''the debugger is already attached or the target did not enter a traceable stop state''
         else if command = 0x0600 \<and> status = - 3
         then ''ptrace attach failed on the payload; check /data/memdbg/memdbg.log for the errno line''
         else if scan \<and> status = - 10
         then ''another process-wide scan is already running; wait for it to finish before starting a new one''
         else if scan \<and> status = - 7
         then ''the target process no longer exists; refresh PIDs''
         else if scan \<and> status = - 5
         then (if scan_unknown
               then ''unknown-scan request ABI mismatch; update the payload and frontend together''
               else ''scan request size mismatch; the frontend and payload protocol versions may be out of sync'')
         else if scan \<and> status = - 6
         then (if scan_unknown
               then ''the payload does not support this unknown-scan request ABI version''
               else ''this scan request is not supported by the payload'')
         else general)"

definition status_message :: "u16 \<Rightarrow> int \<Rightarrow> string" where
  "status_message command status =
     ''payload status '' @ dec_of_int status @ '' ('' @ payload_status_name status @ '')'' @
     (let hint = payload_status_hint command status in if hint \<noteq> [] then '': '' @ hint else [])"

text \<open>
  A request succeeds with the response, is answered with a status other than 0 and a body, or
  fails; the caller's buffer after a failure is not modelled.
\<close>

datatype request_result = Request_Ok "byte list" | Request_Status int "byte list" | Request_Failed

definition transmit :: "byte list \<Rightarrow> byte list \<Rightarrow> (client, bool) state" where
  "transmit header payload =
     (if length payload \<le> 4096 then write_all (header @ payload)
      else do {
        ok \<leftarrow> write_all header;
        if ok then write_all payload else State_Monad.return False
      })"

text \<open>The body of a response whose header has been accepted, and the whole response.\<close>

definition receive_body :: "u16 \<Rightarrow> response_header \<Rightarrow> (client, request_result) state" where
  "receive_body command h = do {
     body \<leftarrow> (if rh_length h = 0 then State_Monad.return (Some []) else read_exact (unat (rh_length h)));
     case body of None \<Rightarrow> State_Monad.return Request_Failed
     | Some response \<Rightarrow>
       if rh_status h \<noteq> 0
       then do {
         _ \<leftarrow> set_error (status_message command (rh_status h));
         State_Monad.return (Request_Status (rh_status h) response)
       }
       else do { _ \<leftarrow> clear_error; State_Monad.return (Request_Ok response) }
   }"

definition receive_response :: "u16 \<Rightarrow> u32 \<Rightarrow> (client, request_result) state" where
  "receive_response command rid = do {
     r \<leftarrow> read_exact 20;
     case r of None \<Rightarrow> State_Monad.return Request_Failed
     | Some bs \<Rightarrow>
       if \<not> valid_response command rid (response_header_of bs)
       then do {
         _ \<leftarrow> set_error ''invalid response header'';
         _ \<leftarrow> modify disconnect_unlocked;
         State_Monad.return Request_Failed
       }
       else if unat (rh_length (response_header_of bs)) > max_response_for_command command
       then do {
         _ \<leftarrow> set_error ''response too large'';
         _ \<leftarrow> modify disconnect_unlocked;
         State_Monad.return Request_Failed
       }
       else receive_body command (response_header_of bs)
   }"

definition request :: "u16 \<Rightarrow> byte list \<Rightarrow> (client, request_result) state" where
  "request command payload =
     (if length payload > MEMDBG_PROTOCOL_MAX_PACKET
      then do { _ \<leftarrow> set_error ''invalid request payload''; State_Monad.return Request_Failed }
      else do {
        fd \<leftarrow> gets c_fd;
        if \<not> fd then do { _ \<leftarrow> set_error ''not connected''; State_Monad.return Request_Failed }
        else do {
          rid \<leftarrow> next_request_id_unlocked;
          sent \<leftarrow> transmit (packet_header_bytes (request_header command rid (length payload))) payload;
          if \<not> sent then State_Monad.return Request_Failed
          else receive_response command rid
        }
      })"

text \<open>\<^verbatim>\<open>raw_request\<close>: a complete exchange counts, whatever its status.\<close>

definition raw_request :: "u16 \<Rightarrow> byte list \<Rightarrow> (client, (int \<times> byte list) option) state" where
  "raw_request command payload = do {
     r \<leftarrow> request command payload;
     State_Monad.return (case r of
        Request_Ok response \<Rightarrow> Some (0, response)
      | Request_Status status response \<Rightarrow> Some (status, response)
      | Request_Failed \<Rightarrow> None)
   }"

text \<open>
  In \<^verbatim>\<open>send_goodbye_unlocked\<close> the checks of the response decide nothing.
\<close>

definition send_goodbye_unlocked :: "(client, unit) state" where
  "send_goodbye_unlocked = do {
     fd \<leftarrow> gets c_fd;
     cancelled \<leftarrow> gets c_cancel_requested;
     if \<not> fd \<or> cancelled then State_Monad.return ()
     else do {
       rid \<leftarrow> next_request_id_unlocked;
       sent \<leftarrow> write_all (packet_header_bytes (request_header 3 rid 0));
       if \<not> sent then State_Monad.return ()
       else do { _ \<leftarrow> read_exact 20; State_Monad.return () }
     }
   }"

text \<open>\<^verbatim>\<open>disconnect\<close> when no other operation holds the lock.\<close>

definition disconnect :: "(client, unit) state" where
  "disconnect = do { _ \<leftarrow> send_goodbye_unlocked; modify disconnect_unlocked }"

section \<open>The request pipeline\<close>

definition kPipelineMaxBuffer :: nat where
  "kPipelineMaxBuffer = 1024 * 1024"

definition pipeline_send :: "u16 \<Rightarrow> byte list \<Rightarrow> (client, u32) state" where
  "pipeline_send command payload =
     (if length payload > MEMDBG_PROTOCOL_MAX_PACKET
      then do { _ \<leftarrow> set_error ''invalid pipeline request payload''; State_Monad.return 0 }
      else do {
        buffered \<leftarrow> gets (\<lambda>c. length (c_pipeline_buffer c));
        let frame_size = 16 + length payload;
        if frame_size > kPipelineMaxBuffer \<or> buffered > kPipelineMaxBuffer - frame_size
        then State_Monad.return 0
        else do {
          rid \<leftarrow> next_request_id_unlocked;
          _ \<leftarrow> modify (\<lambda>c. c\<lparr>c_pipeline_buffer := c_pipeline_buffer c @
                 packet_header_bytes (request_header command rid (length payload)) @ payload\<rparr>);
          _ \<leftarrow> modify (\<lambda>c. c\<lparr>c_pipeline_requests := c_pipeline_requests c @ [(rid, command)]\<rparr>);
          State_Monad.return rid
        }
      })"

text \<open>One response of the loop: its body and the tables; and the loop.\<close>

definition flush_body :: "u32 \<Rightarrow> response_header \<Rightarrow> (client, bool) state" where
  "flush_body rid h = do {
     _ \<leftarrow> modify (\<lambda>c. c\<lparr>c_pipeline_statuses := (c_pipeline_statuses c)(rid \<mapsto> rh_status h)\<rparr>);
     body \<leftarrow> (if unat (rh_length h) > 0 then read_exact (unat (rh_length h))
             else State_Monad.return (Some []));
     case body of
       None \<Rightarrow> do { _ \<leftarrow> modify pipeline_reset_unlocked; State_Monad.return False }
     | Some response \<Rightarrow> do {
         _ \<leftarrow> modify (\<lambda>c. c\<lparr>c_pipeline_responses := (c_pipeline_responses c)(rid \<mapsto> response)\<rparr>);
         State_Monad.return True
       }
   }"

definition flush_one :: "u32 \<Rightarrow> u16 \<Rightarrow> (client, bool) state" where
  "flush_one rid command = do {
     r \<leftarrow> read_exact 20;
     case r of None \<Rightarrow> do { _ \<leftarrow> modify pipeline_reset_unlocked; State_Monad.return False }
     | Some bs \<Rightarrow>
       if \<not> valid_response command rid (response_header_of bs)
       then do {
         _ \<leftarrow> set_error ''invalid pipeline response header'';
         _ \<leftarrow> modify disconnect_unlocked;
         State_Monad.return False
       }
       else if unat (rh_length (response_header_of bs)) > max_response_for_command command
       then do {
         _ \<leftarrow> set_error ''pipeline response too large'';
         _ \<leftarrow> modify disconnect_unlocked;
         State_Monad.return False
       }
       else flush_body rid (response_header_of bs)
   }"

fun flush_loop :: "(u32 \<times> u16) list \<Rightarrow> (client, bool) state" where
  "flush_loop [] = do {
     _ \<leftarrow> modify (\<lambda>c. c\<lparr>c_pipeline_requests := []\<rparr>);
     State_Monad.return True
   }"
| "flush_loop ((rid, command) # reqs) = do {
     ok \<leftarrow> flush_one rid command;
     if ok then flush_loop reqs else State_Monad.return False
   }"

definition pipeline_flush :: "(client, bool) state" where
  "pipeline_flush = do {
     reqs \<leftarrow> gets c_pipeline_requests;
     if reqs = [] then State_Monad.return True
     else do {
       fd \<leftarrow> gets c_fd;
       if \<not> fd then do {
         _ \<leftarrow> set_error ''not connected'';
         _ \<leftarrow> modify pipeline_reset_unlocked;
         State_Monad.return False
       }
       else do {
         buffer \<leftarrow> gets c_pipeline_buffer;
         sent \<leftarrow> (if buffer \<noteq> [] then write_all buffer else State_Monad.return True);
         if \<not> sent then do { _ \<leftarrow> modify pipeline_reset_unlocked; State_Monad.return False }
         else do {
           _ \<leftarrow> modify (\<lambda>c. c\<lparr>c_pipeline_buffer := []\<rparr>);
           flush_loop reqs
         }
       }
     }
   }"

definition read_pipeline_response :: "u32 \<Rightarrow> (client, (byte list \<times> int) option) state" where
  "read_pipeline_response rid = do {
     resp \<leftarrow> gets (\<lambda>c. c_pipeline_responses c rid);
     case resp of
       None \<Rightarrow> do {
         _ \<leftarrow> set_error ''pipeline response not found for request_id'';
         State_Monad.return None
       }
     | Some body \<Rightarrow> do {
         status \<leftarrow> gets (\<lambda>c. c_pipeline_statuses c rid);
         _ \<leftarrow> modify (\<lambda>c. c\<lparr>c_pipeline_responses := (c_pipeline_responses c)(rid := None)\<rparr>);
         _ \<leftarrow> modify (\<lambda>c. c\<lparr>c_pipeline_statuses := (c_pipeline_statuses c)(rid := None)\<rparr>);
         State_Monad.return (Some (body, case status of Some st \<Rightarrow> st | None \<Rightarrow> status_code MEMDBG_ERR_PROTOCOL))
       }
   }"

definition pipeline_pending :: "(client, nat) state" where
  "pipeline_pending = gets (\<lambda>c. length (c_pipeline_requests c))"

end
