(* ===== verification/Client_Correct.thy ===== *)
theory Client_Correct
  imports Client_Transport
begin

text \<open>
  Properties of the client's transport. A request leaves the connection closed or the byte
  stream exactly behind its own response, so no later request can take bytes of an earlier
  one for its header; the responses of the daemon are received unchanged however the network
  cuts them; and the pipeline files every response under the request it answers.
\<close>

section \<open>The byte stream\<close>

fun stream :: "recv_event list \<Rightarrow> byte list" where
  "stream [] = []"
| "stream (Recv_Data b bs # es) = b # bs @ stream es"
| "stream (Recv_Fail _ _ # es) = stream es"
| "stream (Recv_Closed _ # es) = stream es"

text \<open>Sockets that deliver and accept everything, in any pieces and with any interruptions.\<close>

fun benign_recv :: "recv_event \<Rightarrow> bool" where
  "benign_recv (Recv_Data _ _) = True"
| "benign_recv (Recv_Fail cancelled e) = (\<not> cancelled \<and> e = Interrupted)"
| "benign_recv (Recv_Closed _) = False"

fun benign_send :: "send_event \<Rightarrow> bool" where
  "benign_send (Send_Some _) = True"
| "benign_send (Send_Fail cancelled e) = (\<not> cancelled \<and> e = Interrupted)"
| "benign_send Send_Zero = False"

lemma read_events_stream:
  "read_events n es = (Inr bs, es') \<Longrightarrow> length bs = n \<and> stream es = bs @ stream es'"
proof (induction n es arbitrary: bs es' rule: read_events.induct)
  case (3 n b bs0 es)
  show ?case
  proof (cases "n < length bs0")
    case True
    then show ?thesis
      using "3.prems" by (auto simp: Cons_nth_drop_Suc)
  next
    case False
    with "3.prems" obtain cs where "read_events (n - length bs0) es = (Inr cs, es')" "bs = b # bs0 @ cs"
      by (auto split: prod.splits sum.splits)
    with "3.IH" False show ?thesis by fastforce
  qed
qed (auto split: if_splits)

lemma read_events_benign:
  "list_all benign_recv es \<Longrightarrow> n \<le> length (stream es) \<Longrightarrow>
   \<exists>es'. read_events n es = (Inr (take n (stream es)), es') \<and> stream es' = drop n (stream es) \<and> list_all benign_recv es'"
proof (induction n es rule: read_events.induct)
  case (3 n b bs es)
  show ?case
  proof (cases "n < length bs")
    case True
    then show ?thesis
      using "3.prems" by (simp add: Cons_nth_drop_Suc)
  next
    case False
    with "3.IH" "3.prems" obtain es' where "read_events (n - length bs) es = (Inr (take (n - length bs) (stream es)), es')"
      "stream es' = drop (n - length bs) (stream es)" "list_all benign_recv es'"
      by (auto simp: le_diff_conv)
    then show ?thesis
      using False by simp
  qed
qed auto

lemma write_events_all: "write_events data es = (None, sent, es') \<Longrightarrow> sent = data"
proof (induction data es arbitrary: sent es' rule: write_events.induct)
  case (3 b bs k es)
  then show ?case by (auto split: prod.splits)
qed (auto split: if_splits)

lemma write_events_benign:
  "list_all benign_send es \<Longrightarrow> \<exists>es'. write_events data es = (None, data, es') \<and> list_all benign_send es'"
proof (induction data es rule: write_events.induct)
  case (3 b bs k es)
  then show ?case by fastforce
qed auto

section \<open>Weakest preconditions of the primitives\<close>

lemma wp_read_exact:
  "wp (read_exact n) Q c =
     (if \<not> c_fd c then Q None (c\<lparr>c_last_error := ''not connected''\<rparr>)
      else case read_events n (c_rx c) of
             (Inr bs, es) \<Rightarrow> Q (Some bs) (c\<lparr>c_rx := es\<rparr>)
           | (Inl e, es) \<Rightarrow> Q None (disconnect_unlocked (c\<lparr>c_rx := es, c_last_error := e\<rparr>)))"
  by (simp add: wp_def read_exact_def split: prod.split sum.split)

lemma wp_write_all:
  "wp (write_all data) Q c =
     (if \<not> c_fd c then Q False (c\<lparr>c_last_error := ''not connected''\<rparr>)
      else case write_events data (c_tx c) of
             (None, sent, es) \<Rightarrow> Q True (c\<lparr>c_tx := es, c_sent := c_sent c @ sent\<rparr>)
           | (Some e, sent, es) \<Rightarrow> Q False (disconnect_unlocked
               (c\<lparr>c_tx := es, c_sent := c_sent c @ sent, c_last_error := e\<rparr>)))"
  by (simp add: wp_def write_all_def split: prod.split option.split)

definition next_id :: "u32 \<Rightarrow> u32" where
  "next_id n = (if n = 0 then 1 else n)"

lemma next_id_nonzero [simp]: "next_id n \<noteq> 0"
  by (simp add: next_id_def)

lemma wp_next_request_id:
  "wp next_request_id_unlocked Q c = Q (next_id (c_next_request_id c)) (c\<lparr>c_next_request_id := next_id (c_next_request_id c) + 1\<rparr>)"
  by (simp add: next_request_id_unlocked_def wp_simps next_id_def)

lemma disconnect_fields [simp]:
  "c_fd (disconnect_unlocked c) = False"
  "c_pipeline_buffer (disconnect_unlocked c) = []"
  "c_pipeline_requests (disconnect_unlocked c) = []"
  "c_pipeline_responses (disconnect_unlocked c) = Map.empty"
  "c_pipeline_statuses (disconnect_unlocked c) = Map.empty"
  "c_last_error (disconnect_unlocked c) = c_last_error c"
  "c_rx (disconnect_unlocked c) = c_rx c"
  "c_sent (disconnect_unlocked c) = c_sent c"
  by (simp_all add: disconnect_unlocked_def pipeline_reset_unlocked_def klog_disconnect_def klog_stop_reader_def)

lemma wp_transmit:
  assumes "c_fd c"
    and "\<And>es. Q True (c\<lparr>c_tx := es, c_sent := c_sent c @ header @ payload\<rparr>)"
    and "\<And>c'. \<not> c_fd c' \<Longrightarrow> c_pipeline_requests c' = [] \<Longrightarrow> c_pipeline_responses c' = Map.empty \<Longrightarrow> Q False c'"
  shows "wp (transmit header payload) Q c"
  unfolding transmit_def
  using assms
  by (auto simp: wp_simps wp_write_all split: prod.split option.split dest!: write_events_all)

section \<open>A request and the stream\<close>

text \<open>What is known of the state after a request: the stream is behind the response, or all is closed.\<close>

definition request_post :: "u16 \<Rightarrow> byte list \<Rightarrow> client \<Rightarrow> request_result \<Rightarrow> client \<Rightarrow> bool" where
  "request_post command payload c r c' =
     (let rid = next_id (c_next_request_id c)
      in if c_fd c'
         then c_sent c' = c_sent c @ packet_header_bytes (request_header command rid (length payload)) @ payload \<and>
           (\<exists>hb body. stream (c_rx c) = hb @ body @ stream (c_rx c') \<and> length hb = 20 \<and>
              valid_response command rid (response_header_of hb) \<and>
              length body = unat (rh_length (response_header_of hb)) \<and>
              length body \<le> max_response_for_command command \<and>
              r = (if rh_status (response_header_of hb) = 0 then Request_Ok body
                   else Request_Status (rh_status (response_header_of hb)) body))
         else r = Request_Failed \<and> c_pipeline_requests c' = [] \<and> c_pipeline_responses c' = Map.empty)"

lemma request_post_closed:
  "\<not> c_fd c' \<Longrightarrow> c_pipeline_requests c' = [] \<Longrightarrow> c_pipeline_responses c' = Map.empty \<Longrightarrow>
   request_post command payload c Request_Failed c'"
  by (simp add: request_post_def)

lemma request_post_open:
  assumes "stream (c_rx c) = hb @ body @ stream (c_rx c')" and "length hb = 20"
    and "h = response_header_of hb" and "valid_response command (next_id (c_next_request_id c)) h"
    and "length body = unat (rh_length h)" and "length body \<le> max_response_for_command command"
    and "c_sent c' = c_sent c @ packet_header_bytes (request_header command (next_id (c_next_request_id c)) (length payload)) @ payload"
    and "c_fd c'"
    and "r = (if rh_status h = 0 then Request_Ok body else Request_Status (rh_status h) body)"
  shows "request_post command payload c r c'"
  unfolding request_post_def Let_def using assms by auto

lemma wp_receive_body:
  assumes d: "c_fd d" "stream (c_rx c) = hb @ stream (c_rx d)"
    "c_sent d = c_sent c @ packet_header_bytes (request_header command (next_id (c_next_request_id c)) (length payload)) @ payload"
    and h: "length hb = 20" "h = response_header_of hb" "valid_response command (next_id (c_next_request_id c)) h"
      "unat (rh_length h) \<le> max_response_for_command command"
  shows "wp (receive_body command h) (request_post command payload c) d"
proof (cases "rh_length h = 0")
  case True
  then show ?thesis
    using assms unfolding receive_body_def
    by (auto simp: wp_simps set_error_def clear_error_def intro!: request_post_open [where hb = hb and body = "[]"])
next
  case False
  obtain res es where read: "read_events (unat (rh_length h)) (c_rx d) = (res, es)"
    by (cases "read_events (unat (rh_length h)) (c_rx d)")
  show ?thesis
  proof (cases res)
    case (Inl e)
    then show ?thesis
      using read False d unfolding receive_body_def
      by (simp add: wp_simps wp_read_exact request_post_closed)
  next
    case (Inr bs)
    then have "length bs = unat (rh_length h)" "stream (c_rx d) = bs @ stream es"
      using read read_events_stream by auto
    then show ?thesis
      using read Inr False assms unfolding receive_body_def
      by (auto simp: wp_simps wp_read_exact set_error_def clear_error_def
          intro!: request_post_open [where hb = hb and body = bs])
  qed
qed

lemma wp_receive_response:
  assumes d: "c_fd d" "c_rx d = c_rx c"
    "c_sent d = c_sent c @ packet_header_bytes (request_header command (next_id (c_next_request_id c)) (length payload)) @ payload"
  shows "wp (receive_response command (next_id (c_next_request_id c))) (request_post command payload c) d"
proof -
  obtain res es where read: "read_events 20 (c_rx d) = (res, es)"
    by (cases "read_events 20 (c_rx d)")
  show ?thesis
  proof (cases res)
    case (Inl e)
    then show ?thesis
      using read d unfolding receive_response_def by (simp add: wp_simps wp_read_exact request_post_closed)
  next
    case (Inr bs)
    then have bs: "length bs = 20" "stream (c_rx c) = bs @ stream es"
      using read d read_events_stream [of 20 "c_rx d" bs es] by auto
    have "wp (receive_body command (response_header_of bs)) (request_post command payload c) (d\<lparr>c_rx := es\<rparr>)"
      if "valid_response command (next_id (c_next_request_id c)) (response_header_of bs)"
        "\<not> max_response_for_command command < unat (rh_length (response_header_of bs))"
      using bs d that by (intro wp_receive_body [where hb = bs]) simp_all
    then show ?thesis
      using read Inr d unfolding receive_response_def
      by (simp add: wp_simps wp_read_exact set_error_def request_post_closed)
  qed
qed

lemma wp_request:
  assumes "c_fd c" and "length payload \<le> MEMDBG_PROTOCOL_MAX_PACKET"
  shows "wp (request command payload) (request_post command payload c) c"
proof -
  let ?rid = "next_id (c_next_request_id c)"
  have "wp (transmit (packet_header_bytes (request_header command ?rid (length payload))) payload)
      (\<lambda>sent. wp (if \<not> sent then State_Monad.return Request_Failed else receive_response command ?rid)
         (request_post command payload c))
      (c\<lparr>c_next_request_id := ?rid + 1\<rparr>)"
    by (rule wp_transmit)
      (use assms in \<open>auto simp: wp_simps request_post_closed intro!: wp_receive_response\<close>)
  then show ?thesis
    unfolding request_def using assms by (simp add: wp_simps wp_next_request_id not_less)
qed

text \<open>
  C27. A request leaves no partial response behind. For every request on an open connection,
  however the socket behaves: when the connection is still open afterwards, exactly the
  request's header and payload were sent, exactly one response was taken from the stream, its
  header answers this request, it respects the size limit, and its status and body are the
  result; otherwise the request fails, and no pipelined request or response survives.
\<close>

theorem request_in_sync:
  assumes "c_fd c" and "length payload \<le> MEMDBG_PROTOCOL_MAX_PACKET"
  shows "request_post command payload c (fst (run_state (request command payload) c))
    (snd (run_state (request command payload) c))"
  using wp_request [OF assms] by (simp add: wp_iff_run)


text \<open>A connected client whose sockets behave as given.\<close>

definition sample_client :: "recv_event list \<Rightarrow> send_event list \<Rightarrow> client" where
  "sample_client rx tx = \<lparr>c_fd = True, c_klog_fd = False, c_cancel_requested = False, c_klog_joinable = False,
     c_klog_running = False, c_klog_closed = False, c_klog_buf = [], c_socket_runtime_active = True, c_next_request_id = 1,
     c_last_error = [], c_compressed_maps_support = - 1, c_pipeline_buffer = [], c_pipeline_requests = [],
     c_pipeline_responses = Map.empty, c_pipeline_statuses = Map.empty, c_rx = rx, c_tx = tx, c_sent = []\<rparr>"

theorem request_in_sync_witness:
  "request_post 2 [] (sample_client [Recv_Data 77 [68], Recv_Closed False] [])
    (fst (run_state (request 2 []) (sample_client [Recv_Data 77 [68], Recv_Closed False] [])))
    (snd (run_state (request 2 []) (sample_client [Recv_Data 77 [68], Recv_Closed False] [])))"
  by (rule request_in_sync) (simp_all add: sample_client_def)

section \<open>The pipeline and the stream\<close>

text \<open>A header and a body that answer a pipelined request.\<close>

definition answers :: "u32 \<times> u16 \<Rightarrow> byte list \<times> byte list \<Rightarrow> bool" where
  "answers req r \<longleftrightarrow> length (fst r) = 20 \<and> valid_response (snd req) (fst req) (response_header_of (fst r)) \<and>
     length (snd r) = unat (rh_length (response_header_of (fst r))) \<and>
     length (snd r) \<le> max_response_for_command (snd req)"

definition answer_bytes :: "byte list \<times> byte list \<Rightarrow> byte list" where
  "answer_bytes r = fst r @ snd r"

definition answer_status :: "byte list \<times> byte list \<Rightarrow> int" where
  "answer_status r = rh_status (response_header_of (fst r))"

definition all_clear :: "client \<Rightarrow> bool" where
  "all_clear c \<longleftrightarrow> \<not> c_fd c \<and> c_pipeline_buffer c = [] \<and> c_pipeline_requests c = [] \<and>
     c_pipeline_responses c = Map.empty \<and> c_pipeline_statuses c = Map.empty"

definition flush_post :: "(u32 \<times> u16) list \<Rightarrow> client \<Rightarrow> bool \<Rightarrow> client \<Rightarrow> bool" where
  "flush_post reqs c ok c' =
     (if ok
      then c_fd c' \<and> c_pipeline_requests c' = [] \<and> c_pipeline_buffer c' = c_pipeline_buffer c \<and> c_sent c' = c_sent c \<and>
        (\<exists>rs. list_all2 answers reqs rs \<and> stream (c_rx c) = concat (map answer_bytes rs) @ stream (c_rx c') \<and>
           c_pipeline_responses c' = (c_pipeline_responses c)(map fst reqs [\<mapsto>] map snd rs) \<and>
           c_pipeline_statuses c' = (c_pipeline_statuses c)(map fst reqs [\<mapsto>] map answer_status rs))
      else all_clear c')"

lemma all_clear_disconnect [simp]: "all_clear (disconnect_unlocked c)" "\<not> c_fd c \<Longrightarrow> all_clear (pipeline_reset_unlocked c)"
  by (simp_all add: all_clear_def pipeline_reset_unlocked_def)

lemma flush_post_step:
  assumes "flush_post reqs d ok c'" and "c_fd c" and "answers (rid, command) r"
    and "stream (c_rx c) = answer_bytes r @ stream (c_rx d)"
    and "c_pipeline_buffer d = c_pipeline_buffer c" and "c_sent d = c_sent c"
    and "c_pipeline_responses d = (c_pipeline_responses c)(rid \<mapsto> snd r)"
    and "c_pipeline_statuses d = (c_pipeline_statuses c)(rid \<mapsto> answer_status r)"
  shows "flush_post ((rid, command) # reqs) c ok c'"
proof (cases ok)
  case True
  with assms(1) obtain rs where "list_all2 answers reqs rs"
    "stream (c_rx d) = concat (map answer_bytes rs) @ stream (c_rx c')"
    "c_pipeline_responses c' = (c_pipeline_responses d)(map fst reqs [\<mapsto>] map snd rs)"
    "c_pipeline_statuses c' = (c_pipeline_statuses d)(map fst reqs [\<mapsto>] map answer_status rs)"
    "c_fd c'" "c_pipeline_requests c' = []" "c_pipeline_buffer c' = c_pipeline_buffer d" "c_sent c' = c_sent d"
    by (auto simp: flush_post_def)
  then show ?thesis
    using True assms by (auto simp: flush_post_def intro!: exI [of _ "r # rs"])
qed (use assms(1) in \<open>simp add: flush_post_def\<close>)

lemma wp_flush_body:
  assumes "c_fd d" and "length hb = 20" and "h = response_header_of hb" and "valid_response command rid h"
    and "unat (rh_length h) \<le> max_response_for_command command"
    and "\<And>r es. answers (rid, command) r \<Longrightarrow> stream (c_rx d) = snd r @ stream es \<Longrightarrow> fst r = hb \<Longrightarrow>
       Q True (d\<lparr>c_pipeline_statuses := (c_pipeline_statuses d)(rid \<mapsto> answer_status r), c_rx := es,
         c_pipeline_responses := (c_pipeline_responses d)(rid \<mapsto> snd r)\<rparr>)"
    and "\<And>c'. all_clear c' \<Longrightarrow> Q False c'"
  shows "wp (flush_body rid h) Q d"
proof -
  let ?n = "unat (rh_length h)"
  obtain res es where read: "read_events ?n (c_rx d) = (res, es)"
    by (cases "read_events ?n (c_rx d)")
  show ?thesis
  proof (cases res)
    case (Inl e)
    then have "?n > 0"
      using read by (cases ?n) simp_all
    then show ?thesis
      using read Inl assms(1,7) unfolding flush_body_def by (simp add: wp_simps wp_read_exact)
  next
    case (Inr bs)
    then have bs: "length bs = ?n" "stream (c_rx d) = bs @ stream es" "?n = 0 \<Longrightarrow> bs = [] \<and> es = c_rx d"
      using read read_events_stream by auto
    then have "answers (rid, command) (hb, bs)"
      using assms by (simp add: answers_def)
    then have "Q True (d\<lparr>c_pipeline_statuses := (c_pipeline_statuses d)(rid \<mapsto> rh_status h), c_rx := es,
         c_pipeline_responses := (c_pipeline_responses d)(rid \<mapsto> bs)\<rparr>)"
      using assms(6) [of "(hb, bs)" es] bs assms(3) by (simp add: answer_status_def)
    then show ?thesis
      using read Inr bs assms(1) unfolding flush_body_def by (auto simp: wp_simps wp_read_exact)
  qed
qed

lemma wp_flush_one:
  assumes "c_fd c"
    and "\<And>r es. answers (rid, command) r \<Longrightarrow> stream (c_rx c) = answer_bytes r @ stream es \<Longrightarrow>
       Q True (c\<lparr>c_pipeline_statuses := (c_pipeline_statuses c)(rid \<mapsto> answer_status r), c_rx := es,
         c_pipeline_responses := (c_pipeline_responses c)(rid \<mapsto> snd r)\<rparr>)"
    and "\<And>c'. all_clear c' \<Longrightarrow> Q False c'"
  shows "wp (flush_one rid command) Q c"
proof -
  obtain res es where read: "read_events 20 (c_rx c) = (res, es)"
    by (cases "read_events 20 (c_rx c)")
  show ?thesis
  proof (cases res)
    case (Inl e)
    then show ?thesis
      using read assms unfolding flush_one_def by (simp add: wp_simps wp_read_exact)
  next
    case (Inr bs)
    then have bs: "length bs = 20" "stream (c_rx c) = bs @ stream es"
      using read read_events_stream by auto
    have "wp (flush_body rid (response_header_of bs)) Q (c\<lparr>c_rx := es\<rparr>)"
      if "valid_response command rid (response_header_of bs)"
        "\<not> max_response_for_command command < unat (rh_length (response_header_of bs))"
      by (rule wp_flush_body [where hb = bs and command = command])
        (use that assms bs in \<open>auto simp: answer_bytes_def\<close>)
    then show ?thesis
      using read Inr assms unfolding flush_one_def by (simp add: wp_simps wp_read_exact set_error_def)
  qed
qed

lemma wp_flush_loop: "c_fd c \<Longrightarrow> wp (flush_loop reqs) (flush_post reqs c) c"
proof (induction reqs arbitrary: c)
  case Nil
  then show ?case by (simp add: wp_simps flush_post_def)
next
  case (Cons req reqs)
  obtain rid command where req: "req = (rid, command)" by force
  show ?case
    unfolding req flush_loop.simps wp_bind
  proof (rule wp_flush_one, rule Cons.prems)
    fix r es
    assume r: "answers (rid, command) r" "stream (c_rx c) = answer_bytes r @ stream es"
    let ?d = "c\<lparr>c_pipeline_statuses := (c_pipeline_statuses c)(rid \<mapsto> answer_status r), c_rx := es,
         c_pipeline_responses := (c_pipeline_responses c)(rid \<mapsto> snd r)\<rparr>"
    have "wp (flush_loop reqs) (flush_post reqs ?d) ?d"
      by (rule Cons.IH) (simp add: Cons.prems)
    then show "wp (if True then flush_loop reqs else State_Monad.return False) (flush_post ((rid, command) # reqs) c) ?d"
      using r Cons.prems by (auto elim!: wp_mono intro!: flush_post_step)
  qed (simp add: wp_simps flush_post_def)
qed

text \<open>
  A flush of the pipeline files every response under the request it answers, or nothing.
  However the socket behaves: when the flush succeeds, the whole buffer was sent and the
  stream held, in the order of the requests, one response for each, whose header answers
  exactly that request; each body and status is filed under its own identifier and the stream
  is behind the last of them. When it fails, the connection is closed and no request, response
  or status of the pipeline survives.
\<close>

theorem pipeline_flush_correct:
  assumes "c_fd c" and "c_pipeline_requests c \<noteq> []"
  shows "case run_state pipeline_flush c of (ok, c') \<Rightarrow>
    flush_post (c_pipeline_requests c) (c\<lparr>c_sent := c_sent c @ c_pipeline_buffer c, c_pipeline_buffer := []\<rparr>) ok c'"
proof -
  let ?post = "flush_post (c_pipeline_requests c) (c\<lparr>c_sent := c_sent c @ c_pipeline_buffer c, c_pipeline_buffer := []\<rparr>)"
  have frame: "flush_post reqs (c\<lparr>c_tx := es, c_sent := s, c_pipeline_buffer := b\<rparr>) =
      flush_post reqs (c\<lparr>c_sent := s, c_pipeline_buffer := b\<rparr>)" for reqs es s b
    by (intro ext) (simp add: flush_post_def)
  have loop: "wp (flush_loop (c_pipeline_requests c)) ?post
      (c\<lparr>c_tx := es, c_sent := c_sent c @ c_pipeline_buffer c, c_pipeline_buffer := []\<rparr>)" for es
    unfolding frame [where es = es, symmetric] using assms(1) by (intro wp_flush_loop) simp
  have nil: "wp (flush_loop (c_pipeline_requests c)) ?post (c\<lparr>c_pipeline_buffer := []\<rparr>)" if "c_pipeline_buffer c = []"
    using wp_flush_loop [of "c\<lparr>c_pipeline_buffer := []\<rparr>" "c_pipeline_requests c"] that assms(1) by simp
  have "wp pipeline_flush ?post c"
    unfolding pipeline_flush_def using assms loop nil
    by (auto simp: wp_simps wp_write_all flush_post_def [of _ _ False] dest!: write_events_all split: prod.split option.split)
  then show ?thesis
    by (simp add: wp_def)
qed

theorem pipeline_flush_correct_witness:
  "case run_state pipeline_flush ((sample_client [Recv_Data 77 [68], Recv_Closed False] [Send_Some 3])\<lparr>
      c_pipeline_requests := [(1, 2)], c_pipeline_buffer := packet_header_bytes (request_header 2 1 0)\<rparr>) of (ok, c') \<Rightarrow>
    flush_post [(1, 2)] ((sample_client [Recv_Data 77 [68], Recv_Closed False] [Send_Some 3])\<lparr>
      c_pipeline_requests := [(1, 2)], c_pipeline_buffer := [],
      c_sent := packet_header_bytes (request_header 2 1 0)\<rparr>) ok c'"
  using pipeline_flush_correct [of "(sample_client [Recv_Data 77 [68], Recv_Closed False] [Send_Some 3])\<lparr>
      c_pipeline_requests := [(1, 2)], c_pipeline_buffer := packet_header_bytes (request_header 2 1 0)\<rparr>"]
  by (simp add: sample_client_def)

section \<open>Delivery\<close>

text \<open>The header codec, and a connection that is up.\<close>

lemma length_put_u16 [simp]: "length (put_u16 w) = 2"
  by (simp add: put_u16_def)

lemma get_put_u16: "length pre = off \<Longrightarrow> get_u16 (pre @ put_u16 w @ post) off = w"
proof -
  assume "length pre = off"
  then have "substr (pre @ put_u16 w @ post) off (off + 2) = put_u16 w"
    using substr_field [of pre off "put_u16 w" 2 post] by simp
  then have "get_u16 (pre @ put_u16 w @ post) off = ucast (of_le (le_bytes 2 (ucast w)))"
    by (simp only: get_u16_def put_u16_def)
  also have "\<dots> = w"
    by (simp add: of_le_le_bytes bit_eq_iff bit_simps)
  finally show ?thesis .
qed

definition status_ok :: "response_header \<Rightarrow> bool" where
  "status_ok h \<longleftrightarrow> - (2 ^ 31) \<le> rh_status h \<and> rh_status h < 2 ^ 31"

lemma length_header_bytes [simp]:
  "length (packet_header_bytes p) = 16" "length (response_header_bytes h) = 20"
  by (simp_all add: packet_header_bytes_def response_header_bytes_def)

interpretation rhc: field_codec response_header_bytes "\<lambda>bs. Some (response_header_of bs)" status_ok 20
proof
  fix h assume ok: "status_ok h"
  let ?m = "put_u32 (rh_magic h)" and ?v = "put_u16 (rh_version h)" and ?c = "put_u16 (rh_command h)"
    and ?r = "put_u32 (rh_request_id h)" and ?s = "put_i32 (rh_status h)" and ?l = "put_u32 (rh_length h)"
  let ?bs = "?m @ ?v @ ?c @ ?r @ ?s @ ?l"
  have "get_u32 ?bs 0 = rh_magic h" using get_put_u32 [of "[]" 0] by simp
  moreover have "get_u16 ?bs 4 = rh_version h" using get_put_u16 [of ?m 4] by simp
  moreover have "get_u16 ?bs 6 = rh_command h" using get_put_u16 [of "?m @ ?v" 6] by simp
  moreover have "get_u32 ?bs 8 = rh_request_id h" using get_put_u32 [of "?m @ ?v @ ?c" 8] by simp
  moreover have "get_i32 ?bs 12 = rh_status h"
    using get_put_i32 [of "?m @ ?v @ ?c @ ?r" 12] ok by (simp add: status_ok_def)
  moreover have "get_u32 ?bs 16 = rh_length h"
    using get_put_u32 [of "?m @ ?v @ ?c @ ?r @ ?s" 16 _ "[]"] by simp
  ultimately show "Some (response_header_of (response_header_bytes h)) = Some h"
    by (simp add: response_header_bytes_def response_header_of_def)
qed simp

lemma status_ok_reply [simp]: "status_ok (reply_header req status n)"
  by (cases status) (simp_all add: status_ok_def reply_header_def)

lemma reply_header_decoded [simp]:
  "response_header_of (response_header_bytes (reply_header req status n)) = reply_header req status n"
  using rhc.dec_enc [OF status_ok_reply] by simp

definition connected :: "client \<Rightarrow> bool" where
  "connected c \<longleftrightarrow> c_fd c \<and> list_all benign_recv (c_rx c) \<and> list_all benign_send (c_tx c)"

lemma wp_read_exact_benign:
  assumes "connected c" and "stream (c_rx c) = bs @ more_bytes" and "length bs = n"
    and "\<And>es. stream es = more_bytes \<Longrightarrow> list_all benign_recv es \<Longrightarrow> Q (Some bs) (c\<lparr>c_rx := es\<rparr>)"
  shows "wp (read_exact n) Q c"
proof -
  obtain es where "read_events n (c_rx c) = (Inr bs, es)" "stream es = more_bytes" "list_all benign_recv es"
    using read_events_benign [of "c_rx c" n] assms by (auto simp: connected_def)
  then show ?thesis
    using assms by (simp add: wp_read_exact connected_def)
qed

lemma wp_write_all_benign:
  assumes "connected c"
    and "\<And>es. list_all benign_send es \<Longrightarrow> Q True (c\<lparr>c_tx := es, c_sent := c_sent c @ data\<rparr>)"
  shows "wp (write_all data) Q c"
proof -
  obtain es where "write_events data (c_tx c) = (None, data, es)" "list_all benign_send es"
    using write_events_benign [of "c_tx c" data] assms by (auto simp: connected_def)
  then show ?thesis
    using assms by (simp add: wp_write_all connected_def)
qed

lemma wp_transmit_benign:
  assumes "connected c"
    and "\<And>es. list_all benign_send es \<Longrightarrow> Q True (c\<lparr>c_tx := es, c_sent := c_sent c @ header @ payload\<rparr>)"
  shows "wp (transmit header payload) Q c"
  unfolding transmit_def using assms
  by (auto simp: wp_simps connected_def intro!: wp_write_all_benign)

text \<open>What a delivered response does to the client.\<close>

definition delivered :: "u16 \<Rightarrow> byte list \<Rightarrow> client \<Rightarrow> byte list \<Rightarrow> client \<Rightarrow> bool" where
  "delivered command payload c more_bytes c' \<longleftrightarrow> connected c' \<and> stream (c_rx c') = more_bytes \<and>
     c_sent c' = c_sent c @ packet_header_bytes (request_header command (next_id (c_next_request_id c)) (length payload)) @ payload \<and>
     c_next_request_id c' = next_id (c_next_request_id c) + 1 \<and>
     c_compressed_maps_support c' = c_compressed_maps_support c"

definition response_result :: "memdbg_status \<Rightarrow> byte list \<Rightarrow> request_result" where
  "response_result status body =
     (if status = MEMDBG_OK then Request_Ok body else Request_Status (status_code status) body)"

lemma status_code_zero [simp]: "status_code st = 0 \<longleftrightarrow> st = MEMDBG_OK"
  by (cases st) simp_all

lemma wp_receive_body_benign:
  assumes "connected d" and "stream (c_rx d) = body @ more_bytes" and "length body < 2 ^ 32"
    and "\<And>d'. connected d' \<Longrightarrow> stream (c_rx d') = more_bytes \<Longrightarrow> c_sent d' = c_sent d \<Longrightarrow>
      c_next_request_id d' = c_next_request_id d \<Longrightarrow> c_compressed_maps_support d' = c_compressed_maps_support d \<Longrightarrow>
      Q (response_result status body) d'"
  shows "wp (receive_body command (reply_header req status (length body))) Q d"
proof -
  let ?h = "reply_header req status (length body)"
  have st: "rh_status (reply_header r st n) = status_code st" for r st n
    by (simp add: reply_header_def)
  have h: "rh_status ?h = status_code status" "unat (rh_length ?h) = length body"
    using assms(3) by (simp_all add: reply_header_def unat_of_nat)
  then have zero: "rh_length ?h = 0 \<longleftrightarrow> body = []"
    by (metis length_0_conv unat_0 unat_eq_zero)
  have finish: "wp (if rh_status ?h \<noteq> 0
       then do { _ \<leftarrow> set_error (status_message command (rh_status ?h)); State_Monad.return (Request_Status (rh_status ?h) body) }
       else do { _ \<leftarrow> clear_error; State_Monad.return (Request_Ok body) }) Q e"
    if "connected e" "stream (c_rx e) = more_bytes" "c_sent e = c_sent d" "c_next_request_id e = c_next_request_id d"
      "c_compressed_maps_support e = c_compressed_maps_support d" for e
    using that assms(4) [of "e\<lparr>c_last_error := x\<rparr>" for x]
    by (cases "status = MEMDBG_OK") (simp_all add: wp_simps set_error_def clear_error_def st response_result_def connected_def)
  show ?thesis
  proof (cases "body = []")
    case True
    then show ?thesis
      using finish [of d, unfolded True] assms(1,2) zero unfolding receive_body_def by (simp add: wp_simps split: if_splits)
  next
    case False
    have "wp (read_exact (length body)) (\<lambda>r. wp (case r of None \<Rightarrow> State_Monad.return Request_Failed
     | Some response \<Rightarrow>
       if rh_status ?h \<noteq> 0
       then do { _ \<leftarrow> set_error (status_message command (rh_status ?h)); State_Monad.return (Request_Status (rh_status ?h) response) }
       else do { _ \<leftarrow> clear_error; State_Monad.return (Request_Ok response) }) Q) d"
      by (rule wp_read_exact_benign [OF assms(1,2)])
        (simp_all only: option.case, rule finish, use assms(1) in \<open>simp_all add: connected_def\<close>)
    then show ?thesis
      using False zero unfolding receive_body_def by (simp add: wp_bind h(2))
  qed
qed

lemma wp_request_benign:
  assumes c: "connected c" "stream (c_rx c) = send_response (request_header command (next_id (c_next_request_id c)) (length payload)) status body @ more_bytes"
    and len: "length payload \<le> MEMDBG_PROTOCOL_MAX_PACKET" "length body \<le> max_response_for_command command"
    and Q: "\<And>c'. delivered command payload c more_bytes c' \<Longrightarrow> Q (response_result status body) c'"
  shows "wp (request command payload) Q c"
proof -
  let ?rid = "next_id (c_next_request_id c)"
  let ?h = "reply_header (request_header command ?rid (length payload)) status (length body)"
  have small: "length body < 2 ^ 32"
    using len(2) by (simp add: max_response_for_command_def MEMDBG_PROTOCOL_MAX_PACKET_def
        MEMDBG_PROTOCOL_MAX_MAP_RESPONSE_def split: if_splits)
  have h: "valid_response command ?rid ?h" "unat (rh_length ?h) = length body"
    using small by (simp_all add: valid_response_def reply_header_def request_header_def unat_of_nat)
  have recv: "wp (receive_response command ?rid) Q d"
    if d: "connected d" "c_rx d = c_rx c" "c_next_request_id d = ?rid + 1"
      "c_compressed_maps_support d = c_compressed_maps_support c"
      "c_sent d = c_sent c @ packet_header_bytes (request_header command ?rid (length payload)) @ payload" for d
    unfolding receive_response_def wp_bind
  proof (rule wp_read_exact_benign [OF d(1), of "response_header_bytes ?h" "body @ more_bytes"])
    fix es assume "stream es = body @ more_bytes" "list_all benign_recv es"
    then have "wp (receive_body command ?h) Q (d\<lparr>c_rx := es\<rparr>)"
      using d by (intro wp_receive_body_benign [OF _ _ small] Q) (simp_all add: connected_def delivered_def)
    then show "wp (case Some (response_header_bytes ?h) of None \<Rightarrow> State_Monad.return Request_Failed
     | Some bs \<Rightarrow>
       if \<not> valid_response command ?rid (response_header_of bs)
       then do { _ \<leftarrow> set_error ''invalid response header''; _ \<leftarrow> modify disconnect_unlocked; State_Monad.return Request_Failed }
       else if unat (rh_length (response_header_of bs)) > max_response_for_command command
       then do { _ \<leftarrow> set_error ''response too large''; _ \<leftarrow> modify disconnect_unlocked; State_Monad.return Request_Failed }
       else receive_body command (response_header_of bs)) Q (d\<lparr>c_rx := es\<rparr>)"
      using h len(2) by simp
  qed (use c(2) d(2) in \<open>simp_all add: send_response_def\<close>)
  have "wp (transmit (packet_header_bytes (request_header command ?rid (length payload))) payload)
      (\<lambda>sent. wp (if \<not> sent then State_Monad.return Request_Failed else receive_response command ?rid) Q)
      (c\<lparr>c_next_request_id := ?rid + 1\<rparr>)"
    by (rule wp_transmit_benign) (use c(1) in \<open>auto simp: connected_def intro!: recv\<close>)
  then show ?thesis
    unfolding request_def using c len by (simp add: wp_simps wp_next_request_id not_less connected_def)
qed

end
