(* ===== verification/Client_Ops.thy ===== *)
theory Client_Ops
  imports Client_Correct
begin

text \<open>
  The process, memory, console and service operations of the frontend's \<^verbatim>\<open>Client\<close>
  (\<^verbatim>\<open>src/frontend/src/core/client/client_operations.cpp\<close> and the operations of
  \<^verbatim>\<open>memdbg_client.cpp\<close>). Every operation marshals a packed request, exchanges it by
  \<^const>\<open>request\<close> and unmarshals the response; an operation that returns \<^verbatim>\<open>false\<close> is
  \<^const>\<open>None\<close>. Packed records are their fields in order, little-endian.
\<close>

section \<open>Marshalling\<close>

abbreviation put_u64 :: "u64 \<Rightarrow> byte list" where
  "put_u64 w \<equiv> le_bytes 8 w"

definition fixed_string :: "byte list \<Rightarrow> string" where
  "fixed_string data = map char_of_byte (takeWhile (\<lambda>b. b \<noteq> 0) data)"

text \<open>A length passed as \<^verbatim>\<open>static_cast<uint32_t>(size)\<close> cuts the payload accordingly.\<close>

definition u32_sized :: "byte list \<Rightarrow> byte list" where
  "u32_sized payload = take (length payload mod 2 ^ 32) payload"

text \<open>\<^verbatim>\<open>request\<close> as its callers see it, and the reports of their own failures.\<close>

definition request_body :: "u16 \<Rightarrow> byte list \<Rightarrow> (client, byte list option) state" where
  "request_body command payload = do {
     r \<leftarrow> request command payload;
     State_Monad.return (case r of Request_Ok response \<Rightarrow> Some response | _ \<Rightarrow> None)
   }"

definition request_bool :: "u16 \<Rightarrow> byte list \<Rightarrow> (client, bool) state" where
  "request_bool command payload = do {
     r \<leftarrow> request_body command payload;
     State_Monad.return (r \<noteq> None)
   }"

definition fail_with :: "string \<Rightarrow> (client, 'a option) state" where
  "fail_with message = do { _ \<leftarrow> set_error message; State_Monad.return None }"

text \<open>\<^verbatim>\<open>read_object\<close>: the first bytes of the response, which may be longer.\<close>

definition read_object :: "nat \<Rightarrow> (byte list \<Rightarrow> 'a) \<Rightarrow> byte list \<Rightarrow> 'a option" where
  "read_object n dec data = (if length data < n then None else Some (dec data))"

definition request_object :: "u16 \<Rightarrow> byte list \<Rightarrow> nat \<Rightarrow> (byte list \<Rightarrow> 'a) \<Rightarrow> string \<Rightarrow> (client, 'a option) state" where
  "request_object command payload n dec short = do {
     r \<leftarrow> request_body command payload;
     case r of None \<Rightarrow> State_Monad.return None
     | Some response \<Rightarrow> (case read_object n dec response of
                           None \<Rightarrow> fail_with short
                         | Some x \<Rightarrow> State_Monad.return (Some x))
   }"

section \<open>Processes\<close>

definition client_process_list :: "(client, process_entry list option) state" where
  "client_process_list = do {
     r \<leftarrow> request_body 0x0100 [];
     case r of None \<Rightarrow> State_Monad.return None
     | Some response \<Rightarrow> (case parse_process_list_response response of
                           Inl parse_error \<Rightarrow> fail_with parse_error
                         | Inr out \<Rightarrow> State_Monad.return (Some out))
   }"

text \<open>
  \<^verbatim>\<open>process_maps\<close> first asks for the framed list and remembers a daemon that does not
  know the command. \<open>maps_v2\<close> is the first block of the function: the response, or the
  decision to go on with the old command, or failure.
\<close>

datatype maps_v2_result = Maps_Failed | Maps_Legacy | Maps_Response "byte list"

definition maps_v2 :: "byte list \<Rightarrow> (client, maps_v2_result) state" where
  "maps_v2 body = do {
     support \<leftarrow> gets c_compressed_maps_support;
     if support = 0 then State_Monad.return Maps_Legacy
     else do {
       r \<leftarrow> request MEMDBG_CMD_PROCESS_MAPS_V2 body;
       case r of
         Request_Ok framed \<Rightarrow> do {
           _ \<leftarrow> modify (\<lambda>c. c\<lparr>c_compressed_maps_support := 1\<rparr>);
           case maybe_decompress framed of
             None \<Rightarrow> do {
               _ \<leftarrow> set_error ''compressed map response could not be decompressed'';
               State_Monad.return Maps_Failed
             }
           | Some response \<Rightarrow> State_Monad.return (Maps_Response response)
         }
       | Request_Status status _ \<Rightarrow>
           if status = status_code MEMDBG_ERR_UNSUPPORTED \<or> status = status_code MEMDBG_ERR_PROTOCOL
           then do {
             _ \<leftarrow> modify (\<lambda>c. c\<lparr>c_compressed_maps_support := 0\<rparr>);
             State_Monad.return Maps_Legacy
           }
           else State_Monad.return Maps_Failed
       | Request_Failed \<Rightarrow> State_Monad.return Maps_Failed
     }
   }"

definition parse_maps :: "byte list \<Rightarrow> (client, map_entry list option) state" where
  "parse_maps response =
     (case parse_process_maps_response response of
        Inl parse_error \<Rightarrow> fail_with parse_error
      | Inr out \<Rightarrow> State_Monad.return (Some out))"

definition client_process_maps :: "int \<Rightarrow> (client, map_entry list option) state" where
  "client_process_maps pid = do {
     r \<leftarrow> maps_v2 (put_i32 pid);
     case r of
       Maps_Failed \<Rightarrow> State_Monad.return None
     | Maps_Response response \<Rightarrow> parse_maps response
     | Maps_Legacy \<Rightarrow> do {
         r' \<leftarrow> request_body MEMDBG_CMD_PROCESS_MAPS (put_i32 pid);
         case r' of None \<Rightarrow> State_Monad.return None
         | Some response \<Rightarrow> parse_maps response
       }
   }"

text \<open>\<^verbatim>\<open>memdbg_process_info_response_t\<close> has 260 bytes.\<close>

definition process_info_at :: "byte list \<Rightarrow> nat \<Rightarrow> process_info" where
  "process_info_at bs off =
     \<lparr>pi_pid = get_i32 bs off, pi_name = fixed_string (substr bs (off + 4) (off + 52)),
      pi_title_id = fixed_string (substr bs (off + 52) (off + 68)),
      pi_content_id = fixed_string (substr bs (off + 68) (off + 132)),
      pi_path = fixed_string (substr bs (off + 132) (off + 260))\<rparr>"

definition client_process_info :: "int \<Rightarrow> (client, process_info option) state" where
  "client_process_info pid =
     request_object 0x0102 (put_i32 pid) 260 (\<lambda>bs. process_info_at bs 0) ''short process info response''"

definition batch_infos :: "nat \<Rightarrow> byte list \<Rightarrow> (client, process_info list option) state" where
  "batch_infos count response =
     (if length response < 8 then fail_with ''batch_process_info: short response''
      else if unat (get_u32 response 0) \<noteq> count then fail_with ''batch_process_info: count mismatch''
      else if length response < 8 + count * 260 then fail_with ''batch_process_info: truncated response''
      else State_Monad.return (Some (map (\<lambda>i. process_info_at response (8 + i * 260)) [0..<count])))"

definition client_batch_process_info :: "int list \<Rightarrow> (client, process_info list option) state" where
  "client_batch_process_info pids =
     (if pids = [] then State_Monad.return (Some [])
      else if length pids > 128 then fail_with ''batch_process_info: too many PIDs (max 128)''
      else do {
        r \<leftarrow> request_body 0x0107 (put_u32 (word_of_nat (length pids)) @ put_u32 0 @ concat (map put_i32 pids));
        case r of None \<Rightarrow> State_Monad.return None
        | Some response \<Rightarrow> batch_infos (length pids) response
      })"

section \<open>Memory\<close>

definition memory_request_bytes :: "int \<Rightarrow> u64 \<Rightarrow> u32 \<Rightarrow> byte list" where
  "memory_request_bytes pid address len = put_i32 pid @ put_u64 address @ put_u32 len"

definition client_memory_read :: "int \<Rightarrow> u64 \<Rightarrow> u32 \<Rightarrow> (client, byte list option) state" where
  "client_memory_read pid address len = do {
     r \<leftarrow> request_body 0x0200 (memory_request_bytes pid address len);
     case r of None \<Rightarrow> State_Monad.return None
     | Some raw \<Rightarrow> (case maybe_decompress raw of
                      None \<Rightarrow> fail_with ''LZ4 decompression failed''
                    | Some out \<Rightarrow> State_Monad.return (Some out))
   }"

definition client_memory_write :: "int \<Rightarrow> u64 \<Rightarrow> byte list \<Rightarrow> (client, u32 option) state" where
  "client_memory_write pid address data =
     request_object 0x0201 (u32_sized (memory_request_bytes pid address (word_of_nat (length data)) @ data))
       4 (\<lambda>bs. get_u32 bs 0) ''short write response''"

section \<open>Process control\<close>

definition control_request :: "int \<Rightarrow> u32 \<Rightarrow> byte list" where
  "control_request pid action = put_i32 pid @ put_u32 action"

definition client_process_stop :: "int \<Rightarrow> (client, bool) state" where
  "client_process_stop pid = request_bool 0x0104 (control_request pid 1)"

definition client_process_continue :: "int \<Rightarrow> (client, bool) state" where
  "client_process_continue pid = request_bool 0x0105 (control_request pid 2)"

definition client_process_kill :: "int \<Rightarrow> (client, bool) state" where
  "client_process_kill pid = request_bool 0x0106 (control_request pid 3)"

definition client_process_protect :: "int \<Rightarrow> u64 \<Rightarrow> u64 \<Rightarrow> u32 \<Rightarrow> (client, (u32 \<times> u32) option) state" where
  "client_process_protect pid address len protection =
     request_object 0x0108 (put_i32 pid @ put_u32 protection @ put_u64 address @ put_u64 len) 8
       (\<lambda>bs. (get_u32 bs 0, get_u32 bs 4)) ''short process protect response''"

definition client_process_alloc :: "int \<Rightarrow> u64 \<Rightarrow> u64 \<Rightarrow> u32 \<Rightarrow> u32 \<Rightarrow> (client, (u64 \<times> u64) option) state" where
  "client_process_alloc pid hint len protection flags =
     request_object 0x0109 (put_i32 pid @ put_u32 protection @ put_u64 hint @ put_u64 len @ put_u32 flags @ put_u32 0) 16
       (\<lambda>bs. (get_u64 bs 0, get_u64 bs 8)) ''short process alloc response''"

definition client_process_free :: "int \<Rightarrow> u64 \<Rightarrow> u64 \<Rightarrow> (client, bool) state" where
  "client_process_free pid address len = request_bool 0x010A (put_i32 pid @ put_u32 0 @ put_u64 address @ put_u64 len)"

text \<open>
  The image load and hijack requests: 64 bytes, of which the last 44 hold the name of the
  region, cut to 43 characters, and the image.
\<close>

definition image_request :: "int \<Rightarrow> u32 \<Rightarrow> byte list \<Rightarrow> u32 \<Rightarrow> string \<Rightarrow> byte list" where
  "image_request pid flags elf match_flags target_region =
     put_i32 pid @ put_u32 flags @ put_u64 (word_of_nat (length elf)) @ put_u32 match_flags @
     map byte_of_char (take 43 target_region) @ replicate (44 - min 43 (length target_region)) 0 @ elf"

definition client_process_elf_load ::
    "int \<Rightarrow> byte list \<Rightarrow> u32 \<Rightarrow> string \<Rightarrow> u32 \<Rightarrow> (client, (u64 \<times> u64) option) state" where
  "client_process_elf_load pid elf_data flags target_region match_flags =
     (if elf_data = [] \<or> length elf_data > 64 * 2 ^ 20 then fail_with ''ELF data too large (max 64MB)''
      else request_object 0x010D (image_request pid flags elf_data match_flags target_region) 16
        (\<lambda>bs. (get_u64 bs 0, get_u64 bs 8)) ''short ELF load response'')"

definition client_process_hijack ::
    "int \<Rightarrow> byte list \<Rightarrow> u32 \<Rightarrow> string \<Rightarrow> u32 \<Rightarrow> (client, bool option) state" where
  "client_process_hijack pid elf_data flags target_region match_flags =
     (if elf_data = [] \<or> length elf_data > 64 * 2 ^ 20 then fail_with ''ELF data too large (max 64MB)''
      else request_object 0x010E (image_request pid flags elf_data match_flags target_region) 8
        (\<lambda>bs. get_u32 bs 0 \<noteq> 0) ''short hijack response'')"

section \<open>Stacks and calls\<close>

record stack_request =
  sr_pid :: int
  sr_lwp :: int
  sr_frame_pointer :: u64
  sr_stack_pointer :: u64
  sr_max_frames :: u32
  sr_max_bytes_per_frame :: u32
  sr_code_window :: u32
  sr_flags :: u32

definition stack_request_bytes :: "stack_request \<Rightarrow> byte list" where
  "stack_request_bytes r = put_i32 (sr_pid r) @ put_i32 (sr_lwp r) @ put_u64 (sr_frame_pointer r) @
     put_u64 (sr_stack_pointer r) @ put_u32 (sr_max_frames r) @ put_u32 (sr_max_bytes_per_frame r) @
     put_u32 (sr_code_window r) @ put_u32 (sr_flags r)"

record stack_frame =
  sf_frame_pointer :: u64
  sf_saved_frame_pointer :: u64
  sf_return_address :: u64
  sf_stack_address :: u64
  sf_code_address :: u64
  sf_stack_bytes :: "byte list"
  sf_code_bytes :: "byte list"

text \<open>
  A frame names its stack and code bytes by offset and size into the data behind the
  entries; a reference that does not fit yields no bytes.
\<close>

definition blob_part :: "byte list \<Rightarrow> u32 \<Rightarrow> u32 \<Rightarrow> byte list" where
  "blob_part blob off len =
     (if unat off \<le> length blob \<and> unat len \<le> length blob - unat off
      then substr blob (unat off) (unat off + unat len) else [])"

definition stack_frame_at :: "byte list \<Rightarrow> byte list \<Rightarrow> nat \<Rightarrow> stack_frame" where
  "stack_frame_at response blob off =
     \<lparr>sf_frame_pointer = get_u64 response off, sf_saved_frame_pointer = get_u64 response (off + 8),
      sf_return_address = get_u64 response (off + 16), sf_stack_address = get_u64 response (off + 24),
      sf_code_address = get_u64 response (off + 32),
      sf_stack_bytes = blob_part blob (get_u32 response (off + 48)) (get_u32 response (off + 40)),
      sf_code_bytes = blob_part blob (get_u32 response (off + 52)) (get_u32 response (off + 44))\<rparr>"

definition stack_frames :: "byte list \<Rightarrow> (client, (stack_frame list \<times> bool) option) state" where
  "stack_frames response =
     (if length response < 16 then fail_with ''short stack response''
      else if get_u32 response 8 \<noteq> 56 then fail_with ''unsupported stack frame entry size''
      else let count = unat (get_u32 response 0);
               entries_size = count * 56;
               data_size = unat (get_u32 response 12)
           in if length response < 16 + entries_size \<or> length response < 16 + entries_size + data_size
              then fail_with ''truncated stack response''
              else let blob = substr response (16 + entries_size) (16 + entries_size + data_size)
                   in State_Monad.return
                        (Some (map (\<lambda>i. stack_frame_at response blob (16 + i * 56)) [0..<count],
                               get_u32 response 4 \<noteq> 0)))"

definition client_process_stack :: "stack_request \<Rightarrow> (client, (stack_frame list \<times> bool) option) state" where
  "client_process_stack req = do {
     r \<leftarrow> request_body 0x010B (stack_request_bytes req);
     case r of None \<Rightarrow> State_Monad.return None
     | Some response \<Rightarrow> stack_frames response
   }"

text \<open>\<^verbatim>\<open>process_call\<close> does not report a short response in \<^verbatim>\<open>last_error_\<close>.\<close>

definition client_process_call :: "int \<Rightarrow> u64 \<Rightarrow> u64 list \<Rightarrow> (client, u64 option) state" where
  "client_process_call pid function_address args = do {
     r \<leftarrow> request_body 0x010C (put_i32 pid @ put_u32 0 @ put_u64 function_address @
            concat (map put_u64 (take 6 (args @ replicate 6 0))));
     State_Monad.return (case r of None \<Rightarrow> None | Some response \<Rightarrow> read_object 8 (\<lambda>bs. get_u64 bs 0) response)
   }"

definition client_process_dump :: "int \<Rightarrow> u32 \<Rightarrow> (client, string option) state" where
  "client_process_dump pid flags = do {
     r \<leftarrow> request_body 0x010F (put_i32 pid @ put_u32 flags);
     State_Monad.return (map_option (map char_of_byte) r)
   }"

section \<open>Kernel and console\<close>

definition client_kernel_base :: "(client, (u64 \<times> u64) option) state" where
  "client_kernel_base = request_object 0x0800 [] 16 (\<lambda>bs. (get_u64 bs 0, get_u64 bs 8)) ''short kernel base response''"

definition kernel_request :: "u64 \<Rightarrow> u32 \<Rightarrow> byte list" where
  "kernel_request address len = put_u64 address @ put_u32 len @ put_u32 0"

definition client_kernel_read :: "u64 \<Rightarrow> u32 \<Rightarrow> (client, byte list option) state" where
  "client_kernel_read address len = request_body 0x0801 (kernel_request address len)"

definition MEMDBG_PROTOCOL_MAX_READ :: nat where
  "MEMDBG_PROTOCOL_MAX_READ = 1024 * 1024"

definition client_kernel_write :: "u64 \<Rightarrow> byte list \<Rightarrow> (client, bool) state" where
  "client_kernel_write address data =
     (if length data > MEMDBG_PROTOCOL_MAX_READ
      then do { _ \<leftarrow> set_error ''kernel write payload too large''; State_Monad.return False }
      else request_bool 0x0802 (kernel_request address (word_of_nat (length data)) @ data))"

definition console_text :: "u16 \<Rightarrow> string \<Rightarrow> string \<Rightarrow> (client, bool) state" where
  "console_text command too_long t =
     (if length t > 4096 then do { _ \<leftarrow> set_error too_long; State_Monad.return False }
      else request_bool command (put_u32 (word_of_nat (length t)) @ put_u32 0 @ map byte_of_char t))"

definition client_console_notify :: "string \<Rightarrow> (client, bool) state" where
  "client_console_notify t = console_text 0x0900 ''console notification text too long'' t"

definition client_console_print :: "string \<Rightarrow> (client, bool) state" where
  "client_console_print t = console_text 0x0901 ''console print text too long'' t"

definition client_console_reboot :: "(client, bool) state" where
  "client_console_reboot = request_bool 0x0902 []"

section \<open>Session operations\<close>

record hello_info =
  hi_protocol_version :: u16
  hi_feature_level :: u16
  hi_platform_id :: u16
  hi_capabilities :: u32
  hi_debug_port :: u16
  hi_udp_log_port :: u16
  hi_version :: string
  hi_name :: string
  hi_daemon_instance_id :: u64
  hi_daemon_start_monotonic_ns :: u64

text \<open>
  The response grew from 44 to 64 and 112 bytes. What is missing is zero in the copy
  \<open>wire\<close>; the caller's structure keeps the fields that the response does not reach.
\<close>

definition hello_version :: "byte list \<Rightarrow> byte list \<Rightarrow> string" where
  "hello_version response wire =
     (let full = fixed_string (substr wire 64 112)
      in if length response \<ge> 112 \<and> full \<noteq> [] then full else fixed_string (substr wire 12 28))"

definition parse_hello :: "hello_info \<Rightarrow> byte list \<Rightarrow> hello_info" where
  "parse_hello out response =
     (let wire = take 112 (response @ replicate 112 0)
      in \<lparr>hi_protocol_version = get_u16 wire 0,
          hi_feature_level = (if get_u16 wire 44 \<noteq> 0 then get_u16 wire 44 else 1),
          hi_platform_id = get_u16 wire 2, hi_capabilities = get_u32 wire 4,
          hi_debug_port = get_u16 wire 8, hi_udp_log_port = get_u16 wire 10,
          hi_version = hello_version response wire, hi_name = fixed_string (substr wire 28 44),
          hi_daemon_instance_id =
            (if length response \<ge> 64 then get_u64 wire 48 else hi_daemon_instance_id out),
          hi_daemon_start_monotonic_ns =
            (if length response \<ge> 64 then get_u64 wire 56 else hi_daemon_start_monotonic_ns out)\<rparr>)"

text \<open>The session identifier, drawn from the clocks once per run, is an argument.\<close>

definition client_hello :: "u16 \<Rightarrow> u64 \<Rightarrow> hello_info \<Rightarrow> (client, hello_info option) state" where
  "client_hello role session_id out =
     request_object 0x0001 (put_u32 0x31534553 @ put_u16 1 @ put_u16 role @ put_u64 session_id) 44
       (parse_hello out) ''short HELLO response''"

definition client_ping :: "(client, bool) state" where
  "client_ping = request_bool 0x0002 []"

definition client_shutdown_payload :: "(client, bool) state" where
  "client_shutdown_payload = request_bool 0x7f00 []"

record services_info =
  sv_active :: u32
  sv_configured :: u32
  sv_debug_port :: u16
  sv_legacy_port :: u16

definition services_of :: "byte list \<Rightarrow> services_info" where
  "services_of bs = \<lparr>sv_active = get_u32 bs 0, sv_configured = get_u32 bs 4, sv_debug_port = get_u16 bs 8,
     sv_legacy_port = get_u16 bs 10\<rparr>"

definition client_get_services :: "(client, services_info option) state" where
  "client_get_services = request_object 0x0E00 [] 12 services_of ''short GET_SERVICES response''"

text \<open>
  \<^verbatim>\<open>set_services\<close> fills its output from an error response too, as the intent may have been
  stored although the port is busy. The result is the return value and the output, which is
  not modelled after a failed exchange.
\<close>

definition client_set_services :: "u32 \<Rightarrow> u32 \<Rightarrow> services_info \<Rightarrow> (client, bool \<times> services_info option) state" where
  "client_set_services set_mask enable_bits out = do {
     r \<leftarrow> request 0x0E01 (put_u32 set_mask @ put_u32 enable_bits);
     case r of
       Request_Ok response \<Rightarrow>
         State_Monad.return (True, Some (if length response \<ge> 12 then services_of response else out))
     | Request_Status status response \<Rightarrow>
         if length response \<ge> 12
         then do {
           _ \<leftarrow> set_error (''SET_SERVICES status '' @ dec_of_int status);
           State_Monad.return (False, Some (services_of response))
         }
         else State_Monad.return (False, Some out)
     | Request_Failed \<Rightarrow> State_Monad.return (False, None)
   }"

definition client_set_legacy_compat :: "bool \<Rightarrow> services_info \<Rightarrow> (client, bool \<times> services_info option) state" where
  "client_set_legacy_compat enabled out = client_set_services 1 (if enabled then 1 else 0) out"

end
