(* ===== verification/Client_Debug.thy ===== *)
theory Client_Debug
  imports Client_Ops Rsp_Handler
begin

text \<open>
  The debugger and tracer operations of the frontend's \<^verbatim>\<open>Client\<close>
  (\<^verbatim>\<open>src/frontend/src/core/client/client_debug.cpp\<close>), and the adapter
  \<^verbatim>\<open>ClientRspBackend\<close> (\<^verbatim>\<open>src/tools/gdb_bridge/rsp_backend.cpp\<close>) through which the
  GDB bridge uses them: an instance of the interface \<^typ>\<open>'b backend\<close> of the bridge.
\<close>

section \<open>Run control\<close>

definition client_debug_attach :: "int \<Rightarrow> (client, bool) state" where
  "client_debug_attach pid = request_bool 0x0600 (put_i32 pid @ put_u32 0)"

definition client_debug_detach :: "(client, bool) state" where
  "client_debug_detach = request_bool 0x0601 []"

definition client_debug_stop :: "(client, bool) state" where
  "client_debug_stop = request_bool 0x0602 []"

definition client_debug_continue :: "(client, bool) state" where
  "client_debug_continue = request_bool 0x0603 []"

definition thread_request :: "int \<Rightarrow> byte list" where
  "thread_request lwp = put_i32 0 @ put_i32 lwp"

definition client_debug_step :: "int \<Rightarrow> (client, bool) state" where
  "client_debug_step lwp = request_bool 0x0604 (thread_request lwp)"

definition client_debug_suspend_thread :: "int \<Rightarrow> (client, bool) state" where
  "client_debug_suspend_thread lwp = request_bool 0x060E (thread_request lwp)"

definition client_debug_resume_thread :: "int \<Rightarrow> (client, bool) state" where
  "client_debug_resume_thread lwp = request_bool 0x060F (thread_request lwp)"

section \<open>Threads\<close>

text \<open>
  Three layouts of a thread entry are in use: 100 bytes, and two old ones of 28 and 32 bytes.
\<close>

definition kLegacyThreadEntryV1Size :: nat where "kLegacyThreadEntryV1Size = 28"
definition kLegacyThreadEntryV2Size :: nat where "kLegacyThreadEntryV2Size = 32"

definition no_stop_info :: stop_info where
  "no_stop_info = \<lparr>si_pl_event = 0, si_stop_signal = 0, si_pl_flags = 0, si_pl_sigmask_lo = 0, si_pl_sigmask_hi = 0,
     si_pl_siglist_lo = 0, si_pl_siglist_hi = 0\<rparr>"

definition full_thread_at :: "byte list \<Rightarrow> nat \<Rightarrow> thread_entry" where
  "full_thread_at bs off =
     \<lparr>t_lwp = get_i32 bs off, t_state = get_u32 bs (off + 4),
      t_stop_info = \<lparr>si_pl_event = get_i32 bs (off + 8), si_stop_signal = get_i32 bs (off + 12),
        si_pl_flags = get_i32 bs (off + 16), si_pl_sigmask_lo = get_u64 bs (off + 24),
        si_pl_sigmask_hi = get_u64 bs (off + 32), si_pl_siglist_lo = get_u64 bs (off + 40),
        si_pl_siglist_hi = get_u64 bs (off + 48)\<rparr>,
      t_priority = get_i32 bs (off + 56), t_runtime_us = get_u64 bs (off + 60), t_pctcpu = get_i32 bs (off + 68),
      t_cpu_id = get_i32 bs (off + 72), t_name = fixed_string (substr bs (off + 76) (off + 100))\<rparr>"

definition thread_at :: "nat \<Rightarrow> byte list \<Rightarrow> nat \<Rightarrow> thread_entry" where
  "thread_at entry_size bs off =
     (if entry_size = 100 then full_thread_at bs off
      else \<lparr>t_lwp = get_i32 bs off,
            t_state = (if entry_size = kLegacyThreadEntryV2Size then get_u32 bs (off + 4) else 0),
            t_stop_info = no_stop_info, t_priority = 0, t_runtime_us = 0, t_pctcpu = 0, t_cpu_id = - 1,
            t_name = (if entry_size = kLegacyThreadEntryV2Size then fixed_string (substr bs (off + 8) (off + 32))
                      else fixed_string (substr bs (off + 4) (off + 28)))\<rparr>)"

definition thread_entry_size :: "nat \<Rightarrow> nat \<Rightarrow> nat \<Rightarrow> nat" where
  "thread_entry_size reserved count body_size =
     (if reserved \<noteq> 100 \<and> reserved \<noteq> kLegacyThreadEntryV1Size \<and> reserved \<noteq> kLegacyThreadEntryV2Size
      then if count > 0 \<and> body_size \<ge> count * 100 then 100
           else if count > 0 \<and> body_size \<ge> count * kLegacyThreadEntryV2Size then kLegacyThreadEntryV2Size
           else kLegacyThreadEntryV1Size
      else reserved)"

text \<open>The response, as a list of threads or an error message.\<close>

definition parse_threads :: "byte list \<Rightarrow> string + thread_entry list" where
  "parse_threads response =
     (if length response < 8 then Inl ''short thread list response''
      else let total = unat (get_u32 response 0); body_size = length response - 8
           in if total = 0 then Inr []
              else let entry_size = thread_entry_size (unat (get_u32 response 4)) total body_size
                   in if entry_size = 0 \<or> body_size < entry_size then Inl ''empty thread list response''
                      else let count = min (body_size div entry_size) total
                           in if count = 0 \<and> total \<noteq> 0 then Inl ''truncated thread list response''
                              else Inr (map (\<lambda>i. thread_at entry_size response (8 + i * entry_size)) [0..<count]))"

definition client_debug_get_threads :: "(client, bool \<times> thread_entry list) state" where
  "client_debug_get_threads = do {
     r \<leftarrow> request_body 0x0605 [];
     case r of None \<Rightarrow> State_Monad.return (False, [])
     | Some response \<Rightarrow> (case parse_threads response of
                           Inl error \<Rightarrow> do { _ \<leftarrow> set_error error; State_Monad.return (False, []) }
                         | Inr out \<Rightarrow> State_Monad.return (True, out))
   }"

section \<open>Registers\<close>

definition regs_bytes :: "debug_regs \<Rightarrow> byte list" where
  "regs_bytes r = put_u64 (r_r15 r) @ put_u64 (r_r14 r) @ put_u64 (r_r13 r) @ put_u64 (r_r12 r) @ put_u64 (r_r11 r) @
     put_u64 (r_r10 r) @ put_u64 (r_r9 r) @ put_u64 (r_r8 r) @ put_u64 (r_rdi r) @ put_u64 (r_rsi r) @
     put_u64 (r_rbp r) @ put_u64 (r_rbx r) @ put_u64 (r_rdx r) @ put_u64 (r_rcx r) @ put_u64 (r_rax r) @
     put_u32 (r_trapno r) @ put_u16 (r_fs r) @ put_u16 (r_gs r) @ put_u32 (r_err r) @ put_u16 (r_es r) @
     put_u16 (r_ds r) @ put_u64 (r_rip r) @ put_u64 (r_cs r) @ put_u64 (r_rflags r) @ put_u64 (r_rsp r) @
     put_u64 (r_ss r)"

definition regs_of :: "byte list \<Rightarrow> debug_regs" where
  "regs_of bs = \<lparr>r_r15 = get_u64 bs 0, r_r14 = get_u64 bs 8, r_r13 = get_u64 bs 16, r_r12 = get_u64 bs 24,
     r_r11 = get_u64 bs 32, r_r10 = get_u64 bs 40, r_r9 = get_u64 bs 48, r_r8 = get_u64 bs 56,
     r_rdi = get_u64 bs 64, r_rsi = get_u64 bs 72, r_rbp = get_u64 bs 80, r_rbx = get_u64 bs 88,
     r_rdx = get_u64 bs 96, r_rcx = get_u64 bs 104, r_rax = get_u64 bs 112, r_trapno = get_u32 bs 120,
     r_fs = get_u16 bs 124, r_gs = get_u16 bs 126, r_err = get_u32 bs 128, r_es = get_u16 bs 132,
     r_ds = get_u16 bs 134, r_rip = get_u64 bs 136, r_cs = get_u64 bs 144, r_rflags = get_u64 bs 152,
     r_rsp = get_u64 bs 160, r_ss = get_u64 bs 168\<rparr>"

definition client_debug_get_regs :: "int \<Rightarrow> (client, debug_regs option) state" where
  "client_debug_get_regs lwp = request_object 0x0606 (thread_request lwp) 176 regs_of ''short regs response''"

definition client_debug_set_regs :: "int \<Rightarrow> debug_regs \<Rightarrow> (client, bool) state" where
  "client_debug_set_regs lwp regs = request_bool 0x0607 (thread_request lwp @ regs_bytes regs)"

text \<open>The debug registers are \<^verbatim>\<open>uint64_t dr[16]\<close>.\<close>

definition dbregs_of :: "byte list \<Rightarrow> u64 list" where
  "dbregs_of bs = map (\<lambda>i. get_u64 bs (8 * i)) [0..<16]"

definition dbregs_bytes :: "u64 list \<Rightarrow> byte list" where
  "dbregs_bytes dr = concat (map put_u64 (take 16 (dr @ replicate 16 0)))"

definition client_debug_get_dbregs :: "int \<Rightarrow> (client, u64 list option) state" where
  "client_debug_get_dbregs lwp = request_object 0x0608 (thread_request lwp) 128 dbregs_of ''short dbregs response''"

definition client_debug_set_dbregs :: "int \<Rightarrow> u64 list \<Rightarrow> (client, bool) state" where
  "client_debug_set_dbregs lwp dr = request_bool 0x0609 (thread_request lwp @ dbregs_bytes dr)"

definition fpregs_of :: "byte list \<Rightarrow> debug_fpregs" where
  "fpregs_of bs = \<lparr>fp_length = unat (get_u32 bs 0), fp_flags = get_u32 bs 4, fp_data = substr bs 8 1032\<rparr>"

definition fpregs_bytes :: "debug_fpregs \<Rightarrow> byte list" where
  "fpregs_bytes fp = put_u32 (word_of_nat (fp_length fp)) @ put_u32 (fp_flags fp) @ take 1024 (fp_data fp @ replicate 1024 0)"

definition client_debug_get_fpregs :: "int \<Rightarrow> (client, debug_fpregs option) state" where
  "client_debug_get_fpregs lwp = request_object 0x0616 (thread_request lwp) 1032 fpregs_of ''short fpregs response''"

definition client_debug_set_fpregs :: "int \<Rightarrow> debug_fpregs \<Rightarrow> (client, bool) state" where
  "client_debug_set_fpregs lwp fp = request_bool 0x0617 (thread_request lwp @ fpregs_bytes fp)"

definition client_debug_get_fsgsbase :: "int \<Rightarrow> (client, (u64 \<times> u64) option) state" where
  "client_debug_get_fsgsbase lwp = request_object 0x0618 (thread_request lwp) 16 (\<lambda>bs. (get_u64 bs 0, get_u64 bs 8))
     ''short fs/gs base response''"

definition client_debug_set_fsgsbase :: "int \<Rightarrow> u64 \<Rightarrow> u64 \<Rightarrow> (client, bool) state" where
  "client_debug_set_fsgsbase lwp fs_base gs_base =
     request_bool 0x0619 (thread_request lwp @ put_u64 fs_base @ put_u64 gs_base)"

section \<open>Breakpoints and watchpoints\<close>

definition client_debug_set_breakpoint :: "u64 \<Rightarrow> u32 \<Rightarrow> (client, bool) state" where
  "client_debug_set_breakpoint address kind = request_bool 0x060A (put_u64 address @ put_u32 kind @ put_u32 0)"

definition client_debug_set_breakpoint_cond :: "u64 \<Rightarrow> u32 \<Rightarrow> u32 \<Rightarrow> u32 \<Rightarrow> u64 \<Rightarrow> (client, bool) state" where
  "client_debug_set_breakpoint_cond address kind cond_reg cond_op cond_value =
     request_bool 0x0613 (put_u64 address @ put_u32 kind @ put_u32 cond_reg @ put_u32 cond_op @ put_u32 0 @ put_u64 cond_value)"

definition client_debug_clear_breakpoint :: "u64 \<Rightarrow> (client, bool) state" where
  "client_debug_clear_breakpoint address = request_bool 0x060B (put_u64 address @ put_u32 0 @ put_u32 0)"

definition client_debug_set_watchpoint :: "u64 \<Rightarrow> u32 \<Rightarrow> u32 \<Rightarrow> (client, bool) state" where
  "client_debug_set_watchpoint address len wtype = request_bool 0x060C (put_u64 address @ put_u32 len @ put_u32 wtype)"

definition client_debug_clear_watchpoint :: "u64 \<Rightarrow> (client, bool) state" where
  "client_debug_clear_watchpoint address = request_bool 0x060D (put_u64 address @ put_u32 0 @ put_u32 0)"

definition client_debug_clear_all_breakpoints :: "(client, u32 option) state" where
  "client_debug_clear_all_breakpoints = request_object 0x0614 [] 8 (\<lambda>bs. get_u32 bs 0) ''short clear-all-bp response''"

definition client_debug_clear_all_watchpoints :: "(client, u32 option) state" where
  "client_debug_clear_all_watchpoints = request_object 0x0615 [] 8 (\<lambda>bs. get_u32 bs 0) ''short clear-all-wp response''"

record breakpoint_entry =
  bp_address :: u64
  bp_kind :: u32
  bp_installed :: bool
  bp_active :: bool
  bp_cond_reg :: u32
  bp_cond_op :: u32
  bp_cond_value :: u64

definition breakpoint_at :: "byte list \<Rightarrow> nat \<Rightarrow> breakpoint_entry" where
  "breakpoint_at bs off = \<lparr>bp_address = get_u64 bs off, bp_kind = get_u32 bs (off + 8),
     bp_installed = (get_u32 bs (off + 12) AND 1 \<noteq> 0), bp_active = (get_u32 bs (off + 12) AND 2 \<noteq> 0),
     bp_cond_reg = get_u32 bs (off + 16), bp_cond_op = get_u32 bs (off + 20), bp_cond_value = get_u64 bs (off + 24)\<rparr>"

definition watchpoint_at :: "byte list \<Rightarrow> nat \<Rightarrow> watchpoint_entry" where
  "watchpoint_at bs off = \<lparr>wp_address = get_u64 bs off, wp_length = get_u32 bs (off + 8), wp_type = get_u32 bs (off + 12),
     wp_slot = get_u32 bs (off + 16), wp_installed = (get_u32 bs (off + 20) \<noteq> 0)\<rparr>"

text \<open>A list response: a prefix with the count, and entries of one size.\<close>

definition entry_list :: "nat \<Rightarrow> (byte list \<Rightarrow> nat \<Rightarrow> 'a) \<Rightarrow> string \<Rightarrow> string \<Rightarrow> byte list \<Rightarrow> string + 'a list" where
  "entry_list entry_size entry_at short truncated response =
     (if length response < 8 then Inl short
      else if length response < 8 + unat (get_u32 response 0) * entry_size then Inl truncated
      else Inr (map (\<lambda>i. entry_at response (8 + i * entry_size)) [0..<unat (get_u32 response 0)]))"

definition request_list :: "u16 \<Rightarrow> (byte list \<Rightarrow> string + 'a list) \<Rightarrow> (client, 'a list option) state" where
  "request_list command parse = do {
     r \<leftarrow> request_body command [];
     case r of None \<Rightarrow> State_Monad.return None
     | Some response \<Rightarrow> (case parse response of
                           Inl error \<Rightarrow> fail_with error
                         | Inr out \<Rightarrow> State_Monad.return (Some out))
   }"

definition client_debug_get_breakpoints :: "(client, breakpoint_entry list option) state" where
  "client_debug_get_breakpoints = request_list 0x0611
     (entry_list 32 breakpoint_at ''short breakpoint list response'' ''truncated breakpoint list response'')"

definition client_debug_get_watchpoints :: "(client, watchpoint_entry list option) state" where
  "client_debug_get_watchpoints = request_list 0x0612
     (entry_list 24 watchpoint_at ''short watchpoint list response'' ''truncated watchpoint list response'')"

definition client_debug_poll_events :: "(client, bool \<times> bool \<times> int) state" where
  "client_debug_poll_events = do {
     r \<leftarrow> request_object 0x0610 [] 8 (\<lambda>bs. (get_i32 bs 0 \<noteq> 0, get_i32 bs 4)) ''short poll response'';
     State_Monad.return (case r of None \<Rightarrow> (False, False, 0) | Some (stopped, lwp) \<Rightarrow> (True, stopped, lwp))
   }"

section \<open>The tracer\<close>

definition client_tracer_attach :: "int \<Rightarrow> (client, bool) state" where
  "client_tracer_attach pid = request_bool 0x0700 (put_i32 pid)"

definition client_tracer_detach :: "(client, bool) state" where
  "client_tracer_detach = request_bool 0x0701 []"

record tracer_event =
  tr_timestamp_ns :: u64
  tr_event_type :: u32
  tr_lwp :: u32
  tr_syscall_no :: u32
  tr_syscall_ret :: int
  tr_args :: "u64 list"
  tr_signal :: int
  tr_fault_addr :: u64

definition tracer_event_at :: "byte list \<Rightarrow> nat \<Rightarrow> tracer_event" where
  "tracer_event_at bs off = \<lparr>tr_timestamp_ns = get_u64 bs off, tr_event_type = get_u32 bs (off + 8),
     tr_lwp = get_u32 bs (off + 12), tr_syscall_no = get_u32 bs (off + 16), tr_syscall_ret = get_i32 bs (off + 20),
     tr_args = map (\<lambda>j. get_u64 bs (off + 24 + 8 * j)) [0..<6], tr_signal = get_i32 bs (off + 72),
     tr_fault_addr = get_u64 bs (off + 80)\<rparr>"

text \<open>
  The loop of \<^verbatim>\<open>tracer_poll\<close> over the events announced by the response. A read outside the
  response is undefined; here it is \<^const>\<open>None\<close>.
\<close>

definition tracer_events :: "byte list \<Rightarrow> tracer_event list option" where
  "tracer_events response =
     (if length response < 8 then Some []
      else let count = unat (get_u32 response 0)
           in if \<forall>i < count. 8 + i * 88 + 88 \<le> length response
              then Some (map (\<lambda>i. tracer_event_at response (8 + i * 88)) [0..<count]) else None)"

datatype tracer_poll_result = Tracer_Failed | Tracer_Out_Of_Bounds | Tracer_Events "tracer_event list"

definition client_tracer_poll :: "(client, tracer_poll_result) state" where
  "client_tracer_poll = do {
     r \<leftarrow> request_body 0x0702 [];
     State_Monad.return (case r of None \<Rightarrow> Tracer_Failed
       | Some response \<Rightarrow> (case tracer_events response of
                             None \<Rightarrow> Tracer_Out_Of_Bounds
                           | Some evs \<Rightarrow> Tracer_Events evs))
   }"

record tracer_status =
  ts_state :: int
  ts_events_total :: u32
  ts_crash_signal :: int
  ts_start_time_ns :: u64
  ts_elapsed_ns :: u64
  ts_dump_path :: string

text \<open>
  The path is assigned as a C string, up to its first NUL within the response; a path that
  fills its 256 bytes runs on into what follows.
\<close>

definition tracer_status_of :: "byte list \<Rightarrow> tracer_status" where
  "tracer_status_of bs = \<lparr>ts_state = get_i32 bs 0, ts_events_total = get_u32 bs 4, ts_crash_signal = get_i32 bs 8,
     ts_start_time_ns = get_u64 bs 16, ts_elapsed_ns = get_u64 bs 24, ts_dump_path = fixed_string (drop 32 bs)\<rparr>"

definition client_tracer_status :: "(client, tracer_status option) state" where
  "client_tracer_status = request_object 0x0703 [] 288 tracer_status_of ''short tracer status response''"

section \<open>The bridge's backend\<close>

definition client_backend :: "bool \<Rightarrow> client backend" where
  "client_backend fpregs_supported =
     \<lparr>be_process_list = run_state client_process_list,
      be_process_maps = (\<lambda>pid. run_state (client_process_maps pid)),
      be_process_info = (\<lambda>pid. run_state (client_process_info pid)),
      be_process_kill = (\<lambda>pid. run_state (client_process_kill pid)),
      be_memory_read = (\<lambda>pid address len. run_state (client_memory_read pid address (word_of_nat len))),
      be_memory_write = (\<lambda>pid address data. run_state (do {
        r \<leftarrow> client_memory_write pid address data;
        State_Monad.return (case r of None \<Rightarrow> (False, 0) | Some written \<Rightarrow> (True, written)) })),
      be_attach = (\<lambda>pid. run_state (client_debug_attach pid)),
      be_detach = run_state client_debug_detach,
      be_stop = run_state client_debug_stop,
      be_continue = run_state client_debug_continue,
      be_step = (\<lambda>lwp. run_state (client_debug_step lwp)),
      be_get_threads = run_state client_debug_get_threads,
      be_get_regs = (\<lambda>lwp. run_state (client_debug_get_regs lwp)),
      be_set_regs = (\<lambda>lwp regs. run_state (client_debug_set_regs lwp regs)),
      be_get_dbregs = (\<lambda>lwp. run_state (client_debug_get_dbregs lwp)),
      be_fpregs_supported = (\<lambda>c. fpregs_supported),
      be_get_fpregs = (\<lambda>lwp. run_state (client_debug_get_fpregs lwp)),
      be_set_fpregs = (\<lambda>lwp fp. run_state (client_debug_set_fpregs lwp fp)),
      be_set_breakpoint = (\<lambda>address kind. run_state (client_debug_set_breakpoint address kind)),
      be_clear_breakpoint = (\<lambda>address. run_state (client_debug_clear_breakpoint address)),
      be_set_watchpoint = (\<lambda>address len wtype. run_state (client_debug_set_watchpoint address len wtype)),
      be_clear_watchpoint = (\<lambda>address. run_state (client_debug_clear_watchpoint address)),
      be_get_watchpoints = run_state client_debug_get_watchpoints,
      be_poll_events = run_state client_debug_poll_events\<rparr>"

end
