(* ===== verification/Client_Lifecycle.thy ===== *)
theory Client_Lifecycle
  imports Client_Ops
begin

text \<open>
  Opening, cancelling and handing over the connection of the frontend's \<^verbatim>\<open>Client\<close>
  (\<^verbatim>\<open>memdbg_client.cpp\<close>) and its second socket for the kernel log
  (\<^verbatim>\<open>client_operations.cpp\<close>). What the operating system answers is an argument.
\<close>

section \<open>Connecting\<close>

text \<open>
  One turn of the wait for a pending connection: the caller has cancelled, the deadline has
  passed, the wait failed (and whether a cancellation is then pending), nothing happened, or
  the socket became writable with the connection's error or none.
\<close>

datatype poll_event =
    Poll_Cancelled
  | Poll_Deadline
  | Poll_Wait_Failed socket_error bool
  | Poll_Nothing
  | Poll_Writable "string option"

datatype connect_start = Connect_Done | Connect_Refused string | Connect_Pending "poll_event list"

record connect_env =
  ce_startup_error :: "string option"
  ce_socket_error :: "socket_error option"
  ce_address_ok :: bool
  ce_nonblocking_error :: "socket_error option"
  ce_connect :: connect_start
  ce_cancelled :: bool
  ce_blocking_error :: "socket_error option"
  ce_rx :: "recv_event list"
  ce_tx :: "send_event list"

text \<open>
  How an attempt fails: \<open>Connect_Cancelled\<close> where the code has found \<^verbatim>\<open>cancel_requested_\<close> set, which
  \<^verbatim>\<open>cancel_pending_io\<close> does from another thread while the attempt runs, and with an error otherwise.
\<close>

datatype connect_failure = Connect_Cancelled | Connect_Failed string

fun failure_text :: "connect_failure \<Rightarrow> string" where
  "failure_text Connect_Cancelled = ''connect cancelled''"
| "failure_text (Connect_Failed e) = e"

text \<open>The loop returns the failure, or none when the connection is up; the deadline ends every wait.\<close>

fun connect_loop :: "poll_event list \<Rightarrow> connect_failure option" where
  "connect_loop [] = Some (Connect_Failed ''connect: timed out'')"
| "connect_loop (Poll_Cancelled # es) = Some Connect_Cancelled"
| "connect_loop (Poll_Deadline # es) = Some (Connect_Failed ''connect: timed out'')"
| "connect_loop (Poll_Wait_Failed e cancelled # es) =
     (if e = Interrupted then connect_loop es
      else if cancelled then Some Connect_Cancelled
      else Some (Connect_Failed (''connect: '' @ error_text e)))"
| "connect_loop (Poll_Nothing # es) = connect_loop es"
| "connect_loop (Poll_Writable (Some e) # es) = Some (Connect_Failed (''connect: '' @ e))"
| "connect_loop (Poll_Writable None # es) = None"

definition connect_error :: "connect_env \<Rightarrow> connect_failure option" where
  "connect_error env =
     (case ce_socket_error env of Some e \<Rightarrow> Some (Connect_Failed (errno_text ''socket'' e (error_text e)))
      | None \<Rightarrow>
        if \<not> ce_address_ok env then Some (Connect_Failed ''invalid IPv4 address'')
        else case ce_nonblocking_error env of
               Some e \<Rightarrow> Some (Connect_Failed (errno_text ''connect: non-blocking mode'' e (error_text e)))
             | None \<Rightarrow>
               (case (case ce_connect env of Connect_Done \<Rightarrow> None
                      | Connect_Refused e \<Rightarrow> Some (Connect_Failed (''connect: '' @ e))
                      | Connect_Pending es \<Rightarrow> connect_loop es) of
                  Some f \<Rightarrow> Some f
                | None \<Rightarrow>
                  if ce_cancelled env then Some Connect_Cancelled
                  else map_option (\<lambda>e. Connect_Failed (errno_text ''connect: blocking mode'' e (error_text e)))
                         (ce_blocking_error env)))"

text \<open>
  An attempt that ends as cancelled leaves \<^verbatim>\<open>cancel_requested_\<close> set: the attempt resets it only at
  its start. A cancellation that the attempt does not look at any more (behind its last test, or on
  a path that fails for another reason) is the operation \<^verbatim>\<open>cancel_pending_io\<close> after it.
\<close>

definition client_connect_to :: "connect_env \<Rightarrow> (client, bool) state" where
  "client_connect_to env = do {
     _ \<leftarrow> modify disconnect_unlocked;
     _ \<leftarrow> modify (\<lambda>c. c\<lparr>c_cancel_requested := False, c_compressed_maps_support := - 1\<rparr>);
     case ce_startup_error env of
       Some e \<Rightarrow> do { _ \<leftarrow> set_error e; State_Monad.return False }
     | None \<Rightarrow> do {
         _ \<leftarrow> modify (\<lambda>c. c\<lparr>c_socket_runtime_active := True, c_fd := (ce_socket_error env = None)\<rparr>);
         case connect_error env of
           Some f \<Rightarrow> do {
             _ \<leftarrow> modify (\<lambda>c. c\<lparr>c_cancel_requested := (f = Connect_Cancelled)\<rparr>);
             _ \<leftarrow> set_error (failure_text f);
             _ \<leftarrow> modify disconnect_unlocked;
             State_Monad.return False
           }
         | None \<Rightarrow> do {
             _ \<leftarrow> modify (\<lambda>c. c\<lparr>c_rx := ce_rx env, c_tx := ce_tx env\<rparr>);
             _ \<leftarrow> clear_error;
             State_Monad.return True
           }
       }
   }"

definition client_cancel_pending_io :: "client \<Rightarrow> client" where
  "client_cancel_pending_io c = c\<lparr>c_cancel_requested := True, c_fd := False\<rparr>"

text \<open>
  \<^verbatim>\<open>release_fd\<close> hands the descriptor out, as its pending events; \<^verbatim>\<open>take_fd\<close> adopts
  one. With an invalid descriptor nothing is adopted.
\<close>

definition client_release_fd :: "(client, (recv_event list \<times> send_event list) option) state" where
  "client_release_fd = do {
     fd \<leftarrow> gets (\<lambda>c. if c_fd c then Some (c_rx c, c_tx c) else None);
     _ \<leftarrow> modify (\<lambda>c. c\<lparr>c_fd := False\<rparr>);
     _ \<leftarrow> clear_error;
     State_Monad.return fd
   }"

definition client_take_fd :: "string option \<Rightarrow> (recv_event list \<times> send_event list) option \<Rightarrow> (client, unit) state" where
  "client_take_fd startup_error fd = do {
     _ \<leftarrow> modify (\<lambda>c. if c_fd c then disconnect_unlocked c else c);
     active \<leftarrow> gets c_socket_runtime_active;
     if fd \<noteq> None \<and> \<not> active \<and> startup_error \<noteq> None
     then set_error (the startup_error)
     else do {
       _ \<leftarrow> modify (\<lambda>c. if fd \<noteq> None then c\<lparr>c_socket_runtime_active := True\<rparr> else c);
       _ \<leftarrow> modify (\<lambda>c. c\<lparr>c_cancel_requested := False, c_compressed_maps_support := - 1\<rparr>);
       _ \<leftarrow> modify (\<lambda>c. case fd of None \<Rightarrow> c\<lparr>c_fd := False\<rparr>
                               | Some (rx, tx) \<Rightarrow> c\<lparr>c_fd := True, c_rx := rx, c_tx := tx\<rparr>);
       clear_error
     }
   }"

section \<open>The kernel log\<close>

text \<open>
  The second socket: whether it can be made, whether the host is an address, whether the
  connection is made.
\<close>

record klog_env =
  ke_socket_error :: "socket_error option"
  ke_address_ok :: bool
  ke_connect_error :: "socket_error option"

text \<open>
  \<open>Klog_Terminated\<close> is the end of the process: assigning to a \<^verbatim>\<open>std::thread\<close> that is
  still joinable calls \<^verbatim>\<open>std::terminate\<close>.
\<close>

datatype klog_result = Klog_Failed | Klog_Connected u16 | Klog_Terminated

definition klog_open :: "klog_env \<Rightarrow> u16 \<Rightarrow> (client, klog_result) state" where
  "klog_open env port =
     (case ke_socket_error env of
        Some e \<Rightarrow> do {
          _ \<leftarrow> set_error (errno_text ''klog socket'' e (error_text e));
          State_Monad.return Klog_Failed
        }
      | None \<Rightarrow>
        if \<not> ke_address_ok env then do { _ \<leftarrow> set_error ''invalid klog IPv4 address''; State_Monad.return Klog_Failed }
        else case ke_connect_error env of
          Some e \<Rightarrow> do {
            _ \<leftarrow> set_error (errno_text ''klog connect'' e (error_text e));
            State_Monad.return Klog_Failed
          }
        | None \<Rightarrow> do {
            _ \<leftarrow> clear_error;
            joinable \<leftarrow> gets c_klog_joinable;
            if joinable then State_Monad.return Klog_Terminated
            else do {
              _ \<leftarrow> modify (\<lambda>c. c\<lparr>c_klog_fd := True, c_klog_closed := False, c_klog_running := True,
                                 c_klog_joinable := True\<rparr>);
              State_Monad.return (Klog_Connected port)
            }
          })"

definition MEMDBG_CMD_KLOG_CONNECT :: u16 where "MEMDBG_CMD_KLOG_CONNECT = 0x0D02"

text \<open>The response: its status, its length and the port; and the whole exchange after the request.\<close>

definition klog_body :: "klog_env \<Rightarrow> response_header \<Rightarrow> (client, klog_result) state" where
  "klog_body env h =
     (if rh_status h \<noteq> 0
      then do {
        _ \<leftarrow> set_error (''klog connect: payload status '' @ dec_of_int (rh_status h) @ '' ('' @
               payload_status_name (rh_status h) @ '')'');
        State_Monad.return Klog_Failed
      }
      else if rh_length h \<noteq> 4
      then do { _ \<leftarrow> set_error ''short klog connect response''; State_Monad.return Klog_Failed }
      else do {
        p \<leftarrow> read_exact 4;
        case p of None \<Rightarrow> State_Monad.return Klog_Failed
        | Some port \<Rightarrow> klog_open env (ucast (get_u32 port 0))
      })"

definition klog_response :: "klog_env \<Rightarrow> u32 \<Rightarrow> (client, klog_result) state" where
  "klog_response env rid = do {
     r \<leftarrow> read_exact 20;
     case r of None \<Rightarrow> State_Monad.return Klog_Failed
     | Some bs \<Rightarrow>
       if \<not> valid_response MEMDBG_CMD_KLOG_CONNECT rid (response_header_of bs)
       then do { _ \<leftarrow> set_error ''invalid klog connect response header''; State_Monad.return Klog_Failed }
       else klog_body env (response_header_of bs)
   }"

text \<open>\<^verbatim>\<open>klog_connect\<close> draws the request number without skipping zero.\<close>

definition client_klog_connect :: "klog_env \<Rightarrow> (client, klog_result) state" where
  "client_klog_connect env = do {
     _ \<leftarrow> modify (\<lambda>c. c\<lparr>c_klog_fd := False\<rparr>);
     fd \<leftarrow> gets c_fd;
     if \<not> fd then do { _ \<leftarrow> set_error ''not connected to payload''; State_Monad.return Klog_Failed }
     else do {
       rid \<leftarrow> gets c_next_request_id;
       _ \<leftarrow> modify (\<lambda>c. c\<lparr>c_next_request_id := rid + 1\<rparr>);
       sent \<leftarrow> write_all (packet_header_bytes (request_header MEMDBG_CMD_KLOG_CONNECT rid 4) @ put_u32 0);
       if \<not> sent then State_Monad.return Klog_Failed
       else klog_response env rid
     }
   }"

text \<open>
  The reader thread queues what it receives, at most 4096 bytes at a time, until the socket is
  closed or fails; a timeout only makes it look at its flag again.
\<close>

function klog_reader_loop :: "recv_event list \<Rightarrow> client \<Rightarrow> client" where
  "klog_reader_loop [] c = c"
| "klog_reader_loop (Recv_Data b bs # es) c =
     (let c' = c\<lparr>c_klog_buf := c_klog_buf c @ [b # take 4095 bs]\<rparr>
      in case drop 4095 bs of
           [] \<Rightarrow> klog_reader_loop es c'
         | b' # bs' \<Rightarrow> klog_reader_loop (Recv_Data b' bs' # es) c')"
| "klog_reader_loop (Recv_Closed _ # es) c = c\<lparr>c_klog_closed := True\<rparr>"
| "klog_reader_loop (Recv_Fail _ e # es) c =
     (if e = Interrupted \<or> e = WouldBlock then klog_reader_loop es c else c\<lparr>c_klog_closed := True\<rparr>)"
  by pat_completeness auto
termination
proof (relation "measure (\<lambda>(es, c). length es + length (stream es))", goal_cases)
  case (3 b bs es c x a list)
  then have "length (drop 4095 bs) = Suc (length list)"
    by (metis length_Cons)
  then show ?case by simp
qed auto

definition client_klog_read :: "(client, bool \<times> byte list) state" where
  "client_klog_read = State (\<lambda>c.
     case c_klog_buf c of
       [] \<Rightarrow> ((\<not> c_klog_closed c, []), c)
     | chunk # chunks \<Rightarrow> ((True, chunk), c\<lparr>c_klog_buf := chunks\<rparr>))"

definition client_klog_connected :: "client \<Rightarrow> bool" where
  "client_klog_connected c \<longleftrightarrow> c_klog_fd c \<and> \<not> c_klog_closed c"

end
