(* ===== verification/Client_Scan.thy ===== *)
theory Client_Scan
  imports Client_Ops
begin

text \<open>
  The scan, telemetry and batch operations of the frontend's \<^verbatim>\<open>Client\<close>
  (\<^verbatim>\<open>src/frontend/src/core/client/client_scan.cpp\<close>).
\<close>

section \<open>Scan results\<close>

record scan_result =
  sc_count :: u32
  sc_truncated :: bool
  sc_cancelled :: bool
  sc_bytes_scanned :: u64
  sc_elapsed_ns :: u64
  sc_read_calls :: u32
  sc_regions_scanned :: u32
  sc_read_errors :: u32
  sc_addresses :: "u64 list"

text \<open>
  The response prefix has 40 bytes; an entry has \<open>entry_size\<close> bytes with the address at
  \<open>entry_addr_offset\<close>.
\<close>

definition parse_scan_response :: "nat \<Rightarrow> nat \<Rightarrow> byte list \<Rightarrow> string + scan_result" where
  "parse_scan_response entry_size entry_addr_offset response =
     (if length response < 40 then Inl ''short scan response''
      else let count = unat (get_u32 response 0)
           in if length response < 40 + count * entry_size then Inl ''truncated scan response''
              else Inr \<lparr>sc_count = get_u32 response 0, sc_truncated = (get_u32 response 4 \<noteq> 0),
                        sc_cancelled = (get_u32 response 36 AND 1 \<noteq> 0),
                        sc_bytes_scanned = get_u64 response 8, sc_elapsed_ns = get_u64 response 16,
                        sc_read_calls = get_u32 response 24, sc_regions_scanned = get_u32 response 28,
                        sc_read_errors = get_u32 response 32,
                        sc_addresses = map (\<lambda>i. get_u64 response (40 + i * entry_size + entry_addr_offset)) [0..<count]\<rparr>)"

definition finish_scan :: "nat \<Rightarrow> byte list \<Rightarrow> (client, scan_result option) state" where
  "finish_scan entry_size response =
     (case parse_scan_response entry_size 0 response of
        Inl error \<Rightarrow> fail_with error
      | Inr out \<Rightarrow> State_Monad.return (Some out))"

definition request_scan :: "u16 \<Rightarrow> byte list \<Rightarrow> nat \<Rightarrow> (client, scan_result option) state" where
  "request_scan command payload entry_size = do {
     r \<leftarrow> request_body command payload;
     case r of None \<Rightarrow> State_Monad.return None
     | Some response \<Rightarrow> finish_scan entry_size response
   }"

section \<open>Scans\<close>

text \<open>The requests are the callers' structures; their reserved fields are zero.\<close>

text \<open>\<^verbatim>\<open>uint8_t value[16]\<close> holds the first 16 bytes of the value, zero-filled.\<close>

definition value16 :: "byte list \<Rightarrow> byte list" where
  "value16 v = take 16 (v @ replicate 16 0)"

record exact_request =
  xr_pid :: int
  xr_start :: u64
  xr_length :: u64
  xr_value_type :: u32
  xr_value_length :: u32
  xr_alignment :: u32
  xr_max_results :: u32
  xr_value :: "byte list"

definition exact_request_bytes :: "exact_request \<Rightarrow> byte list" where
  "exact_request_bytes r = put_i32 (xr_pid r) @ put_u64 (xr_start r) @ put_u64 (xr_length r) @
     put_u32 (xr_value_type r) @ put_u32 (xr_value_length r) @ put_u32 (xr_alignment r) @
     put_u32 (xr_max_results r) @ value16 (xr_value r)"

definition client_scan_exact :: "exact_request \<Rightarrow> (client, scan_result option) state" where
  "client_scan_exact req = request_scan 0x0300 (exact_request_bytes req) 8"

record process_exact_request =
  pr_pid :: int
  pr_value_type :: u32
  pr_value_length :: u32
  pr_alignment :: u32
  pr_max_results :: u32
  pr_protection_mask :: u32
  pr_start :: u64
  pr_end :: u64
  pr_value :: "byte list"

definition process_exact_request_bytes :: "process_exact_request \<Rightarrow> byte list" where
  "process_exact_request_bytes r = put_i32 (pr_pid r) @ put_u32 (pr_value_type r) @ put_u32 (pr_value_length r) @
     put_u32 (pr_alignment r) @ put_u32 (pr_max_results r) @ put_u32 (pr_protection_mask r) @
     put_u64 (pr_start r) @ put_u64 (pr_end r) @ value16 (pr_value r)"

definition client_scan_process_exact :: "process_exact_request \<Rightarrow> (client, scan_result option) state" where
  "client_scan_process_exact req = request_scan 0x0301 (process_exact_request_bytes req) 8"

definition client_scan_process_exact_tracked ::
    "u64 \<Rightarrow> process_exact_request \<Rightarrow> (client, scan_result option) state" where
  "client_scan_process_exact_tracked job_id req =
     (if job_id = 0 then fail_with ''scan job id must be non-zero''
      else request_scan 0x0307 (put_u64 job_id @ process_exact_request_bytes req) 8)"

record scan_job_status =
  sj_bytes_done :: u64
  sj_bytes_total :: u64
  sj_results_found :: u64
  sj_maps_done :: u32
  sj_maps_total :: u32
  sj_workers_active :: u32
  sj_workers_total :: u32
  sj_read_errors :: u32
  sj_state :: u32

definition scan_job_of :: "byte list \<Rightarrow> u64 \<times> scan_job_status" where
  "scan_job_of bs = (get_u64 bs 0,
     \<lparr>sj_bytes_done = get_u64 bs 8, sj_bytes_total = get_u64 bs 16, sj_results_found = get_u64 bs 24,
      sj_maps_done = get_u32 bs 32, sj_maps_total = get_u32 bs 36, sj_workers_active = get_u32 bs 40,
      sj_workers_total = get_u32 bs 44, sj_read_errors = get_u32 bs 48, sj_state = get_u32 bs 52\<rparr>)"

definition scan_job_request :: "u16 \<Rightarrow> u64 \<Rightarrow> (client, scan_job_status option) state" where
  "scan_job_request command job_id = do {
     r \<leftarrow> raw_request command (put_u64 job_id);
     State_Monad.return (case r of None \<Rightarrow> None
       | Some (status, response) \<Rightarrow>
         if status \<noteq> 0 then None
         else case read_object 56 scan_job_of response of
                None \<Rightarrow> None
              | Some (jid, st) \<Rightarrow> if jid \<noteq> job_id then None else Some st)
   }"

definition client_scan_job_status :: "u64 \<Rightarrow> (client, scan_job_status option) state" where
  "client_scan_job_status job_id = scan_job_request 0x0308 job_id"

definition client_scan_job_cancel :: "u64 \<Rightarrow> (client, scan_job_status option) state" where
  "client_scan_job_cancel job_id = scan_job_request 0x0309 job_id"

text \<open>The pattern's length in the request is the caller's; the mask follows the pattern.\<close>

record aob_request =
  ar_pid :: int
  ar_start :: u64
  ar_length :: u64
  ar_max_results :: u32
  ar_pattern_length :: u32

definition client_scan_aob :: "aob_request \<Rightarrow> byte list \<Rightarrow> byte list \<Rightarrow> (client, scan_result option) state" where
  "client_scan_aob req pattern pattern_mask =
     (if length pattern \<noteq> length pattern_mask \<or> length pattern > 256 then fail_with ''invalid AOB pattern/mask''
      else request_scan 0x0302 (put_i32 (ar_pid req) @ put_u64 (ar_start req) @ put_u64 (ar_length req) @
             put_u32 (ar_max_results req) @ put_u32 (ar_pattern_length req) @ replicate 4 0 @ pattern @ pattern_mask) 8)"

record process_aob_request =
  pa_pid :: int
  pa_protection_mask :: u32
  pa_max_results :: u32
  pa_pattern_length :: u32
  pa_start :: u64
  pa_end :: u64

definition client_scan_process_aob ::
    "process_aob_request \<Rightarrow> byte list \<Rightarrow> byte list \<Rightarrow> (client, scan_result option) state" where
  "client_scan_process_aob req pattern pattern_mask =
     (if length pattern \<noteq> length pattern_mask \<or> length pattern > 256 then fail_with ''invalid AOB pattern/mask''
      else request_scan 0x0305 (put_i32 (pa_pid req) @ put_u32 (pa_protection_mask req) @ put_u32 (pa_max_results req) @
             put_u32 (pa_pattern_length req) @ put_u64 (pa_start req) @ put_u64 (pa_end req) @ replicate 8 0 @
             pattern @ pattern_mask) 8)"

record pointer_request =
  pq_pid :: int
  pq_start :: u64
  pq_length :: u64
  pq_target_address :: u64
  pq_max_depth :: u32
  pq_max_results :: u32
  pq_alignment :: u32

text \<open>The entries of a pointer scan have 16 bytes, with the base address first.\<close>

definition client_scan_pointer :: "pointer_request \<Rightarrow> (client, scan_result option) state" where
  "client_scan_pointer req = request_scan 0x0303 (put_i32 (pq_pid req) @ put_u64 (pq_start req) @
     put_u64 (pq_length req) @ put_u64 (pq_target_address req) @ put_u32 (pq_max_depth req) @
     put_u32 (pq_max_results req) @ put_u32 (pq_alignment req) @ put_u32 0) 16"

record unknown_request =
  ur_abi_magic :: u32
  ur_abi_version :: u16
  ur_struct_size :: u16
  ur_flags :: u32
  ur_pid :: int
  ur_value_type :: u32
  ur_value_length :: u32
  ur_alignment :: u32
  ur_max_results :: u32
  ur_protection_mask :: u32
  ur_start :: u64
  ur_end :: u64
  ur_max_bytes :: u64

definition unknown_request_bytes :: "unknown_request \<Rightarrow> byte list" where
  "unknown_request_bytes r = put_u32 (ur_abi_magic r) @ put_u16 (ur_abi_version r) @ put_u16 (ur_struct_size r) @ put_u32 (ur_flags r) @ put_i32 (ur_pid r) @
     put_u32 (ur_value_type r) @ put_u32 (ur_value_length r) @ put_u32 (ur_alignment r) @
     put_u32 (ur_max_results r) @ put_u32 (ur_protection_mask r) @ put_u32 0 @
     put_u64 (ur_start r) @ put_u64 (ur_end r) @ put_u64 (ur_max_bytes r)"

definition legacy_unknown :: "unknown_request \<Rightarrow> process_exact_request" where
  "legacy_unknown r = \<lparr>pr_pid = ur_pid r, pr_value_type = ur_value_type r, pr_value_length = ur_value_length r,
     pr_alignment = ur_alignment r, pr_max_results = ur_max_results r, pr_protection_mask = ur_protection_mask r,
     pr_start = ur_start r, pr_end = ur_end r, pr_value = []\<rparr>"

text \<open>A daemon that does not know the versioned scan gets the old one, unless filters are asked for.\<close>

definition client_scan_unknown :: "unknown_request \<Rightarrow> (client, scan_result option) state" where
  "client_scan_unknown req = do {
     r \<leftarrow> request 0x0306 (unknown_request_bytes req);
     case r of
       Request_Ok response \<Rightarrow> finish_scan 8 response
     | Request_Status status _ \<Rightarrow>
         if status \<noteq> status_code MEMDBG_ERR_UNSUPPORTED then State_Monad.return None
         else if ur_flags req \<noteq> 0
         then fail_with ''the payload does not support versioned unknown-scan filters''
         else request_scan 0x0304 (process_exact_request_bytes (legacy_unknown req)) 8
     | Request_Failed \<Rightarrow> State_Monad.return None
   }"

section \<open>Telemetry and batches\<close>

record telemetry_snapshot =
  ts_total_bytes_read :: u64
  ts_total_bytes_written :: u64
  ts_total_read_calls :: u64
  ts_total_write_calls :: u64
  ts_uptime_seconds :: u64
  ts_active_connections :: u32
  ts_thread_pool_size :: u32
  ts_scan_cache_hits :: u32
  ts_scan_cache_misses :: u32

definition telemetry_of :: "byte list \<Rightarrow> telemetry_snapshot" where
  "telemetry_of bs = \<lparr>ts_total_bytes_read = get_u64 bs 0, ts_total_bytes_written = get_u64 bs 8,
     ts_total_read_calls = get_u64 bs 16, ts_total_write_calls = get_u64 bs 24, ts_uptime_seconds = get_u64 bs 32,
     ts_active_connections = get_u32 bs 40, ts_thread_pool_size = get_u32 bs 44,
     ts_scan_cache_hits = get_u32 bs 48, ts_scan_cache_misses = get_u32 bs 52\<rparr>"

definition client_telemetry :: "(client, telemetry_snapshot option) state" where
  "client_telemetry = request_object 0x0400 [] 60 telemetry_of ''short telemetry response''"

text \<open>An entry of a batch result: address, length or bytes written, status.\<close>

record batch_entry =
  ba_address :: u64
  ba_length :: u32
  ba_status :: u32

definition batch_entry_at :: "byte list \<Rightarrow> nat \<Rightarrow> batch_entry" where
  "batch_entry_at bs off = \<lparr>ba_address = get_u64 bs off, ba_length = get_u32 bs (off + 8), ba_status = get_u32 bs (off + 12)\<rparr>"

definition batch_entries :: "byte list \<Rightarrow> nat \<Rightarrow> batch_entry list" where
  "batch_entries bs count = map (\<lambda>i. batch_entry_at bs (i * 16)) [0..<count]"

definition batch_read_request :: "int \<Rightarrow> (u64 \<times> u32) list \<Rightarrow> byte list" where
  "batch_read_request pid items = put_i32 pid @ put_u32 (word_of_nat (length items)) @ put_u32 0 @
     concat (map (\<lambda>(address, len). put_u64 address @ put_u32 len @ put_u32 0) items)"

definition batch_read_result :: "nat \<Rightarrow> byte list \<Rightarrow> (client, (batch_entry list \<times> byte list) option) state" where
  "batch_read_result count response =
     (if length response < count * 16 then fail_with ''batch_read: short response''
      else case maybe_decompress (drop (count * 16) response) of
             None \<Rightarrow> fail_with ''batch_read: LZ4 decompression failed''
           | Some data \<Rightarrow> State_Monad.return (Some (batch_entries response count, data)))"

definition client_batch_read ::
    "int \<Rightarrow> (u64 \<times> u32) list \<Rightarrow> (client, (batch_entry list \<times> byte list) option) state" where
  "client_batch_read pid items =
     (if items = [] \<or> length items > 64 then fail_with ''batch_read: invalid item count''
      else do {
        r \<leftarrow> request_body 0x0202 (batch_read_request pid items);
        case r of None \<Rightarrow> State_Monad.return None
        | Some response \<Rightarrow> batch_read_result (length items) response
      })"

definition batch_write_request :: "int \<Rightarrow> (u64 \<times> byte list) list \<Rightarrow> byte list" where
  "batch_write_request pid items = put_i32 pid @ put_u32 (word_of_nat (length items)) @ put_u32 0 @
     concat (map (\<lambda>(address, data). put_u64 address @ put_u32 (word_of_nat (length data)) @ put_u32 0 @ data) items)"

definition client_batch_write ::
    "int \<Rightarrow> (u64 \<times> byte list) list \<Rightarrow> (client, batch_entry list option) state" where
  "client_batch_write pid items =
     (if items = [] \<or> length items > 64 then fail_with ''batch_write: invalid item count''
      else request_object 0x0203 (u32_sized (batch_write_request pid items)) (length items * 16)
             (\<lambda>bs. batch_entries bs (length items)) ''batch_write: short response'')"

text \<open>
  \<^verbatim>\<open>snprintf\<close> with \<^verbatim>\<open>%s\<close> copies up to the first NUL, which for a full field lies in one of
  the fields behind it, cut to the caller's buffer. The caller passes the four buffer sizes.
\<close>

definition cstring_at :: "byte list \<Rightarrow> nat \<Rightarrow> nat \<Rightarrow> string" where
  "cstring_at app off n = take (n - 1) (fixed_string (drop off (take 148 app)))"

definition client_foreground_app ::
    "nat \<Rightarrow> nat \<Rightarrow> nat \<Rightarrow> nat \<Rightarrow> (client, (string \<times> string \<times> string \<times> string) option) state" where
  "client_foreground_app title_id_size content_id_size name_size app_ver_size =
     request_object 0x0103 [] 148
       (\<lambda>app. (cstring_at app 4 title_id_size, cstring_at app 20 content_id_size, cstring_at app 84 name_size,
              cstring_at app 132 app_ver_size)) ''short foreground app response''"

end
