(* ===== verification/Client_End_To_End.thy ===== *)
theory Client_End_To_End
  imports Client_Ops
begin

text \<open>
  The daemon's memory handlers (\<^verbatim>\<open>src/src/core/daemon/handlers/memory.c\<close>) and the whole
  exchange between daemon and client: what the client's operation returns when the daemon's
  handler has produced the response. The access to the target's memory is an argument of the
  handlers.
\<close>

section \<open>The daemon's memory handlers\<close>

definition handle_memory_read ::
    "nat \<Rightarrow> (int \<Rightarrow> u64 \<Rightarrow> nat \<Rightarrow> memdbg_status + byte list) \<Rightarrow> bool \<Rightarrow> byte list \<Rightarrow> memdbg_status + byte list" where
  "handle_memory_read max_read_bytes memory_read malloc_ok body =
     (if length body \<noteq> 16 then Inl MEMDBG_ERR_PROTOCOL
      else let len = unat (get_u32 body 12)
           in if len > max_read_bytes then Inl MEMDBG_ERR_OVERFLOW
              else if len = 0 then Inr []
              else if \<not> malloc_ok then Inl MEMDBG_ERR_NOMEM
              else memory_read (get_i32 body 0) (get_u64 body 4) len)"

definition handle_memory_write ::
    "nat \<Rightarrow> (int \<Rightarrow> u64 \<Rightarrow> byte list \<Rightarrow> memdbg_status + nat) \<Rightarrow> byte list \<Rightarrow> memdbg_status + byte list" where
  "handle_memory_write max_read_bytes memory_write body =
     (if length body < 16 then Inl MEMDBG_ERR_PROTOCOL
      else let len = unat (get_u32 body 12)
           in if len > max_read_bytes \<or> length body \<noteq> 16 + len then Inl MEMDBG_ERR_PROTOCOL
              else case memory_write (get_i32 body 0) (get_u64 body 4) (drop 16 body) of
                     Inl status \<Rightarrow> Inl status
                   | Inr written \<Rightarrow> Inr (put_u32 (word_of_nat written)))"

section \<open>Framed responses\<close>

lemma framed_response:
  assumes "length data < 2 ^ 32 - 1"
  obtains body t' where "send_framed_response req status data comp_ok t = Some (send_response req status body, t')"
    and "maybe_decompress body = Some data" and "length body \<le> length data + 1"
proof -
  let ?raw = "response_header_bytes (reply_header req status (length data + 1)) @ 0 # data"
  have raw: "?raw = send_response req status (0 # data)"
    by (simp add: send_response_def)
  let ?bound = "lz4_compress_bound (int (length data))"
  show thesis
  proof (cases "length data < MEMDBG_LZ4_THRESHOLD \<or> length data > 2 ^ 31 - 1 \<or> \<not> comp_ok")
    case True
    then show thesis
      using that [of "0 # data" t] raw by (auto simp: send_framed_response_def)
  next
    case False
    then have small: "length data < 2 ^ 31" by simp
    obtain out t' where comp: "lz4_compress_default data ?bound t = Some (out, t')"
      "out \<noteq> [] \<longrightarrow> lz4_decompress_safe out (int (length data)) = Some data"
      using compress_correct [OF small, of ?bound t] by auto
    show thesis
    proof (cases "out = [] \<or> length out \<ge> length data - length data div 8")
      case True
      then show thesis
        using that [of "0 # data" t'] raw comp(1) False by (auto simp: send_framed_response_def Let_def)
    next
      case fits: False
      let ?body = "1 # put_u32 (word_of_nat (length data)) @ out"
      have "maybe_decompress ?body = Some data"
        using small comp(2) fits by (intro maybe_decompress_compressed) auto
      moreover have "512 \<le> length data div 8"
        using False div_le_mono [of 4096 "length data" 8] by (simp add: MEMDBG_LZ4_THRESHOLD_def)
      then have "length ?body \<le> length data + 1"
        using fits by simp linarith
      moreover have "send_framed_response req status data comp_ok t = Some (send_response req status ?body, t')"
        using comp(1) False fits by (auto simp: send_framed_response_def send_response_def Let_def add.commute)
      ultimately show thesis by (rule that [rotated])
    qed
  qed
qed

lemma wp_request_body:
  assumes "connected c"
    and "stream (c_rx c) = send_response (request_header command (next_id (c_next_request_id c)) (length payload)) MEMDBG_OK body @ more_bytes"
    and "length payload \<le> MEMDBG_PROTOCOL_MAX_PACKET" and "length body \<le> max_response_for_command command"
    and "\<And>c'. delivered command payload c more_bytes c' \<Longrightarrow> Q (Some body) c'"
  shows "wp (request_body command payload) Q c"
  unfolding request_body_def wp_bind
  by (rule wp_request_benign [OF assms(1-4)]) (simp add: wp_simps response_result_def assms(5))

lemma length_memory_request [simp]: "length (memory_request_bytes pid address len) = 16"
  by (simp add: memory_request_bytes_def)

lemma memory_request_fields:
  assumes "- (2 ^ 31) \<le> pid" "pid < 2 ^ 31"
  shows "get_i32 (memory_request_bytes pid address len @ data) 0 = pid"
    and "get_u64 (memory_request_bytes pid address len @ data) 4 = address"
    and "get_u32 (memory_request_bytes pid address len @ data) 12 = len"
  using assms get_put_i32 [of "[]" 0 pid "put_u64 address @ put_u32 len @ data"]
    get_put_u64 [of "put_i32 pid" 4 address "put_u32 len @ data"]
    get_put_u32 [of "put_i32 pid @ put_u64 address" 12 len data]
  by (simp_all add: memory_request_bytes_def)

lemma max_response_other: "max_response_for_command command \<ge> MEMDBG_PROTOCOL_MAX_PACKET + 1024 * 1024"
  by (simp add: max_response_for_command_def MEMDBG_PROTOCOL_MAX_MAP_RESPONSE_def MEMDBG_PROTOCOL_MAX_PACKET_def)

text \<open>
  C28. Memory reads from end to end. When the daemon serves the request the client sends, with
  its default limit on reads, and the connection delivers the response however it is cut into
  pieces, the client's \<^verbatim>\<open>memory_read\<close> returns exactly the bytes the daemon read from the
  process, address and length asked for, compressed on the way or not, and the connection is
  behind the response.
\<close>

theorem memory_read_end_to_end:
  assumes "connected c" and "- (2 ^ 31) \<le> pid" and "pid < 2 ^ 31" and "0 < len" and "unat len \<le> 1024 * 1024"
    and "memory_read pid address (unat len) = Inr data" and "length data = unat len"
    and "handle_memory_read (1024 * 1024) memory_read True (memory_request_bytes pid address len) = Inr out"
    and "send_framed_response (request_header 0x0200 (next_id (c_next_request_id c)) 16) MEMDBG_OK out comp_ok t = Some (bytes, t')"
    and "stream (c_rx c) = bytes @ more_bytes"
  shows "\<exists>c'. run_state (client_memory_read pid address len) c = (Some data, c') \<and> connected c' \<and> stream (c_rx c') = more_bytes"
proof -
  have "get_u32 (memory_request_bytes pid address len) 12 = len" "get_i32 (memory_request_bytes pid address len) 0 = pid"
    "get_u64 (memory_request_bytes pid address len) 4 = address"
    using memory_request_fields [OF assms(2,3), of address len "[]"] by simp_all
  moreover have "0 < unat len"
    using assms(4) by (simp add: unat_gt_0)
  ultimately have out: "out = data"
    using assms(5-8) by (simp add: handle_memory_read_def Let_def)
  have "length data < 2 ^ 32 - 1" using assms(5,7) by simp
  then obtain body t'' where sent: "send_framed_response (request_header 0x0200 (next_id (c_next_request_id c)) 16)
      MEMDBG_OK data comp_ok t = Some (send_response (request_header 0x0200 (next_id (c_next_request_id c)) 16) MEMDBG_OK body, t'')"
    and body: "maybe_decompress body = Some data" "length body \<le> length data + 1"
    by (rule framed_response)
  then have bytes: "bytes = send_response (request_header 0x0200 (next_id (c_next_request_id c)) 16) MEMDBG_OK body"
    using assms(9) out by simp
  have "wp (client_memory_read pid address len)
      (\<lambda>r c'. r = Some data \<and> connected c' \<and> stream (c_rx c') = more_bytes) c"
    unfolding client_memory_read_def wp_bind
  proof (rule wp_request_body [where body = body])
    show "length body \<le> max_response_for_command 0x0200"
      using body(2) assms(5,7) max_response_other [of "0x0200"] by (simp add: MEMDBG_PROTOCOL_MAX_PACKET_def)
  qed (use assms bytes body in \<open>auto simp: wp_simps MEMDBG_PROTOCOL_MAX_PACKET_def delivered_def\<close>)
  then show ?thesis
    by (auto simp: wp_def split: prod.splits)
qed


text \<open>The bytes of a stream, delivered one by one.\<close>

definition deliver :: "byte list \<Rightarrow> recv_event list" where
  "deliver bs = map (\<lambda>b. Recv_Data b []) bs"

lemma stream_deliver [simp]: "stream (deliver bs) = bs"
  by (induction bs) (simp_all add: deliver_def)

lemma connected_sample [simp]: "connected (sample_client (deliver bs) [])"
  by (simp add: connected_def sample_client_def deliver_def list_all_iff)

lemma sample_client_fields [simp]:
  "c_rx (sample_client rx tx) = rx" "c_next_request_id (sample_client rx tx) = 1"
  "c_compressed_maps_support (sample_client rx tx) = - 1" "c_sent (sample_client rx tx) = []"
  by (simp_all add: sample_client_def)

theorem memory_read_end_to_end_witness:
  "\<exists>c'. run_state (client_memory_read 7 0x1000 1)
      (sample_client (deliver (send_response (request_header 0x0200 1 16) MEMDBG_OK [0, 0xCC])) []) = (Some [0xCC], c') \<and>
    connected c' \<and> stream (c_rx c') = []"
proof (rule memory_read_end_to_end [where memory_read = "\<lambda>_ _ _. Inr [0xCC]" and out = "[0xCC]" and comp_ok = True
      and t = lz4_table0 and t' = lz4_table0 and bytes = "send_response (request_header 0x0200 1 16) MEMDBG_OK [0, 0xCC]"])
  show "handle_memory_read (1024 * 1024) (\<lambda>_ _ _. Inr [0xCC]) True (memory_request_bytes 7 0x1000 1) = Inr [0xCC]"
    using memory_request_fields(3) [of 7 "0x1000" 1 "[]"] by (simp add: handle_memory_read_def Let_def)
qed (simp_all add: send_framed_response_def send_response_def MEMDBG_LZ4_THRESHOLD_def next_id_def)

section \<open>Memory writes\<close>

lemma u32_sized_small [simp]: "length bs < 2 ^ 32 \<Longrightarrow> u32_sized bs = bs"
  by (simp add: u32_sized_def)

lemma wp_request_object:
  assumes "connected c"
    and "stream (c_rx c) = send_response (request_header command (next_id (c_next_request_id c)) (length payload)) MEMDBG_OK body @ more_bytes"
    and "length payload \<le> MEMDBG_PROTOCOL_MAX_PACKET" and "n \<le> length body" and "length body \<le> max_response_for_command command"
    and "\<And>c'. delivered command payload c more_bytes c' \<Longrightarrow> Q (Some (dec body)) c'"
  shows "wp (request_object command payload n dec short) Q c"
  unfolding request_object_def wp_bind
  by (rule wp_request_body [OF assms(1-3,5)]) (use assms(4,6) in \<open>simp add: wp_simps read_object_def\<close>)

text \<open>
  Memory writes from end to end. The client's request carries the whole data: the daemon's
  handler is asked to write exactly these bytes at the address and process asked for, and the
  number it reports as written is the number the client's \<^verbatim>\<open>memory_write\<close> returns.
\<close>

theorem memory_write_end_to_end:
  assumes "connected c" and "- (2 ^ 31) \<le> pid" and "pid < 2 ^ 31" and "length data \<le> 1024 * 1024 - 16"
    and "memory_write pid address data = Inr written" and "written < 2 ^ 32"
    and "handle_memory_write (1024 * 1024) memory_write (memory_request_bytes pid address (word_of_nat (length data)) @ data) = Inr out"
    and "stream (c_rx c) = send_response (request_header 0x0201 (next_id (c_next_request_id c)) (16 + length data)) MEMDBG_OK out @ more_bytes"
  shows "\<exists>c'. run_state (client_memory_write pid address data) c = (Some (word_of_nat written), c') \<and>
    delivered 0x0201 (memory_request_bytes pid address (word_of_nat (length data)) @ data) c more_bytes c'"
proof -
  let ?body = "memory_request_bytes pid address (word_of_nat (length data)) @ data"
  have "unat (word_of_nat (length data) :: u32) = length data"
    using assms(4) by (simp add: unat_of_nat)
  then have out: "out = put_u32 (word_of_nat written)"
    using assms(4,5,7) memory_request_fields [OF assms(2,3), of address "word_of_nat (length data)" data]
    by (simp add: handle_memory_write_def Let_def)
  have "get_u32 out 0 = word_of_nat written"
    using get_put_u32 [of "[]" 0 "word_of_nat written" "[]"] out by simp
  then have "wp (client_memory_write pid address data)
      (\<lambda>r c'. r = Some (word_of_nat written) \<and> delivered 0x0201 ?body c more_bytes c') c"
    unfolding client_memory_write_def
    using assms(1,4,8) out max_response_other [of "0x0201"]
    by (intro wp_request_object [where body = out and more_bytes = more_bytes])
      (simp_all add: MEMDBG_PROTOCOL_MAX_PACKET_def)
  then show ?thesis
    by (auto simp: wp_def split: prod.splits)
qed

theorem memory_write_end_to_end_witness:
  "\<exists>c'. run_state (client_memory_write 7 0x1000 [0x90])
      (sample_client (deliver (send_response (request_header 0x0201 1 17) MEMDBG_OK (put_u32 1))) []) = (Some 1, c') \<and>
    delivered 0x0201 (memory_request_bytes 7 0x1000 1 @ [0x90])
      (sample_client (deliver (send_response (request_header 0x0201 1 17) MEMDBG_OK (put_u32 1))) []) [] c'"
  using memory_write_end_to_end [of "sample_client (deliver (send_response (request_header 0x0201 1 17) MEMDBG_OK (put_u32 1))) []"
      7 "[0x90]" "\<lambda>_ _ _. Inr 1" "0x1000" 1 "put_u32 1" "[]"]
    memory_request_fields [of 7 "0x1000" 1 "[0x90]"]
  by (simp add: handle_memory_write_def Let_def next_id_def)

section \<open>Maps\<close>

lemma maps_payload_small: "handle_process_maps (Inr ws) ok = Inr payload \<Longrightarrow> \<forall>w \<in> set ws. length (wm_name w) = 64 \<Longrightarrow>
  length payload < MEMDBG_PROTOCOL_MAX_MAP_RESPONSE"
proof -
  assume h: "handle_process_maps (Inr ws) ok = Inr payload" and names: "\<forall>w \<in> set ws. length (wm_name w) = 64"
  from h have small: "length ws < 2 ^ 32"
    and fits: "(4 + length ws * 88 mod size_t_max) mod size_t_max \<le> MEMDBG_PROTOCOL_MAX_MAP_RESPONSE"
    and payload: "payload = list_payload 88 map_bytes ws"
    by (auto simp: handle_process_maps_def Let_def split: if_splits)
  have "length (map_bytes w) = 88" if "w \<in> set ws" for w
    using names that by (simp add: map_bytes_def)
  then have len: "length (concat (map map_bytes ws)) = 88 * length ws"
    by (induction ws) simp_all
  have "length ws * 88 < size_t_max - 4"
    using small by (simp add: size_t_max_def)
  with fits have "4 + length ws * 88 \<le> MEMDBG_PROTOCOL_MAX_MAP_RESPONSE" by simp
  moreover have "4 + length ws * 88 \<noteq> 8 * 1024 * 1024" by presburger
  ultimately show ?thesis
    using len by (simp add: payload list_payload_def MEMDBG_PROTOCOL_MAX_MAP_RESPONSE_def)
qed


text \<open>The maps that the client reports for the daemon's list.\<close>

definition listed_maps :: "wire_map list \<Rightarrow> map_entry list" where
  "listed_maps ws = map map_of_wire (filter (\<lambda>w. wm_start w < wm_end w) ws)"

text \<open>Whenever the daemon builds a map response, the client's parser lists its maps.\<close>

lemma parse_listed_maps:
  assumes "\<forall>w \<in> set ws. length (wm_name w) = 64" and "handle_process_maps (Inr ws) ok = Inr payload"
  shows "parse_maps payload = State_Monad.return (Some (listed_maps ws))"
  using maps_roundtrip [OF assms] by (simp add: parse_maps_def listed_maps_def)

text \<open>
  Process maps from end to end, with the framed command. For every list of maps the daemon
  can send and whether or not it compresses the list, the client's \<^verbatim>\<open>process_maps\<close> returns
  exactly the daemon's nonempty maps in order, after one exchange.
\<close>

theorem process_maps_end_to_end:
  assumes "connected c" and "c_compressed_maps_support c \<noteq> 0"
    and "\<forall>w \<in> set ws. length (wm_name w) = 64" and "handle_process_maps (Inr ws) ok = Inr payload"
    and "send_framed_response (request_header MEMDBG_CMD_PROCESS_MAPS_V2 (next_id (c_next_request_id c)) 4)
      MEMDBG_OK payload comp_ok t = Some (bytes, t')"
    and "stream (c_rx c) = bytes @ more_bytes"
  shows "\<exists>c'. run_state (client_process_maps pid) c = (Some (listed_maps ws), c') \<and>
    connected c' \<and> stream (c_rx c') = more_bytes \<and> c_compressed_maps_support c' = 1"
proof -
  let ?req = "request_header MEMDBG_CMD_PROCESS_MAPS_V2 (next_id (c_next_request_id c)) 4"
  have small: "length payload < MEMDBG_PROTOCOL_MAX_MAP_RESPONSE"
    by (rule maps_payload_small) (use assms in auto)
  then have "length payload < 2 ^ 32 - 1"
    by (simp add: MEMDBG_PROTOCOL_MAX_MAP_RESPONSE_def)
  then obtain body t'' where "send_framed_response ?req MEMDBG_OK payload comp_ok t = Some (send_response ?req MEMDBG_OK body, t'')"
    and body: "maybe_decompress body = Some payload" "length body \<le> length payload + 1"
    by (rule framed_response)
  then have bytes: "bytes = send_response ?req MEMDBG_OK body"
    using assms(5) by simp
  let ?Q = "\<lambda>r c'. r = Some (listed_maps ws) \<and> connected c' \<and> stream (c_rx c') = more_bytes \<and> c_compressed_maps_support c' = 1"
  have "wp (maps_v2 (put_i32 pid))
      (\<lambda>r c'. r = Maps_Response payload \<and> connected c' \<and> stream (c_rx c') = more_bytes \<and> c_compressed_maps_support c' = 1) c"
    unfolding maps_v2_def wp_bind wp_gets if_not_P [OF assms(2)]
  proof (rule wp_request_benign [where status = MEMDBG_OK and body = body and more_bytes = more_bytes])
    show "length body \<le> max_response_for_command MEMDBG_CMD_PROCESS_MAPS_V2"
      using body(2) small by (simp add: max_response_for_command_def)
  qed (use assms bytes body in \<open>auto simp: wp_simps MEMDBG_PROTOCOL_MAX_PACKET_def response_result_def delivered_def connected_def\<close>)
  then have "wp (client_process_maps pid) ?Q c"
    unfolding client_process_maps_def wp_bind
    by (rule wp_mono) (use parse_listed_maps [OF assms(3,4)] in \<open>auto simp: wp_simps\<close>)
  then show ?thesis
    by (auto simp: wp_def split: prod.splits)
qed

text \<open>
  Process maps from a daemon without the framed command. When the daemon answers the framed
  command as unsupported (or, if it is older still, as a protocol error) without a body, the
  client repeats the request with the original command on the same connection, returns the
  same maps, and remembers not to try the framed command again.
\<close>

theorem process_maps_fallback:
  assumes "connected c" and "c_compressed_maps_support c \<noteq> 0"
    and "st = MEMDBG_ERR_UNSUPPORTED \<or> st = MEMDBG_ERR_PROTOCOL"
    and "\<forall>w \<in> set ws. length (wm_name w) = 64" and "handle_process_maps (Inr ws) ok = Inr payload"
    and "stream (c_rx c) =
      send_response (request_header MEMDBG_CMD_PROCESS_MAPS_V2 (next_id (c_next_request_id c)) 4) st [] @
      send_response (request_header MEMDBG_CMD_PROCESS_MAPS (next_id (next_id (c_next_request_id c) + 1)) 4) MEMDBG_OK payload @
      more_bytes"
  shows "\<exists>c'. run_state (client_process_maps pid) c = (Some (listed_maps ws), c') \<and>
    connected c' \<and> stream (c_rx c') = more_bytes \<and> c_compressed_maps_support c' = 0"
proof -
  let ?more = "send_response (request_header MEMDBG_CMD_PROCESS_MAPS (next_id (next_id (c_next_request_id c) + 1)) 4) MEMDBG_OK payload @ more_bytes"
  have small: "length payload \<le> max_response_for_command MEMDBG_CMD_PROCESS_MAPS"
    using maps_payload_small [of ws ok payload] assms(4,5) by (simp add: max_response_for_command_def)
  have first: "wp (maps_v2 (put_i32 pid))
      (\<lambda>r c'. r = Maps_Legacy \<and> connected c' \<and> stream (c_rx c') = ?more \<and>
        c_next_request_id c' = next_id (c_next_request_id c) + 1 \<and> c_compressed_maps_support c' = 0) c"
    unfolding maps_v2_def wp_bind wp_gets if_not_P [OF assms(2)]
    by (rule wp_request_benign [where status = st and body = "[]" and more_bytes = ?more])
      (use assms in \<open>auto simp: wp_simps MEMDBG_PROTOCOL_MAX_PACKET_def response_result_def delivered_def connected_def\<close>)
  have second: "wp (request_body MEMDBG_CMD_PROCESS_MAPS (put_i32 pid))
      (\<lambda>r c'. r = Some payload \<and> connected c' \<and> stream (c_rx c') = more_bytes \<and> c_compressed_maps_support c' = 0) d"
    if "connected d" "stream (c_rx d) = ?more" "c_next_request_id d = next_id (c_next_request_id c) + 1"
      "c_compressed_maps_support d = 0" for d
    by (rule wp_request_body [where body = payload and more_bytes = more_bytes])
      (use that small in \<open>auto simp: MEMDBG_PROTOCOL_MAX_PACKET_def delivered_def\<close>)
  have "wp (client_process_maps pid) (\<lambda>r c'. r = Some (listed_maps ws) \<and>
      connected c' \<and> stream (c_rx c') = more_bytes \<and> c_compressed_maps_support c' = 0) c"
    unfolding client_process_maps_def wp_bind
    using parse_listed_maps [OF assms(4,5)]
    by (intro wp_mono [OF first]) (auto simp: wp_simps intro!: wp_mono [OF second])
  then show ?thesis
    by (auto simp: wp_def split: prod.splits)
qed

text \<open>One file-backed map, its payload and what the client makes of it.\<close>

definition sample_map :: wire_map where
  "sample_map = \<lparr>wm_start = 0x400000, wm_end = 0x401000, wm_protection = 5, wm_flags = 0x2000000, wm_name = replicate 64 0\<rparr>"

lemma sample_map_payload:
  "handle_process_maps (Inr [sample_map]) True = Inr (list_payload 88 map_bytes [sample_map])"
  by (simp add: handle_process_maps_def size_t_max_def MEMDBG_PROTOCOL_MAX_MAP_RESPONSE_def Let_def)

lemma length_sample_payload: "length (list_payload 88 map_bytes [sample_map]) = 92"
  by (simp add: list_payload_def map_bytes_def sample_map_def size_t_max_def)

theorem process_maps_end_to_end_witness:
  "\<exists>c'. run_state (client_process_maps 7) (sample_client (deliver (send_response (request_header MEMDBG_CMD_PROCESS_MAPS_V2 1 4)
      MEMDBG_OK (0 # list_payload 88 map_bytes [sample_map]))) []) = (Some (listed_maps [sample_map]), c') \<and>
    connected c' \<and> stream (c_rx c') = [] \<and> c_compressed_maps_support c' = 1"
  by (rule process_maps_end_to_end [where ok = True and payload = "list_payload 88 map_bytes [sample_map]" and comp_ok = True
      and t = lz4_table0 and t' = lz4_table0 and bytes = "send_response (request_header MEMDBG_CMD_PROCESS_MAPS_V2 1 4)
      MEMDBG_OK (0 # list_payload 88 map_bytes [sample_map])"])
    (simp_all add: sample_map_payload length_sample_payload send_framed_response_def send_response_def
      MEMDBG_LZ4_THRESHOLD_def next_id_def, simp add: sample_map_def)

theorem process_maps_fallback_witness:
  "\<exists>c'. run_state (client_process_maps 7) (sample_client (deliver
      (send_response (request_header MEMDBG_CMD_PROCESS_MAPS_V2 1 4) MEMDBG_ERR_PROTOCOL [] @
       send_response (request_header MEMDBG_CMD_PROCESS_MAPS 2 4) MEMDBG_OK (list_payload 88 map_bytes [sample_map]))) []) =
      (Some (listed_maps [sample_map]), c') \<and>
    connected c' \<and> stream (c_rx c') = [] \<and> c_compressed_maps_support c' = 0"
  by (rule process_maps_fallback [where ok = True and payload = "list_payload 88 map_bytes [sample_map]" and st = MEMDBG_ERR_PROTOCOL])
    (simp_all add: sample_map_payload next_id_def, simp add: sample_map_def)

end
