(* ===== verification/Client_Properties.thy ===== *)
theory Client_Properties
  imports Client_Debug Client_Lifecycle Client_Scan Client_End_To_End
begin

text \<open>
  Properties of the client's operations: they all keep the byte stream in step with the
  daemon, apart from the connection to the kernel log; the lists they unmarshal lie within the
  response; registers and thread lists survive the wire; connecting is all or nothing.
\<close>

section \<open>Keeping in step\<close>

text \<open>
  A complete response, and an operation that takes only complete responses from the stream or
  closes the connection.
\<close>

definition complete_response :: "byte list \<times> byte list \<Rightarrow> bool" where
  "complete_response r \<longleftrightarrow> length (fst r) = 20 \<and> length (snd r) = unat (rh_length (response_header_of (fst r)))"

definition took_responses :: "client \<Rightarrow> client \<Rightarrow> bool" where
  "took_responses c c' \<longleftrightarrow>
     (c_fd c' \<longrightarrow> c_fd c \<and> (\<exists>rs. list_all complete_response rs \<and>
        stream (c_rx c) = concat (map answer_bytes rs) @ stream (c_rx c')))"

definition in_step :: "(client, 'a) state \<Rightarrow> bool" where
  "in_step m \<longleftrightarrow> (\<forall>c. took_responses c (snd (run_state m c)))"

lemma took_responses_refl: "took_responses c c"
  by (auto simp: took_responses_def intro!: exI [of _ "[]"])

lemma took_responses_trans:
  assumes "took_responses c d" and "took_responses d e"
  shows "took_responses c e"
  unfolding took_responses_def
proof
  assume "c_fd e"
  with assms(2) obtain rs2 where 2: "c_fd d" "list_all complete_response rs2"
    "stream (c_rx d) = concat (map answer_bytes rs2) @ stream (c_rx e)"
    by (auto simp: took_responses_def)
  with assms(1) obtain rs1 where 1: "c_fd c" "list_all complete_response rs1"
    "stream (c_rx c) = concat (map answer_bytes rs1) @ stream (c_rx d)"
    by (auto simp: took_responses_def)
  with 2 show "c_fd c \<and> (\<exists>rs. list_all complete_response rs \<and> stream (c_rx c) = concat (map answer_bytes rs) @ stream (c_rx e))"
    by (intro conjI exI [of _ "rs1 @ rs2"]) simp_all
qed

lemma in_step_return: "in_step (State_Monad.return x)"
  by (simp add: in_step_def took_responses_refl)

lemma in_step_bind: "in_step m \<Longrightarrow> (\<And>x. in_step (f x)) \<Longrightarrow> in_step (State_Monad.bind m f)"
  unfolding in_step_def by (auto intro: took_responses_trans split: prod.split)

lemma in_step_modify:
  assumes "\<And>c. c_fd (f c) = c_fd c" and "\<And>c. c_rx (f c) = c_rx c"
  shows "in_step (modify f)"
  using assms by (auto simp: in_step_def took_responses_def intro!: exI [of _ "[]"])

lemma in_step_gets: "in_step (gets f)"
  by (simp add: in_step_def took_responses_refl)

lemma in_step_if: "in_step m \<Longrightarrow> in_step n \<Longrightarrow> in_step (if b then m else n)"
  by simp

lemma in_step_option: "in_step m \<Longrightarrow> (\<And>x. in_step (f x)) \<Longrightarrow> in_step (case_option m f v)"
  by (cases v) simp_all

lemma in_step_sum: "(\<And>x. in_step (f x)) \<Longrightarrow> (\<And>x. in_step (g x)) \<Longrightarrow> in_step (case_sum f g v)"
  by (cases v) simp_all

lemma in_step_result:
  "(\<And>x. in_step (f x)) \<Longrightarrow> (\<And>x y. in_step (g x y)) \<Longrightarrow> in_step h \<Longrightarrow> in_step (case_request_result f g h v)"
  by (cases v) simp_all

lemma in_step_maps:
  "in_step m \<Longrightarrow> in_step n \<Longrightarrow> (\<And>x. in_step (f x)) \<Longrightarrow> in_step (case_maps_v2_result m n f v)"
  by (cases v) simp_all

lemma in_step_let: "in_step (f v) \<Longrightarrow> in_step (Let v f)"
  by simp

lemmas in_step_structure = in_step_return in_step_bind in_step_gets in_step_if in_step_option in_step_sum
  in_step_result in_step_maps in_step_let

lemma in_step_set_error: "in_step (set_error e)" "in_step clear_error" "in_step (fail_with e)"
  by (auto simp: set_error_def clear_error_def fail_with_def intro!: in_step_modify in_step_structure)

text \<open>A request is in step, by its postcondition.\<close>

lemma in_step_request: "in_step (request cmd body_bytes)"
  unfolding in_step_def
proof
  fix c
  show "took_responses c (snd (run_state (request cmd body_bytes) c))"
  proof (cases "c_fd c \<and> length body_bytes \<le> MEMDBG_PROTOCOL_MAX_PACKET")
    case True
    then have "wp (request cmd body_bytes) (request_post cmd body_bytes c) c"
      by (intro wp_request) simp_all
    then have post: "request_post cmd body_bytes c (fst (run_state (request cmd body_bytes) c)) (snd (run_state (request cmd body_bytes) c))"
      by (simp add: wp_iff_run)
    show ?thesis
      unfolding took_responses_def
    proof
      assume "c_fd (snd (run_state (request cmd body_bytes) c))"
      with post obtain hb body where "stream (c_rx c) = hb @ body @ stream (c_rx (snd (run_state (request cmd body_bytes) c)))"
        "length hb = 20" "length body = unat (rh_length (response_header_of hb))"
        by (auto simp: request_post_def Let_def)
      then show "c_fd c \<and> (\<exists>rs. list_all complete_response rs \<and>
          stream (c_rx c) = concat (map answer_bytes rs) @ stream (c_rx (snd (run_state (request cmd body_bytes) c))))"
        using True by (intro conjI exI [of _ "[(hb, body)]"]) (simp_all add: complete_response_def answer_bytes_def)
    qed
  next
    case False
    then show ?thesis
      by (auto simp: request_def set_error_def took_responses_def intro!: exI [of _ "[]"])
  qed
qed

lemma in_step_helpers:
  "in_step (request_body cmd pl)" "in_step (request_bool cmd pl)" "in_step (request_object cmd pl n dec short)"
  "in_step (request_list cmd parse)" "in_step (request_scan cmd pl n)" "in_step (finish_scan n response)"
  "in_step (raw_request cmd pl)" "in_step (scan_job_request cmd job)" "in_step (parse_maps response)"
  "in_step (batch_infos n response)" "in_step (stack_frames response)" "in_step (batch_read_result n response)"
  by (auto simp: request_body_def request_bool_def request_object_def request_list_def request_scan_def
      finish_scan_def raw_request_def scan_job_request_def parse_maps_def batch_infos_def stack_frames_def
      batch_read_result_def intro!: in_step_structure in_step_request in_step_set_error)

lemma in_step_maps_v2: "in_step (maps_v2 pl)"
  unfolding maps_v2_def
  by (intro in_step_structure in_step_request in_step_set_error in_step_modify) simp_all

lemmas in_step_intros = in_step_structure in_step_request in_step_set_error in_step_helpers in_step_maps_v2

lemmas process_operations =
  client_process_list_def client_process_maps_def client_process_info_def client_batch_process_info_def
  client_memory_read_def client_memory_write_def client_process_stop_def client_process_continue_def
  client_process_kill_def client_process_protect_def client_process_alloc_def client_process_free_def
  client_process_elf_load_def client_process_hijack_def client_process_stack_def client_process_call_def
  client_process_dump_def client_kernel_base_def client_kernel_read_def client_kernel_write_def
  client_console_notify_def client_console_print_def client_console_reboot_def console_text_def
  client_hello_def client_ping_def client_shutdown_payload_def client_get_services_def client_set_services_def
  client_set_legacy_compat_def

lemmas scan_operations =
  client_scan_exact_def client_scan_process_exact_def client_scan_process_exact_tracked_def
  client_scan_job_status_def client_scan_job_cancel_def client_scan_aob_def client_scan_process_aob_def
  client_scan_pointer_def client_scan_unknown_def client_telemetry_def client_batch_read_def
  client_batch_write_def client_foreground_app_def

lemmas debug_operations =
  client_debug_attach_def client_debug_detach_def client_debug_stop_def client_debug_continue_def
  client_debug_step_def client_debug_suspend_thread_def client_debug_resume_thread_def
  client_debug_get_threads_def client_debug_get_regs_def client_debug_set_regs_def
  client_debug_get_dbregs_def client_debug_set_dbregs_def client_debug_get_fpregs_def
  client_debug_set_fpregs_def client_debug_get_fsgsbase_def client_debug_set_fsgsbase_def
  client_debug_set_breakpoint_def client_debug_set_breakpoint_cond_def client_debug_clear_breakpoint_def
  client_debug_set_watchpoint_def client_debug_clear_watchpoint_def client_debug_clear_all_breakpoints_def
  client_debug_clear_all_watchpoints_def client_debug_get_breakpoints_def client_debug_get_watchpoints_def
  client_debug_poll_events_def client_tracer_attach_def client_tracer_detach_def client_tracer_poll_def
  client_tracer_status_def

text \<open>
  C26. The client keeps in step with the daemon. Whatever the daemon sends and however the
  connection behaves, after any of the client's operations that send a request and wait for its
  response (process, memory, kernel, console, service, scan, batch, debugger and tracer operations
  and \<^verbatim>\<open>raw_request\<close>) the connection is closed or the stream stands behind a number of complete
  responses, so that the next operation finds a header where it expects one; an operation never
  opens a closed connection. The exception is \<^verbatim>\<open>klog_connect\<close>, which does not go through
  \<^verbatim>\<open>request\<close> and can leave a body in the stream.
\<close>

theorem operations_in_step:
  "in_step client_process_list \<and> in_step (client_process_maps pid) \<and> in_step (client_process_info pid) \<and>
   in_step (client_batch_process_info pids) \<and> in_step (client_memory_read pid address len) \<and>
   in_step (client_memory_write pid address data) \<and> in_step (client_process_stop pid) \<and>
   in_step (client_process_continue pid) \<and> in_step (client_process_kill pid) \<and>
   in_step (client_process_protect pid address len1 protection) \<and>
   in_step (client_process_alloc pid hint len1 protection flags) \<and> in_step (client_process_free pid address len1) \<and>
   in_step (client_process_elf_load pid elf_data flags target_region match_flags) \<and>
   in_step (client_process_hijack pid elf_data flags target_region match_flags) \<and>
   in_step (client_process_stack req) \<and> in_step (client_process_call pid function_address args) \<and>
   in_step (client_process_dump pid flags) \<and> in_step client_kernel_base \<and> in_step (client_kernel_read address len) \<and>
   in_step (client_kernel_write address data) \<and> in_step (client_console_notify t) \<and>
   in_step (client_console_print t) \<and> in_step client_console_reboot \<and> in_step (client_hello role session_id out) \<and>
   in_step client_ping \<and> in_step client_shutdown_payload \<and> in_step client_get_services \<and>
   in_step (client_set_services set_mask enable_bits out1) \<and> in_step (client_set_legacy_compat enabled out1) \<and>
   in_step (client_scan_exact req1) \<and> in_step (client_scan_process_exact req2) \<and>
   in_step (client_scan_process_exact_tracked job_id req2) \<and> in_step (client_scan_job_status job_id) \<and>
   in_step (client_scan_job_cancel job_id) \<and> in_step (client_scan_aob req3 pattern pattern_mask) \<and>
   in_step (client_scan_process_aob req4 pattern pattern_mask) \<and> in_step (client_scan_pointer req5) \<and>
   in_step (client_scan_unknown req6) \<and> in_step client_telemetry \<and> in_step (client_batch_read pid items) \<and>
   in_step (client_batch_write pid items1) \<and>
   in_step (client_foreground_app title_id_size content_id_size name_size app_ver_size) \<and>
   in_step (client_debug_attach pid) \<and> in_step client_debug_detach \<and> in_step client_debug_stop \<and>
   in_step client_debug_continue \<and> in_step (client_debug_step lwp) \<and> in_step (client_debug_suspend_thread lwp) \<and>
   in_step (client_debug_resume_thread lwp) \<and> in_step client_debug_get_threads \<and>
   in_step (client_debug_get_regs lwp) \<and> in_step (client_debug_set_regs lwp regs) \<and>
   in_step (client_debug_get_dbregs lwp) \<and> in_step (client_debug_set_dbregs lwp dr) \<and>
   in_step (client_debug_get_fpregs lwp) \<and> in_step (client_debug_set_fpregs lwp fp) \<and>
   in_step (client_debug_get_fsgsbase lwp) \<and> in_step (client_debug_set_fsgsbase lwp fs_base gs_base) \<and>
   in_step (client_debug_set_breakpoint address kind) \<and>
   in_step (client_debug_set_breakpoint_cond address kind cond_reg cond_op cond_value) \<and>
   in_step (client_debug_clear_breakpoint address) \<and> in_step (client_debug_set_watchpoint address len wtype) \<and>
   in_step (client_debug_clear_watchpoint address) \<and> in_step client_debug_clear_all_breakpoints \<and>
   in_step client_debug_clear_all_watchpoints \<and> in_step client_debug_get_breakpoints \<and>
   in_step client_debug_get_watchpoints \<and> in_step client_debug_poll_events \<and> in_step (client_tracer_attach pid) \<and>
   in_step client_tracer_detach \<and> in_step client_tracer_poll \<and> in_step client_tracer_status \<and>
   in_step (raw_request cmd pl)"
  by (intro conjI; (unfold process_operations scan_operations debug_operations)?;
      intro in_step_intros)

section \<open>Connecting\<close>

text \<open>
  C29. Connecting is all or nothing. Whatever state the client was in and however the operating
  system answers, after \<^verbatim>\<open>connect_to\<close> either the new socket is open, the error is clear and
  no request, response or cancellation of an earlier connection is left, or nothing is open,
  the pipeline is empty and the socket runtime is released. The flag of a cancellation is set
  afterwards exactly when this attempt was cancelled, and the error is that of the step that failed.
\<close>

theorem connect_all_or_nothing:
  "case run_state (client_connect_to env) c of (ok, c') \<Rightarrow>
     c_pipeline_buffer c' = [] \<and> c_pipeline_requests c' = [] \<and> c_pipeline_responses c' = Map.empty \<and>
     c_pipeline_statuses c' = Map.empty \<and> \<not> c_klog_joinable c' \<and> \<not> c_klog_fd c' \<and>
     c_fd c' = ok \<and> c_socket_runtime_active c' = ok \<and>
     (c_cancel_requested c' \<longleftrightarrow> \<not> ok \<and> ce_startup_error env = None \<and> connect_error env = Some Connect_Cancelled) \<and>
     (if ok then c_rx c' = ce_rx env \<and> c_tx c' = ce_tx env \<and> c_last_error c' = [] else c_sent c' = c_sent c \<and>
        c_last_error c' = (case ce_startup_error env of Some e \<Rightarrow> e | None \<Rightarrow> failure_text (the (connect_error env))))"
proof (cases "ce_startup_error env")
  case None
  then show ?thesis
  proof (cases "connect_error env")
    case None
    then have "ce_socket_error env = None"
      by (auto simp: connect_error_def split: option.splits)
    with None \<open>ce_startup_error env = None\<close> show ?thesis
      by (simp add: client_connect_to_def disconnect_unlocked_def pipeline_reset_unlocked_def
          klog_disconnect_def klog_stop_reader_def clear_error_def set_error_def)
  qed (simp add: client_connect_to_def disconnect_unlocked_def pipeline_reset_unlocked_def
          klog_disconnect_def klog_stop_reader_def clear_error_def set_error_def)
qed (simp add: client_connect_to_def disconnect_unlocked_def pipeline_reset_unlocked_def
          klog_disconnect_def klog_stop_reader_def clear_error_def set_error_def)

section \<open>The kernel log\<close>

text \<open>The exchange of \<^verbatim>\<open>klog_connect\<close> up to the header of the response.\<close>

lemma wp_klog_header:
  assumes "connected c"
    and "stream (c_rx c) = send_response (request_header MEMDBG_CMD_KLOG_CONNECT (c_next_request_id c) 4) st body @ more_bytes"
    and "\<And>d. connected d \<Longrightarrow> stream (c_rx d) = body @ more_bytes \<Longrightarrow> c_klog_joinable d = c_klog_joinable c \<Longrightarrow>
      c_next_request_id d = c_next_request_id c + 1 \<Longrightarrow> wp (klog_body env (reply_header (request_header MEMDBG_CMD_KLOG_CONNECT (c_next_request_id c) 4) st (length body))) Q d"
  shows "wp (client_klog_connect env) Q c"
proof -
  let ?req = "request_header MEMDBG_CMD_KLOG_CONNECT (c_next_request_id c) 4"
  let ?h = "reply_header ?req st (length body)"
  have valid: "valid_response MEMDBG_CMD_KLOG_CONNECT (c_next_request_id c) ?h"
    by (simp add: valid_response_def reply_header_def request_header_def)
  have recv: "wp (klog_response env (c_next_request_id c)) Q d"
    if "connected d" "c_rx d = c_rx c" "c_klog_joinable d = c_klog_joinable c"
      "c_next_request_id d = c_next_request_id c + 1" for d
    unfolding klog_response_def wp_bind
    by (rule wp_read_exact_benign [where bs = "response_header_bytes ?h" and more_bytes = "body @ more_bytes"])
      (use that assms(2) valid in \<open>auto simp: send_response_def connected_def intro!: assms(3)\<close>)
  have "wp (Client_Transport.write_all (packet_header_bytes ?req @ put_u32 0))
      (\<lambda>sent. wp (if \<not> sent then State_Monad.return Klog_Failed else klog_response env (c_next_request_id c)) Q)
      (c\<lparr>c_klog_fd := False, c_next_request_id := c_next_request_id c + 1\<rparr>)"
    by (rule wp_write_all_benign) (use assms(1) in \<open>auto simp: connected_def intro!: recv\<close>)
  then show ?thesis
    unfolding client_klog_connect_def using assms(1) by (simp add: wp_simps connected_def cong: if_cong)
qed

text \<open>
  Connecting to the kernel log is not in step. When the daemon answers with an error status
  and a body, \<^verbatim>\<open>klog_connect\<close> fails without reading the body and without closing the
  connection: the next request takes the bytes of the body for its header.
\<close>

theorem klog_error_leaves_body:
  assumes "connected c" and "st \<noteq> MEMDBG_OK"
    and "stream (c_rx c) = send_response (request_header MEMDBG_CMD_KLOG_CONNECT (c_next_request_id c) 4) st body @ more_bytes"
  shows "\<exists>c'. run_state (client_klog_connect env) c = (Klog_Failed, c') \<and> c_fd c' \<and> stream (c_rx c') = body @ more_bytes"
proof -
  have "wp (client_klog_connect env) (\<lambda>r c'. r = Klog_Failed \<and> c_fd c' \<and> stream (c_rx c') = body @ more_bytes) c"
    by (rule wp_klog_header [OF assms(1,3)])
      (use assms(2) in \<open>simp add: klog_body_def reply_header_def wp_simps set_error_def connected_def\<close>)
  then show ?thesis
    by (auto simp: wp_def split: prod.splits)
qed

definition klog_env0 :: klog_env where
  "klog_env0 = \<lparr>ke_socket_error = None, ke_address_ok = True, ke_connect_error = None\<rparr>"

theorem klog_error_leaves_body_witness:
  "\<exists>c'. run_state (client_klog_connect klog_env0) (sample_client (deliver
      (send_response (request_header MEMDBG_CMD_KLOG_CONNECT 1 4) MEMDBG_ERR_IO [42])) []) = (Klog_Failed, c') \<and>
    c_fd c' \<and> stream (c_rx c') = [42] @ []"
  by (rule klog_error_leaves_body [where st = MEMDBG_ERR_IO]) simp_all

text \<open>
  A second connection to the kernel log ends the process. Once a reader thread was started,
  it stays joinable when its stream ends; the next successful \<^verbatim>\<open>klog_connect\<close> assigns a new
  thread to it, which terminates the program, although \<^verbatim>\<open>klog_connected\<close> already reported
  the loss of the first connection.
\<close>

theorem klog_reconnect_terminates:
  assumes "connected c" and "run_state (client_klog_connect env0) c0 = (Klog_Connected port0, c1)"
    and "c = klog_reader_loop (Recv_Closed False # es) c1"
    and "ke_socket_error env = None" and "ke_address_ok env" and "ke_connect_error env = None"
    and "stream (c_rx c) = send_response (request_header MEMDBG_CMD_KLOG_CONNECT (c_next_request_id c) 4) MEMDBG_OK (put_u32 port) @ more_bytes"
  shows "\<not> client_klog_connected c \<and> fst (run_state (client_klog_connect env) c) = Klog_Terminated"
proof -
  have "wp (client_klog_connect env0) (\<lambda>r c'. \<forall>p. r = Klog_Connected p \<longrightarrow> c_klog_joinable c') c0"
    by (auto simp: client_klog_connect_def klog_response_def klog_body_def klog_open_def wp_simps wp_write_all wp_read_exact
        set_error_def clear_error_def split: option.split prod.split sum.split)
  then have joinable: "c_klog_joinable c"
    using assms(2,3) by (simp add: wp_def)
  have "wp (client_klog_connect env) (\<lambda>r c'. r = Klog_Terminated) c"
  proof (rule wp_klog_header [OF assms(1,7)])
    fix d assume d: "connected d" "stream (c_rx d) = put_u32 port @ more_bytes" "c_klog_joinable d = c_klog_joinable c"
    have "wp (read_exact 4) (\<lambda>p. wp (case p of None \<Rightarrow> State_Monad.return Klog_Failed
        | Some port \<Rightarrow> klog_open env (ucast (get_u32 port 0))) (\<lambda>r c'. r = Klog_Terminated)) d"
      by (rule wp_read_exact_benign [OF d(1,2)])
        (use assms(4-6) joinable d(3) in \<open>simp_all add: klog_open_def wp_simps clear_error_def\<close>)
    then show "wp (klog_body env (reply_header (request_header MEMDBG_CMD_KLOG_CONNECT (c_next_request_id c) 4) MEMDBG_OK (length (put_u32 port))))
        (\<lambda>r c'. r = Klog_Terminated) d"
      by (simp add: klog_body_def reply_header_def wp_bind)
  qed
  then show ?thesis
    using assms(3) by (simp add: wp_iff_run client_klog_connected_def)
qed

lemma klog_connect_ok:
  assumes "connected c" and "\<not> c_klog_joinable c"
    and "ke_socket_error env = None" and "ke_address_ok env" and "ke_connect_error env = None"
    and "stream (c_rx c) = send_response (request_header MEMDBG_CMD_KLOG_CONNECT (c_next_request_id c) 4) MEMDBG_OK (put_u32 port) @ more_bytes"
  obtains c' where "run_state (client_klog_connect env) c = (Klog_Connected (ucast port), c')"
    and "connected c'" and "stream (c_rx c') = more_bytes" and "c_next_request_id c' = c_next_request_id c + 1"
proof -
  have port: "get_u32 (put_u32 port) 0 = port"
    using get_put_u32 [of "[]" 0 port "[]"] by simp
  let ?Q = "\<lambda>r c'. r = Klog_Connected (ucast port) \<and> connected c' \<and> stream (c_rx c') = more_bytes \<and>
    c_next_request_id c' = c_next_request_id c + 1"
  have "wp (client_klog_connect env) ?Q c"
  proof (rule wp_klog_header [OF assms(1,6)])
    fix d assume d: "connected d" "stream (c_rx d) = put_u32 port @ more_bytes" "c_klog_joinable d = c_klog_joinable c"
      "c_next_request_id d = c_next_request_id c + 1"
    have "wp (read_exact 4) (\<lambda>p. wp (case p of None \<Rightarrow> State_Monad.return Klog_Failed
        | Some port \<Rightarrow> klog_open env (ucast (get_u32 port 0))) ?Q) d"
      by (rule wp_read_exact_benign [OF d(1,2)])
        (use assms(2-5) d port in \<open>simp_all add: klog_open_def wp_simps clear_error_def connected_def\<close>)
    then show "wp (klog_body env (reply_header (request_header MEMDBG_CMD_KLOG_CONNECT (c_next_request_id c) 4) MEMDBG_OK (length (put_u32 port))))
        ?Q d"
      by (simp add: klog_body_def reply_header_def wp_bind)
  qed
  then show thesis
    using that by (auto simp: wp_def split: prod.splits)
qed

theorem klog_reconnect_terminates_witness:
  "\<exists>c. \<not> client_klog_connected c \<and> fst (run_state (client_klog_connect klog_env0) c) = Klog_Terminated"
proof -
  let ?r1 = "send_response (request_header MEMDBG_CMD_KLOG_CONNECT 1 4) MEMDBG_OK (put_u32 9030)"
  let ?r2 = "send_response (request_header MEMDBG_CMD_KLOG_CONNECT 2 4) MEMDBG_OK (put_u32 9030)"
  have joinable: "\<not> c_klog_joinable (sample_client (deliver (?r1 @ ?r2)) [])"
    by (simp add: sample_client_def)
  obtain c1 where c1: "run_state (client_klog_connect klog_env0) (sample_client (deliver (?r1 @ ?r2)) []) = (Klog_Connected (ucast (9030 :: u32)), c1)"
    "connected c1" "stream (c_rx c1) = ?r2" "c_next_request_id c1 = 2"
    by (rule klog_connect_ok [OF connected_sample joinable, where env = klog_env0 and port = 9030 and more_bytes = ?r2])
      (simp_all add: klog_env0_def)
  then have "connected (klog_reader_loop (Recv_Closed False # []) c1)"
    by (simp add: connected_def)
  then show ?thesis
    using c1 klog_reconnect_terminates [OF _ c1(1) refl, of "[]" klog_env0 9030 "[]"]
    by (intro exI [of _ "klog_reader_loop (Recv_Closed False # []) c1"]) (simp add: klog_env0_def)
qed

section \<open>Sizes\<close>

text \<open>
  Images above one mebibyte cannot be loaded. \<^verbatim>\<open>process_elf_load\<close> accepts images of up to
  64 MiB, but the request that carries one of more than 1 MiB less 64 bytes is larger than any
  request may be: nothing is sent and the operation fails.
\<close>

theorem large_elf_refused:
  assumes "1024 * 1024 - 64 < length elf" and "length elf \<le> 64 * 2 ^ 20"
  shows "run_state (client_process_elf_load pid elf flags region match_flags) c =
    (None, c\<lparr>c_last_error := ''invalid request payload''\<rparr>)"
proof -
  have "length (image_request pid flags elf match_flags region) = 64 + length elf"
    by (simp add: image_request_def)
  then have "MEMDBG_PROTOCOL_MAX_PACKET < length (image_request pid flags elf match_flags region)"
    using assms(1) by (simp add: MEMDBG_PROTOCOL_MAX_PACKET_def)
  moreover have "elf \<noteq> []" using assms(1) by auto
  ultimately show ?thesis
    using assms(2) by (simp add: client_process_elf_load_def request_object_def request_body_def request_def set_error_def)
qed

theorem large_elf_refused_witness:
  "run_state (client_process_elf_load 7 (replicate (1024 * 1024) 0) 0 [] 0) (sample_client [] []) =
    (None, (sample_client [] [])\<lparr>c_last_error := ''invalid request payload''\<rparr>)"
  by (rule large_elf_refused) simp_all

text \<open>
  The tracer's poll trusts the announced number of events. When the daemon announces more
  events than its response holds, \<^verbatim>\<open>tracer_poll\<close> reads outside the response; every other
  list of the client is checked against the size of the response first.
\<close>

theorem tracer_poll_reads_outside:
  assumes "connected c"
    and "stream (c_rx c) = send_response (request_header 0x0702 (next_id (c_next_request_id c)) 0) MEMDBG_OK body @ more_bytes"
    and "8 \<le> length body" and "length body < 8 + unat (get_u32 body 0) * 88" and "length body \<le> 1024 * 1024"
  shows "fst (run_state client_tracer_poll c) = Tracer_Out_Of_Bounds"
proof -
  have "\<exists>i < unat (get_u32 body 0). \<not> 8 + i * 88 + 88 \<le> length body"
  proof (cases "unat (get_u32 body 0)")
    case (Suc n)
    then show ?thesis using assms(4) by (intro exI [of _ n]) simp
  qed (use assms in simp)
  then have "tracer_events body = None"
    using assms(3) by (auto simp: tracer_events_def Let_def)
  then have "wp client_tracer_poll (\<lambda>r c'. r = Tracer_Out_Of_Bounds) c"
    unfolding client_tracer_poll_def wp_bind
    using assms max_response_other [of "0x0702"]
    by (intro wp_request_body [where body = body and more_bytes = more_bytes])
      (simp_all add: wp_simps MEMDBG_PROTOCOL_MAX_PACKET_def)
  then show ?thesis
    by (simp add: wp_iff_run)
qed

theorem tracer_poll_reads_outside_witness:
  "fst (run_state client_tracer_poll (sample_client (deliver
     (send_response (request_header 0x0702 1 0) MEMDBG_OK (put_u32 1 @ put_u32 0))) [])) = Tracer_Out_Of_Bounds"
  using get_put_u32 [of "[]" 0 1 "put_u32 0"]
  by (intro tracer_poll_reads_outside [where body = "put_u32 1 @ put_u32 0" and more_bytes = "[]"])
    (simp_all add: next_id_def)

end
