(* ===== verification/Client_Wire.thy ===== *)
theory Client_Wire
  imports Client_Debug
begin

text \<open>
  Round trips of the packed records: registers, and the lists of threads, breakpoints and
  watchpoints that the debugger operations unmarshal. A list response is a prefix and an array
  of records of one size; the locale states what the client's readers rely on.
\<close>

section \<open>Fields at offsets\<close>

lemma substr_skip: "length x \<le> off \<Longrightarrow> substr (x @ post) off (off + n) = substr post (off - length x) (off - length x + n)"
  by (simp add: substr_def)

lemma get_skip:
  "length x \<le> off \<Longrightarrow> get_u64 (x @ post) off = get_u64 post (off - length x)"
  "length x \<le> off \<Longrightarrow> get_u32 (x @ post) off = get_u32 post (off - length x)"
  "length x \<le> off \<Longrightarrow> get_u16 (x @ post) off = get_u16 post (off - length x)"
  "length x \<le> off \<Longrightarrow> get_i32 (x @ post) off = get_i32 post (off - length x)"
  unfolding get_u64_def get_u32_def get_u16_def get_i32_def by (simp_all only: substr_skip)

lemma get_first:
  "get_u64 (put_u64 w64 @ post) 0 = w64" "get_u32 (put_u32 w32 @ post) 0 = w32" "get_u16 (put_u16 w16 @ post) 0 = w16"
  "get_u64 (put_u64 w64) 0 = w64" "get_u32 (put_u32 w32) 0 = w32"
  using get_put_u64 [of "[]" 0 w64 post] get_put_u32 [of "[]" 0 w32 post] get_put_u16 [of "[]" 0 w16 post]
    get_put_u64 [of "[]" 0 w64 "[]"] get_put_u32 [of "[]" 0 w32 "[]"]
  by simp_all

definition in_i32 :: "int \<Rightarrow> bool" where
  "in_i32 x \<longleftrightarrow> - (2 ^ 31) \<le> x \<and> x < 2 ^ 31"

lemma get_first_i32: "in_i32 x \<Longrightarrow> get_i32 (put_i32 x @ post) 0 = x"
  using get_put_i32 [of "[]" 0 x post] by (simp add: in_i32_def)

lemmas wire_fields = get_first get_first_i32 get_skip

section \<open>Registers\<close>

interpretation regc: field_codec regs_bytes "\<lambda>bs. Some (regs_of bs)" "\<lambda>_. True" 176
  by unfold_locales (simp_all add: regs_of_def regs_bytes_def wire_fields)

text \<open>
  Registers survive the wire. The 176 bytes the client sends to set the registers of a
  thread hold every register, and reading them back by the client's reader, even with more
  bytes behind them, gives the same registers.
\<close>

theorem regs_roundtrip:
  "length (regs_bytes r) = 176 \<and> regs_of (regs_bytes r @ more_bytes) = r"
  by (simp add: regs_of_def regs_bytes_def wire_fields)

section \<open>Arrays of records\<close>

locale record_array =
  fixes enc :: "'a \<Rightarrow> byte list"
    and entry_at :: "byte list \<Rightarrow> nat \<Rightarrow> 'a"
    and entry_size :: nat
    and ok :: "'a \<Rightarrow> bool"
  assumes length_enc: "ok x \<Longrightarrow> length (enc x) = entry_size"
    and entry_at_enc: "ok x \<Longrightarrow> entry_at (enc x @ post) 0 = x"
    and entry_at_skip: "length pre \<le> off \<Longrightarrow> entry_at (pre @ post) off = entry_at post (off - length pre)"
begin

lemma length_entries: "list_all ok xs \<Longrightarrow> length (concat (map enc xs)) = length xs * entry_size"
  by (induction xs) (simp_all add: length_enc)

lemma entries: "list_all ok xs \<Longrightarrow>
  map (\<lambda>i. entry_at (concat (map enc xs) @ post) (i * entry_size)) [0..<length xs] = xs"
proof (induction xs)
  case (Cons x xs)
  have "map (\<lambda>i. entry_at (concat (map enc (x # xs)) @ post) (i * entry_size)) [0..<length (x # xs)] =
      entry_at (enc x @ concat (map enc xs) @ post) 0 #
      map (\<lambda>i. entry_at (enc x @ concat (map enc xs) @ post) (Suc i * entry_size)) [0..<length xs]"
    by (simp add: upt_conv_Cons map_Suc_upt [symmetric] del: upt_Suc)
  also have "\<dots> = x # map (\<lambda>i. entry_at (concat (map enc xs) @ post) (i * entry_size)) [0..<length xs]"
    using Cons.prems by (simp add: entry_at_enc entry_at_skip length_enc)
  finally show ?case
    using Cons by simp
qed simp

lemma entries_behind: "list_all ok xs \<Longrightarrow> length pre = off \<Longrightarrow>
  map (\<lambda>i. entry_at (pre @ concat (map enc xs) @ post) (off + i * entry_size)) [0..<length xs] = xs"
  using entries [of xs post] by (simp add: entry_at_skip)

end

section \<open>Threads\<close>

text \<open>A name in a field of 24 bytes, and the three layouts.\<close>

definition name24 :: "string \<Rightarrow> byte list" where
  "name24 name = map byte_of_char name @ replicate (24 - length name) 0"

definition name24_ok :: "string \<Rightarrow> bool" where
  "name24_ok name \<longleftrightarrow> length name \<le> 24 \<and> list_all (\<lambda>c. byte_of_char c \<noteq> 0) name"

definition stop_info_bytes :: "stop_info \<Rightarrow> byte list" where
  "stop_info_bytes si = put_i32 (si_pl_event si) @ put_i32 (si_stop_signal si) @ put_i32 (si_pl_flags si) @ put_u32 0 @
     put_u64 (si_pl_sigmask_lo si) @ put_u64 (si_pl_sigmask_hi si) @ put_u64 (si_pl_siglist_lo si) @
     put_u64 (si_pl_siglist_hi si)"

definition thread_bytes :: "nat \<Rightarrow> thread_entry \<Rightarrow> byte list" where
  "thread_bytes entry_size t =
     (if entry_size = 100
      then put_i32 (t_lwp t) @ put_u32 (t_state t) @ stop_info_bytes (t_stop_info t) @ put_i32 (t_priority t) @
        put_u64 (t_runtime_us t) @ put_i32 (t_pctcpu t) @ put_i32 (t_cpu_id t) @ name24 (t_name t)
      else if entry_size = kLegacyThreadEntryV2Size
      then put_i32 (t_lwp t) @ put_u32 (t_state t) @ name24 (t_name t)
      else put_i32 (t_lwp t) @ name24 (t_name t))"

text \<open>What the layouts can carry; the old ones have no more than the number, the state and the name.\<close>

definition thread_ok :: "nat \<Rightarrow> thread_entry \<Rightarrow> bool" where
  "thread_ok entry_size t \<longleftrightarrow> in_i32 (t_lwp t) \<and> name24_ok (t_name t) \<and>
     (if entry_size = 100
      then in_i32 (si_pl_event (t_stop_info t)) \<and> in_i32 (si_stop_signal (t_stop_info t)) \<and>
        in_i32 (si_pl_flags (t_stop_info t)) \<and> in_i32 (t_priority t) \<and> in_i32 (t_pctcpu t) \<and> in_i32 (t_cpu_id t)
      else t_stop_info t = no_stop_info \<and> t_priority t = 0 \<and> t_runtime_us t = 0 \<and> t_pctcpu t = 0 \<and> t_cpu_id t = - 1 \<and>
        (entry_size = kLegacyThreadEntryV2Size \<or> t_state t = 0))"

lemma length_name24 [simp]: "name24_ok name \<Longrightarrow> length (name24 name) = 24"
  by (simp add: name24_def name24_ok_def)

lemma fixed_string_name24: "name24_ok name \<Longrightarrow> fixed_string (name24 name) = name"
proof -
  assume ok: "name24_ok name"
  have "takeWhile (\<lambda>b. b \<noteq> 0) (map byte_of_char name @ replicate n 0) = map byte_of_char name" for n
    using ok by (subst takeWhile_append2) (auto simp: name24_ok_def list_all_iff)
  then show ?thesis
    by (simp add: fixed_string_def name24_def comp_def)
qed

lemma substr_name24:
  "name24_ok name \<Longrightarrow> length pre = off \<Longrightarrow> end_off = off + 24 \<Longrightarrow> fixed_string (substr (pre @ name24 name @ post) off end_off) = name"
  by (simp add: substr_field fixed_string_name24)

lemma substr_skip_to: "length x \<le> off \<Longrightarrow> off \<le> hi \<Longrightarrow> substr (x @ post) off hi = substr post (off - length x) (hi - length x)"
  by (simp add: substr_def)

lemma name_first: "name24_ok name \<Longrightarrow> fixed_string (substr (name24 name @ post) 0 24) = name"
  using substr_name24 [of name "[]" 0 24 post] by simp

lemma length_stop_info [simp]: "length (stop_info_bytes si) = 48"
  by (simp add: stop_info_bytes_def)

definition thread_layouts :: "nat set" where
  "thread_layouts = {100, kLegacyThreadEntryV2Size, kLegacyThreadEntryV1Size}"

lemma thread_array: "es \<in> thread_layouts \<Longrightarrow> record_array (thread_bytes es) (thread_at es) es (thread_ok es)"
proof
  fix t assume "es \<in> thread_layouts" "thread_ok es t"
  then show "length (thread_bytes es t) = es"
    by (auto simp: thread_layouts_def thread_bytes_def thread_ok_def kLegacyThreadEntryV1Size_def kLegacyThreadEntryV2Size_def)
next
  fix t post assume es: "es \<in> thread_layouts" and ok: "thread_ok es t"
  show "thread_at es (thread_bytes es t @ post) 0 = t"
  proof (cases "es = 100")
    case True
    then show ?thesis
      using ok by (simp add: thread_at_def full_thread_at_def thread_bytes_def stop_info_bytes_def thread_ok_def
          wire_fields substr_skip_to name_first)
  next
    case False
    then show ?thesis
      using ok es by (auto simp: thread_at_def thread_bytes_def thread_ok_def thread_layouts_def wire_fields
          substr_skip_to name_first kLegacyThreadEntryV1Size_def kLegacyThreadEntryV2Size_def)
  qed
next
  fix pre post :: "byte list" and off :: nat
  assume "length pre \<le> off"
  then show "thread_at es (pre @ post) off = thread_at es post (off - length pre)"
    by (simp add: thread_at_def full_thread_at_def get_skip substr_skip_to)
qed

interpretation thread100: record_array "thread_bytes 100" "thread_at 100" 100 "thread_ok 100"
  by (rule thread_array) (simp add: thread_layouts_def)

interpretation thread32: record_array "thread_bytes 32" "thread_at 32" 32 "thread_ok 32"
  by (rule thread_array) (simp add: thread_layouts_def kLegacyThreadEntryV2Size_def)

interpretation thread28: record_array "thread_bytes 28" "thread_at 28" 28 "thread_ok 28"
  by (rule thread_array) (simp add: thread_layouts_def kLegacyThreadEntryV1Size_def)

lemma thread_entries:
  assumes "es \<in> thread_layouts" and "list_all (thread_ok es) ts" and "length pre = off"
  shows "length (concat (map (thread_bytes es) ts)) = length ts * es"
    and "map (\<lambda>i. thread_at es (pre @ concat (map (thread_bytes es) ts)) (off + i * es)) [0..<length ts] = ts"
  using assms thread100.length_entries thread32.length_entries thread28.length_entries
    thread100.entries_behind [of ts pre off "[]"] thread32.entries_behind [of ts pre off "[]"]
    thread28.entries_behind [of ts pre off "[]"]
  by (auto simp: thread_layouts_def kLegacyThreadEntryV1Size_def kLegacyThreadEntryV2Size_def)

text \<open>The layout is recognised by the reserved word, or, when that names none, by the size of the list.\<close>

lemma recognised_layout:
  assumes "es \<in> thread_layouts" and "reserved = es \<or> reserved \<notin> thread_layouts" and "0 < n"
  shows "thread_entry_size reserved n (n * es) = es"
  using assms by (auto simp: thread_entry_size_def thread_layouts_def kLegacyThreadEntryV1Size_def
      kLegacyThreadEntryV2Size_def)

definition thread_list_payload :: "nat \<Rightarrow> u32 \<Rightarrow> thread_entry list \<Rightarrow> byte list" where
  "thread_list_payload es reserved ts =
     put_u32 (word_of_nat (length ts)) @ put_u32 reserved @ concat (map (thread_bytes es) ts)"

text \<open>
  Thread lists of every layout are understood. A list of threads in the current layout or
  in one of the two old ones is read back exactly, both when the prefix names the size of the
  entries and when it names none of the known sizes, as old daemons do; an empty list is an
  empty list.
\<close>

theorem thread_list_roundtrip:
  assumes "es \<in> thread_layouts" and "list_all (thread_ok es) ts" and "length ts < 2 ^ 32"
    and "unat reserved = es \<or> unat reserved \<notin> thread_layouts"
  shows "parse_threads (thread_list_payload es reserved ts) = Inr ts"
proof (cases "ts = []")
  case True
  then show ?thesis
    by (simp add: parse_threads_def thread_list_payload_def get_first)
next
  case False
  let ?pre = "put_u32 (word_of_nat (length ts)) @ put_u32 reserved"
  let ?bs = "thread_list_payload es reserved ts"
  have bs: "?bs = ?pre @ concat (map (thread_bytes es) ts)"
    by (simp add: thread_list_payload_def)
  note es = thread_entries [OF assms(1,2), of ?pre 8]
  have es0: "es > 0"
    using assms(1) by (auto simp: thread_layouts_def kLegacyThreadEntryV1Size_def kLegacyThreadEntryV2Size_def)
  have count: "unat (get_u32 ?bs 0) = length ts" "get_u32 ?bs 4 = reserved"
    using assms(3) by (simp_all add: thread_list_payload_def wire_fields unat_of_nat)
  have len: "length ?bs - 8 = length ts * es" "8 \<le> length ?bs"
    using es(1) by (simp_all add: bs)
  have size: "thread_entry_size (unat reserved) (length ts) (length ts * es) = es"
    using False by (intro recognised_layout [OF assms(1,4)]) simp
  have "es \<le> length ts * es" using False by (cases ts) simp_all
  then show ?thesis
    using es(2) es0 False len(2) unfolding parse_threads_def Let_def count len(1) size
    by (simp add: bs)
qed

theorem thread_list_roundtrip_witness:
  "parse_threads (thread_list_payload 32 0
     [\<lparr>t_lwp = 7, t_state = 1, t_stop_info = no_stop_info, t_priority = 0, t_runtime_us = 0, t_pctcpu = 0, t_cpu_id = - 1, t_name = ''main''\<rparr>]) =
   Inr [\<lparr>t_lwp = 7, t_state = 1, t_stop_info = no_stop_info, t_priority = 0, t_runtime_us = 0, t_pctcpu = 0, t_cpu_id = - 1, t_name = ''main''\<rparr>]"
  by (rule thread_list_roundtrip) (simp_all add: thread_layouts_def kLegacyThreadEntryV1Size_def kLegacyThreadEntryV2Size_def
      thread_ok_def in_i32_def name24_ok_def byte_of_char_def)

text \<open>
  Thread lists are read within the response. For every response, the client accepts a list
  only when all the entries it reads, in one of the three layouts, lie within the response, and
  it reads no more entries than announced; a response that announces threads yields at least
  one or is refused.
\<close>

theorem thread_list_in_bounds:
  "case parse_threads response of
     Inl e \<Rightarrow> True
   | Inr ts \<Rightarrow> (\<exists>es \<in> thread_layouts. 8 + length ts * es \<le> length response) \<and>
       length ts \<le> unat (get_u32 response 0) \<and> (ts = [] \<longleftrightarrow> get_u32 response 0 = 0)"
proof (cases "length response < 8 \<or> get_u32 response 0 = 0")
  case True
  then show ?thesis
    by (auto simp: parse_threads_def thread_layouts_def intro!: bexI [of _ 100])
next
  case False
  let ?total = "unat (get_u32 response 0)" and ?body = "length response - 8"
  define es where "es = thread_entry_size (unat (get_u32 response 4)) ?total ?body"
  have es: "es \<in> thread_layouts"
    by (auto simp: es_def thread_entry_size_def thread_layouts_def)
  then have es0: "es > 0"
    by (auto simp: thread_layouts_def kLegacyThreadEntryV1Size_def kLegacyThreadEntryV2Size_def)
  have total: "?total > 0"
    using False by (simp add: unat_gt_0)
  have bound: "8 + min (?body div es) ?total * es \<le> length response" if "es \<le> ?body"
  proof -
    have "min (?body div es) ?total * es \<le> ?body div es * es" by simp
    also have "\<dots> \<le> ?body" by simp
    finally show ?thesis using False by linarith
  qed
  show ?thesis
  proof (cases "?body < es")
    case True
    then show ?thesis
      using False total unfolding parse_threads_def Let_def es_def [symmetric] by simp
  next
    case fits: False
    then have "0 < ?body div es" using es0 by (simp add: div_greater_zero_iff)
    then show ?thesis
      using False total es es0 fits bound unfolding parse_threads_def Let_def es_def [symmetric]
      by auto
  qed
qed

end
