(* ===== verification/Batchcode.thy ===== *)
theory Batchcode
  imports Hex_Codec
begin

text \<open>
  The batchcode parser of the trainer import
  (\<^verbatim>\<open>src/frontend/src/trainer/batchcode_parser.cpp\<close>): a lexer with one token of
  pushback, and a loop over the records. The position of the lexer is the length of the input
  less the length of what is left, so the state keeps only the rest.
\<close>

section \<open>Tokens\<close>

datatype token_type =
  TEnd | TOffset | TValue | TSize | TColon | TEquals | TComma | TSemicolon | TNumber | THexBytes | TUnknown

record token =
  tk_type :: token_type
  tk_pos :: nat
  tk_number :: u64
  tk_hex_digits :: nat
  tk_bytes :: "byte list"
  tk_wildcards :: "bool list"
  tk_text :: string

record lexer =
  lx_total :: nat
  lx_rest :: string
  lx_pending :: "token option"

definition simple_token :: "token_type \<Rightarrow> nat \<Rightarrow> token" where
  "simple_token ty pos = \<lparr>tk_type = ty, tk_pos = pos, tk_number = 0, tk_hex_digits = 0, tk_bytes = [],
     tk_wildcards = [], tk_text = []\<rparr>"

section \<open>The lexer\<close>

definition skip_line :: "string \<Rightarrow> string" where
  "skip_line s = dropWhile (\<lambda>c. c \<noteq> CHR 0x0A) s"

lemma length_skip_line: "length (skip_line s) \<le> length s"
  by (simp add: skip_line_def length_dropWhile_le)

function skip_ignored :: "string \<Rightarrow> string" where
  "skip_ignored [] = []"
| "skip_ignored (c # cs) =
     (if isspace c then skip_ignored cs
      else if c = CHR ''/'' \<and> take 1 cs = ''/'' then skip_ignored (skip_line (drop 1 cs))
      else if c = CHR ''#'' then skip_ignored (skip_line cs)
      else c # cs)"
  by pat_completeness auto
termination
proof (relation "measure length", goal_cases)
  case (3 c cs)
  then show ?case
    using length_skip_line [of "drop 1 cs"] by simp
next
  case (4 c cs)
  then show ?case
    using length_skip_line [of cs] by simp
qed auto

definition read_identifier :: "string \<Rightarrow> string \<times> string" where
  "read_identifier s = (takeWhile (\<lambda>c. isalnum c \<or> c = CHR ''_'') s, dropWhile (\<lambda>c. isalnum c \<or> c = CHR ''_'') s)"

text \<open>The value of the digits in the given base; \<^verbatim>\<open>strtoull\<close> yields the largest value on overflow.\<close>

fun digits_value :: "nat \<Rightarrow> string \<Rightarrow> nat \<Rightarrow> nat" where
  "digits_value base [] v = v"
| "digits_value base (c # cs) v =
     digits_value base cs (v * base + (case hex_value c of None \<Rightarrow> 0 | Some d \<Rightarrow> d))"

definition strtoull :: "nat \<Rightarrow> string \<Rightarrow> u64" where
  "strtoull base ds = word_of_nat (min (2 ^ 64 - 1) (digits_value base ds 0))"

definition has_hex_prefix :: "string \<Rightarrow> bool" where
  "has_hex_prefix s \<longleftrightarrow> take 1 s = ''0'' \<and> (take 1 (drop 1 s) = ''x'' \<or> take 1 (drop 1 s) = ''X'')"

definition read_number :: "nat \<Rightarrow> string \<Rightarrow> token \<times> string" where
  "read_number start s =
     (let base = (if has_hex_prefix s then 16 else 10);
          body = (if has_hex_prefix s then drop 2 s else s);
          is_digit = (if base = 16 then isxdigit else isdigit);
          digits = takeWhile is_digit body
      in if digits = [] then ((simple_token TUnknown start)\<lparr>tk_text := take 2 s\<rparr>, body)
         else ((simple_token TNumber start)\<lparr>tk_number := strtoull base digits,
                 tk_hex_digits := (if base = 16 then length digits else 0)\<rparr>, dropWhile is_digit body))"

definition is_inline_space :: "char \<Rightarrow> bool" where
  "is_inline_space c \<longleftrightarrow> c = CHR '' '' \<or> c = CHR 0x09 \<or> c = CHR 0x0D"

definition skip_inline_whitespace :: "string \<Rightarrow> string" where
  "skip_inline_whitespace s = dropWhile is_inline_space s"

lemma length_skip_inline: "length (skip_inline_whitespace s) \<le> length s"
  by (simp add: skip_inline_whitespace_def length_dropWhile_le)

text \<open>
  The loop of \<^verbatim>\<open>read_hex_bytes\<close>: bytes with their wildcard marks, and the rest. The blanks
  before the end of the loop are consumed.
\<close>

definition hex_pair_byte :: "char \<Rightarrow> char \<Rightarrow> byte" where
  "hex_pair_byte c d = word_of_nat (digits_value 16 [c, d] 0)"

function read_hex_loop :: "string \<Rightarrow> (byte \<times> bool) list \<times> string" where
  "read_hex_loop s =
     (case skip_inline_whitespace s of
        c # d # s' \<Rightarrow>
          if c = CHR ''?'' \<and> d = CHR ''?''
          then (case read_hex_loop s' of (bs, r) \<Rightarrow> ((0, True) # bs, r))
          else if isxdigit c \<and> isxdigit d
          then (case read_hex_loop s' of (bs, r) \<Rightarrow> ((hex_pair_byte c d, False) # bs, r))
          else ([], c # d # s')
      | s' \<Rightarrow> ([], s'))"
  by pat_completeness auto
termination
proof (relation "measure length", goal_cases)
  case (2 s c s' d s'')
  then show ?case
    using length_skip_inline [of s] by simp
next
  case (3 s c s' d s'')
  then show ?case
    using length_skip_inline [of s] by simp
qed simp

declare read_hex_loop.simps [simp del]

definition read_hex_bytes :: "nat \<Rightarrow> string \<Rightarrow> token \<times> string" where
  "read_hex_bytes start s =
     (case read_hex_loop s of (bs, r) \<Rightarrow>
        ((simple_token THexBytes start)\<lparr>tk_bytes := map fst bs, tk_wildcards := map snd bs\<rparr>, r))"

definition keyword_token :: "nat \<Rightarrow> string \<Rightarrow> token" where
  "keyword_token start name =
     (let lower = map tolower name
      in if lower = ''offset'' then simple_token TOffset start
         else if lower = ''value'' then simple_token TValue start
         else if lower = ''size'' then simple_token TSize start
         else (simple_token TUnknown start)\<lparr>tk_text := name\<rparr>)"

text \<open>The word or character that is neither punctuation nor a number.\<close>

definition read_word :: "nat \<Rightarrow> char \<Rightarrow> string \<Rightarrow> token \<times> string" where
  "read_word start c cs =
     (if isalpha c \<or> c = CHR ''_''
      then case read_identifier (c # cs) of (name, r) \<Rightarrow> (keyword_token start name, r)
      else ((simple_token TUnknown start)\<lparr>tk_text := [c]\<rparr>, cs))"

definition scan_token :: "nat \<Rightarrow> char \<Rightarrow> string \<Rightarrow> token \<times> string" where
  "scan_token start c cs =
     (if c = CHR '':'' then (simple_token TColon start, cs)
      else if c = CHR ''='' then (simple_token TEquals start, cs)
      else if c = CHR '','' then (simple_token TComma start, cs)
      else if c = CHR '';'' then (simple_token TSemicolon start, cs)
      else if has_hex_prefix (c # cs) then read_number start (c # cs)
      else if isxdigit c \<or> c = CHR ''?''
      then (case read_hex_bytes start (c # cs) of (tok, r) \<Rightarrow>
              if tk_bytes tok \<noteq> [] then (tok, r)
              else if isdigit c then read_number start r
              else read_word start c cs)
      else read_word start c cs)"

definition next_token :: "lexer \<Rightarrow> token \<times> lexer" where
  "next_token lx =
     (case lx_pending lx of
        Some tok \<Rightarrow> (tok, lx\<lparr>lx_pending := None\<rparr>)
      | None \<Rightarrow>
        (case skip_ignored (lx_rest lx) of
           [] \<Rightarrow> (simple_token TEnd (lx_total lx), lx\<lparr>lx_rest := []\<rparr>)
         | c # cs \<Rightarrow>
           (case scan_token (lx_total lx - length (c # cs)) c cs of (tok, r) \<Rightarrow> (tok, lx\<lparr>lx_rest := r\<rparr>))))"

definition put_back :: "token \<Rightarrow> lexer \<Rightarrow> lexer" where
  "put_back tok lx = lx\<lparr>lx_pending := Some tok\<rparr>"

section \<open>Progress of the lexer\<close>

lemma length_skip_ignored: "length (skip_ignored s) \<le> length s"
proof (induction s rule: skip_ignored.induct)
  case (2 c cs)
  then show ?case
    using length_skip_line [of "drop 1 cs"] length_skip_line [of cs] by auto
qed simp

text \<open>The three ways through the loop.\<close>

lemma question_no_digit [simp]: "\<not> isxdigit (CHR ''?'')"
  by (simp add: cctype_defs)

lemma read_hex_wildcard:
  "skip_inline_whitespace s = CHR ''?'' # CHR ''?'' # s' \<Longrightarrow> read_hex_loop s' = (bs, r) \<Longrightarrow>
   read_hex_loop s = ((0, True) # bs, r)"
  by (subst read_hex_loop.simps) simp

lemma read_hex_pair:
  "skip_inline_whitespace s = c # d # s' \<Longrightarrow> isxdigit c \<Longrightarrow> isxdigit d \<Longrightarrow> read_hex_loop s' = (bs, r) \<Longrightarrow>
   read_hex_loop s = ((hex_pair_byte c d, False) # bs, r)"
  by (subst read_hex_loop.simps) auto

lemma read_hex_stop:
  "skip_inline_whitespace s = s' \<Longrightarrow>
   (\<And>c d s''. s' = c # d # s'' \<Longrightarrow> \<not> (c = CHR ''?'' \<and> d = CHR ''?'') \<and> \<not> (isxdigit c \<and> isxdigit d)) \<Longrightarrow>
   read_hex_loop s = ([], s')"
  by (subst read_hex_loop.simps) (auto split: list.split)

lemma read_hex_cases:
  obtains (wildcard) s' where "skip_inline_whitespace s = CHR ''?'' # CHR ''?'' # s'"
  | (pair) c d s' where "skip_inline_whitespace s = c # d # s'" "isxdigit c" "isxdigit d"
  | (stop) "read_hex_loop s = ([], skip_inline_whitespace s)"
proof (cases "skip_inline_whitespace s")
  case (Cons c s1)
  note s1 = this
  show thesis
  proof (cases s1)
    case (Cons d s2)
    with s1 have eq: "skip_inline_whitespace s = c # d # s2" by simp
    consider "c = CHR ''?'' \<and> d = CHR ''?''" | "isxdigit c \<and> isxdigit d"
      | "\<not> (c = CHR ''?'' \<and> d = CHR ''?'')" "\<not> (isxdigit c \<and> isxdigit d)" by blast
    then show thesis
      using that(1) that(2) [OF eq] that(3) eq read_hex_stop [OF eq] by cases auto
  qed (use s1 that(3) read_hex_stop [OF s1] in simp)
next
  case Nil
  then show thesis
    using that(3) read_hex_stop [OF Nil] by simp
qed

lemma read_hex_length: "read_hex_loop s = (bs, r) \<Longrightarrow> length r + 2 * length bs \<le> length s"
proof (induction "length s" arbitrary: s bs r rule: less_induct)
  case less
  show ?case
  proof (cases s rule: read_hex_cases)
    case (wildcard s')
    obtain bs' r' where s': "read_hex_loop s' = (bs', r')" by force
    then show ?thesis
      using less.hyps [of s'] less.prems read_hex_wildcard [OF wildcard s'] wildcard length_skip_inline [of s] by auto
  next
    case (pair c d s')
    obtain bs' r' where s': "read_hex_loop s' = (bs', r')" by force
    then show ?thesis
      using less.hyps [of s'] less.prems read_hex_pair [OF pair(1-3) s'] pair(1) length_skip_inline [of s] by auto
  next
    case stop
    then show ?thesis
      using less.prems length_skip_inline [of s] by simp
  qed
qed

lemma read_hex_unread: "read_hex_loop (c # cs) = ([], r) \<Longrightarrow> \<not> is_inline_space c \<Longrightarrow> r = c # cs"
  by (cases "c # cs" rule: read_hex_cases)
    (auto simp: skip_inline_whitespace_def read_hex_loop.simps [of "c # cs"] split: list.splits if_splits prod.splits)

lemma read_number_length: "read_number start (c # cs) = (tok, r) \<Longrightarrow> has_hex_prefix (c # cs) \<or> isdigit c \<Longrightarrow> length r < length (c # cs)"
  using length_dropWhile_le [of isxdigit "drop 2 (c # cs)"] length_dropWhile_le [of isdigit cs]
  by (auto simp: read_number_def Let_def has_hex_prefix_def split: if_splits)

lemma read_word_length: "read_word start c cs = (tok, r) \<Longrightarrow> length r < length (c # cs)"
  using length_dropWhile_le [of "\<lambda>c. isalnum c \<or> c = CHR ''_''" cs]
  by (auto simp: read_word_def read_identifier_def isalnum_def less_Suc_eq_le split: if_splits)

lemma scan_token_length:
  assumes "scan_token start c cs = (tok, r)" and "\<not> isspace c"
  shows "length r \<le> length cs"
proof -
  have blank: "\<not> is_inline_space c"
    using assms(2) by (auto simp: is_inline_space_def isspace_def)
  obtain bs r' where hex: "read_hex_loop (c # cs) = (bs, r')" by force
  then have "bs \<noteq> [] \<Longrightarrow> length r' \<le> length cs" and "bs = [] \<Longrightarrow> r' = c # cs"
    using read_hex_length [OF hex] read_hex_unread [of c cs r'] blank by (cases bs; simp)+
  then show ?thesis
    using assms(1) hex read_number_length [of start c cs tok r] read_word_length [of start c cs tok r]
    by (auto simp: scan_token_def read_hex_bytes_def simple_token_def split: if_splits)
qed

lemma skip_ignored_head: "skip_ignored s = c # cs \<Longrightarrow> \<not> isspace c"
  by (induction s rule: skip_ignored.induct) (auto split: if_splits)

text \<open>What the lexer has left to do: a token put back counts half of a character.\<close>

definition lexer_work :: "lexer \<Rightarrow> nat" where
  "lexer_work lx = 2 * length (lx_rest lx) + (case lx_pending lx of None \<Rightarrow> 0 | Some _ \<Rightarrow> 1)"

lemma next_token_cases:
  assumes "next_token lx = (tok, lx')"
  obtains (pending) "lx_pending lx = Some tok" "lx' = lx\<lparr>lx_pending := None\<rparr>"
  | (at_end) "lx_pending lx = None" "tok = simple_token TEnd (lx_total lx)" "lx' = lx\<lparr>lx_rest := []\<rparr>"
  | (scan) c cs r where "lx_pending lx = None" "skip_ignored (lx_rest lx) = c # cs"
      "scan_token (lx_total lx - length (c # cs)) c cs = (tok, r)" "lx' = lx\<lparr>lx_rest := r\<rparr>"
  using assms by (auto simp: next_token_def split: option.splits list.splits prod.splits)

lemma next_token_progress:
  assumes "next_token lx = (tok, lx')"
  shows "lx_pending lx' = None \<and> lexer_work lx' \<le> lexer_work lx \<and>
    (tk_type tok \<noteq> TEnd \<longrightarrow> lexer_work (put_back tok lx') \<le> lexer_work lx \<and> lexer_work lx' < lexer_work lx)"
  using assms
proof (cases rule: next_token_cases)
  case (scan c cs r)
  then have "length r < length (lx_rest lx)"
    using scan_token_length [OF scan(3) skip_ignored_head [OF scan(2)]] length_skip_ignored [of "lx_rest lx"] by simp
  with scan show ?thesis
    by (simp add: lexer_work_def put_back_def)
qed (auto simp: lexer_work_def put_back_def simple_token_def)

lemma next_token_work:
  assumes "next_token lx = (tok, lx')"
  shows "lx_pending lx' = None" and "lexer_work lx' \<le> lexer_work lx"
    and "tk_type tok \<noteq> TEnd \<Longrightarrow> lexer_work (put_back tok lx') \<le> lexer_work lx"
    and "tk_type tok \<noteq> TEnd \<Longrightarrow> lexer_work lx' < lexer_work lx"
  using next_token_progress [OF assms] by simp_all

section \<open>The parser\<close>

text \<open>\<^verbatim>\<open>BatchcodeEntry\<close>: a size of 0 means that the bytes give the size.\<close>

record batchcode_entry =
  be_offset :: u64
  be_bytes :: "byte list"
  be_wildcard_mask :: "bool list"
  be_size :: u64

text \<open>
  A step of the parser yields a value, a syntax error with its message, a shift by 64 bits or
  more, whose result C++ leaves undefined, or the exception of a vector that cannot grow.
\<close>

datatype 'a step = Got 'a | Bad string | Undefined_Shift | Length_Error

primrec bind_step :: "'a step \<Rightarrow> ('a \<Rightarrow> 'b step) \<Rightarrow> 'b step" where
  "bind_step (Got x) f = f x"
| "bind_step (Bad msg) f = Bad msg"
| "bind_step Undefined_Shift f = Undefined_Shift"
| "bind_step Length_Error f = Length_Error"

lemma bind_step_Got_iff [simp]: "bind_step m f = Got y \<longleftrightarrow> (\<exists>x. m = Got x \<and> f x = Got y)"
  by (cases m) auto

definition quoted :: "string \<Rightarrow> string" where
  "quoted s = CHR 0x27 # s @ [CHR 0x27]"

definition bad_at :: "string \<Rightarrow> token \<Rightarrow> 'a step" where
  "bad_at msg tok = Bad (msg @ '' at position '' @ dec_of_nat (tk_pos tok))"

definition hex_number_bytes :: "u64 \<Rightarrow> nat \<Rightarrow> byte list" where
  "hex_number_bytes v byte_count = map (\<lambda>i. ucast (drop_bit (i * 8) v)) (rev [0..<byte_count])"

definition decimal_bytes :: "u64 \<Rightarrow> byte list" where
  "decimal_bytes v =
     (case dropWhile (\<lambda>b. b = 0) (map (\<lambda>i. ucast (drop_bit i v)) [56, 48, 40, 32, 24, 16, 8, 0]) of
        [] \<Rightarrow> [0] | bs \<Rightarrow> bs)"

definition number_to_bytes :: "token \<Rightarrow> byte list step" where
  "number_to_bytes tok =
     (if tk_hex_digits tok > 0
      then let byte_count = (tk_hex_digits tok + 1) div 2
           in if byte_count > 8 then Undefined_Shift else Got (hex_number_bytes (tk_number tok) byte_count)
      else Got (decimal_bytes (tk_number tok)))"

definition is_separator :: "token \<Rightarrow> bool" where
  "is_separator tok \<longleftrightarrow> tk_type tok = TColon \<or> tk_type tok = TEquals"

definition is_terminator :: "token \<Rightarrow> bool" where
  "is_terminator tok \<longleftrightarrow> tk_type tok = TSemicolon \<or> tk_type tok = TComma"

text \<open>The number of a field after its separator.\<close>

definition number_token :: "string \<Rightarrow> lexer \<Rightarrow> (u64 \<times> lexer) step" where
  "number_token msg lx =
     (case next_token lx of (num, lx') \<Rightarrow>
        if tk_type num \<noteq> TNumber then bad_at msg num else Got (tk_number num, lx'))"

definition parse_offset :: "token \<Rightarrow> lexer \<Rightarrow> (u64 \<times> lexer) step" where
  "parse_offset t lx =
     (if tk_type t = TOffset
      then case next_token lx of (sep, lx1) \<Rightarrow>
        if is_separator sep then number_token ''expected offset number'' lx1
        else if tk_type sep = TNumber then Got (tk_number sep, lx1)
        else if tk_type sep = THexBytes then bad_at ''offset must be a number'' sep
        else bad_at (''expected '' @ quoted '':'' @ '' or '' @ quoted ''='' @ '' after '' @ quoted ''offset'') sep
      else Got (tk_number t, lx))"

text \<open>The optional separator between the offset and the value.\<close>

definition value_start :: "lexer \<Rightarrow> token \<times> lexer" where
  "value_start lx =
     (case next_token lx of (nx, lx1) \<Rightarrow>
        if is_separator nx \<or> is_terminator nx then next_token lx1 else (nx, lx1))"

definition value_of_token :: "token \<Rightarrow> (byte list \<times> bool list) step" where
  "value_of_token tok =
     (if tk_type tok = THexBytes then Got (tk_bytes tok, tk_wildcards tok)
      else bind_step (number_to_bytes tok) (\<lambda>bs. Got (bs, [])))"

definition is_value :: "token \<Rightarrow> bool" where
  "is_value tok \<longleftrightarrow> tk_type tok = THexBytes \<or> tk_type tok = TNumber"

definition parse_value :: "token \<Rightarrow> lexer \<Rightarrow> ((byte list \<times> bool list) \<times> lexer) step" where
  "parse_value nx lx =
     (if tk_type nx = TValue
      then case next_token lx of (sep, lx1) \<Rightarrow>
        if is_separator sep
        then case next_token lx1 of (val, lx2) \<Rightarrow>
          if \<not> is_value val then bad_at ''expected hex byte value'' val
          else bind_step (value_of_token val) (\<lambda>v. Got (v, lx2))
        else if is_value sep then bind_step (value_of_token sep) (\<lambda>v. Got (v, lx1))
        else bad_at (''expected value after '' @ quoted ''value'') sep
      else if is_value nx then bind_step (value_of_token nx) (\<lambda>v. Got (v, lx))
      else bad_at ''expected value'' nx)"

text \<open>The loop over the field separators before the optional size.\<close>

function peek_field :: "lexer \<Rightarrow> token \<times> lexer" where
  "peek_field lx =
     (let (tok, lx') = next_token lx in if is_terminator tok then peek_field lx' else (tok, lx'))"
  by pat_completeness auto
termination
proof (relation "measure lexer_work", goal_cases)
  case (2 lx x tok lx')
  then show ?case
    using next_token_work(4) [of lx tok lx'] by (auto simp: is_terminator_def)
qed simp

declare peek_field.simps [simp del]

definition parse_size :: "lexer \<Rightarrow> (u64 \<times> lexer) step" where
  "parse_size lx =
     (case peek_field lx of (peek, lx1) \<Rightarrow>
        if tk_type peek = TSize
        then case next_token lx1 of (sep, lx2) \<Rightarrow>
          if \<not> is_separator sep
          then bad_at (''expected '' @ quoted '':'' @ '' or '' @ quoted ''='' @ '' after '' @ quoted ''size'') sep
          else number_token ''expected size number'' lx2
        else if tk_type peek = TEnd then Got (0, lx1)
        else Got (0, put_back peek lx1))"

text \<open>\<^verbatim>\<open>std::vector::resize\<close> with the fill value; \<^verbatim>\<open>max_length\<close> is the longest vector the host grants.\<close>

definition resize :: "'a \<Rightarrow> nat \<Rightarrow> 'a list \<Rightarrow> 'a list" where
  "resize x n xs = take n xs @ replicate (n - length xs) x"

definition make_entry :: "nat \<Rightarrow> u64 \<Rightarrow> byte list \<Rightarrow> bool list \<Rightarrow> u64 \<Rightarrow> batchcode_entry step" where
  "make_entry max_length offset bs wild sz =
     (let n = unat sz;
          entry = \<lparr>be_offset = offset, be_bytes = bs, be_wildcard_mask = wild, be_size = sz\<rparr>
      in if n > 0 \<and> length bs > n
         then Got (entry\<lparr>be_bytes := resize 0 n bs, be_wildcard_mask := (if length wild > n then resize False n wild else wild)\<rparr>)
         else if n > 0 \<and> length bs < n
         then if n > max_length then Length_Error
              else Got (entry\<lparr>be_bytes := resize 0 n bs, be_wildcard_mask := resize False n wild\<rparr>)
         else Got entry)"

definition parse_record :: "nat \<Rightarrow> token \<Rightarrow> lexer \<Rightarrow> (batchcode_entry \<times> lexer) step" where
  "parse_record max_length t lx =
     bind_step (parse_offset t lx) (\<lambda>(offset, lx1).
       case value_start lx1 of (nx, lx2) \<Rightarrow>
       bind_step (parse_value nx lx2) (\<lambda>((bs, wild), lx3).
         if bs = [] then bad_at ''empty value'' nx
         else bind_step (parse_size lx3) (\<lambda>(sz, lx4).
           bind_step (make_entry max_length offset bs wild sz) (\<lambda>entry. Got (entry, lx4)))))"

subsection \<open>The parser makes progress\<close>

lemma number_token_work: "number_token msg lx = Got (n, lx') \<Longrightarrow> lexer_work lx' \<le> lexer_work lx"
  using next_token_work(2) [of lx] by (auto simp: number_token_def bad_at_def split: prod.splits if_splits)

lemma parse_offset_work: "parse_offset t lx = Got (n, lx') \<Longrightarrow> lexer_work lx' \<le> lexer_work lx"
  using next_token_work(2) [of lx] number_token_work order_trans
  by (fastforce simp: parse_offset_def bad_at_def split: prod.splits if_splits)

lemma value_start_work:
  assumes "value_start lx = (nx, lx')"
  shows "lexer_work lx' \<le> lexer_work lx"
proof -
  obtain t lx1 where nx: "next_token lx = (t, lx1)" by force
  show ?thesis
    using assms next_token_work(2) [OF nx] next_token_work(2) [of lx1 nx lx'] nx
    by (auto simp: value_start_def split: if_splits)
qed

lemma parse_value_work:
  assumes "parse_value nx lx = Got (v, lx')"
  shows "lexer_work lx' \<le> lexer_work lx"
proof -
  obtain sep lx1 where sep: "next_token lx = (sep, lx1)" by force
  obtain val lx2 where val: "next_token lx1 = (val, lx2)" by force
  show ?thesis
    using assms next_token_work(2) [OF sep] next_token_work(2) [OF val] sep val
    by (auto simp: parse_value_def bad_at_def split: if_splits)
qed

lemma peek_field_work:
  "peek_field lx = (tok, lx') \<Longrightarrow> lx_pending lx' = None \<and> lexer_work lx' \<le> lexer_work lx \<and>
     (tk_type tok \<noteq> TEnd \<longrightarrow> lexer_work (put_back tok lx') \<le> lexer_work lx)"
proof (induction lx rule: peek_field.induct)
  case (1 lx)
  obtain t lx1 where nx: "next_token lx = (t, lx1)" by force
  show ?case
  proof (cases "is_terminator t")
    case True
    then have "peek_field lx1 = (tok, lx')"
      using 1(2) nx by (simp add: peek_field.simps [of lx])
    then show ?thesis
      using 1(1) [OF _ refl] nx True next_token_progress [OF nx] by fastforce
  next
    case False
    then show ?thesis
      using 1(2) nx next_token_progress [OF nx] by (simp add: peek_field.simps [of lx])
  qed
qed

lemma parse_size_work:
  assumes "parse_size lx = Got (n, lx')"
  shows "lexer_work lx' \<le> lexer_work lx"
proof -
  obtain peek lx1 where peek: "peek_field lx = (peek, lx1)" by force
  obtain sep lx2 where sep: "next_token lx1 = (sep, lx2)" by force
  show ?thesis
    using assms peek_field_work [OF peek] next_token_work(2) [OF sep] peek sep
    by (auto simp: parse_size_def bad_at_def dest!: number_token_work split: if_splits)
qed

lemma parse_record_Got:
  assumes "parse_record max_length t lx = Got (entry, lx')"
  obtains offset lx1 nx lx2 bs wild lx3 sz where "parse_offset t lx = Got (offset, lx1)"
    "value_start lx1 = (nx, lx2)" "parse_value nx lx2 = Got ((bs, wild), lx3)" "bs \<noteq> []"
    "parse_size lx3 = Got (sz, lx')" "make_entry max_length offset bs wild sz = Got entry"
proof -
  from assms obtain offset lx1 where off: "parse_offset t lx = Got (offset, lx1)"
    by (auto simp: parse_record_def)
  obtain nx lx2 where nx: "value_start lx1 = (nx, lx2)" by force
  show thesis
    using assms off nx by (auto simp: parse_record_def bad_at_def intro: that split: if_split_asm)
qed

lemma parse_record_work: "parse_record max_length t lx = Got (entry, lx') \<Longrightarrow> lexer_work lx' \<le> lexer_work lx"
  by (erule parse_record_Got) (auto dest!: parse_offset_work value_start_work parse_value_work parse_size_work)

subsection \<open>The loop over the records\<close>

text \<open>
  The outcome of the call: on a syntax error the entries read before it stay in the output
  vector.
\<close>

datatype batchcode_result =
  Imported "batchcode_entry list"
| Syntax_Error string "batchcode_entry list"
| Shift_Undefined
| Throws_Length_Error

primrec finish_record :: "batchcode_entry list \<Rightarrow> 'a step \<Rightarrow> ('a \<Rightarrow> batchcode_result) \<Rightarrow> batchcode_result" where
  "finish_record out (Got x) k = k x"
| "finish_record out (Bad msg) k = Syntax_Error msg out"
| "finish_record out Undefined_Shift k = Shift_Undefined"
| "finish_record out Length_Error k = Throws_Length_Error"

lemma finish_record_cong [fundef_cong]:
  "out = out' \<Longrightarrow> m = m' \<Longrightarrow> (\<And>x. m' = Got x \<Longrightarrow> k x = k' x) \<Longrightarrow> finish_record out m k = finish_record out' m' k'"
  by (cases m) auto

function record_loop :: "nat \<Rightarrow> bool \<Rightarrow> lexer \<Rightarrow> batchcode_entry list \<Rightarrow> batchcode_result" where
  "record_loop max_length expecting_record lx out =
     (let (t, lx1) = next_token lx in
      if tk_type t = TEnd then Imported out
      else if is_terminator t then record_loop max_length expecting_record lx1 out
      else if \<not> expecting_record \<and> tk_type t \<noteq> TOffset \<and> tk_type t \<noteq> TNumber
      then record_loop max_length expecting_record lx1 out
      else if tk_type t \<noteq> TOffset \<and> tk_type t \<noteq> TNumber
      then record_loop max_length expecting_record lx1 out
      else finish_record out (parse_record max_length t lx1)
             (\<lambda>(entry, lx2). record_loop max_length False lx2 (out @ [entry])))"
  by pat_completeness auto
termination
proof (relation "measure (\<lambda>(_, _, lx, _). lexer_work lx)", goal_cases)
  case (5 max_length expecting_record lx out x t lx1 y entry lx2)
  then show ?case
    using next_token_work(4) [of lx t lx1] parse_record_work [of max_length t lx1 entry lx2] by auto
qed (auto dest: next_token_work(4) [OF sym])

declare record_loop.simps [simp del]

definition parse_batchcode :: "nat \<Rightarrow> string \<Rightarrow> batchcode_result" where
  "parse_batchcode max_length s =
     record_loop max_length True \<lparr>lx_total = length s, lx_rest = s, lx_pending = None\<rparr> []"

end
