(* ===== verification/Batchcode_Correct.thy ===== *)
theory Batchcode_Correct
  imports Batchcode
begin

text \<open>
  Properties of the batchcode parser: every entry it hands out is well-formed, text in the
  documented syntax is read back as written, and a decimal size of two or more digits is
  refused.
\<close>

section \<open>Well-formed entries\<close>

definition entry_wf :: "batchcode_entry \<Rightarrow> bool" where
  "entry_wf e \<longleftrightarrow> be_bytes e \<noteq> [] \<and> (be_size e = 0 \<or> length (be_bytes e) = unat (be_size e)) \<and>
     (be_wildcard_mask e = [] \<or> length (be_wildcard_mask e) = length (be_bytes e))"

fun result_entries :: "batchcode_result \<Rightarrow> batchcode_entry list" where
  "result_entries (Imported es) = es"
| "result_entries (Syntax_Error msg es) = es"
| "result_entries _ = []"

lemma length_resize [simp]: "length (resize x n xs) = n"
  by (simp add: resize_def)

lemma resize_eq_Nil [simp]: "resize x n xs = [] \<longleftrightarrow> n = 0"
  by (auto simp: resize_def)

lemma make_entry_wf:
  assumes "make_entry max_length offset bs wild sz = Got e" "bs \<noteq> []" "wild = [] \<or> length wild = length bs"
  shows "entry_wf e"
proof -
  have "unat sz > 0 \<or> sz = 0"
    by (metis gr_zeroI unat_0_iff)
  then show ?thesis
    using assms by (auto simp: make_entry_def entry_wf_def Let_def split: if_splits)
qed

text \<open>A token with bytes has a wildcard mark for each of them.\<close>

definition token_wf :: "token \<Rightarrow> bool" where
  "token_wf tok \<longleftrightarrow> length (tk_wildcards tok) = length (tk_bytes tok)"

lemma simple_token_fields [simp]:
  "tk_type (simple_token ty p) = ty" "tk_pos (simple_token ty p) = p" "tk_bytes (simple_token ty p) = []"
  "tk_wildcards (simple_token ty p) = []" "tk_number (simple_token ty p) = 0"
  by (simp_all add: simple_token_def)

lemma keyword_token_wf [simp]: "token_wf (keyword_token p name)"
  by (simp add: keyword_token_def token_wf_def Let_def)

lemma read_word_wf: "read_word p c cs = (tok, r) \<Longrightarrow> token_wf tok"
  by (auto simp: read_word_def split: if_splits prod.splits) (simp add: token_wf_def)

lemma read_number_wf: "read_number p s = (tok, r) \<Longrightarrow> token_wf tok"
  by (auto simp: read_number_def Let_def token_wf_def split: if_splits)

lemma read_hex_bytes_wf: "read_hex_bytes p s = (tok, r) \<Longrightarrow> token_wf tok"
  by (auto simp: read_hex_bytes_def token_wf_def split: prod.splits)

lemma simple_token_wf [simp]: "token_wf (simple_token ty p)"
  by (simp add: token_wf_def)

lemma scan_token_wf: "scan_token p c cs = (tok, r) \<Longrightarrow> token_wf tok"
  by (auto simp: scan_token_def read_word_wf read_number_wf read_hex_bytes_wf split: if_splits prod.splits)

definition lexer_wf :: "lexer \<Rightarrow> bool" where
  "lexer_wf lx \<longleftrightarrow> (case lx_pending lx of None \<Rightarrow> True | Some tok \<Rightarrow> token_wf tok)"

lemma next_token_wf: "next_token lx = (tok, lx') \<Longrightarrow> lexer_wf lx \<Longrightarrow> token_wf tok \<and> lexer_wf lx'"
  by (erule next_token_cases) (auto simp: lexer_wf_def dest: scan_token_wf)

lemma number_token_wf: "number_token msg lx = Got (n, lx') \<Longrightarrow> lexer_wf lx \<Longrightarrow> lexer_wf lx'"
  by (auto simp: number_token_def bad_at_def dest: next_token_wf split: prod.splits if_splits)

lemma parse_offset_wf: "parse_offset t lx = Got (n, lx') \<Longrightarrow> lexer_wf lx \<Longrightarrow> lexer_wf lx'"
  by (auto simp: parse_offset_def bad_at_def dest: next_token_wf number_token_wf split: prod.splits if_splits)

lemma value_start_wf: "value_start lx = (nx, lx') \<Longrightarrow> lexer_wf lx \<Longrightarrow> token_wf nx \<and> lexer_wf lx'"
  by (auto simp: value_start_def dest: next_token_wf split: prod.splits if_splits)

lemma value_of_token_wf:
  "value_of_token tok = Got (bs, wild) \<Longrightarrow> token_wf tok \<Longrightarrow> wild = [] \<or> length wild = length bs"
  by (auto simp: value_of_token_def token_wf_def split: if_splits)

lemma parse_value_wf:
  assumes "parse_value nx lx = Got ((bs, wild), lx')" "lexer_wf lx" "token_wf nx"
  shows "lexer_wf lx' \<and> (wild = [] \<or> length wild = length bs)"
proof -
  obtain sep lx1 where sep: "next_token lx = (sep, lx1)" by force
  obtain val lx2 where val: "next_token lx1 = (val, lx2)" by force
  from next_token_wf [OF sep assms(2)] next_token_wf [OF val] show ?thesis
    using assms sep val by (auto simp: parse_value_def bad_at_def dest: value_of_token_wf split: if_splits)
qed

lemma peek_field_wf: "peek_field lx = (tok, lx') \<Longrightarrow> lexer_wf lx \<Longrightarrow> token_wf tok \<and> lexer_wf lx'"
proof (induction lx rule: peek_field.induct)
  case (1 lx)
  obtain t lx1 where nx: "next_token lx = (t, lx1)" by force
  with 1 next_token_wf [OF nx] show ?case
    by (cases "is_terminator t") (simp_all add: peek_field.simps [of lx])
qed

lemma parse_size_wf:
  assumes "parse_size lx = Got (n, lx')" "lexer_wf lx"
  shows "lexer_wf lx'"
proof -
  obtain peek lx1 where peek: "peek_field lx = (peek, lx1)" by force
  obtain sep lx2 where sep: "next_token lx1 = (sep, lx2)" by force
  have "lexer_wf (put_back peek lx1)"
    using peek_field_wf [OF peek assms(2)] by (simp add: lexer_wf_def put_back_def)
  then show ?thesis
    using assms peek_field_wf [OF peek assms(2)] next_token_wf [OF sep] peek sep
    by (auto simp: parse_size_def bad_at_def dest: number_token_wf split: if_splits)
qed

lemma parse_record_wf:
  assumes "parse_record max_length t lx = Got (entry, lx')" "lexer_wf lx"
  shows "entry_wf entry \<and> lexer_wf lx'"
  using assms(1)
proof (rule parse_record_Got)
  fix offset lx1 nx lx2 bs wild lx3 sz
  assume *: "parse_offset t lx = Got (offset, lx1)" "value_start lx1 = (nx, lx2)"
    "parse_value nx lx2 = Got ((bs, wild), lx3)" "bs \<noteq> []" "parse_size lx3 = Got (sz, lx')"
    "make_entry max_length offset bs wild sz = Got entry"
  have "lexer_wf lx3 \<and> (wild = [] \<or> length wild = length bs)"
    using parse_value_wf [OF *(3)] value_start_wf [OF *(2) parse_offset_wf [OF *(1) assms(2)]] by blast
  then show "entry_wf entry \<and> lexer_wf lx'"
    using make_entry_wf [OF *(6,4)] parse_size_wf [OF *(5)] by blast
qed

lemma record_loop_wf:
  "lexer_wf lx \<Longrightarrow> list_all entry_wf out \<Longrightarrow>
   list_all entry_wf (result_entries (record_loop max_length expecting_record lx out))"
proof (induction max_length expecting_record lx out rule: record_loop.induct)
  case (1 max_length expecting_record lx out)
  obtain t lx1 where nx: "next_token lx = (t, lx1)" by force
  note wf = next_token_wf [OF nx "1.prems"(1)]
  show ?case
  proof (cases "tk_type t = TEnd \<or> is_terminator t \<or> tk_type t \<noteq> TOffset \<and> tk_type t \<noteq> TNumber")
    case True
    then show ?thesis
      using 1 wf nx by (auto simp: record_loop.simps [of _ _ lx])
  next
    case False
    then have "list_all entry_wf (result_entries (finish_record out (parse_record max_length t lx1)
       (\<lambda>(entry, lx2). record_loop max_length False lx2 (out @ [entry]))))"
      using 1(4) [OF _ nx [symmetric]] nx "1.prems"(2) wf parse_record_wf [of max_length t lx1]
      by (cases "parse_record max_length t lx1") auto
    with False show ?thesis
      using nx by (auto simp: record_loop.simps [of _ _ lx])
  qed
qed

text \<open>
  Every entry \<^verbatim>\<open>parse_batchcode\<close> leaves in its output vector, also when it ends with a
  syntax error, has at least one byte, has exactly as many bytes as its size when the text gave
  one, and has either no wildcard mask or one mark for each byte.
\<close>

theorem batchcode_entries_wf: "list_all entry_wf (result_entries (parse_batchcode max_length s))"
  unfolding parse_batchcode_def by (rule record_loop_wf) (simp_all add: lexer_wf_def)

section \<open>The documented syntax is read back\<close>

definition pattern_byte :: "byte \<times> bool \<Rightarrow> string" where
  "pattern_byte p = (if snd p then ''??'' else hex2 (unat (fst p)))"

fun pattern_text :: "(byte \<times> bool) list \<Rightarrow> string" where
  "pattern_text [] = []"
| "pattern_text [p] = pattern_byte p"
| "pattern_text (p # ps) = pattern_byte p @ '' '' @ pattern_text ps"

text \<open>A record up to its value, and a whole record on a line of its own.\<close>

definition record_head :: "batchcode_entry \<Rightarrow> string" where
  "record_head e = ''offset:0x'' @ hex_of_nat (unat (be_offset e)) @ '';value:'' @
     pattern_text (zip (be_bytes e) (be_wildcard_mask e))"

text \<open>The size is written in decimal where the parser reads decimal sizes, in hexadecimal otherwise.\<close>

definition size_number :: "u64 \<Rightarrow> string" where
  "size_number sz = (if unat sz < 10 then dec_of_nat (unat sz) else ''0x'' @ hex_of_nat (unat sz))"

definition size_text :: "u64 \<Rightarrow> string" where
  "size_text sz = (if sz = 0 then [] else '';size:'' @ size_number sz)"

definition record_text :: "batchcode_entry \<Rightarrow> string" where
  "record_text e = record_head e @ size_text (be_size e) @ [CHR 0x0A]"

definition printable :: "batchcode_entry \<Rightarrow> bool" where
  "printable e \<longleftrightarrow> be_bytes e \<noteq> [] \<and> length (be_wildcard_mask e) = length (be_bytes e) \<and>
     list_all (\<lambda>(b, w). w \<longrightarrow> b = 0) (zip (be_bytes e) (be_wildcard_mask e)) \<and>
     (be_size e = 0 \<or> length (be_bytes e) = unat (be_size e))"

subsection \<open>Tokens of the printed text\<close>

definition lexer_at :: "nat \<Rightarrow> string \<Rightarrow> lexer" where
  "lexer_at n s = \<lparr>lx_total = n, lx_rest = s, lx_pending = None\<rparr>"

lemma next_at:
  "\<not> isspace c \<Longrightarrow> c \<noteq> CHR ''/'' \<Longrightarrow> c \<noteq> CHR ''#'' \<Longrightarrow> scan_token (n - Suc (length cs)) c cs = (tok, r) \<Longrightarrow>
   next_token (lexer_at n (c # cs)) = (tok, lexer_at n r)"
  by (simp add: next_token_def lexer_at_def)

lemma next_at_end: "next_token (lexer_at n []) = (simple_token TEnd n, lexer_at n [])"
  by (simp add: next_token_def lexer_at_def)

lemma next_at_newline: "next_token (lexer_at n (CHR 0x0A # s)) = next_token (lexer_at n s)"
  by (simp add: next_token_def lexer_at_def isspace_def split: list.split)

lemma next_punct:
  "next_token (lexer_at n (CHR '':'' # s)) = (simple_token TColon (n - Suc (length s)), lexer_at n s)"
  "next_token (lexer_at n (CHR '';'' # s)) = (simple_token TSemicolon (n - Suc (length s)), lexer_at n s)"
  by (auto intro!: next_at simp: scan_token_def isspace_def)

definition ends_field :: "string \<Rightarrow> bool" where
  "ends_field s \<longleftrightarrow> s = [] \<or> hd s = CHR '':'' \<or> hd s = CHR '';'' \<or> hd s = CHR 0x0A"

lemma ends_field_Cons [simp]: "ends_field (CHR '':'' # s)" "ends_field (CHR '';'' # s)" "ends_field (CHR 0x0A # s)" "ends_field []"
  by (simp_all add: ends_field_def)

lemma isxdigit_hex_digit [simp]: "k < 16 \<Longrightarrow> isxdigit (hex_digit k)"
  by (auto simp: cctype_defs hex_digit_code)

lemma take_word:
  assumes "list_all P w" "ends_field s" "\<not> P (CHR '':'')" "\<not> P (CHR '';'')" "\<not> P (CHR 0x0A)"
  shows "takeWhile P (w @ s) = w" "dropWhile P (w @ s) = s"
proof -
  have "takeWhile P s = [] \<and> dropWhile P s = s"
    using assms by (cases s) (auto simp: ends_field_def)
  then show "takeWhile P (w @ s) = w" "dropWhile P (w @ s) = s"
    using assms(1) by (simp_all add: list_all_iff takeWhile_append2 dropWhile_append2)
qed

lemma next_keyword:
  "ends_field s \<Longrightarrow> next_token (lexer_at n (''offset'' @ s)) = (simple_token TOffset (n - length (''offset'' @ s)), lexer_at n s)"
  "ends_field s \<Longrightarrow> next_token (lexer_at n (''value'' @ s)) = (simple_token TValue (n - length (''value'' @ s)), lexer_at n s)"
  "ends_field s \<Longrightarrow> next_token (lexer_at n (''size'' @ s)) = (simple_token TSize (n - length (''size'' @ s)), lexer_at n s)"
  using take_word [of "\<lambda>c. isalnum c \<or> c = CHR ''_''" "''offset''" s]
    take_word [of "\<lambda>c. isalnum c \<or> c = CHR ''_''" "''value''" s]
    take_word [of "\<lambda>c. isalnum c \<or> c = CHR ''_''" "''size''" s]
  by (auto intro!: next_at simp: scan_token_def has_hex_prefix_def read_word_def read_identifier_def keyword_token_def
      tolower_def cctype_defs)

lemma digits_value_hex_number: "hex_number_from v ds = Some k \<Longrightarrow> digits_value 16 ds v = k"
  by (induction ds arbitrary: v) (auto split: option.splits)

lemma strtoull_hex: "strtoull 16 (hex_of_nat (unat (w :: u64))) = w"
proof -
  have "unat w \<le> 2 ^ 64 - 1"
    using unsigned_less [of w, where 'a = nat] by simp
  then show ?thesis
    by (simp add: strtoull_def digits_value_hex_number [OF hex_number_from_hex_of_nat] min_def word_of_nat_unat)
qed

lemma next_number:
  assumes "ends_field s"
  obtains tok where "next_token (lexer_at n (''0x'' @ hex_of_nat (unat (w :: u64)) @ s)) = (tok, lexer_at n s)"
    "tk_type tok = TNumber" "tk_number tok = w"
proof -
  let ?ds = "hex_of_nat (unat w)"
  have "list_all isxdigit ?ds"
    using hex_of_nat_digits [of "unat w"] by (auto simp: list_all_iff)
  then have "takeWhile isxdigit (?ds @ s) = ?ds" "dropWhile isxdigit (?ds @ s) = s"
    using take_word [of isxdigit ?ds s] assms by (simp_all add: cctype_defs)
  then have "read_number p (CHR ''0'' # CHR ''x'' # ?ds @ s) =
      ((simple_token TNumber p)\<lparr>tk_number := w, tk_hex_digits := length ?ds\<rparr>, s)" for p
    by (simp add: read_number_def has_hex_prefix_def strtoull_hex)
  then show thesis
    by (intro that) (auto intro!: next_at simp: scan_token_def isspace_def has_hex_prefix_def)
qed

lemma next_digit:
  assumes "k < 10"
  obtains tok where "next_token (lexer_at n (char_of (48 + k :: nat) # CHR 0x0A # s)) = (tok, lexer_at n (CHR 0x0A # s))"
    "tk_type tok = TNumber" "tk_number tok = word_of_nat k"
proof -
  let ?c = "char_of (48 + k) :: char"
  have code: "of_char ?c = 48 + k" using assms by simp
  have no: "?c \<noteq> d" if "of_char d < (48::nat) \<or> 57 < (of_char d::nat)" for d
    using that assms code by auto
  have c: "isdigit ?c" "isxdigit ?c" "\<not> isspace ?c" "\<not> is_inline_space ?c"
    using assms code by (auto simp: cctype_defs isspace_def) (simp add: is_inline_space_def no)
  have loop: "read_hex_loop (?c # CHR 0x0A # s) = ([], ?c # CHR 0x0A # s)"
    using c no [of "CHR ''?''"] by (simp add: read_hex_loop.simps [of "?c # CHR 0x0A # s"] skip_inline_whitespace_def cctype_defs)
  have "read_number p (?c # CHR 0x0A # s) =
      ((simple_token TNumber p)\<lparr>tk_number := word_of_nat k, tk_hex_digits := 0\<rparr>, CHR 0x0A # s)" for p
    using c assms by (simp add: read_number_def has_hex_prefix_def cctype_defs strtoull_def hex_value_def)
  then show thesis
    using c no [of "CHR ''/''"] no [of "CHR ''#''"] no [of "CHR '':''"] no [of "CHR ''=''"] no [of "CHR '',''"] no [of "CHR '';''"] loop
    by (intro that) (auto intro!: next_at simp: scan_token_def has_hex_prefix_def read_hex_bytes_def)
qed

lemma next_size:
  obtains tok where "next_token (lexer_at n (size_number sz @ CHR 0x0A # s)) = (tok, lexer_at n (CHR 0x0A # s))"
    "tk_type tok = TNumber" "tk_number tok = sz"
proof (cases "unat sz < 10")
  case True
  obtain tok where "next_token (lexer_at n (char_of (48 + unat sz) # CHR 0x0A # s)) = (tok, lexer_at n (CHR 0x0A # s))"
    "tk_type tok = TNumber" "tk_number tok = word_of_nat (unat sz)"
    by (rule next_digit [OF True])
  with True show thesis
    using that by (simp add: size_number_def dec_of_nat.simps word_of_nat_unat)
next
  case False
  obtain tok where "next_token (lexer_at n (''0x'' @ hex_of_nat (unat sz) @ CHR 0x0A # s)) = (tok, lexer_at n (CHR 0x0A # s))"
    "tk_type tok = TNumber" "tk_number tok = sz"
    by (rule next_number [of "CHR 0x0A # s"]) simp
  with False show thesis
    using that by (simp add: size_number_def)
qed

lemma hex_pair_hex2: "hex_pair_byte (hex_digit (unat b div 16)) (hex_digit (unat b mod 16)) = b"
proof -
  have "unat b div 16 < 16"
    using unsigned_less [of b, where 'a = nat] by auto
  then show ?thesis
    by (simp add: hex_pair_byte_def word_of_nat_unat)
qed

lemma hex_digit_no_blank [simp]: "k < 16 \<Longrightarrow> \<not> is_inline_space (hex_digit k)"
  using hex_digit_code [of k] by (auto simp: is_inline_space_def split: if_splits)

lemma read_hex_blank: "read_hex_loop (CHR '' '' # s) = read_hex_loop s"
proof -
  have "skip_inline_whitespace (CHR '' '' # s) = skip_inline_whitespace s"
    by (simp add: skip_inline_whitespace_def is_inline_space_def)
  then show ?thesis
    by (simp only: read_hex_loop.simps [of "CHR '' '' # s"] read_hex_loop.simps [of s])
qed

lemma read_hex_pattern_byte:
  assumes "snd p \<longrightarrow> fst p = 0" "read_hex_loop s = (bs, r)"
  shows "read_hex_loop (pattern_byte p @ s) = (p # bs, r)"
proof (cases "snd p")
  case True
  with assms show ?thesis
    by (cases p) (auto simp: pattern_byte_def skip_inline_whitespace_def is_inline_space_def intro!: read_hex_wildcard)
next
  case False
  have "unat (fst p) div 16 < 16"
    using unsigned_less [of "fst p", where 'a = nat] by auto
  with False assms(2) show ?thesis
    using read_hex_pair [of "pattern_byte p @ s" "hex_digit (unat (fst p) div 16)" "hex_digit (unat (fst p) mod 16)" s bs r]
    by (cases p) (simp add: pattern_byte_def hex2_def skip_inline_whitespace_def hex_pair_hex2)
qed

lemma read_hex_field_end:
  assumes "ends_field s"
  shows "read_hex_loop s = ([], s)"
proof (rule read_hex_stop)
  show "skip_inline_whitespace s = s"
    using assms by (cases s) (auto simp: ends_field_def skip_inline_whitespace_def is_inline_space_def)
qed (use assms in \<open>auto simp: ends_field_def cctype_defs\<close>)

lemma read_hex_pattern:
  assumes "ends_field s" "list_all (\<lambda>(b, w). w \<longrightarrow> b = 0) ps"
  shows "read_hex_loop (pattern_text ps @ s) = (ps, s)"
  using assms(2)
proof (induction ps rule: pattern_text.induct)
  case 1
  show ?case
    using read_hex_field_end [OF assms(1)] by simp
next
  case (2 p)
  then show ?case
    using read_hex_pattern_byte [of p s] read_hex_field_end [OF assms(1)] by (cases p) auto
next
  case (3 p q ps)
  then show ?case
    using read_hex_pattern_byte [of p "CHR '' '' # pattern_text (q # ps) @ s"] by (cases p) (auto simp: read_hex_blank)
qed

lemma pattern_byte_head:
  obtains c d where "pattern_byte p = [c, d]" "isxdigit c \<or> c = CHR ''?''" "d \<noteq> CHR ''x''" "d \<noteq> CHR ''X''"
    "\<not> isspace c" "c \<notin> set '':=,;/#''"
proof (cases "snd p")
  case True
  then show thesis
    using that [of "CHR ''?''" "CHR ''?''"] by (auto simp: pattern_byte_def isspace_def)
next
  case False
  have "unat (fst p) div 16 < 16"
    using unsigned_less [of "fst p", where 'a = nat] by auto
  moreover have "hex_digit k \<notin> set ''xX:=,;/#'' \<and> \<not> isspace (hex_digit k)" if "k < 16" for k
    using hex_digit_code [OF that] that by (auto simp: isspace_def split: if_splits)
  ultimately show thesis
    using False that [of "hex_digit (unat (fst p) div 16)" "hex_digit (unat (fst p) mod 16)"]
    by (auto simp: pattern_byte_def hex2_def)
qed

lemma next_pattern:
  assumes "ends_field s" "list_all (\<lambda>(b, w). w \<longrightarrow> b = 0) ps" "ps \<noteq> []"
  obtains tok where "next_token (lexer_at n (pattern_text ps @ s)) = (tok, lexer_at n s)"
    "tk_type tok = THexBytes" "tk_bytes tok = map fst ps" "tk_wildcards tok = map snd ps"
proof -
  obtain p ps' where ps: "ps = p # ps'"
    using assms(3) by (cases ps) auto
  obtain c d where cd: "pattern_byte p = [c, d]" "isxdigit c \<or> c = CHR ''?''" "d \<noteq> CHR ''x''" "d \<noteq> CHR ''X''"
    "\<not> isspace c" "c \<notin> set '':=,;/#''"
    by (rule pattern_byte_head)
  obtain u where u: "pattern_text ps @ s = c # d # u"
    using cd(1) unfolding ps by (cases ps') auto
  let ?tok = "\<lambda>pos. (simple_token THexBytes pos)\<lparr>tk_bytes := map fst ps, tk_wildcards := map snd ps\<rparr>"
  have "read_hex_bytes pos (c # d # u) = (?tok pos, s)" for pos
    using read_hex_pattern [OF assms(1,2)] by (simp add: read_hex_bytes_def u)
  then have "next_token (lexer_at n (c # d # u)) = (?tok (n - Suc (Suc (length u))), lexer_at n s)"
    using cd assms(3) by (intro next_at) (auto simp: scan_token_def has_hex_prefix_def)
  then show thesis
    using that u by auto
qed

subsection \<open>Fields and records of the printed text\<close>

lemma parse_printed_offset:
  assumes "tk_type t = TOffset" "ends_field s"
  shows "parse_offset t (lexer_at n ('':0x'' @ hex_of_nat (unat w) @ s)) = Got (w, lexer_at n s)"
proof -
  obtain tok where "next_token (lexer_at n (''0x'' @ hex_of_nat (unat w) @ s)) = (tok, lexer_at n s)"
    "tk_type tok = TNumber" "tk_number tok = w"
    by (rule next_number [OF assms(2)])
  then show ?thesis
    using assms(1) by (simp add: parse_offset_def next_punct is_separator_def number_token_def)
qed

lemma value_start_printed:
  "value_start (lexer_at n ('';value:'' @ s)) = (simple_token TValue (n - length (''value:'' @ s)), lexer_at n (CHR '':'' # s))"
  using next_keyword(2) [of "CHR '':'' # s" n] by (simp add: value_start_def next_punct is_terminator_def)

lemma parse_printed_value:
  assumes "ends_field s" "list_all (\<lambda>(b, w). w \<longrightarrow> b = 0) ps" "ps \<noteq> []" "tk_type t = TValue"
  shows "parse_value t (lexer_at n (CHR '':'' # pattern_text ps @ s)) = Got ((map fst ps, map snd ps), lexer_at n s)"
proof -
  obtain tok where "next_token (lexer_at n (pattern_text ps @ s)) = (tok, lexer_at n s)"
    "tk_type tok = THexBytes" "tk_bytes tok = map fst ps" "tk_wildcards tok = map snd ps"
    using next_pattern [OF assms(1-3)] by blast
  then show ?thesis
    using assms(4) by (simp add: parse_value_def next_punct is_separator_def is_value_def value_of_token_def)
qed

text \<open>What is read after a record: the next record, or the end.\<close>

definition is_tail :: "string \<Rightarrow> bool" where
  "is_tail s \<longleftrightarrow> s = [] \<or> (\<exists>u. s = ''offset:'' @ u)"

lemma record_loop_put_back:
  assumes "next_token lx = (t, lx1)"
  shows "record_loop max_length f (put_back t lx1) out = record_loop max_length f lx out"
proof -
  have "next_token (put_back t lx1) = (t, lx1)"
    using next_token_work(1) [OF assms] by (simp add: next_token_def put_back_def)
  with assms show ?thesis
    by (simp add: record_loop.simps [of _ _ "put_back t lx1"] record_loop.simps [of _ _ lx])
qed

lemma record_loop_newline: "record_loop max_length f (lexer_at n (CHR 0x0A # s)) out = record_loop max_length f (lexer_at n s) out"
  by (simp add: record_loop.simps [of _ _ "lexer_at n (CHR 0x0A # s)"] record_loop.simps [of _ _ "lexer_at n s"] next_at_newline)

lemma parse_printed_size:
  assumes "is_tail tail"
  obtains lx' where "parse_size (lexer_at n (size_text sz @ CHR 0x0A # tail)) = Got (sz, lx')"
    "\<And>max_length f out. record_loop max_length f lx' out = record_loop max_length f (lexer_at n tail) out"
proof (cases "sz = 0")
  case False
  obtain tok where tok: "next_token (lexer_at n (size_number sz @ CHR 0x0A # tail)) = (tok, lexer_at n (CHR 0x0A # tail))"
    "tk_type tok = TNumber" "tk_number tok = sz"
    by (rule next_size)
  have "peek_field (lexer_at n (size_text sz @ CHR 0x0A # tail)) =
      (simple_token TSize (n - length (''size:'' @ size_number sz @ CHR 0x0A # tail)),
       lexer_at n (CHR '':'' # size_number sz @ CHR 0x0A # tail))"
    using False next_keyword(3) [of "CHR '':'' # size_number sz @ CHR 0x0A # tail" n]
    by (simp add: size_text_def peek_field.simps next_punct is_terminator_def)
  then have "parse_size (lexer_at n (size_text sz @ CHR 0x0A # tail)) = Got (sz, lexer_at n (CHR 0x0A # tail))"
    using tok by (simp add: parse_size_def next_punct is_separator_def number_token_def)
  then show thesis
    using that record_loop_newline by blast
next
  case sz: True
  obtain t lx1 where nx: "next_token (lexer_at n tail) = (t, lx1)" by force
  show thesis
  proof (cases "tail = []")
    case True
    then have "parse_size (lexer_at n (size_text sz @ CHR 0x0A # tail)) = Got (sz, lexer_at n tail)"
      using sz by (simp add: parse_size_def size_text_def peek_field.simps next_at_newline next_at_end is_terminator_def)
    then show thesis
      using that by blast
  next
    case False
    then obtain u where "tail = ''offset'' @ CHR '':'' # u"
      using assms by (auto simp: is_tail_def)
    then have "tk_type t = TOffset"
      using nx next_keyword(1) [of "CHR '':'' # u" n] by auto
    then have "parse_size (lexer_at n (size_text sz @ CHR 0x0A # tail)) = Got (sz, put_back t lx1)"
      using sz nx by (simp add: parse_size_def size_text_def peek_field.simps next_at_newline is_terminator_def)
    then show thesis
      using that record_loop_put_back [OF nx] by blast
  qed
qed

lemma make_entry_exact:
  "be_size e = 0 \<or> length (be_bytes e) = unat (be_size e) \<Longrightarrow>
   make_entry max_length (be_offset e) (be_bytes e) (be_wildcard_mask e) (be_size e) = Got e"
  by (auto simp: make_entry_def Let_def)

lemma parse_printed_record:
  assumes "printable e" "is_tail tail" "tk_type t = TOffset"
  obtains lx' where "parse_record max_length t (lexer_at n (drop 6 (record_text e) @ tail)) = Got (e, lx')"
    "\<And>f out. record_loop max_length f lx' out = record_loop max_length f (lexer_at n tail) out"
proof -
  let ?ps = "zip (be_bytes e) (be_wildcard_mask e)"
  let ?s = "size_text (be_size e) @ CHR 0x0A # tail"
  have ends: "ends_field ?s"
    by (simp add: size_text_def)
  have ps: "list_all (\<lambda>(b, w). w \<longrightarrow> b = 0) ?ps" "?ps \<noteq> []" "map fst ?ps = be_bytes e" "map snd ?ps = be_wildcard_mask e"
    using assms(1) by (auto simp: printable_def)
  obtain lx' where sz: "parse_size (lexer_at n ?s) = Got (be_size e, lx')"
    and loop: "\<And>m f out. record_loop m f lx' out = record_loop m f (lexer_at n tail) out"
    by (rule parse_printed_size [OF assms(2), where n = n and sz = "be_size e"]) iprover
  have "make_entry max_length (be_offset e) (be_bytes e) (be_wildcard_mask e) (be_size e) = Got e"
    using assms(1) by (intro make_entry_exact) (simp add: printable_def)
  moreover have "drop 6 (record_text e) @ tail = '':0x'' @ hex_of_nat (unat (be_offset e)) @ '';value:'' @ pattern_text ?ps @ ?s"
    by (simp add: record_text_def record_head_def)
  ultimately have "parse_record max_length t (lexer_at n (drop 6 (record_text e) @ tail)) = Got (e, lx')"
    using parse_printed_offset [OF assms(3), of "'';value:'' @ pattern_text ?ps @ ?s" n "be_offset e"]
      value_start_printed [of n "pattern_text ?ps @ ?s"] parse_printed_value [OF ends ps(1,2)] ps sz assms(1)
    by (simp add: parse_record_def printable_def)
  then show thesis
    using loop by (rule that)
qed

lemma is_tail_records: "is_tail (concat (map record_text es))"
  by (cases es) (auto simp: is_tail_def record_text_def record_head_def)

lemma record_loop_printed:
  "list_all printable es \<Longrightarrow>
   record_loop max_length f (lexer_at n (concat (map record_text es))) out = Imported (out @ es)"
proof (induction es arbitrary: f out)
  case Nil
  then show ?case
    by (simp add: record_loop.simps next_at_end)
next
  case (Cons e es)
  let ?tail = "concat (map record_text es)"
  let ?t = "simple_token TOffset (n - length (record_text e @ ?tail))"
  obtain lx' where rec: "parse_record max_length ?t (lexer_at n (drop 6 (record_text e) @ ?tail)) = Got (e, lx')"
    and loop: "\<And>f out. record_loop max_length f lx' out = record_loop max_length f (lexer_at n ?tail) out"
    by (rule parse_printed_record [of e ?tail ?t max_length n]) (use Cons.prems is_tail_records in \<open>auto\<close>)
  have "record_text e = ''offset'' @ drop 6 (record_text e)" and "ends_field (drop 6 (record_text e) @ ?tail)"
    by (simp_all add: record_text_def record_head_def)
  then have "next_token (lexer_at n (record_text e @ ?tail)) = (?t, lexer_at n (drop 6 (record_text e) @ ?tail))"
    using next_keyword(1) [of "drop 6 (record_text e) @ ?tail" n] by (metis append.assoc)
  then show ?case
    using rec loop Cons by (simp add: record_loop.simps [of _ _ "lexer_at n (record_text e @ ?tail)"] is_terminator_def)
qed

text \<open>
  C31. Records written in the first of the documented forms, one per line with the fields
  \<^verbatim>\<open>offset:0x...;value:...;size:...\<close> (a hexadecimal offset, a byte pattern with wildcards and an optional
  size that agrees with the pattern), are imported as exactly the entries that were written, in
  their order, whatever their number. The size is in decimal, as documented, below 10; from 10 on
  it is written in hexadecimal with the prefix \<^verbatim>\<open>0x\<close>, since the parser refuses larger decimal sizes.
\<close>

theorem batchcode_roundtrip:
  assumes "list_all printable es"
  shows "parse_batchcode max_length (concat (map record_text es)) = Imported es"
  using record_loop_printed [OF assms, of max_length True "length (concat (map record_text es))" "[]"]
  by (simp add: parse_batchcode_def lexer_at_def)

theorem batchcode_roundtrip_witness:
  "\<exists>es. es = [\<lparr>be_offset = 0x1000, be_bytes = [0x90, 0, 0xC3], be_wildcard_mask = [False, True, False], be_size = 0\<rparr>,
              \<lparr>be_offset = 0x2000, be_bytes = [0xEB], be_wildcard_mask = [False], be_size = 1\<rparr>] \<and>
     list_all printable es \<and> parse_batchcode 4096 (concat (map record_text es)) = Imported es"
proof (intro exI conjI)
  let ?es = "[\<lparr>be_offset = 0x1000, be_bytes = [0x90, 0, 0xC3], be_wildcard_mask = [False, True, False], be_size = 0\<rparr>,
              \<lparr>be_offset = 0x2000, be_bytes = [0xEB], be_wildcard_mask = [False], be_size = 1\<rparr>]"
  show printable: "list_all printable ?es"
    by (simp add: printable_def)
  show "parse_batchcode 4096 (concat (map record_text ?es)) = Imported ?es"
    by (rule batchcode_roundtrip [OF printable])
qed simp

section \<open>Decimal sizes\<close>

lemma isdigit_char_of: "(k :: nat) < 10 \<Longrightarrow> isdigit (char_of (48 + k))"
  by (simp add: isdigit_def)

lemma dec_of_nat_digits: "list_all isdigit (dec_of_nat n)"
proof (induction n rule: dec_of_nat.induct)
  case (1 n)
  then show ?case
    using isdigit_char_of [of n] isdigit_char_of [of "n mod 10"] by (cases "n < 10") (simp_all add: dec_of_nat.simps [of n])
qed

lemma dec_of_nat_nonempty: "dec_of_nat n \<noteq> []"
  by (simp add: dec_of_nat.simps [of n])

lemma dec_of_nat_two_digits:
  assumes "10 \<le> n"
  obtains c d u where "dec_of_nat n = c # d # u" "isdigit c" "isdigit d"
proof -
  obtain c v where v: "dec_of_nat (n div 10) = c # v"
    using dec_of_nat_nonempty by (cases "dec_of_nat (n div 10)") auto
  then obtain d u where "dec_of_nat n = c # d # u"
    using assms by (cases v) (auto simp: dec_of_nat.simps [of n])
  then show thesis
    using that dec_of_nat_digits [of n] by auto
qed

lemma next_two_digits:
  assumes "isdigit c" "isdigit d"
  shows "\<exists>tok r. next_token (lexer_at n (c # d # u)) = (tok, lexer_at n r) \<and> tk_type tok = THexBytes \<and>
     tk_pos tok = n - Suc (Suc (length u))"
proof -
  have c: "\<not> isspace c" "c \<notin> set '':=,;/#''" "isxdigit c" "\<not> is_inline_space c" "isxdigit d" "d \<notin> set ''xX''"
    using assms by (auto simp: cctype_defs is_inline_space_def)
  obtain bs r where "read_hex_loop (c # d # u) = ((hex_pair_byte c d, False) # bs, r)"
    using read_hex_pair [of "c # d # u" c d u] c by (metis skip_inline_whitespace_def dropWhile.simps(2) surj_pair)
  then show ?thesis
    using c by (subst next_at) (auto simp: scan_token_def has_hex_prefix_def read_hex_bytes_def)
qed

lemma record_loop_bad:
  assumes "next_token lx = (t, lx1)" "tk_type t = TOffset" "parse_record max_length t lx1 = Bad msg"
  shows "record_loop max_length f lx out = Syntax_Error msg out"
  using assms by (simp add: record_loop.simps [of _ _ lx] is_terminator_def)

text \<open>
  A size of two or more decimal digits is never accepted: the lexer takes the digits for a
  byte pattern, and the whole import ends with the error \<^verbatim>\<open>expected size number\<close>, although the
  documented form of the field is \<^verbatim>\<open>size:N\<close>.
\<close>

theorem decimal_size_refused:
  assumes "printable e" and "10 \<le> n"
  shows "parse_batchcode max_length (record_head e @ '';size:'' @ dec_of_nat n) =
    Syntax_Error (''expected size number at position '' @ dec_of_nat (length (record_head e) + 6)) []"
proof -
  let ?ps = "zip (be_bytes e) (be_wildcard_mask e)"
  let ?s = "'';size:'' @ dec_of_nat n"
  let ?N = "length (record_head e @ ?s)"
  let ?t = "simple_token TOffset 0"
  have ps: "list_all (\<lambda>(b, w). w \<longrightarrow> b = 0) ?ps" "?ps \<noteq> []" "map fst ?ps = be_bytes e"
    using assms(1) by (auto simp: printable_def)
  obtain c d u where cd: "dec_of_nat n = c # d # u" "isdigit c" "isdigit d"
    using dec_of_nat_two_digits [OF assms(2)] .
  obtain tok r where tok: "next_token (lexer_at ?N (dec_of_nat n)) = (tok, lexer_at ?N r)" "tk_type tok = THexBytes"
    "tk_pos tok = length (record_head e) + 6"
    using next_two_digits [OF cd(2,3), of ?N u] cd(1) by auto
  have "peek_field (lexer_at ?N ?s) = (simple_token TSize (?N - length (''size:'' @ dec_of_nat n)), lexer_at ?N (CHR '':'' # dec_of_nat n))"
    using next_keyword(3) [of "CHR '':'' # dec_of_nat n" ?N] by (simp add: peek_field.simps next_punct is_terminator_def)
  then have "parse_size (lexer_at ?N ?s) = Bad (''expected size number at position '' @ dec_of_nat (length (record_head e) + 6))"
    using tok by (simp add: parse_size_def next_punct is_separator_def number_token_def bad_at_def)
  then have "parse_record max_length ?t (lexer_at ?N (drop 6 (record_head e @ ?s))) =
      Bad (''expected size number at position '' @ dec_of_nat (length (record_head e) + 6))"
    using parse_printed_offset [of ?t "'';value:'' @ pattern_text ?ps @ ?s" ?N "be_offset e"]
      value_start_printed [of ?N "pattern_text ?ps @ ?s"] parse_printed_value [of ?s ?ps _ ?N, OF _ ps(1,2)] assms(1) ps(3)
    by (simp add: parse_record_def printable_def record_head_def)
  moreover have "next_token (lexer_at ?N (record_head e @ ?s)) = (?t, lexer_at ?N (drop 6 (record_head e @ ?s)))"
    using next_keyword(1) [of "drop 6 (record_head e @ ?s)" ?N] by (simp add: record_head_def)
  ultimately show ?thesis
    unfolding parse_batchcode_def lexer_at_def [symmetric] by (intro record_loop_bad) (simp_all only: simple_token_fields)
qed

theorem decimal_size_refused_witness:
  "\<exists>e. printable e \<and> parse_batchcode 4096 (record_head e @ '';size:'' @ dec_of_nat 16) =
    Syntax_Error (''expected size number at position '' @ dec_of_nat (length (record_head e) + 6)) []"
proof (intro exI conjI)
  let ?e = "\<lparr>be_offset = 0x1000, be_bytes = [0x90], be_wildcard_mask = [False], be_size = 0\<rparr>"
  show printable: "printable ?e"
    by (simp add: printable_def)
  show "parse_batchcode 4096 (record_head ?e @ '';size:'' @ dec_of_nat 16) =
    Syntax_Error (''expected size number at position '' @ dec_of_nat (length (record_head ?e) + 6)) []"
    by (rule decimal_size_refused [OF printable]) simp
qed

end
