(* ===== verification/Client_Pool.thy ===== *)
theory Client_Pool
  imports Client_Ops
begin

text \<open>
  The connection pool of the frontend
  (\<^verbatim>\<open>src/frontend/src/core/client/client_pool.cpp\<close>) as a transition system. The threads are
  the one that calls the pool (the user interface, whose calls are sequential), the role thread
  the pool starts, and the connectors the role thread starts, one for each role. A step is one
  access to an atomic variable, one critical section of \<^verbatim>\<open>roles_mutex_\<close>, or one call of a
  \<^verbatim>\<open>Client\<close>; the threads interleave freely between steps. A \<^verbatim>\<open>Client\<close> is its identity and
  whether its socket is open; what the network does to it is an event. The generation counter
  is a natural number: it has 64 bits in the program and moves by one for each call of the user
  interface. \<^verbatim>\<open>pc_gen\<close> and \<^verbatim>\<open>pc_dropped\<close> are read by no definition of the program.
\<close>

section \<open>State\<close>

datatype role = Memory_Role | Scan_Role | Poll_Role

definition kRoles :: "role list" where
  "kRoles = [Memory_Role, Scan_Role, Poll_Role]"

record pool_client =
  pc_open :: bool
  pc_role :: "role option"
  pc_hello :: "hello_info option"
  pc_gen :: nat
  pc_dropped :: bool

text \<open>Where a connector is (lines 99 to 132).\<close>

datatype conn_pc =
  Conn_Idle
| Conn_Start
| Conn_Made nat
| Conn_Registered nat
| Conn_Answered nat bool
| Conn_Published nat bool
| Conn_Done

text \<open>Where the role thread is (lines 134 to 209); \<^verbatim>\<open>Role_None\<close> is a thread that is not joinable.\<close>

datatype role_pc =
  Role_None
| Role_Setup
| Role_Check
| Role_Count
| Role_Active bool
| Role_Pending
| Role_Loop
| Role_Wait
| Role_Ping "role \<Rightarrow> nat option"
| Role_Reset "role \<Rightarrow> nat option" "role \<Rightarrow> bool"
| Role_Restart "role list" "role \<Rightarrow> bool"
| Role_Restarting
| Role_Recheck
| Role_Reactive
| Role_Exited

text \<open>Where the calling thread is. \<^verbatim>\<open>cancel_all_pending_io\<close> is called from three places.\<close>

datatype cancel_caller = From_Caller | From_Invalidate | From_Disconnect

datatype ui_pc =
  Idle
| Connect_Bump hello_info
| Connect_Snapshot hello_info nat
| Connect_Cancel hello_info nat "nat list"
| Connect_Join hello_info nat
| Connect_Take hello_info nat
| Connect_Close hello_info nat "nat list"
| Connect_Spawn hello_info nat
| Cancel_Control cancel_caller
| Cancel_Snapshot cancel_caller
| Cancel_Each cancel_caller "nat list"
| Invalidate_Clear
| Replace_Close nat
| Disconnect_Active
| Disconnect_Bump
| Disconnect_Join
| Disconnect_Take
| Disconnect_Close "nat list"
| Disconnect_Control

record pool =
  p_client :: "nat \<Rightarrow> pool_client"
  p_next :: nat
  p_control :: nat
  p_slot :: "role \<Rightarrow> nat option"
  p_connecting :: "role \<Rightarrow> nat option"
  p_active :: bool
  p_pending :: bool
  p_gen :: nat
  p_rt :: role_pc
  p_rt_gen :: nat
  p_rt_expected :: hello_info
  p_conn :: "role \<Rightarrow> conn_pc"
  p_ui :: ui_pc

definition new_client :: pool_client where
  "new_client = \<lparr>pc_open = False, pc_role = None, pc_hello = None, pc_gen = 0, pc_dropped = False\<rparr>"

definition new_pool :: "hello_info \<Rightarrow> pool" where
  "new_pool h = \<lparr>p_client = (\<lambda>_. new_client), p_next = 1, p_control = 0, p_slot = (\<lambda>_. None),
     p_connecting = (\<lambda>_. None), p_active = False, p_pending = False, p_gen = 0, p_rt = Role_None, p_rt_gen = 0,
     p_rt_expected = h, p_conn = (\<lambda>_. Conn_Idle), p_ui = Idle\<rparr>"

section \<open>Helpers\<close>

definition close_client :: "nat \<Rightarrow> pool \<Rightarrow> pool" where
  "close_client c s = s\<lparr>p_client := (p_client s)(c := (p_client s c)\<lparr>pc_open := False\<rparr>)\<rparr>"

definition open_client :: "nat \<Rightarrow> pool \<Rightarrow> pool" where
  "open_client c s = s\<lparr>p_client := (p_client s)(c := (p_client s c)\<lparr>pc_open := True\<rparr>)\<rparr>"

definition is_current :: "pool \<Rightarrow> bool" where
  "is_current s \<longleftrightarrow> p_gen s = p_rt_gen s"

definition compatible :: "hello_info \<Rightarrow> hello_info \<Rightarrow> bool" where
  "compatible hello expected_hello \<longleftrightarrow>
     hi_protocol_version hello = hi_protocol_version expected_hello \<and>
     hi_feature_level hello = hi_feature_level expected_hello \<and>
     hi_platform_id hello = hi_platform_id expected_hello \<and>
     hi_capabilities hello = hi_capabilities expected_hello \<and>
     hi_version hello = hi_version expected_hello"

definition held_clients :: "(role \<Rightarrow> nat option) \<Rightarrow> nat list" where
  "held_clients f = List.map_filter f kRoles"

definition any_role :: "pool \<Rightarrow> bool" where
  "any_role s \<longleftrightarrow> p_slot s Memory_Role \<noteq> None \<or> p_slot s Scan_Role \<noteq> None \<or> p_slot s Poll_Role \<noteq> None"

definition role_lease :: "role \<Rightarrow> pool \<Rightarrow> nat option" where
  "role_lease r s =
     (let control = (if pc_open (p_client s (p_control s)) then Some (p_control s) else None)
      in case p_slot s r of None \<Rightarrow> control
         | Some c \<Rightarrow> if pc_open (p_client s c) then Some c else control)"

section \<open>A connector\<close>

text \<open>
  The argument is what \<^verbatim>\<open>connect_to\<close> and \<^verbatim>\<open>hello\<close> give: the answer, or a failure and whether it leaves
  the socket open (a failed \<^verbatim>\<open>hello\<close> may, until the connector closes the client at its end).
\<close>

datatype conn_answer = No_Hello bool | Hello hello_info

fun answer_hello :: "conn_answer \<Rightarrow> hello_info option" where
  "answer_hello (No_Hello left_open) = None"
| "answer_hello (Hello h) = Some h"

fun answer_open :: "conn_answer \<Rightarrow> bool" where
  "answer_open (No_Hello left_open) = left_open"
| "answer_open (Hello h) = True"

definition set_conn :: "role \<Rightarrow> conn_pc \<Rightarrow> pool \<Rightarrow> pool" where
  "set_conn r pc s = s\<lparr>p_conn := (p_conn s)(r := pc)\<rparr>"

definition make_role_client :: "role \<Rightarrow> pool \<Rightarrow> pool" where
  "make_role_client r s =
     set_conn r (Conn_Made (p_next s))
       (s\<lparr>p_client := (p_client s)(p_next s := new_client\<lparr>pc_role := Some r, pc_gen := p_rt_gen s\<rparr>),
          p_next := Suc (p_next s)\<rparr>)"

definition answer_client :: "nat \<Rightarrow> conn_answer \<Rightarrow> pool \<Rightarrow> pool" where
  "answer_client c answer s =
     s\<lparr>p_client := (p_client s)(c := (p_client s c)\<lparr>pc_open := answer_open answer, pc_hello := answer_hello answer\<rparr>)\<rparr>"

definition publish :: "role \<Rightarrow> nat \<Rightarrow> bool \<Rightarrow> pool \<Rightarrow> pool" where
  "publish r c ok s =
     s\<lparr>p_connecting := (if p_connecting s r = Some c then (p_connecting s)(r := None) else p_connecting s),
       p_slot := (if ok \<and> is_current s then (p_slot s)(r := Some c) else p_slot s)\<rparr>"

definition conn_step :: "role \<Rightarrow> conn_answer \<Rightarrow> pool \<Rightarrow> pool option" where
  "conn_step r answer s =
     (case p_conn s r of
        Conn_Start \<Rightarrow> Some (if is_current s then make_role_client r s else set_conn r Conn_Done s)
      | Conn_Made c \<Rightarrow>
          Some (if is_current s then set_conn r (Conn_Registered c) (s\<lparr>p_connecting := (p_connecting s)(r := Some c)\<rparr>)
                else set_conn r Conn_Done s)
      | Conn_Registered c \<Rightarrow>
          Some (set_conn r (Conn_Answered c (case answer_hello answer of None \<Rightarrow> False | Some h \<Rightarrow> compatible h (p_rt_expected s)))
            (answer_client c answer s))
      | Conn_Answered c ok \<Rightarrow> Some (set_conn r (Conn_Published c ok) (publish r c ok s))
      | Conn_Published c ok \<Rightarrow>
          Some (set_conn r Conn_Done (if \<not> ok \<or> \<not> is_current s then close_client c s else s))
      | _ \<Rightarrow> None)"

section \<open>The role thread\<close>

definition conn_idle :: "pool \<Rightarrow> bool" where
  "conn_idle s \<longleftrightarrow> list_all (\<lambda>r. p_conn s r = Conn_Idle \<or> p_conn s r = Conn_Done) kRoles"

text \<open>Lines 182 to 190: the roles whose ping failed are dropped.\<close>

definition drop_unhealthy :: "(role \<Rightarrow> nat option) \<Rightarrow> (role \<Rightarrow> bool) \<Rightarrow> pool \<Rightarrow> pool" where
  "drop_unhealthy clients healthy s =
     s\<lparr>p_client := (\<lambda>c. if \<exists>r. \<not> healthy r \<and> p_slot s r = clients r \<and> p_slot s r = Some c
                        then (p_client s c)\<lparr>pc_dropped := True\<rparr> else p_client s c),
       p_slot := (\<lambda>r. if \<not> healthy r \<and> p_slot s r = clients r then None else p_slot s r)\<rparr>"

text \<open>The argument is what the pings say, when they are made.\<close>

definition role_step :: "(role \<Rightarrow> bool) \<Rightarrow> pool \<Rightarrow> pool option" where
  "role_step alive s =
     (case p_rt s of
        Role_Setup \<Rightarrow> if conn_idle s then Some (s\<lparr>p_rt := Role_Check\<rparr>) else None
      | Role_Check \<Rightarrow> Some (s\<lparr>p_rt := (if is_current s then Role_Count else Role_Loop)\<rparr>)
      | Role_Count \<Rightarrow> Some (s\<lparr>p_rt := Role_Active (any_role s)\<rparr>)
      | Role_Active any_connected \<Rightarrow> Some (s\<lparr>p_active := any_connected, p_rt := Role_Pending\<rparr>)
      | Role_Pending \<Rightarrow> Some (s\<lparr>p_pending := False, p_rt := Role_Loop\<rparr>)
      | Role_Loop \<Rightarrow> Some (s\<lparr>p_rt := (if is_current s then Role_Wait else Role_Exited)\<rparr>)
      | Role_Wait \<Rightarrow> Some (s\<lparr>p_rt := (if is_current s then Role_Ping (p_slot s) else Role_Exited)\<rparr>)
      | Role_Ping clients \<Rightarrow> Some (s\<lparr>p_rt := Role_Reset clients (\<lambda>r. clients r = None \<or> alive r)\<rparr>)
      | Role_Reset clients healthy \<Rightarrow>
          (let s' = drop_unhealthy clients healthy s
           in Some (s'\<lparr>p_active := any_role s', p_rt := Role_Restart kRoles (\<lambda>r. p_slot s' r = None)\<rparr>))
      | Role_Restart (r # rs) reconnect \<Rightarrow>
          Some (set_conn r (if reconnect r \<and> is_current s then Conn_Start else Conn_Idle)
            (s\<lparr>p_rt := Role_Restart rs reconnect\<rparr>))
      | Role_Restart [] reconnect \<Rightarrow> Some (s\<lparr>p_rt := Role_Restarting\<rparr>)
      | Role_Restarting \<Rightarrow> if conn_idle s then Some (s\<lparr>p_rt := Role_Recheck\<rparr>) else None
      | Role_Recheck \<Rightarrow> Some (s\<lparr>p_rt := (if is_current s then Role_Reactive else Role_Loop)\<rparr>)
      | Role_Reactive \<Rightarrow> Some (s\<lparr>p_active := any_role s, p_rt := Role_Loop\<rparr>)
      | _ \<Rightarrow> None)"

section \<open>The calling thread\<close>

text \<open>
  The calls: the operations of the pool, and opening (\<^verbatim>\<open>take_fd\<close>, \<^verbatim>\<open>connect_to\<close>) and
  disconnecting the control client through \<^verbatim>\<open>control()\<close>. The argument of the replacement says
  whether the new client is connected.
\<close>

datatype pool_call =
  Connect_Roles hello_info
| Cancel_All
| Invalidate_Roles
| Replace_Control bool
| Disconnect_Pool
| Open_Control
| Close_Control

definition start_connect :: "hello_info \<Rightarrow> pool \<Rightarrow> pool" where
  "start_connect expected s = (if p_pending s then s else s\<lparr>p_pending := True, p_ui := Connect_Bump expected\<rparr>)"

definition start_invalidate :: "pool \<Rightarrow> pool" where
  "start_invalidate s = s\<lparr>p_gen := Suc (p_gen s), p_ui := Cancel_Control From_Invalidate\<rparr>"

definition start_replace :: "bool \<Rightarrow> pool \<Rightarrow> pool" where
  "start_replace up s =
     s\<lparr>p_client := (p_client s)(p_next s := new_client\<lparr>pc_open := up\<rparr>), p_next := Suc (p_next s),
       p_control := p_next s, p_ui := Replace_Close (p_control s)\<rparr>"

definition start_disconnect :: "pool \<Rightarrow> pool" where
  "start_disconnect s = s\<lparr>p_pending := False, p_ui := Disconnect_Active\<rparr>"

lemmas start_defs = start_connect_def start_invalidate_def start_replace_def start_disconnect_def

definition ui_call :: "pool_call \<Rightarrow> pool \<Rightarrow> pool option" where
  "ui_call call s =
     (if p_ui s \<noteq> Idle then None
      else case call of
        Connect_Roles expected \<Rightarrow> Some (start_connect expected s)
      | Cancel_All \<Rightarrow> Some (s\<lparr>p_ui := Cancel_Control From_Caller\<rparr>)
      | Invalidate_Roles \<Rightarrow> Some (start_invalidate s)
      | Replace_Control up \<Rightarrow> Some (start_replace up s)
      | Disconnect_Pool \<Rightarrow> Some (start_disconnect s)
      | Open_Control \<Rightarrow> Some (open_client (p_control s) s)
      | Close_Control \<Rightarrow> Some (close_client (p_control s) s))"

definition after_cancel :: "cancel_caller \<Rightarrow> ui_pc" where
  "after_cancel k = (case k of From_Caller \<Rightarrow> Idle | From_Invalidate \<Rightarrow> Invalidate_Clear | From_Disconnect \<Rightarrow> Disconnect_Join)"

definition clear_roles :: "pool \<Rightarrow> pool" where
  "clear_roles s =
     (fold close_client (held_clients (p_slot s)) s)\<lparr>p_slot := (\<lambda>_. None), p_connecting := (\<lambda>_. None),
        p_active := False, p_pending := False\<rparr>"

definition connect_step :: "pool \<Rightarrow> pool option" where
  "connect_step s =
     (case p_ui s of
        Connect_Bump e \<Rightarrow> Some (s\<lparr>p_gen := Suc (p_gen s), p_ui := Connect_Snapshot e (Suc (p_gen s))\<rparr>)
      | Connect_Snapshot e g \<Rightarrow>
          Some (s\<lparr>p_ui := Connect_Cancel e g (held_clients (p_slot s) @ held_clients (p_connecting s))\<rparr>)
      | Connect_Cancel e g (c # cs) \<Rightarrow> Some ((close_client c s)\<lparr>p_ui := Connect_Cancel e g cs\<rparr>)
      | Connect_Cancel e g [] \<Rightarrow> Some (s\<lparr>p_ui := Connect_Join e g\<rparr>)
      | Connect_Join e g \<Rightarrow>
          if p_rt s = Role_None \<or> p_rt s = Role_Exited then Some (s\<lparr>p_rt := Role_None, p_ui := Connect_Take e g\<rparr>) else None
      | Connect_Take e g \<Rightarrow>
          Some (s\<lparr>p_slot := (\<lambda>_. None), p_ui := Connect_Close e g (held_clients (p_slot s))\<rparr>)
      | Connect_Close e g (c # cs) \<Rightarrow> Some ((close_client c s)\<lparr>p_ui := Connect_Close e g cs\<rparr>)
      | Connect_Close e g [] \<Rightarrow> Some (s\<lparr>p_active := False, p_ui := Connect_Spawn e g\<rparr>)
      | Connect_Spawn e g \<Rightarrow>
          Some (s\<lparr>p_rt := Role_Setup, p_rt_gen := g, p_rt_expected := e, p_conn := (\<lambda>_. Conn_Start), p_ui := Idle\<rparr>)
      | _ \<Rightarrow> None)"

definition cancel_step :: "pool \<Rightarrow> pool option" where
  "cancel_step s =
     (case p_ui s of
        Cancel_Control k \<Rightarrow> Some ((close_client (p_control s) s)\<lparr>p_ui := Cancel_Snapshot k\<rparr>)
      | Cancel_Snapshot k \<Rightarrow>
          Some (s\<lparr>p_ui := Cancel_Each k (held_clients (p_slot s) @ held_clients (p_connecting s))\<rparr>)
      | Cancel_Each k (c # cs) \<Rightarrow> Some ((close_client c s)\<lparr>p_ui := Cancel_Each k cs\<rparr>)
      | Cancel_Each k [] \<Rightarrow> Some (s\<lparr>p_ui := after_cancel k\<rparr>)
      | _ \<Rightarrow> None)"

definition disconnect_step :: "pool \<Rightarrow> pool option" where
  "disconnect_step s =
     (case p_ui s of
        Disconnect_Active \<Rightarrow> Some (s\<lparr>p_active := False, p_ui := Disconnect_Bump\<rparr>)
      | Disconnect_Bump \<Rightarrow> Some (s\<lparr>p_gen := Suc (p_gen s), p_ui := Cancel_Control From_Disconnect\<rparr>)
      | Disconnect_Join \<Rightarrow>
          if p_rt s = Role_None \<or> p_rt s = Role_Exited then Some (s\<lparr>p_rt := Role_None, p_ui := Disconnect_Take\<rparr>) else None
      | Disconnect_Take \<Rightarrow>
          Some (s\<lparr>p_slot := (\<lambda>_. None), p_connecting := (\<lambda>_. None), p_ui := Disconnect_Close (held_clients (p_slot s))\<rparr>)
      | Disconnect_Close (c # cs) \<Rightarrow> Some ((close_client c s)\<lparr>p_ui := Disconnect_Close cs\<rparr>)
      | Disconnect_Close [] \<Rightarrow> Some (s\<lparr>p_ui := Disconnect_Control\<rparr>)
      | Disconnect_Control \<Rightarrow> Some ((close_client (p_control s) s)\<lparr>p_ui := Idle\<rparr>)
      | _ \<Rightarrow> None)"

definition ui_step :: "pool \<Rightarrow> pool option" where
  "ui_step s =
     (case p_ui s of
        Idle \<Rightarrow> None
      | Connect_Bump _ \<Rightarrow> connect_step s
      | Connect_Snapshot _ _ \<Rightarrow> connect_step s
      | Connect_Cancel _ _ _ \<Rightarrow> connect_step s
      | Connect_Join _ _ \<Rightarrow> connect_step s
      | Connect_Take _ _ \<Rightarrow> connect_step s
      | Connect_Close _ _ _ \<Rightarrow> connect_step s
      | Connect_Spawn _ _ \<Rightarrow> connect_step s
      | Cancel_Control _ \<Rightarrow> cancel_step s
      | Cancel_Snapshot _ \<Rightarrow> cancel_step s
      | Cancel_Each _ _ \<Rightarrow> cancel_step s
      | Invalidate_Clear \<Rightarrow> Some ((clear_roles s)\<lparr>p_ui := Idle\<rparr>)
      | Replace_Close c \<Rightarrow> Some ((close_client c s)\<lparr>p_ui := Idle\<rparr>)
      | Disconnect_Active \<Rightarrow> disconnect_step s
      | Disconnect_Bump \<Rightarrow> disconnect_step s
      | Disconnect_Join \<Rightarrow> disconnect_step s
      | Disconnect_Take \<Rightarrow> disconnect_step s
      | Disconnect_Close _ \<Rightarrow> disconnect_step s
      | Disconnect_Control \<Rightarrow> disconnect_step s)"

lemmas ui_step_defs = ui_step_def connect_step_def cancel_step_def disconnect_step_def

section \<open>The system\<close>

datatype pool_event =
  UI_Call pool_call
| UI_Step
| Conn_Step role conn_answer
| Role_Step "role \<Rightarrow> bool"
| Net_Loss nat

definition pool_step :: "pool_event \<Rightarrow> pool \<Rightarrow> pool option" where
  "pool_step ev s =
     (case ev of
        UI_Call call \<Rightarrow> ui_call call s
      | UI_Step \<Rightarrow> ui_step s
      | Conn_Step r answer \<Rightarrow> conn_step r answer s
      | Role_Step alive \<Rightarrow> role_step alive s
      | Net_Loss c \<Rightarrow> Some (close_client c s))"

fun pool_run :: "pool_event list \<Rightarrow> pool \<Rightarrow> pool option" where
  "pool_run [] s = Some s"
| "pool_run (ev # evs) s = Option.bind (pool_step ev s) (pool_run evs)"

inductive reachable :: "pool \<Rightarrow> bool" where
  start: "reachable (new_pool h)"
| step: "reachable s \<Longrightarrow> pool_step ev s = Some s' \<Longrightarrow> reachable s'"

lemma reachable_run: "reachable s \<Longrightarrow> pool_run evs s = Some s' \<Longrightarrow> reachable s'"
  by (induction evs arbitrary: s) (auto split: bind_splits intro: reachable.step)

end
