(* ===== verification/Client_Pool_Correct.thy ===== *)
theory Client_Pool_Correct
  imports Client_Pool
begin

text \<open>
  Properties of the connection pool under every interleaving of its threads: the invariant of
  the reachable states, what it gives to the callers, that an outdated role thread comes to an
  end, and two things the pool does not do as its comments say.
\<close>

section \<open>The invariant\<close>

text \<open>A call that has bumped the generation and has not yet emptied the role slots.\<close>

fun clearing_pc :: "ui_pc \<Rightarrow> bool" where
  "clearing_pc (Connect_Snapshot e g) = True"
| "clearing_pc (Connect_Cancel e g cs) = True"
| "clearing_pc (Connect_Join e g) = True"
| "clearing_pc (Connect_Take e g) = True"
| "clearing_pc (Cancel_Control k) = (k \<noteq> From_Caller)"
| "clearing_pc (Cancel_Snapshot k) = (k \<noteq> From_Caller)"
| "clearing_pc (Cancel_Each k cs) = (k \<noteq> From_Caller)"
| "clearing_pc Invalidate_Clear = True"
| "clearing_pc Disconnect_Join = True"
| "clearing_pc Disconnect_Take = True"
| "clearing_pc _ = False"

text \<open>A call that has joined the role thread, and one that has emptied the slots afterwards.\<close>

fun emptied_pc :: "ui_pc \<Rightarrow> bool" where
  "emptied_pc (Connect_Close e g cs) = True"
| "emptied_pc (Connect_Spawn e g) = True"
| "emptied_pc (Disconnect_Close cs) = True"
| "emptied_pc Disconnect_Control = True"
| "emptied_pc _ = False"

fun joined_pc :: "ui_pc \<Rightarrow> bool" where
  "joined_pc (Connect_Take e g) = True"
| "joined_pc Disconnect_Take = True"
| "joined_pc u = emptied_pc u"

fun disconnected_pc :: "ui_pc \<Rightarrow> bool" where
  "disconnected_pc (Disconnect_Close cs) = True"
| "disconnected_pc Disconnect_Control = True"
| "disconnected_pc _ = False"

fun closing :: "ui_pc \<Rightarrow> nat set" where
  "closing (Connect_Close e g cs) = set cs"
| "closing (Disconnect_Close cs) = set cs"
| "closing (Replace_Close c) = {c}"
| "closing _ = {}"

fun connect_pc :: "ui_pc \<Rightarrow> bool" where
  "connect_pc (Connect_Bump e) = True"
| "connect_pc (Connect_Snapshot e g) = True"
| "connect_pc (Connect_Cancel e g cs) = True"
| "connect_pc (Connect_Join e g) = True"
| "connect_pc (Connect_Take e g) = True"
| "connect_pc (Connect_Close e g cs) = True"
| "connect_pc (Connect_Spawn e g) = True"
| "connect_pc _ = False"

fun invalidate_pc :: "ui_pc \<Rightarrow> bool" where
  "invalidate_pc (Cancel_Control k) = (k = From_Invalidate)"
| "invalidate_pc (Cancel_Snapshot k) = (k = From_Invalidate)"
| "invalidate_pc (Cancel_Each k cs) = (k = From_Invalidate)"
| "invalidate_pc Invalidate_Clear = True"
| "invalidate_pc _ = False"

fun disconnect_pc :: "ui_pc \<Rightarrow> bool" where
  "disconnect_pc Disconnect_Active = True"
| "disconnect_pc Disconnect_Bump = True"
| "disconnect_pc (Cancel_Control k) = (k = From_Disconnect)"
| "disconnect_pc (Cancel_Snapshot k) = (k = From_Disconnect)"
| "disconnect_pc (Cancel_Each k cs) = (k = From_Disconnect)"
| "disconnect_pc Disconnect_Join = True"
| "disconnect_pc Disconnect_Take = True"
| "disconnect_pc u = disconnected_pc u"

fun ui_generation :: "ui_pc \<Rightarrow> nat option" where
  "ui_generation (Connect_Snapshot e g) = Some g"
| "ui_generation (Connect_Cancel e g cs) = Some g"
| "ui_generation (Connect_Join e g) = Some g"
| "ui_generation (Connect_Take e g) = Some g"
| "ui_generation (Connect_Close e g cs) = Some g"
| "ui_generation (Connect_Spawn e g) = Some g"
| "ui_generation _ = None"

fun setup_pc :: "role_pc \<Rightarrow> bool" where
  "setup_pc Role_Setup = True"
| "setup_pc Role_Check = True"
| "setup_pc Role_Count = True"
| "setup_pc (Role_Active b) = True"
| "setup_pc Role_Pending = True"
| "setup_pc _ = False"

fun connector_pc :: "role_pc \<Rightarrow> bool" where
  "connector_pc Role_Setup = True"
| "connector_pc (Role_Restart rs f) = True"
| "connector_pc Role_Restarting = True"
| "connector_pc _ = False"

fun conn_client :: "conn_pc \<Rightarrow> nat option" where
  "conn_client (Conn_Made c) = Some c"
| "conn_client (Conn_Registered c) = Some c"
| "conn_client (Conn_Answered c ok) = Some c"
| "conn_client (Conn_Published c ok) = Some c"
| "conn_client _ = None"

fun conn_ok :: "conn_pc \<Rightarrow> bool" where
  "conn_ok (Conn_Answered c ok) = ok"
| "conn_ok (Conn_Published c ok) = ok"
| "conn_ok _ = False"

fun conn_open :: "conn_pc \<Rightarrow> nat option" where
  "conn_open (Conn_Answered c ok) = Some c"
| "conn_open (Conn_Published c ok) = Some c"
| "conn_open _ = None"

fun unpublished :: "conn_pc \<Rightarrow> bool" where
  "unpublished Conn_Start = True"
| "unpublished (Conn_Made c) = True"
| "unpublished (Conn_Registered c) = True"
| "unpublished (Conn_Answered c ok) = True"
| "unpublished _ = False"

definition well_met :: "hello_info \<Rightarrow> pool_client \<Rightarrow> bool" where
  "well_met expected c \<longleftrightarrow> (\<exists>h. pc_hello c = Some h \<and> compatible h expected)"

definition thread_inv :: "pool \<Rightarrow> bool" where
  "thread_inv s \<longleftrightarrow>
     (p_rt s \<noteq> Role_None \<longrightarrow> p_rt_gen s \<le> p_gen s) \<and>
     (p_rt s \<noteq> Role_None \<longrightarrow> clearing_pc (p_ui s) \<longrightarrow> p_rt_gen s < p_gen s) \<and>
     (p_rt s = Role_Exited \<longrightarrow> p_rt_gen s < p_gen s) \<and>
     (joined_pc (p_ui s) \<longrightarrow> p_rt s = Role_None) \<and>
     (ui_generation (p_ui s) = None \<or> ui_generation (p_ui s) = Some (p_gen s)) \<and>
     p_control s < p_next s \<and> pc_role (p_client s (p_control s)) = None \<and>
     (disconnected_pc (p_ui s) \<longrightarrow> p_connecting s = (\<lambda>_. None)) \<and>
     (\<forall>rs f. p_rt s = Role_Restart rs f \<longrightarrow> distinct rs)"

definition conn_inv :: "pool \<Rightarrow> role \<Rightarrow> bool" where
  "conn_inv s r \<longleftrightarrow>
     (connector_pc (p_rt s) \<or> p_conn s r = Conn_Idle \<or> p_conn s r = Conn_Done) \<and>
     (\<forall>c. conn_client (p_conn s r) = Some c \<longrightarrow>
        c < p_next s \<and> pc_role (p_client s c) = Some r \<and> pc_gen (p_client s c) = p_rt_gen s \<and>
        (conn_ok (p_conn s r) \<longrightarrow> well_met (p_rt_expected s) (p_client s c))) \<and>
     (\<forall>c. unpublished (p_conn s r) \<longrightarrow> conn_client (p_conn s r) = Some c \<longrightarrow> p_slot s r \<noteq> Some c) \<and>
     (\<forall>c. p_conn s r = Conn_Published c True \<longrightarrow> p_rt_gen s = p_gen s \<longrightarrow> p_slot s r = Some c) \<and>
     (p_rt_gen s = p_gen s \<longrightarrow> unpublished (p_conn s r) \<longrightarrow> p_slot s r = None) \<and>
     (\<forall>rs f. p_rt s = Role_Restart rs f \<longrightarrow> p_rt_gen s = p_gen s \<longrightarrow> r \<in> set rs \<longrightarrow> f r \<longrightarrow>
        p_slot s r = None) \<and>
     (\<forall>rs f. p_rt s = Role_Restart rs f \<longrightarrow> r \<in> set rs \<longrightarrow> p_conn s r = Conn_Idle \<or> p_conn s r = Conn_Done)"

definition slot_inv :: "pool \<Rightarrow> role \<Rightarrow> bool" where
  "slot_inv s r \<longleftrightarrow>
     (\<forall>c. p_slot s r = Some c \<longrightarrow>
        c < p_next s \<and> pc_role (p_client s c) = Some r \<and> pc_gen (p_client s c) \<le> p_gen s \<and>
        (pc_gen (p_client s c) < p_gen s \<longrightarrow> clearing_pc (p_ui s)) \<and>
        (pc_gen (p_client s c) = p_gen s \<longrightarrow>
           p_rt s \<noteq> Role_None \<and> p_rt_gen s = p_gen s \<and> well_met (p_rt_expected s) (p_client s c))) \<and>
     (emptied_pc (p_ui s) \<longrightarrow> p_slot s r = None)"

text \<open>Who is responsible for closing a client.\<close>

definition accounted :: "pool \<Rightarrow> nat \<Rightarrow> bool" where
  "accounted s c \<longleftrightarrow> c < p_next s \<and>
     (c = p_control s \<or> pc_dropped (p_client s c) \<or> (\<exists>r. p_slot s r = Some c) \<or>
      (\<exists>r. conn_open (p_conn s r) = Some c) \<or> c \<in> closing (p_ui s))"

definition open_inv :: "pool \<Rightarrow> bool" where
  "open_inv s \<longleftrightarrow> (\<forall>c. pc_open (p_client s c) \<longrightarrow> accounted s c)"

definition pending_inv :: "pool \<Rightarrow> bool" where
  "pending_inv s \<longleftrightarrow>
     (p_pending s \<longrightarrow> \<not> disconnect_pc (p_ui s) \<and>
        (connect_pc (p_ui s) \<or> invalidate_pc (p_ui s) \<or> p_rt_gen s = p_gen s \<and> setup_pc (p_rt s)))"

lemmas pool_inv_defs = thread_inv_def conn_inv_def slot_inv_def open_inv_def pending_inv_def

definition pool_inv :: "pool \<Rightarrow> bool" where
  "pool_inv s \<longleftrightarrow> thread_inv s \<and> (\<forall>r. conn_inv s r) \<and> (\<forall>r. slot_inv s r) \<and> open_inv s \<and> pending_inv s"

lemma pool_invI:
  "thread_inv s \<Longrightarrow> (\<And>r. conn_inv s r) \<Longrightarrow> (\<And>r. slot_inv s r) \<Longrightarrow> open_inv s \<Longrightarrow> pending_inv s \<Longrightarrow> pool_inv s"
  by (simp add: pool_inv_def)

lemma pool_invD:
  assumes "pool_inv s"
  shows "thread_inv s" "conn_inv s r" "slot_inv s r" "open_inv s" "pending_inv s"
  using assms by (simp_all add: pool_inv_def)

lemma new_pool_inv: "pool_inv (new_pool h)"
  by (simp add: pool_inv_def pool_inv_defs new_pool_def new_client_def)

lemma open_invI: "(\<And>c. pc_open (p_client s c) \<Longrightarrow> accounted s c) \<Longrightarrow> open_inv s"
  by (simp add: open_inv_def)

lemma open_invD: "open_inv s \<Longrightarrow> pc_open (p_client s c) \<Longrightarrow> accounted s c"
  by (simp add: open_inv_def)

lemma accounted_set_conn:
  assumes "accounted s c" "conn_open (p_conn s r) \<noteq> Some c \<or> conn_open pc = Some c"
  shows "accounted (set_conn r pc s) c"
proof (cases "\<exists>q. conn_open (p_conn s q) = Some c")
  case True
  then obtain q where "conn_open (p_conn s q) = Some c" ..
  with assms show ?thesis
    by (cases "q = r") (auto simp: accounted_def set_conn_def)
qed (use assms in \<open>auto simp: accounted_def set_conn_def\<close>)

subsection \<open>The connectors keep the invariant\<close>

lemma conn_active: "pool_inv s \<Longrightarrow> p_conn s r \<noteq> Conn_Idle \<Longrightarrow> p_conn s r \<noteq> Conn_Done \<Longrightarrow> connector_pc (p_rt s) \<and> p_rt s \<noteq> Role_None"
  using pool_invD(2) [of s r] by (auto simp: conn_inv_def)

lemma make_role_client_inv:
  assumes "pool_inv s" "p_conn s r = Conn_Start" "is_current s"
  shows "pool_inv (make_role_client r s)"
proof (rule pool_invI)
  note inv = pool_invD [OF assms(1)]
  show "thread_inv (make_role_client r s)"
    using inv(1) by (auto simp: thread_inv_def make_role_client_def set_conn_def)
  show "conn_inv (make_role_client r s) q" for q
    using inv(2) [of q] inv(3) [of q] conn_active [OF assms(1), of r] assms(2,3)
    by (cases "q = r") (auto simp: conn_inv_def slot_inv_def make_role_client_def set_conn_def is_current_def)
  show "slot_inv (make_role_client r s) q" for q
    using inv(3) [of q] by (auto simp: slot_inv_def make_role_client_def set_conn_def)
  show "open_inv (make_role_client r s)"
    unfolding make_role_client_def using open_invD [OF inv(4)] assms(2)
    by (intro open_invI accounted_set_conn) (auto simp: accounted_def set_conn_def new_client_def less_Suc_eq split: if_splits)
  show "pending_inv (make_role_client r s)"
    using inv(5) by (simp add: pending_inv_def make_role_client_def set_conn_def)
qed

text \<open>A connector that moves on without touching anything else.\<close>

lemma set_conn_inv:
  assumes "pool_inv s" "conn_inv (set_conn r pc s) r"
    and "\<And>c. pc_open (p_client s c) \<Longrightarrow> conn_open (p_conn s r) = Some c \<Longrightarrow> accounted (set_conn r pc s) c"
  shows "pool_inv (set_conn r pc s)"
proof (rule pool_invI)
  note inv = pool_invD [OF assms(1)]
  show "thread_inv (set_conn r pc s)"
    using inv(1) by (auto simp: thread_inv_def set_conn_def)
  show "conn_inv (set_conn r pc s) q" for q
    using inv(2) [of q] assms(2) by (cases "q = r") (auto simp: conn_inv_def set_conn_def)
  show "slot_inv (set_conn r pc s) q" for q
    using inv(3) [of q] by (auto simp: slot_inv_def set_conn_def)
  show "open_inv (set_conn r pc s)"
  proof (rule open_invI)
    fix c
    assume "pc_open (p_client (set_conn r pc s) c)"
    then have "pc_open (p_client s c)"
      by (simp add: set_conn_def)
    then show "accounted (set_conn r pc s) c"
      using open_invD [OF inv(4)] assms(3) [of c] accounted_set_conn [of s c r pc] by blast
  qed
  show "pending_inv (set_conn r pc s)"
    using inv(5) by (simp add: pending_inv_def set_conn_def)
qed

text \<open>Closing a client.\<close>

lemma close_client_fields [simp]:
  "p_next (close_client c s) = p_next s" "p_control (close_client c s) = p_control s"
  "p_slot (close_client c s) = p_slot s" "p_connecting (close_client c s) = p_connecting s"
  "p_active (close_client c s) = p_active s" "p_pending (close_client c s) = p_pending s"
  "p_gen (close_client c s) = p_gen s" "p_rt (close_client c s) = p_rt s" "p_rt_gen (close_client c s) = p_rt_gen s"
  "p_rt_expected (close_client c s) = p_rt_expected s" "p_conn (close_client c s) = p_conn s"
  "p_ui (close_client c s) = p_ui s"
  by (simp_all add: close_client_def)

lemma close_client_client [simp]:
  "pc_role (p_client (close_client c s) d) = pc_role (p_client s d)"
  "pc_gen (p_client (close_client c s) d) = pc_gen (p_client s d)"
  "pc_dropped (p_client (close_client c s) d) = pc_dropped (p_client s d)"
  "pc_hello (p_client (close_client c s) d) = pc_hello (p_client s d)"
  "well_met e (p_client (close_client c s) d) = well_met e (p_client s d)"
  "pc_open (p_client (close_client c s) d) \<longleftrightarrow> d \<noteq> c \<and> pc_open (p_client s d)"
  by (auto simp: close_client_def well_met_def)

lemma close_client_parts [simp]:
  "thread_inv (close_client c s) = thread_inv s" "conn_inv (close_client c s) r = conn_inv s r"
  "slot_inv (close_client c s) r = slot_inv s r" "pending_inv (close_client c s) = pending_inv s"
  "accounted (close_client c s) d = accounted s d"
  unfolding thread_inv_def conn_inv_def slot_inv_def pending_inv_def accounted_def by simp_all

lemma open_client_client [simp]:
  "pc_role (p_client (open_client c s) d) = pc_role (p_client s d)"
  "pc_gen (p_client (open_client c s) d) = pc_gen (p_client s d)"
  "pc_dropped (p_client (open_client c s) d) = pc_dropped (p_client s d)"
  "well_met e (p_client (open_client c s) d) = well_met e (p_client s d)"
  "pc_open (p_client (open_client c s) d) \<longleftrightarrow> d = c \<or> pc_open (p_client s d)"
  by (auto simp: open_client_def well_met_def)

lemma open_client_parts [simp]:
  "thread_inv (open_client c s) = thread_inv s" "conn_inv (open_client c s) r = conn_inv s r"
  "slot_inv (open_client c s) r = slot_inv s r" "pending_inv (open_client c s) = pending_inv s"
  "accounted (open_client c s) d = accounted s d"
  unfolding thread_inv_def conn_inv_def slot_inv_def pending_inv_def accounted_def open_client_client
  by (simp_all add: open_client_def)

lemma close_client_inv: "pool_inv s \<Longrightarrow> pool_inv (close_client c s)"
  by (simp add: pool_inv_def open_inv_def)

text \<open>The fields no clause of the invariant reads on their own.\<close>

lemma connecting_parts [simp]:
  "conn_inv (s\<lparr>p_connecting := f\<rparr>) r = conn_inv s r" "slot_inv (s\<lparr>p_connecting := f\<rparr>) r = slot_inv s r"
  "pending_inv (s\<lparr>p_connecting := f\<rparr>) = pending_inv s" "open_inv (s\<lparr>p_connecting := f\<rparr>) = open_inv s"
  unfolding conn_inv_def slot_inv_def pending_inv_def open_inv_def accounted_def by simp_all

lemma connecting_inv:
  assumes "pool_inv s" "\<not> disconnected_pc (p_ui s)"
  shows "pool_inv (s\<lparr>p_connecting := f\<rparr>)"
  using assms by (simp add: pool_inv_def) (simp add: thread_inv_def)

lemma not_disconnected:
  assumes "pool_inv s" "p_conn s r \<noteq> Conn_Idle" "p_conn s r \<noteq> Conn_Done"
  shows "\<not> disconnected_pc (p_ui s)" "\<not> emptied_pc (p_ui s)" "\<not> joined_pc (p_ui s)"
  using conn_active [OF assms] pool_invD(1) [OF assms(1)] by (cases "p_ui s"; simp add: thread_inv_def)+

lemma register_inv:
  assumes "pool_inv s" "p_conn s r = Conn_Made c"
  shows "pool_inv (set_conn r (Conn_Registered c) (s\<lparr>p_connecting := (p_connecting s)(r := Some c)\<rparr>))"
proof (rule set_conn_inv)
  show "pool_inv (s\<lparr>p_connecting := (p_connecting s)(r := Some c)\<rparr>)"
    using connecting_inv [OF assms(1)] not_disconnected [OF assms(1), of r] assms(2) by simp
  show "conn_inv (set_conn r (Conn_Registered c) (s\<lparr>p_connecting := (p_connecting s)(r := Some c)\<rparr>)) r"
    using pool_invD(2) [OF assms(1), of r] assms(2) by (auto simp: conn_inv_def set_conn_def)
qed (use assms in simp)

lemma answer_inv:
  assumes "pool_inv s" "p_conn s r = Conn_Registered c"
  shows "pool_inv (set_conn r (Conn_Answered c (case answer_hello answer of None \<Rightarrow> False | Some h \<Rightarrow> compatible h (p_rt_expected s)))
    (answer_client c answer s))" (is "pool_inv ?s")
proof (rule pool_invI)
  note inv = pool_invD [OF assms(1)]
  have c: "c < p_next s" "pc_role (p_client s c) = Some r" "pc_gen (p_client s c) = p_rt_gen s"
    using inv(2) [of r] assms(2) by (auto simp: conn_inv_def)
  have slot: "p_slot s q \<noteq> Some c" for q
    using inv(2) [of r] inv(3) [of q] assms(2) c(2) by (cases "q = r") (auto simp: conn_inv_def slot_inv_def)
  show "thread_inv ?s"
    using inv(1) by (auto simp: thread_inv_def answer_client_def set_conn_def)
  show "conn_inv ?s q" for q
    using inv(2) [of q] inv(2) [of r] assms(2)
    by (cases "q = r") (auto simp: conn_inv_def answer_client_def set_conn_def well_met_def split: option.splits)
  show "slot_inv ?s q" for q
    using inv(3) [of q] slot [of q] by (auto simp: slot_inv_def answer_client_def set_conn_def)
  show "open_inv ?s"
  proof (rule open_invI)
    fix d
    assume d: "pc_open (p_client ?s d)"
    show "accounted ?s d"
    proof (cases "d = c")
      case True
      then show ?thesis
        using c(1) by (auto simp: accounted_def set_conn_def answer_client_def)
    next
      case False
      with d have "accounted (answer_client c answer s) d"
        using open_invD [OF inv(4), of d] by (auto simp: accounted_def set_conn_def answer_client_def)
      then show ?thesis
        by (rule accounted_set_conn) (simp add: assms(2) answer_client_def)
    qed
  qed
  show "pending_inv ?s"
    using inv(5) by (simp add: pending_inv_def answer_client_def set_conn_def)
qed

lemma publish_inv:
  assumes "pool_inv s" "p_conn s r = Conn_Answered c ok"
  shows "pool_inv (set_conn r (Conn_Published c ok) (publish r c ok s))" (is "pool_inv ?s")
proof (rule pool_invI)
  note inv = pool_invD [OF assms(1)]
  note nd = not_disconnected [OF assms(1), of r, unfolded assms(2), simplified]
  have rt: "p_rt s \<noteq> Role_None"
    using conn_active [OF assms(1), of r] assms(2) by simp
  have c: "c < p_next s" "pc_role (p_client s c) = Some r" "pc_gen (p_client s c) = p_rt_gen s"
    "ok \<longrightarrow> well_met (p_rt_expected s) (p_client s c)" "p_rt_gen s = p_gen s \<longrightarrow> p_slot s r = None"
    using inv(2) [of r] assms(2) by (auto simp: conn_inv_def)
  show "thread_inv ?s"
    using inv(1) nd by (auto simp: thread_inv_def publish_def set_conn_def)
  show "conn_inv ?s q" for q
  proof (cases "q = r")
    case True
    then show ?thesis
      using inv(2) [of r] assms(2) by (simp add: conn_inv_def publish_def set_conn_def is_current_def)
  next
    case False
    then show ?thesis
      using inv(2) [of q] by (simp add: conn_inv_def publish_def set_conn_def)
  qed
  show "slot_inv ?s q" for q
  proof (cases "q = r \<and> ok \<and> is_current s")
    case True
    then have "p_rt_gen s = p_gen s"
      by (simp add: is_current_def)
    with True show ?thesis
      using c(1-4) rt nd(2) by (simp add: slot_inv_def publish_def set_conn_def)
  next
    case False
    then have "p_slot ?s q = p_slot s q"
      by (auto simp: publish_def set_conn_def)
    then show ?thesis
      using inv(3) [of q] by (simp add: slot_inv_def publish_def set_conn_def)
  qed
  show "open_inv ?s"
  proof (intro open_invI accounted_set_conn)
    fix d
    assume "pc_open (p_client ?s d)"
    then have "accounted s d"
      using open_invD [OF inv(4), of d] by (simp add: publish_def set_conn_def)
    moreover have "p_slot (publish r c ok s) q = Some d" if "p_slot s q = Some d" for q
      using that c(5) by (auto simp: publish_def is_current_def)
    moreover have "p_next (publish r c ok s) = p_next s" "p_control (publish r c ok s) = p_control s"
      "p_client (publish r c ok s) = p_client s" "p_conn (publish r c ok s) = p_conn s" "p_ui (publish r c ok s) = p_ui s"
      by (simp_all add: publish_def)
    ultimately show "accounted (publish r c ok s) d"
      unfolding accounted_def by metis
  qed (use assms(2) in \<open>simp add: publish_def\<close>)
  show "pending_inv ?s"
    using inv(5) by (simp add: pending_inv_def publish_def set_conn_def)
qed

lemma conn_finish_inv:
  assumes "pool_inv s" "p_conn s r = Conn_Published c ok"
  shows "pool_inv (set_conn r Conn_Done (if \<not> ok \<or> \<not> is_current s then close_client c s else s))" (is "pool_inv (set_conn r Conn_Done ?s)")
proof (rule set_conn_inv)
  show inv: "pool_inv ?s"
    using assms(1) close_client_inv by simp
  show "conn_inv (set_conn r Conn_Done ?s) r"
    using pool_invD(2) [OF inv, of r] by (auto simp: conn_inv_def set_conn_def)
  show "accounted (set_conn r Conn_Done ?s) d" if "pc_open (p_client ?s d)" "conn_open (p_conn ?s r) = Some d" for d
    using that assms(2) pool_invD(2) [OF assms(1), of r] by (auto simp: conn_inv_def accounted_def set_conn_def is_current_def split: if_splits)
qed

lemma conn_step_inv:
  assumes "pool_inv s" "conn_step r answer s = Some s'"
  shows "pool_inv s'"
proof -
  have fin: "pool_inv (set_conn r Conn_Done s)" if "conn_open (p_conn s r) = None"
    by (rule set_conn_inv) (use assms(1) that pool_invD(2) [OF assms(1), of r] in \<open>auto simp: conn_inv_def set_conn_def\<close>)
  show ?thesis
  proof (cases "p_conn s r")
    case Conn_Start
    then show ?thesis
      using assms fin make_role_client_inv [OF assms(1) Conn_Start] by (auto simp: conn_step_def split: if_splits)
  next
    case (Conn_Made c)
    then show ?thesis
      using assms fin register_inv [OF assms(1) Conn_Made] by (auto simp: conn_step_def split: if_splits)
  next
    case (Conn_Registered c)
    then show ?thesis
      using assms(2) answer_inv [OF assms(1) Conn_Registered, of answer] by (simp add: conn_step_def)
  next
    case (Conn_Answered c ok)
    then show ?thesis
      using assms(2) publish_inv [OF assms(1) Conn_Answered] by (simp add: conn_step_def)
  next
    case (Conn_Published c ok)
    then show ?thesis
      using assms(2) conn_finish_inv [OF assms(1) Conn_Published] by (simp only: conn_step_def conn_pc.case option.inject)
  qed (use assms(2) in \<open>simp_all add: conn_step_def\<close>)
qed

subsection \<open>The role thread keeps the invariant\<close>

text \<open>A move of the role thread that touches no more than the two flags.\<close>

lemma role_move_inv:
  assumes "pool_inv s" "p_rt s \<noteq> Role_None" "pc \<noteq> Role_None"
    and "pc = Role_Exited \<longrightarrow> \<not> is_current s"
    and "connector_pc (p_rt s) \<longrightarrow> connector_pc pc \<or> conn_idle s"
    and "\<And>rs f. pc = Role_Restart rs f \<Longrightarrow> False"
    and "pending \<longrightarrow> p_pending s \<and> (setup_pc (p_rt s) \<longrightarrow> setup_pc pc \<or> \<not> is_current s)"
  shows "pool_inv (s\<lparr>p_active := active, p_pending := pending, p_rt := pc\<rparr>)" (is "pool_inv ?s")
proof (rule pool_invI)
  note inv = pool_invD [OF assms(1)]
  have idle: "conn_idle s \<Longrightarrow> p_conn s q = Conn_Idle \<or> p_conn s q = Conn_Done" for q
    by (cases q) (auto simp: conn_idle_def kRoles_def)
  show "thread_inv ?s"
    using inv(1) assms(2-4,6) by (auto simp: thread_inv_def is_current_def)
  show "conn_inv ?s q" for q
    using inv(2) [of q] assms(5,6) idle [of q] by (auto simp: conn_inv_def)
  show "slot_inv ?s q" for q
    using inv(3) [of q] assms(2,3) by (auto simp: slot_inv_def)
  show "open_inv ?s"
    using inv(4) by (simp add: open_inv_def accounted_def)
  show "pending_inv ?s"
    using inv(5) assms(7) by (auto simp: pending_inv_def is_current_def)
qed

lemma drop_unhealthy_parts:
  "pc_role (p_client (drop_unhealthy clients healthy s) c) = pc_role (p_client s c)"
  "pc_gen (p_client (drop_unhealthy clients healthy s) c) = pc_gen (p_client s c)"
  "pc_open (p_client (drop_unhealthy clients healthy s) c) = pc_open (p_client s c)"
  "well_met e (p_client (drop_unhealthy clients healthy s) c) = well_met e (p_client s c)"
  by (simp_all add: drop_unhealthy_def well_met_def)

lemma role_reset_inv:
  assumes "pool_inv s" "p_rt s = Role_Reset clients healthy"
  defines "t \<equiv> drop_unhealthy clients healthy s"
  shows "pool_inv (t\<lparr>p_active := active, p_rt := Role_Restart kRoles (\<lambda>r. p_slot t r = None)\<rparr>)" (is "pool_inv ?s")
proof (rule pool_invI)
  note inv = pool_invD [OF assms(1)]
  have fields: "p_next t = p_next s" "p_control t = p_control s" "p_connecting t = p_connecting s" "p_pending t = p_pending s"
    "p_gen t = p_gen s" "p_rt_gen t = p_rt_gen s" "p_rt_expected t = p_rt_expected s" "p_conn t = p_conn s" "p_ui t = p_ui s"
    by (simp_all add: t_def drop_unhealthy_def)
  have slot: "p_slot t q = Some c \<Longrightarrow> p_slot s q = Some c" for q c
    by (simp add: t_def drop_unhealthy_def split: if_splits)
  note client = drop_unhealthy_parts [where clients = clients and healthy = healthy and s = s, folded t_def]
  have idle: "p_conn s q = Conn_Idle \<or> p_conn s q = Conn_Done" for q
    using inv(2) [of q] assms(2) by (auto simp: conn_inv_def)
  show "thread_inv ?s"
    using inv(1) assms(2) by (auto simp: thread_inv_def fields client kRoles_def)
  show "conn_inv ?s q" for q
    using idle [of q] by (auto simp: conn_inv_def fields)
  show "slot_inv ?s q" for q
    using inv(3) [of q] assms(2) slot [of q] by (cases "p_slot t q") (auto simp: slot_inv_def fields client)
  show "open_inv ?s"
  proof (rule open_invI)
    fix c
    assume "pc_open (p_client ?s c)"
    then have "accounted s c"
      using open_invD [OF inv(4), of c] by (simp add: client)
    moreover have "pc_dropped (p_client s c) \<Longrightarrow> pc_dropped (p_client t c)"
      "p_slot s q = Some c \<Longrightarrow> p_slot t q = Some c \<or> pc_dropped (p_client t c)" for q
      by (auto simp: t_def drop_unhealthy_def)
    ultimately show "accounted ?s c"
      by (simp add: accounted_def fields) blast
  qed
  show "pending_inv ?s"
    using inv(5) assms(2) by (auto simp: pending_inv_def fields)
qed

lemma role_restart_inv:
  assumes "pool_inv s" "p_rt s = Role_Restart (r # rs) reconnect"
  shows "pool_inv (set_conn r (if reconnect r \<and> is_current s then Conn_Start else Conn_Idle) (s\<lparr>p_rt := Role_Restart rs reconnect\<rparr>))"
    (is "pool_inv (set_conn r ?pc ?s)")
proof (rule set_conn_inv)
  note inv = pool_invD [OF assms(1)]
  have idle: "p_conn s r = Conn_Idle \<or> p_conn s r = Conn_Done"
    using inv(2) [of r] assms(2) by (auto simp: conn_inv_def)
  show "pool_inv ?s"
  proof (rule pool_invI)
    show "thread_inv ?s"
      using inv(1) assms(2) by (auto simp: thread_inv_def)
    show "conn_inv ?s q" for q
      using inv(2) [of q] assms(2) by (auto simp: conn_inv_def)
    show "slot_inv ?s q" for q
      using inv(3) [of q] assms(2) by (auto simp: slot_inv_def)
    show "open_inv ?s"
      using inv(4) by (simp add: open_inv_def accounted_def)
    show "pending_inv ?s"
      using inv(5) assms(2) by (auto simp: pending_inv_def)
  qed
  show "conn_inv (set_conn r ?pc ?s) r"
    using inv(1) inv(2) [of r] assms(2) idle by (auto simp: conn_inv_def thread_inv_def set_conn_def is_current_def)
  show "accounted (set_conn r ?pc ?s) c" if "conn_open (p_conn ?s r) = Some c" for c
    using that idle by auto
qed

lemma role_step_inv:
  assumes "pool_inv s" "role_step alive s = Some s'"
  shows "pool_inv s'"
proof -
  have move: "pool_inv (s\<lparr>p_rt := pc\<rparr>)"
    if "p_rt s \<noteq> Role_None" "pc \<noteq> Role_None" "pc = Role_Exited \<longrightarrow> \<not> is_current s"
      "connector_pc (p_rt s) \<longrightarrow> connector_pc pc \<or> conn_idle s" "\<And>rs f. pc \<noteq> Role_Restart rs f"
      "setup_pc (p_rt s) \<longrightarrow> setup_pc pc \<or> \<not> is_current s" for pc
    using role_move_inv [OF assms(1) that(1-4), of "p_pending s" "p_active s"] that(5,6) by simp
  have move_active: "pool_inv (s\<lparr>p_active := b, p_rt := pc\<rparr>)"
    if "p_rt s \<noteq> Role_None" "\<not> connector_pc (p_rt s)" "pc = Role_Pending \<or> pc = Role_Loop \<and> \<not> setup_pc (p_rt s)" for pc b
    using role_move_inv [OF assms(1) that(1), of pc "p_pending s" b] that(2,3) by auto
  show ?thesis
  proof (cases "p_rt s")
    case Role_Pending
    then show ?thesis
      using assms role_move_inv [OF assms(1), of Role_Loop False "p_active s"] by (auto simp: role_step_def)
  next
    case (Role_Reset clients healthy)
    then show ?thesis
      using assms(2) role_reset_inv [OF assms(1) Role_Reset] by (auto simp: role_step_def Let_def)
  next
    case (Role_Restart rs reconnect)
    then show ?thesis
      using assms(2) role_restart_inv [OF assms(1)] move [of Role_Restarting] by (cases rs) (auto simp: role_step_def)
  next
    case Role_Reactive
    then show ?thesis
      using assms(2) move_active by (auto simp: role_step_def)
  next
    case (Role_Active any_connected)
    then show ?thesis
      using assms(2) move_active by (auto simp: role_step_def)
  qed (use assms(2) move in \<open>auto simp: role_step_def split: if_splits\<close>)
qed

subsection \<open>The calling thread keeps the invariant\<close>

lemma ui_move_inv:
  assumes "pool_inv s"
    and "clearing_pc u = clearing_pc (p_ui s)" "joined_pc u \<longrightarrow> joined_pc (p_ui s)"
    and "emptied_pc u \<longrightarrow> emptied_pc (p_ui s)" "disconnected_pc u \<longrightarrow> disconnected_pc (p_ui s)"
    and "ui_generation u = None \<or> ui_generation u = Some (p_gen s)"
    and "\<And>c. c \<in> closing (p_ui s) \<Longrightarrow> pc_open (p_client s c) \<Longrightarrow> c \<in> closing u \<or> c = p_control s"
    and "p_pending s \<Longrightarrow> \<not> disconnect_pc u \<and> (connect_pc u \<or> invalidate_pc u \<or> p_rt_gen s = p_gen s \<and> setup_pc (p_rt s))"
  shows "pool_inv (s\<lparr>p_ui := u\<rparr>)" (is "pool_inv ?s")
proof (rule pool_invI)
  note inv = pool_invD [OF assms(1)]
  show "thread_inv ?s"
    using inv(1) assms(2-6) by (simp add: thread_inv_def)
  show "conn_inv ?s q" for q
    using inv(2) [of q] by (simp add: conn_inv_def)
  show "slot_inv ?s q" for q
    using inv(3) [of q] assms(2,4) by (simp add: slot_inv_def)
  show "open_inv ?s"
    using open_invD [OF inv(4)] assms(7) by (intro open_invI) (fastforce simp: accounted_def)
  show "pending_inv ?s"
    using assms(8) by (simp add: pending_inv_def)
qed

lemma active_parts [simp]:
  "thread_inv (s\<lparr>p_active := b\<rparr>) = thread_inv s" "conn_inv (s\<lparr>p_active := b\<rparr>) r = conn_inv s r"
  "slot_inv (s\<lparr>p_active := b\<rparr>) r = slot_inv s r" "pending_inv (s\<lparr>p_active := b\<rparr>) = pending_inv s"
  "open_inv (s\<lparr>p_active := b\<rparr>) = open_inv s"
  unfolding thread_inv_def conn_inv_def slot_inv_def pending_inv_def open_inv_def accounted_def by simp_all

lemma active_inv: "pool_inv s \<Longrightarrow> pool_inv (s\<lparr>p_active := b\<rparr>)"
  by (simp add: pool_inv_def)

lemma bump_inv:
  assumes "pool_inv s" "clearing_pc u" "closing (p_ui s) = {}" "\<not> joined_pc u" "\<not> emptied_pc u" "\<not> disconnected_pc u"
    and "ui_generation u = None \<or> ui_generation u = Some (Suc (p_gen s))"
    and "p_pending s \<Longrightarrow> \<not> disconnect_pc u \<and> (connect_pc u \<or> invalidate_pc u)"
  shows "pool_inv (s\<lparr>p_gen := Suc (p_gen s), p_ui := u\<rparr>)" (is "pool_inv ?s")
proof (rule pool_invI)
  note inv = pool_invD [OF assms(1)]
  have old: "p_rt s \<noteq> Role_None \<longrightarrow> p_rt_gen s \<le> p_gen s"
    using inv(1) by (simp add: thread_inv_def)
  show "thread_inv ?s"
    using inv(1) assms(2-7) by (auto simp: thread_inv_def)
  show "conn_inv ?s q" for q
  proof (cases "p_conn s q = Conn_Idle \<or> p_conn s q = Conn_Done")
    case True
    then show ?thesis
      using old by (auto simp: conn_inv_def)
  next
    case False
    then have "p_rt_gen s \<le> p_gen s"
      using old conn_active [OF assms(1), of q] by blast
    then show ?thesis
      using inv(2) [of q] by (simp add: conn_inv_def)
  qed
  show "slot_inv ?s q" for q
    using inv(3) [of q] assms(2,5) by (auto simp: slot_inv_def)
  show "open_inv ?s"
    using open_invD [OF inv(4)] assms(3) by (intro open_invI) (auto simp: accounted_def)
  show "pending_inv ?s"
    using assms(8) by (auto simp: pending_inv_def)
qed

lemma join_inv:
  assumes "pool_inv s" "p_rt s = Role_None \<or> p_rt s = Role_Exited" "clearing_pc (p_ui s)" "clearing_pc u"
    and "closing (p_ui s) = {}" "\<not> emptied_pc u" "\<not> disconnected_pc u"
    and "ui_generation u = None \<or> ui_generation u = Some (p_gen s)"
    and "p_pending s \<Longrightarrow> \<not> disconnect_pc u \<and> connect_pc u"
  shows "pool_inv (s\<lparr>p_rt := Role_None, p_ui := u\<rparr>)" (is "pool_inv ?s")
proof (rule pool_invI)
  note inv = pool_invD [OF assms(1)]
  show "thread_inv ?s"
    using inv(1) assms(3,4,6-8) by (simp add: thread_inv_def)
  show "conn_inv ?s q" for q
    using inv(2) [of q] assms(2) by (auto simp: conn_inv_def)
  have "p_rt s = Role_None \<or> p_rt_gen s < p_gen s"
    using inv(1) assms(2) by (auto simp: thread_inv_def)
  then show "slot_inv ?s q" for q
    using inv(3) [of q] assms(4,6) by (auto simp: slot_inv_def)
  show "open_inv ?s"
    using open_invD [OF inv(4)] assms(5) by (intro open_invI) (auto simp: accounted_def)
  show "pending_inv ?s"
    using assms(9) by (simp add: pending_inv_def)
qed

lemma held_clients_iff: "c \<in> set (held_clients f) \<longleftrightarrow> (\<exists>r. f r = Some c)"
proof
  assume "\<exists>r. f r = Some c"
  then obtain r where "f r = Some c" ..
  then show "c \<in> set (held_clients f)"
    by (cases r) (auto simp: held_clients_def kRoles_def map_filter_simps split: option.splits)
qed (auto simp: held_clients_def kRoles_def map_filter_simps split: option.splits)

text \<open>Taking the clients out of their slots, once the role thread is gone.\<close>

lemma take_inv:
  assumes "pool_inv s" "joined_pc (p_ui s)" "closing (p_ui s) = {}"
    and "closing u = set (held_clients (p_slot s))" "emptied_pc u" "\<not> clearing_pc u"
    and "disconnected_pc u \<longrightarrow> conns = (\<lambda>_. None)" "ui_generation u = None \<or> ui_generation u = Some (p_gen s)"
    and "p_pending s \<Longrightarrow> \<not> disconnect_pc u \<and> connect_pc u"
  shows "pool_inv (s\<lparr>p_slot := (\<lambda>_. None), p_connecting := conns, p_ui := u\<rparr>)" (is "pool_inv ?s")
proof (rule pool_invI)
  note inv = pool_invD [OF assms(1)]
  have rt: "p_rt s = Role_None"
    using inv(1) assms(2) by (simp add: thread_inv_def)
  then show "thread_inv ?s"
    using inv(1) assms(7,8) by (simp add: thread_inv_def)
  show "conn_inv ?s q" for q
    using inv(2) [of q] rt by (auto simp: conn_inv_def)
  show "slot_inv ?s q" for q
    by (simp add: slot_inv_def)
  show "open_inv ?s"
    using open_invD [OF inv(4)] assms(3,4) by (intro open_invI) (auto simp: accounted_def held_clients_iff)
  show "pending_inv ?s"
    using assms(9) by (simp add: pending_inv_def)
qed

lemma spawn_inv:
  assumes "pool_inv s" "p_ui s = Connect_Spawn e g"
  shows "pool_inv (s\<lparr>p_rt := Role_Setup, p_rt_gen := g, p_rt_expected := e, p_conn := (\<lambda>_. Conn_Start), p_ui := Idle\<rparr>)"
    (is "pool_inv ?s")
proof (rule pool_invI)
  note inv = pool_invD [OF assms(1)]
  have g: "g = p_gen s" and rt: "p_rt s = Role_None"
    using inv(1) assms(2) by (simp_all add: thread_inv_def)
  have slot: "p_slot s q = None" for q
    using inv(3) [of q] assms(2) by (simp add: slot_inv_def)
  show "thread_inv ?s"
    using inv(1) g by (simp add: thread_inv_def)
  show "conn_inv ?s q" for q
    using slot by (simp add: conn_inv_def)
  show "slot_inv ?s q" for q
    using slot by (simp add: slot_inv_def)
  have "conn_open (p_conn s q) = None" for q
    using inv(2) [of q] rt by (auto simp: conn_inv_def)
  then show "open_inv ?s"
    using open_invD [OF inv(4)] assms(2) by (intro open_invI) (auto simp: accounted_def)
  show "pending_inv ?s"
    using g by (simp add: pending_inv_def)
qed

lemma fold_close_client:
  "pool_inv s \<Longrightarrow> pool_inv (fold close_client cs s)"
  "pc_open (p_client (fold close_client cs s) c) \<longleftrightarrow> c \<notin> set cs \<and> pc_open (p_client s c)"
  "p_ui (fold close_client cs s) = p_ui s" "p_slot (fold close_client cs s) = p_slot s"
  "p_control (fold close_client cs s) = p_control s" "p_gen (fold close_client cs s) = p_gen s"
  "p_rt (fold close_client cs s) = p_rt s" "p_rt_gen (fold close_client cs s) = p_rt_gen s"
  "p_conn (fold close_client cs s) = p_conn s"
  by (induction cs arbitrary: s) (auto simp: close_client_inv)

lemma clear_roles_inv:
  assumes "pool_inv s" "p_ui s = Invalidate_Clear"
  shows "pool_inv ((clear_roles s)\<lparr>p_ui := Idle\<rparr>)"
proof -
  let ?t = "fold close_client (held_clients (p_slot s)) s"
  let ?s = "(clear_roles s)\<lparr>p_ui := Idle\<rparr>"
  note inv = pool_invD [OF fold_close_client(1) [OF assms(1), of "held_clients (p_slot s)"]]
  have ui: "p_ui ?t = Invalidate_Clear"
    using assms(2) by (simp add: fold_close_client)
  have old: "p_rt ?t = Role_None \<or> p_rt_gen ?t < p_gen ?t"
    using inv(1) ui by (auto simp: thread_inv_def)
  have closed: "\<not> pc_open (p_client ?t c)" if "p_slot ?t q = Some c" for q c
    using that by (auto simp: fold_close_client held_clients_iff)
  show ?thesis
  proof (rule pool_invI)
    show "thread_inv ?s"
      using inv(1) by (auto simp: thread_inv_def clear_roles_def)
    show "conn_inv ?s q" for q
      using inv(2) [of q] old by (auto simp: conn_inv_def clear_roles_def)
    show "slot_inv ?s q" for q
      by (simp add: slot_inv_def clear_roles_def)
    show "open_inv ?s"
      using open_invD [OF inv(4)] closed ui by (intro open_invI) (auto simp: accounted_def clear_roles_def)
    show "pending_inv ?s"
      by (simp add: pending_inv_def clear_roles_def)
  qed
qed

lemma replace_inv:
  assumes "pool_inv s" "p_ui s = Idle"
  shows "pool_inv (s\<lparr>p_client := (p_client s)(p_next s := new_client\<lparr>pc_open := up\<rparr>), p_next := Suc (p_next s),
    p_control := p_next s, p_ui := Replace_Close (p_control s)\<rparr>)" (is "pool_inv ?s")
proof (rule pool_invI)
  note inv = pool_invD [OF assms(1)]
  show "thread_inv ?s"
    using inv(1) assms(2) by (simp add: thread_inv_def new_client_def)
  show "conn_inv ?s q" for q
    using inv(2) [of q] by (auto simp: conn_inv_def)
  show "slot_inv ?s q" for q
    using inv(3) [of q] assms(2) by (auto simp: slot_inv_def)
  show "open_inv ?s"
    using open_invD [OF inv(4)] assms(2) by (intro open_invI) (auto simp: accounted_def less_Suc_eq split: if_splits)
  show "pending_inv ?s"
    using inv(5) assms(2) by (simp add: pending_inv_def)
qed

lemma ui_close_inv:
  assumes "pool_inv s"
    and "clearing_pc u = clearing_pc (p_ui s)" "joined_pc u \<longrightarrow> joined_pc (p_ui s)"
    and "emptied_pc u \<longrightarrow> emptied_pc (p_ui s)" "disconnected_pc u \<longrightarrow> disconnected_pc (p_ui s)"
    and "ui_generation u = None \<or> ui_generation u = Some (p_gen s)"
    and "closing (p_ui s) \<subseteq> insert c (closing u)"
    and "p_pending s \<Longrightarrow> \<not> disconnect_pc u \<and> (connect_pc u \<or> invalidate_pc u \<or> p_rt_gen s = p_gen s \<and> setup_pc (p_rt s))"
  shows "pool_inv ((close_client c s)\<lparr>p_ui := u\<rparr>)"
  using assms by (intro ui_move_inv close_client_inv) auto

lemma pending_cases:
  assumes "pool_inv s" "p_pending s"
  shows "\<not> disconnect_pc (p_ui s)"
    and "connect_pc (p_ui s) \<or> invalidate_pc (p_ui s) \<or> p_rt_gen s = p_gen s \<and> setup_pc (p_rt s)"
  using pool_invD(5) [OF assms(1)] assms(2) by (simp_all add: pending_inv_def)

lemma ui_generation_current: "pool_inv s \<Longrightarrow> ui_generation (p_ui s) = Some g \<Longrightarrow> g = p_gen s"
  using pool_invD(1) [of s] by (auto simp: thread_inv_def)

lemma pending_move_inv:
  assumes "pool_inv s" "p_ui s = Idle" "b \<longrightarrow> connect_pc u"
    and "\<not> clearing_pc u" "\<not> joined_pc u" "\<not> emptied_pc u" "\<not> disconnected_pc u" "\<not> (b \<and> disconnect_pc u)" "ui_generation u = None"
  shows "pool_inv (s\<lparr>p_pending := b, p_ui := u\<rparr>)" (is "pool_inv ?s")
proof (rule pool_invI)
  note inv = pool_invD [OF assms(1)]
  show "thread_inv ?s"
    using inv(1) assms by (simp add: thread_inv_def)
  show "conn_inv ?s q" for q
    using inv(2) [of q] by (simp add: conn_inv_def)
  show "slot_inv ?s q" for q
    using inv(3) [of q] assms by (simp add: slot_inv_def)
  show "open_inv ?s"
    using open_invD [OF inv(4)] assms(2) by (intro open_invI) (auto simp: accounted_def)
  show "pending_inv ?s"
    using assms by (auto simp: pending_inv_def)
qed

lemma ui_call_inv:
  assumes "pool_inv s" "ui_call call s = Some s'"
  shows "pool_inv s'"
proof -
  have idle: "p_ui s = Idle"
    using assms(2) by (simp add: ui_call_def split: if_splits)
  note pend = pending_cases [OF assms(1)]
  have open_control: "pool_inv (open_client (p_control s) s)"
    using assms(1) pool_invD(1) [OF assms(1)] by (simp add: pool_inv_def open_inv_def) (simp add: accounted_def thread_inv_def)
  note pending_free = pending_move_inv [OF assms(1) idle]
  show ?thesis
  proof (cases call)
    case (Connect_Roles e)
    then show ?thesis
      using assms idle pending_free [of True "Connect_Bump e"] by (auto simp: ui_call_def start_defs split: if_splits)
  next
    case Cancel_All
    then show ?thesis
      using assms idle pend by (auto simp: ui_call_def start_defs intro!: ui_move_inv)
  next
    case Invalidate_Roles
    then show ?thesis
      using assms idle by (auto simp: ui_call_def start_defs intro!: bump_inv)
  next
    case (Replace_Control up)
    then show ?thesis
      using assms(2) idle replace_inv [OF assms(1)] by (auto simp: ui_call_def start_defs)
  next
    case Disconnect_Pool
    then show ?thesis
      using assms idle pending_free [of False Disconnect_Active] by (auto simp: ui_call_def start_defs)
  next
    case Open_Control
    then show ?thesis
      using assms(2) idle open_control by (auto simp: ui_call_def start_defs)
  next
    case Close_Control
    then show ?thesis
      using assms idle close_client_inv by (auto simp: ui_call_def start_defs)
  qed
qed

text \<open>The steps of \<^verbatim>\<open>connect_additional_roles_async\<close>, of the cancellation, and of the disconnection.\<close>

lemma connect_step_inv:
  assumes "pool_inv s" "ui_step s = Some s'" "connect_pc (p_ui s)"
  shows "pool_inv s'"
proof -
  note gen = ui_generation_current [OF assms(1)]
  show ?thesis
  proof (cases "p_ui s")
    case (Connect_Bump e)
    then show ?thesis
      using assms by (auto simp: ui_step_defs intro!: bump_inv)
  next
    case (Connect_Snapshot e g)
    then show ?thesis
      using assms gen [of g] by (auto simp: ui_step_defs intro!: ui_move_inv)
  next
    case (Connect_Cancel e g cs)
    then show ?thesis
      using assms gen [of g] by (cases cs) (auto simp: ui_step_defs intro!: ui_move_inv ui_close_inv)
  next
    case (Connect_Join e g)
    then show ?thesis
      using assms gen [of g] by (auto simp: ui_step_defs intro!: join_inv split: if_splits)
  next
    case (Connect_Take e g)
    then show ?thesis
      using assms gen [of g] take_inv [OF assms(1), of "Connect_Close e g (held_clients (p_slot s))" "p_connecting s"]
      by (auto simp: ui_step_defs)
  next
    case (Connect_Close e g cs)
    then show ?thesis
      using assms gen [of g] by (cases cs) (auto simp: ui_step_defs intro!: ui_move_inv [OF active_inv] ui_close_inv)
  next
    case (Connect_Spawn e g)
    then show ?thesis
      using assms(2) spawn_inv [OF assms(1) Connect_Spawn] by (simp add: ui_step_defs)
  qed (use assms(3) in auto)
qed

lemma disconnect_step_inv:
  assumes "pool_inv s" "ui_step s = Some s'" "p_ui s \<in> {Disconnect_Active, Disconnect_Bump, Disconnect_Join, Disconnect_Take, Disconnect_Control}"
  shows "pool_inv s'"
proof -
  have pend: "\<not> p_pending s"
    using pending_cases(1) [OF assms(1)] assms(3) by auto
  consider "p_ui s = Disconnect_Active" | "p_ui s = Disconnect_Bump" | "p_ui s = Disconnect_Join"
    | "p_ui s = Disconnect_Take" | "p_ui s = Disconnect_Control"
    using assms(3) by blast
  then show ?thesis
  proof cases
    case 1
    then show ?thesis
      using assms(1,2) pend by (auto simp: ui_step_defs intro!: ui_move_inv [OF active_inv])
  next
    case 2
    then show ?thesis
      using assms(1,2) pend by (auto simp: ui_step_defs intro!: bump_inv)
  next
    case 3
    then show ?thesis
      using assms(1,2) pend by (auto simp: ui_step_defs intro!: join_inv split: if_splits)
  next
    case 4
    then show ?thesis
      using assms(2) pend take_inv [OF assms(1), of "Disconnect_Close (held_clients (p_slot s))" "\<lambda>_. None"]
      by (auto simp: ui_step_defs)
  next
    case 5
    then show ?thesis
      using assms(1,2) pend by (auto simp: ui_step_defs intro!: ui_close_inv)
  qed
qed

lemma cancel_step_inv:
  assumes "pool_inv s" "ui_step s = Some s'" "p_ui s = Cancel_Control k \<or> p_ui s = Cancel_Snapshot k \<or> p_ui s = Cancel_Each k cs"
  shows "pool_inv s'"
  using assms(3)
proof (elim disjE)
  note pend = pending_cases [OF assms(1)]
  show "pool_inv s'" if "p_ui s = Cancel_Control k"
    using that assms(1,2) pend by (auto simp: ui_step_defs intro!: ui_close_inv)
  show "pool_inv s'" if "p_ui s = Cancel_Snapshot k"
    using that assms(1,2) pend by (auto simp: ui_step_defs intro!: ui_move_inv)
  show "pool_inv s'" if "p_ui s = Cancel_Each k cs"
    using that assms(1,2) pend by (cases cs; cases k) (auto simp: ui_step_defs after_cancel_def intro!: ui_move_inv ui_close_inv)
qed

lemma ui_step_inv:
  assumes "pool_inv s" "ui_step s = Some s'"
  shows "pool_inv s'"
proof (cases "p_ui s")
  case Invalidate_Clear
  then show ?thesis
    using assms clear_roles_inv by (auto simp: ui_step_defs)
next
  case (Disconnect_Close cs)
  then show ?thesis
    using assms pending_cases [OF assms(1)] by (cases cs) (auto simp: ui_step_defs intro!: ui_move_inv ui_close_inv)
next
  case (Replace_Close c)
  then show ?thesis
    using assms pending_cases [OF assms(1)] by (auto simp: ui_step_defs intro!: ui_close_inv)
next
  case Idle
  then show ?thesis
    using assms(2) by (simp add: ui_step_defs)
qed (use connect_step_inv [OF assms] disconnect_step_inv [OF assms] cancel_step_inv [OF assms] in auto)

lemma pool_step_inv: "pool_inv s \<Longrightarrow> pool_step ev s = Some s' \<Longrightarrow> pool_inv s'"
  by (cases ev) (auto simp: pool_step_def dest: ui_call_inv ui_step_inv conn_step_inv role_step_inv close_client_inv)

lemma reachable_inv: "reachable s \<Longrightarrow> pool_inv s"
  by (induction rule: reachable.induct) (auto intro: new_pool_inv pool_step_inv)

section \<open>Control connection\<close>

text \<open>From the cancellation of the control client on, the calls keep it closed.\<close>

fun control_closed_pc :: "ui_pc \<Rightarrow> bool" where
  "control_closed_pc (Cancel_Snapshot k) = True"
| "control_closed_pc (Cancel_Each k cs) = True"
| "control_closed_pc Invalidate_Clear = True"
| "control_closed_pc _ = False"

definition control_closed :: "pool \<Rightarrow> bool" where
  "control_closed s \<longleftrightarrow> (control_closed_pc (p_ui s) \<longrightarrow> \<not> pc_open (p_client s (p_control s)))"

lemma conn_step_control:
  assumes "pool_inv s" "conn_step r answer s = Some s'" "\<not> pc_open (p_client s (p_control s))"
  shows "\<not> pc_open (p_client s' (p_control s'))"
proof -
  have "p_control s < p_next s" "pc_role (p_client s (p_control s)) = None"
    using pool_invD(1) [OF assms(1)] by (simp_all add: thread_inv_def)
  moreover have "pc_role (p_client s c) = Some r" if "conn_client (p_conn s r) = Some c" for c
    using that pool_invD(2) [OF assms(1), of r] by (simp add: conn_inv_def)
  ultimately show ?thesis
    using assms(2,3)
    by (cases "p_conn s r") (auto simp: conn_step_def make_role_client_def set_conn_def answer_client_def publish_def split: if_splits)
qed

lemma conn_step_frame:
  "conn_step r answer s = Some s' \<Longrightarrow> p_control s' = p_control s \<and> p_ui s' = p_ui s \<and> p_gen s' = p_gen s \<and> p_rt s' = p_rt s \<and> p_rt_gen s' = p_rt_gen s"
  by (auto simp: conn_step_def make_role_client_def set_conn_def answer_client_def publish_def split: conn_pc.splits if_splits)

lemma role_step_frame:
  "role_step alive s = Some s' \<Longrightarrow> p_control s' = p_control s \<and> p_ui s' = p_ui s \<and> p_gen s' = p_gen s \<and> p_rt_gen s' = p_rt_gen s \<and>
     (\<forall>c. pc_open (p_client s' c) = pc_open (p_client s c))"
  by (auto simp: role_step_def Let_def drop_unhealthy_def set_conn_def split: role_pc.splits list.splits if_splits)

lemma ui_step_control:
  assumes "ui_step s = Some s'" "control_closed s"
  shows "control_closed s'"
  using assms by (auto simp: ui_step_defs control_closed_def after_cancel_def split: ui_pc.splits list.splits cancel_caller.splits if_splits)

lemma reachable_control: "reachable s \<Longrightarrow> control_closed s"
proof (induction rule: reachable.induct)
  case (start h)
  then show ?case
    by (simp add: control_closed_def new_pool_def)
next
  case (step s ev s')
  note inv = reachable_inv [OF step.hyps(1)]
  show ?case
  proof (cases ev)
    case (UI_Call call)
    then have "p_ui s = Idle" "ui_call call s = Some s'"
      using step.hyps(2) by (auto simp: pool_step_def ui_call_def start_defs split: if_splits)
    then show ?thesis
      by (auto simp: ui_call_def start_defs control_closed_def open_client_def split: pool_call.splits if_splits)
  next
    case UI_Step
    then show ?thesis
      using step ui_step_control by (simp add: pool_step_def)
  next
    case (Conn_Step r answer)
    then show ?thesis
      using step conn_step_control [OF inv, of r answer s'] conn_step_frame [of r answer s s']
      by (auto simp: pool_step_def control_closed_def)
  next
    case (Role_Step alive)
    then show ?thesis
      using step role_step_frame [of alive s s'] by (auto simp: pool_step_def control_closed_def)
  next
    case (Net_Loss c)
    then show ?thesis
      using step by (auto simp: pool_step_def control_closed_def)
  qed
qed

section \<open>Executions\<close>

text \<open>
  A call that connects the roles of a new pool, the three connectors, of which the one for the
  memory role gets the expected answer and the others none, and the role thread up to the store
  to \<^verbatim>\<open>roles_active_\<close>.
\<close>

definition sample_hello :: hello_info where
  "sample_hello = \<lparr>hi_protocol_version = 1, hi_feature_level = 1, hi_platform_id = 5, hi_capabilities = 0, hi_debug_port = 9020,
     hi_udp_log_port = 9022, hi_version = ''1.0'', hi_name = ''ps5'', hi_daemon_instance_id = 7, hi_daemon_start_monotonic_ns = 0\<rparr>"

definition connect_trace :: "pool_event list" where
  "connect_trace = UI_Call Open_Control # UI_Call (Connect_Roles sample_hello) # replicate 7 UI_Step"

definition connectors_trace :: "pool_event list" where
  "connectors_trace = concat (map (\<lambda>(r, a). replicate 5 (Conn_Step r a))
     [(Memory_Role, Hello sample_hello), (Scan_Role, No_Hello True), (Poll_Role, No_Hello False)])"

definition setup_trace :: "pool_event list" where
  "setup_trace = connect_trace @ connectors_trace @ replicate 3 (Role_Step (\<lambda>_. True))"

lemma pool_run_append: "pool_run (es @ fs) s = Option.bind (pool_run es s) (pool_run fs)"
  by (induction es arbitrary: s) (auto split: bind_splits)

definition connected_pool :: pool where
  "connected_pool = (new_pool sample_hello)
     \<lparr>p_client := (\<lambda>_. new_client)(0 := new_client\<lparr>pc_open := True\<rparr>), p_pending := True, p_gen := 1, p_rt := Role_Setup,
      p_rt_gen := 1, p_conn := (\<lambda>_. Conn_Start)\<rparr>"

lemmas pool_eval = pool_step_def ui_call_def start_defs ui_step_defs conn_step_def role_step_def new_pool_def new_client_def
  close_client_def open_client_def set_conn_def make_role_client_def answer_client_def publish_def is_current_def
  compatible_def held_clients_def kRoles_def map_filter_simps any_role_def conn_idle_def after_cancel_def Let_def numeral_eq_Suc

lemma run_connect_trace: "pool_run connect_trace (new_pool sample_hello) = Some connected_pool"
  by (simp add: connect_trace_def connected_pool_def pool_eval)

definition ready_pool :: pool where
  "ready_pool = connected_pool
     \<lparr>p_client := (\<lambda>_. new_client)
        (0 := new_client\<lparr>pc_open := True\<rparr>,
         1 := new_client\<lparr>pc_open := True, pc_role := Some Memory_Role, pc_hello := Some sample_hello, pc_gen := 1\<rparr>,
         2 := new_client\<lparr>pc_role := Some Scan_Role, pc_gen := 1\<rparr>,
         3 := new_client\<lparr>pc_role := Some Poll_Role, pc_gen := 1\<rparr>),
      p_next := 4, p_slot := (\<lambda>_. None)(Memory_Role := Some 1), p_conn := (\<lambda>_. Conn_Done), p_rt := Role_Active True\<rparr>"

lemma run_connectors: "pool_run (connectors_trace @ replicate 3 (Role_Step (\<lambda>_. True))) connected_pool = Some ready_pool"
  by (auto simp: connectors_trace_def connected_pool_def ready_pool_def pool_eval fun_eq_iff) (metis role.exhaust)

lemma ready_reachable: "reachable ready_pool"
  using reachable_run [OF reachable.start, of setup_trace sample_hello ready_pool] run_connect_trace run_connectors
  by (simp add: setup_trace_def pool_run_append)

text \<open>The pool is disconnected while the role thread is about to store \<^verbatim>\<open>roles_active_\<close>.\<close>

definition disconnect_trace :: "pool_event list" where
  "disconnect_trace = UI_Call Disconnect_Pool # replicate 6 UI_Step @ replicate 3 (Role_Step (\<lambda>_. True)) @ replicate 4 UI_Step"

lemma run_disconnect_trace:
  "\<exists>s. pool_run disconnect_trace ready_pool = Some s \<and> p_ui s = Disconnect_Control \<and> p_active s"
  by (simp add: disconnect_trace_def ready_pool_def connected_pool_def pool_eval)

section \<open>Properties\<close>

text \<open>
  C32. Between the calls of the user interface, whatever the role thread and its connectors have
  done in the meantime, a client in a role slot was connected for that role by the setup of the
  current generation, whose thread is still running, and has answered with the hello the last
  connection expects; no client of an earlier generation is left or comes back.
\<close>

theorem pool_roles_current:
  assumes "reachable s" "p_ui s = Idle" "p_slot s r = Some c"
  shows "pc_role (p_client s c) = Some r \<and> pc_gen (p_client s c) = p_gen s \<and> p_rt_gen s = p_gen s \<and>
    p_rt s \<noteq> Role_None \<and> p_rt s \<noteq> Role_Exited \<and>
    (\<exists>h. pc_hello (p_client s c) = Some h \<and> compatible h (p_rt_expected s))"
proof -
  note inv = pool_invD [OF reachable_inv [OF assms(1)]]
  have slot: "pc_role (p_client s c) = Some r" "pc_gen (p_client s c) = p_gen s" "p_rt s \<noteq> Role_None"
    "p_rt_gen s = p_gen s" "well_met (p_rt_expected s) (p_client s c)"
    using inv(3) [of r] assms(2,3) by (auto simp: slot_inv_def le_less)
  then show ?thesis
    using inv(1) by (auto simp: thread_inv_def well_met_def)
qed

theorem pool_roles_current_witness:
  "reachable ready_pool \<and> p_ui ready_pool = Idle \<and> p_slot ready_pool Memory_Role = Some 1 \<and>
   pc_gen (p_client ready_pool 1) = p_gen ready_pool"
  using pool_roles_current [OF ready_reachable, of Memory_Role 1] ready_reachable
  by (simp add: ready_pool_def connected_pool_def new_pool_def)

text \<open>
  When \<^verbatim>\<open>disconnect\<close> returns, the role thread has been joined, no role slot and no
  connection attempt is left, and every client the pool made is closed, apart from those whose
  ping failed, which the pool has given up to the holders of their leases.
\<close>

theorem pool_disconnect_quiesces:
  assumes "reachable s" "p_ui s = Disconnect_Control" "pool_step UI_Step s = Some s'"
  shows "p_ui s' = Idle \<and> p_rt s' = Role_None \<and> (\<forall>r. p_slot s' r = None \<and> p_connecting s' r = None) \<and>
    (\<forall>c. pc_open (p_client s' c) \<longrightarrow> pc_dropped (p_client s' c))"
proof -
  note inv = pool_invD [OF reachable_inv [OF assms(1)]]
  have s': "s' = (close_client (p_control s) s)\<lparr>p_ui := Idle\<rparr>"
    using assms(2,3) by (simp add: pool_step_def ui_step_defs)
  have rt: "p_rt s = Role_None" "p_connecting s = (\<lambda>_. None)"
    using inv(1) assms(2) by (simp_all add: thread_inv_def)
  have "p_slot s r = None" "conn_open (p_conn s r) = None" for r
    using inv(2) [of r] inv(3) [of r] rt(1) assms(2) by (auto simp: conn_inv_def slot_inv_def)
  then show ?thesis
    using open_invD [OF inv(4)] rt assms(2) by (auto simp: s' accounted_def)
qed

theorem pool_disconnect_quiesces_witness:
  "\<exists>s s'. reachable s \<and> p_ui s = Disconnect_Control \<and> pool_step UI_Step s = Some s' \<and> p_rt s' = Role_None \<and> p_slot s' Memory_Role = None"
proof -
  obtain s where s: "pool_run disconnect_trace ready_pool = Some s" "p_ui s = Disconnect_Control"
    using run_disconnect_trace by blast
  then have r: "reachable s"
    using reachable_run [OF ready_reachable] by blast
  obtain s' where s': "pool_step UI_Step s = Some s'"
    using s(2) by (simp add: pool_step_def ui_step_defs)
  show ?thesis
    using pool_disconnect_quiesces [OF r s(2) s'] r s(2) s' by blast
qed

text \<open>
  The flag that makes \<^verbatim>\<open>connect_additional_roles_async\<close> return at once is set between the
  calls only while the role thread of the current generation is in its setup, so it never keeps
  the pool from connecting for good.
\<close>

theorem pool_pending_live:
  assumes "reachable s" "p_ui s = Idle" "p_pending s"
  shows "p_rt_gen s = p_gen s \<and> setup_pc (p_rt s)"
  using pool_invD(5) [OF reachable_inv [OF assms(1)]] assms(2,3) by (simp add: pending_inv_def)

theorem pool_pending_live_witness: "reachable ready_pool \<and> p_pending ready_pool \<and> p_rt_gen ready_pool = p_gen ready_pool"
  using pool_pending_live [OF ready_reachable] ready_reachable by (simp add: ready_pool_def connected_pool_def new_pool_def)

text \<open>
  \<^verbatim>\<open>roles_active_\<close> can be left set: there is an execution after which the pool is
  disconnected, no thread runs and no role is connected, and \<^verbatim>\<open>has_extra_roles\<close> still answers
  that the additional roles are set up.
\<close>

theorem pool_active_left_set:
  "\<exists>s. reachable s \<and> p_ui s = Idle \<and> p_rt s = Role_None \<and> p_slot s = (\<lambda>_. None) \<and> p_active s"
proof -
  obtain s where "pool_run (disconnect_trace @ [UI_Step]) ready_pool = Some s" "p_ui s = Idle" "p_rt s = Role_None"
    "p_slot s = (\<lambda>_. None)" "p_active s"
    by (simp add: disconnect_trace_def ready_pool_def connected_pool_def pool_eval)
  then show ?thesis
    using reachable_run [OF ready_reachable] by blast
qed

text \<open>
  \<^verbatim>\<open>invalidate_roles\<close>, which is documented to leave the control connection intact, always
  returns with the control client closed, because \<^verbatim>\<open>cancel_all_pending_io\<close> closes its socket;
  after a reconnection this is the client \<^verbatim>\<open>replace_control\<close> has just put in.
\<close>

theorem pool_invalidate_closes_control:
  assumes "reachable s" "p_ui s = Invalidate_Clear" "pool_step UI_Step s = Some s'"
  shows "p_ui s' = Idle \<and> p_control s' = p_control s \<and> \<not> pc_open (p_client s' (p_control s'))"
proof -
  have "\<not> pc_open (p_client s (p_control s))"
    using reachable_control [OF assms(1)] assms(2) by (simp add: control_closed_def)
  then show ?thesis
    using assms(2,3) by (auto simp: pool_step_def ui_step_defs clear_roles_def fold_close_client)
qed

text \<open>The reconnection of \<^verbatim>\<open>connection.cpp\<close>: a connected control client is put in, then the roles are invalidated.\<close>

definition reconnect_trace :: "pool_event list" where
  "reconnect_trace = [UI_Call (Replace_Control True), UI_Step, UI_Call Invalidate_Roles, UI_Step, UI_Step, UI_Step]"

theorem pool_invalidate_closes_control_witness:
  "\<exists>s s'. pool_run reconnect_trace (new_pool sample_hello) = Some s \<and> p_ui s = Invalidate_Clear \<and>
     pool_step UI_Step s = Some s' \<and> p_ui s' = Idle \<and> \<not> pc_open (p_client s' (p_control s'))"
proof -
  obtain s where s: "pool_run reconnect_trace (new_pool sample_hello) = Some s" "p_ui s = Invalidate_Clear"
    by (simp add: reconnect_trace_def pool_eval)
  obtain s' where s': "pool_step UI_Step s = Some s'"
    using s(2) by (simp add: pool_step_def ui_step_defs)
  show ?thesis
    using pool_invalidate_closes_control [OF reachable_run [OF reachable.start s(1)] s(2) s'] s s' by blast
qed

section \<open>An outdated role thread ends\<close>

text \<open>The steps an outdated thread can still take.\<close>

fun conn_work :: "conn_pc \<Rightarrow> nat" where
  "conn_work Conn_Start = 5"
| "conn_work (Conn_Made c) = 4"
| "conn_work (Conn_Registered c) = 3"
| "conn_work (Conn_Answered c ok) = 2"
| "conn_work (Conn_Published c ok) = 1"
| "conn_work _ = 0"

fun role_work :: "role_pc \<Rightarrow> nat" where
  "role_work Role_Setup = 6"
| "role_work Role_Check = 5"
| "role_work Role_Count = 4"
| "role_work (Role_Active b) = 3"
| "role_work Role_Pending = 2"
| "role_work Role_Loop = 1"
| "role_work Role_Wait = 1"
| "role_work (Role_Ping cs) = 10"
| "role_work (Role_Reset cs hs) = 9"
| "role_work (Role_Restart rs f) = 5 + length rs"
| "role_work Role_Restarting = 4"
| "role_work Role_Recheck = 3"
| "role_work Role_Reactive = 2"
| "role_work _ = 0"

definition thread_work :: "pool \<Rightarrow> nat" where
  "thread_work s = role_work (p_rt s) + sum_list (map (\<lambda>r. conn_work (p_conn s r)) kRoles)"

fun thread_event :: "pool_event \<Rightarrow> bool" where
  "thread_event (Conn_Step r answer) = True"
| "thread_event (Role_Step alive) = True"
| "thread_event _ = False"

lemma conn_step_work:
  "conn_step r answer s = Some s' \<Longrightarrow>
   p_rt s' = p_rt s \<and> (\<forall>q. q \<noteq> r \<longrightarrow> p_conn s' q = p_conn s q) \<and> conn_work (p_conn s' r) < conn_work (p_conn s r)"
  by (auto simp: conn_step_def make_role_client_def set_conn_def answer_client_def publish_def split: conn_pc.splits if_splits)

lemma thread_work_conn:
  assumes "p_rt s' = p_rt s" "\<And>q. q \<noteq> r \<Longrightarrow> p_conn s' q = p_conn s q" "conn_work (p_conn s' r) < conn_work (p_conn s r)"
  shows "thread_work s' < thread_work s"
  using assms by (cases r) (auto simp: thread_work_def kRoles_def)

lemma role_step_work:
  assumes "pool_inv s" "role_step alive s = Some s'" "\<not> is_current s"
  shows "thread_work s' < thread_work s"
proof (cases "p_rt s")
  case (Role_Restart rs reconnect)
  then show ?thesis
  proof (cases rs)
    case (Cons r rs')
    then have "p_conn s r = Conn_Idle \<or> p_conn s r = Conn_Done"
      using pool_invD(2) [OF assms(1), of r] Role_Restart by (auto simp: conn_inv_def)
    then show ?thesis
      using assms(2,3) Role_Restart Cons by (cases r) (auto simp: role_step_def thread_work_def set_conn_def kRoles_def)
  qed (use assms(2) Role_Restart in \<open>auto simp: role_step_def thread_work_def\<close>)
qed (use assms(2,3) in \<open>auto simp: role_step_def thread_work_def Let_def drop_unhealthy_def kRoles_def split: if_splits\<close>)

lemma ui_step_work:
  assumes "ui_step s = Some s'" "p_rt s \<noteq> Role_None" "p_rt s \<noteq> Role_Exited" "pool_inv s"
  shows "p_rt s' = p_rt s \<and> p_conn s' = p_conn s \<and> p_rt_gen s' = p_rt_gen s \<and> p_gen s \<le> p_gen s'"
proof -
  have "p_ui s \<noteq> Connect_Spawn e g" for e g
    using pool_invD(1) [OF assms(4)] assms(2) by (auto simp: thread_inv_def)
  then show ?thesis
    using assms(1-3) by (auto simp: ui_step_defs clear_roles_def fold_close_client split: ui_pc.splits list.splits if_splits)
qed

lemma ui_call_work:
  "ui_call call s = Some s' \<Longrightarrow> p_rt s' = p_rt s \<and> p_conn s' = p_conn s \<and> p_rt_gen s' = p_rt_gen s \<and> p_gen s \<le> p_gen s'"
  by (auto simp: ui_call_def start_defs open_client_def split: pool_call.splits if_splits)

lemma thread_step_enabled:
  assumes "p_rt s \<noteq> Role_None" "p_rt s \<noteq> Role_Exited"
  shows "\<exists>ev s'. thread_event ev \<and> pool_step ev s = Some s'"
proof (cases "conn_idle s")
  case True
  then have "\<exists>s'. role_step (\<lambda>_. True) s = Some s'"
    using assms by (auto simp: role_step_def Let_def split: role_pc.splits list.splits)
  then show ?thesis
    by (intro exI [of _ "Role_Step (\<lambda>_. True)"]) (simp add: pool_step_def)
next
  case False
  then obtain r where "p_conn s r \<noteq> Conn_Idle" "p_conn s r \<noteq> Conn_Done"
    by (auto simp: conn_idle_def list_all_iff)
  then have "\<exists>s'. conn_step r (No_Hello False) s = Some s'"
    by (auto simp: conn_step_def split: conn_pc.splits)
  then show ?thesis
    by (intro exI [of _ "Conn_Step r (No_Hello False)"]) (simp add: pool_step_def)
qed

text \<open>
  C34. The join of an outdated role thread is bounded. Once the generation has moved on, the
  thread and its connectors are never stuck, each of their steps brings them closer to the end,
  no other step sets them back, and they take at most 25 steps in all.
\<close>

theorem pool_stale_thread_ends:
  assumes "reachable s" "p_rt s \<noteq> Role_None" "p_rt s \<noteq> Role_Exited" "p_rt_gen s < p_gen s"
  shows "thread_work s \<le> 25 \<and> (\<exists>ev s'. thread_event ev \<and> pool_step ev s = Some s') \<and>
    (\<forall>ev s'. pool_step ev s = Some s' \<longrightarrow> p_rt_gen s' < p_gen s' \<and>
       (if thread_event ev then thread_work s' < thread_work s else thread_work s' = thread_work s))"
proof (intro conjI allI impI)
  note inv = reachable_inv [OF assms(1)]
  have stale: "\<not> is_current s"
    using assms(4) by (simp add: is_current_def)
  have restart: "length rs \<le> 3" if "p_rt s = Role_Restart rs f" for rs f
  proof -
    have "distinct rs" "set rs \<subseteq> set kRoles"
      using pool_invD(1) [OF inv] that by (auto simp: thread_inv_def kRoles_def intro: role.exhaust)
    then show ?thesis
      using card_mono [of "set kRoles" "set rs"] by (simp add: distinct_card kRoles_def)
  qed
  have work: "conn_work pc \<le> 5" for pc
    by (cases pc) auto
  have "sum_list (map (\<lambda>r. conn_work (p_conn s r)) kRoles) \<le> 15"
    using work [of "p_conn s Memory_Role"] work [of "p_conn s Scan_Role"] work [of "p_conn s Poll_Role"] by (simp add: kRoles_def)
  moreover have "role_work (p_rt s) \<le> 10"
    using restart by (cases "p_rt s") auto
  ultimately show "thread_work s \<le> 25"
    by (simp add: thread_work_def)
  show "\<exists>ev s'. thread_event ev \<and> pool_step ev s = Some s'"
    using assms(2,3) by (rule thread_step_enabled)
  fix ev s'
  assume ev: "pool_step ev s = Some s'"
  show "p_rt_gen s' < p_gen s'"
    using ev assms(4) ui_call_work ui_step_work [OF _ assms(2,3) inv] conn_step_frame role_step_frame
    by (cases ev) (fastforce simp: pool_step_def)+
  show "if thread_event ev then thread_work s' < thread_work s else thread_work s' = thread_work s"
  proof (cases ev)
    case (UI_Call call)
    then show ?thesis
      using ev ui_call_work [of call s s'] by (simp add: pool_step_def thread_work_def)
  next
    case UI_Step
    then show ?thesis
      using ev ui_step_work [OF _ assms(2,3) inv, of s'] by (simp add: pool_step_def thread_work_def)
  next
    case (Conn_Step r answer)
    then show ?thesis
      using ev conn_step_work [of r answer s s'] thread_work_conn [of s' s r] by (simp add: pool_step_def)
  next
    case (Role_Step alive)
    then show ?thesis
      using ev role_step_work [OF inv _ stale, of alive s'] by (simp add: pool_step_def)
  next
    case (Net_Loss c)
    then show ?thesis
      using ev by (auto simp: pool_step_def thread_work_def)
  qed
qed

theorem pool_stale_thread_ends_witness:
  "\<exists>s. reachable s \<and> p_rt_gen s < p_gen s \<and> thread_work s \<le> 25 \<and> (\<exists>ev s'. thread_event ev \<and> pool_step ev s = Some s')"
proof -
  obtain s where s: "pool_run [UI_Call Invalidate_Roles] ready_pool = Some s" "p_rt s \<noteq> Role_None" "p_rt s \<noteq> Role_Exited" "p_rt_gen s < p_gen s"
    by (simp add: ready_pool_def connected_pool_def pool_eval)
  then show ?thesis
    using pool_stale_thread_ends [OF reachable_run [OF ready_reachable s(1)] s(2-4)] reachable_run [OF ready_reachable s(1)] by blast
qed

end
