(* ===== verification/Client_Pool_Refine.thy ===== *)
theory Client_Pool_Refine
  imports Client_Pool_Correct
begin

text \<open>
  The contract of the connection pool and that the pool implements it. To its clients the pool is
  a table of roles with a generation: one atomic step empties the whole table and begins a new
  generation, one fills an empty entry, one empties entries. The threads of the pool implement
  these steps: the generation counter is the linearization point of the renewal, although the
  slots are emptied only later.
\<close>

section \<open>The abstract table\<close>

record role_table =
  rt_generation :: nat
  rt_clients :: "role \<Rightarrow> nat option"

inductive table_step :: "role_table \<Rightarrow> role_table \<Rightarrow> bool" where
  renew: "table_step t \<lparr>rt_generation = Suc (rt_generation t), rt_clients = (\<lambda>_. None)\<rparr>"
| fill: "rt_clients t r = None \<Longrightarrow> c \<notin> ran (rt_clients t) \<Longrightarrow> table_step t (t\<lparr>rt_clients := (rt_clients t)(r := Some c)\<rparr>)"
| empty: "table_step t (t\<lparr>rt_clients := (\<lambda>r. if r \<in> R then None else rt_clients t r)\<rparr>)"

text \<open>What the pool's state stands for: the clients of the current generation.\<close>

definition current_clients :: "pool \<Rightarrow> role \<Rightarrow> nat option" where
  "current_clients s r =
     (case p_slot s r of None \<Rightarrow> None | Some c \<Rightarrow> if pc_gen (p_client s c) = p_gen s then Some c else None)"

definition table_of :: "pool \<Rightarrow> role_table" where
  "table_of s = \<lparr>rt_generation = p_gen s, rt_clients = current_clients s\<rparr>"

section \<open>Steps that the table does not see\<close>

lemma table_of_eqI:
  assumes "p_gen s' = p_gen s" "\<And>r. current_clients s' r = current_clients s r"
  shows "table_of s' = table_of s"
  using assms by (auto simp: table_of_def)

lemma table_of_frame:
  assumes "p_gen s' = p_gen s" "p_slot s' = p_slot s"
    and "\<And>r c. p_slot s r = Some c \<Longrightarrow> pc_gen (p_client s' c) = pc_gen (p_client s c)"
  shows "table_of s' = table_of s"
  using assms by (intro table_of_eqI) (auto simp: current_clients_def split: option.splits)

lemma clearing_table:
  assumes "pool_inv s" "clearing_pc (p_ui s)"
  shows "current_clients s r = None"
proof -
  note inv = pool_invD [OF assms(1)]
  show ?thesis
    using inv(1) inv(3) [of r] assms(2) by (auto simp: current_clients_def slot_inv_def thread_inv_def split: option.splits)
qed

lemma emptied_table:
  assumes "pool_inv s" "emptied_pc (p_ui s)"
  shows "p_slot s r = None"
  using pool_invD(3) [OF assms(1), of r] assms(2) by (simp add: slot_inv_def)

lemma slot_fresh: "pool_inv s \<Longrightarrow> p_slot s r = Some c \<Longrightarrow> c \<noteq> p_next s"
  using pool_invD(3) [of s r] by (auto simp: slot_inv_def)

section \<open>The connectors and the role thread\<close>

lemma publish_table:
  assumes "pool_inv s" "p_conn s r = Conn_Answered c ok"
  shows "table_of (publish r c ok s) = table_of s \<or> table_step (table_of s) (table_of (publish r c ok s))"
proof (cases "ok \<and> is_current s")
  case True
  note inv = pool_invD [OF assms(1)]
  have c: "pc_gen (p_client s c) = p_gen s" "p_slot s r = None" "pc_role (p_client s c) = Some r"
    using inv(2) [of r] assms(2) True by (auto simp: conn_inv_def is_current_def)
  have fresh: "p_slot s q \<noteq> Some c" for q
    using inv(3) [of q] c(2,3) by (cases "q = r") (auto simp: slot_inv_def)
  have eq: "table_of (publish r c ok s) = (table_of s)\<lparr>rt_clients := (rt_clients (table_of s))(r := Some c)\<rparr>"
    using True c by (auto simp: table_of_def current_clients_def publish_def fun_eq_iff split: option.splits)
  have "rt_clients (table_of s) r = None" "c \<notin> ran (rt_clients (table_of s))"
    using c(2) fresh by (auto simp: table_of_def current_clients_def ran_def split: option.splits if_splits)
  then show ?thesis
    unfolding eq by (intro disjI2 table_step.fill)
next
  case False
  then have "p_slot (publish r c ok s) = p_slot s" "p_gen (publish r c ok s) = p_gen s" "p_client (publish r c ok s) = p_client s"
    by (auto simp: publish_def)
  then show ?thesis
    by (intro disjI1 table_of_frame) simp_all
qed

lemma conn_step_table:
  assumes "pool_inv s" "conn_step r answer s = Some s'"
  shows "table_of s' = table_of s \<or> table_step (table_of s) (table_of s')"
proof (cases "p_conn s r")
  case (Conn_Answered c ok)
  then have "s' = set_conn r (Conn_Published c ok) (publish r c ok s)"
    using assms(2) by (simp add: conn_step_def)
  moreover have "table_of (set_conn r pc t) = table_of t" for pc t
    by (intro table_of_frame) (simp_all add: set_conn_def)
  ultimately show ?thesis
    using publish_table [OF assms(1) Conn_Answered] by simp
qed (use assms(2) slot_fresh [OF assms(1)] in \<open>auto simp: conn_step_def make_role_client_def answer_client_def set_conn_def
  intro!: table_of_frame split: if_splits\<close>)

lemma drop_table: "table_step (table_of s) (table_of ((drop_unhealthy clients healthy s)\<lparr>p_active := b, p_rt := pc\<rparr>))"
proof -
  let ?R = "{r. \<not> healthy r \<and> p_slot s r = clients r}"
  have "table_of ((drop_unhealthy clients healthy s)\<lparr>p_active := b, p_rt := pc\<rparr>) =
    (table_of s)\<lparr>rt_clients := (\<lambda>r. if r \<in> ?R then None else rt_clients (table_of s) r)\<rparr>"
    by (auto simp: table_of_def current_clients_def drop_unhealthy_def fun_eq_iff split: option.splits)
  then show ?thesis
    using table_step.empty [of "table_of s" ?R] by simp
qed

lemma role_step_table:
  assumes "role_step alive s = Some s'"
  shows "table_of s' = table_of s \<or> table_step (table_of s) (table_of s')"
proof (cases "p_rt s")
  case (Role_Reset clients healthy)
  then show ?thesis
    using assms drop_table by (auto simp: role_step_def Let_def)
next
  case (Role_Restart rs reconnect)
  then show ?thesis
    using assms by (cases rs) (auto simp: role_step_def set_conn_def intro!: table_of_frame)
qed (use assms in \<open>auto simp: role_step_def intro!: table_of_frame split: if_splits\<close>)

section \<open>The calling thread\<close>

lemma renew_table: "pool_inv s \<Longrightarrow> table_step (table_of s) (table_of (s\<lparr>p_gen := Suc (p_gen s), p_ui := u\<rparr>))"
proof -
  assume inv: "pool_inv s"
  have "current_clients (s\<lparr>p_gen := Suc (p_gen s), p_ui := u\<rparr>) r = None" for r
    using pool_invD(3) [OF inv, of r] by (auto simp: current_clients_def slot_inv_def split: option.splits)
  then have "table_of (s\<lparr>p_gen := Suc (p_gen s), p_ui := u\<rparr>) = \<lparr>rt_generation = Suc (rt_generation (table_of s)), rt_clients = (\<lambda>_. None)\<rparr>"
    by (auto simp: table_of_def)
  then show ?thesis
    using table_step.renew by simp
qed

lemma cleared_table:
  assumes "pool_inv s" "clearing_pc (p_ui s)" "p_gen s' = p_gen s" "p_slot s' = (\<lambda>_. None)"
  shows "table_of s' = table_of s"
  using clearing_table [OF assms(1,2)] assms(3,4) by (intro table_of_eqI) (auto simp: current_clients_def)

lemma ui_step_table:
  assumes "pool_inv s" "ui_step s = Some s'"
  shows "table_of s' = table_of s \<or> table_step (table_of s) (table_of s')"
proof -
  have renew: "table_step (table_of s) (table_of (s\<lparr>p_gen := Suc (p_gen s), p_ui := u\<rparr>))" for u
    using renew_table [OF assms(1)] .
  have clear: "p_slot (clear_roles s) = (\<lambda>_. None)" "p_gen (clear_roles s) = p_gen s"
    by (simp_all add: clear_roles_def fold_close_client)
  show ?thesis
  proof (cases "p_ui s")
    case Invalidate_Clear
    then have "table_of s' = table_of s"
      using assms clear by (intro cleared_table) (auto simp: ui_step_defs)
    then show ?thesis ..
  next
    case (Connect_Take e g)
    then have "table_of s' = table_of s"
      using assms by (intro cleared_table) (auto simp: ui_step_defs)
    then show ?thesis ..
  next
    case Disconnect_Take
    then have "table_of s' = table_of s"
      using assms by (intro cleared_table) (auto simp: ui_step_defs)
    then show ?thesis ..
  next
    case (Connect_Bump e)
    then show ?thesis
      using assms(2) renew by (auto simp: ui_step_defs)
  next
    case Disconnect_Bump
    then show ?thesis
      using assms(2) renew by (auto simp: ui_step_defs)
  qed (use assms(2) in \<open>auto simp: ui_step_defs intro!: table_of_frame split: list.splits if_splits\<close>)
qed

lemma ui_call_table:
  assumes "pool_inv s" "ui_call call s = Some s'"
  shows "table_of s' = table_of s \<or> table_step (table_of s) (table_of s')"
proof (cases call)
  case Invalidate_Roles
  then show ?thesis
    using assms(2) renew_table [OF assms(1)] by (auto simp: ui_call_def start_defs split: if_splits)
qed (use assms(2) slot_fresh [OF assms(1)] in \<open>auto simp: ui_call_def start_defs open_client_def intro!: table_of_frame split: if_splits\<close>)

text \<open>
  C33. The pool implements its contract. Every step of every thread, in every reachable state, is
  one atomic step of the table of roles or changes nothing of it, and between the calls of the
  user interface the slots hold exactly what the table says; so a renewal takes effect at once
  for all roles, and within a generation a role's client is never replaced by another without
  the role having been empty.
\<close>

theorem pool_refines_table:
  assumes "reachable s" "pool_step ev s = Some s'"
  shows "(table_of s' = table_of s \<or> table_step (table_of s) (table_of s')) \<and>
    (p_ui s = Idle \<longrightarrow> rt_clients (table_of s) = p_slot s)"
proof
  note inv = reachable_inv [OF assms(1)]
  show "table_of s' = table_of s \<or> table_step (table_of s) (table_of s')"
  proof (cases ev)
    case (Net_Loss c)
    then show ?thesis
      using assms(2) by (auto simp: pool_step_def intro!: table_of_frame)
  qed (use assms(2) ui_call_table [OF inv] ui_step_table [OF inv] conn_step_table [OF inv] role_step_table in \<open>auto simp: pool_step_def\<close>)
  show "p_ui s = Idle \<longrightarrow> rt_clients (table_of s) = p_slot s"
  proof (intro impI ext)
    fix r
    assume "p_ui s = Idle"
    then show "rt_clients (table_of s) r = p_slot s r"
      using pool_invD(3) [OF inv, of r] by (auto simp: table_of_def current_clients_def slot_inv_def split: option.splits)
  qed
qed

theorem pool_refines_table_witness:
  "\<exists>s'. pool_step (UI_Call Invalidate_Roles) ready_pool = Some s' \<and> table_step (table_of ready_pool) (table_of s')"
proof -
  obtain s' where s': "pool_step (UI_Call Invalidate_Roles) ready_pool = Some s'" "p_gen s' \<noteq> p_gen ready_pool"
    by (simp add: ready_pool_def connected_pool_def pool_eval start_defs)
  then have "table_of s' \<noteq> table_of ready_pool"
    by (auto simp: table_of_def)
  then show ?thesis
    using pool_refines_table [OF ready_reachable s'(1)] s'(1) by blast
qed

end
