(* ===== verification/Rsp_Trace.thy ===== *)
theory Rsp_Trace
  imports Rsp_Safety "HOL-Library.Sublist"
begin

text \<open>
  The trace of debugger calls is append-only: whatever a handler of
  \<^verbatim>\<open>src/tools/gdb_bridge/rsp_handler.cpp\<close> does, the calls made before it stay where they
  are. What a client did is so still visible in the trace after the clients that follow it.
\<close>

definition grows :: "backend_call list \<Rightarrow> 'b world \<Rightarrow> bool" where
  "grows cs w \<longleftrightarrow> prefix cs (w_calls w)"

lemma grows_refl [simp]: "grows (w_calls w) w"
  by (simp add: grows_def)

lemma grows_set: "grows cs w \<Longrightarrow> c \<in> set cs \<Longrightarrow> c \<in> set (w_calls w)"
  unfolding grows_def by (metis set_mono_prefix subsetD)

lemma hoare_grows_invoke: "hoare (grows cs) (invoke f c) (grows cs)"
  by (rule hoareI) (simp add: wp_invoke grows_def split: prod.split)

lemma hoare_grows_on_conn: "hoare (grows cs) (on_conn f) (grows cs)"
  by (rule hoareI) (simp add: wp_on_conn grows_def split: prod.split)

lemma hoare_grows_shutdown: "hoare (grows cs) shutdown_requested (grows cs)"
  by (rule hoareI) (simp add: wp_shutdown_requested grows_def split: list.split)

lemma hoare_grows_modify: "(\<And>w. w_calls (f w) = w_calls w) \<Longrightarrow> hoare (grows cs) (modify f) (grows cs)"
  by (rule hoare_modify) (simp add: grows_def)

lemma hoare_grows_return: "hoare (grows cs) (ret a) (grows cs)" "hoare (grows cs) (gets g) (grows cs)"
  by (simp_all add: hoare_return hoare_gets)

lemma hoare_grows_bind:
  "hoare (grows cs) m (grows cs) \<Longrightarrow> (\<And>a. hoare (grows cs) (f a) (grows cs)) \<Longrightarrow>
     hoare (grows cs) (State_Monad.bind m f) (grows cs)"
  by (rule hoare_bind)

lemmas grows_structure = hoare_structure [where P = "grows cs" for cs]

lemmas grows_rules = hoare_grows_bind hoare_grows_return hoare_grows_invoke hoare_grows_on_conn
  hoare_grows_shutdown grows_structure

lemma hoare_grows_backend:
  "hoare (grows cs) (process_list B) (grows cs)"
  "hoare (grows cs) (process_maps B p) (grows cs)"
  "hoare (grows cs) (get_process_info B p) (grows cs)"
  "hoare (grows cs) (process_kill B p) (grows cs)"
  "hoare (grows cs) (memory_read B p a n) (grows cs)"
  "hoare (grows cs) (memory_write B p a bs) (grows cs)"
  "hoare (grows cs) (debug_attach B p) (grows cs)"
  "hoare (grows cs) (debug_detach B) (grows cs)"
  "hoare (grows cs) (debug_stop B) (grows cs)"
  "hoare (grows cs) (debug_continue B) (grows cs)"
  "hoare (grows cs) (debug_step B l) (grows cs)"
  "hoare (grows cs) (debug_get_threads B) (grows cs)"
  "hoare (grows cs) (debug_get_regs B l) (grows cs)"
  "hoare (grows cs) (debug_set_regs B l r) (grows cs)"
  "hoare (grows cs) (debug_get_dbregs B l) (grows cs)"
  "hoare (grows cs) (debug_fpregs_supported B) (grows cs)"
  "hoare (grows cs) (debug_get_fpregs B l) (grows cs)"
  "hoare (grows cs) (debug_set_fpregs B l fp) (grows cs)"
  "hoare (grows cs) (debug_set_breakpoint B a k) (grows cs)"
  "hoare (grows cs) (debug_clear_breakpoint B a) (grows cs)"
  "hoare (grows cs) (debug_set_watchpoint B a m k) (grows cs)"
  "hoare (grows cs) (debug_clear_watchpoint B a) (grows cs)"
  "hoare (grows cs) (debug_get_watchpoints B) (grows cs)"
  "hoare (grows cs) (debug_poll_events B) (grows cs)"
  by (simp_all add: backend_defs process_kill_def debug_attach_def debug_detach_def
      debug_fpregs_supported_def hoare_grows_invoke hoare_grows_return)

section \<open>The helpers shared by the handlers\<close>

lemma session_helpers_grow:
  "hoare (grows cs) (refresh_threads B) (grows cs)"
  "hoare (grows cs) (refresh_memory_maps B) (grows cs)"
  "hoare (grows cs) (capture_stop_reason B lwp) (grows cs)"
  unfolding refresh_threads_def refresh_memory_maps_def capture_stop_reason_def
  by (rule grows_rules hoare_grows_backend hoare_grows_modify | simp)+

lemma enter_session_grows: "hoare (grows cs) (enter_session B) (grows cs)"
  unfolding enter_session_def
  by (rule grows_rules hoare_grows_backend session_helpers_grow hoare_grows_modify | simp split: list.split)+

lemma attach_grows:
  "hoare (grows cs) (ensure_attached B) (grows cs)"
  "hoare (grows cs) (safe_detach B) (grows cs)"
  "hoare (grows cs) (cleanup B) (grows cs)"
  unfolding ensure_attached_def safe_detach_def cleanup_def
  by (rule grows_rules hoare_grows_backend enter_session_grows hoare_grows_modify | simp add: reset_session_def)+

lemma read_chunks_grows: "hoare (grows cs) (read_chunks B addr len progress hex) (grows cs)"
proof (induction "len - progress" arbitrary: progress hex rule: less_induct)
  case less
  show ?case
  proof (cases "progress < len")
    case True
    then have "len - (progress + min (len - progress) kMemChunk) < len - progress"
      by (simp add: kMemChunk_def)
    note IH = less [OF this]
    show ?thesis
      unfolding read_chunks.simps [of B addr len progress hex] Let_def if_P [OF True]
      by (rule grows_rules hoare_grows_backend IH | simp)+
  qed (simp add: read_chunks.simps hoare_grows_return)
qed

lemma search_chunks_grows: "hoare (grows cs) (search_chunks B pattern finish cursor carry) (grows cs)"
proof (induction "unat finish - unat cursor" arbitrary: cursor carry rule: less_induct)
  case less
  show ?case
  proof (cases "cursor < finish")
    case True
    note IH = less [OF search_measure [OF True]]
    show ?thesis
      unfolding search_chunks.simps [of B pattern finish cursor carry] Let_def if_P [OF True]
      by (rule grows_rules hoare_grows_backend IH | simp)+
  qed (simp add: search_chunks.simps hoare_grows_return)
qed

lemmas helpers_grow = hoare_grows_backend session_helpers_grow attach_grows read_chunks_grows search_chunks_grows

section \<open>The handlers\<close>

lemma memory_handlers_grow:
  "hoare (grows cs) (handle_memory_read B packet) (grows cs)"
  "hoare (grows cs) (handle_memory_write B packet) (grows cs)"
  "hoare (grows cs) (handle_binary_memory_write B packet) (grows cs)"
  "hoare (grows cs) (handle_search_memory B packet) (grows cs)"
  unfolding handle_memory_read_def handle_memory_write_def handle_binary_memory_write_def
    handle_search_memory_def write_bytes_def
  by (rule grows_rules helpers_grow | simp)+

lemma register_handlers_grow:
  "hoare (grows cs) (handle_read_all_registers B) (grows cs)"
  "hoare (grows cs) (handle_write_all_registers B packet) (grows cs)"
  "hoare (grows cs) (handle_read_register B packet) (grows cs)"
  "hoare (grows cs) (handle_write_register B packet) (grows cs)"
  unfolding handle_read_all_registers_def handle_write_all_registers_def handle_read_register_def
    handle_write_register_def
  by (rule grows_rules helpers_grow | simp)+

lemma breakpoint_handler_grows: "hoare (grows cs) (handle_breakpoint B packet enable) (grows cs)"
  unfolding handle_breakpoint_def software_breakpoint_def hardware_breakpoint_def watchpoint_def
  by (rule grows_rules helpers_grow hoare_grows_modify | simp add: insert_bp_def erase_bp_def)+

lemma document_handlers_grow:
  "hoare (grows cs) (qxfer_memory_map B offset len) (grows cs)"
  "hoare (grows cs) (qxfer_threads B offset len) (grows cs)"
  "hoare (grows cs) (qxfer_libraries B offset len) (grows cs)"
  "hoare (grows cs) (qxfer_exec_file B offset len) (grows cs)"
  "hoare (grows cs) (memory_region_info B packet) (grows cs)"
  "hoare (grows cs) (thread_stop_info B packet) (grows cs)"
  "hoare (grows cs) (first_thread_info B) (grows cs)"
  "hoare (grows cs) (thread_extra_info B packet) (grows cs)"
  "hoare (grows cs) (qxfer_osdata B annex offset len) (grows cs)"
  unfolding qxfer_memory_map_def qxfer_threads_def qxfer_libraries_def qxfer_exec_file_def
    memory_region_info_def thread_stop_info_def maps_for_xfer_def
    first_thread_info_def thread_extra_info_def qxfer_osdata_def
  by (rule grows_rules helpers_grow hoare_grows_modify | simp)+

lemma handle_qxfer_grows: "handle_qxfer B packet = Some m \<Longrightarrow> hoare (grows cs) m (grows cs)"
  unfolding handle_qxfer_def by (auto split: if_splits intro!: grows_rules document_handlers_grow)

lemma handle_query_grows: "hoare (grows cs) (handle_query B packet) (grows cs)"
  unfolding handle_query_def
  by (intro hoare_if hoare_grows_return document_handlers_grow memory_handlers_grow)
    (auto intro: grows_rules handle_qxfer_grows split: option.split)

lemma wait_stop_grows: "hoare (grows cs) (wait_stop fuel B) (grows cs)"
proof (induction fuel)
  case (Suc fuel)
  show ?case
    unfolding wait_stop.simps on_stop_def on_interrupt_def
    by (rule grows_rules helpers_grow Suc hoare_grows_modify | simp)+
qed (simp add: hoare_grows_return)

lemma run_handlers_grow:
  "hoare (grows cs) (handle_continue_or_step fuel B step lwp) (grows cs)"
  "hoare (grows cs) (resume_thread fuel B step) (grows cs)"
  "hoare (grows cs) (handle_resume_packet fuel B packet step) (grows cs)"
  "hoare (grows cs) (kill_process B pid) (grows cs)"
  "hoare (grows cs) (vattach B packet) (grows cs)"
  "hoare (grows cs) (handle_v fuel B packet) (grows cs)"
  unfolding handle_continue_or_step_def resume_thread_def handle_resume_packet_def resume_at_def
    set_program_counter_def kill_process_def vattach_def handle_v_def vcont_def vkill_def
  by (rule grows_rules helpers_grow wait_stop_grows enter_session_grows hoare_grows_modify | simp)+

lemma dispatch_grows:
  "hoare (grows cs) (question_mark B) (grows cs)"
  "hoare (grows cs) (handle_H B packet) (grows cs)"
  "hoare (grows cs) (handle_D B packet) (grows cs)"
  "hoare (grows cs) (handle_k B) (grows cs)"
  "hoare (grows cs) (handle_T B packet) (grows cs)"
  unfolding question_mark_def handle_H_def handle_D_def handle_k_def handle_T_def select_thread_def
  by (rule grows_rules helpers_grow run_handlers_grow hoare_grows_modify | simp)+

lemma handle_grows: "hoare (grows cs) (handle fuel B packet) (grows cs)"
  unfolding handle_def lift_reply_def
  by (intro hoare_list hoare_if hoare_grows_bind hoare_grows_return handle_query_grows dispatch_grows
      register_handlers_grow memory_handlers_grow run_handlers_grow breakpoint_handler_grows)

lemma serve_grows: "hoare (grows cs) (serve fuel B) (grows cs)"
proof (induction fuel)
  case (Suc fuel)
  then show ?case
    unfolding serve.simps
    by (intro hoare_if hoare_grows_bind hoare_option hoare_grows_return hoare_grows_on_conn
        hoare_grows_shutdown handle_grows)
qed (simp add: hoare_grows_return)

lemma serve_client_grows: "hoare (grows cs) (serve_client fuel B pid) (grows cs)"
  unfolding serve_client_def
proof (rule hoare_grows_bind)
  show "hoare (grows cs) (modify (\<lambda>w. handler.extend (new_handler pid) (handler.more w))) (grows cs)"
    by (rule hoare_modify) (case_tac s, simp add: grows_def handler.defs new_handler_def)
qed (rule grows_rules serve_grows attach_grows)+

end
