(* ===== verification/Bridge_Main.thy ===== *)
theory Bridge_Main
  imports Rsp_Trace Client_Debug Client_Lifecycle
begin

text \<open>
  The program of the bridge (\<^verbatim>\<open>src/tools/gdb_bridge/main.cpp\<close> and \<^verbatim>\<open>RspServer\<close> of
  \<^verbatim>\<open>rsp_server.cpp\<close>): the command line, the connection to the console, the choice of the
  process, and the loop that serves one GDB client after the other over the same \<^verbatim>\<open>Client\<close>.
  The thread that pings the console while the bridge is idle uses the client under its lock and
  is left out, as are the messages on \<^verbatim>\<open>stderr\<close>.
\<close>

section \<open>The command line\<close>

record options =
  o_console_host :: string
  o_console_port :: nat
  o_listen_host :: string
  o_listen_port :: nat
  o_pid :: int
  o_process_name :: string
  o_once :: bool
  o_verbose :: bool
  o_shutdown_file :: string

definition default_options :: options where
  "default_options = \<lparr>o_console_host = ''127.0.0.1'', o_console_port = 9020, o_listen_host = ''127.0.0.1'',
     o_listen_port = 23946, o_pid = 0, o_process_name = [], o_once = False, o_verbose = False, o_shutdown_file = []\<rparr>"

text \<open>\<^verbatim>\<open>atoi\<close>: \<^const>\<open>None\<close> is a number outside the range of \<^verbatim>\<open>int\<close>, whose result is undefined.\<close>

definition dec_value :: "string \<Rightarrow> nat" where
  "dec_value ds = foldl (\<lambda>v c. v * 10 + (char_code c - 48)) 0 ds"

definition atoi :: "string \<Rightarrow> int option" where
  "atoi s =
     (let t = dropWhile isspace s;
          sign = take 1 t = ''-'' \<or> take 1 t = ''+'';
          v = int (dec_value (takeWhile isdigit (if sign then drop 1 t else t)));
          n = (if take 1 t = ''-'' then - v else v)
      in if - (2 ^ 31) \<le> n \<and> n < 2 ^ 31 then Some n else None)"

text \<open>What becomes of an argument: a value, a rejection, the help text, or undefined behaviour.\<close>

datatype 'a arg_result = Accepted 'a | Rejected | Help | Undefined_Number

primrec bind_arg :: "'a arg_result \<Rightarrow> ('a \<Rightarrow> 'b arg_result) \<Rightarrow> 'b arg_result" where
  "bind_arg (Accepted x) f = f x"
| "bind_arg Rejected f = Rejected"
| "bind_arg Help f = Help"
| "bind_arg Undefined_Number f = Undefined_Number"

definition parse_port :: "string \<Rightarrow> nat arg_result" where
  "parse_port v =
     (case atoi v of None \<Rightarrow> Undefined_Number
      | Some n \<Rightarrow> if n \<le> 0 \<or> n > 65535 then Rejected else Accepted (nat n))"

definition parse_listen :: "string \<Rightarrow> (string \<times> nat) arg_result" where
  "parse_listen v =
     (case index_of CHR '':'' (rev v) of
        None \<Rightarrow> bind_arg (parse_port v) (\<lambda>port. Accepted (''127.0.0.1'', port))
      | Some i \<Rightarrow>
          (let host = take (length v - Suc i) v
           in bind_arg (parse_port (drop (length v - i) v))
                (\<lambda>port. Accepted (if host = [] then ''127.0.0.1'' else host, port))))"

definition check_options :: "bool \<Rightarrow> options \<Rightarrow> options arg_result" where
  "check_options have_host opt =
     (if \<not> have_host then Rejected
      else if o_pid opt \<noteq> 0 \<and> o_process_name opt \<noteq> [] then Rejected
      else Accepted opt)"

text \<open>An option that takes a value (\<^verbatim>\<open>need_value\<close>).\<close>

definition value_option :: "string \<Rightarrow> string \<Rightarrow> options \<Rightarrow> options arg_result" where
  "value_option arg v opt =
     (if arg = ''--host'' then Accepted (opt\<lparr>o_console_host := v\<rparr>)
      else if arg = ''--port'' then bind_arg (parse_port v) (\<lambda>n. Accepted (opt\<lparr>o_console_port := n\<rparr>))
      else if arg = ''--listen''
      then bind_arg (parse_listen v) (\<lambda>(host, port). Accepted (opt\<lparr>o_listen_host := host, o_listen_port := port\<rparr>))
      else if arg = ''--pid''
      then (case atoi v of None \<Rightarrow> Undefined_Number | Some n \<Rightarrow> Accepted (opt\<lparr>o_pid := n\<rparr>))
      else if arg = ''--name'' then Accepted (opt\<lparr>o_process_name := v\<rparr>)
      else Accepted (opt\<lparr>o_shutdown_file := v\<rparr>))"

definition takes_value :: "string \<Rightarrow> bool" where
  "takes_value arg \<longleftrightarrow> arg \<in> {''--host'', ''--port'', ''--listen'', ''--pid'', ''--name'', ''--shutdown-file''}"

fun parse_args :: "bool \<Rightarrow> options \<Rightarrow> string list \<Rightarrow> options arg_result" where
  "parse_args have_host opt [] = check_options have_host opt"
| "parse_args have_host opt (arg # args) =
     (if arg = ''--help'' \<or> arg = ''-h'' then Help
      else if takes_value arg
      then (case args of [] \<Rightarrow> Rejected
            | v # args' \<Rightarrow>
                bind_arg (value_option arg v opt) (\<lambda>opt'. parse_args (have_host \<or> arg = ''--host'') opt' args'))
      else if arg = ''--verbose'' \<or> arg = ''-v'' then parse_args have_host (opt\<lparr>o_verbose := True\<rparr>) args
      else if arg = ''--once'' then parse_args have_host (opt\<lparr>o_once := True\<rparr>) args
      else Rejected)"

section \<open>The process\<close>

definition iequals :: "string \<Rightarrow> string \<Rightarrow> bool" where
  "iequals a b \<longleftrightarrow> length a = length b \<and> list_all2 (\<lambda>x y. tolower x = tolower y) a b"

definition name_matches :: "string \<Rightarrow> string \<Rightarrow> bool" where
  "name_matches proc_name want \<longleftrightarrow>
     iequals proc_name want \<or>
     (length proc_name > length want \<and>
      (let off = length proc_name - length want; sep = proc_name ! (off - 1)
       in (sep = CHR ''/'' \<or> sep = CHR 0x5C) \<and> iequals (drop off proc_name) want))"

definition found_pid :: "string \<Rightarrow> process_entry list \<Rightarrow> int" where
  "found_pid name procs =
     foldl (\<lambda>found p. if name_matches (pe_name p) name \<and> found = 0 then pe_pid p else found) 0 procs"

definition resolve_process_name :: "string \<Rightarrow> (client, int option) state" where
  "resolve_process_name name = do {
     r \<leftarrow> client_process_list;
     case r of None \<Rightarrow> State_Monad.return None
     | Some procs \<Rightarrow> State_Monad.return (if found_pid name procs = 0 then None else Some (found_pid name procs))
   }"

definition fpregs_supported :: "hello_info \<Rightarrow> bool" where
  "fpregs_supported hello \<longleftrightarrow> hi_platform_id hello \<noteq> 4 \<and> (hi_capabilities hello AND push_bit 28 1) \<noteq> 0"

section \<open>The listening socket\<close>

text \<open>
  The successive results of the wait for a client: nothing yet, a failing wait, a failing
  accept, or a connection. A used up list is a bridge that is still waiting.
\<close>

datatype accept_event = Accept_Nothing | Accept_Poll_Failed | Accept_Failed | Accept_Client rsp_conn

datatype accept_result = Still_Waiting | No_Client | Client_At rsp_conn "accept_event list"

fun accept_client :: "accept_event list \<Rightarrow> ('b, accept_result) bridge" where
  "accept_client evs = do {
     stop \<leftarrow> shutdown_requested;
     if stop then ret No_Client
     else (case evs of
             [] \<Rightarrow> ret Still_Waiting
           | Accept_Nothing # evs' \<Rightarrow> accept_client evs'
           | Accept_Client conn # evs' \<Rightarrow> ret (Client_At conn evs')
           | _ \<Rightarrow> ret No_Client)
   }"

declare accept_client.simps [simp del]

section \<open>The program\<close>

text \<open>
  The loop over the clients; the first argument bounds their number, the second the packets of
  each. \<^const>\<open>None\<close> is a bridge that is still running.
\<close>

fun main_loop :: "nat \<Rightarrow> nat \<Rightarrow> 'b backend \<Rightarrow> int \<Rightarrow> bool \<Rightarrow> accept_event list \<Rightarrow> ('b, int option) bridge" where
  "main_loop 0 fuel B pid once evs = ret None"
| "main_loop (Suc n) fuel B pid once evs = do {
     r \<leftarrow> accept_client evs;
     case r of
       Still_Waiting \<Rightarrow> ret None
     | No_Client \<Rightarrow> do { stop \<leftarrow> shutdown_requested; ret (Some (if stop then 0 else 1)) }
     | Client_At conn evs' \<Rightarrow> do {
         _ \<leftarrow> modify (\<lambda>w. w\<lparr>w_conn := conn\<rparr>);
         ended \<leftarrow> serve_client fuel B pid;
         if \<not> ended then ret None
         else do {
           stop \<leftarrow> shutdown_requested;
           if stop \<or> once then ret (Some 0) else main_loop n fuel B pid once evs'
         }
       }
   }"

text \<open>What the operating system and the console answer.\<close>

record main_env =
  me_startup_ok :: bool
  me_connect :: connect_env
  me_session_id :: u64
  me_listen_ok :: bool
  me_accept :: "accept_event list"
  me_shutdowns :: "bool list"

datatype exit_status = Exits int | Still_Running | Undefined_Behaviour

definition default_hello :: hello_info where
  "default_hello = \<lparr>hi_protocol_version = 0, hi_feature_level = 1, hi_platform_id = 0, hi_capabilities = 0, hi_debug_port = 0,
     hi_udp_log_port = 0, hi_version = [], hi_name = [], hi_daemon_instance_id = 0, hi_daemon_start_monotonic_ns = 0\<rparr>"

definition no_conn :: rsp_conn where
  "no_conn = \<lparr>fd_open = False, no_ack = False, rx_buf = [], rx = [], tx = [], tx_events = []\<rparr>"

definition default_client :: client where
  "default_client = \<lparr>c_fd = False, c_klog_fd = False, c_cancel_requested = False, c_klog_joinable = False,
     c_klog_running = False, c_klog_closed = False, c_klog_buf = [], c_socket_runtime_active = False,
     c_next_request_id = 1, c_last_error = [], c_compressed_maps_support = - 1, c_pipeline_buffer = [],
     c_pipeline_requests = [], c_pipeline_responses = Map.empty, c_pipeline_statuses = Map.empty,
     c_rx = [], c_tx = [], c_sent = []\<rparr>"

definition serve_clients :: "nat \<Rightarrow> nat \<Rightarrow> main_env \<Rightarrow> hello_info \<Rightarrow> int \<Rightarrow> bool \<Rightarrow> (client, int option) state" where
  "serve_clients n fuel env hello pid once = State (\<lambda>c.
     case run_state (main_loop n fuel (client_backend (fpregs_supported hello)) pid once (me_accept env))
            (fresh pid no_conn (me_shutdowns env) c) of
       (code, w) \<Rightarrow> (code, w_backend w))"

text \<open>A failure after the connection is up disconnects the client and exits.\<close>

definition give_up :: "(client, exit_status) state" where
  "give_up = do { _ \<leftarrow> disconnect; State_Monad.return (Exits 1) }"

definition run_bridge :: "nat \<Rightarrow> nat \<Rightarrow> main_env \<Rightarrow> options \<Rightarrow> hello_info \<Rightarrow> (client, exit_status) state" where
  "run_bridge n fuel env opt hello = do {
     _ \<leftarrow> client_process_list;
     pid \<leftarrow> (if o_process_name opt = [] then State_Monad.return (Some (o_pid opt)) else resolve_process_name (o_process_name opt));
     case pid of
       None \<Rightarrow> give_up
     | Some pid \<Rightarrow>
         if \<not> me_listen_ok env then give_up
         else do {
           code \<leftarrow> serve_clients n fuel env hello pid (o_once opt);
           case code of
             None \<Rightarrow> State_Monad.return Still_Running
           | Some exit_code \<Rightarrow> do { _ \<leftarrow> disconnect; State_Monad.return (Exits exit_code) }
         }
   }"

definition bridge_main :: "nat \<Rightarrow> nat \<Rightarrow> main_env \<Rightarrow> string list \<Rightarrow> (client, exit_status) state" where
  "bridge_main n fuel env args =
     (case parse_args False default_options args of
        Help \<Rightarrow> State_Monad.return (Exits 0)
      | Rejected \<Rightarrow> State_Monad.return (Exits 1)
      | Undefined_Number \<Rightarrow> State_Monad.return Undefined_Behaviour
      | Accepted opt \<Rightarrow>
          if \<not> me_startup_ok env then State_Monad.return (Exits 1)
          else do {
            connected \<leftarrow> client_connect_to (me_connect env);
            if \<not> connected then State_Monad.return (Exits 1)
            else do {
              r \<leftarrow> client_hello 0 (me_session_id env) default_hello;
              case r of None \<Rightarrow> give_up | Some hello \<Rightarrow> run_bridge n fuel env opt hello
            }
          })"

section \<open>All clients of a bridge\<close>

text \<open>Waiting for a client makes no debugger call.\<close>

definition no_session :: "'b world \<Rightarrow> bool" where
  "no_session w \<longleftrightarrow> map_option fst (session_of w) = Some None"

lemma shutdown_requested_quiet: "hoare (\<lambda>w. P (w_calls w)) shutdown_requested (\<lambda>w. P (w_calls w))"
  by (rule hoareI) (simp add: wp_shutdown_requested split: list.split)

lemma accept_client_quiet: "hoare (\<lambda>w. P (w_calls w)) (accept_client evs) (\<lambda>w. P (w_calls w))"
proof (induction evs)
  case Nil
  show ?case
    unfolding accept_client.simps [of "[]"]
    by (rule hoare_bind [OF shutdown_requested_quiet]) (simp add: hoare_return)
next
  case (Cons e evs)
  show ?case
    unfolding accept_client.simps [of "e # evs"]
    by (rule hoare_bind [OF shutdown_requested_quiet]) (simp add: hoare_return Cons.IH split: accept_event.split)
qed

lemma main_loop_grows: "hoare (grows cs) (main_loop n fuel B pid once evs) (grows cs)"
proof (induction n arbitrary: evs)
  case (Suc n)
  have acc: "hoare (grows cs) (accept_client evs) (grows cs)"
    unfolding grows_def by (rule accept_client_quiet)
  have client: "hoare (grows cs) (do { _ \<leftarrow> modify (\<lambda>w. w\<lparr>w_conn := conn\<rparr>); ended \<leftarrow> serve_client fuel B pid;
      if \<not> ended then ret None else do { stop \<leftarrow> shutdown_requested;
        if stop \<or> once then ret (Some 0) else main_loop n fuel B pid once evs' } }) (grows cs)" for conn evs'
    by (rule Suc.IH grows_rules serve_client_grows hoare_grows_modify | simp)+
  show ?case
    unfolding main_loop.simps
    by (rule hoare_grows_bind [OF acc])
      (auto simp: client intro: grows_rules split: accept_result.split)
qed (simp add: hoare_grows_return)

text \<open>The loop, from a state without a session: it ends without one unless a detach was refused.\<close>

definition left_nothing :: "int option \<Rightarrow> 'b world \<Rightarrow> bool" where
  "left_nothing code w \<longleftrightarrow> code \<noteq> None \<longrightarrow> CDetach False \<in> set (w_calls w) \<or> no_session w"

lemma refused_stays:
  assumes "CDetach False \<in> set (w_calls w)"
  shows "wp (main_loop n fuel B pid once evs) left_nothing w"
proof (rule wp_mono)
  show "wp (main_loop n fuel B pid once evs) (\<lambda>_. grows (w_calls w)) w"
    using main_loop_grows [of "w_calls w" n fuel B pid once evs] by (simp add: hoare_def)
qed (use assms in \<open>auto simp: left_nothing_def dest: grows_set\<close>)

lemma serve_client_leaves:
  assumes "no_session w"
  shows "wp (serve_client fuel B pid) (\<lambda>ended v. ended \<longrightarrow> CDetach False \<in> set (w_calls v) \<or> no_session v) w"
proof (rule wp_mono [OF serve_client_ok [OF assms [unfolded no_session_def], of fuel B pid]])
  show "ended \<longrightarrow> CDetach False \<in> set (w_calls v) \<or> no_session v"
    if "ended \<longrightarrow> session_inv v \<and> (h_attached v \<longrightarrow> last (w_calls v) = CDetach False)" for ended and v :: "'a world"
  proof (cases "w_calls v = []")
    case True
    then show ?thesis by (simp add: no_session_def session_of_def)
  next
    case False
    with that show ?thesis
      by (metis last_in_set no_session_def session_inv_cases in_session_def)
  qed
qed

lemma main_loop_leaves:
  assumes "no_session w"
  shows "wp (main_loop n fuel B pid once evs) left_nothing w"
  using assms
proof (induction n arbitrary: evs w)
  case 0
  then show ?case by (simp add: wp_return left_nothing_def)
next
  case (Suc n)
  let ?ok = "\<lambda>cs. map_option fst (session_run (None, False) cs) = Some None"
  have ns: "no_session v = ?ok (w_calls v)" for v :: "'a world"
    by (simp add: no_session_def session_of_def)
  have next_client: "wp (do { stop \<leftarrow> shutdown_requested;
        if stop \<or> once then ret (Some 0) else main_loop n fuel B pid once evs' }) left_nothing v"
    if v: "CDetach False \<in> set (w_calls v) \<or> no_session v" for evs' and v :: "'a world"
  proof (simp only: wp_bind, rule wp_mono)
    show "wp shutdown_requested (\<lambda>_ u. CDetach False \<in> set (w_calls u) \<or> ?ok (w_calls u)) v"
      using shutdown_requested_quiet [of "\<lambda>cs. CDetach False \<in> set cs \<or> ?ok cs"] v
      unfolding hoare_def ns by blast
    show "wp (if stop \<or> once then ret (Some 0) else main_loop n fuel B pid once evs') left_nothing u"
      if "CDetach False \<in> set (w_calls u) \<or> ?ok (w_calls u)" for stop and u :: "'a world"
    proof (cases "stop \<or> once")
      case True
      then show ?thesis using that by (simp add: wp_return left_nothing_def ns)
    next
      case False
      then show ?thesis
        using that Suc.IH [of u evs'] refused_stays [of u n fuel B pid once evs'] by (auto simp only: if_False ns)
    qed
  qed
  have client: "wp (do { _ \<leftarrow> modify (\<lambda>w. w\<lparr>w_conn := conn\<rparr>); ended \<leftarrow> serve_client fuel B pid;
      if \<not> ended then ret None else do { stop \<leftarrow> shutdown_requested;
        if stop \<or> once then ret (Some 0) else main_loop n fuel B pid once evs' } }) left_nothing v"
    if "no_session v" for conn evs' and v :: "'a world"
    unfolding wp_bind [of "modify _"] wp_modify wp_bind [of "serve_client _ _ _"]
  proof (rule wp_mono [OF serve_client_leaves])
    show "no_session (v\<lparr>w_conn := conn\<rparr>)" using that by (simp add: ns)
  qed (use next_client in \<open>auto simp: wp_return left_nothing_def\<close>)
  show ?case
    unfolding main_loop.simps wp_bind [of "accept_client _"]
  proof (rule wp_mono)
    show "wp (accept_client evs) (\<lambda>_ v. ?ok (w_calls v)) w"
      using accept_client_quiet [of ?ok evs] Suc.prems unfolding hoare_def ns by blast
    show "wp (case r of Still_Waiting \<Rightarrow> ret None
        | No_Client \<Rightarrow> do { stop \<leftarrow> shutdown_requested; ret (Some (if stop then 0 else 1)) }
        | Client_At conn evs' \<Rightarrow> do { _ \<leftarrow> modify (\<lambda>w. w\<lparr>w_conn := conn\<rparr>); ended \<leftarrow> serve_client fuel B pid;
            if \<not> ended then ret None else do { stop \<leftarrow> shutdown_requested;
              if stop \<or> once then ret (Some 0) else main_loop n fuel B pid once evs' } }) left_nothing v"
      if "?ok (w_calls v)" for r and v :: "'a world"
      using that client [of v]
      by (auto simp: ns wp_return wp_bind wp_shutdown_requested left_nothing_def split: accept_result.split list.split)
  qed
qed

text \<open>
  C16. The bridge leaves the console alone when it exits. Over any number of GDB clients, served
  one after the other with the same connection to the console, whatever they send, whatever the
  backend answers and whether the loop ends by \<^verbatim>\<open>--once\<close>, by a shutdown request or by a failing
  socket: if no detach was refused, the calls of the whole run conform to the session protocol
  and end outside a debug session.
\<close>

theorem bridge_leaves_no_session:
  assumes "run_state (main_loop n fuel B pid once evs) w = (Some code, w')" "w_calls w = []"
    "CDetach False \<notin> set (w_calls w')"
  shows "map_option fst (session_run (None, False) (w_calls w')) = Some None"
proof -
  have "no_session w"
    using assms(2) by (simp add: no_session_def session_of_def)
  from wp_runD [OF main_loop_leaves [OF this] assms(1)] show ?thesis
    using assms(3) by (simp add: left_nothing_def no_session_def session_of_def)
qed

text \<open>A client that goes away at once, with \<^verbatim>\<open>--once\<close>.\<close>

theorem bridge_leaves_no_session_witness:
  "\<exists>w'. run_state (main_loop 1 1 null_backend 42 True
        [Accept_Nothing, Accept_Client \<lparr>fd_open = True, no_ack = False, rx_buf = [], rx = [RxTimeout], tx = [], tx_events = []\<rparr>])
        (fresh 42 no_conn [False, False, True] ()) = (Some 0, w') \<and>
      map_option fst (session_run (None, False) (w_calls w')) = Some None"
proof -
  let ?conn = "\<lparr>fd_open = True, no_ack = False, rx_buf = [], rx = [RxTimeout], tx = [], tx_events = []\<rparr>"
  let ?w' = "(fresh 42 (?conn\<lparr>rx := []\<rparr>) [] ())\<lparr>w_shutdown_flag := True\<rparr>"
  have r: "run_state (main_loop 1 1 null_backend 42 True [Accept_Nothing, Accept_Client ?conn])
      (fresh 42 no_conn [False, False, True] ()) = (Some 0, ?w')"
    by (simp add: serve_client_def fresh_def new_handler_def handler.defs world.defs on_conn_def recv_packet_def
        recv_loop.simps read_byte_def shutdown_requested_def cleanup_def safe_detach_def accept_client.simps)
  have "map_option fst (session_run (None, False) (w_calls ?w')) = Some None"
    by (rule bridge_leaves_no_session [OF r]) (simp_all add: fresh_def new_handler_def handler.defs world.defs)
  with r show ?thesis by blast
qed

section \<open>The connection to the console\<close>

lemma wp_disconnect_closes: "wp disconnect (\<lambda>_ c. \<not> c_fd c) c"
  unfolding disconnect_def wp_bind
  by (rule wp_mono [where Q = "\<lambda>_ _. True"])
    (auto simp: wp_def wp_modify disconnect_unlocked_def pipeline_reset_unlocked_def split: prod.split)

definition closed_at_exit :: "exit_status \<Rightarrow> client \<Rightarrow> bool" where
  "closed_at_exit r c \<longleftrightarrow> (case r of Exits _ \<Rightarrow> \<not> c_fd c | _ \<Rightarrow> True)"

lemma exits_closed: "wp (do { _ \<leftarrow> disconnect; State_Monad.return (Exits code) }) closed_at_exit c"
  unfolding wp_bind
  by (rule wp_mono [OF wp_disconnect_closes]) (simp add: wp_return closed_at_exit_def)

lemma wp_any: "wp m (\<lambda>_ _. True) c"
  by (simp add: wp_def split: prod.split)

lemma wp_bind_any: "(\<And>a c. wp (f a) Q c) \<Longrightarrow> wp (State_Monad.bind m f) Q c"
  unfolding wp_bind by (rule wp_mono [OF wp_any])

lemma give_up_closed: "wp give_up closed_at_exit c"
  unfolding give_up_def by (rule exits_closed)

lemma run_bridge_closed: "wp (run_bridge n fuel env opt hello) closed_at_exit c"
proof -
  have served: "wp (do {
      code \<leftarrow> serve_clients n fuel env hello pid (o_once opt);
      case code of None \<Rightarrow> State_Monad.return Still_Running
      | Some exit_code \<Rightarrow> do { _ \<leftarrow> disconnect; State_Monad.return (Exits exit_code) } }) closed_at_exit c" for pid c
  proof (rule wp_bind_any)
    show "wp (case code of None \<Rightarrow> State_Monad.return Still_Running
      | Some exit_code \<Rightarrow> do { _ \<leftarrow> disconnect; State_Monad.return (Exits exit_code) }) closed_at_exit c" for code c
      by (cases code) (simp_all only: option.case exits_closed, simp add: wp_return closed_at_exit_def)
  qed
  show ?thesis
    unfolding run_bridge_def
  proof (intro wp_bind_any)
    show "wp (case pid of None \<Rightarrow> give_up | Some pid \<Rightarrow> if \<not> me_listen_ok env then give_up
        else do { code \<leftarrow> serve_clients n fuel env hello pid (o_once opt);
          case code of None \<Rightarrow> State_Monad.return Still_Running
          | Some exit_code \<Rightarrow> do { _ \<leftarrow> disconnect; State_Monad.return (Exits exit_code) } }) closed_at_exit c" for pid c
      using give_up_closed served by (cases pid) simp_all
  qed
qed

lemma connect_failure_closed: "wp (client_connect_to env) (\<lambda>ok c. ok \<or> \<not> c_fd c) c"
  by (simp add: client_connect_to_def wp_simps set_error_def clear_error_def disconnect_unlocked_def
      pipeline_reset_unlocked_def split: option.split)

lemma bridge_main_closed:
  assumes "\<not> c_fd c"
  shows "wp (bridge_main n fuel env args) closed_at_exit c"
proof -
  have hello: "wp (do {
      r \<leftarrow> client_hello 0 (me_session_id env) default_hello;
      case r of None \<Rightarrow> give_up | Some hello \<Rightarrow> run_bridge n fuel env opt hello }) closed_at_exit c" for opt c
  proof (rule wp_bind_any)
    show "wp (case r of None \<Rightarrow> give_up | Some hello \<Rightarrow> run_bridge n fuel env opt hello) closed_at_exit c" for r c
      using give_up_closed run_bridge_closed by (cases r) simp_all
  qed
  have connect: "wp (do {
      ok \<leftarrow> client_connect_to (me_connect env);
      if \<not> ok then State_Monad.return (Exits 1)
      else do {
        r \<leftarrow> client_hello 0 (me_session_id env) default_hello;
        case r of None \<Rightarrow> give_up | Some hello \<Rightarrow> run_bridge n fuel env opt hello } }) closed_at_exit c" for opt
    unfolding wp_bind [of "client_connect_to _"]
    by (rule wp_mono [OF connect_failure_closed]) (auto simp: hello wp_return closed_at_exit_def)
  show ?thesis
    using assms connect unfolding bridge_main_def
    by (simp add: wp_return closed_at_exit_def split: arg_result.split)
qed

definition refusing_env :: main_env where
  "refusing_env = \<lparr>me_startup_ok = True, me_connect = \<lparr>ce_startup_error = None, ce_socket_error = None,
     ce_address_ok = True, ce_nonblocking_error = None, ce_connect = Connect_Refused ''refused'', ce_cancelled = False,
     ce_blocking_error = None, ce_rx = [], ce_tx = []\<rparr>, me_session_id = 1,
     me_listen_ok = True, me_accept = [], me_shutdowns = []\<rparr>"

text \<open>
  The bridge never exits with the connection to the console open. Whatever the command
  line, whatever the console and the operating system answer, at whichever stage the program
  gives up (the arguments, the socket library, the connection, the greeting, the process name,
  the listening socket, the clients), when it exits its client has no open socket.
\<close>

theorem bridge_exit_closes_connection:
  assumes "run_state (bridge_main n fuel env args) c = (Exits code, c')" "\<not> c_fd c"
  shows "\<not> c_fd c'"
  using wp_runD [OF bridge_main_closed [OF assms(2)] assms(1)] by (simp add: closed_at_exit_def)

text \<open>A console that refuses the connection.\<close>

theorem bridge_exit_closes_connection_witness:
  "\<exists>c'. run_state (bridge_main 1 1 refusing_env [''--host'', ''ps5'']) default_client = (Exits 1, c') \<and> \<not> c_fd c'"
proof -
  obtain c' where r: "run_state (bridge_main 1 1 refusing_env [''--host'', ''ps5'']) default_client = (Exits 1, c')"
    by (simp add: bridge_main_def refusing_env_def default_client_def takes_value_def value_option_def
        check_options_def default_options_def client_connect_to_def connect_error_def set_error_def)
  moreover have "\<not> c_fd c'"
    by (rule bridge_exit_closes_connection [OF r]) (simp add: default_client_def)
  ultimately show ?thesis by blast
qed

end
