(* ===== verification/Scan_Match.thy ===== *)
theory Scan_Match
  imports Memdbg_Prelude
begin

text \<open>
  The search tables and match functions of the daemon's scanner
  (\<^verbatim>\<open>src/src/scanner/scan/match.c\<close>): the bad-character table with wildcards, the suffix lengths
  and the good-suffix table, and the comparison of values. The search loop that uses the tables
  is in \<open>Scan_Range\<close>. A pattern is not empty (both callers refuse an empty one) and its mask
  has the same length.
\<close>

unbundle bit_operations_syntax

section \<open>The bad-character table\<close>

record bm_table =
  bm_skip :: "nat list"
  bm_gs_shift :: "nat list option"

definition BM_ALPHABET_SIZE :: nat where
  "BM_ALPHABET_SIZE = 256"

definition BM_GS_MIN_LENGTH :: nat where
  "BM_GS_MIN_LENGTH = 4"

definition bc_step :: "byte list \<Rightarrow> byte list \<Rightarrow> nat \<Rightarrow> nat list \<Rightarrow> nat list" where
  "bc_step pattern msk i skip =
     (let cap = length pattern - 1 - i
      in if msk ! i \<noteq> 0
         then (let b = unat (pattern ! i) in if skip ! b > cap then skip[b := cap] else skip)
         else map (\<lambda>s. if s > cap then cap else s) skip)"

definition bm_build_bc_table :: "byte list \<Rightarrow> byte list \<Rightarrow> nat list" where
  "bm_build_bc_table pattern msk =
     fold (bc_step pattern msk) [0..<length pattern - 1] (replicate BM_ALPHABET_SIZE (length pattern))"

section \<open>The good-suffix table\<close>

text \<open>
  The suffix lengths. \<open>f\<close> and \<open>g\<close> are signed, as in the code; the array starts with zeros
  where \<^verbatim>\<open>malloc\<close> leaves it uninitialised, and no entry is read before it is written.
\<close>

function match_back :: "byte list \<Rightarrow> int \<Rightarrow> int \<Rightarrow> int" where
  "match_back pattern f g =
     (if g \<ge> 0 \<and> pattern ! nat g = pattern ! nat (g + int (length pattern) - 1 - f)
      then match_back pattern f (g - 1) else g)"
  by auto
termination
  by (relation "measure (\<lambda>(pattern, f, g). nat (g + 1))") auto

declare match_back.simps [simp del]

definition suffix_step :: "byte list \<Rightarrow> nat \<Rightarrow> int \<times> int \<times> nat list \<Rightarrow> int \<times> int \<times> nat list" where
  "suffix_step pattern i = (\<lambda>(f, g, suffix).
     let k = nat (int i + int (length pattern) - 1 - f)
     in if int i > g \<and> int (suffix ! k) < int i - g then (f, g, suffix[i := suffix ! k])
        else (let g1 = (if int i < g then int i else g);
                  g2 = match_back pattern (int i) g1
              in (int i, g2, suffix[i := nat (int i - g2)])))"

definition suffix_lengths :: "byte list \<Rightarrow> nat list" where
  "suffix_lengths pattern =
     (let m = length pattern
      in snd (snd (fold (suffix_step pattern) (rev [0..<m - 1])
           (0, int m - 1, (replicate m 0)[m - 1 := m]))))"

text \<open>First the prefixes that are also suffixes, then the other occurrences of suffixes.\<close>

definition gs_prefix_step :: "nat \<Rightarrow> nat list \<Rightarrow> nat \<Rightarrow> nat \<times> nat list \<Rightarrow> nat \<times> nat list" where
  "gs_prefix_step m suffix i = (\<lambda>(j, gs).
     if suffix ! i = i + 1
     then (max j (m - 1 - i),
           fold (\<lambda>k gs. if gs ! k = m then gs[k := m - 1 - i] else gs) [j..<m - 1 - i] gs)
     else (j, gs))"

definition gs_inner_step :: "nat \<Rightarrow> nat list \<Rightarrow> nat \<Rightarrow> nat list \<Rightarrow> nat list" where
  "gs_inner_step m suffix i gs =
     (let pos = m - 1 - suffix ! i
      in if gs ! pos > m - 1 - i then gs[pos := m - 1 - i] else gs)"

definition gs_shifts :: "byte list \<Rightarrow> nat list" where
  "gs_shifts pattern =
     (let m = length pattern;
          suffix = suffix_lengths pattern;
          gs = snd (fold (gs_prefix_step m suffix) (rev [0..<m]) (0, replicate m m))
      in fold (gs_inner_step m suffix) [0..<m - 1] gs)"

text \<open>The argument says whether the two allocations succeed; without them there is no table.\<close>

definition bm_build_gs_table :: "bool \<Rightarrow> byte list \<Rightarrow> nat list option" where
  "bm_build_gs_table alloc_ok pattern =
     (if length pattern < BM_GS_MIN_LENGTH then None
      else if alloc_ok then Some (gs_shifts pattern) else None)"

definition bm_build_table :: "bool \<Rightarrow> byte list \<Rightarrow> byte list \<Rightarrow> bm_table" where
  "bm_build_table alloc_ok pattern msk =
     \<lparr>bm_skip = bm_build_bc_table pattern msk,
      bm_gs_shift = (if list_all (\<lambda>b. b \<noteq> 0) msk then bm_build_gs_table alloc_ok pattern else None)\<rparr>"

section \<open>Values\<close>

text \<open>The value types are those of \<^verbatim>\<open>memdbg_value_type_t\<close>.\<close>

definition expected_value_length :: "u32 \<Rightarrow> u32 \<Rightarrow> u32" where
  "expected_value_length value_type requested_length =
     (if value_type = 1 then 1
      else if value_type = 2 then 2
      else if value_type = 3 \<or> value_type = 5 then 4
      else if value_type = 4 \<or> value_type = 6 \<or> value_type = 7 then 8
      else requested_length)"

definition le_value :: "nat \<Rightarrow> byte list \<Rightarrow> u64" where
  "le_value n bs = of_le (take n bs)"

definition match_u8 :: "byte list \<Rightarrow> byte list \<Rightarrow> nat \<Rightarrow> bool" where
  "match_u8 c n len \<longleftrightarrow> c ! 0 = n ! 0"

definition match_u16 :: "byte list \<Rightarrow> byte list \<Rightarrow> nat \<Rightarrow> bool" where
  "match_u16 c n len \<longleftrightarrow> le_value 2 c = le_value 2 n"

definition match_u32 :: "byte list \<Rightarrow> byte list \<Rightarrow> nat \<Rightarrow> bool" where
  "match_u32 c n len \<longleftrightarrow> le_value 4 c = le_value 4 n"

definition match_u64 :: "byte list \<Rightarrow> byte list \<Rightarrow> nat \<Rightarrow> bool" where
  "match_u64 c n len \<longleftrightarrow> le_value 8 c = le_value 8 n"

definition match_bytes :: "byte list \<Rightarrow> byte list \<Rightarrow> nat \<Rightarrow> bool" where
  "match_bytes c n len \<longleftrightarrow> c ! 0 = n ! 0 \<and> take len c = take len n"

definition match_fn_for :: "nat \<Rightarrow> byte list \<Rightarrow> byte list \<Rightarrow> nat \<Rightarrow> bool" where
  "match_fn_for value_len =
     (if value_len = 1 then match_u8 else if value_len = 2 then match_u16
      else if value_len = 4 then match_u32 else if value_len = 8 then match_u64 else match_bytes)"

end
