(* ===== verification/Memdbg_Status.thy ===== *)
theory Memdbg_Status
  imports Main
begin

text \<open>
  The status codes of the daemon (\<^verbatim>\<open>src/include/memdbg/core/memdbg.h\<close>) and the results of the
  operations that report them.
\<close>

datatype memdbg_status = MEMDBG_ERR_PARAM | MEMDBG_ERR_NOMEM | MEMDBG_ERR_IO | MEMDBG_ERR_NET | MEMDBG_ERR_PROTOCOL
  | MEMDBG_ERR_UNSUPPORTED | MEMDBG_ERR_NOT_FOUND | MEMDBG_ERR_PERMISSION | MEMDBG_ERR_OVERFLOW | MEMDBG_ERR_STATE

text \<open>A scan fails with a status, never ends (a search that shifts by nothing), or returns.\<close>

datatype 'a outcome = Fails memdbg_status | Diverges | Returns 'a

primrec bind_outcome :: "'a outcome \<Rightarrow> ('a \<Rightarrow> 'b outcome) \<Rightarrow> 'b outcome" where
  "bind_outcome (Fails st) f = Fails st"
| "bind_outcome Diverges f = Diverges"
| "bind_outcome (Returns x) f = f x"

text \<open>An operation that only reports a status returns \<^const>\<open>None\<close> for \<^verbatim>\<open>MEMDBG_OK\<close>.\<close>

type_synonym status = "memdbg_status option"

abbreviation MEMDBG_OK :: status where
  "MEMDBG_OK \<equiv> None"

end
