(* ===== verification/Scan_Range.thy ===== *)
theory Scan_Range
  imports Scan_Match Memdbg_Status
begin

text \<open>
  The range scanners of the daemon (\<^verbatim>\<open>src/src/scanner/scan/builder.c\<close> and \<^verbatim>\<open>api.c\<close>): reading
  the target in chunks with a retry on faults, the result builder, the exact-value, byte-pattern
  and unknown-value scans of a range. The memory of the target is an argument, a function from
  an address and a length to a status or the bytes that were read. \<^verbatim>\<open>malloc\<close> and
  \<^verbatim>\<open>realloc\<close> are the argument \<open>grant\<close> on the number of bytes. Positions (\<^verbatim>\<open>size_t\<close>) are
  natural numbers, addresses 64-bit words. The clock is left out.
\<close>

section \<open>The result builder\<close>

record scan_result =
  sr_entries :: "u64 list"
  sr_truncated :: bool
  sr_cancelled :: bool
  sr_bytes_scanned :: u64
  sr_read_calls :: u32
  sr_regions_scanned :: u32
  sr_read_errors :: u32

text \<open>
  The counters of a tracked scan. Another connection may request the cancellation at any time;
  \<open>pg_cancels\<close> lists what the successive checks see.
\<close>

record scan_progress =
  pg_bytes_done :: u64
  pg_results_found :: u64
  pg_read_errors :: u32
  pg_maps_done :: u32
  pg_cancels :: "bool list"

record scan_builder =
  sb_result :: scan_result
  sb_capacity :: nat
  sb_max_results :: nat
  sb_progress :: "scan_progress option"

type_synonym reader = "u64 \<Rightarrow> nat \<Rightarrow> memdbg_status + byte list"

definition empty_result :: scan_result where
  "empty_result = \<lparr>sr_entries = [], sr_truncated = False, sr_cancelled = False, sr_bytes_scanned = 0,
     sr_read_calls = 0, sr_regions_scanned = 0, sr_read_errors = 0\<rparr>"

definition scan_metric_inc :: "u32 \<Rightarrow> u32" where
  "scan_metric_inc v = (if v \<noteq> - 1 then v + 1 else v)"

definition count_call :: "scan_builder \<Rightarrow> scan_builder" where
  "count_call b = b\<lparr>sb_result := (sb_result b)\<lparr>sr_read_calls := scan_metric_inc (sr_read_calls (sb_result b))\<rparr>\<rparr>"

definition count_error :: "scan_builder \<Rightarrow> scan_builder" where
  "count_error b = b\<lparr>sb_result := (sb_result b)\<lparr>sr_read_errors := scan_metric_inc (sr_read_errors (sb_result b))\<rparr>,
     sb_progress := map_option (\<lambda>p. p\<lparr>pg_read_errors := pg_read_errors p + 1\<rparr>) (sb_progress b)\<rparr>"

definition count_bytes :: "bool \<Rightarrow> nat \<Rightarrow> scan_builder \<Rightarrow> scan_builder" where
  "count_bytes tracked n b =
     b\<lparr>sb_result := (sb_result b)\<lparr>sr_bytes_scanned := sr_bytes_scanned (sb_result b) + word_of_nat n\<rparr>,
       sb_progress := (if tracked then map_option (\<lambda>p. p\<lparr>pg_bytes_done := pg_bytes_done p + word_of_nat n\<rparr>) (sb_progress b)
                       else sb_progress b)\<rparr>"

definition truncate_result :: "scan_builder \<Rightarrow> scan_builder" where
  "truncate_result b = b\<lparr>sb_result := (sb_result b)\<lparr>sr_truncated := True\<rparr>\<rparr>"

definition MEMDBG_SCAN_INITIAL_CAPACITY :: nat where
  "MEMDBG_SCAN_INITIAL_CAPACITY = 256"

definition next_capacity :: "scan_builder \<Rightarrow> nat" where
  "next_capacity b =
     (let next = (if sb_capacity b = 0 then MEMDBG_SCAN_INITIAL_CAPACITY else sb_capacity b * 2)
      in if next < sb_capacity b \<or> next > sb_max_results b then sb_max_results b else next)"

definition store_entry :: "u64 \<Rightarrow> scan_builder \<Rightarrow> scan_builder" where
  "store_entry addr b = b\<lparr>sb_result := (sb_result b)\<lparr>sr_entries := sr_entries (sb_result b) @ [addr]\<rparr>\<rparr>"

definition scan_builder_append :: "(nat \<Rightarrow> bool) \<Rightarrow> u64 \<Rightarrow> scan_builder \<Rightarrow> scan_builder outcome" where
  "scan_builder_append grant addr b0 =
     (let b = b0\<lparr>sb_progress := map_option (\<lambda>p. p\<lparr>pg_results_found := pg_results_found p + 1\<rparr>) (sb_progress b0)\<rparr>;
          count = length (sr_entries (sb_result b))
      in if count \<ge> sb_max_results b then Returns (truncate_result b)
         else if count = sb_capacity b
         then (if next_capacity b \<le> count then Returns (truncate_result b)
               else if \<not> grant (next_capacity b * 8) then Fails MEMDBG_ERR_NOMEM
               else Returns (store_entry addr (b\<lparr>sb_capacity := next_capacity b\<rparr>)))
         else Returns (store_entry addr b))"

definition scan_builder_prealloc :: "(nat \<Rightarrow> bool) \<Rightarrow> nat \<Rightarrow> scan_builder outcome" where
  "scan_builder_prealloc grant max_results =
     (if max_results = 0 then Fails MEMDBG_ERR_PARAM
      else if \<not> grant (max_results * 8) then Fails MEMDBG_ERR_NOMEM
      else Returns \<lparr>sb_result = empty_result, sb_capacity = max_results, sb_max_results = max_results, sb_progress = None\<rparr>)"

section \<open>Reading the target\<close>

definition MEMDBG_SCAN_MIN_READ_CHUNK :: nat where
  "MEMDBG_SCAN_MIN_READ_CHUNK = 4096"

definition MEMDBG_SCAN_MAX_LENGTH :: u64 where
  "MEMDBG_SCAN_MAX_LENGTH = 32 * 1024 * 1024 * 1024"

definition scan_read_size :: "nat \<Rightarrow> nat \<Rightarrow> nat" where
  "scan_read_size remaining chunk_size = (if remaining > chunk_size then chunk_size else remaining)"

definition scan_fault_skip_size :: "nat \<Rightarrow> nat" where
  "scan_fault_skip_size requested =
     (if requested = 0 then 0
      else if requested < MEMDBG_SCAN_MIN_READ_CHUNK then requested else MEMDBG_SCAN_MIN_READ_CHUNK)"

definition scan_bounds_valid :: "u64 \<Rightarrow> u64 \<Rightarrow> u64 \<Rightarrow> bool" where
  "scan_bounds_valid start len min_length \<longleftrightarrow>
     \<not> (len = 0 \<or> len < min_length) \<and> \<not> len > MEMDBG_SCAN_MAX_LENGTH \<and> \<not> (- 1 - start < len)"

function read_attempts :: "reader \<Rightarrow> u64 \<Rightarrow> nat \<Rightarrow> scan_builder \<Rightarrow> (memdbg_status + byte list) \<times> scan_builder" where
  "read_attempts rd address attempt b =
     (if attempt = 0 then (Inl MEMDBG_ERR_IO, b)
      else case rd address attempt of
        Inr bs \<Rightarrow> (Inr bs, count_call b)
      | Inl st \<Rightarrow>
          (let b' = count_error (count_call b);
               half = attempt div 2;
               next = (if half < MEMDBG_SCAN_MIN_READ_CHUNK then MEMDBG_SCAN_MIN_READ_CHUNK else half)
           in if attempt \<le> MEMDBG_SCAN_MIN_READ_CHUNK \<or> next \<ge> attempt then (Inl st, b')
              else read_attempts rd address next b'))"
  by pat_completeness auto
termination
  by (relation "measure (\<lambda>(rd, address, attempt, b). attempt)") auto

declare read_attempts.simps [simp del]

definition scan_memory_read_resilient ::
    "reader \<Rightarrow> u64 \<Rightarrow> nat \<Rightarrow> scan_builder \<Rightarrow> (memdbg_status + byte list) \<times> scan_builder" where
  "scan_memory_read_resilient rd address requested b =
     (if requested = 0 then (Inr [], b) else read_attempts rd address requested b)"

section \<open>The loop over the chunks of a range\<close>

text \<open>
  The three range scanners share their loop; they differ in the window scanner, in whether a
  cancellation is looked for and in whether the bytes are counted for a tracked scan. A window
  scanner is given the address of the window and its bytes: the carried over ones and those just
  read.
\<close>

record range_scan =
  rs_read :: reader
  rs_chunk :: nat
  rs_len :: nat
  rs_cancellable :: bool
  rs_tracked :: bool
  rs_skip_errors :: bool
  rs_window :: "u64 \<Rightarrow> byte list \<Rightarrow> scan_builder \<Rightarrow> scan_builder outcome"

definition check_cancel :: "bool \<Rightarrow> scan_builder \<Rightarrow> bool \<times> scan_builder" where
  "check_cancel cancellable b =
     (case sb_progress b of
        None \<Rightarrow> (False, b)
      | Some p \<Rightarrow>
          if \<not> cancellable then (False, b)
          else case pg_cancels p of [] \<Rightarrow> (False, b)
            | c # cs \<Rightarrow> (c, b\<lparr>sb_progress := Some (p\<lparr>pg_cancels := cs\<rparr>)\<rparr>))"

definition carry_over :: "nat \<Rightarrow> byte list \<Rightarrow> byte list \<Rightarrow> byte list" where
  "carry_over value_len carry win =
     (let overlap = (if value_len > 1 then value_len - 1 else 0)
      in if overlap \<noteq> 0 then drop (length win - min (length win) overlap) win else carry)"

lemma read_nothing: "scan_memory_read_resilient rd a 0 b = (Inr [], b)"
  by (simp add: scan_memory_read_resilient_def)

lemma read_failure_requested: "scan_memory_read_resilient rd a n b = (Inl st, b') \<Longrightarrow> 0 < n"
  by (auto simp: scan_memory_read_resilient_def split: if_splits)

lemma fault_skip_pos: "0 < n \<Longrightarrow> 0 < scan_fault_skip_size n"
  by (simp add: scan_fault_skip_size_def MEMDBG_SCAN_MIN_READ_CHUNK_def)

text \<open>A turn of the loop up to the window: it ends the scan, skips a fault, or has read some bytes.\<close>

datatype chunk = Chunk_End "scan_builder outcome" | Chunk_Skip nat scan_builder | Chunk_Bytes "byte list" scan_builder

definition scan_chunk :: "range_scan \<Rightarrow> u64 \<Rightarrow> nat \<Rightarrow> nat \<Rightarrow> scan_builder \<Rightarrow> chunk" where
  "scan_chunk rs range_start range_len scanned b0 =
     (case check_cancel (rs_cancellable rs) b0 of (cancel, b) \<Rightarrow>
        if cancel then Chunk_End (Returns (truncate_result b))
        else let to_read = scan_read_size (range_len - scanned) (rs_chunk rs)
             in case scan_memory_read_resilient (rs_read rs) (range_start + word_of_nat scanned) to_read b of
                  (Inl st, b1) \<Rightarrow>
                    if \<not> rs_skip_errors rs then Chunk_End (Fails st)
                    else Chunk_Skip (scan_fault_skip_size to_read) b1
                | (Inr bs, b1) \<Rightarrow>
                    if bs = [] then Chunk_End (Returns b1)
                    else Chunk_Bytes bs (count_bytes (rs_tracked rs) (length bs) b1))"

lemma scan_chunk_skip: "scan_chunk rs range_start range_len scanned b0 = Chunk_Skip n b \<Longrightarrow> 0 < n"
  by (auto simp: scan_chunk_def Let_def split: prod.splits sum.splits if_splits dest!: read_failure_requested fault_skip_pos)

lemma scan_chunk_bytes: "scan_chunk rs range_start range_len scanned b0 = Chunk_Bytes bs b \<Longrightarrow> \<exists>x xs. bs = x # xs"
  by (auto simp: scan_chunk_def Let_def neq_Nil_conv split: prod.splits sum.splits if_splits)

function scan_loop :: "range_scan \<Rightarrow> u64 \<Rightarrow> nat \<Rightarrow> nat \<Rightarrow> byte list \<Rightarrow> scan_builder \<Rightarrow> scan_builder outcome" where
  "scan_loop rs range_start range_len scanned carry b =
     (if scanned < range_len
      then (case scan_chunk rs range_start range_len scanned b of
          Chunk_End r \<Rightarrow> r
        | Chunk_Skip n b1 \<Rightarrow> scan_loop rs range_start range_len (scanned + n) [] b1
        | Chunk_Bytes bs b1 \<Rightarrow>
            (case rs_window rs (range_start + word_of_nat scanned - word_of_nat (length carry)) (carry @ bs) b1 of
               Fails st \<Rightarrow> Fails st
             | Diverges \<Rightarrow> Diverges
             | Returns b2 \<Rightarrow>
                 scan_loop rs range_start range_len (scanned + length bs) (carry_over (rs_len rs) carry (carry @ bs)) b2))
      else Returns b)"
  by pat_completeness auto
termination
  by (relation "measure (\<lambda>(rs, range_start, range_len, scanned, carry, b). range_len - scanned)")
    (auto dest!: scan_chunk_skip scan_chunk_bytes)

declare scan_loop.simps [simp del]

section \<open>The exact-value scan\<close>

record scan_context =
  sc_value_len :: nat
  sc_alignment :: u32
  sc_needle :: "byte list"
  sc_read_chunk :: nat

definition MEMDBG_SCAN_VALUE_MAX :: u32 where
  "MEMDBG_SCAN_VALUE_MAX = 16"

definition scan_context_init ::
    "(nat \<Rightarrow> bool) \<Rightarrow> int \<Rightarrow> u32 \<Rightarrow> u32 \<Rightarrow> u32 \<Rightarrow> byte list \<Rightarrow> nat \<Rightarrow> bool \<Rightarrow> scan_context outcome" where
  "scan_context_init grant pid value_type requested_value_len alignment val read_chunk allocate_buffer =
     (let value_len = expected_value_length value_type requested_value_len
      in if pid \<le> 0 then Fails MEMDBG_ERR_PARAM
         else if value_len = 0 \<or> value_len > MEMDBG_SCAN_VALUE_MAX then Fails MEMDBG_ERR_PARAM
         else if allocate_buffer \<and> \<not> grant (read_chunk + unat value_len - 1) then Fails MEMDBG_ERR_NOMEM
         else Returns \<lparr>sc_value_len = unat value_len, sc_alignment = (if alignment = 0 then 1 else alignment),
                       sc_needle = take (unat value_len) val, sc_read_chunk = read_chunk\<rparr>)"

definition first_aligned_offset :: "u64 \<Rightarrow> u64 \<Rightarrow> u64 \<Rightarrow> u32 \<Rightarrow> u64" where
  "first_aligned_offset base alignment_base range_start alignment =
     (let offset = (if base < range_start then range_start - base else 0)
      in if alignment \<le> 1 then offset
         else let misalignment = (base + offset - alignment_base) mod ucast alignment
              in if misalignment \<noteq> 0 then offset + (ucast alignment - misalignment) else offset)"

text \<open>The search for a byte by \<^verbatim>\<open>memchr\<close>.\<close>

function byte_scan :: "(nat \<Rightarrow> bool) \<Rightarrow> byte \<Rightarrow> u64 \<Rightarrow> byte list \<Rightarrow> nat \<Rightarrow> nat \<Rightarrow> scan_builder \<Rightarrow> scan_builder outcome" where
  "byte_scan grant needle base buf searchable pos b =
     (if pos < searchable
      then (case index_of needle (take (searchable - pos) (drop pos buf)) of
              None \<Rightarrow> Returns b
            | Some k \<Rightarrow>
                (case scan_builder_append grant (base + word_of_nat (pos + k)) b of
                   Returns b' \<Rightarrow> byte_scan grant needle base buf searchable (pos + k + 1) b'
                 | r \<Rightarrow> r))
      else Returns b)"
  by pat_completeness auto
termination
  by (relation "measure (\<lambda>(grant, needle, base, buf, searchable, pos, b). searchable - pos)") auto

declare byte_scan.simps [simp del]

text \<open>The aligned positions, until the range ends. A step of zero would go round forever.\<close>

function aligned_scan :: "(nat \<Rightarrow> bool) \<Rightarrow> (nat \<Rightarrow> bool) \<Rightarrow> nat \<Rightarrow> nat \<Rightarrow> u64 \<Rightarrow> u64 \<Rightarrow> nat \<Rightarrow> nat \<Rightarrow> scan_builder \<Rightarrow> scan_builder outcome" where
  "aligned_scan grant hit value_len alignment base range_end searchable i b =
     (if i < searchable
      then (let absolute = base + word_of_nat i
            in if absolute > range_end \<or> word_of_nat value_len > range_end - absolute then Returns b
               else case (if hit i then scan_builder_append grant absolute b else Returns b) of
                      Returns b' \<Rightarrow>
                        if alignment = 0 then Diverges
                        else aligned_scan grant hit value_len alignment base range_end searchable (i + alignment) b'
                    | r \<Rightarrow> r)
      else Returns b)"
  by pat_completeness auto
termination
  by (relation "measure (\<lambda>(grant, hit, value_len, alignment, base, range_end, searchable, i, b). searchable - i)") auto

declare aligned_scan.simps [simp del]

definition scan_window ::
    "(nat \<Rightarrow> bool) \<Rightarrow> scan_context \<Rightarrow> u64 \<Rightarrow> u64 \<Rightarrow> u64 \<Rightarrow> u64 \<Rightarrow> byte list \<Rightarrow> scan_builder \<Rightarrow> scan_builder outcome" where
  "scan_window grant ctx alignment_base range_start range_end base win b =
     (let value_len = sc_value_len ctx;
          searchable = length win - value_len + 1
      in if length win < value_len then Returns b
         else if value_len = 1 \<and> sc_alignment ctx = 1 \<and> base \<ge> range_start
         then byte_scan grant (sc_needle ctx ! 0) base win searchable 0 b
         else let first = first_aligned_offset base alignment_base range_start (sc_alignment ctx)
              in if first = - 1 \<or> unat first \<ge> searchable then Returns b
                 else aligned_scan grant (\<lambda>i. match_fn_for value_len (drop i win) (sc_needle ctx) value_len)
                        value_len (unat (sc_alignment ctx)) base range_end searchable (unat first) b)"

definition scan_range ::
    "(nat \<Rightarrow> bool) \<Rightarrow> reader \<Rightarrow> scan_context \<Rightarrow> u64 \<Rightarrow> u64 \<Rightarrow> u64 \<Rightarrow> bool \<Rightarrow> scan_builder \<Rightarrow> scan_builder outcome" where
  "scan_range grant rd ctx range_start range_len alignment_base skip_read_errors b =
     (if \<not> scan_bounds_valid range_start range_len (word_of_nat (sc_value_len ctx)) then Fails MEMDBG_ERR_PARAM
      else scan_loop \<lparr>rs_read = rd, rs_chunk = sc_read_chunk ctx, rs_len = sc_value_len ctx, rs_cancellable = True,
                      rs_tracked = True, rs_skip_errors = skip_read_errors,
                      rs_window = scan_window grant ctx alignment_base range_start (range_start + range_len)\<rparr>
             range_start (unat range_len) 0 [] b)"

record scan_exact_request =
  ex_pid :: int
  ex_start :: u64
  ex_length :: u64
  ex_value_type :: u32
  ex_value_length :: u32
  ex_alignment :: u32
  ex_max_results :: u32
  ex_value :: "byte list"

text \<open>\<^verbatim>\<open>MEMDBG_SCAN_EXACT_RANGE_CHUNK\<close> and \<^verbatim>\<open>MEMDBG_SCAN_CHUNK\<close> depend on the build and are arguments.\<close>

definition one_region :: "scan_builder \<Rightarrow> scan_builder" where
  "one_region b = b\<lparr>sb_result := (sb_result b)\<lparr>sr_regions_scanned := 1\<rparr>\<rparr>"

definition memdbg_scan_exact :: "(nat \<Rightarrow> bool) \<Rightarrow> reader \<Rightarrow> nat \<Rightarrow> scan_exact_request \<Rightarrow> scan_result outcome" where
  "memdbg_scan_exact grant rd range_chunk request =
     (if ex_length request = 0 then Fails MEMDBG_ERR_PARAM
      else bind_outcome (scan_context_init grant (ex_pid request) (ex_value_type request) (ex_value_length request)
               (ex_alignment request) (ex_value request) range_chunk True) (\<lambda>ctx.
        if \<not> scan_bounds_valid (ex_start request) (ex_length request) (word_of_nat (sc_value_len ctx))
        then Fails MEMDBG_ERR_PARAM
        else bind_outcome (scan_builder_prealloc grant
               (if ex_max_results request = 0 then 1 else unat (ex_max_results request))) (\<lambda>b.
          bind_outcome (scan_range grant rd ctx (ex_start request) (ex_length request) (ex_start request) True (one_region b))
            (\<lambda>b'. Returns (sb_result b')))))"

section \<open>The byte-pattern scan\<close>

text \<open>The comparison of a window that ends at \<open>i\<close>, from the last byte on: the position of a mismatch.\<close>

fun mismatch_at :: "byte list \<Rightarrow> byte list \<Rightarrow> byte list \<Rightarrow> nat \<Rightarrow> nat \<Rightarrow> nat option" where
  "mismatch_at pattern msk hay i j =
     (if msk ! j \<noteq> 0 \<and> hay ! (i - (length pattern - 1 - j)) \<noteq> pattern ! j then Some j
      else if j = 0 then None else mismatch_at pattern msk hay i (j - 1))"

declare mismatch_at.simps [simp del]

definition aob_shift :: "bm_table \<Rightarrow> nat \<Rightarrow> byte \<Rightarrow> nat \<Rightarrow> nat" where
  "aob_shift bm pat_len c j =
     (let bc = bm_skip bm ! unat c;
          gs = (case bm_gs_shift bm of None \<Rightarrow> 1 | Some gs_shift \<Rightarrow> if j < pat_len - 1 then gs_shift ! (j + 1) else 1)
      in if bc > gs then bc else gs)"

function aob_search ::
    "(nat \<Rightarrow> bool) \<Rightarrow> bm_table \<Rightarrow> byte list \<Rightarrow> byte list \<Rightarrow> u64 \<Rightarrow> byte list \<Rightarrow> nat \<Rightarrow> scan_builder \<Rightarrow> scan_builder outcome" where
  "aob_search grant bm pattern msk base hay i b =
     (if i < length hay
      then (case mismatch_at pattern msk hay i (length pattern - 1) of
              None \<Rightarrow>
                (case scan_builder_append grant (base + word_of_nat (i + 1 - length pattern)) b of
                   Returns b' \<Rightarrow> aob_search grant bm pattern msk base hay (i + 1) b'
                 | r \<Rightarrow> r)
            | Some j \<Rightarrow>
                if aob_shift bm (length pattern) (hay ! i) j = 0 then Diverges
                else aob_search grant bm pattern msk base hay (i + aob_shift bm (length pattern) (hay ! i) j) b)
      else Returns b)"
  by pat_completeness auto
termination
  by (relation "measure (\<lambda>(grant, bm, pattern, msk, base, hay, i, b). length hay - i)") auto

declare aob_search.simps [simp del]

definition scan_aob_range ::
    "(nat \<Rightarrow> bool) \<Rightarrow> reader \<Rightarrow> nat \<Rightarrow> bm_table \<Rightarrow> byte list \<Rightarrow> byte list \<Rightarrow> u64 \<Rightarrow> u64 \<Rightarrow> scan_builder \<Rightarrow> scan_builder outcome" where
  "scan_aob_range grant rd chunk_size bm pattern msk range_start range_len b =
     (if unat range_len < length pattern then Returns b
      else scan_loop \<lparr>rs_read = rd, rs_chunk = chunk_size, rs_len = length pattern, rs_cancellable = False,
                      rs_tracked = True, rs_skip_errors = True,
                      rs_window = (\<lambda>base win. aob_search grant bm pattern msk base win (length pattern - 1))\<rparr>
             range_start (unat range_len) 0 [] b)"

record scan_aob_request =
  ab_start :: u64
  ab_length :: u64
  ab_max_results :: u32

text \<open>The pattern and its mask have the length the request announces; the handler checks it.\<close>

definition memdbg_scan_aob ::
    "(nat \<Rightarrow> bool) \<Rightarrow> reader \<Rightarrow> nat \<Rightarrow> scan_aob_request \<Rightarrow> byte list \<Rightarrow> byte list \<Rightarrow> scan_result outcome" where
  "memdbg_scan_aob grant rd chunk_size request pattern msk =
     (if pattern = [] \<or> ab_length request = 0 then Fails MEMDBG_ERR_PARAM
      else if \<not> scan_bounds_valid (ab_start request) (ab_length request) (word_of_nat (length pattern))
      then Fails MEMDBG_ERR_PARAM
      else if \<not> grant (chunk_size + (length pattern - 1)) then Fails MEMDBG_ERR_NOMEM
      else bind_outcome (scan_builder_prealloc grant
             (if ab_max_results request = 0 then 1 else unat (ab_max_results request))) (\<lambda>b.
        bind_outcome (scan_aob_range grant rd chunk_size (bm_build_table (grant (length pattern * 8)) pattern msk) pattern msk
                        (ab_start request) (ab_length request) b)
          (\<lambda>b'. Returns (sb_result (one_region b')))))"

section \<open>The unknown-value scan of a range\<close>

definition unknown_value_is_candidate :: "byte list \<Rightarrow> nat \<Rightarrow> u32 \<Rightarrow> bool" where
  "unknown_value_is_candidate val value_len flags \<longleftrightarrow>
     flags AND 1 = 0 \<or> list_ex (\<lambda>b. b \<noteq> 0) (take value_len val)"

definition unknown_window ::
    "(nat \<Rightarrow> bool) \<Rightarrow> nat \<Rightarrow> u32 \<Rightarrow> u32 \<Rightarrow> u64 \<Rightarrow> u64 \<Rightarrow> u64 \<Rightarrow> u64 \<Rightarrow> byte list \<Rightarrow> scan_builder \<Rightarrow> scan_builder outcome" where
  "unknown_window grant value_len alignment flags alignment_base range_start range_end base win b =
     (let first = first_aligned_offset base alignment_base range_start alignment
      in if first = - 1 then Fails MEMDBG_ERR_OVERFLOW
         else aligned_scan grant (\<lambda>pos. unknown_value_is_candidate (drop pos win) value_len flags)
                value_len (unat alignment) base range_end
                (if value_len \<le> length win then length win - value_len + 1 else 0) (unat first) b)"

definition scan_unknown_range ::
    "(nat \<Rightarrow> bool) \<Rightarrow> reader \<Rightarrow> nat \<Rightarrow> nat \<Rightarrow> u32 \<Rightarrow> u32 \<Rightarrow> u64 \<Rightarrow> u64 \<Rightarrow> u64 \<Rightarrow> scan_builder \<Rightarrow> scan_builder outcome" where
  "scan_unknown_range grant rd chunk_size value_len alignment flags start len alignment_base b =
     (if \<not> scan_bounds_valid start len (word_of_nat value_len) then Fails MEMDBG_ERR_PARAM
      else scan_loop \<lparr>rs_read = rd, rs_chunk = chunk_size, rs_len = value_len, rs_cancellable = False,
                      rs_tracked = False, rs_skip_errors = True,
                      rs_window = unknown_window grant value_len alignment flags alignment_base start (start + len)\<rparr>
             start (unat len) 0 [] b)"

end
