(* ===== verification/Scan_Parallel.thy ===== *)
theory Scan_Parallel
  imports Scan_Range
begin

text \<open>
  The process-wide scans of the daemon: the partition of the maps between threads
  (\<^verbatim>\<open>src/src/scanner/scan/partition.c\<close>), the workers and the merging of their results
  (\<^verbatim>\<open>parallel.c\<close>), and the requests that use them (\<^verbatim>\<open>api.c\<close>). A worker has a builder and a
  buffer of its own and only reads what it shares with the others, apart from the counters of a
  tracked scan, so its result does not depend on how the workers interleave: a worker is a
  function of its slice of the maps and of what its checks for a cancellation see.
\<close>

unbundle bit_operations_syntax

section \<open>Maps\<close>

record scan_map =
  sm_start :: u64
  sm_end :: u64
  sm_protection :: u32

record map_filter =
  mf_prot_mask :: u32
  mf_start :: u64
  mf_end :: u64
  mf_min_len :: nat

text \<open>The part of a map that the scan looks at, with its length, unless the map is passed over.\<close>

definition clip_map :: "map_filter \<Rightarrow> scan_map \<Rightarrow> (u64 \<times> u64) option" where
  "clip_map f m =
     (let ms = (if mf_start f \<noteq> 0 \<and> sm_start m < mf_start f then mf_start f else sm_start m);
          me = (if mf_end f \<noteq> 0 \<and> sm_end m > mf_end f then mf_end f else sm_end m)
      in if sm_protection m AND mf_prot_mask f \<noteq> mf_prot_mask f \<or> sm_end m \<le> sm_start m then None
         else if me \<le> ms then None
         else if unat (me - ms) < mf_min_len f then None
         else Some (ms, me - ms))"

section \<open>The partition\<close>

record partition_slot =
  ps_start :: nat
  ps_end :: nat

definition empty_slot :: "nat \<Rightarrow> partition_slot" where
  "empty_slot n = \<lparr>ps_start = n, ps_end = n\<rparr>"

text \<open>The maps that are scanned: their positions and sizes.\<close>

definition effective_maps :: "map_filter \<Rightarrow> scan_map list \<Rightarrow> (nat \<times> u64) list" where
  "effective_maps f maps =
     concat (map (\<lambda>i. case clip_map f (maps ! i) of None \<Rightarrow> [] | Some (s, n) \<Rightarrow> [(i, n)]) [0..<length maps])"

definition add_saturated :: "u64 \<Rightarrow> u64 \<Rightarrow> u64" where
  "add_saturated sum_bytes n = (if - 1 - sum_bytes < n then - 1 else sum_bytes + n)"

definition partition_step :: "nat \<Rightarrow> u64 \<Rightarrow> nat \<times> u64 \<Rightarrow> nat \<times> u64 \<times> partition_slot list \<Rightarrow> nat \<times> u64 \<times> partition_slot list" where
  "partition_step num_threads bytes_per_thread = (\<lambda>(i, n) (t, t_bytes, slots).
     if t + 1 < num_threads \<and> t_bytes + n > bytes_per_thread \<and> t_bytes > 0
     then (t + 1, n, slots[t := (slots ! t)\<lparr>ps_end := i\<rparr>, t + 1 := (slots ! (t + 1))\<lparr>ps_start := i\<rparr>])
     else (t, t_bytes + n, slots))"

text \<open>The slots and the number of them that are in use.\<close>

definition byte_quota :: "(nat \<times> u64) list \<Rightarrow> nat \<Rightarrow> u64" where
  "byte_quota eff num_threads =
     (let quota = fold (\<lambda>(i, n) sum_bytes. add_saturated sum_bytes n) eff 0 div word_of_nat num_threads
      in if quota = 0 then 1 else quota)"

definition fill_slots :: "nat \<Rightarrow> (nat \<times> u64) list \<Rightarrow> nat \<Rightarrow> nat \<Rightarrow> partition_slot list \<times> nat" where
  "fill_slots count eff num_slots num_threads =
     (case fold (partition_step num_threads (byte_quota eff num_threads)) eff
             (0, 0, (replicate num_slots (empty_slot 0))[0 := \<lparr>ps_start = fst (eff ! 0), ps_end = 0\<rparr>]) of
        (t, t_bytes, slots) \<Rightarrow>
          (fold (\<lambda>u s. s[u := empty_slot count]) [t + 1..<num_threads] (slots[t := (slots ! t)\<lparr>ps_end := count\<rparr>]), t + 1))"

text \<open>
  The list of maps is a pointer with a count; \<^const>\<open>None\<close> is the pointer \<^verbatim>\<open>NULL\<close>, as which an empty
  list comes from the process cache.
\<close>

definition entries_of :: "scan_map list option \<Rightarrow> scan_map list" where
  "entries_of maps = (case maps of None \<Rightarrow> [] | Some entries \<Rightarrow> entries)"

definition partition_maps_by_bytes ::
    "(nat \<Rightarrow> bool) \<Rightarrow> scan_map list option \<Rightarrow> map_filter \<Rightarrow> nat \<Rightarrow> (partition_slot list \<times> nat) outcome" where
  "partition_maps_by_bytes grant map_list f num_threads =
     (let maps = entries_of map_list; eff = effective_maps f maps; count = length maps in
      if map_list = None \<or> num_threads < 1 then Fails MEMDBG_ERR_PARAM
      else if num_threads \<le> 1 \<or> length eff < 4
      then Returns (\<lparr>ps_start = 0, ps_end = count\<rparr> # replicate (num_threads - 1) (empty_slot count), 1)
      else if \<not> grant (length eff * 8) then Fails MEMDBG_ERR_NOMEM
      else let half = (if num_threads > length eff div 2 then length eff div 2 else num_threads)
           in Returns (fill_slots count eff num_threads (if half < 1 then 1 else half)))"

section \<open>A worker\<close>

type_synonym map_scan_fn = "u64 \<Rightarrow> u64 \<Rightarrow> scan_builder \<Rightarrow> scan_builder outcome"

text \<open>A map of more than the greatest length is scanned in segments. The number counts the segments.\<close>

function scan_segments :: "map_scan_fn \<Rightarrow> nat \<Rightarrow> u64 \<Rightarrow> nat \<Rightarrow> u32 \<Rightarrow> scan_builder \<Rightarrow> (u32 \<times> scan_builder) outcome" where
  "scan_segments scan_fn min_len cursor remaining regions b =
     (let seg = (if remaining > unat MEMDBG_SCAN_MAX_LENGTH then unat MEMDBG_SCAN_MAX_LENGTH else remaining)
      in if remaining = 0 \<or> seg < min_len then Returns (regions, b)
         else case scan_fn cursor (word_of_nat seg) b of
             Fails st \<Rightarrow> Fails st
           | Diverges \<Rightarrow> Diverges
           | Returns b1 \<Rightarrow>
               (case check_cancel True b1 of (cancel, b2) \<Rightarrow>
                  if cancel then Returns (regions + 1, b2)
                  else scan_segments scan_fn min_len (cursor + word_of_nat seg) (remaining - seg) (regions + 1) b2))"
  by pat_completeness auto
termination
  by (relation "measure (\<lambda>(scan_fn, min_len, cursor, remaining, regions, b). remaining)")
    (auto simp: MEMDBG_SCAN_MAX_LENGTH_def)

declare scan_segments.simps [simp del]

definition map_done :: "scan_builder \<Rightarrow> scan_builder" where
  "map_done b = b\<lparr>sb_progress := map_option (\<lambda>p. p\<lparr>pg_maps_done := pg_maps_done p + 1\<rparr>) (sb_progress b)\<rparr>"

fun worker_maps :: "map_scan_fn \<Rightarrow> map_filter \<Rightarrow> scan_map list \<Rightarrow> u32 \<Rightarrow> scan_builder \<Rightarrow> (u32 \<times> scan_builder) outcome" where
  "worker_maps scan_fn f [] regions b = Returns (regions, b)"
| "worker_maps scan_fn f (m # ms) regions b0 =
     (case check_cancel True b0 of (cancel, b) \<Rightarrow>
        if cancel then Returns (regions, b)
        else case clip_map f m of
            None \<Rightarrow> worker_maps scan_fn f ms regions b
          | Some (start, len) \<Rightarrow>
              bind_outcome (scan_segments scan_fn (mf_min_len f) start (unat len) regions b) (\<lambda>(regions', b1).
                case check_cancel True b1 of (cancel', b2) \<Rightarrow>
                  if cancel' then Returns (regions', b2)
                  else worker_maps scan_fn f ms regions' (map_done b2)))"

record worker_result =
  wr_result :: scan_result
  wr_regions_scanned :: u32

definition worker_builder :: "nat \<Rightarrow> scan_progress option \<Rightarrow> scan_builder" where
  "worker_builder max_results progress =
     \<lparr>sb_result = empty_result, sb_capacity = 0, sb_max_results = max_results, sb_progress = progress\<rparr>"

definition parallel_worker_thread ::
    "(nat \<Rightarrow> bool) \<Rightarrow> map_scan_fn \<Rightarrow> map_filter \<Rightarrow> scan_map list \<Rightarrow> nat \<Rightarrow> nat \<Rightarrow> scan_progress option \<Rightarrow> partition_slot \<Rightarrow>
       worker_result outcome" where
  "parallel_worker_thread grant scan_fn f maps max_results buf_size progress slot =
     (if \<not> grant buf_size then Fails MEMDBG_ERR_NOMEM
      else bind_outcome (worker_maps scan_fn f (drop (ps_start slot) (take (ps_end slot) maps)) 0 (worker_builder max_results progress))
             (\<lambda>(regions, b). Returns \<lparr>wr_result = sb_result b, wr_regions_scanned = regions\<rparr>))"

section \<open>Merging\<close>

definition merge_scan_results :: "worker_result list \<Rightarrow> nat \<Rightarrow> scan_result" where
  "merge_scan_results ws max_results =
     (let out = empty_result\<lparr>
            sr_read_calls := sum_list (map (\<lambda>w. sr_read_calls (wr_result w)) ws),
            sr_read_errors := sum_list (map (\<lambda>w. sr_read_errors (wr_result w)) ws),
            sr_bytes_scanned := sum_list (map (\<lambda>w. sr_bytes_scanned (wr_result w)) ws),
            sr_regions_scanned := sum_list (map wr_regions_scanned ws)\<rparr>;
          found_count = sum_list (map (\<lambda>w. length (sr_entries (wr_result w))) ws);
          total_count = (if found_count > max_results then max_results else found_count);
          truncated = (list_ex (\<lambda>w. sr_truncated (wr_result w)) ws \<or> found_count > max_results)
      in if total_count = 0 then out
         else out\<lparr>sr_entries := take total_count (concat (map (\<lambda>w. sr_entries (wr_result w)) ws)), sr_truncated := truncated\<rparr>)"

definition MEMDBG_SCAN_PARALLEL_THREADS :: nat where
  "MEMDBG_SCAN_PARALLEL_THREADS = 4"

text \<open>
  The first worker that fails, in the order of the slots, gives the status. A worker whose thread
  cannot be created runs in the calling thread, which gives the same result; the model leaves out
  that the code then reads a field of that worker (\<^verbatim>\<open>threaded\<close>) that was never set.
\<close>

fun run_workers :: "(partition_slot \<Rightarrow> worker_result outcome) \<Rightarrow> partition_slot list \<Rightarrow> worker_result list outcome" where
  "run_workers run [] = Returns []"
| "run_workers run (s # ss) =
     (case run s of
        Diverges \<Rightarrow> Diverges
      | Fails st \<Rightarrow> (case run_workers run ss of Diverges \<Rightarrow> Diverges | _ \<Rightarrow> Fails st)
      | Returns w \<Rightarrow> bind_outcome (run_workers run ss) (\<lambda>ws. Returns (w # ws)))"

text \<open>\<open>progress\<close> gives each worker its view of the shared counters (the totals that a tracked scan
  publishes for its observers are left out); \<open>worker_size\<close> is the size of the
  structure of a worker.\<close>

definition scan_maps_parallel ::
    "(nat \<Rightarrow> bool) \<Rightarrow> nat \<Rightarrow> map_scan_fn \<Rightarrow> scan_map list option \<Rightarrow> nat \<Rightarrow> nat \<Rightarrow> map_filter \<Rightarrow>
       (partition_slot \<Rightarrow> scan_progress option) \<Rightarrow> scan_result outcome" where
  "scan_maps_parallel grant worker_size scan_fn maps max_results buf_size f progress =
     (if \<not> grant (MEMDBG_SCAN_PARALLEL_THREADS * 16) then Fails MEMDBG_ERR_NOMEM
      else bind_outcome (partition_maps_by_bytes grant maps f MEMDBG_SCAN_PARALLEL_THREADS) (\<lambda>(slots, used).
        if \<not> grant (used * worker_size) then Fails MEMDBG_ERR_NOMEM
        else if \<not> grant (max_results * 8) then Fails MEMDBG_ERR_NOMEM
        else bind_outcome (run_workers (\<lambda>slot. parallel_worker_thread grant scan_fn f (entries_of maps) max_results buf_size (progress slot) slot)
               (take used slots)) (\<lambda>ws. Returns (merge_scan_results ws max_results))))"

section \<open>The requests\<close>

record process_exact_request =
  px_pid :: int
  px_value_type :: u32
  px_value_length :: u32
  px_alignment :: u32
  px_max_results :: u32
  px_protection_mask :: u32
  px_start :: u64
  px_end :: u64
  px_value :: "byte list"

definition scan_range_cb :: "(nat \<Rightarrow> bool) \<Rightarrow> reader \<Rightarrow> scan_context \<Rightarrow> map_scan_fn" where
  "scan_range_cb grant rd ctx start len b = scan_range grant rd ctx start len start True b"

definition request_filter :: "u32 \<Rightarrow> u64 \<Rightarrow> u64 \<Rightarrow> nat \<Rightarrow> map_filter" where
  "request_filter protection_mask start_filter end_filter min_len =
     \<lparr>mf_prot_mask = (if protection_mask = 0 then 1 else protection_mask), mf_start = start_filter, mf_end = end_filter, mf_min_len = min_len\<rparr>"

text \<open>The maps of the process come from the process cache and are an argument, a status or the pointer to the list.\<close>

definition process_exact ::
    "(nat \<Rightarrow> bool) \<Rightarrow> nat \<Rightarrow> reader \<Rightarrow> nat \<Rightarrow> (memdbg_status + scan_map list option) \<Rightarrow> (partition_slot \<Rightarrow> scan_progress option) \<Rightarrow>
       process_exact_request \<Rightarrow> scan_result outcome" where
  "process_exact grant worker_size rd chunk maps progress request =
     bind_outcome (scan_context_init grant (px_pid request) (px_value_type request) (px_value_length request)
         (px_alignment request) (px_value request) chunk False) (\<lambda>ctx.
       case maps of
         Inl st \<Rightarrow> Fails st
       | Inr entries \<Rightarrow>
           scan_maps_parallel grant worker_size (scan_range_cb grant rd ctx) entries
             (if px_max_results request = 0 then 1 else unat (px_max_results request))
             (sc_read_chunk ctx + sc_value_len ctx - 1)
             (request_filter (px_protection_mask request) (px_start request) (px_end request) (sc_value_len ctx)) progress)"

definition memdbg_scan_process_exact ::
    "(nat \<Rightarrow> bool) \<Rightarrow> nat \<Rightarrow> reader \<Rightarrow> nat \<Rightarrow> (memdbg_status + scan_map list option) \<Rightarrow> process_exact_request \<Rightarrow> scan_result outcome" where
  "memdbg_scan_process_exact grant worker_size rd chunk maps request =
     process_exact grant worker_size rd chunk maps (\<lambda>_. None) request"

text \<open>The tracked scan marks its result when a cancellation has been requested by the end.\<close>

definition memdbg_scan_process_exact_tracked ::
    "(nat \<Rightarrow> bool) \<Rightarrow> nat \<Rightarrow> reader \<Rightarrow> nat \<Rightarrow> (memdbg_status + scan_map list option) \<Rightarrow> (partition_slot \<Rightarrow> scan_progress) \<Rightarrow> bool \<Rightarrow>
       process_exact_request \<Rightarrow> scan_result outcome" where
  "memdbg_scan_process_exact_tracked grant worker_size rd chunk maps progress cancelled request =
     bind_outcome (process_exact grant worker_size rd chunk maps (\<lambda>s. Some (progress s)) request)
       (\<lambda>r. Returns (if cancelled then r\<lparr>sr_truncated := True, sr_cancelled := True\<rparr> else r))"

record process_aob_request =
  pa_protection_mask :: u32
  pa_max_results :: u32
  pa_start :: u64
  pa_end :: u64

definition memdbg_scan_process_aob ::
    "(nat \<Rightarrow> bool) \<Rightarrow> nat \<Rightarrow> reader \<Rightarrow> nat \<Rightarrow> (memdbg_status + scan_map list option) \<Rightarrow> process_aob_request \<Rightarrow> byte list \<Rightarrow> byte list \<Rightarrow>
       scan_result outcome" where
  "memdbg_scan_process_aob grant worker_size rd chunk maps request pattern msk =
     (if length pattern = 0 \<or> length pattern > 256 then Fails MEMDBG_ERR_PARAM
      else case maps of
        Inl st \<Rightarrow> Fails st
      | Inr entries \<Rightarrow>
          scan_maps_parallel grant worker_size
            (scan_aob_range grant rd chunk (bm_build_table (grant (length pattern * 8)) pattern msk) pattern msk) entries
            (if pa_max_results request = 0 then 1 else unat (pa_max_results request))
            (chunk + (length pattern - 1))
            (request_filter (pa_protection_mask request) (pa_start request) (pa_end request) (length pattern)) (\<lambda>_. None))"

end
