(* ===== verification/Page_Walker.thy ===== *)
theory Page_Walker
  imports Scan_Parallel
begin

text \<open>
  The page-table walker of the daemon (\<^verbatim>\<open>src/src/scanner/scan/walker.c\<close>, on the platform that
  has it): it finds the base of the kernel's direct map of physical memory, resolves addresses of a
  process through its page tables, reads and writes through the direct map, and adds to the maps of
  a process what its page tables show. The primitives that copy from and to kernel memory are the
  fields of the record \<open>kernel\<close>, functions on a kernel of any type; a copy may fail. The caches of
  the file are the record \<open>ptw\<close>; every access to them is under one lock.
\<close>

unbundle bit_operations_syntax

section \<open>The kernel\<close>

text \<open>A copy to kernel memory says whether it succeeded; the address of the marker variable and the
  process identifier of the daemon are fields too.\<close>

record 'k kernel =
  kernel_copyout :: "u64 \<Rightarrow> nat \<Rightarrow> 'k \<Rightarrow> byte list option"
  kernel_copyin :: "byte list \<Rightarrow> u64 \<Rightarrow> 'k \<Rightarrow> bool \<times> 'k"
  kernel_get_proc :: "u32 \<Rightarrow> 'k \<Rightarrow> u64"
  memdbg_kernel_fast_available :: bool
  memdbg_kernel_copyout_fast :: "u64 \<Rightarrow> nat \<Rightarrow> 'k \<Rightarrow> byte list option"
  memdbg_kernel_copyin_fast :: "byte list \<Rightarrow> u64 \<Rightarrow> 'k \<Rightarrow> bool \<times> 'k"
  memdbg_kernel_get_proc_fast :: "u32 \<Rightarrow> 'k \<Rightarrow> u64"
  getpid :: u32
  known_value_addr :: u64

definition kread :: "'k kernel \<Rightarrow> u64 \<Rightarrow> nat \<Rightarrow> 'k \<Rightarrow> byte list option" where
  "kread K kaddr n k =
     (case kernel_copyout K kaddr n k of
        Some bs \<Rightarrow> Some bs
      | None \<Rightarrow> if memdbg_kernel_fast_available K then memdbg_kernel_copyout_fast K kaddr n k else None)"

definition kwrite :: "'k kernel \<Rightarrow> byte list \<Rightarrow> u64 \<Rightarrow> 'k \<Rightarrow> bool \<times> 'k" where
  "kwrite K bs kaddr k =
     (case kernel_copyin K bs kaddr k of
        (True, k1) \<Rightarrow> (True, k1)
      | (False, k1) \<Rightarrow> if memdbg_kernel_fast_available K then memdbg_kernel_copyin_fast K bs kaddr k1 else (False, k1))"

definition kernel_proc :: "'k kernel \<Rightarrow> u32 \<Rightarrow> 'k \<Rightarrow> u64" where
  "kernel_proc K pid k =
     (if memdbg_kernel_fast_available K then memdbg_kernel_get_proc_fast K pid k else kernel_get_proc K pid k)"

definition kread64 :: "'k kernel \<Rightarrow> u64 \<Rightarrow> 'k \<Rightarrow> u64 option" where
  "kread64 K kaddr k = map_option (\<lambda>bs. get_u64 bs 0) (kread K kaddr 8 k)"

section \<open>Constants\<close>

definition PTW_PHYS_MASK :: u64 where "PTW_PHYS_MASK = 0x000FFFFFFFFFF000"

definition PTW_PHYS_BOUND :: u64 where "PTW_PHYS_BOUND = 0x1000000000"

definition PTW_CANON_KERNEL :: u64 where "PTW_CANON_KERNEL = 0x1FFFF"

definition PTW_PTE_PRESENT :: u64 where "PTW_PTE_PRESENT = 0x1"

definition PTW_PTE_RW :: u64 where "PTW_PTE_RW = 0x2"

definition PTW_PTE_PS :: u64 where "PTW_PTE_PS = 0x80"

definition PTW_PTE_NX :: u64 where "PTW_PTE_NX = 0x8000000000000000"

definition PTW_USER_PML4_LIMIT :: nat where "PTW_USER_PML4_LIMIT = 256"

definition PTW_MAX_ENTRIES :: nat where "PTW_MAX_ENTRIES = 16384"

definition PTW_PROC_VMSPACE_OFF :: u64 where "PTW_PROC_VMSPACE_OFF = 0x200"

definition PTW_PMAP_OFF_KNOWN :: u64 where "PTW_PMAP_OFF_KNOWN = 0x300"

definition PTW_VMSPACE_SCAN_END :: nat where "PTW_VMSPACE_SCAN_END = 0x400"

definition ptw_known_value :: u64 where "ptw_known_value = 0x5E7C0DE5E7C0DE71"

section \<open>The caches\<close>

record vmcache_entry =
  vc_pid :: u32
  vc_kproc :: u64
  vc_vmspace :: u64
  vc_pml4 :: u64
  vc_cr3 :: u64

definition PTW_VMCACHE_N :: nat where "PTW_VMCACHE_N = 4"

record aux_cache_slot =
  ac_ranges :: "(u64 \<times> u64) list"
  ac_pid :: u32

definition AUX_CACHE_MAX :: nat where "AUX_CACHE_MAX = 4096"

definition AUX_CACHE_SLOTS :: nat where "AUX_CACHE_SLOTS = 4"

text \<open>The state of the discovery is 0 before it, 1 after a success and -1 after a failure.\<close>

record ptw =
  g_ptw_state :: int
  g_ptw_dmap :: u64
  g_ptw_pmap_off :: u64
  g_vmcache :: "vmcache_entry list"
  g_vmcache_next :: nat
  g_aux_cache :: "aux_cache_slot list"
  g_aux_cache_next :: u32

definition ptw_flush :: "ptw \<Rightarrow> ptw" where
  "ptw_flush s = \<lparr>g_ptw_state = 0, g_ptw_dmap = 0, g_ptw_pmap_off = 0,
     g_vmcache = replicate PTW_VMCACHE_N \<lparr>vc_pid = 0, vc_kproc = 0, vc_vmspace = 0, vc_pml4 = 0, vc_cr3 = 0\<rparr>, g_vmcache_next = 0,
     g_aux_cache = replicate AUX_CACHE_SLOTS \<lparr>ac_ranges = [], ac_pid = 0\<rparr>, g_aux_cache_next = 0\<rparr>"

text \<open>The page table of a process, from the cache or from the kernel's structures. On a failure the
  cache stays as it is.\<close>

definition cache_process :: "u32 \<Rightarrow> u64 \<Rightarrow> u64 \<Rightarrow> u64 \<Rightarrow> u64 \<Rightarrow> ptw \<Rightarrow> ptw" where
  "cache_process pid kproc vmspace pml4 cr3 s =
     s\<lparr>g_vmcache := (g_vmcache s)[g_vmcache_next s := \<lparr>vc_pid = pid, vc_kproc = kproc, vc_vmspace = vmspace, vc_pml4 = pml4, vc_cr3 = cr3\<rparr>],
       g_vmcache_next := (g_vmcache_next s + 1) mod PTW_VMCACHE_N\<rparr>"

definition ptw_resolve_pid :: "'k kernel \<Rightarrow> u32 \<Rightarrow> 'k \<Rightarrow> ptw \<Rightarrow> u64 option \<times> ptw" where
  "ptw_resolve_pid K pid k s =
     (case find (\<lambda>e. vc_pid e = pid \<and> vc_cr3 e \<noteq> 0) (g_vmcache s) of
        Some e \<Rightarrow> (Some (vc_cr3 e), s)
      | None \<Rightarrow>
          let kproc = kernel_proc K pid k in
          if kproc = 0 then (None, s)
          else case kread64 K (kproc + PTW_PROC_VMSPACE_OFF) k of
            None \<Rightarrow> (None, s)
          | Some vmspace \<Rightarrow>
              if vmspace = 0 then (None, s)
              else case kread K (vmspace + g_ptw_pmap_off s) 16 k of
                None \<Rightarrow> (None, s)
              | Some pair \<Rightarrow>
                  let pml4 = get_u64 pair 0; cr3 = get_u64 pair 8 in
                  if cr3 = 0 \<or> cr3 AND 0xFFF \<noteq> 0 \<or> cr3 \<ge> PTW_PHYS_BOUND then (None, s)
                  else if pml4 - cr3 \<noteq> g_ptw_dmap s then (None, s)
                  else (Some cr3, cache_process pid kproc vmspace pml4 cr3 s))"

section \<open>Walking the tables\<close>

definition table_index :: "nat \<Rightarrow> u64 \<Rightarrow> u64" where
  "table_index level va = drop_bit (39 - level * 9) va AND 0x1FF"

definition table_entry :: "'k kernel \<Rightarrow> u64 \<Rightarrow> u64 \<Rightarrow> nat \<Rightarrow> u64 \<Rightarrow> 'k \<Rightarrow> u64 option" where
  "table_entry K dmap tbl level va k = kread64 K (dmap + tbl + table_index level va * 8) k"

function va_to_phys_from :: "'k kernel \<Rightarrow> u64 \<Rightarrow> u64 \<Rightarrow> 'k \<Rightarrow> nat \<Rightarrow> u64 \<Rightarrow> u64" where
  "va_to_phys_from K dmap va k level tbl =
     (if level \<ge> 4 then 0
      else if tbl \<ge> PTW_PHYS_BOUND then 0
      else case table_entry K dmap tbl level va k of
          None \<Rightarrow> 0
        | Some e \<Rightarrow>
            if e AND PTW_PTE_PRESENT = 0 then 0
            else if level = 3 then (e AND PTW_PHYS_MASK) OR (va AND 0xFFF)
            else if (level = 1 \<or> level = 2) \<and> e AND PTW_PTE_PS \<noteq> 0
            then let pgmask = (if level = 1 then 0x3FFFFFFF else 0x1FFFFF)
                 in ((e AND PTW_PHYS_MASK) AND NOT pgmask) OR (va AND pgmask)
            else va_to_phys_from K dmap va k (level + 1) (e AND PTW_PHYS_MASK))"
  by pat_completeness auto
termination
  by (relation "measure (\<lambda>(K, dmap, va, k, level, tbl). 4 - level)") auto

declare va_to_phys_from.simps [simp del]

definition ptw_va_to_phys :: "'k kernel \<Rightarrow> u64 \<Rightarrow> u64 \<Rightarrow> u64 \<Rightarrow> 'k \<Rightarrow> u64" where
  "ptw_va_to_phys K dmap cr3 va k = va_to_phys_from K dmap va k 0 (cr3 AND PTW_PHYS_MASK)"

text \<open>The leaf entry of an address and its level, if there is one.\<close>

function walk_leaf_from :: "'k kernel \<Rightarrow> u64 \<Rightarrow> u64 \<Rightarrow> 'k \<Rightarrow> nat \<Rightarrow> u64 \<Rightarrow> (u64 \<times> nat) option" where
  "walk_leaf_from K dmap va k level tbl =
     (if level \<ge> 4 then None
      else if tbl \<ge> PTW_PHYS_BOUND then None
      else case table_entry K dmap tbl level va k of
          None \<Rightarrow> None
        | Some e \<Rightarrow>
            if e AND PTW_PTE_PRESENT = 0 then None
            else if level = 3 then Some (e, 3)
            else if (level = 1 \<or> level = 2) \<and> e AND PTW_PTE_PS \<noteq> 0 then Some (e, level)
            else walk_leaf_from K dmap va k (level + 1) (e AND PTW_PHYS_MASK))"
  by pat_completeness auto
termination
  by (relation "measure (\<lambda>(K, dmap, va, k, level, tbl). 4 - level)") auto

declare walk_leaf_from.simps [simp del]

definition ptw_walk_leaf_inner :: "'k kernel \<Rightarrow> u64 \<Rightarrow> u64 \<Rightarrow> u64 \<Rightarrow> 'k \<Rightarrow> (u64 \<times> nat) option" where
  "ptw_walk_leaf_inner K dmap cr3 va k = walk_leaf_from K dmap va k 0 (cr3 AND PTW_PHYS_MASK)"

section \<open>Finding the direct map\<close>

text \<open>Zero stands for a failure, as in the code.\<close>

definition ptw_try_offset :: "'k kernel \<Rightarrow> u64 \<Rightarrow> u64 \<Rightarrow> u64 \<Rightarrow> u64 \<Rightarrow> 'k \<Rightarrow> u64" where
  "ptw_try_offset K vmspace off verify_va verify_val k =
     (case kread K (vmspace + off) 16 k of
        None \<Rightarrow> 0
      | Some pair \<Rightarrow>
          let pml4_va = get_u64 pair 0; cr3 = get_u64 pair 8; dmap = pml4_va - cr3 in
          if drop_bit 47 pml4_va \<noteq> PTW_CANON_KERNEL then 0
          else if pml4_va AND 0xFFF \<noteq> 0 then 0
          else if cr3 = 0 \<or> cr3 AND 0xFFF \<noteq> 0 then 0
          else if cr3 \<ge> PTW_PHYS_BOUND then 0
          else if dmap AND 0xFFFFFFFF \<noteq> 0 then 0
          else if drop_bit 47 dmap \<noteq> PTW_CANON_KERNEL then 0
          else let phys = ptw_va_to_phys K dmap cr3 verify_va k in
            if phys = 0 then 0
            else case kread64 K (dmap + phys) k of
              None \<Rightarrow> 0
            | Some probe \<Rightarrow> if probe \<noteq> verify_val then 0 else dmap)"

definition other_offsets :: "u64 list" where
  "other_offsets = filter (\<lambda>off. off \<noteq> PTW_PMAP_OFF_KNOWN) (map (\<lambda>i. word_of_nat (0x100 + 8 * i)) [0..<(PTW_VMSPACE_SCAN_END - 16 - 0x100) div 8 + 1])"

text \<open>The offset of the page table in the structure of the process, the documented one first.\<close>

definition find_offset :: "'k kernel \<Rightarrow> u64 \<Rightarrow> 'k \<Rightarrow> (u64 \<times> u64) option" where
  "find_offset K vmspace k =
     map_option (\<lambda>off. (ptw_try_offset K vmspace off (known_value_addr K) ptw_known_value k, off))
       (find (\<lambda>off. ptw_try_offset K vmspace off (known_value_addr K) ptw_known_value k \<noteq> 0) (PTW_PMAP_OFF_KNOWN # other_offsets))"

definition discover_dmap :: "'k kernel \<Rightarrow> 'k \<Rightarrow> (u64 \<times> u64) option" where
  "discover_dmap K k =
     (let kproc = kernel_proc K (getpid K) k in
      if kproc = 0 then None
      else case kread64 K (kproc + PTW_PROC_VMSPACE_OFF) k of
        None \<Rightarrow> None
      | Some vmspace \<Rightarrow> if vmspace = 0 then None else find_offset K vmspace k)"

definition ptw_discover :: "'k kernel \<Rightarrow> 'k \<Rightarrow> ptw \<Rightarrow> bool \<times> ptw" where
  "ptw_discover K k s =
     (if g_ptw_state s \<noteq> 0 then (g_ptw_state s = 1, s)
      else case discover_dmap K k of
        None \<Rightarrow> (False, s\<lparr>g_ptw_state := - 1\<rparr>)
      | Some (dmap, off) \<Rightarrow> (True, s\<lparr>g_ptw_state := 1, g_ptw_dmap := dmap, g_ptw_pmap_off := off\<rparr>))"

definition ptw_is_available :: "'k kernel \<Rightarrow> 'k \<Rightarrow> ptw \<Rightarrow> bool \<times> ptw" where
  "ptw_is_available K k s =
     (let s1 = (if g_ptw_state s = 0 then snd (ptw_discover K k s) else s) in (g_ptw_state s1 = 1, s1))"

text \<open>What every operation on a process begins with: the page table, if all is well.\<close>

definition ptw_process :: "'k kernel \<Rightarrow> u32 \<Rightarrow> 'k \<Rightarrow> ptw \<Rightarrow> u64 option \<times> ptw" where
  "ptw_process K pid k s =
     (if sint pid \<le> 0 then (None, s)
      else case ptw_is_available K k s of (ok, s1) \<Rightarrow>
        if \<not> ok then (None, s1) else ptw_resolve_pid K pid k s1)"

section \<open>Resolving an address\<close>

definition page_size :: "nat \<Rightarrow> u64 option" where
  "page_size level = (if level = 3 then Some 0x1000 else if level = 2 then Some 0x200000 else if level = 1 then Some 0x40000000 else None)"

definition leaf_phys :: "u64 \<Rightarrow> u64 \<Rightarrow> u64 \<Rightarrow> u64" where
  "leaf_phys e pgsz va = ((e AND PTW_PHYS_MASK) AND NOT (pgsz - 1)) + (va AND (pgsz - 1))"

record probe_result =
  pr_phys :: u64
  pr_level :: nat
  pr_pagesize :: u64
  pr_pte :: u64

definition ptw_probe :: "'k kernel \<Rightarrow> u32 \<Rightarrow> u64 \<Rightarrow> 'k \<Rightarrow> ptw \<Rightarrow> probe_result option \<times> ptw" where
  "ptw_probe K pid va k s =
     (case ptw_process K pid k s of
        (None, s1) \<Rightarrow> (None, s1)
      | (Some cr3, s1) \<Rightarrow>
          (case ptw_walk_leaf_inner K (g_ptw_dmap s1) cr3 va k of
             None \<Rightarrow> (None, s1)
           | Some (e, lv) \<Rightarrow>
               if e AND PTW_PTE_PRESENT = 0 then (None, s1)
               else case page_size lv of
                   None \<Rightarrow> (None, s1)
                 | Some pgsz \<Rightarrow> (Some \<lparr>pr_phys = leaf_phys e pgsz va, pr_level = lv, pr_pagesize = pgsz, pr_pte = e\<rparr>, s1)))"

text \<open>A span of two megabytes: in a huge page (its physical base and entry), or a table of small pages
  (its address in the direct map).\<close>

datatype span = Huge_Span u64 u64 | Small_Span u64

function span_from :: "'k kernel \<Rightarrow> u64 \<Rightarrow> u64 \<Rightarrow> 'k \<Rightarrow> nat \<Rightarrow> u64 \<Rightarrow> span option" where
  "span_from K dmap span_2m k level tbl =
     (if tbl \<ge> PTW_PHYS_BOUND then None
      else if level \<ge> 3 then Some (Small_Span (dmap + tbl))
      else case table_entry K dmap tbl level span_2m k of
          None \<Rightarrow> None
        | Some e \<Rightarrow>
            if e AND PTW_PTE_PRESENT = 0 then None
            else if (level = 1 \<or> level = 2) \<and> e AND PTW_PTE_PS \<noteq> 0
            then let pgsz = (if level = 1 then 0x40000000 else 0x200000)
                 in Some (Huge_Span (((e AND PTW_PHYS_MASK) AND NOT (pgsz - 1)) + (span_2m AND (pgsz - 1))) e)
            else span_from K dmap span_2m k (level + 1) (e AND PTW_PHYS_MASK))"
  by pat_completeness auto
termination
  by (relation "measure (\<lambda>(K, dmap, va, k, level, tbl). 3 - level)") auto

declare span_from.simps [simp del]

definition ptw_span_resolve :: "'k kernel \<Rightarrow> u32 \<Rightarrow> u64 \<Rightarrow> 'k \<Rightarrow> ptw \<Rightarrow> span option \<times> ptw" where
  "ptw_span_resolve K pid span_2m k s =
     (case ptw_process K pid k s of
        (None, s1) \<Rightarrow> (None, s1)
      | (Some cr3, s1) \<Rightarrow> (span_from K (g_ptw_dmap s1) span_2m k 0 (cr3 AND PTW_PHYS_MASK), s1))"

text \<open>The address of a leaf entry and the entry, which need not be present; the numbers are the codes.\<close>

function leaf_addr_from :: "'k kernel \<Rightarrow> u64 \<Rightarrow> u64 \<Rightarrow> 'k \<Rightarrow> nat \<Rightarrow> u64 \<Rightarrow> nat + u64 \<times> u64" where
  "leaf_addr_from K dmap va k level tbl =
     (if level \<ge> 4 then Inl 1
      else if tbl \<ge> PTW_PHYS_BOUND then Inl 1
      else case table_entry K dmap tbl level va k of
          None \<Rightarrow> Inl 1
        | Some e \<Rightarrow>
            if level = 3 then Inr (dmap + tbl + table_index level va * 8, e)
            else if e AND PTW_PTE_PRESENT = 0 then Inl 2
            else if (level = 1 \<or> level = 2) \<and> e AND PTW_PTE_PS \<noteq> 0 then Inl 3
            else leaf_addr_from K dmap va k (level + 1) (e AND PTW_PHYS_MASK))"
  by pat_completeness auto
termination
  by (relation "measure (\<lambda>(K, dmap, va, k, level, tbl). 4 - level)") auto

declare leaf_addr_from.simps [simp del]

definition ptw_leaf_addr :: "'k kernel \<Rightarrow> u32 \<Rightarrow> u64 \<Rightarrow> 'k \<Rightarrow> ptw \<Rightarrow> (nat + u64 \<times> u64) \<times> ptw" where
  "ptw_leaf_addr K pid va k s =
     (case ptw_process K pid k s of
        (None, s1) \<Rightarrow> (Inl 1, s1)
      | (Some cr3, s1) \<Rightarrow> (leaf_addr_from K (g_ptw_dmap s1) va k 0 (cr3 AND PTW_PHYS_MASK), s1))"

section \<open>Reading and writing through the direct map\<close>

record batch =
  bt_phys :: u64
  bt_len :: nat
  bt_va_end :: u64

text \<open>The next piece of a transfer, up to the end of its page: its physical address and its length.\<close>

definition next_piece :: "'k kernel \<Rightarrow> u64 \<Rightarrow> u64 \<Rightarrow> u64 \<Rightarrow> nat \<Rightarrow> 'k \<Rightarrow> (u64 \<times> nat) option" where
  "next_piece K dmap cr3 cur_va left k =
     (case ptw_walk_leaf_inner K dmap cr3 cur_va k of
        None \<Rightarrow> None
      | Some (e, lv) \<Rightarrow>
          (case page_size lv of
             None \<Rightarrow> None
           | Some pgsz \<Rightarrow>
               let phys = leaf_phys e pgsz cur_va;
                   avail = unat (pgsz - (cur_va AND (pgsz - 1)));
                   n = (if left > avail then avail else left)
               in if phys \<ge> PTW_PHYS_BOUND \<or> phys + word_of_nat n > PTW_PHYS_BOUND then None else Some (phys, n)))"

lemma page_size_cases:
  assumes "page_size lv = Some pgsz"
  obtains "lv = 3" "pgsz = 0x1000" | "lv = 2" "pgsz = 0x200000" | "lv = 1" "pgsz = 0x40000000"
  using assms by (auto simp: page_size_def split: if_splits)

lemma page_offset_less:
  assumes "page_size lv = Some pgsz"
  shows "va AND (pgsz - 1) < pgsz"
proof -
  have "va AND (pgsz - 1) \<le> pgsz - 1" by (rule word_and_le1)
  moreover have "pgsz - 1 < pgsz" using assms by (cases rule: page_size_cases) simp_all
  ultimately show ?thesis by (rule le_less_trans)
qed

lemma next_piece_pos:
  assumes "next_piece K dmap cr3 cur_va left k = Some (phys, n)" "0 < left"
  shows "0 < n \<and> n \<le> left"
proof -
  obtain e lv pgsz where "page_size lv = Some pgsz"
    "n = (if left > unat (pgsz - (cur_va AND (pgsz - 1))) then unat (pgsz - (cur_va AND (pgsz - 1))) else left)"
    using assms(1) by (auto simp: next_piece_def Let_def split: option.splits prod.splits if_splits)
  moreover have "cur_va AND (pgsz - 1) < pgsz" by (rule page_offset_less [OF calculation(1)])
  then have "0 < unat (pgsz - (cur_va AND (pgsz - 1)))" by (simp add: unat_sub less_imp_le word_less_nat_alt)
  ultimately show ?thesis using assms(2) by simp
qed

definition write_at :: "byte list \<Rightarrow> nat \<Rightarrow> byte list \<Rightarrow> byte list" where
  "write_at buf off bs = take off buf @ bs @ drop (off + length bs) buf"

definition flush_read :: "'k kernel \<Rightarrow> u64 \<Rightarrow> nat \<Rightarrow> batch \<Rightarrow> byte list \<Rightarrow> 'k \<Rightarrow> byte list option" where
  "flush_read K dmap pos b out k =
     (if bt_len b > 0 then map_option (write_at out (pos - bt_len b)) (kread K (dmap + bt_phys b) (bt_len b) k) else Some out)"

definition joins_batch :: "batch \<Rightarrow> u64 \<Rightarrow> u64 \<Rightarrow> bool" where
  "joins_batch b phys cur_va \<longleftrightarrow> bt_len b > 0 \<and> phys = bt_phys b + word_of_nat (bt_len b) \<and> cur_va = bt_va_end b"

text \<open>Pieces that are adjacent in physical memory are read together. The buffer has the bytes before the batch.\<close>

function read_loop :: "'k kernel \<Rightarrow> u64 \<Rightarrow> u64 \<Rightarrow> u64 \<Rightarrow> nat \<Rightarrow> 'k \<Rightarrow> nat \<Rightarrow> batch \<Rightarrow> byte list \<Rightarrow> byte list option" where
  "read_loop K dmap cr3 va len k pos b out =
     (if pos < len
      then let cur_va = va + word_of_nat pos in
           case next_piece K dmap cr3 cur_va (len - pos) k of
             None \<Rightarrow> None
           | Some (phys, n) \<Rightarrow>
               if joins_batch b phys cur_va
               then read_loop K dmap cr3 va len k (pos + n) (b\<lparr>bt_len := bt_len b + n, bt_va_end := cur_va + word_of_nat n\<rparr>) out
               else (case flush_read K dmap pos b out k of
                       None \<Rightarrow> None
                     | Some out1 \<Rightarrow>
                         read_loop K dmap cr3 va len k (pos + n) \<lparr>bt_phys = phys, bt_len = n, bt_va_end = cur_va + word_of_nat n\<rparr> out1)
      else flush_read K dmap pos b out k)"
  by pat_completeness auto
termination
  by (relation "measure (\<lambda>(K, dmap, cr3, va, len, k, pos, b, out). len - pos)") (auto dest: next_piece_pos)

declare read_loop.simps [simp del]

definition no_batch :: batch where
  "no_batch = \<lparr>bt_phys = 0, bt_len = 0, bt_va_end = 0\<rparr>"

text \<open>The buffer of the caller is \<open>dst\<close>; the result is its content after a read that succeeds.\<close>

definition ptw_read :: "'k kernel \<Rightarrow> u32 \<Rightarrow> u64 \<Rightarrow> nat \<Rightarrow> byte list \<Rightarrow> 'k \<Rightarrow> ptw \<Rightarrow> byte list option \<times> ptw" where
  "ptw_read K pid va len dst k s =
     (if len = 0 then (None, s)
      else case ptw_process K pid k s of
        (None, s1) \<Rightarrow> (None, s1)
      | (Some cr3, s1) \<Rightarrow> (read_loop K (g_ptw_dmap s1) cr3 va len k 0 no_batch dst, s1))"

definition flush_write :: "'k kernel \<Rightarrow> u64 \<Rightarrow> byte list \<Rightarrow> nat \<Rightarrow> batch \<Rightarrow> 'k \<Rightarrow> bool \<times> 'k" where
  "flush_write K dmap src pos b k =
     (if bt_len b > 0 then kwrite K (take (bt_len b) (drop (pos - bt_len b) src)) (dmap + bt_phys b) k else (True, k))"

text \<open>The tables are read in the kernel as the earlier pieces left it.\<close>

function write_loop :: "'k kernel \<Rightarrow> u64 \<Rightarrow> u64 \<Rightarrow> u64 \<Rightarrow> byte list \<Rightarrow> nat \<Rightarrow> batch \<Rightarrow> 'k \<Rightarrow> bool \<times> 'k" where
  "write_loop K dmap cr3 va src pos b k =
     (if pos < length src
      then let cur_va = va + word_of_nat pos in
           case next_piece K dmap cr3 cur_va (length src - pos) k of
             None \<Rightarrow> (False, k)
           | Some (phys, n) \<Rightarrow>
               if joins_batch b phys cur_va
               then write_loop K dmap cr3 va src (pos + n) (b\<lparr>bt_len := bt_len b + n, bt_va_end := cur_va + word_of_nat n\<rparr>) k
               else (case flush_write K dmap src pos b k of
                       (False, k1) \<Rightarrow> (False, k1)
                     | (True, k1) \<Rightarrow>
                         write_loop K dmap cr3 va src (pos + n) \<lparr>bt_phys = phys, bt_len = n, bt_va_end = cur_va + word_of_nat n\<rparr> k1)
      else flush_write K dmap src pos b k)"
  by pat_completeness auto
termination
  by (relation "measure (\<lambda>(K, dmap, cr3, va, src, pos, b, k). length src - pos)") (auto dest: next_piece_pos)

declare write_loop.simps [simp del]

definition ptw_write :: "'k kernel \<Rightarrow> u32 \<Rightarrow> u64 \<Rightarrow> byte list \<Rightarrow> 'k \<Rightarrow> ptw \<Rightarrow> bool \<times> 'k \<times> ptw" where
  "ptw_write K pid va src k s =
     (if src = [] then (False, k, s)
      else case ptw_process K pid k s of
        (None, s1) \<Rightarrow> (False, k, s1)
      | (Some cr3, s1) \<Rightarrow> (case write_loop K (g_ptw_dmap s1) cr3 va src 0 no_batch k of (ok, k1) \<Rightarrow> (ok, k1, s1)))"

section \<open>Enumerating the tables\<close>

definition ptw_prot_from_pte :: "u64 \<Rightarrow> u32" where
  "ptw_prot_from_pte pte = 1 OR (if pte AND PTW_PTE_RW \<noteq> 0 then 2 else 0) OR (if pte AND PTW_PTE_NX = 0 then 4 else 0)"

text \<open>Entries are collected in order; the last one is still open.\<close>

record ptw_coal =
  co_ents :: "scan_map list"
  co_cur :: "scan_map option"

definition ptw_coal_flush :: "ptw_coal \<Rightarrow> ptw_coal" where
  "ptw_coal_flush c =
     (case co_cur c of
        None \<Rightarrow> c
      | Some m \<Rightarrow> if length (co_ents c) \<ge> PTW_MAX_ENTRIES then c else c\<lparr>co_ents := co_ents c @ [m]\<rparr>)"

definition ptw_coal_emit :: "u64 \<Rightarrow> u64 \<Rightarrow> u64 \<Rightarrow> ptw_coal \<Rightarrow> ptw_coal" where
  "ptw_coal_emit start end_va pte c =
     (let prot = ptw_prot_from_pte pte;
          fresh = (ptw_coal_flush c)\<lparr>co_cur := Some \<lparr>sm_start = start, sm_end = end_va, sm_protection = prot\<rparr>\<rparr>
      in case co_cur c of
           None \<Rightarrow> fresh
         | Some m \<Rightarrow> if start = sm_end m \<and> prot = sm_protection m then c\<lparr>co_cur := Some (m\<lparr>sm_end := end_va\<rparr>)\<rparr> else fresh)"

fun while_room :: "(nat \<Rightarrow> ptw_coal \<Rightarrow> ptw_coal) \<Rightarrow> nat list \<Rightarrow> ptw_coal \<Rightarrow> ptw_coal" where
  "while_room f [] c = c"
| "while_room f (i # is) c = (if length (co_ents c) < PTW_MAX_ENTRIES then while_room f is (f i c) else c)"

definition kread_table :: "'k kernel \<Rightarrow> u64 \<Rightarrow> u64 \<Rightarrow> 'k \<Rightarrow> u64 list option" where
  "kread_table K dmap tbl k =
     (if tbl \<ge> PTW_PHYS_BOUND then None
      else map_option (\<lambda>bs. map (\<lambda>i. get_u64 bs (8 * i)) [0..<512]) (kread K (dmap + tbl) 4096 k))"

definition enum_pt :: "u64 \<Rightarrow> u64 list \<Rightarrow> nat \<Rightarrow> ptw_coal \<Rightarrow> ptw_coal" where
  "enum_pt va2 pt m c =
     (let e1 = pt ! m; va1 = va2 OR push_bit 12 (word_of_nat m)
      in if e1 AND PTW_PTE_PRESENT = 0 then c else ptw_coal_emit va1 (va1 + 0x1000) e1 c)"

definition enum_pd :: "'k kernel \<Rightarrow> u64 \<Rightarrow> 'k \<Rightarrow> u64 \<Rightarrow> u64 list \<Rightarrow> nat \<Rightarrow> ptw_coal \<Rightarrow> ptw_coal" where
  "enum_pd K dmap k va3 pd i c =
     (let e2 = pd ! i; va2 = va3 OR push_bit 21 (word_of_nat i)
      in if e2 AND PTW_PTE_PRESENT = 0 then c
         else if e2 AND PTW_PTE_PS \<noteq> 0 then ptw_coal_emit va2 (va2 + 0x200000) e2 c
         else case kread_table K dmap (e2 AND PTW_PHYS_MASK) k of
             None \<Rightarrow> c
           | Some pt \<Rightarrow> while_room (enum_pt va2 pt) [0..<512] c)"

definition enum_pdpt :: "'k kernel \<Rightarrow> u64 \<Rightarrow> 'k \<Rightarrow> nat \<Rightarrow> u64 list \<Rightarrow> nat \<Rightarrow> ptw_coal \<Rightarrow> ptw_coal" where
  "enum_pdpt K dmap k i pdpt j c =
     (let e3 = pdpt ! j; va3 = push_bit 39 (word_of_nat i) OR push_bit 30 (word_of_nat j)
      in if e3 AND PTW_PTE_PRESENT = 0 then c
         else if e3 AND PTW_PTE_PS \<noteq> 0 then ptw_coal_emit va3 (va3 + 0x40000000) e3 c
         else case kread_table K dmap (e3 AND PTW_PHYS_MASK) k of
             None \<Rightarrow> c
           | Some pd \<Rightarrow> while_room (enum_pd K dmap k va3 pd) [0..<512] c)"

definition enum_pml4 :: "'k kernel \<Rightarrow> u64 \<Rightarrow> 'k \<Rightarrow> u64 list \<Rightarrow> nat \<Rightarrow> ptw_coal \<Rightarrow> ptw_coal" where
  "enum_pml4 K dmap k pml4 i c =
     (let e4 = pml4 ! i
      in if e4 AND PTW_PTE_PRESENT = 0 then c
         else case kread_table K dmap (e4 AND PTW_PHYS_MASK) k of
             None \<Rightarrow> c
           | Some pdpt \<Rightarrow> while_room (enum_pdpt K dmap k i pdpt) [0..<512] c)"

definition no_entries :: ptw_coal where
  "no_entries = \<lparr>co_ents = [], co_cur = None\<rparr>"

text \<open>\<open>alloc_ok\<close> says whether the buffers could be allocated.\<close>

definition ptw_enumerate :: "'k kernel \<Rightarrow> bool \<Rightarrow> u64 \<Rightarrow> u64 \<Rightarrow> 'k \<Rightarrow> scan_map list option" where
  "ptw_enumerate K alloc_ok dmap cr3 k =
     (if \<not> alloc_ok then None
      else case kread_table K dmap (cr3 AND PTW_PHYS_MASK) k of
        None \<Rightarrow> None
      | Some pml4 \<Rightarrow>
          let c = ptw_coal_flush (while_room (enum_pml4 K dmap k pml4) [0..<PTW_USER_PML4_LIMIT] no_entries)
          in if co_ents c = [] then None else Some (co_ents c))"

section \<open>Maps with what the tables show\<close>

text \<open>An entry of the result is a map and whether it comes from the tables, which the code notes in its name.\<close>

type_synonym aux_map = "scan_map \<times> bool"

fun merge_maps :: "aux_map list \<Rightarrow> aux_map list \<Rightarrow> aux_map list" where
  "merge_maps (v # vs) (e # es) =
     (if sm_start (fst v) = sm_start (fst e) then v # merge_maps vs es
      else if sm_start (fst v) < sm_start (fst e) then v # merge_maps vs (e # es)
      else e # merge_maps (v # vs) es)"
| "merge_maps [] es = es"
| "merge_maps vs [] = vs"

definition ptw_merge :: "bool \<Rightarrow> aux_map list \<Rightarrow> aux_map list \<Rightarrow> aux_map list option" where
  "ptw_merge alloc_ok v e = (if length v + length e = 0 then None else if \<not> alloc_ok then None else Some (merge_maps v e))"

text \<open>The slot of the process, else the first free one, else the next in turn.\<close>

fun aux_slot_from :: "u32 \<Rightarrow> aux_cache_slot list \<Rightarrow> nat \<Rightarrow> nat option \<Rightarrow> nat option" where
  "aux_slot_from pid [] i slot = slot"
| "aux_slot_from pid (c # cs) i slot =
     (if ac_pid c = pid then Some i
      else aux_slot_from pid cs (i + 1) (if slot = None \<and> ac_pid c = 0 then Some i else slot))"

definition aux_cache_rebuild :: "u32 \<Rightarrow> aux_map list \<Rightarrow> ptw \<Rightarrow> ptw" where
  "aux_cache_rebuild pid maps s0 =
     (case (case aux_slot_from pid (g_aux_cache s0) 0 None of
              Some i \<Rightarrow> (i, s0)
            | None \<Rightarrow> (unat (g_aux_cache_next s0) mod AUX_CACHE_SLOTS, s0\<lparr>g_aux_cache_next := g_aux_cache_next s0 + 1\<rparr>)) of
        (slot, s) \<Rightarrow>
          s\<lparr>g_aux_cache := (g_aux_cache s)[slot := \<lparr>
              ac_ranges = take AUX_CACHE_MAX (map (\<lambda>(m, aux). (sm_start m, sm_end m)) (filter (\<lambda>(m, aux). aux \<and> sm_end m > sm_start m) maps)),
              ac_pid = pid\<rparr>]\<rparr>)"

definition ptw_aux_contains :: "u32 \<Rightarrow> u64 \<Rightarrow> u64 \<Rightarrow> ptw \<Rightarrow> bool" where
  "ptw_aux_contains pid addr len s \<longleftrightarrow>
     len \<noteq> 0 \<and> \<not> addr + len < addr \<and>
     list_ex (\<lambda>c. ac_pid c = pid \<and> list_ex (\<lambda>(a, b). addr \<ge> a \<and> addr + len \<le> b) (ac_ranges c)) (g_aux_cache s)"

definition ptw_augment_maps ::
    "'k kernel \<Rightarrow> bool \<Rightarrow> bool \<Rightarrow> u32 \<Rightarrow> aux_map list \<Rightarrow> 'k \<Rightarrow> ptw \<Rightarrow> aux_map list option \<times> ptw" where
  "ptw_augment_maps K enum_alloc merge_alloc pid vmaps k s =
     (if vmaps = [] then (None, s)
      else case ptw_process K pid k s of
        (None, s1) \<Rightarrow> (None, s1)
      | (Some cr3, s1) \<Rightarrow>
          (case ptw_enumerate K enum_alloc (g_ptw_dmap s1) cr3 k of
             None \<Rightarrow> (None, s1)
           | Some e \<Rightarrow>
               (case ptw_merge merge_alloc vmaps (map (\<lambda>m. (m, True)) e) of
                  None \<Rightarrow> (None, s1)
                | Some out \<Rightarrow> (Some out, aux_cache_rebuild pid out s1))))"

end
