(* ===== verification/Scan_Match_Correct.thy ===== *)
theory Scan_Match_Correct
  imports Scan_Match
begin

text \<open>
  What the tables of \<^verbatim>\<open>match.c\<close> promise. The bad-character table never skips an alignment at
  which the byte under the end of the window could match, wildcards included; the suffix lengths
  are the longest ones; the good-suffix table holds, for a mismatch at a position, a shift that
  passes over no occurrence. The unrolled comparisons of values compare bytes.
\<close>

section \<open>The bad-character table\<close>

definition bc_bound :: "byte list \<Rightarrow> byte list \<Rightarrow> nat \<Rightarrow> nat list \<Rightarrow> bool" where
  "bc_bound pattern msk n skip \<longleftrightarrow> length skip = 256 \<and>
     (\<forall>c<256. 1 \<le> skip ! c \<and> skip ! c \<le> length pattern \<and> (\<forall>i<n. msk ! i = 0 \<or> unat (pattern ! i) = c \<longrightarrow> skip ! c \<le> length pattern - 1 - i))"

lemma unat_byte_less [simp]: "unat (b :: byte) < 256"
  using unsigned_less [of b, where 'a = nat] by simp

lemma bc_step_bound:
  assumes "bc_bound pattern msk n skip" "n < length pattern - 1"
  shows "bc_bound pattern msk (Suc n) (bc_step pattern msk n skip)"
proof (cases "msk ! n = 0")
  case True
  then show ?thesis
    using assms by (auto simp: bc_bound_def bc_step_def less_Suc_eq Let_def le_diff_conv)
next
  case False
  have "unat (pattern ! n) < 256" by simp
  with False show ?thesis
    using assms by (auto simp: bc_bound_def bc_step_def less_Suc_eq Let_def nth_list_update le_diff_conv)
qed

lemma bc_fold_bound:
  assumes "pattern \<noteq> []" "n \<le> length pattern - 1"
  shows "bc_bound pattern msk n (fold (bc_step pattern msk) [0..<n] (replicate BM_ALPHABET_SIZE (length pattern)))"
  using assms(2)
proof (induction n)
  case 0
  then show ?case using assms(1) by (auto simp: bc_bound_def BM_ALPHABET_SIZE_def Suc_le_eq)
next
  case (Suc n)
  then show ?case
    using bc_step_bound [of pattern msk n] by simp
qed

lemma bc_table_bound:
  assumes "pattern \<noteq> []"
  shows "1 \<le> bm_build_bc_table pattern msk ! unat (c :: byte)"
    "i < length pattern - 1 \<Longrightarrow> msk ! i = 0 \<or> pattern ! i = c \<Longrightarrow>
       bm_build_bc_table pattern msk ! unat c \<le> length pattern - 1 - i"
    "bm_build_bc_table pattern msk ! unat c \<le> length pattern"
  using bc_fold_bound [OF assms order_refl, of msk] unat_byte_less [of c]
  unfolding bc_bound_def bm_build_bc_table_def [symmetric] by auto

section \<open>The suffix lengths\<close>

text \<open>\<open>k\<close> is the length of the longest common suffix of the pattern and of its part up to \<open>i\<close>.\<close>

definition suffix_len :: "byte list \<Rightarrow> nat \<Rightarrow> nat \<Rightarrow> bool" where
  "suffix_len P i k \<longleftrightarrow> k \<le> i + 1 \<and> (\<forall>t<k. P ! (i - t) = P ! (length P - 1 - t)) \<and>
     (k = i + 1 \<or> P ! (i - k) \<noteq> P ! (length P - 1 - k))"

lemma suffix_len_unique: "suffix_len P i k \<Longrightarrow> suffix_len P i k' \<Longrightarrow> k = k'"
  unfolding suffix_len_def by (metis Suc_eq_plus1 linorder_neqE_nat not_less_eq_eq le_antisym less_Suc_eq_le)

lemma match_back_spec:
  assumes "- 1 \<le> g"
  shows "- 1 \<le> match_back P f g \<and> match_back P f g \<le> g \<and>
    (\<forall>x. match_back P f g < x \<longrightarrow> x \<le> g \<longrightarrow> P ! nat x = P ! nat (x + int (length P) - 1 - f)) \<and>
    (match_back P f g = - 1 \<or>
     P ! nat (match_back P f g) \<noteq> P ! nat (match_back P f g + int (length P) - 1 - f))"
  using assms
proof (induction P f g rule: match_back.induct)
  case (1 P f g)
  show ?case
  proof (cases "g \<ge> 0 \<and> P ! nat g = P ! nat (g + int (length P) - 1 - f)")
    case True
    then have eq: "match_back P f g = match_back P f (g - 1)"
      by (subst match_back.simps) simp
    from 1(1) [OF True] True have IH: "- 1 \<le> match_back P f (g - 1) \<and> match_back P f (g - 1) \<le> g - 1 \<and>
      (\<forall>x. match_back P f (g - 1) < x \<longrightarrow> x \<le> g - 1 \<longrightarrow> P ! nat x = P ! nat (x + int (length P) - 1 - f)) \<and>
      (match_back P f (g - 1) = - 1 \<or>
       P ! nat (match_back P f (g - 1)) \<noteq> P ! nat (match_back P f (g - 1) + int (length P) - 1 - f))"
      by simp
    have "P ! nat x = P ! nat (x + int (length P) - 1 - f)" if "match_back P f (g - 1) < x" "x \<le> g" for x
      using IH True that by (cases "x = g") auto
    with IH show ?thesis
      unfolding eq by auto
  next
    case False
    then have "match_back P f g = g"
      by (subst match_back.simps) (simp only: if_False)
    with False 1(2) show ?thesis by auto
  qed
qed

text \<open>The state of the loop when the indices from \<open>n\<close> on are done.\<close>

definition suffix_seg :: "byte list \<Rightarrow> int \<Rightarrow> int \<Rightarrow> bool" where
  "suffix_seg P f g \<longleftrightarrow> (\<forall>x. g < x \<longrightarrow> x \<le> f \<longrightarrow> P ! nat x = P ! nat (x + int (length P) - 1 - f))"

definition suffix_inv :: "byte list \<Rightarrow> nat \<Rightarrow> int \<times> int \<times> nat list \<Rightarrow> bool" where
  "suffix_inv P n = (\<lambda>(f, g, suf). length suf = length P \<and>
     (\<forall>q. n \<le> q \<and> q < length P \<longrightarrow> suffix_len P q (suf ! q)) \<and>
     (int n - 1 \<le> g \<or> (int n \<le> f \<and> f < int (length P) - 1 \<and> - 1 \<le> g \<and> suffix_seg P f g)))"

lemma suffix_seg_nat:
  assumes "suffix_seg P f g" "- 1 \<le> g" "f < int (length P)" "g < int n - int t" "int n \<le> f"
  shows "P ! (n - t) = P ! (nat (int n + int (length P) - 1 - f) - t)"
proof -
  have "P ! nat (int n - int t) = P ! nat (int n - int t + int (length P) - 1 - f)"
    using assms unfolding suffix_seg_def by auto
  moreover have "nat (int n - int t) = n - t"
    "nat (int n - int t + int (length P) - 1 - f) = nat (int n + int (length P) - 1 - f) - t"
    using assms by auto
  ultimately show ?thesis by simp
qed

text \<open>A length inside the known segment is copied.\<close>

lemma suffix_copy:
  assumes seg: "suffix_seg P f g" "- 1 \<le> g" "int n < f" "f < int (length P) - 1"
    and k: "suffix_len P (nat (int n + int (length P) - 1 - f)) k" "int k < int n - g"
  shows "suffix_len P n k"
proof -
  let ?q = "nat (int n + int (length P) - 1 - f)"
  have eq: "P ! (n - t) = P ! (?q - t)" if "t \<le> k" for t
    by (rule suffix_seg_nat) (use seg k(2) that in auto)
  have "k \<le> n" "k \<le> ?q"
    using seg k(2) by auto
  then show ?thesis
    using k(1) eq unfolding suffix_len_def by (metis Suc_eq_plus1 le_SucI less_imp_le_nat nat_less_le not_less_eq_eq)
qed

text \<open>A longer one is completed by comparing.\<close>

lemma suffix_compare:
  assumes n: "n < length P" and g: "- 1 \<le> g" "g \<le> int n"
    and known: "\<And>t. int t < int n - g \<Longrightarrow> P ! (n - t) = P ! (length P - 1 - t)"
  shows "suffix_len P n (nat (int n - match_back P (int n) g))"
    "- 1 \<le> match_back P (int n) g" "suffix_seg P (int n) (match_back P (int n) g)"
proof -
  let ?r = "match_back P (int n) g"
  note r = match_back_spec [OF g(1), of P "int n"]
  have idx: "P ! nat x = P ! (n - nat (int n - x))"
    "P ! nat (x + int (length P) - 1 - int n) = P ! (length P - 1 - nat (int n - x))" if "0 \<le> x" "x \<le> int n" for x
  proof -
    have "nat x = n - nat (int n - x)" "nat (x + int (length P) - 1 - int n) = length P - 1 - nat (int n - x)"
      using that n by auto
    then show "P ! nat x = P ! (n - nat (int n - x))"
      "P ! nat (x + int (length P) - 1 - int n) = P ! (length P - 1 - nat (int n - x))" by simp_all
  qed
  have match: "P ! (n - t) = P ! (length P - 1 - t)" if "int t < int n - ?r" for t
  proof (cases "int t < int n - g")
    case True
    then show ?thesis by (rule known)
  next
    case False
    have x: "nat (int n - (int n - int t)) = t" by simp
    show ?thesis
      using r idx [of "int n - int t"] False that unfolding x by auto
  qed
  have stop: "P ! (n - nat (int n - ?r)) \<noteq> P ! (length P - 1 - nat (int n - ?r))" if "?r \<noteq> - 1"
    using r idx [of ?r] that g by auto
  show "suffix_len P n (nat (int n - ?r))"
    unfolding suffix_len_def
  proof (intro conjI allI impI)
    show "nat (int n - ?r) \<le> n + 1" using r by auto
    show "P ! (n - t) = P ! (length P - 1 - t)" if "t < nat (int n - ?r)" for t
      using that by (intro match) auto
    show "nat (int n - ?r) = n + 1 \<or> P ! (n - nat (int n - ?r)) \<noteq> P ! (length P - 1 - nat (int n - ?r))"
      using stop by (cases "?r = - 1") auto
  qed
  show "- 1 \<le> ?r" using r by simp
  show "suffix_seg P (int n) ?r"
    unfolding suffix_seg_def
  proof (intro allI impI)
    fix x assume x: "?r < x" "x \<le> int n"
    then show "P ! nat x = P ! nat (x + int (length P) - 1 - int n)"
      using idx [of x] match [of "nat (int n - x)"] r by auto
  qed
qed

lemma suffix_step_inv:
  assumes inv: "suffix_inv P (Suc n) (f, g, suf)" and n: "Suc n < length P"
  shows "suffix_inv P n (suffix_step P n (f, g, suf))"
proof -
  let ?k = "nat (int n + int (length P) - 1 - f)"
  have suf: "length suf = length P" "\<And>q. Suc n \<le> q \<Longrightarrow> q < length P \<Longrightarrow> suffix_len P q (suf ! q)"
    and fg: "int n \<le> g \<or> (int n < f \<and> f < int (length P) - 1 \<and> - 1 \<le> g \<and> suffix_seg P f g)"
    using inv by (auto simp: suffix_inv_def)
  have upd: "suffix_len P q (suf[n := v] ! q)" if "suffix_len P n v" "n \<le> q" "q < length P" for q v
    using that suf by (cases "q = n") auto
  have k: "Suc n \<le> ?k" "?k < length P" if "int n > g"
    using fg that by auto
  show ?thesis
  proof (cases "int n > g \<and> int (suf ! ?k) < int n - g")
    case True
    with fg have fg': "int n < f" "f < int (length P) - 1" "- 1 \<le> g" "suffix_seg P f g" by auto
    have "suffix_len P n (suf ! ?k)"
      by (rule suffix_copy [OF fg'(4,3,1,2)]) (use True k suf in auto)
    with True show ?thesis
      using upd fg' suf(1) by (simp add: suffix_step_def suffix_inv_def)
  next
    case False
    let ?g = "if int n < g then int n else g"
    have known: "P ! (n - t) = P ! (length P - 1 - t)" if t: "int t < int n - ?g" for t
    proof -
      have lt: "int n > g" using t by (auto split: if_splits)
      with fg have fg': "int n < f" "f < int (length P) - 1" "- 1 \<le> g" "suffix_seg P f g" by auto
      have "P ! (n - t) = P ! (?k - t)"
        by (rule suffix_seg_nat [OF fg'(4,3)]) (use fg' t lt in auto)
      also have "\<dots> = P ! (length P - 1 - t)"
        using suf(2) [OF k [OF lt]] False t lt unfolding suffix_len_def by auto
      finally show ?thesis .
    qed
    have g: "- 1 \<le> ?g" "?g \<le> int n" using fg by auto
    have nP: "n < length P" using n by simp
    note cmp = suffix_compare [OF nP g known]
    have step: "suffix_step P n (f, g, suf) =
        (int n, match_back P (int n) ?g, suf[n := nat (int n - match_back P (int n) ?g)])"
      unfolding suffix_step_def Let_def prod.case if_not_P [OF False] by simp
    show ?thesis
      using cmp upd suf(1) n unfolding step by (simp add: suffix_inv_def)
  qed
qed

lemma suffix_fold_inv:
  assumes "P \<noteq> []" "n \<le> length P - 1"
  shows "suffix_inv P (length P - 1 - n) (fold (suffix_step P) (rev [length P - 1 - n..<length P - 1])
      (0, int (length P) - 1, (replicate (length P) 0)[length P - 1 := length P]))"
  using assms(2)
proof (induction n)
  case 0
  have "suffix_len P (length P - 1) (length P)"
    using assms(1) by (auto simp: suffix_len_def)
  then have "suffix_len P q ((replicate (length P) 0)[length P - 1 := length P] ! q)" if "length P - 1 \<le> q" "q < length P" for q
    using that by (cases "q = length P - 1") auto
  then show ?case
    using assms(1) by (auto simp: suffix_inv_def)
next
  case (Suc n)
  let ?i = "length P - 1 - Suc n"
  have i: "length P - 1 - n = Suc ?i" "[?i..<length P - 1] = ?i # [Suc ?i..<length P - 1]"
    using Suc.prems by (auto simp: upt_conv_Cons)
  obtain f g suf where fold: "fold (suffix_step P) (rev [Suc ?i..<length P - 1])
      (0, int (length P) - 1, (replicate (length P) 0)[length P - 1 := length P]) = (f, g, suf)"
    by (metis prod_cases3)
  have "suffix_inv P (Suc ?i) (f, g, suf)"
    using Suc unfolding i(1) fold by simp
  then have "suffix_inv P ?i (suffix_step P ?i (f, g, suf))"
    by (rule suffix_step_inv) (use Suc.prems in auto)
  then show ?case
    unfolding i(2) using fold by simp
qed

lemma suffix_lengths_spec:
  assumes "P \<noteq> []"
  shows "length (suffix_lengths P) = length P" "i < length P \<Longrightarrow> suffix_len P i (suffix_lengths P ! i)"
  using suffix_fold_inv [OF assms order_refl]
  unfolding suffix_lengths_def Let_def by (auto simp: suffix_inv_def split: prod.splits)

section \<open>The good-suffix table\<close>

lemma fill_nth:
  assumes "b \<le> length gs"
  shows "length (fold (\<lambda>k gs. if gs ! k = m then gs[k := v] else gs) [a..<b] gs) = length gs"
    "k < length gs \<Longrightarrow> fold (\<lambda>k gs. if gs ! k = m then gs[k := v] else gs) [a..<b] gs ! k =
       (if a \<le> k \<and> k < b \<and> gs ! k = m then v else gs ! k)"
proof -
  have "length (fold (\<lambda>k gs. if gs ! k = m then gs[k := v] else gs) [a..<b] gs) = length gs \<and>
    (\<forall>k<length gs. fold (\<lambda>k gs. if gs ! k = m then gs[k := v] else gs) [a..<b] gs ! k =
       (if a \<le> k \<and> k < b \<and> gs ! k = m then v else gs ! k))"
    using assms
  proof (induction b)
    case (Suc b)
    then show ?case by (cases "a \<le> b") (auto simp: nth_list_update less_Suc_eq)
  qed simp
  then show "length (fold (\<lambda>k gs. if gs ! k = m then gs[k := v] else gs) [a..<b] gs) = length gs"
    "k < length gs \<Longrightarrow> fold (\<lambda>k gs. if gs ! k = m then gs[k := v] else gs) [a..<b] gs ! k =
       (if a \<le> k \<and> k < b \<and> gs ! k = m then v else gs ! k)"
    by simp_all
qed

definition gs_prefix_inv :: "nat \<Rightarrow> nat list \<Rightarrow> nat \<Rightarrow> nat \<times> nat list \<Rightarrow> bool" where
  "gs_prefix_inv m suf n = (\<lambda>(j, gs). length gs = m \<and> j \<le> m - n \<and>
     (\<forall>k<m. 1 \<le> gs ! k \<and> gs ! k \<le> (if k < j then j else m) \<and> (j \<le> k \<longrightarrow> gs ! k = m)) \<and>
     (\<forall>q. n \<le> q \<and> q < m \<and> suf ! q = q + 1 \<longrightarrow> m - 1 - q \<le> j \<and> (\<forall>k<m - 1 - q. gs ! k \<le> m - 1 - q)))"

lemma gs_prefix_step_inv:
  assumes inv: "gs_prefix_inv m suf (Suc n) (j, gs)" and n: "n < m"
  shows "gs_prefix_inv m suf n (gs_prefix_step m suf n (j, gs))"
proof (cases "suf ! n = n + 1")
  case False
  then have "gs_prefix_step m suf n (j, gs) = (j, gs)"
    by (simp add: gs_prefix_step_def)
  moreover have "n = q \<or> Suc n \<le> q" if "n \<le> q" for q
    using that by auto
  ultimately show ?thesis
    using inv False unfolding gs_prefix_inv_def by (auto simp del: Suc_le_eq)
next
  case True
  let ?gs = "fold (\<lambda>k gs. if gs ! k = m then gs[k := m - 1 - n] else gs) [j..<m - 1 - n] gs"
  have len: "length gs = m" and j: "j \<le> m - 1 - n"
    and ent: "\<And>k. k < m \<Longrightarrow> 1 \<le> gs ! k \<and> gs ! k \<le> (if k < j then j else m) \<and> (j \<le> k \<longrightarrow> gs ! k = m)"
    and pre: "\<And>q. Suc n \<le> q \<Longrightarrow> q < m \<Longrightarrow> suf ! q = q + 1 \<Longrightarrow> m - 1 - q \<le> j \<and> (\<forall>k<m - 1 - q. gs ! k \<le> m - 1 - q)"
    using inv by (auto simp: gs_prefix_inv_def)
  have nth: "?gs ! k = (if j \<le> k \<and> k < m - 1 - n then m - 1 - n else gs ! k)" if "k < m" for k
    using fill_nth(2) [of "m - 1 - n" gs k m "m - 1 - n" j] that len ent [OF that] by auto
  have below: "?gs ! k \<le> m - 1 - n" if "k < m - 1 - n" for k
  proof -
    have "k < m" using that by simp
    from nth [OF this] ent [OF this] that j show ?thesis by auto
  qed
  have ent': "1 \<le> ?gs ! k \<and> ?gs ! k \<le> (if k < m - 1 - n then m - 1 - n else m) \<and> (m - 1 - n \<le> k \<longrightarrow> ?gs ! k = m)"
    if "k < m" for k
    using nth [OF that] ent [OF that] that j below [of k] by auto
  have pre': "m - 1 - q \<le> m - 1 - n \<and> (\<forall>k<m - 1 - q. ?gs ! k \<le> m - 1 - q)" if q: "n \<le> q" "q < m" "suf ! q = q + 1" for q
  proof (cases "q = n")
    case True
    then show ?thesis using below by auto
  next
    case False
    with q have "Suc n \<le> q" by simp
    note old = pre [OF this q(2,3)]
    show ?thesis
      using old nth j by (auto simp: q(1) diff_le_mono2)
  qed
  have step: "gs_prefix_step m suf n (j, gs) = (m - 1 - n, ?gs)"
    using True j by (simp add: gs_prefix_step_def max_def)
  have "length ?gs = m" "m - 1 - n \<le> m - n"
    using len fill_nth(1) [of "m - 1 - n" gs m "m - 1 - n" j] by simp_all
  then show ?thesis
    unfolding step gs_prefix_inv_def prod.case using ent' pre' by (intro conjI) blast+
qed

lemma gs_prefix_fold_inv:
  assumes "n \<le> m"
  shows "gs_prefix_inv m suf (m - n) (fold (gs_prefix_step m suf) (rev [m - n..<m]) (0, replicate m m))"
  using assms
proof (induction n)
  case 0
  then show ?case by (auto simp: gs_prefix_inv_def Suc_le_eq)
next
  case (Suc n)
  let ?i = "m - Suc n"
  have i: "m - n = Suc ?i" "[?i..<m] = ?i # [Suc ?i..<m]"
    using Suc.prems by (auto simp: upt_conv_Cons)
  obtain j gs where fold: "fold (gs_prefix_step m suf) (rev [Suc ?i..<m]) (0, replicate m m) = (j, gs)"
    by (cases "fold (gs_prefix_step m suf) (rev [Suc ?i..<m]) (0, replicate m m)")
  have "gs_prefix_inv m suf (Suc ?i) (j, gs)"
    using Suc unfolding i(1) fold by simp
  then have "gs_prefix_inv m suf ?i (gs_prefix_step m suf ?i (j, gs))"
    by (rule gs_prefix_step_inv) (use Suc.prems in auto)
  then show ?case
    unfolding i(2) using fold by simp
qed

text \<open>The second pass only lowers entries.\<close>

lemma gs_inner_fold:
  assumes "length gs = m" "n \<le> m - 1" "\<And>i. i < m \<Longrightarrow> suf ! i \<le> m" "\<And>k. k < m \<Longrightarrow> 1 \<le> gs ! k"
  shows "length (fold (gs_inner_step m suf) [0..<n] gs) = m \<and>
    (\<forall>k<m. 1 \<le> fold (gs_inner_step m suf) [0..<n] gs ! k \<and> fold (gs_inner_step m suf) [0..<n] gs ! k \<le> gs ! k) \<and>
    (\<forall>i<n. fold (gs_inner_step m suf) [0..<n] gs ! (m - 1 - suf ! i) \<le> m - 1 - i)"
  using assms(2)
proof (induction n)
  case 0
  then show ?case using assms by simp
next
  case (Suc n)
  let ?gs = "fold (gs_inner_step m suf) [0..<n] gs"
  have IH: "length ?gs = m" "\<And>k. k < m \<Longrightarrow> 1 \<le> ?gs ! k \<and> ?gs ! k \<le> gs ! k"
    "\<And>i. i < n \<Longrightarrow> ?gs ! (m - 1 - suf ! i) \<le> m - 1 - i"
    using Suc by auto
  have pos: "m - 1 - suf ! i < m" for i
    using Suc.prems by auto
  have upd: "gs_inner_step m suf n ?gs ! k = (if k = m - 1 - suf ! n \<and> ?gs ! k > m - 1 - n then m - 1 - n else ?gs ! k)"
    if "k < m" for k
    using that IH(1) by (auto simp: gs_inner_step_def Let_def nth_list_update)
  have "length (gs_inner_step m suf n ?gs) = m"
    using IH(1) by (simp add: gs_inner_step_def Let_def)
  moreover have "1 \<le> gs_inner_step m suf n ?gs ! k \<and> gs_inner_step m suf n ?gs ! k \<le> gs ! k" if "k < m" for k
    using upd [OF that] IH(2) [OF that] Suc.prems by auto
  moreover have "gs_inner_step m suf n ?gs ! (m - 1 - suf ! i) \<le> m - 1 - i" if "i < Suc n" for i
    using upd [OF pos [of i]] IH(3) [of i] that by (cases "i = n") auto
  ultimately show ?case by simp
qed

text \<open>
  A shift by \<open>s\<close> is compatible with a mismatch at \<open>j\<close>: what lies over the matched suffix
  agrees with it, and what lies over the mismatch differs from the mismatched byte.
\<close>

definition compatible :: "byte list \<Rightarrow> nat \<Rightarrow> nat \<Rightarrow> bool" where
  "compatible P j s \<longleftrightarrow> (\<forall>k. j < k \<and> k < length P \<and> s \<le> k \<longrightarrow> P ! (k - s) = P ! k) \<and>
     (s \<le> j \<longrightarrow> P ! (j - s) \<noteq> P ! j)"

lemma gs_shifts_bounds:
  assumes "P \<noteq> []"
  shows "length (gs_shifts P) = length P" "j < length P \<Longrightarrow> 1 \<le> gs_shifts P ! j"
    "j < length P \<Longrightarrow> gs_shifts P ! j \<le> length P"
    "q < length P \<Longrightarrow> suffix_len P q (q + 1) \<Longrightarrow> j < length P - 1 - q \<Longrightarrow> gs_shifts P ! j \<le> length P - 1 - q"
    "q < length P - 1 \<Longrightarrow> suffix_len P q k \<Longrightarrow> gs_shifts P ! (length P - 1 - k) \<le> length P - 1 - q"
proof -
  let ?m = "length P" and ?suf = "suffix_lengths P"
  obtain j0 gs where fold: "fold (gs_prefix_step ?m ?suf) (rev [0..<?m]) (0, replicate ?m ?m) = (j0, gs)"
    by (cases "fold (gs_prefix_step ?m ?suf) (rev [0..<?m]) (0, replicate ?m ?m)")
  have inv: "gs_prefix_inv ?m ?suf 0 (j0, gs)"
    using gs_prefix_fold_inv [OF order_refl, of ?m ?suf] unfolding diff_self_eq_0 fold .
  have gs: "length gs = ?m" "\<And>k. k < ?m \<Longrightarrow> 1 \<le> gs ! k" "\<And>k. k < ?m \<Longrightarrow> gs ! k \<le> ?m"
    "\<And>q k. q < ?m \<Longrightarrow> ?suf ! q = q + 1 \<Longrightarrow> k < ?m - 1 - q \<Longrightarrow> gs ! k \<le> ?m - 1 - q"
  proof -
    have all: "length gs = ?m" "j0 \<le> ?m"
      "\<And>k. k < ?m \<Longrightarrow> 1 \<le> gs ! k \<and> gs ! k \<le> (if k < j0 then j0 else ?m)"
      "\<And>q. q < ?m \<Longrightarrow> ?suf ! q = q + 1 \<Longrightarrow> \<forall>k<?m - 1 - q. gs ! k \<le> ?m - 1 - q"
      using inv by (simp_all add: gs_prefix_inv_def)
    show "length gs = ?m" "\<And>k. k < ?m \<Longrightarrow> 1 \<le> gs ! k"
      "\<And>q k. q < ?m \<Longrightarrow> ?suf ! q = q + 1 \<Longrightarrow> k < ?m - 1 - q \<Longrightarrow> gs ! k \<le> ?m - 1 - q"
      using all by blast+
    show "gs ! k \<le> ?m" if "k < ?m" for k
      using all(2) all(3) [OF that] by (cases "k < j0") auto
  qed
  have suf: "suffix_len P i (?suf ! i)" if "i < ?m" for i
    using suffix_lengths_spec(2) [OF assms that] .
  have "?suf ! i \<le> ?m" if "i < ?m" for i
    using suf [OF that] that by (simp add: suffix_len_def)
  note res = gs_inner_fold [OF gs(1) order_refl this gs(2)]
  have eq: "gs_shifts P = fold (gs_inner_step ?m ?suf) [0..<?m - 1] gs"
    by (simp add: gs_shifts_def fold Let_def)
  show "length (gs_shifts P) = ?m" "j < ?m \<Longrightarrow> 1 \<le> gs_shifts P ! j"
    using res unfolding eq by auto
  show "j < ?m \<Longrightarrow> gs_shifts P ! j \<le> ?m"
    using res gs(3) unfolding eq by (meson order_trans)
  show "gs_shifts P ! j \<le> ?m - 1 - q" if "q < ?m" "suffix_len P q (q + 1)" "j < ?m - 1 - q"
  proof -
    have "?suf ! q = q + 1" using suffix_len_unique suf that by blast
    with gs(4) that res show ?thesis unfolding eq by (meson diff_le_self less_le_trans order_trans)
  qed
  show "gs_shifts P ! (?m - 1 - k) \<le> ?m - 1 - q" if "q < ?m - 1" "suffix_len P q k"
  proof -
    have "?suf ! q = k" using suffix_len_unique suf that by (meson less_le_trans diff_le_self)
    with res that show ?thesis unfolding eq by blast
  qed
qed

lemma gs_shifts_least:
  assumes "P \<noteq> []" "j < length P" "compatible P j s" "1 \<le> s"
  shows "gs_shifts P ! j \<le> s"
proof (cases "s < length P")
  case False
  with gs_shifts_bounds(3) [OF assms(1,2)] show ?thesis by simp
next
  case True
  let ?i = "length P - 1 - s"
  have compat: "P ! (k - s) = P ! k" if "j < k" "k < length P" "s \<le> k" for k
    using assms(3) that by (simp add: compatible_def)
  have i: "?i < length P - 1" "length P - 1 - ?i = s"
    using True assms(4) by auto
  show ?thesis
  proof (cases "s \<le> j")
    case sj: True
    have "suffix_len P ?i (length P - 1 - j)"
      unfolding suffix_len_def
    proof (intro conjI allI impI disjI2)
      show "length P - 1 - j \<le> ?i + 1" using sj True by simp
      show "P ! (?i - t) = P ! (length P - 1 - t)" if "t < length P - 1 - j" for t
      proof -
        have "?i - t = length P - 1 - t - s" using that sj by simp
        moreover have "P ! (length P - 1 - t - s) = P ! (length P - 1 - t)"
          using compat [of "length P - 1 - t"] that sj by auto
        ultimately show ?thesis by simp
      qed
      have "?i - (length P - 1 - j) = j - s" "length P - 1 - (length P - 1 - j) = j"
        using sj assms(2) by auto
      with assms(3) sj show "P ! (?i - (length P - 1 - j)) \<noteq> P ! (length P - 1 - (length P - 1 - j))"
        by (simp add: compatible_def)
    qed
    from gs_shifts_bounds(5) [OF assms(1) i(1) this] show ?thesis
      using i(2) assms(2) by simp
  next
    case False
    have "suffix_len P ?i (?i + 1)"
      unfolding suffix_len_def
    proof (intro conjI allI impI)
      show "P ! (?i - t) = P ! (length P - 1 - t)" if "t < ?i + 1" for t
      proof -
        have "?i - t = length P - 1 - t - s" by simp
        moreover have "P ! (length P - 1 - t - s) = P ! (length P - 1 - t)"
          using compat [of "length P - 1 - t"] that False True by auto
        ultimately show ?thesis by simp
      qed
    qed auto
    from gs_shifts_bounds(4) [OF assms(1) _ this, of j] show ?thesis
      using i False by simp
  qed
qed

text \<open>The shift from a mismatch to an occurrence of the pattern is compatible with what was read.\<close>

lemma occurrence_compatible:
  assumes "j < length pattern" "\<And>k. j < k \<Longrightarrow> k < length pattern \<Longrightarrow> hay (a + k) = pattern ! k" "hay (a + j) \<noteq> pattern ! j"
    "\<forall>k<length pattern. hay (a + s + k) = pattern ! k"
  shows "compatible pattern j s"
proof -
  have "pattern ! (k - s) = hay (a + k)" if "s \<le> k" "k < length pattern" for k
    using assms(4) [rule_format, of "k - s"] that by (simp add: algebra_simps)
  then show ?thesis using assms(1-3) unfolding compatible_def by auto
qed

text \<open>
  C14. The good-suffix table keeps its promise. For an exact pattern, when the pattern mismatches
  the text at position \<open>j\<close> after its bytes behind \<open>j\<close> have matched, the pattern does not
  occur at any shift smaller than the table's entry for \<open>j\<close>; the entry is at least one and at
  most the length of the pattern, so the search advances and loses nothing.
\<close>

theorem gs_shift_passes_no_match:
  assumes "pattern \<noteq> []" "j < length pattern"
    "\<And>k. j < k \<Longrightarrow> k < length pattern \<Longrightarrow> text (a + k) = pattern ! k" "text (a + j) \<noteq> pattern ! j"
    "1 \<le> s" "s < gs_shifts pattern ! j"
  shows "1 \<le> gs_shifts pattern ! j \<and> gs_shifts pattern ! j \<le> length pattern \<and>
    \<not> (\<forall>k<length pattern. text (a + s + k) = pattern ! k)"
proof -
  have "\<not> (\<forall>k<length pattern. text (a + s + k) = pattern ! k)"
  proof
    assume "\<forall>k<length pattern. text (a + s + k) = pattern ! k"
    from occurrence_compatible [OF assms(2-4) this] have "compatible pattern j s" .
    from gs_shifts_least [OF assms(1,2) this assms(5)] assms(6) show False by simp
  qed
  then show ?thesis
    using gs_shifts_bounds(2,3) [OF assms(1,2)] by simp
qed

text \<open>Four equal bytes against a text that differs in the second one.\<close>

theorem gs_shift_passes_no_match_witness:
  "gs_shifts [1, 1, 1, 1 :: byte] ! 1 = 2 \<and>
    \<not> (\<forall>k<length [1, 1, 1, 1 :: byte]. (\<lambda>i. if i = 11 then 0 else 1 :: byte) (10 + 1 + k) = [1, 1, 1, 1] ! k)"
proof -
  have g: "gs_shifts [1, 1, 1, 1 :: byte] ! 1 = 2" by code_simp
  have "1 \<le> gs_shifts [1, 1, 1, 1 :: byte] ! 1 \<and> gs_shifts [1, 1, 1, 1 :: byte] ! 1 \<le> length [1, 1, 1, 1 :: byte] \<and>
    \<not> (\<forall>k<length [1, 1, 1, 1 :: byte]. (\<lambda>i. if i = 11 then 0 else 1 :: byte) (10 + 1 + k) = [1, 1, 1, 1] ! k)"
    by (rule gs_shift_passes_no_match) (use g in \<open>auto simp: less_Suc_eq numeral_eq_Suc\<close>)
  with g show ?thesis by blast
qed

section \<open>Values\<close>

lemma of_le_inj:
  assumes "length xs = length ys" "length xs \<le> 8" "of_le xs = of_le ys"
  shows "xs = ys"
  by (metis assms le_bytes_of_le)

lemma le_value_eq_iff: "n \<le> 8 \<Longrightarrow> n \<le> length c \<Longrightarrow> n \<le> length d \<Longrightarrow> le_value n c = le_value n d \<longleftrightarrow> take n c = take n d"
  using of_le_inj [of "take n c" "take n d"] by (auto simp: le_value_def min_def)

text \<open>Whatever the length, the comparison chosen for it compares that many bytes.\<close>

lemma match_fn_for_iff:
  assumes "0 < n" "n \<le> length c" "n \<le> length d"
  shows "match_fn_for n c d n \<longleftrightarrow> take n c = take n d"
proof -
  have hd: "take n c = take n d \<Longrightarrow> c ! 0 = d ! 0"
    using assms(1) nth_take [of 0 n c] nth_take [of 0 n d] by simp
  have one: "take 1 xs = [xs ! 0]" if "1 \<le> length xs" for xs :: "byte list"
    using that by (cases xs) auto
  show ?thesis
    using assms hd one [of c] one [of d] le_value_eq_iff [of n c d]
    by (auto simp: match_fn_for_def match_u8_def match_u16_def match_u32_def match_u64_def match_bytes_def)
qed

end
