(* ===== verification/Scan_Range_Correct.thy ===== *)
theory Scan_Range_Correct
  imports Scan_Range Scan_Match_Correct "HOL-Library.Sublist"
begin

text \<open>
  The range scanners report exactly the hits of the range, in order and up to the limit, however
  the target's memory is cut into chunks and however short the reads are. What a scanner has to
  provide is the report of one window; the locale \<open>window_scanner\<close> states it, proves the loop
  over the chunks once, and is interpreted on the windows of the exact-value, byte-pattern and
  unknown-value scans. The byte-pattern search is correct without a good-suffix table; with one
  it looks up the entry next to the right one, and misses occurrences.
\<close>

section \<open>Reports\<close>

text \<open>
  A builder whose buffer was allocated for the limit, as the single-range scans do, or one that
  grows with allocations that all succeed, when the flag is set.
\<close>

definition roomy :: "bool \<Rightarrow> scan_builder \<Rightarrow> bool" where
  "roomy g b \<longleftrightarrow> length (sr_entries (sb_result b)) \<le> sb_capacity b \<and> sb_capacity b \<le> sb_max_results b \<and>
     (g \<or> sb_capacity b = sb_max_results b) \<and> sb_progress b = None"

definition found :: "bool \<Rightarrow> scan_builder \<Rightarrow> u64 list \<Rightarrow> scan_builder \<Rightarrow> bool" where
  "found g b addrs b' \<longleftrightarrow> roomy g b' \<and> sb_max_results b' = sb_max_results b \<and>
     sr_entries (sb_result b') = take (sb_max_results b) (sr_entries (sb_result b) @ addrs) \<and>
     sr_truncated (sb_result b') = (sr_truncated (sb_result b) \<or>
       sb_max_results b < length (sr_entries (sb_result b) @ addrs))"

lemma found_refl: "roomy g b \<Longrightarrow> found g b [] b"
  by (simp add: found_def roomy_def)

lemma found_trans: "found g b xs b' \<Longrightarrow> found g b' ys b'' \<Longrightarrow> found g b (xs @ ys) b''"
  by (auto simp: found_def take_append min_def split: if_splits)

lemma found_roomy: "found g b xs b' \<Longrightarrow> roomy g b'"
  by (simp add: found_def)

lemma append_found:
  assumes "roomy g b" "g \<Longrightarrow> grant = (\<lambda>_. True)"
  shows "\<exists>b'. scan_builder_append grant addr b = Returns b' \<and> found g b [addr] b'"
proof (cases "length (sr_entries (sb_result b)) \<ge> sb_max_results b")
  case True
  with assms show ?thesis
    by (auto simp: scan_builder_append_def truncate_result_def found_def roomy_def)
next
  case False
  show ?thesis
  proof (cases "length (sr_entries (sb_result b)) = sb_capacity b")
    case True
    with False assms have "g" by (auto simp: roomy_def)
    moreover have "length (sr_entries (sb_result b)) < next_capacity b" "next_capacity b \<le> sb_max_results b"
      using True False by (auto simp: next_capacity_def Let_def MEMDBG_SCAN_INITIAL_CAPACITY_def)
    moreover have "next_capacity (b\<lparr>sb_progress := None\<rparr>) = next_capacity b"
      by (simp add: next_capacity_def Let_def)
    ultimately show ?thesis
      using True False assms by (auto simp: scan_builder_append_def Let_def store_entry_def found_def roomy_def)
  next
    case lt: False
    with False assms show ?thesis
      by (auto simp: scan_builder_append_def store_entry_def found_def roomy_def)
  qed
qed

section \<open>The loop over the chunks\<close>

text \<open>Reads return at least one byte of the target's memory and never fail.\<close>

definition reads_memory :: "reader \<Rightarrow> u64 \<Rightarrow> byte list \<Rightarrow> bool" where
  "reads_memory rd start mem \<longleftrightarrow> (\<forall>p n. 0 < n \<longrightarrow> p + n \<le> length mem \<longrightarrow>
     (\<exists>k. 0 < k \<and> k \<le> n \<and> rd (start + word_of_nat p) n = Inr (take k (drop p mem))))"

definition addresses :: "u64 \<Rightarrow> (nat \<Rightarrow> bool) \<Rightarrow> nat \<Rightarrow> nat \<Rightarrow> u64 list" where
  "addresses start P a b = map (\<lambda>p. start + word_of_nat p) (filter P [a..<b])"

lemma addresses_append: "a \<le> b \<Longrightarrow> b \<le> c \<Longrightarrow> addresses start P a b @ addresses start P b c = addresses start P a c"
  using upt_add_eq_append [of a b "c - b"] by (simp add: addresses_def)

lemma addresses_empty [simp]: "b \<le> a \<Longrightarrow> addresses start P a b = []"
  by (simp add: addresses_def)

lemma addresses_cong: "(\<And>p. a \<le> p \<Longrightarrow> p < b \<Longrightarrow> P p = Q p) \<Longrightarrow> addresses start P a b = addresses start Q a b"
  unfolding addresses_def by (rule arg_cong [where f = "map _"], rule filter_cong) auto

lemma addresses_shift: "addresses (start + word_of_nat p) P a b = addresses start (\<lambda>q. P (q - p)) (p + a) (p + b)"
proof -
  have "[p + a..<p + b] = map (\<lambda>i. p + i) [a..<b]"
    by (rule nth_equalityI) simp_all
  then show ?thesis
    by (simp add: addresses_def filter_map o_def algebra_simps)
qed

definition counted :: "scan_builder \<Rightarrow> scan_builder \<Rightarrow> bool" where
  "counted b b' \<longleftrightarrow> sb_capacity b' = sb_capacity b \<and> sb_max_results b' = sb_max_results b \<and>
     sb_progress b' = sb_progress b \<and> sr_entries (sb_result b') = sr_entries (sb_result b) \<and>
     sr_truncated (sb_result b') = sr_truncated (sb_result b)"

lemma counted_roomy: "counted b b' \<Longrightarrow> roomy g b \<Longrightarrow> roomy g b'"
  by (simp add: counted_def roomy_def)

lemma counted_found: "counted b b' \<Longrightarrow> found g b' xs b'' \<Longrightarrow> found g b xs b''"
  by (simp add: counted_def found_def)

lemma chunk_reads:
  assumes "reads_memory (rs_read rs) start mem" "scanned < length mem" "0 < rs_chunk rs" "roomy g b"
  shows "\<exists>k b'. 0 < k \<and> scanned + k \<le> length mem \<and> counted b b' \<and>
    scan_chunk rs start (length mem) scanned b = Chunk_Bytes (take k (drop scanned mem)) b'"
proof -
  let ?n = "scan_read_size (length mem - scanned) (rs_chunk rs)"
  have n: "0 < ?n" "scanned + ?n \<le> length mem"
    using assms by (auto simp: scan_read_size_def)
  then obtain k where k: "0 < k" "k \<le> ?n" "rs_read rs (start + word_of_nat scanned) ?n = Inr (take k (drop scanned mem))"
    using assms(1) unfolding reads_memory_def by blast
  then have "read_attempts (rs_read rs) (start + word_of_nat scanned) ?n b = (Inr (take k (drop scanned mem)), count_call b)"
    using n(1) by (subst read_attempts.simps) simp
  moreover have "take k (drop scanned mem) \<noteq> []" "length (take k (drop scanned mem)) = k"
    using k n by auto
  ultimately have "scan_chunk rs start (length mem) scanned b =
      Chunk_Bytes (take k (drop scanned mem)) (count_bytes (rs_tracked rs) k (count_call b))"
    using n(1) assms(4) by (simp add: scan_chunk_def scan_memory_read_resilient_def check_cancel_def roomy_def)
  moreover have "counted b (count_bytes (rs_tracked rs) k (count_call b))"
    using assms(4) by (simp add: counted_def count_bytes_def count_call_def roomy_def)
  ultimately show ?thesis
    using k n by (metis add_le_mono order_refl order_trans)
qed

text \<open>The bytes carried over are the last ones before the position, one less than a value has.\<close>

definition carry_at :: "nat \<Rightarrow> nat \<Rightarrow> nat" where
  "carry_at m scanned = scanned - min scanned (m - 1)"

lemma carry_over_step:
  assumes "0 < m" "scanned + k \<le> length mem" "0 < k"
  shows "carry_over m (drop (carry_at m scanned) (take scanned mem)) (drop (carry_at m scanned) (take (scanned + k) mem))
    = drop (carry_at m (scanned + k)) (take (scanned + k) mem)"
proof (cases "m = 1")
  case True
  then show ?thesis by (simp add: carry_over_def carry_at_def)
next
  case False
  let ?c = "carry_at m scanned" and ?s = "scanned + k"
  have "?c + (?s - ?c - min (?s - ?c) (m - 1)) = carry_at m ?s"
    by (auto simp: carry_at_def)
  moreover have "length (drop ?c (take ?s mem)) = ?s - ?c"
    using assms by simp
  ultimately show ?thesis
    using False assms by (simp add: carry_over_def Let_def add.commute)
qed

locale window_scanner =
  fixes g :: bool and m :: nat and hit :: "nat \<Rightarrow> byte list \<Rightarrow> bool" and W :: "u64 \<Rightarrow> byte list \<Rightarrow> scan_builder \<Rightarrow> scan_builder outcome"
    and start :: u64 and len :: nat and rel :: "u64 list \<Rightarrow> u64 list \<Rightarrow> bool"
  assumes m_pos: "0 < m"
    and rel_nil: "rel [] []"
    and rel_append: "rel xs xs' \<Longrightarrow> rel ys ys' \<Longrightarrow> rel (xs @ ys) (xs' @ ys')"
    and window: "roomy g b \<Longrightarrow> p + length win \<le> len \<Longrightarrow>
      \<exists>b' xs. W (start + word_of_nat p) win b = Returns b' \<and> found g b xs b' \<and>
        rel xs (addresses (start + word_of_nat p) (\<lambda>i. hit (p + i) (take m (drop i win))) 0 (length win + 1 - m))"
begin

lemma loop:
  assumes rd: "reads_memory (rs_read rs) start mem" "0 < rs_chunk rs"
    and rs: "rs_window rs = W" "rs_len rs = m" "length mem = len"
  shows "scanned \<le> len \<Longrightarrow> roomy g b \<Longrightarrow> carry = drop (carry_at m scanned) (take scanned mem) \<Longrightarrow>
    \<exists>b' xs. scan_loop rs start len scanned carry b = Returns b' \<and> found g b xs b' \<and>
      rel xs (addresses start (\<lambda>p. hit p (take m (drop p mem))) (carry_at m scanned) (len + 1 - m))"
proof (induction "len - scanned" arbitrary: scanned b carry rule: less_induct)
  case less
  show ?case
  proof (cases "scanned < len")
    case False
    with less.prems have "scanned = len" by simp
    then have "len + 1 - m \<le> carry_at m scanned"
      using m_pos by (auto simp: carry_at_def)
    with False less.prems show ?thesis
      using found_refl rel_nil by (subst scan_loop.simps) auto
  next
    case True
    obtain k b1 where k: "0 < k" "scanned + k \<le> len" "counted b b1"
      "scan_chunk rs start len scanned b = Chunk_Bytes (take k (drop scanned mem)) b1"
      using chunk_reads [OF rd(1) _ rd(2) less.prems(2), of scanned] True rs(3) by auto
    let ?c = "carry_at m scanned" and ?s = "scanned + k"
    let ?win = "drop ?c (take ?s mem)"
    have c: "?c \<le> scanned" "?c + length ?win = ?s"
      using k rs(3) by (auto simp: carry_at_def)
    have win: "carry @ take k (drop scanned mem) = ?win"
      using c k rs(3) less.prems(3) by (simp add: take_add)
    have base: "start + word_of_nat scanned - word_of_nat (length carry) = start + word_of_nat ?c"
      using c less.prems rs(3) by (simp add: of_nat_diff min_def)
    obtain b2 xs where b2: "W (start + word_of_nat ?c) ?win b1 = Returns b2" "found g b1 xs b2"
      "rel xs (addresses (start + word_of_nat ?c) (\<lambda>i. hit (?c + i) (take m (drop i ?win))) 0 (length ?win + 1 - m))"
      using window [OF counted_roomy [OF k(3) less.prems(2)], of ?c ?win] c k by auto
    have hits: "addresses (start + word_of_nat ?c) (\<lambda>i. hit (?c + i) (take m (drop i ?win))) 0 (length ?win + 1 - m) =
        addresses start (\<lambda>p. hit p (take m (drop p mem))) ?c (?c + (length ?win + 1 - m))"
      unfolding addresses_shift
    proof (simp only: add_0_right, rule addresses_cong)
      fix p assume p: "?c \<le> p" "p < ?c + (length ?win + 1 - m)"
      then have "m \<le> ?s - p" using c m_pos by arith
      then have "take m (drop (p - ?c) ?win) = take m (drop p mem)"
        using p by (simp add: drop_take min_absorb1)
      with p show "hit (?c + (p - ?c)) (take m (drop (p - ?c) ?win)) = hit p (take m (drop p mem))" by simp
    qed
    have dec: "len - ?s < len - scanned" using k(1) True by arith
    have "carry_over m carry ?win = drop (carry_at m ?s) (take ?s mem)"
      using carry_over_step [OF m_pos _ k(1), of scanned mem] k rs(3) less.prems(3) by simp
    from less.hyps [OF dec k(2) found_roomy [OF b2(2)] this]
    obtain b3 ys where b3: "scan_loop rs start len ?s (carry_over m carry ?win) b2 = Returns b3" "found g b2 ys b3"
      "rel ys (addresses start (\<lambda>p. hit p (take m (drop p mem))) (carry_at m ?s) (len + 1 - m))"
      by blast
    have parts: "addresses start P ?c (?c + (length ?win + 1 - m)) @ addresses start P (carry_at m ?s) (len + 1 - m) =
        addresses start P ?c (len + 1 - m)" for P
    proof (cases "?s < m - 1")
      case True
      then have "?c = 0" "carry_at m ?s = 0" "length ?win + 1 - m = 0"
        using c by (auto simp: carry_at_def)
      then show ?thesis by simp
    next
      case False
      then have "m - 1 \<le> ?s - ?c" "carry_at m ?s = ?s - (m - 1)"
        by (auto simp: carry_at_def min_def)
      moreover have "length ?win = ?s - ?c" using c by arith
      ultimately have eq: "?c + (length ?win + 1 - m) = carry_at m ?s" and le: "carry_at m ?s \<le> len + 1 - m"
        using c m_pos k(2) by arith+
      show ?thesis
        unfolding eq by (rule addresses_append [OF _ le]) (simp flip: eq)
    qed
    have "scan_loop rs start len scanned carry b = Returns b3"
      using True k(1,2) rs b2(1) b3(1) rs(3) unfolding scan_loop.simps [of rs start len scanned carry b] k(4)
      by (simp add: win base)
    moreover have "found g b (xs @ ys) b3"
      by (rule counted_found [OF k(3)], rule found_trans [OF b2(2) b3(2)])
    moreover have "rel (xs @ ys) (addresses start (\<lambda>p. hit p (take m (drop p mem))) ?c (len + 1 - m))"
      using rel_append [OF b2(3) b3(3)] unfolding hits parts .
    ultimately show ?thesis by blast
  qed
qed

lemma whole_range:
  assumes "reads_memory (rs_read rs) start mem" "0 < rs_chunk rs" "rs_window rs = W" "rs_len rs = m" "length mem = len" "roomy g b"
  shows "\<exists>b' xs. scan_loop rs start len 0 [] b = Returns b' \<and> found g b xs b' \<and>
    rel xs (addresses start (\<lambda>p. hit p (take m (drop p mem))) 0 (len + 1 - m))"
  using loop [OF assms(1-5), of 0 b "[]"] assms(6) by (simp add: carry_at_def)

end

section \<open>The byte-pattern search\<close>

definition byte_ok :: "byte list \<Rightarrow> byte list \<Rightarrow> byte list \<Rightarrow> nat \<Rightarrow> nat \<Rightarrow> bool" where
  "byte_ok pattern msk hay p k \<longleftrightarrow> msk ! k = 0 \<or> hay ! (p + k) = pattern ! k"

definition occurs :: "byte list \<Rightarrow> byte list \<Rightarrow> byte list \<Rightarrow> nat \<Rightarrow> bool" where
  "occurs pattern msk hay p \<longleftrightarrow> (\<forall>k<length pattern. byte_ok pattern msk hay p k)"

lemma occurs_take: "i + length pattern \<le> length win \<Longrightarrow> occurs pattern msk (take (length pattern) (drop i win)) 0 = occurs pattern msk win i"
  by (simp add: occurs_def byte_ok_def)

lemma mismatch_at_spec:
  assumes "j < length pattern" "i + 1 = p + length pattern"
  shows "case mismatch_at pattern msk hay i j of
      None \<Rightarrow> \<forall>k\<le>j. byte_ok pattern msk hay p k
    | Some q \<Rightarrow> q \<le> j \<and> \<not> byte_ok pattern msk hay p q \<and> (\<forall>k. q < k \<and> k \<le> j \<longrightarrow> byte_ok pattern msk hay p k)"
  using assms(1)
proof (induction j)
  case 0
  have "i - (length pattern - 1 - 0) = p" using assms(2) 0 by arith
  then show ?case
    by (subst mismatch_at.simps) (auto simp: byte_ok_def)
next
  case (Suc j)
  have idx: "i - (length pattern - 1 - Suc j) = p + Suc j" using assms(2) Suc.prems by simp
  show ?case
  proof (cases "byte_ok pattern msk hay p (Suc j)")
    case True
    then have "mismatch_at pattern msk hay i (Suc j) = mismatch_at pattern msk hay i j"
      using idx by (subst mismatch_at.simps) (auto simp: byte_ok_def)
    with True Suc show ?thesis
      by (auto simp: le_Suc_eq split: option.splits)
  next
    case False
    then have "mismatch_at pattern msk hay i (Suc j) = Some (Suc j)"
      using idx by (subst mismatch_at.simps) (simp add: byte_ok_def)
    with False show ?thesis by auto
  qed
qed

lemma addresses_skip:
  assumes "\<And>p. a \<le> p \<Longrightarrow> p < a + s \<Longrightarrow> \<not> P p"
  shows "addresses base P a b = addresses base P (a + s) b"
proof (cases "a + s \<le> b")
  case True
  have "addresses base P a (a + s) = []"
    using assms by (auto simp: addresses_def filter_empty_conv)
  with True addresses_append [of a "a + s" b base P] show ?thesis by simp
next
  case False
  then show ?thesis
    using assms by (auto simp: addresses_def filter_empty_conv)
qed

lemma addresses_subseq: "subseq (addresses base P (a + s) b) (addresses base P a b)"
proof (cases "a + s \<le> b")
  case True
  then have "addresses base P a b = addresses base P a (a + s) @ addresses base P (a + s) b"
    by (simp add: addresses_append)
  then show ?thesis by (metis list_emb_append2 subseq_order.order_refl)
qed simp

lemma addresses_Cons: "a < b \<Longrightarrow> P a \<Longrightarrow> addresses base P a b = (base + word_of_nat a) # addresses base P (a + 1) b"
  by (simp add: addresses_def upt_conv_Cons)

text \<open>A table for a pattern: it always advances; a safe one passes over no occurrence.\<close>

locale shift_table =
  fixes bm :: bm_table and pattern msk :: "byte list"
  assumes advances: "pattern \<noteq> [] \<Longrightarrow> 1 \<le> aob_shift bm (length pattern) c j"
begin

text \<open>One turn of the search: it ends, reports the position, or skips.\<close>

lemma search_turn:
  assumes "pattern \<noteq> []" "i + 1 = p + length pattern" "i < length hay" "roomy g b" "g \<longrightarrow> grant = (\<lambda>_. True)"
  obtains (hit) b' where "occurs pattern msk hay p" "found g b [base + word_of_nat p] b'"
      "aob_search grant bm pattern msk base hay i b = aob_search grant bm pattern msk base hay (i + 1) b'"
  | (miss) j where "j < length pattern" "\<not> byte_ok pattern msk hay p j"
      "\<And>k. j < k \<Longrightarrow> k < length pattern \<Longrightarrow> byte_ok pattern msk hay p k"
      "aob_search grant bm pattern msk base hay i b =
         aob_search grant bm pattern msk base hay (i + aob_shift bm (length pattern) (hay ! i) j) b"
proof -
  have last: "length pattern - 1 < length pattern" using assms(1) by simp
  note spec = mismatch_at_spec [OF last assms(2), of msk hay]
  show thesis
  proof (cases "mismatch_at pattern msk hay i (length pattern - 1)")
    case None
    have p: "i + 1 - length pattern = p" using assms(2) by simp
    have occ: "occurs pattern msk hay p"
      using spec None assms(1) by (auto simp: occurs_def)
    obtain b' where "scan_builder_append grant (base + word_of_nat p) b = Returns b'" "found g b [base + word_of_nat p] b'"
      using append_found [OF assms(4), of grant] assms(5) by blast
    moreover from this(1) have "aob_search grant bm pattern msk base hay i b = aob_search grant bm pattern msk base hay (i + 1) b'"
      using None assms(3) p by (subst aob_search.simps) simp
    ultimately show thesis using occ hit by blast
  next
    case (Some j)
    have "aob_search grant bm pattern msk base hay i b =
        aob_search grant bm pattern msk base hay (i + aob_shift bm (length pattern) (hay ! i) j) b"
      using Some assms(3) advances [OF assms(1), of "hay ! i" j] by (subst aob_search.simps) simp
    moreover have "j < length pattern" "\<not> byte_ok pattern msk hay p j"
      using spec Some assms(1) by (auto simp: less_Suc_eq_le [symmetric])
    moreover have "byte_ok pattern msk hay p k" if "j < k" "k < length pattern" for k
      using spec Some that by auto
    ultimately show thesis using miss by blast
  qed
qed

lemma search_sound:
  assumes "pattern \<noteq> []" "g \<longrightarrow> grant = (\<lambda>_. True)"
  shows "i + 1 = p + length pattern \<Longrightarrow> roomy g b \<Longrightarrow>
    \<exists>b' xs. aob_search grant bm pattern msk base hay i b = Returns b' \<and> found g b xs b' \<and>
      subseq xs (addresses base (occurs pattern msk hay) p (length hay + 1 - length pattern))"
proof (induction "length hay - i" arbitrary: i p b rule: less_induct)
  case less
  show ?case
  proof (cases "i < length hay")
    case False
    then show ?thesis
      using less.prems found_refl [of g b] by (subst aob_search.simps) (auto intro: list_emb_Nil)
  next
    case True
    have dec: "length hay - (i + 1) < length hay - i" using True by arith
    have nxt: "i + 1 + 1 = p + 1 + length pattern" using less.prems(1) by simp
    from assms(1) less.prems(1) True less.prems(2) assms(2) show ?thesis
    proof (cases rule: search_turn [where base = base and grant = grant])
      case (hit b')
      obtain b'' xs where "aob_search grant bm pattern msk base hay (i + 1) b' = Returns b''" "found g b' xs b''"
        "subseq xs (addresses base (occurs pattern msk hay) (p + 1) (length hay + 1 - length pattern))"
        using less.hyps [OF dec nxt found_roomy [OF hit(2)]] by blast
      moreover have "addresses base (occurs pattern msk hay) p (length hay + 1 - length pattern) =
          (base + word_of_nat p) # addresses base (occurs pattern msk hay) (p + 1) (length hay + 1 - length pattern)"
        using hit(1) True less.prems(1) by (intro addresses_Cons) auto
      ultimately show ?thesis
        using found_trans [OF hit(2)] hit(3) by fastforce
    next
      case (miss j)
      let ?s = "aob_shift bm (length pattern) (hay ! i) j"
      have pos: "1 \<le> ?s" by (rule advances [OF assms(1)])
      have dec: "length hay - (i + ?s) < length hay - i" using pos True by arith
      have nxt: "i + ?s + 1 = p + ?s + length pattern" using less.prems(1) by simp
      obtain b'' xs where "aob_search grant bm pattern msk base hay (i + ?s) b = Returns b''" "found g b xs b''"
        "subseq xs (addresses base (occurs pattern msk hay) (p + ?s) (length hay + 1 - length pattern))"
        using less.hyps [OF dec nxt less.prems(2)] by blast
      then show ?thesis
        using miss(4) addresses_subseq subseq_order.trans by metis
    qed
  qed
qed

end

locale safe_shifts = shift_table +
  assumes passes: "pattern \<noteq> [] \<Longrightarrow> j < length pattern \<Longrightarrow> \<not> byte_ok pattern msk hay p j \<Longrightarrow>
    (\<And>k. j < k \<Longrightarrow> k < length pattern \<Longrightarrow> byte_ok pattern msk hay p k) \<Longrightarrow> 1 \<le> s \<Longrightarrow>
    s < aob_shift bm (length pattern) (hay ! (p + length pattern - 1)) j \<Longrightarrow> \<not> occurs pattern msk hay (p + s)"
begin

lemma search_exact:
  assumes "pattern \<noteq> []" "g \<longrightarrow> grant = (\<lambda>_. True)"
  shows "i + 1 = p + length pattern \<Longrightarrow> roomy g b \<Longrightarrow>
    \<exists>b'. aob_search grant bm pattern msk base hay i b = Returns b' \<and>
      found g b (addresses base (occurs pattern msk hay) p (length hay + 1 - length pattern)) b'"
proof (induction "length hay - i" arbitrary: i p b rule: less_induct)
  case less
  show ?case
  proof (cases "i < length hay")
    case False
    then show ?thesis
      using less.prems found_refl [of g b] by (subst aob_search.simps) auto
  next
    case True
    have dec: "length hay - (i + 1) < length hay - i" using True by arith
    have nxt: "i + 1 + 1 = p + 1 + length pattern" using less.prems(1) by simp
    from assms(1) less.prems(1) True less.prems(2) assms(2) show ?thesis
    proof (cases rule: search_turn [where base = base and grant = grant])
      case (hit b')
      obtain b'' where "aob_search grant bm pattern msk base hay (i + 1) b' = Returns b''"
        "found g b' (addresses base (occurs pattern msk hay) (p + 1) (length hay + 1 - length pattern)) b''"
        using less.hyps [OF dec nxt found_roomy [OF hit(2)]] by blast
      moreover have "addresses base (occurs pattern msk hay) p (length hay + 1 - length pattern) =
          (base + word_of_nat p) # addresses base (occurs pattern msk hay) (p + 1) (length hay + 1 - length pattern)"
        using hit(1) True less.prems(1) by (intro addresses_Cons) auto
      ultimately show ?thesis
        using found_trans [OF hit(2)] hit(3) by fastforce
    next
      case (miss j)
      let ?s = "aob_shift bm (length pattern) (hay ! i) j"
      have pos: "1 \<le> ?s" by (rule advances [OF assms(1)])
      have dec: "length hay - (i + ?s) < length hay - i" using pos True by arith
      have nxt: "i + ?s + 1 = p + ?s + length pattern" using less.prems(1) by simp
      have i: "p + length pattern - 1 = i" using less.prems(1) by simp
      have "\<not> occurs pattern msk hay q" if "p \<le> q" "q < p + ?s" for q
      proof (cases "q = p")
        case True
        then show ?thesis using miss(1,2) by (auto simp: occurs_def)
      next
        case False
        then show ?thesis
          using passes [OF assms(1) miss(1,2) miss(3), of "q - p"] that unfolding i by auto
      qed
      then have skip: "addresses base (occurs pattern msk hay) p (length hay + 1 - length pattern) =
          addresses base (occurs pattern msk hay) (p + ?s) (length hay + 1 - length pattern)"
        by (rule addresses_skip)
      show ?thesis
        unfolding miss(4) skip by (rule less.hyps [OF dec nxt less.prems(2)])
    qed
  qed
qed

end

text \<open>The tables of the code always advance, and without good suffixes they are safe.\<close>

interpretation built_table: shift_table "bm_build_table alloc_ok pattern msk" pattern msk for alloc_ok pattern msk
proof
  show "1 \<le> aob_shift (bm_build_table alloc_ok pattern msk) (length pattern) c j" if "pattern \<noteq> []" for c j
    using bc_table_bound(1) [OF that, of msk c] by (simp add: aob_shift_def bm_build_table_def Let_def)
qed

definition bc_only :: "byte list \<Rightarrow> byte list \<Rightarrow> bm_table" where
  "bc_only pattern msk = \<lparr>bm_skip = bm_build_bc_table pattern msk, bm_gs_shift = None\<rparr>"

interpretation bc_table: safe_shifts "bc_only pattern msk" pattern msk for pattern msk
proof
  show "1 \<le> aob_shift (bc_only pattern msk) (length pattern) c j" if "pattern \<noteq> []" for c j
    using bc_table_bound(1) [OF that, of msk c] by (simp add: aob_shift_def bc_only_def Let_def)
  show "\<not> occurs pattern msk hay (p + s)"
    if "pattern \<noteq> []" "1 \<le> s" and s: "s < aob_shift (bc_only pattern msk) (length pattern) (hay ! (p + length pattern - 1)) j"
    for hay p s j
  proof
    let ?c = "hay ! (p + length pattern - 1)" and ?i = "length pattern - 1 - s"
    assume occ: "occurs pattern msk hay (p + s)"
    have lt: "s < bm_build_bc_table pattern msk ! unat ?c"
      using s bc_table_bound(1) [OF that(1), of msk ?c] by (auto simp: aob_shift_def bc_only_def Let_def split: if_splits)
    show False
    proof (cases "s \<le> length pattern - 1")
      case True
      have "0 < length pattern" using that(1) by simp
      with True have "p + s + ?i = p + length pattern - 1" "?i < length pattern" by arith+
      moreover from this occ have "byte_ok pattern msk hay (p + s) ?i" by (simp add: occurs_def)
      ultimately have "msk ! ?i = 0 \<or> pattern ! ?i = ?c" by (auto simp: byte_ok_def)
      moreover have "?i < length pattern - 1" using that(1,2) True by simp
      ultimately have "bm_build_bc_table pattern msk ! unat ?c \<le> length pattern - 1 - ?i"
        using bc_table_bound(2) [OF that(1)] by blast
      with lt True show False by simp
    next
      case False
      with lt bc_table_bound(3) [OF that(1), of msk ?c] show False by simp
    qed
  qed
qed

section \<open>The byte-pattern scan of a range\<close>

text \<open>The window of a pattern's search, exact with the bad-character table and sound with any table.\<close>

lemma aob_occurs_window:
  "addresses base (occurs pattern msk win) 0 (length win + 1 - length pattern) =
   addresses base (\<lambda>i. occurs pattern msk (take (length pattern) (drop i win)) 0) 0 (length win + 1 - length pattern)"
  by (rule addresses_cong) (auto simp: occurs_take)

interpretation aob_exact: window_scanner False "length (c # cs)" "\<lambda>p bs. occurs (c # cs) msk bs 0"
    "\<lambda>base win. aob_search grant (bc_only (c # cs) msk) (c # cs) msk base win (length (c # cs) - 1)" start len "(=)"
  for c cs msk grant start len
proof
  show "\<exists>b' xs. aob_search grant (bc_only (c # cs) msk) (c # cs) msk (start + word_of_nat p) win (length (c # cs) - 1) b = Returns b' \<and>
      found False b xs b' \<and> xs = addresses (start + word_of_nat p) (\<lambda>i. occurs (c # cs) msk (take (length (c # cs)) (drop i win)) 0) 0
        (length win + 1 - length (c # cs))" if "roomy False b" for b p win
    using bc_table.search_exact [of "c # cs" False grant "length (c # cs) - 1" 0 b msk "start + word_of_nat p" win] that
    unfolding aob_occurs_window [symmetric] by auto
qed auto

interpretation aob_sound: window_scanner False "length (c # cs)" "\<lambda>p bs. occurs (c # cs) msk bs 0"
    "\<lambda>base win. aob_search grant (bm_build_table alloc_ok (c # cs) msk) (c # cs) msk base win (length (c # cs) - 1)" start len subseq
  for c cs msk alloc_ok grant start len
proof
  show "\<exists>b' xs. aob_search grant (bm_build_table alloc_ok (c # cs) msk) (c # cs) msk (start + word_of_nat p) win (length (c # cs) - 1) b = Returns b' \<and>
      found False b xs b' \<and> subseq xs (addresses (start + word_of_nat p) (\<lambda>i. occurs (c # cs) msk (take (length (c # cs)) (drop i win)) 0) 0
        (length win + 1 - length (c # cs)))" if "roomy False b" for b p win
    using built_table.search_sound [of "c # cs" False grant "length (c # cs) - 1" 0 b alloc_ok msk "start + word_of_nat p" win] that
    unfolding aob_occurs_window [symmetric] by auto
qed (auto intro: list_emb_append_mono)

text \<open>The occurrences of a pattern in a memory, as addresses.\<close>

definition occurrences :: "byte list \<Rightarrow> byte list \<Rightarrow> u64 \<Rightarrow> byte list \<Rightarrow> u64 list" where
  "occurrences pattern msk start mem =
     addresses start (occurs pattern msk mem) 0 (length mem + 1 - length pattern)"

lemma hits_occurrences:
  "addresses start (\<lambda>p. occurs pattern msk (take (length pattern) (drop p mem)) 0) 0 (length mem + 1 - length pattern) =
   occurrences pattern msk start mem"
  unfolding occurrences_def by (rule aob_occurs_window [symmetric])

definition limit_of :: "u32 \<Rightarrow> nat" where
  "limit_of max_results = (if max_results = 0 then 1 else unat max_results)"

definition fresh_builder :: "nat \<Rightarrow> scan_builder" where
  "fresh_builder n = \<lparr>sb_result = empty_result, sb_capacity = n, sb_max_results = n, sb_progress = None\<rparr>"

lemma fresh_builder_simps [simp]:
  "roomy False (fresh_builder n)" "sb_max_results (fresh_builder n) = n" "sr_entries (sb_result (fresh_builder n)) = []"
  "\<not> sr_truncated (sb_result (fresh_builder n))"
  by (simp_all add: fresh_builder_def roomy_def empty_result_def)

lemma prealloc_limit:
  assumes "grant (limit_of max_results * 8)"
  shows "scan_builder_prealloc grant (if max_results = 0 then 1 else unat max_results) = Returns (fresh_builder (limit_of max_results))"
proof -
  have "limit_of max_results \<noteq> 0" by (simp add: limit_of_def unat_gt_0)
  with assms show ?thesis
    unfolding limit_of_def [symmetric] by (simp add: scan_builder_prealloc_def fresh_builder_def)
qed

definition reports :: "u64 list \<Rightarrow> u32 \<Rightarrow> scan_result \<Rightarrow> bool" where
  "reports hits max_results r \<longleftrightarrow> sr_entries r = take (limit_of max_results) hits \<and>
     sr_truncated r = (limit_of max_results < length hits)"

text \<open>
  C13. The byte-pattern scan is exact without a good-suffix table. For a pattern with a wildcard,
  for one of less than four bytes, or when the table could not be allocated: the scan of a valid
  range returns, and reports the addresses of all occurrences in the memory of the range, those
  that straddle two chunks included and none twice, in ascending order and up to the limit; it
  is marked as truncated exactly when there are more. This holds for every size of the chunks
  and however few bytes a read returns.
\<close>

theorem aob_scan_exact:
  assumes "pattern \<noteq> []" "scan_bounds_valid (ab_start request) (ab_length request) (word_of_nat (length pattern))"
    "length pattern < 2 ^ 32" "length mem = unat (ab_length request)"
    "grant (chunk_size + (length pattern - 1))" "grant (limit_of (ab_max_results request) * 8)"
    "0 < chunk_size" "reads_memory rd (ab_start request) mem"
    "\<not> list_all (\<lambda>b. b \<noteq> 0) msk \<or> length pattern < 4 \<or> \<not> grant (length pattern * 8)"
  shows "\<exists>r. memdbg_scan_aob grant rd chunk_size request pattern msk = Returns r \<and>
    reports (occurrences pattern msk (ab_start request) mem) (ab_max_results request) r"
proof -
  obtain c cs where pat: "pattern = c # cs" using assms(1) by (cases pattern) auto
  let ?b = "fresh_builder (limit_of (ab_max_results request))"
  have table: "bm_build_table (grant (length pattern * 8)) pattern msk = bc_only pattern msk"
    using assms(9) by (auto simp: bm_build_table_def bc_only_def bm_build_gs_table_def BM_GS_MIN_LENGTH_def)
  let ?rs = "\<lparr>rs_read = rd, rs_chunk = chunk_size, rs_len = length pattern, rs_cancellable = False, rs_tracked = True,
    rs_skip_errors = True, rs_window = (\<lambda>base win. aob_search grant (bc_only pattern msk) pattern msk base win (length pattern - 1))\<rparr>"
  obtain b' where b': "scan_loop ?rs (ab_start request) (length mem) 0 [] ?b = Returns b'"
    "found False ?b (occurrences pattern msk (ab_start request) mem) b'"
    using aob_exact.whole_range [of ?rs "ab_start request" mem grant c cs msk "length mem" ?b] assms(7,8)
    unfolding pat [symmetric] hits_occurrences by auto
  have ne: "ab_length request \<noteq> 0" using assms(2) by (simp add: scan_bounds_valid_def)
  have "\<not> unat (ab_length request) < length pattern"
    using assms(2,3) by (auto simp: scan_bounds_valid_def word_less_nat_alt unat_of_nat)
  then have range: "scan_aob_range grant rd chunk_size (bc_only pattern msk) pattern msk (ab_start request) (ab_length request) ?b = Returns b'"
    using b'(1) assms(4) by (simp add: scan_aob_range_def)
  have run: "memdbg_scan_aob grant rd chunk_size request pattern msk = Returns (sb_result (one_region b'))"
    using assms(1,2,5) ne unfolding memdbg_scan_aob_def table prealloc_limit [of grant "ab_max_results request", OF assms(6)] by (simp add: range)
  show ?thesis
    unfolding run using b' by (simp add: found_def reports_def one_region_def)
qed

text \<open>A reader that hands out a memory, at most so many bytes at a time.\<close>

definition list_reader :: "nat \<Rightarrow> u64 \<Rightarrow> byte list \<Rightarrow> reader" where
  "list_reader most start mem address n = Inr (take (min n most) (drop (unat (address - start)) mem))"

lemma list_reader_reads:
  assumes "0 < most" "length mem < 2 ^ 64"
  shows "reads_memory (list_reader most start mem) start mem"
  unfolding reads_memory_def
proof (intro allI impI)
  fix p n :: nat assume n: "0 < n" "p + n \<le> length mem"
  then have "unat (word_of_nat p :: u64) = p"
    using assms(2) by (simp add: unat_of_nat)
  then show "\<exists>k>0. k \<le> n \<and> list_reader most start mem (start + word_of_nat p) n = Inr (take k (drop p mem))"
    using n assms(1) by (intro exI [of _ "min n most"]) (simp add: list_reader_def)
qed

text \<open>A two-byte pattern that straddles the chunks, with reads of two bytes.\<close>

theorem aob_scan_exact_witness:
  "\<exists>r. memdbg_scan_aob (\<lambda>_. True) (list_reader 2 4096 [1, 7, 8, 7, 8]) 3 \<lparr>ab_start = 4096, ab_length = 5, ab_max_results = 1\<rparr>
      [7, 8] [1, 1] = Returns r \<and> sr_entries r = [4097] \<and> sr_truncated r"
proof -
  let ?req = "\<lparr>ab_start = 4096, ab_length = 5, ab_max_results = 1\<rparr>"
  have occ: "occurrences [7, 8] [1, 1] 4096 [1, 7, 8, 7, 8] = [4097, 4099]" by code_simp
  have "\<exists>r. memdbg_scan_aob (\<lambda>_. True) (list_reader 2 4096 [1, 7, 8, 7, 8]) 3 ?req [7, 8] [1, 1] = Returns r \<and>
      reports (occurrences [7, 8] [1, 1] (ab_start ?req) [1, 7, 8, 7, 8]) (ab_max_results ?req) r"
    by (rule aob_scan_exact)
      (use list_reader_reads [of 2 "[1, 7, 8, 7, 8]" 4096] in \<open>simp_all add: scan_bounds_valid_def MEMDBG_SCAN_MAX_LENGTH_def\<close>)
  with occ show ?thesis by (auto simp: reports_def limit_of_def)
qed

text \<open>
  Whatever the table, what the byte-pattern scan reports is real: for every non-empty
  pattern, exact or with wildcards, the scan of a valid range returns, and the addresses it
  reports are occurrences of the pattern in the memory of the range, each once and in ascending
  order.
\<close>

theorem aob_scan_sound:
  assumes "pattern \<noteq> []" "scan_bounds_valid (ab_start request) (ab_length request) (word_of_nat (length pattern))"
    "length pattern < 2 ^ 32" "length mem = unat (ab_length request)"
    "grant (chunk_size + (length pattern - 1))" "grant (limit_of (ab_max_results request) * 8)"
    "0 < chunk_size" "reads_memory rd (ab_start request) mem"
  shows "\<exists>r. memdbg_scan_aob grant rd chunk_size request pattern msk = Returns r \<and>
    subseq (sr_entries r) (occurrences pattern msk (ab_start request) mem)"
proof -
  obtain c cs where pat: "pattern = c # cs" using assms(1) by (cases pattern) auto
  let ?b = "fresh_builder (limit_of (ab_max_results request))"
    and ?bm = "bm_build_table (grant (length pattern * 8)) pattern msk"
  let ?rs = "\<lparr>rs_read = rd, rs_chunk = chunk_size, rs_len = length pattern, rs_cancellable = False, rs_tracked = True,
    rs_skip_errors = True, rs_window = (\<lambda>base win. aob_search grant ?bm pattern msk base win (length pattern - 1))\<rparr>"
  obtain b' xs where b': "scan_loop ?rs (ab_start request) (length mem) 0 [] ?b = Returns b'" "found False ?b xs b'"
    "subseq xs (occurrences pattern msk (ab_start request) mem)"
    using aob_sound.whole_range [of ?rs "ab_start request" mem grant "grant (length pattern * 8)" c cs msk "length mem" ?b] assms(7,8)
    unfolding pat [symmetric] hits_occurrences by auto
  have ne: "ab_length request \<noteq> 0" using assms(2) by (simp add: scan_bounds_valid_def)
  have "\<not> unat (ab_length request) < length pattern"
    using assms(2,3) by (auto simp: scan_bounds_valid_def word_less_nat_alt unat_of_nat)
  then have range: "scan_aob_range grant rd chunk_size ?bm pattern msk (ab_start request) (ab_length request) ?b = Returns b'"
    using b'(1) assms(4) by (simp add: scan_aob_range_def)
  have run: "memdbg_scan_aob grant rd chunk_size request pattern msk = Returns (sb_result (one_region b'))"
    using assms(1,2,5) ne
    unfolding memdbg_scan_aob_def prealloc_limit [of grant "ab_max_results request", OF assms(6)] by (simp add: range)
  have "sr_entries (sb_result (one_region b')) = take (limit_of (ab_max_results request)) xs"
    using b'(2) by (simp add: found_def one_region_def)
  moreover have "subseq (take (limit_of (ab_max_results request)) xs) (occurrences pattern msk (ab_start request) mem)"
    by (rule subseq_order.trans [OF prefix_imp_subseq [OF take_is_prefix] b'(3)])
  ultimately show ?thesis
    unfolding run by simp
qed

text \<open>An exact pattern of four bytes.\<close>

theorem aob_scan_sound_witness:
  "\<exists>r. memdbg_scan_aob (\<lambda>_. True) (list_reader 2 4096 [1, 7, 8, 7, 8]) 3 \<lparr>ab_start = 4096, ab_length = 5, ab_max_results = 1\<rparr>
      [7, 8, 7, 8] [1, 1, 1, 1] = Returns r \<and> subseq (sr_entries r) [4097]"
proof -
  let ?req = "\<lparr>ab_start = 4096, ab_length = 5, ab_max_results = 1\<rparr>"
  have occ: "occurrences [7, 8, 7, 8] [1, 1, 1, 1] 4096 [1, 7, 8, 7, 8] = [4097]" by code_simp
  have "\<exists>r. memdbg_scan_aob (\<lambda>_. True) (list_reader 2 4096 [1, 7, 8, 7, 8]) 3 ?req [7, 8, 7, 8] [1, 1, 1, 1] = Returns r \<and>
      subseq (sr_entries r) (occurrences [7, 8, 7, 8] [1, 1, 1, 1] (ab_start ?req) [1, 7, 8, 7, 8])"
    by (rule aob_scan_sound)
      (use list_reader_reads [of 2 "[1, 7, 8, 7, 8]" 4096] in \<open>simp_all add: scan_bounds_valid_def MEMDBG_SCAN_MAX_LENGTH_def\<close>)
  with occ show ?thesis by simp
qed

section \<open>What the byte-pattern scan passes over\<close>

text \<open>The search of a window whose first position mismatches: it goes on behind the shift.\<close>

lemma search_after_mismatch:
  fixes alloc_ok :: bool
  assumes "pattern \<noteq> []" "length pattern \<le> length hay" "roomy g b" "g \<longrightarrow> grant = (\<lambda>_. True)"
    and j: "j < length pattern" "\<not> byte_ok pattern msk hay 0 j" "\<And>k. j < k \<Longrightarrow> k < length pattern \<Longrightarrow> byte_ok pattern msk hay 0 k"
  defines "sh \<equiv> aob_shift (bm_build_table alloc_ok pattern msk) (length pattern) (hay ! (length pattern - 1)) j"
  shows "\<exists>b' xs. aob_search grant (bm_build_table alloc_ok pattern msk) pattern msk base hay (length pattern - 1) b = Returns b' \<and>
    found g b xs b' \<and> subseq xs (addresses base (occurs pattern msk hay) sh (length hay + 1 - length pattern))"
proof -
  let ?i = "length pattern - 1"
  have i: "?i + 1 = 0 + length pattern" "?i < length hay" "?i + sh + 1 = sh + length pattern" using assms(1,2) by (cases pattern, auto)+
  from assms(1) i(1,2) assms(3,4) show ?thesis
  proof (cases rule: built_table.search_turn [where base = base and grant = grant and alloc_ok = alloc_ok and msk = msk])
    case (hit b')
    then show ?thesis using j(1,2) by (simp add: occurs_def)
  next
    case (miss q)
    have "q = j" using miss(1-3) j by (metis nat_neq_iff)
    then show ?thesis
      using built_table.search_sound [OF assms(1,4) i(3) assms(3), of alloc_ok msk base hay] miss(4) by (simp add: sh_def)
  qed
qed

text \<open>A scan of a range that one read returns whole: the search of the only window is the result.\<close>

lemma aob_scan_one_read:
  fixes request :: scan_aob_request
  defines "b \<equiv> fresh_builder (limit_of (ab_max_results request))"
  assumes "pattern \<noteq> []" "mem \<noteq> []" "length pattern \<le> length mem"
    "scan_bounds_valid (ab_start request) (ab_length request) (word_of_nat (length pattern))"
    "length mem = unat (ab_length request)" "length mem \<le> chunk_size" "rd (ab_start request) (length mem) = Inr mem"
    "aob_search (\<lambda>_. True) (bm_build_table True pattern msk) pattern msk (ab_start request) mem (length pattern - 1)
       (count_bytes True (length mem) (count_call b)) = Returns b'"
  shows "memdbg_scan_aob (\<lambda>_. True) rd chunk_size request pattern msk = Returns (sb_result (one_region b'))"
proof -
  let ?bm = "bm_build_table True pattern msk"
  let ?rs = "\<lparr>rs_read = rd, rs_chunk = chunk_size, rs_len = length pattern, rs_cancellable = False, rs_tracked = True,
    rs_skip_errors = True, rs_window = (\<lambda>base win. aob_search (\<lambda>_. True) ?bm pattern msk base win (length pattern - 1))\<rparr>"
  have "scan_chunk ?rs (ab_start request) (length mem) 0 b = Chunk_Bytes mem (count_bytes True (length mem) (count_call b))"
    using assms(3,7,8) by (simp add: scan_chunk_def scan_read_size_def scan_memory_read_resilient_def read_attempts.simps
        check_cancel_def b_def fresh_builder_def)
  then have "scan_loop ?rs (ab_start request) (length mem) 0 [] b = Returns b'"
    using assms(3,9) by (simp add: scan_loop.simps [of _ _ _ 0] scan_loop.simps [of _ _ _ "length mem"])
  then have "scan_aob_range (\<lambda>_. True) rd chunk_size ?bm pattern msk (ab_start request) (ab_length request) b = Returns b'"
    using assms(4,6) by (simp add: scan_aob_range_def)
  then show ?thesis
    using assms(2,5) prealloc_limit [of "\<lambda>_. True" "ab_max_results request"]
    by (simp add: memdbg_scan_aob_def scan_bounds_valid_def b_def)
qed

lemma address_not_behind:
  assumes "s < sh" "m \<le> 2 ^ 64"
  shows "base + word_of_nat s \<notin> set (addresses base P sh m)"
proof
  assume "base + word_of_nat s \<in> set (addresses base P sh m)"
  then obtain q where q: "sh \<le> q" "q < m" "(word_of_nat s :: u64) = word_of_nat q" by (auto simp: addresses_def)
  then have "s < 2 ^ 64" "q < 2 ^ 64" using assms by simp_all
  then have "unat (word_of_nat s :: u64) = s" "unat (word_of_nat q :: u64) = q" by (simp_all add: unat_of_nat take_bit_nat_eq_self)
  with q assms(1) show False by simp
qed

text \<open>
  C15. With a good-suffix table the byte-pattern scan misses occurrences, since the search takes the
  entry behind the position of the mismatch instead of the one for it. For an exact pattern of four
  bytes or more, a range that is read in one piece and whose first bytes mismatch the pattern last
  at position \<open>j\<close>, an occurrence at a distance smaller than the entry for \<open>j + 1\<close> is not reported.
  The table's own entry for \<open>j\<close> would not have passed over it.
\<close>

theorem aob_scan_misses_match:
  assumes pat: "4 \<le> length pattern" "length pattern < 2 ^ 32" "length msk = length pattern" "list_all (\<lambda>b. b \<noteq> 0) msk"
    and bounds: "scan_bounds_valid (ab_start request) (ab_length request) (word_of_nat (length pattern))"
    and mem: "length mem = unat (ab_length request)" "length mem \<le> chunk_size" "rd (ab_start request) (length mem) = Inr mem"
    and first: "j < length pattern - 1" "mem ! j \<noteq> pattern ! j" "\<And>k. j < k \<Longrightarrow> k < length pattern \<Longrightarrow> mem ! k = pattern ! k"
    and occ: "s + length pattern \<le> length mem" "\<And>k. k < length pattern \<Longrightarrow> mem ! (s + k) = pattern ! k"
    and skipped: "s < gs_shifts pattern ! (j + 1)"
  shows "ab_start request + word_of_nat s \<in> set (occurrences pattern msk (ab_start request) mem) \<and> gs_shifts pattern ! j \<le> s \<and>
    (\<exists>r. memdbg_scan_aob (\<lambda>_. True) rd chunk_size request pattern msk = Returns r \<and>
         ab_start request + word_of_nat s \<notin> set (sr_entries r))"
proof (intro conjI)
  let ?P = "pattern" and ?start = "ab_start request" and ?b = "fresh_builder (limit_of (ab_max_results request))"
  let ?bm = "bm_build_table True ?P msk" and ?b1 = "count_bytes True (length mem) (count_call ?b)"
  let ?sh = "aob_shift ?bm (length ?P) (mem ! (length ?P - 1)) j"
  have ne: "?P \<noteq> []" "mem \<noteq> []" "length ?P \<le> length mem" using pat(1) occ(1) by auto
  have exact: "byte_ok ?P msk mem p k \<longleftrightarrow> mem ! (p + k) = ?P ! k" if "k < length ?P" for p k
    using that pat(3,4) by (auto simp: byte_ok_def list_all_length)
  have here: "occurs ?P msk mem s" using occ(2) exact by (simp add: occurs_def)
  then show "?start + word_of_nat s \<in> set (occurrences ?P msk ?start mem)"
    using occ(1) by (auto simp: occurrences_def addresses_def)
  have j: "j < length ?P" using first(1) by simp
  have "s \<noteq> 0" using occ(2) [OF j] first(2) by (cases "s = 0") auto
  moreover have "compatible ?P j s"
    by (rule occurrence_compatible [where hay = "(!) mem" and a = 0]) (use first occ(2) in auto)
  ultimately show "gs_shifts ?P ! j \<le> s" using ne first(1) by (intro gs_shifts_least) auto
  have far: "s < ?sh"
    using skipped first(1) pat(1,4) by (simp add: aob_shift_def bm_build_table_def bm_build_gs_table_def BM_GS_MIN_LENGTH_def Let_def)
  have "roomy False ?b1" by (simp add: roomy_def count_bytes_def count_call_def fresh_builder_def empty_result_def)
  then obtain b2 xs where b2: "aob_search (\<lambda>_. True) ?bm ?P msk ?start mem (length ?P - 1) ?b1 = Returns b2" "found False ?b1 xs b2"
    "subseq xs (addresses ?start (occurs ?P msk mem) ?sh (length mem + 1 - length ?P))"
    using search_after_mismatch [OF ne(1,3), of False ?b1 "\<lambda>_. True" j msk True ?start] j first exact by auto
  have "set xs \<subseteq> set (addresses ?start (occurs ?P msk mem) ?sh (length mem + 1 - length ?P))"
    using b2(3) by (auto dest: list_emb_set)
  moreover have "length mem + 1 - length ?P \<le> 2 ^ 64"
    using mem(1) unsigned_less [of "ab_length request", where 'a = nat] by simp
  ultimately have "?start + word_of_nat s \<notin> set xs" using address_not_behind [OF far] by blast
  moreover have "sr_entries (sb_result b2) = take (limit_of (ab_max_results request)) xs"
    using b2(2) by (simp add: found_def count_bytes_def count_call_def fresh_builder_def empty_result_def)
  ultimately have out: "?start + word_of_nat s \<notin> set (sr_entries (sb_result (one_region b2)))"
    by (auto simp: one_region_def dest: in_set_takeD)
  have "memdbg_scan_aob (\<lambda>_. True) rd chunk_size request ?P msk = Returns (sb_result (one_region b2))"
    by (rule aob_scan_one_read [where rd = rd, OF ne bounds mem b2(1)])
  with out show "\<exists>r. memdbg_scan_aob (\<lambda>_. True) rd chunk_size request ?P msk = Returns r \<and> ?start + word_of_nat s \<notin> set (sr_entries r)"
    by blast
qed

text \<open>Four bytes \<^verbatim>\<open>AA\<close> in \<^verbatim>\<open>00 BB AA AA AA AA\<close>: the last mismatch is at 1, the entry for 2 is 3.\<close>

theorem aob_scan_misses_match_witness:
  "\<exists>r. memdbg_scan_aob (\<lambda>_. True) (list_reader 6 4096 [0, 0xBB, 0xAA, 0xAA, 0xAA, 0xAA]) 4096
      \<lparr>ab_start = 4096, ab_length = 6, ab_max_results = 10\<rparr> [0xAA, 0xAA, 0xAA, 0xAA] [1, 1, 1, 1] = Returns r \<and>
      4098 \<notin> set (sr_entries r)"
proof -
  let ?mem = "[0, 0xBB, 0xAA, 0xAA, 0xAA, 0xAA] :: byte list" and ?P = "[0xAA, 0xAA, 0xAA, 0xAA] :: byte list"
  let ?req = "\<lparr>ab_start = 4096, ab_length = 6, ab_max_results = 10\<rparr>"
  have gs: "gs_shifts ?P ! (1 + 1) = 3" by code_simp
  have read: "list_reader 6 4096 ?mem (ab_start ?req) (length ?mem) = Inr ?mem" by code_simp
  have first: "?mem ! k = ?P ! k" if "1 < k" "k < length ?P" for k
    using that by (auto simp: less_Suc_eq numeral_eq_Suc)
  have occ: "?mem ! (2 + k) = ?P ! k" if "k < length ?P" for k
    using that by (auto simp: less_Suc_eq numeral_eq_Suc)
  have "ab_start ?req + word_of_nat 2 \<in> set (occurrences ?P [1, 1, 1, 1] (ab_start ?req) ?mem) \<and> gs_shifts ?P ! 1 \<le> 2 \<and>
    (\<exists>r. memdbg_scan_aob (\<lambda>_. True) (list_reader 6 4096 ?mem) 4096 ?req ?P [1, 1, 1, 1] = Returns r \<and>
         ab_start ?req + word_of_nat 2 \<notin> set (sr_entries r))"
    by (rule aob_scan_misses_match [where j = 1 and s = 2])
      (use gs read first occ in \<open>simp_all add: scan_bounds_valid_def MEMDBG_SCAN_MAX_LENGTH_def\<close>)
  then show ?thesis by simp
qed

end
