(* ===== verification/Scan_Exact_Correct.thy ===== *)
theory Scan_Exact_Correct
  imports Scan_Range_Correct
begin

text \<open>
  The exact-value and the unknown-value scan of a range report the aligned positions that hold
  the value, or a candidate, and nothing else. The alignment is relative to a base at or below
  the start of the range; \<open>d\<close> is its distance.
\<close>

section \<open>Aligned positions\<close>

lemma next_aligned:
  fixes x a :: nat
  assumes "0 < a"
  shows "(x + (a - x mod a) mod a) mod a = 0" "(a - x mod a) mod a < a"
    "i < (a - x mod a) mod a \<Longrightarrow> (x + i) mod a \<noteq> 0"
proof -
  let ?f = "(a - x mod a) mod a"
  have lt: "x mod a < a" using assms by simp
  show "?f < a" using assms by simp
  show "(x + ?f) mod a = 0"
  proof -
    have "(x + ?f) mod a = (x mod a + (a - x mod a)) mod a" by (simp add: mod_simps)
    with lt show ?thesis by simp
  qed
  show "(x + i) mod a \<noteq> 0" if "i < ?f"
  proof -
    have i: "x mod a + i < a" "x mod a \<noteq> 0"
      using that lt by (cases "x mod a = 0"; simp)+
    then have "(x mod a + i) mod a = x mod a + i" by simp
    with i(2) show ?thesis by (simp add: mod_add_left_eq)
  qed
qed

lemma unat_max64: "unat (- 1 :: u64) = 2 ^ 64 - 1"
  by (simp add: unsigned_minus_1_eq_mask mask_eq_exp_minus_1)

lemma unat_offset:
  assumes "unat (start :: u64) + len < 2 ^ 64" "p \<le> len"
  shows "unat (start + word_of_nat p) = unat start + p"
proof -
  have "p < 2 ^ 64" using assms by simp
  then have "unat (word_of_nat p :: u64) = p" by (simp add: unat_of_nat)
  with assms show ?thesis by (simp add: unat_word_ariths)
qed

lemma first_aligned_offset_spec:
  assumes "unat start + len < 2 ^ 64" "p \<le> len" "alignment_base \<le> start" "alignment \<noteq> 0"
  shows "unat (first_aligned_offset (start + word_of_nat p) alignment_base start alignment) =
    (unat alignment - (unat start - unat alignment_base + p) mod unat alignment) mod unat alignment"
proof -
  let ?base = "start + word_of_nat p :: u64" and ?a = "unat alignment"
  have base: "unat ?base = unat start + p" by (rule unat_offset [OF assms(1,2)])
  then have ge: "\<not> ?base < start" by (simp add: word_less_nat_alt)
  have a: "unat (ucast alignment :: u64) = ?a" 
    using unsigned_less [of alignment, where 'a = nat] by (simp add: unsigned_ucast_eq take_bit_nat_eq_self)
  have "alignment_base \<le> ?base"
    using assms(3) base by (simp add: word_le_nat_alt)
  then have "unat (?base - alignment_base) = unat start + p - unat alignment_base"
    using base by (simp add: unat_sub)
  then have x: "unat (?base - alignment_base) = unat start - unat alignment_base + p"
    using assms(3) by (simp add: word_le_nat_alt)
  define mis where "mis = (?base - alignment_base) mod ucast alignment"
  have mis: "unat mis = (unat start - unat alignment_base + p) mod ?a"
    by (simp add: mis_def unat_mod a x)
  have pos: "0 < ?a" using assms(4) by (simp add: unat_gt_0)
  show ?thesis
  proof (cases "alignment \<le> 1")
    case True
    then have "?a = 1"
      using pos by (simp add: word_le_nat_alt)
    with True ge show ?thesis
      by (simp add: first_aligned_offset_def)
  next
    case False
    have "mis \<le> ucast alignment"
      using mis pos a by (simp add: word_le_nat_alt less_imp_le)
    then have "unat (ucast alignment - mis) = ?a - unat mis"
      by (simp add: unat_sub a)
    then have "unat (first_aligned_offset ?base alignment_base start alignment) = (if mis \<noteq> 0 then ?a - unat mis else 0)"
      using False ge by (simp add: first_aligned_offset_def mis_def)
    moreover have "mis \<noteq> 0 \<longleftrightarrow> unat mis \<noteq> 0" by (simp add: unat_gt_0)
    moreover have "unat mis < ?a" using pos by (simp add: mis)
    ultimately show ?thesis
      using mis by auto
  qed
qed

lemma aligned_scan_found:
  assumes "unat start + len < 2 ^ 64" "0 < a" "p + searchable + value_len \<le> len + 1" "0 < value_len" "g \<Longrightarrow> grant = (\<lambda>_. True)"
  shows "(x + i) mod a = 0 \<Longrightarrow> roomy g b \<Longrightarrow>
    \<exists>b'. aligned_scan grant hit value_len a (start + word_of_nat p) (start + word_of_nat len) searchable i b = Returns b' \<and>
      found g b (addresses (start + word_of_nat p) (\<lambda>i. (x + i) mod a = 0 \<and> hit i) i searchable) b'"
proof (induction "searchable - i" arbitrary: i b rule: less_induct)
  case less
  let ?P = "\<lambda>i. (x + i) mod a = 0 \<and> hit i" and ?base = "start + word_of_nat p :: u64"
  show ?case
  proof (cases "i < searchable")
    case False
    then show ?thesis
      using less.prems found_refl by (subst aligned_scan.simps) auto
  next
    case True
    have abs: "?base + word_of_nat i = start + word_of_nat (p + i)" by simp
    have le: "p + i \<le> len" "p + i + value_len \<le> len" using assms(3,4) True by simp_all
    have u: "unat (start + word_of_nat (p + i)) = unat start + (p + i)" "unat (start + word_of_nat len) = unat start + len"
      using unat_offset [OF assms(1)] le by blast+
    have fits: "value_len \<le> len - (p + i)" using le by arith
    have ord: "start + word_of_nat (p + i) \<le> start + word_of_nat len"
      unfolding word_le_nat_alt u using le by simp
    then have "unat (start + word_of_nat len - (start + word_of_nat (p + i))) = len - (p + i)"
      by (simp only: unat_sub u)
    moreover have "unat (word_of_nat value_len :: u64) = value_len"
      using le assms(1) by (simp add: unat_of_nat)
    ultimately have inside: "\<not> (?base + word_of_nat i > start + word_of_nat len \<or>
        word_of_nat value_len > start + word_of_nat len - (?base + word_of_nat i))"
      using ord fits unfolding abs by (simp add: word_less_nat_alt word_le_nat_alt not_less del: of_nat_add)
    obtain b1 where b1: "(if hit i then scan_builder_append grant (?base + word_of_nat i) b else Returns b) = Returns b1"
      "found g b (if hit i then [?base + word_of_nat i] else []) b1"
      using append_found [OF less.prems(2) assms(5)] found_refl [OF less.prems(2)] by (cases "hit i") auto
    have dec: "searchable - (i + a) < searchable - i" using True assms(2) by arith
    have nxt: "(x + (i + a)) mod a = 0" using less.prems(1) by (simp flip: add.assoc)
    obtain b2 where b2: "aligned_scan grant hit value_len a ?base (start + word_of_nat len) searchable (i + a) b1 = Returns b2"
      "found g b1 (addresses ?base ?P (i + a) searchable) b2"
      using less.hyps [OF dec nxt found_roomy [OF b1(2)]] by blast
    have gap: "\<not> ?P q" if "i + 1 \<le> q" "q < i + 1 + (a - 1)" for q
    proof -
      have "(x + i + (q - i)) mod a = (q - i) mod a"
        using less.prems(1) by (metis add_0 mod_add_left_eq)
      with that show ?thesis by simp
    qed
    have "addresses ?base ?P (i + 1) searchable = addresses ?base ?P (i + a) searchable"
      using addresses_skip [of "i + 1" "a - 1" ?P ?base searchable] gap assms(2) by simp
    moreover have "addresses ?base ?P i searchable =
        (if hit i then [?base + word_of_nat i] else []) @ addresses ?base ?P (i + 1) searchable"
      using True less.prems(1) by (simp add: addresses_def upt_conv_Cons)
    ultimately have "found g b (addresses ?base ?P i searchable) b2"
      using found_trans [OF b1(2) b2(2)] by simp
    moreover have "aligned_scan grant hit value_len a ?base (start + word_of_nat len) searchable i b = Returns b2"
      unfolding aligned_scan.simps [of grant hit value_len a ?base _ searchable i b]
      using True assms(2) b2(1) by (simp only: Let_def if_True inside if_False b1(1) outcome.case) simp
    ultimately show ?thesis by blast
  qed
qed

text \<open>From the first aligned offset on, the scan reports all aligned hits of the window.\<close>

lemma aligned_window_found:
  assumes "unat start + len < 2 ^ 64" "p + searchable + value_len \<le> len + 1" "0 < value_len" "p \<le> len"
    "alignment_base \<le> start" "alignment \<noteq> 0" "roomy g b" "g \<Longrightarrow> grant = (\<lambda>_. True)"
  shows "\<exists>b'. aligned_scan grant hit value_len (unat alignment) (start + word_of_nat p) (start + word_of_nat len) searchable
      (unat (first_aligned_offset (start + word_of_nat p) alignment_base start alignment)) b = Returns b' \<and>
    found g b (addresses (start + word_of_nat p)
      (\<lambda>i. (unat start - unat alignment_base + p + i) mod unat alignment = 0 \<and> hit i) 0 searchable) b'"
proof -
  let ?x = "unat start - unat alignment_base + p" and ?a = "unat alignment"
  let ?f = "(?a - ?x mod ?a) mod ?a"
  have a: "0 < ?a" using assms(6) by (simp add: unat_gt_0)
  have f: "unat (first_aligned_offset (start + word_of_nat p) alignment_base start alignment) = ?f"
    by (rule first_aligned_offset_spec [OF assms(1,4,5,6)])
  have "addresses (start + word_of_nat p) (\<lambda>i. (?x + i) mod ?a = 0 \<and> hit i) 0 searchable =
      addresses (start + word_of_nat p) (\<lambda>i. (?x + i) mod ?a = 0 \<and> hit i) ?f searchable"
    using addresses_skip [of 0 ?f "\<lambda>i. (?x + i) mod ?a = 0 \<and> hit i"] next_aligned(3) [OF a, of _ ?x] by simp
  then show ?thesis
    using aligned_scan_found [OF assms(1) a assms(2,3) assms(8) next_aligned(1) [OF a] assms(7), of hit] unfolding f by simp
qed

text \<open>The search by \<^verbatim>\<open>memchr\<close> reports every byte that is equal.\<close>

lemma byte_scan_found:
  assumes "searchable \<le> length buf" "g \<Longrightarrow> grant = (\<lambda>_. True)"
  shows "roomy g b \<Longrightarrow> \<exists>b'. byte_scan grant c base buf searchable pos b = Returns b' \<and>
    found g b (addresses base (\<lambda>i. buf ! i = c) pos searchable) b'"
proof (induction "searchable - pos" arbitrary: pos b rule: less_induct)
  case less
  let ?P = "\<lambda>i. buf ! i = c" and ?ys = "take (searchable - pos) (drop pos buf)"
  show ?case
  proof (cases "pos < searchable")
    case False
    then show ?thesis
      using less.prems found_refl by (subst byte_scan.simps) auto
  next
    case True
    have len: "length ?ys = searchable - pos" using assms(1) by simp
    have nth: "?ys ! k = buf ! (pos + k)" if "k < searchable - pos" for k
      using that assms(1) by simp
    show ?thesis
    proof (cases "index_of c ?ys")
      case None
      then have "c \<notin> set ?ys" by (simp add: index_of_None_iff)
      then have "\<not> ?P q" if "pos \<le> q" "q < pos + (searchable - pos)" for q
      proof -
        have "q - pos < searchable - pos" using that by arith
        then show ?thesis
          using nth [of "q - pos"] nth_mem [of "q - pos" ?ys] \<open>c \<notin> set ?ys\<close> that(1) unfolding len by auto
      qed
      then have "addresses base ?P pos searchable = []"
        using addresses_skip [of pos "searchable - pos" ?P base searchable] by auto
      with None True show ?thesis
        using less.prems found_refl by (subst byte_scan.simps) auto
    next
      case (Some k)
      then have k: "k < searchable - pos" "?P (pos + k)" "\<forall>j<k. \<not> ?P (pos + j)"
        using nth len by (auto simp: index_of_Some_iff)
      obtain b1 where b1: "scan_builder_append grant (base + word_of_nat (pos + k)) b = Returns b1"
        "found g b [base + word_of_nat (pos + k)] b1"
        using append_found [OF less.prems assms(2)] by blast
      have dec: "searchable - (pos + k + 1) < searchable - pos" using True by arith
      obtain b2 where b2: "byte_scan grant c base buf searchable (pos + k + 1) b1 = Returns b2"
        "found g b1 (addresses base ?P (pos + k + 1) searchable) b2"
        using less.hyps [OF dec found_roomy [OF b1(2)]] by blast
      have "\<not> ?P q" if "pos \<le> q" "q < pos + k" for q
        using k(3) that by (metis le_add_diff_inverse nat_add_left_cancel_less)
      then have "addresses base ?P pos searchable = addresses base ?P (pos + k) searchable"
        by (rule addresses_skip)
      also have "\<dots> = (base + word_of_nat (pos + k)) # addresses base ?P (pos + k + 1) searchable"
        using k(1,2) by (intro addresses_Cons) auto
      finally have "found g b (addresses base ?P pos searchable) b2"
        using found_trans [OF b1(2) b2(2)] by simp
      moreover have "byte_scan grant c base buf searchable pos b = Returns b2"
        using True Some b1(1) b2(1) by (subst byte_scan.simps) simp
      ultimately show ?thesis by blast
    qed
  qed
qed

section \<open>The exact-value scan\<close>

definition context_ok :: "scan_context \<Rightarrow> bool" where
  "context_ok ctx \<longleftrightarrow> 0 < sc_value_len ctx \<and> length (sc_needle ctx) = sc_value_len ctx \<and> sc_alignment ctx \<noteq> 0"

definition value_hit :: "scan_context \<Rightarrow> nat \<Rightarrow> nat \<Rightarrow> byte list \<Rightarrow> bool" where
  "value_hit ctx d p bs \<longleftrightarrow> (d + p) mod unat (sc_alignment ctx) = 0 \<and> bs = sc_needle ctx"

lemma value_match:
  assumes "context_ok ctx" "i + sc_value_len ctx \<le> length win"
  shows "match_fn_for (sc_value_len ctx) (drop i win) (sc_needle ctx) (sc_value_len ctx) \<longleftrightarrow>
    take (sc_value_len ctx) (drop i win) = sc_needle ctx"
proof -
  have "match_fn_for (sc_value_len ctx) (drop i win) (sc_needle ctx) (sc_value_len ctx) \<longleftrightarrow>
      take (sc_value_len ctx) (drop i win) = take (sc_value_len ctx) (sc_needle ctx)"
    by (rule match_fn_for_iff) (use assms in \<open>auto simp: context_ok_def\<close>)
  moreover have "take (sc_value_len ctx) (sc_needle ctx) = sc_needle ctx"
    using assms(1) by (intro take_all) (simp add: context_ok_def)
  ultimately show ?thesis by (simp only:)
qed

lemma exact_window_scanner:
  assumes gr: "g \<Longrightarrow> grant = (\<lambda>_. True)" and ctx: "context_ok ctx" and bound: "unat start + len < 2 ^ 64" and ab: "alignment_base \<le> start"
  shows "window_scanner g (sc_value_len ctx) (value_hit ctx (unat start - unat alignment_base))
    (scan_window grant ctx alignment_base start (start + word_of_nat len)) start len (=)"
proof
  let ?m = "sc_value_len ctx" and ?d = "unat start - unat alignment_base"
  show "0 < ?m" using ctx by (simp add: context_ok_def)
  fix b :: scan_builder and p :: nat and win :: "byte list"
  assume b: "roomy g b" and p: "p + length win \<le> len"
  let ?base = "start + word_of_nat p :: u64" and ?s = "length win + 1 - ?m"
  let ?hits = "addresses ?base (\<lambda>i. value_hit ctx ?d (p + i) (take ?m (drop i win))) 0 ?s"
  show "\<exists>b' xs. scan_window grant ctx alignment_base start (start + word_of_nat len) ?base win b = Returns b' \<and>
      found g b xs b' \<and> xs = ?hits"
  proof (cases "length win < ?m")
    case True
    then show ?thesis using found_refl [OF b] by (simp add: scan_window_def)
  next
    case False
    then have s: "length win - ?m + 1 = ?s" by simp
    have ge: "start \<le> ?base"
      using unat_offset [OF bound, of p] p by (simp add: word_le_nat_alt)
    show ?thesis
    proof (cases "?m = 1 \<and> sc_alignment ctx = 1 \<and> ?base \<ge> start")
      case True
      obtain c where c: "sc_needle ctx = [c]"
        using ctx True by (auto simp: context_ok_def length_Suc_conv)
      have one: "take (Suc 0) (drop i win) = [win ! i]" if "i < length win" for i
        using Cons_nth_drop_Suc [OF that] by (metis take0 take_Suc_Cons)
      have "?hits = addresses ?base (\<lambda>i. win ! i = c) 0 ?s"
        using True False c by (intro addresses_cong) (auto simp: value_hit_def one)
      then show ?thesis
        using byte_scan_found [of ?s win g grant b c ?base 0] gr b True False c s
        by (simp add: scan_window_def)
    next
      case notfast: False
      have hits: "?hits = addresses ?base (\<lambda>i. (?d + p + i) mod unat (sc_alignment ctx) = 0 \<and>
          match_fn_for ?m (drop i win) (sc_needle ctx) ?m) 0 ?s"
        using value_match [OF ctx] by (intro addresses_cong) (auto simp: value_hit_def add.assoc)
      have fits: "p + ?s + ?m \<le> len + 1" using p False by simp
      have pos: "0 < ?m" "p \<le> len" "sc_alignment ctx \<noteq> 0" using ctx p by (auto simp: context_ok_def)
      have "\<exists>b'. aligned_scan grant (\<lambda>i. match_fn_for ?m (drop i win) (sc_needle ctx) ?m) ?m
          (unat (sc_alignment ctx)) ?base (start + word_of_nat len) ?s
          (unat (first_aligned_offset ?base alignment_base start (sc_alignment ctx))) b = Returns b' \<and> found g b ?hits b'"
        unfolding hits by (rule aligned_window_found [OF bound fits pos(1,2) ab pos(3) b gr])
      then obtain b' where b': "aligned_scan grant (\<lambda>i. match_fn_for ?m (drop i win) (sc_needle ctx) ?m) ?m
          (unat (sc_alignment ctx)) ?base (start + word_of_nat len) ?s
          (unat (first_aligned_offset ?base alignment_base start (sc_alignment ctx))) b = Returns b'" "found g b ?hits b'"
        by blast
      let ?f = "first_aligned_offset ?base alignment_base start (sc_alignment ctx)"
      have "unat ?f < unat (sc_alignment ctx)"
        using first_aligned_offset_spec [OF bound _ ab, of p "sc_alignment ctx"] p ctx
        by (simp add: context_ok_def unat_gt_0)
      then have "?f \<noteq> - 1"
        using unsigned_less [of "sc_alignment ctx", where 'a = nat] by (auto simp: unat_max64)
      have "scan_window grant ctx alignment_base start (start + word_of_nat len) ?base win b = Returns b'"
      proof (cases "unat ?f \<ge> ?s")
        case True
        then have "b' = b" using b'(1) by (subst (asm) aligned_scan.simps) simp
        with True notfast False show ?thesis
          unfolding scan_window_def Let_def s by (simp only: if_False) simp
      next
        case nle: False
        from notfast False nle \<open>?f \<noteq> - 1\<close> b'(1) show ?thesis
          unfolding scan_window_def Let_def s by (simp only: if_False) simp
      qed
      with b'(2) show ?thesis by blast
    qed
  qed
qed auto

text \<open>The positions of a range that hold a value at the alignment, as addresses.\<close>

definition value_positions :: "u32 \<Rightarrow> byte list \<Rightarrow> u64 \<Rightarrow> byte list \<Rightarrow> u64 list" where
  "value_positions alignment needle start mem =
     addresses start (\<lambda>p. p mod (if alignment = 0 then 1 else unat alignment) = 0 \<and>
       take (length needle) (drop p mem) = needle) 0 (length mem + 1 - length needle)"

lemma scan_bounds_no_wrap:
  assumes "scan_bounds_valid start len m"
  shows "unat start + unat len < 2 ^ 64"
proof -
  have "len \<le> - 1 - start" using assms by (auto simp: scan_bounds_valid_def not_less)
  moreover have "unat (- 1 - start) = unat (- 1 :: u64) - unat start" by (rule unat_sub) simp
  ultimately show ?thesis
    using unsigned_less [of start, where 'a = nat] by (simp add: word_le_nat_alt unat_max64)
qed

text \<open>
  C10. The exact-value scan is exact. For every value type and length, the scan of a valid range
  returns, and reports the addresses of all positions of the range that are aligned, relative to
  its start, and hold the bytes of the value, those that straddle two chunks included and none
  twice, in ascending order and up to the limit; it is marked as truncated exactly when there
  are more. This holds for every size of the chunks and however few bytes a read returns.
\<close>

theorem exact_scan_exact:
  assumes "0 < ex_pid request" "value_len = expected_value_length (ex_value_type request) (ex_value_length request)"
    "0 < value_len" "value_len \<le> MEMDBG_SCAN_VALUE_MAX" "length (ex_value request) = 16"
    "scan_bounds_valid (ex_start request) (ex_length request) (ucast value_len)" "length mem = unat (ex_length request)"
    "grant (range_chunk + unat value_len - 1)" "grant (limit_of (ex_max_results request) * 8)"
    "0 < range_chunk" "reads_memory rd (ex_start request) mem"
  shows "\<exists>r. memdbg_scan_exact grant rd range_chunk request = Returns r \<and>
    reports (value_positions (ex_alignment request) (take (unat value_len) (ex_value request)) (ex_start request) mem)
      (ex_max_results request) r"
proof -
  let ?n = "unat value_len" and ?start = "ex_start request"
  let ?ctx = "\<lparr>sc_value_len = ?n, sc_alignment = (if ex_alignment request = 0 then 1 else ex_alignment request),
    sc_needle = take ?n (ex_value request), sc_read_chunk = range_chunk\<rparr>"
  let ?b = "one_region (fresh_builder (limit_of (ex_max_results request)))"
  have n: "0 < ?n" "?n \<le> 16"
    using assms(3,4) by (simp_all add: unat_gt_0 word_le_nat_alt MEMDBG_SCAN_VALUE_MAX_def)
  have ctx: "context_ok ?ctx" using n assms(5) by (simp add: context_ok_def)
  have init: "scan_context_init grant (ex_pid request) (ex_value_type request) (ex_value_length request)
      (ex_alignment request) (ex_value request) range_chunk True = Returns ?ctx"
    using assms(1,3,4,8) by (simp add: scan_context_init_def Let_def not_less flip: assms(2))
  have w: "word_of_nat ?n = (ucast value_len :: u64)" by (simp add: of_nat_unat)
  have len: "length mem = unat (ex_length request)" "word_of_nat (length mem) = ex_length request"
    using assms(7) by simp_all
  let ?rs = "\<lparr>rs_read = rd, rs_chunk = range_chunk, rs_len = ?n, rs_cancellable = True, rs_tracked = True, rs_skip_errors = True,
    rs_window = scan_window grant ?ctx ?start ?start (?start + ex_length request)\<rparr>"
  have roomy: "roomy False ?b" by (simp add: one_region_def roomy_def fresh_builder_def empty_result_def)
  obtain b' where b': "scan_loop ?rs ?start (length mem) 0 [] ?b = Returns b'"
    "found False ?b (addresses ?start (\<lambda>p. value_hit ?ctx (unat ?start - unat ?start) p (take ?n (drop p mem))) 0 (length mem + 1 - ?n)) b'"
    using window_scanner.whole_range [OF exact_window_scanner [OF _ ctx, of False grant ?start "length mem" ?start], of ?rs mem ?b]
      scan_bounds_no_wrap [OF assms(6)] assms(10,11) roomy len by auto
  have hits: "addresses ?start (\<lambda>p. value_hit ?ctx (unat ?start - unat ?start) p (take ?n (drop p mem))) 0 (length mem + 1 - ?n) =
      value_positions (ex_alignment request) (take ?n (ex_value request)) ?start mem"
    using n assms(5) unfolding value_positions_def by (simp add: value_hit_def if_distrib [of unat] min_def)
  have "scan_range grant rd ?ctx ?start (ex_length request) ?start True ?b = Returns b'"
    using b'(1) assms(6) len w by (simp add: scan_range_def)
  moreover have "ex_length request \<noteq> 0" using assms(6) by (simp add: scan_bounds_valid_def)
  ultimately have run: "memdbg_scan_exact grant rd range_chunk request = Returns (sb_result b')"
    using assms(6) w unfolding memdbg_scan_exact_def init prealloc_limit [of grant "ex_max_results request", OF assms(9)] by simp
  show ?thesis
    unfolding run using b'(2) unfolding hits by (simp add: found_def reports_def one_region_def)
qed

text \<open>Sixteen-bit values at even offsets, with reads of three bytes.\<close>

theorem exact_scan_exact_witness:
  "\<exists>r. memdbg_scan_exact (\<lambda>_. True) (list_reader 3 4096 [7, 8, 7, 7, 8, 9, 7, 8]) 5
      \<lparr>ex_pid = 1, ex_start = 4096, ex_length = 8, ex_value_type = 2, ex_value_length = 0, ex_alignment = 2, ex_max_results = 9,
       ex_value = [7, 8, 0, 0, 0, 0, 0, 0, 0, 0, 0, 0, 0, 0, 0, 0]\<rparr> = Returns r \<and> sr_entries r = [4096, 4102] \<and> \<not> sr_truncated r"
proof -
  let ?mem = "[7, 8, 7, 7, 8, 9, 7, 8] :: byte list"
  let ?req = "\<lparr>ex_pid = 1, ex_start = 4096, ex_length = 8, ex_value_type = 2, ex_value_length = 0, ex_alignment = 2, ex_max_results = 9,
       ex_value = [7, 8, 0, 0, 0, 0, 0, 0, 0, 0, 0, 0, 0, 0, 0, 0]\<rparr> :: scan_exact_request"
  have pos: "value_positions 2 [7, 8] 4096 ?mem = [4096, 4102]" by code_simp
  have "\<exists>r. memdbg_scan_exact (\<lambda>_. True) (list_reader 3 4096 ?mem) 5 ?req = Returns r \<and>
      reports (value_positions (ex_alignment ?req) (take (unat (2 :: u32)) (ex_value ?req)) (ex_start ?req) ?mem) (ex_max_results ?req) r"
    by (rule exact_scan_exact)
      (use list_reader_reads [of 3 ?mem 4096] in
        \<open>simp_all add: scan_bounds_valid_def MEMDBG_SCAN_MAX_LENGTH_def expected_value_length_def MEMDBG_SCAN_VALUE_MAX_def\<close>)
  with pos show ?thesis by (auto simp: reports_def limit_of_def)
qed

section \<open>The unknown-value scan of a range\<close>

definition candidate_hit :: "nat \<Rightarrow> u32 \<Rightarrow> u32 \<Rightarrow> nat \<Rightarrow> nat \<Rightarrow> byte list \<Rightarrow> bool" where
  "candidate_hit value_len alignment flags d p bs \<longleftrightarrow>
     (d + p) mod unat alignment = 0 \<and> unknown_value_is_candidate bs value_len flags"

lemma unknown_window_scanner:
  assumes "0 < value_len" "alignment \<noteq> 0" "g \<Longrightarrow> grant = (\<lambda>_. True)"
    and bound: "unat start + len < 2 ^ 64" and ab: "alignment_base \<le> start"
  shows "window_scanner g value_len (candidate_hit value_len alignment flags (unat start - unat alignment_base))
    (unknown_window grant value_len alignment flags alignment_base start (start + word_of_nat len)) start len (=)"
proof
  let ?d = "unat start - unat alignment_base"
  show "0 < value_len" by (rule assms(1))
  fix b :: scan_builder and p :: nat and win :: "byte list"
  assume b: "roomy g b" and p: "p + length win \<le> len"
  let ?base = "start + word_of_nat p :: u64" and ?s = "length win + 1 - value_len"
  let ?f = "first_aligned_offset ?base alignment_base start alignment"
  have s: "(if value_len \<le> length win then length win - value_len + 1 else 0) = ?s" by auto
  have ple: "p \<le> len" using p by simp
  have "unat ?f < unat alignment"
    using first_aligned_offset_spec [OF bound ple ab assms(2)] assms(2) by (simp add: unat_gt_0)
  then have f: "?f \<noteq> - 1"
    using unsigned_less [of alignment, where 'a = nat] by (auto simp: unat_max64)
  have hits: "addresses ?base (\<lambda>i. candidate_hit value_len alignment flags ?d (p + i) (take value_len (drop i win))) 0 ?s =
      addresses ?base (\<lambda>i. (?d + p + i) mod unat alignment = 0 \<and> unknown_value_is_candidate (drop i win) value_len flags) 0 ?s"
    by (rule addresses_cong) (auto simp: candidate_hit_def unknown_value_is_candidate_def add.assoc)
  show "\<exists>b' xs. unknown_window grant value_len alignment flags alignment_base start (start + word_of_nat len) ?base win b = Returns b' \<and>
      found g b xs b' \<and> xs = addresses ?base (\<lambda>i. candidate_hit value_len alignment flags ?d (p + i) (take value_len (drop i win))) 0 ?s"
  proof (cases "value_len \<le> length win")
    case True
    then have fits: "p + ?s + value_len \<le> len + 1" using p by simp
    from aligned_window_found [OF bound fits assms(1) ple ab assms(2) b assms(3),
        of "\<lambda>i. unknown_value_is_candidate (drop i win) value_len flags"]
    show ?thesis
      using f unfolding unknown_window_def Let_def s hits by auto
  next
    case False
    then have "?s = 0" by simp
    with f b show ?thesis
      using found_refl unfolding unknown_window_def Let_def s by (simp add: aligned_scan.simps)
  qed
qed auto

text \<open>
  The scan of a range for an unknown value: with a buffer that grows on demand, it finds all
  aligned candidates of the range, relative to a base at or below its start.
\<close>

lemma unknown_range_found:
  assumes "0 < value_len" "value_len < 2 ^ 32" "alignment \<noteq> 0" "scan_bounds_valid start len (word_of_nat value_len)"
    "alignment_base \<le> start" "length mem = unat len" "0 < chunk_size" "reads_memory rd start mem" "roomy True b"
  shows "\<exists>b'. scan_unknown_range (\<lambda>_. True) rd chunk_size value_len alignment flags start len alignment_base b = Returns b' \<and>
    found True b (addresses start
      (\<lambda>p. candidate_hit value_len alignment flags (unat start - unat alignment_base) p (take value_len (drop p mem)))
      0 (length mem + 1 - value_len)) b'"
proof -
  let ?W = "unknown_window (\<lambda>_. True) value_len alignment flags alignment_base start (start + len)"
  have len: "start + word_of_nat (length mem) = start + len" using assms(6) by simp
  note ws = unknown_window_scanner [OF assms(1,3) _ _ assms(5), of True "\<lambda>_. True" "length mem" flags, unfolded len]
  show ?thesis
    using window_scanner.whole_range [OF ws, of "\<lparr>rs_read = rd, rs_chunk = chunk_size, rs_len = value_len, rs_cancellable = False,
        rs_tracked = False, rs_skip_errors = True, rs_window = ?W\<rparr>" mem b]
      scan_bounds_no_wrap [OF assms(4)] assms by (auto simp: scan_unknown_range_def)
qed

end
