(* ===== verification/Scan_Parallel_Correct.thy ===== *)
theory Scan_Parallel_Correct
  imports Scan_Parallel Scan_Exact_Correct
begin

text \<open>
  The process-wide scans find what a scan of one map after the other finds
  (\<^verbatim>\<open>src/src/scanner/scan/partition.c\<close>, \<^verbatim>\<open>parallel.c\<close>): the partition hands every map that counts to
  exactly one worker, in order, and the merged results are those of all the maps, up to the limit.
\<close>

section \<open>The partition\<close>

lemma effective_indices: "map fst (effective_maps f maps) = filter (\<lambda>i. clip_map f (maps ! i) \<noteq> None) [0..<length maps]"
proof -
  have "map fst (concat (map (\<lambda>i. case clip_map f (maps ! i) of None \<Rightarrow> [] | Some (s, n) \<Rightarrow> [(i, n)]) is)) =
      filter (\<lambda>i. clip_map f (maps ! i) \<noteq> None) is" for "is"
    by (induction "is") (auto split: option.splits)
  then show ?thesis by (simp add: effective_maps_def)
qed

lemma upt_append: "a \<le> b \<Longrightarrow> b \<le> c \<Longrightarrow> [a..<b] @ [b..<c] = [a..<c]"
  using upt_add_eq_append [of a b "c - b"] by simp

definition slot_range :: "partition_slot \<Rightarrow> nat list" where
  "slot_range s = [ps_start s..<ps_end s]"

text \<open>The slots before the current one are finished and cover everything from the first position on.\<close>

definition chained :: "nat \<Rightarrow> nat \<Rightarrow> nat \<times> u64 \<times> partition_slot list \<Rightarrow> bool" where
  "chained n i0 = (\<lambda>(t, t_bytes, slots). t < n \<and> n \<le> length slots \<and> i0 \<le> ps_start (slots ! t) \<and>
     concat (map slot_range (take t slots)) = [i0..<ps_start (slots ! t)])"

lemma partition_step_chained:
  assumes "chained n i0 (t, tb, slots)" "ps_start (slots ! t) \<le> i" "partition_step n q (i, b) (t, tb, slots) = (t', tb', slots')"
  shows "chained n i0 (t', tb', slots')" "ps_start (slots' ! t') \<le> i" "length slots' = length slots"
proof -
  have "chained n i0 (t', tb', slots') \<and> ps_start (slots' ! t') \<le> i \<and> length slots' = length slots"
  proof (cases "t + 1 < n \<and> tb + b > q \<and> tb > 0")
    case True
    then have s: "t' = t + 1" "slots' = slots[t := (slots ! t)\<lparr>ps_end := i\<rparr>, t + 1 := (slots ! (t + 1))\<lparr>ps_start := i\<rparr>]"
      using assms(3) by (auto simp: partition_step_def)
    have "take (t + 1) slots' = take t slots @ [(slots ! t)\<lparr>ps_end := i\<rparr>]"
      using assms(1) True s(2) by (simp add: chained_def take_Suc_conv_app_nth)
    moreover have "[i0..<ps_start (slots ! t)] @ [ps_start (slots ! t)..<i] = [i0..<i]"
      using assms(1,2) by (simp add: chained_def upt_append)
    ultimately show ?thesis
      using assms(1,2) True s by (auto simp: chained_def slot_range_def nth_list_update)
  next
    case False
    then have "t' = t" "slots' = slots" using assms(3) by (auto simp: partition_step_def)
    with assms(1,2) show ?thesis by (simp add: chained_def)
  qed
  then show "chained n i0 (t', tb', slots')" "ps_start (slots' ! t') \<le> i" "length slots' = length slots" by auto
qed

lemma partition_fold_chained:
  "chained n i0 st \<Longrightarrow> sorted (map fst eff) \<Longrightarrow> (\<forall>x\<in>set eff. ps_start (snd (snd st) ! fst st) \<le> fst x) \<Longrightarrow>
     fold (partition_step n q) eff st = (t, tb, slots) \<Longrightarrow>
     chained n i0 (t, tb, slots) \<and> length slots = length (snd (snd st)) \<and>
     (\<forall>x. (\<forall>y\<in>set eff. fst y \<le> x) \<longrightarrow> ps_start (snd (snd st) ! fst st) \<le> x \<longrightarrow> ps_start (slots ! t) \<le> x)"
proof (induction eff arbitrary: st)
  case Nil
  then show ?case by simp
next
  case (Cons e eff)
  obtain t1 tb1 slots1 where st: "st = (t1, tb1, slots1)" by (cases st)
  obtain t2 tb2 slots2 where st2: "partition_step n q e st = (t2, tb2, slots2)" by (cases "partition_step n q e st")
  obtain i b where e: "e = (i, b)" by (cases e)
  note step = partition_step_chained [of n i0 t1 tb1 slots1 i q b t2 tb2 slots2]
  have s: "chained n i0 (t2, tb2, slots2)" "ps_start (slots2 ! t2) \<le> i" "length slots2 = length slots1"
    using step Cons.prems(1,3) st st2 e by auto
  have "chained n i0 (t, tb, slots) \<and> length slots = length slots2 \<and>
      (\<forall>x. (\<forall>y\<in>set eff. fst y \<le> x) \<longrightarrow> ps_start (slots2 ! t2) \<le> x \<longrightarrow> ps_start (slots ! t) \<le> x)"
    using Cons.IH [of "(t2, tb2, slots2)"] s Cons.prems(2,4) st2 e by fastforce
  then show ?case using s e st by auto
qed

lemma fill_empty:
  "set us \<subseteq> {t..} \<Longrightarrow> take t (fold (\<lambda>u s. s[u := x]) us slots) = take t slots"
  by (induction us arbitrary: slots) auto

lemma length_fill: "length (fold (\<lambda>u s. s[u := x]) us slots) = length slots"
  by (induction us arbitrary: slots) simp_all

lemma concat_filter: "concat (map (\<lambda>s. filter P (g s)) xs) = filter P (concat (map g xs))"
  by (induction xs) simp_all

lemma before_first: "filter P [0..<n] = x # xs \<Longrightarrow> filter P [x..<n] = filter P [0..<n]"
proof -
  assume eq: "filter P [0..<n] = x # xs"
  have "x \<in> set (filter P [0..<n])" unfolding eq by simp
  then have le: "x \<le> n" by simp
  have "sorted (filter P [0..<n])" by (simp add: sorted_wrt_filter)
  then have "\<forall>y\<in>set (filter P [0..<n]). x \<le> y" unfolding eq by simp
  then have "filter P [0..<x] = []" using le by (auto simp: filter_empty_conv) (meson leD less_le_trans)
  then show ?thesis using upt_append [of 0 x n] le by (metis append_Nil filter_append le0)
qed

lemma partition_chain:
  assumes eff: "effective_maps f maps = (i0, b0) # eff" and n: "0 < n" "n \<le> num_threads"
    and fold: "fold (partition_step n q) (effective_maps f maps)
      (0, 0, (replicate num_threads (empty_slot 0))[0 := \<lparr>ps_start = i0, ps_end = 0\<rparr>]) = (t, tb, slots)"
  shows "t < n \<and> length slots = num_threads \<and>
    concat (map slot_range (take (t + 1) (slots[t := (slots ! t)\<lparr>ps_end := length maps\<rparr>]))) = [i0..<length maps]"
proof -
  let ?st = "(0 :: nat, 0 :: u64, (replicate num_threads (empty_slot 0))[0 := \<lparr>ps_start = i0, ps_end = 0\<rparr>])"
  have idx: "map fst (effective_maps f maps) = filter (\<lambda>i. clip_map f (maps ! i) \<noteq> None) [0..<length maps]"
    by (rule effective_indices)
  have srt: "sorted (map fst (effective_maps f maps))" by (simp add: idx sorted_wrt_filter)
  have lt: "\<forall>x\<in>set (effective_maps f maps). fst x < length maps" using idx by (metis (no_types, lifting) atLeastLessThan_iff
      filter_is_subset image_eqI list.set_map set_upt subset_iff)
  have start: "chained n i0 ?st" using n by (simp add: chained_def)
  have ge: "\<forall>x\<in>set (effective_maps f maps). ps_start (snd (snd ?st) ! fst ?st) \<le> fst x"
    using srt n by (auto simp: eff)
  have st: "ps_start (snd (snd ?st) ! fst ?st) \<le> length maps" using lt n by (auto simp: eff)
  from partition_fold_chained [OF start srt ge fold]
  have c: "chained n i0 (t, tb, slots)" "length slots = num_threads" "ps_start (slots ! t) \<le> length maps"
    using lt st by (auto simp: less_imp_le)
  then have "take (t + 1) (slots[t := (slots ! t)\<lparr>ps_end := length maps\<rparr>]) = take t slots @ [(slots ! t)\<lparr>ps_end := length maps\<rparr>]"
    by (simp add: chained_def take_Suc_conv_app_nth)
  with c show ?thesis by (simp add: chained_def slot_range_def upt_append)
qed

text \<open>The slots in use are a chain from the first map that counts, or from the start, to the end.\<close>

lemma partition_slots:
  assumes run: "partition_maps_by_bytes grant (Some maps) f num_threads = Returns (slots, used)"
  shows "\<exists>i0. concat (map slot_range (take used slots)) = [i0..<length maps] \<and>
      filter (\<lambda>i. clip_map f (maps ! i) \<noteq> None) [i0..<length maps] = filter (\<lambda>i. clip_map f (maps ! i) \<noteq> None) [0..<length maps] \<and>
      used \<le> num_threads \<and> length slots = num_threads"
proof (cases "num_threads \<le> 1 \<or> length (effective_maps f maps) < 4")
  case True
  then have "slots = \<lparr>ps_start = 0, ps_end = length maps\<rparr> # replicate (num_threads - 1) (empty_slot (length maps))" "used = 1"
    "1 \<le> num_threads" using run by (auto simp: partition_maps_by_bytes_def entries_of_def Let_def split: if_splits)
  then show ?thesis by (intro exI [of _ 0]) (simp add: slot_range_def)
next
  case False
  define eff where "eff = effective_maps f maps"
  define n where "n = (if num_threads > length eff div 2 then length eff div 2 else num_threads)"
  obtain e eff' where e: "eff = e # eff'" using False by (cases eff) (auto simp: eff_def)
  have n: "0 < n" "n \<le> num_threads" using False by (auto simp: n_def eff_def)
  obtain t tb slots1 where fold: "fold (partition_step n (byte_quota eff n)) eff
      (0, 0, (replicate num_threads (empty_slot 0))[0 := \<lparr>ps_start = fst e, ps_end = 0\<rparr>]) = (t, tb, slots1)"
    by (rule prod_cases3)
  have "(slots, used) = fill_slots (length maps) eff num_threads n"
    using run False n unfolding partition_maps_by_bytes_def entries_of_def option.case Let_def eff_def [symmetric] n_def [symmetric]
    by (auto split: if_splits)
  then have res: "slots = fold (\<lambda>u s. s[u := empty_slot (length maps)]) [t + 1..<n] (slots1[t := (slots1 ! t)\<lparr>ps_end := length maps\<rparr>])" "used = t + 1"
    using fold by (simp_all add: fill_slots_def e)
  have c: "t < n" "length slots1 = num_threads"
    "concat (map slot_range (take (t + 1) (slots1[t := (slots1 ! t)\<lparr>ps_end := length maps\<rparr>]))) = [fst e..<length maps]"
    using partition_chain [of f maps "fst e" "snd e" eff' n num_threads "byte_quota eff n" t tb slots1] n fold e by (simp_all add: eff_def)
  have "take used slots = take used (slots1[t := (slots1 ! t)\<lparr>ps_end := length maps\<rparr>])"
    unfolding res by (rule fill_empty) auto
  moreover have "length slots = num_threads"
    unfolding res(1) by (simp add: length_fill c(2))
  moreover have "filter (\<lambda>i. clip_map f (maps ! i) \<noteq> None) [fst e..<length maps] = filter (\<lambda>i. clip_map f (maps ! i) \<noteq> None) [0..<length maps]"
    using effective_indices [of f maps] e by (intro before_first [of _ _ _ "map fst eff'"]) (simp add: eff_def)
  ultimately show ?thesis using c n res(2) by (intro exI [of _ "fst e"]) simp
qed

text \<open>C12. The partition of the maps between the threads of a process-wide scan loses no map and gives
  none to two threads: taken in order, the slots in use hold every map that is to be scanned exactly
  once. At most as many slots are used as there are threads.\<close>

theorem partition_exact:
  assumes run: "partition_maps_by_bytes grant (Some maps) f num_threads = Returns (slots, used)"
  shows "concat (map (\<lambda>s. filter (\<lambda>i. clip_map f (maps ! i) \<noteq> None) (slot_range s)) (take used slots)) =
      filter (\<lambda>i. clip_map f (maps ! i) \<noteq> None) [0..<length maps] \<and> used \<le> num_threads \<and> length slots = num_threads"
  using partition_slots [OF run] by (auto simp: concat_filter)

text \<open>Six maps, the third of which is not readable, between three threads.\<close>

definition six_maps :: "scan_map list" where
  "six_maps = [\<lparr>sm_start = 0x1000, sm_end = 0x2000, sm_protection = 3\<rparr>, \<lparr>sm_start = 0x2000, sm_end = 0x2800, sm_protection = 1\<rparr>,
     \<lparr>sm_start = 0x3000, sm_end = 0x9000, sm_protection = 0\<rparr>, \<lparr>sm_start = 0x9000, sm_end = 0xA000, sm_protection = 1\<rparr>,
     \<lparr>sm_start = 0xB000, sm_end = 0xC000, sm_protection = 3\<rparr>, \<lparr>sm_start = 0xD000, sm_end = 0xF000, sm_protection = 1\<rparr>]"

theorem partition_exact_witness:
  "\<exists>slots. partition_maps_by_bytes (\<lambda>_. True) (Some six_maps) (request_filter 0 0 0 4) 4 = Returns (slots, 2) \<and>
     concat (map (\<lambda>s. filter (\<lambda>i. clip_map (request_filter 0 0 0 4) (six_maps ! i) \<noteq> None) (slot_range s)) (take 2 slots)) = [0, 1, 3, 4, 5]"
proof -
  have run: "partition_maps_by_bytes (\<lambda>_. True) (Some six_maps) (request_filter 0 0 0 4) 4 =
      Returns ([\<lparr>ps_start = 0, ps_end = 4\<rparr>, \<lparr>ps_start = 4, ps_end = 6\<rparr>, empty_slot 0, empty_slot 0], 2)"
    by code_simp
  have "filter (\<lambda>i. clip_map (request_filter 0 0 0 4) (six_maps ! i) \<noteq> None) [0..<length six_maps] = [0, 1, 3, 4, 5]"
    by code_simp
  with partition_exact [OF run] run show ?thesis by simp
qed

section \<open>Workers\<close>

lemma slot_slice:
  assumes "\<forall>i\<in>set (slot_range s). i < length maps"
  shows "drop (ps_start s) (take (ps_end s) maps) = map ((!) maps) (slot_range s)"
proof (cases "ps_start s < ps_end s")
  case True
  then have "ps_end s - 1 \<in> set (slot_range s)" by (simp add: slot_range_def)
  then have "ps_end s \<le> length maps" using assms True by force
  then show ?thesis by (intro nth_equalityI) (auto simp: slot_range_def)
qed (simp add: slot_range_def)

text \<open>What a scan of the clipped maps finds, map after map.\<close>

definition map_hits :: "(u64 \<Rightarrow> u64 \<Rightarrow> u64 list) \<Rightarrow> map_filter \<Rightarrow> scan_map \<Rightarrow> u64 list" where
  "map_hits hits f m = (case clip_map f m of None \<Rightarrow> [] | Some (start, len) \<Rightarrow> hits start len)"

definition process_hits :: "(u64 \<Rightarrow> u64 \<Rightarrow> u64 list) \<Rightarrow> map_filter \<Rightarrow> scan_map list \<Rightarrow> u64 list" where
  "process_hits hits f maps = concat (map (map_hits hits f) maps)"

lemma process_hits_filter:
  "concat (map (\<lambda>i. map_hits hits f (maps ! i)) (filter (\<lambda>i. clip_map f (maps ! i) \<noteq> None) is)) =
     concat (map (\<lambda>i. map_hits hits f (maps ! i)) is)"
proof (induction "is")
  case (Cons a "is")
  then show ?case by (cases "clip_map f (maps ! a)") (auto simp: map_hits_def)
qed simp

lemma concat_nested: "concat (map (\<lambda>s. concat (map g (h s))) xs) = concat (map g (concat (map h xs)))"
  by (induction xs) simp_all

lemma process_hits_slots:
  assumes "partition_maps_by_bytes grant (Some maps) f num_threads = Returns (slots, used)"
  shows "concat (map (\<lambda>s. process_hits hits f (drop (ps_start s) (take (ps_end s) maps))) (take used slots)) = process_hits hits f maps"
proof -
  obtain i0 where i0: "concat (map slot_range (take used slots)) = [i0..<length maps]"
    "filter (\<lambda>i. clip_map f (maps ! i) \<noteq> None) [i0..<length maps] = filter (\<lambda>i. clip_map f (maps ! i) \<noteq> None) [0..<length maps]"
    using partition_slots [OF assms] by blast
  have "i < length maps" if "s \<in> set (take used slots)" "i \<in> set (slot_range s)" for s i
  proof -
    have "i \<in> set (concat (map slot_range (take used slots)))" using that by auto
    then show ?thesis unfolding i0(1) by simp
  qed
  then have "map (\<lambda>s. process_hits hits f (drop (ps_start s) (take (ps_end s) maps))) (take used slots) =
      map (\<lambda>s. concat (map (\<lambda>i. map_hits hits f (maps ! i)) (slot_range s))) (take used slots)"
    by (intro map_cong refl) (simp add: slot_slice process_hits_def comp_def)
  then have "concat (map (\<lambda>s. process_hits hits f (drop (ps_start s) (take (ps_end s) maps))) (take used slots)) =
      concat (map (\<lambda>i. map_hits hits f (maps ! i)) (concat (map slot_range (take used slots))))"
    by (simp only: concat_nested)
  also have "\<dots> = concat (map (\<lambda>i. map_hits hits f (maps ! i)) [0..<length maps])"
    unfolding i0(1) by (metis i0(2) process_hits_filter)
  also have "\<dots> = process_hits hits f maps"
    using map_map [of "map_hits hits f" "(!) maps" "[0..<length maps]"] by (simp add: process_hits_def map_nth comp_def)
  finally show ?thesis .
qed

text \<open>The result of a worker, and of the whole scan.\<close>

definition answers :: "nat \<Rightarrow> u64 list \<Rightarrow> scan_result \<Rightarrow> bool" where
  "answers limit hs r \<longleftrightarrow> sr_entries r = take limit hs \<and> sr_truncated r = (limit < length hs)"

lemma take_concat_take: "take n (concat (map (take n) xss)) = take n (concat xss)"
proof (induction xss)
  case (Cons xs xss)
  have "take (n - length xs) (concat (map (take n) xss)) = take (n - length xs) (concat xss)"
    using Cons.IH by (metis diff_le_self min.absorb1 take_take)
  then show ?case by (cases "length xs \<le> n") (simp_all add: min_def)
qed simp

lemma merge_answers:
  assumes "list_all2 (\<lambda>hs w. answers limit hs (wr_result w)) hss ws" "0 < limit"
  shows "answers limit (concat hss) (merge_scan_results ws limit)"
proof -
  have entries: "map (\<lambda>w. sr_entries (wr_result w)) ws = map (take limit) hss"
    using assms(1) by (induction rule: list_all2_induct) (auto simp: answers_def)
  have trunc: "list_ex (\<lambda>w. sr_truncated (wr_result w)) ws \<longleftrightarrow> (\<exists>hs\<in>set hss. limit < length hs)"
    using assms(1) by (induction rule: list_all2_induct) (auto simp: answers_def)
  define n where "n = sum_list (map (\<lambda>w. length (sr_entries (wr_result w))) ws)"
  have "n = length (concat (map (\<lambda>w. sr_entries (wr_result w)) ws))" by (simp add: n_def length_concat comp_def)
  then have n: "n = length (concat (map (take limit) hss))" by (simp add: entries)
  have all: "length hs \<le> length (concat hss)" if "hs \<in> set hss" for hs
    using that by (induction hss) auto
  have same: "concat (map (take limit) hss) = concat hss" if "\<not> (\<exists>hs\<in>set hss. limit < length hs)"
    using that by (induction hss) auto
  have flag: "(list_ex (\<lambda>w. sr_truncated (wr_result w)) ws \<or> n > limit) = (limit < length (concat hss))"
  proof (cases "\<exists>hs\<in>set hss. limit < length hs")
    case True
    then show ?thesis using trunc all by (meson less_le_trans)
  next
    case False
    then show ?thesis using trunc same n by simp
  qed
  have none: "concat hss = []" if "n = 0"
    using that assms(2) unfolding n by (auto simp: concat_eq_Nil_conv)
  have ents: "take (if n > limit then limit else n) (concat (map (take limit) hss)) = take limit (concat hss)"
  proof (cases "n > limit")
    case False
    then have "take n (concat (map (take limit) hss)) = take limit (concat (map (take limit) hss))" using n by simp
    with False show ?thesis by (simp only: if_False take_concat_take)
  qed (simp add: take_concat_take)
  show ?thesis
  proof (cases "n = 0")
    case True
    then have "concat hss = []" by (rule none)
    with True assms(2) show ?thesis
      unfolding merge_scan_results_def Let_def n_def [symmetric] by (simp only: answers_def) (simp add: empty_result_def)
  next
    case False
    then show ?thesis
      using flag ents assms(2) unfolding merge_scan_results_def Let_def n_def [symmetric] entries by (simp add: answers_def)
  qed
qed

text \<open>A map of at most the greatest length whose scanned part, if there is one, is good.\<close>

definition good_map :: "(u64 \<Rightarrow> u64 \<Rightarrow> bool) \<Rightarrow> map_filter \<Rightarrow> scan_map \<Rightarrow> bool" where
  "good_map good f m \<longleftrightarrow> (case clip_map f m of None \<Rightarrow> True
     | Some (start, len) \<Rightarrow> good start len \<and> len \<le> MEMDBG_SCAN_MAX_LENGTH)"

lemma clip_map_bounds: "clip_map f m = Some (start, len) \<Longrightarrow> len \<noteq> 0 \<and> mf_min_len f \<le> unat len"
  by (auto simp: clip_map_def Let_def not_le split: if_splits)

lemma partition_returns: "0 < num_threads \<Longrightarrow> \<exists>slots used. partition_maps_by_bytes (\<lambda>_. True) (Some maps) f num_threads = Returns (slots, used)"
  by (simp add: partition_maps_by_bytes_def entries_of_def Let_def)

text \<open>
  The scanner of a map, as the workers rely on it: for a range that is \<open>good\<close> it returns and adds
  the hits of the range to the builder.
\<close>

locale map_scanner =
  fixes scan_fn :: map_scan_fn and good :: "u64 \<Rightarrow> u64 \<Rightarrow> bool" and hits :: "u64 \<Rightarrow> u64 \<Rightarrow> u64 list"
  assumes scans: "good start len \<Longrightarrow> roomy True b \<Longrightarrow>
    \<exists>b'. scan_fn start len b = Returns b' \<and> found True b (hits start len) b'"
begin

lemma no_cancel: "roomy g b \<Longrightarrow> check_cancel c b = (False, b)"
  by (simp add: roomy_def check_cancel_def)

lemma one_segment:
  assumes "good start len" "len \<noteq> 0" "len \<le> MEMDBG_SCAN_MAX_LENGTH" "min_len \<le> unat len" "roomy True b"
  shows "\<exists>b'. scan_segments scan_fn min_len start (unat len) regions b = Returns (regions + 1, b') \<and> found True b (hits start len) b'"
proof -
  obtain b' where b': "scan_fn start len b = Returns b'" "found True b (hits start len) b'"
    using scans [OF assms(1,5)] by blast
  have "0 < unat len" using assms(2) by (simp add: unat_gt_0)
  have "scan_segments scan_fn min_len start (unat len) regions b =
      scan_segments scan_fn min_len (start + len) 0 (regions + 1) b'"
    using \<open>0 < unat len\<close> assms b' no_cancel [OF found_roomy [OF b'(2)]]
    by (subst scan_segments.simps) (simp add: word_le_nat_alt Let_def)
  then show ?thesis using b'(2) by (simp add: scan_segments.simps)
qed

lemma maps_found:
  "list_all (good_map good f) ms \<Longrightarrow> roomy True b \<Longrightarrow>
     \<exists>r b'. worker_maps scan_fn f ms regions b = Returns (r, b') \<and> found True b (process_hits hits f ms) b'"
proof (induction ms arbitrary: regions b)
  case Nil
  then show ?case by (simp add: process_hits_def found_refl)
next
  case (Cons m ms)
  show ?case
  proof (cases "clip_map f m")
    case None
    with Cons show ?thesis by (simp add: no_cancel process_hits_def map_hits_def)
  next
    case (Some range)
    obtain start len where range: "range = (start, len)" by (cases range)
    obtain b1 where b1: "scan_segments scan_fn (mf_min_len f) start (unat len) regions b = Returns (regions + 1, b1)"
      "found True b (hits start len) b1"
      using one_segment [of start len "mf_min_len f" b regions] clip_map_bounds [of f m start len] Cons.prems Some range by (auto simp: good_map_def)
    have r1: "roomy True b1" by (rule found_roomy [OF b1(2)])
    then have "map_done b1 = b1" by (simp add: map_done_def roomy_def)
    moreover obtain r b2 where "worker_maps scan_fn f ms (regions + 1) b1 = Returns (r, b2)" "found True b1 (process_hits hits f ms) b2"
      using Cons.IH [of b1 "regions + 1"] Cons.prems r1 by auto
    ultimately show ?thesis
      using Cons.prems b1 r1 found_trans [OF b1(2)] by (auto simp: no_cancel Some range process_hits_def map_hits_def)
  qed
qed

lemma worker_answers:
  assumes "list_all (good_map good f) maps"
  shows "\<exists>w. parallel_worker_thread (\<lambda>_. True) scan_fn f maps limit buf_size None slot = Returns w \<and>
    answers limit (process_hits hits f (drop (ps_start slot) (take (ps_end slot) maps))) (wr_result w)"
proof -
  have "roomy True (worker_builder limit None)" by (simp add: roomy_def worker_builder_def empty_result_def)
  moreover have "list_all (good_map good f) (drop (ps_start slot) (take (ps_end slot) maps))"
    using assms by (auto simp: list_all_iff dest!: in_set_dropD in_set_takeD)
  ultimately obtain r b' where "worker_maps scan_fn f (drop (ps_start slot) (take (ps_end slot) maps)) 0 (worker_builder limit None) = Returns (r, b')"
    "found True (worker_builder limit None) (process_hits hits f (drop (ps_start slot) (take (ps_end slot) maps))) b'"
    using maps_found by blast
  then show ?thesis
    by (simp add: parallel_worker_thread_def found_def answers_def worker_builder_def empty_result_def)
qed

lemma workers_answer:
  assumes "list_all (good_map good f) maps"
  shows "\<exists>ws. run_workers (\<lambda>slot. parallel_worker_thread (\<lambda>_. True) scan_fn f maps limit buf_size None slot) slots = Returns ws \<and>
    list_all2 (\<lambda>hs w. answers limit hs (wr_result w)) (map (\<lambda>s. process_hits hits f (drop (ps_start s) (take (ps_end s) maps))) slots) ws"
proof (induction slots)
  case (Cons s slots)
  with worker_answers [OF assms, of limit buf_size s] show ?case by auto
qed simp

lemma parallel_answers:
  assumes "list_all (good_map good f) maps" "0 < limit"
  shows "\<exists>r. scan_maps_parallel (\<lambda>_. True) worker_size scan_fn (Some maps) limit buf_size f (\<lambda>_. None) = Returns r \<and>
    answers limit (process_hits hits f maps) r"
proof -
  obtain slots used where p: "partition_maps_by_bytes (\<lambda>_. True) (Some maps) f MEMDBG_SCAN_PARALLEL_THREADS = Returns (slots, used)"
    using partition_returns [of MEMDBG_SCAN_PARALLEL_THREADS maps f] by (auto simp: MEMDBG_SCAN_PARALLEL_THREADS_def)
  obtain ws where ws: "run_workers (\<lambda>slot. parallel_worker_thread (\<lambda>_. True) scan_fn f maps limit buf_size None slot) (take used slots) = Returns ws"
    "list_all2 (\<lambda>hs w. answers limit hs (wr_result w)) (map (\<lambda>s. process_hits hits f (drop (ps_start s) (take (ps_end s) maps))) (take used slots)) ws"
    using workers_answer [OF assms(1)] by blast
  have "answers limit (process_hits hits f maps) (merge_scan_results ws limit)"
    using merge_answers [OF ws(2) assms(2)] unfolding process_hits_slots [OF p] .
  with p ws(1) show ?thesis by (simp add: scan_maps_parallel_def entries_of_def)
qed

end

section \<open>The two scans\<close>

definition bytes_at :: "(u64 \<Rightarrow> byte) \<Rightarrow> u64 \<Rightarrow> nat \<Rightarrow> byte list" where
  "bytes_at mem start n = map (\<lambda>i. mem (start + word_of_nat i)) [0..<n]"

lemma length_bytes_at [simp]: "length (bytes_at mem start n) = n"
  by (simp add: bytes_at_def)

text \<open>A range that can be read.\<close>

definition readable :: "reader \<Rightarrow> (u64 \<Rightarrow> byte) \<Rightarrow> u64 \<Rightarrow> u64 \<Rightarrow> bool" where
  "readable rd mem start len \<longleftrightarrow> reads_memory rd start (bytes_at mem start (unat len))"

definition exact_good :: "reader \<Rightarrow> (u64 \<Rightarrow> byte) \<Rightarrow> scan_context \<Rightarrow> u64 \<Rightarrow> u64 \<Rightarrow> bool" where
  "exact_good rd mem ctx start len \<longleftrightarrow> context_ok ctx \<and> 0 < sc_read_chunk ctx \<and>
     scan_bounds_valid start len (word_of_nat (sc_value_len ctx)) \<and> readable rd mem start len"

definition value_hits :: "u32 \<Rightarrow> byte list \<Rightarrow> (u64 \<Rightarrow> byte) \<Rightarrow> u64 \<Rightarrow> u64 \<Rightarrow> u64 list" where
  "value_hits alignment needle mem start len = value_positions alignment needle start (bytes_at mem start (unat len))"

lemma exact_range_found:
  assumes "exact_good rd mem ctx start len" "roomy True b"
  shows "\<exists>b'. scan_range_cb (\<lambda>_. True) rd ctx start len b = Returns b' \<and>
    found True b (value_hits (sc_alignment ctx) (sc_needle ctx) mem start len) b'"
proof -
  let ?m = "bytes_at mem start (unat len)"
  have ctx: "context_ok ctx" "0 < sc_read_chunk ctx" "scan_bounds_valid start len (word_of_nat (sc_value_len ctx))"
    "reads_memory rd start ?m" using assms(1) by (simp_all add: exact_good_def readable_def)
  let ?rs = "\<lparr>rs_read = rd, rs_chunk = sc_read_chunk ctx, rs_len = sc_value_len ctx, rs_cancellable = True, rs_tracked = True,
    rs_skip_errors = True, rs_window = scan_window (\<lambda>_. True) ctx start start (start + len)\<rparr>"
  obtain b' where b': "scan_loop ?rs start (unat len) 0 [] b = Returns b'"
    "found True b (addresses start (\<lambda>p. value_hit ctx (unat start - unat start) p (take (sc_value_len ctx) (drop p ?m))) 0
       (unat len + 1 - sc_value_len ctx)) b'"
    using window_scanner.whole_range [OF exact_window_scanner [OF _ ctx(1), of True "\<lambda>_. True" start "unat len" start], of ?rs ?m b]
      scan_bounds_no_wrap [OF ctx(3)] ctx(2,4) assms(2) by auto
  have "addresses start (\<lambda>p. value_hit ctx (unat start - unat start) p (take (sc_value_len ctx) (drop p ?m))) 0
      (unat len + 1 - sc_value_len ctx) = value_hits (sc_alignment ctx) (sc_needle ctx) mem start len"
    using ctx(1) unfolding value_hits_def value_positions_def by (simp add: value_hit_def context_ok_def)
  with b' ctx(3) show ?thesis by (simp add: scan_range_cb_def scan_range_def)
qed

interpretation exact_maps: map_scanner "scan_range_cb (\<lambda>_. True) rd ctx" "exact_good rd mem ctx"
    "value_hits (sc_alignment ctx) (sc_needle ctx) mem" for rd mem ctx
  by unfold_locales (rule exact_range_found)

text \<open>The clipped part of a map that is not too long is a valid range for the scan.\<close>

lemma clip_map_valid:
  assumes "clip_map f m = Some (start, len)" "len \<le> MEMDBG_SCAN_MAX_LENGTH"
  shows "scan_bounds_valid start len (word_of_nat (mf_min_len f))"
proof -
  obtain me where me: "len = me - start" "start < me"
    using assms(1) by (auto simp: clip_map_def Let_def not_le split: if_splits)
  have "unat len = unat me - unat start" using me by (simp add: unat_sub)
  moreover have "unat (- 1 - start) = unat (- 1 :: u64) - unat start" by (rule unat_sub) simp
  ultimately have "len \<le> - 1 - start"
    using unsigned_less [of me, where 'a = nat] by (simp add: word_le_nat_alt unat_max64)
  moreover have "word_of_nat (mf_min_len f) \<le> len"
    using clip_map_bounds [OF assms(1)] by (simp add: word_le_nat_alt unat_of_nat) (meson le_trans mod_less_eq_dividend)
  ultimately show ?thesis
    using assms clip_map_bounds [OF assms(1)] by (simp add: scan_bounds_valid_def not_less)
qed

text \<open>
  C11. The process-wide scan for a value is exact: the maps that pass the filters of the request,
  clipped to its range, are shared out between four threads and scanned in parallel, and the merged
  result has every aligned position of every such map that holds the value, in the order of the
  maps, up to the limit of the request, and is marked as truncated exactly when there are more.
  This holds where memory can be allocated and every clipped map is readable and no longer than
  \<^verbatim>\<open>MEMDBG_SCAN_MAX_LENGTH\<close> (32 GiB): a longer map is scanned in segments that do not overlap. A
  process without maps gives no list (\<^verbatim>\<open>NULL\<close>) and the scan fails with \<^verbatim>\<open>MEMDBG_ERR_PARAM\<close>.
\<close>

theorem process_exact_scan_exact:
  assumes "0 < px_pid request" "value_len = expected_value_length (px_value_type request) (px_value_length request)"
    "0 < value_len" "value_len \<le> MEMDBG_SCAN_VALUE_MAX" "length (px_value request) = 16" "0 < chunk"
    "list_all (good_map (readable rd mem)
       (request_filter (px_protection_mask request) (px_start request) (px_end request) (unat value_len))) maps"
  shows "\<exists>r. memdbg_scan_process_exact (\<lambda>_. True) worker_size rd chunk (Inr (Some maps)) request = Returns r \<and>
    reports (process_hits (value_hits (px_alignment request) (take (unat value_len) (px_value request)) mem)
      (request_filter (px_protection_mask request) (px_start request) (px_end request) (unat value_len)) maps)
      (px_max_results request) r"
proof -
  let ?n = "unat value_len"
  let ?f = "request_filter (px_protection_mask request) (px_start request) (px_end request) ?n"
  let ?ctx = "\<lparr>sc_value_len = ?n, sc_alignment = (if px_alignment request = 0 then 1 else px_alignment request),
    sc_needle = take ?n (px_value request), sc_read_chunk = chunk\<rparr>"
  have n: "0 < ?n" "?n \<le> 16"
    using assms(3,4) by (simp_all add: unat_gt_0 word_le_nat_alt MEMDBG_SCAN_VALUE_MAX_def)
  have init: "scan_context_init (\<lambda>_. True) (px_pid request) (px_value_type request) (px_value_length request)
      (px_alignment request) (px_value request) chunk False = Returns ?ctx"
    using assms(1,3,4) by (simp add: scan_context_init_def Let_def not_less flip: assms(2))
  have ctx: "context_ok ?ctx" using n assms(5) by (simp add: context_ok_def)
  have len: "mf_min_len ?f = ?n" by (simp add: request_filter_def)
  have "good_map (exact_good rd mem ?ctx) ?f m" if "good_map (readable rd mem) ?f m" for m
    using that ctx assms(6) clip_map_valid [of ?f m, unfolded len]
    by (auto simp: good_map_def exact_good_def split: option.splits)
  then have "list_all (good_map (exact_good rd mem ?ctx) ?f) maps" using assms(7) by (auto simp: list_all_iff)
  moreover have "0 < limit_of (px_max_results request)" by (simp add: limit_of_def unat_gt_0)
  moreover have "value_hits (sc_alignment ?ctx) (sc_needle ?ctx) mem = value_hits (px_alignment request) (take ?n (px_value request)) mem"
    by (intro ext) (simp add: value_hits_def value_positions_def)
  ultimately show ?thesis
    using exact_maps.parallel_answers [of rd mem ?ctx ?f maps "limit_of (px_max_results request)" worker_size "chunk + ?n - 1"]
    unfolding memdbg_scan_process_exact_def process_exact_def init limit_of_def [symmetric] by (simp add: answers_def reports_def)
qed

lemma process_exact_no_maps:
  assumes "scan_context_init (\<lambda>_. True) (px_pid request) (px_value_type request) (px_value_length request)
      (px_alignment request) (px_value request) chunk False = Returns ctx"
  shows "memdbg_scan_process_exact (\<lambda>_. True) worker_size rd chunk (Inr None) request = Fails MEMDBG_ERR_PARAM"
  by (simp add: memdbg_scan_process_exact_def process_exact_def assms scan_maps_parallel_def partition_maps_by_bytes_def entries_of_def Let_def)

text \<open>A reader of a whole memory.\<close>

definition memory_reader :: "nat \<Rightarrow> (u64 \<Rightarrow> byte) \<Rightarrow> reader" where
  "memory_reader most mem address n = Inr (bytes_at mem address (min n most))"

lemma memory_reader_reads: "0 < most \<Longrightarrow> readable (memory_reader most mem) mem start len"
  unfolding readable_def reads_memory_def
proof (intro allI impI)
  fix p n assume n: "0 < n" "p + n \<le> length (bytes_at mem start (unat len))" and most: "0 < most"
  have "bytes_at mem (start + word_of_nat p) k = take k (drop p (bytes_at mem start (unat len)))" if "k \<le> n" for k
    using that n by (intro nth_equalityI) (auto simp: bytes_at_def add.assoc)
  then show "\<exists>k>0. k \<le> n \<and> memory_reader most mem (start + word_of_nat p) n = Inr (take k (drop p (bytes_at mem start (unat len))))"
    using n(1) most by (intro exI [of _ "min n most"]) (simp add: memory_reader_def)
qed

text \<open>Five maps of sixteen bytes in a memory whose bytes count up: each holds the value once.\<close>

definition five_maps :: "scan_map list" where
  "five_maps = map (\<lambda>a. \<lparr>sm_start = a, sm_end = a + 16, sm_protection = 1\<rparr>) [0x1000, 0x1100, 0x1200, 0x1300, 0x1400]"

definition five_request :: process_exact_request where
  "five_request = \<lparr>px_pid = 1, px_value_type = 2, px_value_length = 0, px_alignment = 1, px_max_results = 3, px_protection_mask = 0,
     px_start = 0x1100, px_end = 0, px_value = [7, 8, 0, 0, 0, 0, 0, 0, 0, 0, 0, 0, 0, 0, 0, 0]\<rparr>"

theorem process_exact_scan_exact_witness:
  "\<exists>r. memdbg_scan_process_exact (\<lambda>_. True) 100 (memory_reader 3 ucast) 5 (Inr (Some five_maps)) five_request = Returns r \<and>
     sr_entries r = [0x1107, 0x1207, 0x1307] \<and> sr_truncated r"
proof -
  have good: "list_all (good_map (readable (memory_reader 3 ucast) ucast) (request_filter (px_protection_mask five_request)
      (px_start five_request) (px_end five_request) (unat (2 :: u32)))) five_maps"
    by (simp add: five_maps_def good_map_def memory_reader_reads clip_map_def request_filter_def five_request_def MEMDBG_SCAN_MAX_LENGTH_def)
  have "process_hits (value_hits 1 [7, 8] ucast) (request_filter 0 0x1100 0 2) five_maps = [0x1107, 0x1207, 0x1307, 0x1407]"
    by code_simp
  then have hits: "process_hits (value_hits (px_alignment five_request) (take (unat (2 :: u32)) (px_value five_request)) ucast)
      (request_filter (px_protection_mask five_request) (px_start five_request) (px_end five_request) (unat (2 :: u32))) five_maps =
      [0x1107, 0x1207, 0x1307, 0x1407]"
    by (simp add: five_request_def)
  have "\<exists>r. memdbg_scan_process_exact (\<lambda>_. True) 100 (memory_reader 3 ucast) 5 (Inr (Some five_maps)) five_request = Returns r \<and>
      reports [0x1107, 0x1207, 0x1307, 0x1407] (px_max_results five_request) r"
    unfolding hits [symmetric]
    by (rule process_exact_scan_exact) (use good in \<open>simp_all add: five_request_def expected_value_length_def MEMDBG_SCAN_VALUE_MAX_def\<close>)
  then show ?thesis by (auto simp: reports_def limit_of_def five_request_def)
qed

text \<open>The scan for a byte pattern, without good suffixes.\<close>

definition aob_good :: "reader \<Rightarrow> (u64 \<Rightarrow> byte) \<Rightarrow> byte list \<Rightarrow> nat \<Rightarrow> u64 \<Rightarrow> u64 \<Rightarrow> bool" where
  "aob_good rd mem pattern chunk start len \<longleftrightarrow> pattern \<noteq> [] \<and> 0 < chunk \<and> length pattern \<le> unat len \<and> readable rd mem start len"

definition pattern_hits :: "byte list \<Rightarrow> byte list \<Rightarrow> (u64 \<Rightarrow> byte) \<Rightarrow> u64 \<Rightarrow> u64 \<Rightarrow> u64 list" where
  "pattern_hits pattern msk mem start len = occurrences pattern msk start (bytes_at mem start (unat len))"

interpretation aob_grows: window_scanner True "length (c # cs)" "\<lambda>p bs. occurs (c # cs) msk bs 0"
    "\<lambda>base win. aob_search (\<lambda>_. True) (bc_only (c # cs) msk) (c # cs) msk base win (length (c # cs) - 1)" start len "(=)"
  for c cs msk start len
proof
  show "\<exists>b' xs. aob_search (\<lambda>_. True) (bc_only (c # cs) msk) (c # cs) msk (start + word_of_nat p) win (length (c # cs) - 1) b = Returns b' \<and>
      found True b xs b' \<and> xs = addresses (start + word_of_nat p) (\<lambda>i. occurs (c # cs) msk (take (length (c # cs)) (drop i win)) 0) 0
        (length win + 1 - length (c # cs))" if "roomy True b" for b p win
    using bc_table.search_exact [of "c # cs" True "\<lambda>_. True" "length (c # cs) - 1" 0 b msk "start + word_of_nat p" win] that
    unfolding aob_occurs_window [symmetric] by auto
qed auto

interpretation aob_maps: map_scanner "scan_aob_range (\<lambda>_. True) rd chunk (bc_only pattern msk) pattern msk" "aob_good rd mem pattern chunk"
    "pattern_hits pattern msk mem" for rd chunk pattern msk mem
proof
  fix start len b assume good: "aob_good rd mem pattern chunk start len" and b: "roomy True b"
  obtain c cs where pat: "pattern = c # cs" using good by (cases pattern) (auto simp: aob_good_def)
  let ?rs = "\<lparr>rs_read = rd, rs_chunk = chunk, rs_len = length pattern, rs_cancellable = False, rs_tracked = True,
    rs_skip_errors = True, rs_window = (\<lambda>base win. aob_search (\<lambda>_. True) (bc_only pattern msk) pattern msk base win (length pattern - 1))\<rparr>"
  have "\<exists>b'. scan_loop ?rs start (unat len) 0 [] b = Returns b' \<and> found True b (occurrences pattern msk start (bytes_at mem start (unat len))) b'"
    using aob_grows.whole_range [of ?rs start "bytes_at mem start (unat len)" c cs msk "unat len" b] good b
      hits_occurrences [of start pattern msk "bytes_at mem start (unat len)"]
    unfolding pat [symmetric] by (auto simp: aob_good_def readable_def)
  then show "\<exists>b'. scan_aob_range (\<lambda>_. True) rd chunk (bc_only pattern msk) pattern msk start len b = Returns b' \<and>
      found True b (pattern_hits pattern msk mem start len) b'"
    using good by (auto simp: scan_aob_range_def aob_good_def pattern_hits_def)
qed

text \<open>
  The process-wide scan for a byte pattern is exact in the same sense, for a pattern with a wildcard
  or of less than four bytes, where the table of good suffixes is not used.
\<close>

lemma process_aob_scan_exact:
  assumes "pattern \<noteq> []" "length pattern \<le> 256" "0 < chunk" "\<not> list_all (\<lambda>b. b \<noteq> 0) msk \<or> length pattern < 4"
    "list_all (good_map (readable rd mem)
       (request_filter (pa_protection_mask request) (pa_start request) (pa_end request) (length pattern))) maps"
  shows "\<exists>r. memdbg_scan_process_aob (\<lambda>_. True) worker_size rd chunk (Inr (Some maps)) request pattern msk = Returns r \<and>
    reports (process_hits (pattern_hits pattern msk mem)
      (request_filter (pa_protection_mask request) (pa_start request) (pa_end request) (length pattern)) maps) (pa_max_results request) r"
proof -
  let ?f = "request_filter (pa_protection_mask request) (pa_start request) (pa_end request) (length pattern)"
  have table: "bm_build_table True pattern msk = bc_only pattern msk"
    using assms(4) by (auto simp: bm_build_table_def bc_only_def bm_build_gs_table_def BM_GS_MIN_LENGTH_def)
  have len: "mf_min_len ?f = length pattern" by (simp add: request_filter_def)
  have "good_map (aob_good rd mem pattern chunk) ?f m" if "good_map (readable rd mem) ?f m" for m
    using that assms(1,3) clip_map_bounds [of ?f m, unfolded len] by (auto simp: good_map_def aob_good_def split: option.splits)
  then have "list_all (good_map (aob_good rd mem pattern chunk) ?f) maps" using assms(5) by (auto simp: list_all_iff)
  moreover have "0 < limit_of (pa_max_results request)" by (simp add: limit_of_def unat_gt_0)
  ultimately show ?thesis
    using aob_maps.parallel_answers [of rd mem pattern chunk ?f maps "limit_of (pa_max_results request)" worker_size msk "chunk + (length pattern - 1)"] assms(1,2)
    unfolding memdbg_scan_process_aob_def table limit_of_def [symmetric] by (simp add: answers_def reports_def)
qed

end
