(* ===== verification/Page_Walker_Correct.thy ===== *)
theory Page_Walker_Correct
  imports Page_Walker Scan_Parallel_Correct
begin

text \<open>
  The page-table walker (\<^verbatim>\<open>src/src/scanner/scan/walker.c\<close>) reads the memory of the process: what
  \<^verbatim>\<open>ptw_read\<close> returns is, byte for byte, what the processor's translation of each address
  leads to, however the range falls on pages of the three sizes and however their frames adjoin.
\<close>

unbundle bit_operations_syntax

section \<open>The translation of the processor\<close>

text \<open>\<open>n\<close> tables are left, the next at the physical address \<open>tbl\<close>. Physical memory ends at the bound
  that the code assumes.\<close>

primrec mmu :: "(u64 \<Rightarrow> byte) \<Rightarrow> u64 \<Rightarrow> nat \<Rightarrow> u64 \<Rightarrow> u64 option" where
  "mmu mem va 0 tbl = None"
| "mmu mem va (Suc n) tbl =
     (let s = 12 + 9 * n; e = of_le (bytes_at mem (tbl + 8 * take_bit 9 (drop_bit s va)) 8)
      in if tbl \<ge> PTW_PHYS_BOUND \<or> \<not> bit e 0 then None
         else if n = 0 \<or> n < 3 \<and> bit e 7 then Some (push_bit s (drop_bit s (e AND PTW_PHYS_MASK)) + take_bit s va)
         else mmu mem va n (e AND PTW_PHYS_MASK))"

definition phys_of :: "(u64 \<Rightarrow> byte) \<Rightarrow> u64 \<Rightarrow> u64 \<Rightarrow> u64 option" where
  "phys_of mem cr3 va = mmu mem va 4 (cr3 AND PTW_PHYS_MASK)"

text \<open>The kernel's direct map: a copy from the base on gives physical memory.\<close>

definition direct_map :: "'k kernel \<Rightarrow> u64 \<Rightarrow> (u64 \<Rightarrow> byte) \<Rightarrow> 'k \<Rightarrow> bool" where
  "direct_map K dmap mem k \<longleftrightarrow> (\<forall>p n. unat p + n \<le> unat PTW_PHYS_BOUND \<longrightarrow> kread K (dmap + p) n k = Some (bytes_at mem p n))"

section \<open>Words\<close>

lemma and_ones: "(va :: u64) AND 0x1FF = take_bit 9 va" "va AND 0xFFF = take_bit 12 va" "va AND 0x1FFFFF = take_bit 21 va"
  "va AND 0x3FFFFFFF = take_bit 30 va"
  by (simp_all add: take_bit_eq_mask mask_eq_exp_minus_1)

lemma and_flag: "((e :: u64) AND 1 = 0) = (\<not> bit e 0)" "(e AND 0x80 = 0) = (\<not> bit e 7)"
  using and_exp_eq_0_iff_not_bit [of e 0] and_exp_eq_0_iff_not_bit [of e 7] by simp_all

lemma and_not_low: "s < 64 \<Longrightarrow> (x :: u64) AND NOT (mask s) = push_bit s (drop_bit s x)"
  by (rule bit_eqI) (auto simp: bit_simps)

lemma table_bound:
  assumes "x AND PTW_PHYS_MASK < PTW_PHYS_BOUND"
  shows "unat (x AND PTW_PHYS_MASK) + 4096 \<le> unat PTW_PHYS_BOUND"
proof -
  let ?t = "x AND PTW_PHYS_MASK"
  have "take_bit 12 PTW_PHYS_MASK = 0" by (simp add: PTW_PHYS_MASK_def)
  then have "take_bit 12 ?t = 0" by (simp add: take_bit_and)
  then have "unat (take_bit 12 ?t) = 0" by (simp only: unsigned_0)
  then have "unat ?t mod 4096 = 0" unfolding unsigned_take_bit_eq by (simp add: take_bit_eq_mod)
  moreover have "unat ?t < 0x1000000000" using assms by (simp add: word_less_nat_alt PTW_PHYS_BOUND_def)
  moreover from this have "unat ?t div 4096 < 0x1000000" by (simp add: div_less_iff_less_mult)
  moreover have "unat ?t = 4096 * (unat ?t div 4096) + unat ?t mod 4096" by simp
  ultimately have "unat ?t + 4096 \<le> 0x1000000000" by linarith
  then show ?thesis by (simp add: PTW_PHYS_BOUND_def)
qed

lemma table_index_bound: "unat (table_index level va) < 512"
  unfolding table_index_def and_ones using take_bit_nat_less_exp [of 9] by (simp add: unsigned_take_bit_eq)

section \<open>The walk is the translation\<close>

lemma entry_direct:
  assumes dm: "direct_map K dmap mem k" and tbl: "tbl = x AND PTW_PHYS_MASK" "tbl < PTW_PHYS_BOUND"
  shows "table_entry K dmap tbl level va k = Some (of_le (bytes_at mem (tbl + 8 * table_index level va) 8))"
proof -
  let ?i = "table_index level va"
  have i: "unat ?i < 512" by (rule table_index_bound)
  have t: "unat tbl + 4096 \<le> unat PTW_PHYS_BOUND" using table_bound [of x] tbl by simp
  have "unat (8 * ?i) = 8 * unat ?i" using i by (simp add: unat_word_ariths)
  moreover have "unat tbl < 2 ^ 36" using tbl(2) by (simp add: word_less_nat_alt PTW_PHYS_BOUND_def)
  ultimately have "unat (tbl + 8 * ?i) = unat tbl + 8 * unat ?i" using i by (simp add: unat_word_ariths)
  then have "unat (tbl + 8 * ?i) + 8 \<le> unat PTW_PHYS_BOUND" using i t by simp
  then have "kread K (dmap + (tbl + 8 * ?i)) 8 k = Some (bytes_at mem (tbl + 8 * ?i) 8)" using dm by (simp add: direct_map_def)
  moreover have "substr (bytes_at mem p 8) 0 8 = bytes_at mem p 8" for p by (simp add: substr_def)
  ultimately show ?thesis by (simp add: table_entry_def kread64_def get_u64_def add.assoc mult.commute)
qed

definition leaf_shift :: "nat \<Rightarrow> nat" where
  "leaf_shift lv = 39 - 9 * lv"

lemma leaf_page:
  assumes "lv = 1 \<or> lv = 2 \<or> lv = 3"
  shows "page_size lv = Some (2 ^ leaf_shift lv)"
    "leaf_phys e (2 ^ leaf_shift lv) va = push_bit (leaf_shift lv) (drop_bit (leaf_shift lv) (e AND PTW_PHYS_MASK)) + take_bit (leaf_shift lv) va"
proof -
  have s: "leaf_shift lv < 64" by (simp add: leaf_shift_def)
  show "page_size lv = Some (2 ^ leaf_shift lv)" using assms by (auto simp: page_size_def leaf_shift_def)
  have "(2 :: u64) ^ leaf_shift lv - 1 = mask (leaf_shift lv)" by (simp add: mask_eq_exp_minus_1)
  then show "leaf_phys e (2 ^ leaf_shift lv) va = push_bit (leaf_shift lv) (drop_bit (leaf_shift lv) (e AND PTW_PHYS_MASK)) + take_bit (leaf_shift lv) va"
    by (simp add: leaf_phys_def and_not_low [OF s] take_bit_eq_mask)
qed

lemma walk_mmu:
  assumes "direct_map K dmap mem k"
  shows "level + n = 4 \<Longrightarrow> 0 < level \<or> n = 4 \<Longrightarrow>
    mmu mem va n (x AND PTW_PHYS_MASK) = map_option (\<lambda>(e, lv). leaf_phys e (2 ^ leaf_shift lv) va) (walk_leaf_from K dmap va k level (x AND PTW_PHYS_MASK)) \<and>
    (\<forall>e lv. walk_leaf_from K dmap va k level (x AND PTW_PHYS_MASK) = Some (e, lv) \<longrightarrow> lv = 1 \<or> lv = 2 \<or> lv = 3)"
proof (induction n arbitrary: level x)
  case 0
  then show ?case by (simp add: walk_leaf_from.simps)
next
  case (Suc n)
  let ?t = "x AND PTW_PHYS_MASK"
  show ?case
  proof (cases "?t < PTW_PHYS_BOUND")
    case False
    then show ?thesis by (simp add: walk_leaf_from.simps [of K dmap va k level] not_less Let_def)
  next
    case True
    define e where "e = of_le (bytes_at mem (?t + 8 * table_index level va) 8)"
    have ent: "table_entry K dmap ?t level va k = Some e"
      using entry_direct [OF assms refl True] by (simp add: e_def)
    have ge: "\<not> PTW_PHYS_BOUND \<le> ?t" using True by (simp add: not_le)
    have lv: "n = 3 - level" "level < 4" using Suc.prems by auto
    have sh: "39 - level * 9 = 12 + 9 * n" using lv by auto
    have idx: "table_index level va = take_bit 9 (drop_bit (12 + 9 * n) va)" by (simp add: table_index_def and_ones sh)
    have walk: "walk_leaf_from K dmap va k level ?t =
        (if \<not> bit e 0 then None else if level = 3 then Some (e, 3) else if (level = 1 \<or> level = 2) \<and> bit e 7 then Some (e, level)
         else walk_leaf_from K dmap va k (level + 1) (e AND PTW_PHYS_MASK))"
      using ge lv(2) by (simp only: walk_leaf_from.simps [of K dmap va k level ?t] not_le [symmetric] if_False ent option.case
          PTW_PTE_PRESENT_def PTW_PTE_PS_def and_flag not_not)
    have kind: "(n = 0 \<or> n < 3 \<and> bit e 7) \<longleftrightarrow> (level = 3 \<or> (level = 1 \<or> level = 2) \<and> bit e 7)"
      using lv Suc.prems by auto
    have shift: "12 + 9 * n = leaf_shift level" using sh by (simp add: leaf_shift_def mult.commute)
    have e': "of_le (bytes_at mem (?t + 8 * take_bit 9 (drop_bit (leaf_shift level) va)) 8) = e"
      by (simp only: e_def idx shift)
    have m: "mmu mem va (Suc n) ?t =
        (if \<not> bit e 0 then None else if level = 3 \<or> (level = 1 \<or> level = 2) \<and> bit e 7
         then Some (push_bit (leaf_shift level) (drop_bit (leaf_shift level) (e AND PTW_PHYS_MASK)) + take_bit (leaf_shift level) va)
         else mmu mem va n (e AND PTW_PHYS_MASK))"
      using ge by (simp only: mmu.simps Let_def shift e' kind simp_thms)
    show ?thesis
      using Suc.IH [of "level + 1" e] Suc.prems lv leaf_page(2) [of level e va] leaf_page(2) [of 3 e va] unfolding walk m by auto
  qed
qed

lemma phys_of_walk:
  assumes "direct_map K dmap mem k"
  shows "phys_of mem cr3 va = map_option (\<lambda>(e, lv). leaf_phys e (2 ^ leaf_shift lv) va) (ptw_walk_leaf_inner K dmap cr3 va k)"
    "ptw_walk_leaf_inner K dmap cr3 va k = Some (e, lv) \<Longrightarrow> lv = 1 \<or> lv = 2 \<or> lv = 3"
  using walk_mmu [OF assms, of 0 4 va cr3] by (auto simp: phys_of_def ptw_walk_leaf_inner_def)

section \<open>Pages\<close>

lemma block_step:
  fixes x m i :: nat
  assumes "x mod m + i < m"
  shows "(x + i) div m = x div m" "(x + i) mod m = x mod m + i"
proof -
  let ?q = "x div m" and ?r = "x mod m + i"
  have x: "x + i = ?r + m * ?q" by simp
  have "(?r + m * q) div m = q" "(?r + m * q) mod m = ?r" for q
    using assms by (cases "m = 0"; simp)+
  from this [of ?q] show "(x + i) div m = ?q" "(x + i) mod m = ?r"
    unfolding x [symmetric] .
qed

text \<open>A step inside a page changes only the offset.\<close>

lemma step_in_page:
  assumes "s < 64" "unat (take_bit s va) + i < 2 ^ s"
  shows "drop_bit s (va + word_of_nat i) = drop_bit s (va :: u64)" "take_bit s (va + word_of_nat i) = take_bit s va + word_of_nat i"
proof -
  have off: "unat (take_bit s va) = unat va mod 2 ^ s" unfolding unsigned_take_bit_eq by (rule take_bit_eq_mod)
  have p: "(2 :: nat) ^ s * 2 ^ (64 - s) = 2 ^ 64" using assms(1) by (simp flip: power_add)
  have "unat va div 2 ^ s < 2 ^ (64 - s)"
    using unsigned_less [of va, where 'a = nat] p by (simp add: div_less_iff_less_mult mult.commute)
  then have "2 ^ s * (unat va div 2 ^ s) + 2 ^ s \<le> 2 ^ s * 2 ^ (64 - s)"
    by (metis Suc_leI mult_Suc_right add.commute mult_le_mono2)
  then have lt: "unat va + i < 2 ^ 64"
    using assms(2) off p mult_div_mod_eq [of "2 ^ s" "unat va"] by linarith
  then have u: "unat (va + word_of_nat i) = unat va + i" by (simp add: unat_word_ariths unat_of_nat)
  have d: "(unat va + i) div 2 ^ s = unat va div 2 ^ s" "(unat va + i) mod 2 ^ s = unat va mod 2 ^ s + i"
    using block_step [of "unat va" "2 ^ s" i] assms(2) off by simp_all
  have t: "take_bit LENGTH(64) (unat va + i) = unat va + i" "take_bit LENGTH(64) (unat va) = unat va"
    using lt by (simp_all add: take_bit_nat_eq_self)
  show "drop_bit s (va + word_of_nat i) = drop_bit s va"
    by (rule word_unat_eq_iff [THEN iffD2]) (simp only: unsigned_drop_bit_eq drop_bit_eq_div [where 'a = nat] u t d)
  have "unat (take_bit s (va + word_of_nat i)) = unat (take_bit s va) + i"
    unfolding off unsigned_take_bit_eq by (simp only: take_bit_eq_mod u d)
  moreover have "unat (take_bit s va + word_of_nat i) = unat (take_bit s va) + i"
  proof -
    have "(2 :: nat) ^ s \<le> 2 ^ 64" using assms(1) by (intro power_increasing) auto
    with assms(2) have "unat (take_bit s va) + i < 2 ^ 64" by linarith
    then show ?thesis by (simp add: unat_word_ariths unat_of_nat)
  qed
  ultimately show "take_bit s (va + word_of_nat i) = take_bit s va + word_of_nat i"
    by (simp add: word_unat_eq_iff)
qed

lemma walk_same_page:
  "walk_leaf_from K dmap va k level tbl = Some (e, lv) \<Longrightarrow> (\<forall>l\<le>lv. table_index l va' = table_index l va) \<Longrightarrow>
     walk_leaf_from K dmap va' k level tbl = Some (e, lv) \<and> level \<le> lv"
proof (induction K dmap va k level tbl rule: walk_leaf_from.induct)
  case (1 K dmap va k level tbl)
  obtain e1 where e1: "level < 4" "\<not> tbl \<ge> PTW_PHYS_BOUND" "table_entry K dmap tbl level va k = Some e1" "e1 AND PTW_PTE_PRESENT \<noteq> 0"
    using "1.prems"(1) by (subst (asm) walk_leaf_from.simps) (auto split: if_splits option.splits)
  let ?leaf = "level = 3 \<or> (level = 1 \<or> level = 2) \<and> e1 AND PTW_PTE_PS \<noteq> 0"
  have step: "walk_leaf_from K dmap v k level tbl =
      (if ?leaf then Some (e1, level) else walk_leaf_from K dmap v k (level + 1) (e1 AND PTW_PHYS_MASK))"
    if "table_entry K dmap tbl level v k = Some e1" for v
    using e1 that by (subst walk_leaf_from.simps) auto
  show ?case
  proof (cases ?leaf)
    case True
    then have "lv = level" "e = e1" using "1.prems"(1) step [OF e1(3)] by auto
    with True e1(3) "1.prems"(2) step [of va'] show ?thesis by (simp add: table_entry_def)
  next
    case False
    have "walk_leaf_from K dmap va k (level + 1) (e1 AND PTW_PHYS_MASK) = Some (e, lv)"
      using "1.prems"(1) unfolding step [OF e1(3)] if_not_P [OF False] .
    then have ih: "walk_leaf_from K dmap va' k (level + 1) (e1 AND PTW_PHYS_MASK) = Some (e, lv)" "level + 1 \<le> lv"
      using "1.IH" [OF _ _ e1(3)] e1 False "1.prems"(2) by auto
    then have "table_entry K dmap tbl level va' k = Some e1"
      using e1(3) "1.prems"(2) by (simp add: table_entry_def)
    with False ih step [of va'] show ?thesis by simp
  qed
qed

lemma index_same_page:
  assumes "leaf_shift lv = s" "l \<le> lv" "drop_bit s va' = drop_bit s va"
  shows "table_index l va' = table_index l va"
proof -
  have "39 - l * 9 = (39 - l * 9 - s) + s" using assms(1,2) by (simp add: leaf_shift_def)
  then have d: "drop_bit (39 - l * 9) v = drop_bit (39 - l * 9 - s) (drop_bit s v)" for v :: u64
    by (metis drop_bit_drop_bit)
  show ?thesis by (simp only: table_index_def d assms(3))
qed

text \<open>The piece of a transfer: it stays in a page, and the translation of its bytes is contiguous.\<close>

lemma piece_translates:
  assumes dm: "direct_map K dmap mem k" and walk: "ptw_walk_leaf_inner K dmap cr3 va k = Some (e, lv)"
    and i: "i < unat (2 ^ leaf_shift lv - (va AND (2 ^ leaf_shift lv - 1)))"
  shows "phys_of mem cr3 (va + word_of_nat i) = Some (leaf_phys e (2 ^ leaf_shift lv) va + word_of_nat i)"
proof -
  let ?s = "leaf_shift lv"
  have lv: "lv = 1 \<or> lv = 2 \<or> lv = 3" by (rule phys_of_walk(2) [OF dm walk])
  have s: "?s < 64" by (simp add: leaf_shift_def)
  have m: "va AND (2 ^ ?s - 1) = take_bit ?s va" by (simp add: take_bit_eq_mask mask_eq_exp_minus_1)
  have "take_bit ?s va \<le> 2 ^ ?s"
    using page_offset_less [OF leaf_page(1) [OF lv], of va] unfolding m by simp
  moreover have "unat (2 ^ ?s :: u64) = 2 ^ ?s" using lv by (auto simp: leaf_shift_def)
  ultimately have off: "unat (take_bit ?s va) + i < 2 ^ ?s" using i unfolding m by (simp add: unat_sub)
  note step = step_in_page [OF s off]
  have "\<forall>l\<le>lv. table_index l (va + word_of_nat i) = table_index l va"
    using index_same_page [OF refl _ step(1)] by blast
  from walk_same_page [OF walk [unfolded ptw_walk_leaf_inner_def] this]
  have "ptw_walk_leaf_inner K dmap cr3 (va + word_of_nat i) k = Some (e, lv)"
    unfolding ptw_walk_leaf_inner_def by (rule conjunct1)
  then have "phys_of mem cr3 (va + word_of_nat i) = Some (leaf_phys e (2 ^ ?s) (va + word_of_nat i))"
    by (simp only: phys_of_walk(1) [OF dm] option.map prod.case)
  then show ?thesis by (simp only: leaf_page(2) [OF lv] step(2) add.assoc)
qed

lemma next_piece_spec:
  assumes dm: "direct_map K dmap mem k" and piece: "next_piece K dmap cr3 va left k = Some (phys, n)"
  shows "unat phys + n \<le> unat PTW_PHYS_BOUND" "i < n \<Longrightarrow> phys_of mem cr3 (va + word_of_nat i) = Some (phys + word_of_nat i)"
proof -
  obtain e lv pgsz where w: "ptw_walk_leaf_inner K dmap cr3 va k = Some (e, lv)" "page_size lv = Some pgsz"
    and n: "phys = leaf_phys e pgsz va" "n \<le> unat (pgsz - (va AND (pgsz - 1)))" "\<not> phys \<ge> PTW_PHYS_BOUND" "\<not> phys + word_of_nat n > PTW_PHYS_BOUND"
    using piece by (auto simp: next_piece_def Let_def split: option.splits prod.splits if_splits)
  have pg: "pgsz = 2 ^ leaf_shift lv" using w leaf_page(1) [OF phys_of_walk(2) [OF dm w(1)]] by simp
  show "phys_of mem cr3 (va + word_of_nat i) = Some (phys + word_of_nat i)" if "i < n"
    using piece_translates [OF dm w(1), of i] that n pg by simp
  have "pgsz - (va AND (pgsz - 1)) \<le> pgsz" using page_offset_less [OF w(2), of va] by (simp add: word_sub_le less_imp_le)
  moreover have "pgsz \<le> 0x40000000" using w(2) by (cases rule: page_size_cases) simp_all
  ultimately have "n \<le> 0x40000000" using n(2) by (simp add: word_le_nat_alt)
  moreover have "unat phys < 0x1000000000" using n(3) by (simp add: word_le_nat_alt PTW_PHYS_BOUND_def)
  ultimately have "unat (phys + word_of_nat n) = unat phys + n" by (simp add: unat_word_ariths unat_of_nat)
  with n(4) show "unat phys + n \<le> unat PTW_PHYS_BOUND" by (simp add: word_less_nat_alt)
qed

definition byte_mapped :: "(u64 \<Rightarrow> byte) \<Rightarrow> u64 \<Rightarrow> u64 \<Rightarrow> bool" where
  "byte_mapped mem cr3 va \<longleftrightarrow> (case phys_of mem cr3 va of None \<Rightarrow> False | Some p \<Rightarrow> p < PTW_PHYS_BOUND)"

definition process_byte :: "(u64 \<Rightarrow> byte) \<Rightarrow> u64 \<Rightarrow> u64 \<Rightarrow> byte" where
  "process_byte mem cr3 va = mem (the (phys_of mem cr3 va))"

text \<open>When there is no piece, a byte of the range has no translation below the bound.\<close>

lemma next_piece_None:
  assumes dm: "direct_map K dmap mem k" and none: "next_piece K dmap cr3 va left k = None" and pos: "0 < left"
  shows "\<exists>i<left. \<not> byte_mapped mem cr3 (va + word_of_nat i)"
proof (cases "ptw_walk_leaf_inner K dmap cr3 va k")
  case None
  then have "\<not> byte_mapped mem cr3 (va + word_of_nat 0)" using phys_of_walk(1) [OF dm, of cr3 va] by (simp add: byte_mapped_def)
  with pos show ?thesis by blast
next
  case (Some leaf)
  obtain e lv where leaf: "leaf = (e, lv)" by (cases leaf)
  with Some have walk: "ptw_walk_leaf_inner K dmap cr3 va k = Some (e, lv)" by simp
  note lv = phys_of_walk(2) [OF dm walk]
  define pgsz :: u64 where "pgsz = 2 ^ leaf_shift lv"
  have pg: "page_size lv = Some pgsz" using leaf_page(1) [OF lv] by (simp add: pgsz_def)
  define phys where "phys = leaf_phys e pgsz va"
  define n where "n = (if left > unat (pgsz - (va AND (pgsz - 1))) then unat (pgsz - (va AND (pgsz - 1))) else left)"
  have bad: "phys \<ge> PTW_PHYS_BOUND \<or> phys + word_of_nat n > PTW_PHYS_BOUND"
    using none walk pg by (auto simp: next_piece_def Let_def phys_def n_def split: if_splits)
  have "0 < unat (pgsz - (va AND (pgsz - 1)))"
    using page_offset_less [OF pg, of va] by (simp add: unat_sub less_imp_le word_less_nat_alt)
  then have n: "0 < n" "n \<le> left" using pos by (simp_all add: n_def)
  have tr: "phys_of mem cr3 (va + word_of_nat i) = Some (phys + word_of_nat i)" if "i < n" for i
    using piece_translates [OF dm walk, of i] that by (simp add: pgsz_def phys_def n_def split: if_splits)
  show ?thesis
  proof (cases "phys \<ge> PTW_PHYS_BOUND")
    case True
    then have "\<not> byte_mapped mem cr3 (va + word_of_nat 0)" using tr [of 0] n(1) by (simp add: byte_mapped_def not_less)
    with pos show ?thesis by blast
  next
    case False
    then have lt: "unat phys < 0x1000000000" by (simp add: word_le_nat_alt PTW_PHYS_BOUND_def)
    have "pgsz - (va AND (pgsz - 1)) \<le> pgsz" using page_offset_less [OF pg, of va] by (simp add: word_sub_le less_imp_le)
    moreover have "pgsz \<le> 0x40000000" using pg by (cases rule: page_size_cases) simp_all
    ultimately have small: "n \<le> 0x40000000" by (simp add: n_def word_le_nat_alt)
    have u: "unat (phys + word_of_nat i) = unat phys + i" if "i \<le> n" for i
      using that lt small by (simp add: unat_word_ariths unat_of_nat)
    have "unat phys + n > 0x1000000000" using bad False u [of n] by (simp add: word_less_nat_alt PTW_PHYS_BOUND_def)
    then have "\<not> phys + word_of_nat (n - 1) < PTW_PHYS_BOUND"
      using u [of "n - 1"] n(1) by (simp add: word_less_nat_alt PTW_PHYS_BOUND_def)
    then have "\<not> byte_mapped mem cr3 (va + word_of_nat (n - 1))" using tr [of "n - 1"] n(1) by (simp add: byte_mapped_def)
    moreover have "n - 1 < left" using n by arith
    ultimately show ?thesis by blast
  qed
qed

lemma piece_mapped:
  assumes dm: "direct_map K dmap mem k" and piece: "next_piece K dmap cr3 va left k = Some (phys, n)" and i: "i < n"
  shows "byte_mapped mem cr3 (va + word_of_nat i)"
proof -
  note spec = next_piece_spec [OF dm piece]
  have "unat (phys + word_of_nat i) = unat phys + i"
    using spec(1) i by (simp add: unat_word_ariths unat_of_nat PTW_PHYS_BOUND_def)
  then have "phys + word_of_nat i < PTW_PHYS_BOUND" using spec(1) i by (simp add: word_less_nat_alt)
  with spec(2) [OF i] show ?thesis by (simp add: byte_mapped_def)
qed

section \<open>The read\<close>

text \<open>The state of the loop: the bytes before the batch are in the buffer, and the batch is a
  contiguous part of physical memory that the bytes up to the current position translate to.\<close>

definition batch_ok :: "(u64 \<Rightarrow> byte) \<Rightarrow> u64 \<Rightarrow> u64 \<Rightarrow> nat \<Rightarrow> batch \<Rightarrow> bool" where
  "batch_ok mem cr3 va pos b \<longleftrightarrow> bt_len b \<le> pos \<and> unat (bt_phys b) + bt_len b \<le> unat PTW_PHYS_BOUND \<and>
     (\<forall>i<bt_len b. phys_of mem cr3 (va + word_of_nat (pos - bt_len b + i)) = Some (bt_phys b + word_of_nat i))"

definition read_so_far :: "(u64 \<Rightarrow> byte) \<Rightarrow> u64 \<Rightarrow> u64 \<Rightarrow> nat \<Rightarrow> byte list \<Rightarrow> bool" where
  "read_so_far mem cr3 va n out \<longleftrightarrow> n \<le> length out \<and> (\<forall>i<n. out ! i = process_byte mem cr3 (va + word_of_nat i))"

lemma nth_write_at:
  assumes "off + length bs \<le> length buf"
  shows "i < off \<Longrightarrow> write_at buf off bs ! i = buf ! i" "off \<le> i \<Longrightarrow> i < off + length bs \<Longrightarrow> write_at buf off bs ! i = bs ! (i - off)"
    "length (write_at buf off bs) = length buf"
  using assms by (auto simp: write_at_def nth_append min_def)

lemma flush_ok:
  assumes dm: "direct_map K dmap mem k" and b: "batch_ok mem cr3 va pos b" and out: "read_so_far mem cr3 va (pos - bt_len b) out" "pos \<le> length out"
  shows "\<exists>out1. flush_read K dmap pos b out k = Some out1 \<and> length out1 = length out \<and> read_so_far mem cr3 va pos out1"
proof (cases "bt_len b = 0")
  case True
  with out show ?thesis by (simp add: flush_read_def)
next
  case False
  let ?bs = "bytes_at mem (bt_phys b) (bt_len b)" and ?p = "pos - bt_len b"
  have "kread K (dmap + bt_phys b) (bt_len b) k = Some ?bs" using dm b by (simp add: direct_map_def batch_ok_def)
  then have run: "flush_read K dmap pos b out k = Some (write_at out ?p ?bs)" using False by (simp add: flush_read_def)
  have le: "bt_len b \<le> pos" using b by (simp add: batch_ok_def)
  have fits: "?p + length ?bs \<le> length out" using le out(2) by simp
  have "write_at out ?p ?bs ! i = process_byte mem cr3 (va + word_of_nat i)" if "i < pos" for i
  proof (cases "i < ?p")
    case True
    then show ?thesis using out(1) nth_write_at(1) [OF fits] by (simp add: read_so_far_def)
  next
    case False
    then have j: "i - ?p < bt_len b" "?p + (i - ?p) = i" using that le by auto
    then have "phys_of mem cr3 (va + word_of_nat i) = Some (bt_phys b + word_of_nat (i - ?p))"
      using b unfolding batch_ok_def by metis
    moreover have "write_at out ?p ?bs ! i = ?bs ! (i - ?p)"
      using False j le that by (intro nth_write_at(2) [OF fits]) auto
    ultimately show ?thesis using j by (simp add: process_byte_def bytes_at_def)
  qed
  with run nth_write_at(3) [OF fits] out(2) show ?thesis by (simp add: read_so_far_def)
qed

lemma batch_grows:
  assumes dm: "direct_map K dmap mem k" and b: "batch_ok mem cr3 va pos b"
    and piece: "next_piece K dmap cr3 (va + word_of_nat pos) left k = Some (phys, n)"
  shows "joins_batch b phys (va + word_of_nat pos) \<Longrightarrow> batch_ok mem cr3 va (pos + n) (b\<lparr>bt_len := bt_len b + n, bt_va_end := e\<rparr>)"
    "batch_ok mem cr3 va (pos + n) \<lparr>bt_phys = phys, bt_len = n, bt_va_end = e\<rparr>"
proof -
  note spec = next_piece_spec [OF dm piece]
  show "batch_ok mem cr3 va (pos + n) \<lparr>bt_phys = phys, bt_len = n, bt_va_end = e\<rparr>"
    using spec by (simp add: batch_ok_def add.assoc)
  assume "joins_batch b phys (va + word_of_nat pos)"
  then have phys: "phys = bt_phys b + word_of_nat (bt_len b)" by (simp add: joins_batch_def)
  have le: "bt_len b \<le> pos" "unat (bt_phys b) + bt_len b \<le> unat PTW_PHYS_BOUND" using b by (simp_all add: batch_ok_def)
  then have u: "unat phys = unat (bt_phys b) + bt_len b" unfolding phys by (simp add: unat_word_ariths unat_of_nat PTW_PHYS_BOUND_def)
  have "phys_of mem cr3 (va + word_of_nat (pos - bt_len b + i)) = Some (bt_phys b + word_of_nat i)" if "i < bt_len b + n" for i
  proof (cases "i < bt_len b")
    case True
    then show ?thesis using b unfolding batch_ok_def by blast
  next
    case False
    define j where "j = i - bt_len b"
    have j: "i = bt_len b + j" "j < n" using that False unfolding j_def by arith+
    have "va + word_of_nat (pos - bt_len b + i) = va + word_of_nat pos + word_of_nat j"
      using le(1) by (simp add: j(1) add.assoc of_nat_diff)
    moreover have "bt_phys b + word_of_nat i = phys + word_of_nat j" by (simp add: phys j(1) add.assoc)
    ultimately show ?thesis by (simp only: spec(2) [OF j(2)])
  qed
  with le spec(1) u show "batch_ok mem cr3 va (pos + n) (b\<lparr>bt_len := bt_len b + n, bt_va_end := e\<rparr>)"
    by (simp add: batch_ok_def add.assoc)
qed

lemma read_loop_exact:
  assumes dm: "direct_map K dmap mem k"
  shows "batch_ok mem cr3 va pos b \<Longrightarrow> read_so_far mem cr3 va (pos - bt_len b) out \<Longrightarrow> pos \<le> len \<Longrightarrow> length out = len \<Longrightarrow>
    read_loop K dmap cr3 va len k pos b out =
      (if \<forall>i. pos \<le> i \<longrightarrow> i < len \<longrightarrow> byte_mapped mem cr3 (va + word_of_nat i)
       then Some (map (\<lambda>i. process_byte mem cr3 (va + word_of_nat i)) [0..<len]) else None)"
proof (induction "len - pos" arbitrary: pos b out rule: less_induct)
  case less
  note flush = flush_ok [OF dm less.prems(1,2)]
  show ?case
  proof (cases "pos < len")
    case False
    then have "pos = len" using less.prems(3) by simp
    moreover obtain out1 where "flush_read K dmap pos b out k = Some out1" "length out1 = length out" "read_so_far mem cr3 va pos out1"
      using flush less.prems(3,4) by auto
    moreover from this have "out1 = map (\<lambda>i. process_byte mem cr3 (va + word_of_nat i)) [0..<len]"
      using calculation(1) less.prems(4) by (intro nth_equalityI) (auto simp: read_so_far_def)
    ultimately show ?thesis by (subst read_loop.simps) simp
  next
    case True
    let ?va = "va + word_of_nat pos :: u64"
    show ?thesis
    proof (cases "next_piece K dmap cr3 ?va (len - pos) k")
      case None
      then obtain i where "i < len - pos" "\<not> byte_mapped mem cr3 (?va + word_of_nat i)"
        using next_piece_None [OF dm None] True by auto
      then have "\<not> (\<forall>i. pos \<le> i \<longrightarrow> i < len \<longrightarrow> byte_mapped mem cr3 (va + word_of_nat i))"
        by (auto simp: add.assoc intro!: exI [of _ "pos + i"])
      with None True show ?thesis by (subst read_loop.simps) simp
    next
      case (Some piece)
      obtain phys n where piece: "piece = (phys, n)" by (cases piece)
      with Some have p: "next_piece K dmap cr3 ?va (len - pos) k = Some (phys, n)" by simp
      have n: "0 < n" "n \<le> len - pos" using next_piece_pos [OF p] True by auto
      have "byte_mapped mem cr3 (va + word_of_nat i)" if "pos \<le> i" "i < pos + n" for i
      proof -
        have "va + word_of_nat i = ?va + word_of_nat (i - pos)" using that(1) by (simp add: of_nat_diff)
        moreover have "i - pos < n" using that by arith
        ultimately show ?thesis using piece_mapped [OF dm p] by (simp only:)
      qed
      then have split: "(\<forall>i. pos \<le> i \<longrightarrow> i < len \<longrightarrow> byte_mapped mem cr3 (va + word_of_nat i)) \<longleftrightarrow>
          (\<forall>i. pos + n \<le> i \<longrightarrow> i < len \<longrightarrow> byte_mapped mem cr3 (va + word_of_nat i))"
        by (meson le_add1 le_trans not_less)
      have dec: "len - (pos + n) < len - pos" "pos + n \<le> len" using n True by arith+
      note grow = batch_grows [OF dm less.prems(1) p]
      show ?thesis
      proof (cases "joins_batch b phys ?va")
        case join: True
        have "read_so_far mem cr3 va (pos + n - (bt_len b + n)) out" using less.prems(2) by simp
        then show ?thesis
          using less.hyps [OF dec(1) grow(1) [OF join, of "?va + word_of_nat n"]] dec(2) less.prems(4) True p join
          unfolding split by (subst read_loop.simps) simp
      next
        case False
        obtain out1 where "flush_read K dmap pos b out k = Some out1" "length out1 = length out" "read_so_far mem cr3 va pos out1"
          using flush less.prems(3,4) by auto
        then show ?thesis
          using less.hyps [OF dec(1) grow(2) [of "?va + word_of_nat n"], of out1] dec(2) less.prems(4) True p False
          unfolding split by (subst read_loop.simps) simp
      qed
    qed
  qed
qed

text \<open>
  C9. The read through the direct map is exact. For a process whose page table has been found, the
  read of a range succeeds exactly when the processor's translation takes every byte of it to
  physical memory, and then returns, byte for byte, what the translation of each address leads to,
  for pages of all three sizes, wherever the range starts, and however the pieces are batched.
\<close>

theorem ptw_read_exact:
  assumes "ptw_process K pid k s = (Some cr3, s1)" "direct_map K (g_ptw_dmap s1) mem k" "0 < len" "length dst = len"
  shows "ptw_read K pid va len dst k s =
    (if \<forall>i<len. byte_mapped mem cr3 (va + word_of_nat i)
     then Some (map (\<lambda>i. process_byte mem cr3 (va + word_of_nat i)) [0..<len]) else None, s1)"
  using read_loop_exact [OF assms(2), of cr3 va 0 no_batch dst len] assms
  by (simp add: ptw_read_def batch_ok_def read_so_far_def no_batch_def)

text \<open>A kernel whose memory is a function, with the direct map at a fixed base.\<close>

definition small_dmap :: u64 where
  "small_dmap = 0xFFFF800000000000"

definition small_kernel :: "(u64 \<Rightarrow> byte) kernel" where
  "small_kernel = \<lparr>kernel_copyout = (\<lambda>a n mem. Some (bytes_at mem (a - small_dmap) n)),
     kernel_copyin = (\<lambda>bs a mem. (True, \<lambda>x. if unat (x - (a - small_dmap)) < length bs then bs ! unat (x - (a - small_dmap)) else mem x)),
     kernel_get_proc = (\<lambda>pid mem. 0), memdbg_kernel_fast_available = False, memdbg_kernel_copyout_fast = (\<lambda>a n mem. None),
     memdbg_kernel_copyin_fast = (\<lambda>bs a mem. (False, mem)), memdbg_kernel_get_proc_fast = (\<lambda>pid mem. 0), getpid = 1, known_value_addr = 0\<rparr>"

lemma small_direct_map: "direct_map small_kernel small_dmap mem mem"
  by (simp add: direct_map_def kread_def small_kernel_def)

text \<open>One table of each level, and three pages of which the first two are adjacent; a byte of a page is
  the number of its frame.\<close>

definition small_memory :: "u64 \<Rightarrow> byte" where
  "small_memory a =
     (let w = a AND NOT 7;
          e = (if w = 0x1000 then 0x2003 else if w = 0x2000 then 0x3003 else if w = 0x3000 then 0x4003
               else if w = 0x4000 then 0x6003 else if w = 0x4008 then 0x7003 else if w = 0x4010 then 0x5003 else 0) :: u64
      in if 0x1000 \<le> a \<and> a < 0x5000 then ucast (drop_bit (8 * unat (a AND 7)) e) else ucast (drop_bit 12 a))"

definition small_ptw :: ptw where
  "small_ptw = \<lparr>g_ptw_state = 1, g_ptw_dmap = small_dmap, g_ptw_pmap_off = 0x300,
     g_vmcache = [\<lparr>vc_pid = 7, vc_kproc = 1, vc_vmspace = 1, vc_pml4 = small_dmap + 0x1000, vc_cr3 = 0x1000\<rparr>], g_vmcache_next = 1,
     g_aux_cache = [], g_aux_cache_next = 0\<rparr>"

lemmas mmu_levels = mmu.simps(2) [where n = 3, simplified] mmu.simps(2) [where n = 2, simplified]
  mmu.simps(2) [where n = "Suc 0", folded numeral_2_eq_2] mmu.simps(2) [where n = 0, simplified]

lemma small_entries:
  "of_le (bytes_at small_memory 0x1000 8) = 0x2003" "of_le (bytes_at small_memory 0x2000 8) = 0x3003"
  "of_le (bytes_at small_memory 0x3000 8) = 0x4003" "of_le (bytes_at small_memory 0x4008 8) = 0x7003"
  "of_le (bytes_at small_memory 0x4010 8) = 0x5003"
  by (simp_all add: bytes_at_def small_memory_def upt_rec)

lemma small_phys:
  "phys_of small_memory 0x1000 0x1FFE = Some 0x7FFE" "phys_of small_memory 0x1000 0x1FFF = Some 0x7FFF"
  "phys_of small_memory 0x1000 0x2000 = Some 0x5000" "phys_of small_memory 0x1000 0x2001 = Some 0x5001"
  by (simp_all add: phys_of_def PTW_PHYS_MASK_def PTW_PHYS_BOUND_def mmu_levels small_entries Let_def)

theorem ptw_read_exact_witness:
  "ptw_read small_kernel 7 0x1FFE 4 [0, 0, 0, 0] small_memory small_ptw = (Some [7, 7, 5, 5], small_ptw)"
proof -
  have proc: "ptw_process small_kernel 7 small_memory small_ptw = (Some 0x1000, small_ptw)"
    by (simp add: ptw_process_def ptw_is_available_def ptw_resolve_pid_def small_ptw_def)
  have dm: "direct_map small_kernel (g_ptw_dmap small_ptw) small_memory small_memory"
    using small_direct_map by (simp add: small_ptw_def)
  have "byte_mapped small_memory 0x1000 (0x1FFE + word_of_nat i)" if "i < 4" for i
  proof -
    have "i = 0 \<or> i = 1 \<or> i = 2 \<or> i = 3" using that by arith
    with small_phys show ?thesis by (auto simp: byte_mapped_def PTW_PHYS_BOUND_def)
  qed
  moreover have "map (\<lambda>i. process_byte small_memory 0x1000 (0x1FFE + word_of_nat i)) [0..<4] = [7, 7, 5, 5]"
    using small_phys by (simp add: process_byte_def upt_rec small_memory_def)
  ultimately show ?thesis using ptw_read_exact [OF proc dm, of 4 "[0, 0, 0, 0]" "0x1FFE"] by simp
qed

section \<open>The maps with what the tables show\<close>

text \<open>Collecting the entries of the tables: as long as there is room, an entry adds its range and
  nothing else, whether or not it is joined to the one before.\<close>

definition in_map :: "u64 \<Rightarrow> u32 \<Rightarrow> scan_map \<Rightarrow> bool" where
  "in_map a p m \<longleftrightarrow> sm_start m \<le> a \<and> a < sm_end m \<and> sm_protection m = p"

definition collected :: "ptw_coal \<Rightarrow> scan_map list" where
  "collected c = co_ents c @ (case co_cur c of None \<Rightarrow> [] | Some m \<Rightarrow> [m])"

definition coal_ok :: "ptw_coal \<Rightarrow> bool" where
  "coal_ok c \<longleftrightarrow> (\<forall>m\<in>set (collected c). sm_start m < sm_end m)"

lemma emit_covers:
  assumes "length (co_ents c) < PTW_MAX_ENTRIES" "coal_ok c" "start < end_va"
  shows "coal_ok (ptw_coal_emit start end_va pte c)"
    "list_ex (in_map a p) (collected (ptw_coal_emit start end_va pte c)) \<longleftrightarrow>
       list_ex (in_map a p) (collected c) \<or> start \<le> a \<and> a < end_va \<and> ptw_prot_from_pte pte = p"
  using assms by (auto simp: ptw_coal_emit_def ptw_coal_flush_def collected_def coal_ok_def in_map_def Let_def split: option.splits)

text \<open>Merging keeps every map of the process, and every entry of the tables unless a map starts where it does.\<close>

lemma merge_keeps:
  "set vs \<subseteq> set (merge_maps vs es)"
  "e \<in> set es \<Longrightarrow> e \<in> set (merge_maps vs es) \<or> (\<exists>v\<in>set vs. sm_start (fst v) = sm_start (fst e))"
  by (induction vs es rule: merge_maps.induct) auto

text \<open>Lists of maps as the process and the tables give them: in ascending order, without overlaps.\<close>

definition covers :: "u64 \<Rightarrow> aux_map \<Rightarrow> bool" where
  "covers a m \<longleftrightarrow> sm_start (fst m) \<le> a \<and> a < sm_end (fst m)"

definition in_order :: "aux_map list \<Rightarrow> bool" where
  "in_order ms \<longleftrightarrow> sorted_wrt (\<lambda>x y. sm_end (fst x) \<le> sm_start (fst y)) ms \<and> (\<forall>m\<in>set ms. sm_start (fst m) < sm_end (fst m))"

lemma in_order_Cons:
  "in_order (m # ms) \<longleftrightarrow> sm_start (fst m) < sm_end (fst m) \<and> (\<forall>x\<in>set ms. sm_end (fst m) \<le> sm_start (fst x)) \<and> in_order ms"
  by (auto simp: in_order_def)

lemma in_order_behind: "in_order (m # ms) \<Longrightarrow> x \<in> set ms \<Longrightarrow> sm_start (fst m) < sm_start (fst x)"
  by (auto simp: in_order_Cons intro: less_le_trans)

lemma in_order_covers:
  "in_order ms \<Longrightarrow> x \<in> set ms \<Longrightarrow> y \<in> set ms \<Longrightarrow> covers a x \<Longrightarrow> covers a y \<Longrightarrow> x = y"
proof (induction ms)
  case (Cons m ms)
  have "\<not> covers a z" if "covers a m" "z \<in> set ms" for z
    using Cons.prems(1) that by (auto simp: in_order_Cons covers_def)
  with Cons show ?case by (metis in_order_Cons set_ConsD)
qed simp

text \<open>An entry of the tables is dropped exactly when a map of the process starts where it does.\<close>

lemma merge_drops:
  "in_order vs \<Longrightarrow> in_order es \<Longrightarrow> x \<in> set (merge_maps vs es) \<Longrightarrow>
     x \<in> set vs \<or> x \<in> set es \<and> (\<forall>v\<in>set vs. sm_start (fst v) \<noteq> sm_start (fst x))"
proof (induction vs es rule: merge_maps.induct)
  case (1 v vs e es)
  have behind: "sm_start (fst v) < sm_start (fst w)" if "w \<in> set vs" for w using 1(4) that by (rule in_order_behind)
  have behind': "sm_start (fst e) < sm_start (fst w)" if "w \<in> set es" for w using 1(5) that by (rule in_order_behind)
  have tails: "in_order vs" "in_order es" using 1(4,5) by (simp_all add: in_order_Cons)
  show ?case
  proof (cases "sm_start (fst v)" "sm_start (fst e)" rule: linorder_cases)
    case less
    then have "x = v \<or> x \<in> set (merge_maps vs (e # es))" using 1(6) by (auto split: if_splits)
    moreover have "sm_start (fst v) \<noteq> sm_start (fst x)" if "x \<in> set (e # es)"
      using that less behind' [of x] by (cases "x = e") auto
    ultimately show ?thesis using 1(2) [OF less_imp_neq [OF less] less tails(1) 1(5)] by auto
  next
    case equal
    then have "x = v \<or> x \<in> set (merge_maps vs es)" using 1(6) by (auto split: if_splits)
    moreover have "sm_start (fst v) \<noteq> sm_start (fst x)" if "x \<in> set es"
      using equal behind' [OF that] by simp
    ultimately show ?thesis using 1(1) [OF equal tails] by auto
  next
    case greater
    then have "x = e \<or> x \<in> set (merge_maps (v # vs) es)" using 1(6) by (auto split: if_splits)
    moreover have "sm_start (fst w) \<noteq> sm_start (fst e)" if "w \<in> set (v # vs)" for w
      using that greater behind [of w] by (cases "w = v") auto
    moreover have "sm_start (fst v) \<noteq> sm_start (fst e)" "\<not> sm_start (fst v) < sm_start (fst e)" using greater by auto
    ultimately show ?thesis using 1(3) [OF _ _ 1(4) tails(2)] by (meson list.set_intros)
  qed
qed auto

lemma aux_ranges_rebuilt:
  assumes "\<forall>c\<in>set (g_aux_cache s). ac_pid c \<noteq> pid" "ptw_aux_contains pid a len (aux_cache_rebuild pid out s)"
  shows "\<exists>m\<in>set out. covers a m"
proof -
  let ?new = "\<lparr>ac_ranges = take AUX_CACHE_MAX (map (\<lambda>(m, aux). (sm_start m, sm_end m)) (filter (\<lambda>(m, aux). aux \<and> sm_end m > sm_start m) out)),
    ac_pid = pid\<rparr>"
  obtain i where "g_aux_cache (aux_cache_rebuild pid out s) = (g_aux_cache s)[i := ?new]"
    by (cases "aux_slot_from pid (g_aux_cache s) 0 None") (simp_all add: aux_cache_rebuild_def)
  then have "set (g_aux_cache (aux_cache_rebuild pid out s)) \<subseteq> insert ?new (set (g_aux_cache s))"
    by (simp only: set_update_subset_insert)
  moreover obtain c r where c: "c \<in> set (g_aux_cache (aux_cache_rebuild pid out s))" "ac_pid c = pid"
    and r: "r \<in> set (ac_ranges c)" "fst r \<le> a" "a + len \<le> snd r" "len \<noteq> 0" "\<not> a + len < a"
    using assms(2) by (auto simp: ptw_aux_contains_def list_ex_iff)
  ultimately have "c = ?new" using assms(1) by blast
  with r(1) obtain m where m: "m \<in> set out" "r = (sm_start (fst m), sm_end (fst m))" by (auto dest!: in_set_takeD)
  have "a < a + len" using r(4,5) by (simp add: not_less order_le_less)
  then show ?thesis using m r(2,3) by (intro bexI [of _ m]) (auto simp: covers_def)
qed

text \<open>
  C35. The augmented maps can hide what they are made to show. An entry of the page tables that
  starts where a map of the process starts is dropped, even when it reaches further: no address
  behind the end of that map that only this entry has (pages behind a map are joined with the pages
  of the map when their protection is the same) is in a map of the merged result, or in the ranges
  that are remembered for the process as hidden.
\<close>

theorem augment_hides_region:
  assumes "in_order vs" "in_order es" "v \<in> set vs" "e \<in> set es" "sm_start (fst v) = sm_start (fst e)"
    and a: "sm_end (fst v) \<le> a" "a < sm_end (fst e)" "\<forall>w\<in>set vs. \<not> covers a w"
    and fresh: "\<forall>c\<in>set (g_aux_cache s). ac_pid c \<noteq> pid"
  shows "covers a e \<and> (\<exists>out. ptw_merge True vs es = Some out \<and> (\<forall>m\<in>set out. \<not> covers a m) \<and>
    \<not> ptw_aux_contains pid a len (aux_cache_rebuild pid out s))"
proof -
  have "sm_start (fst v) < sm_end (fst v)" using assms(1,3) by (simp add: in_order_def)
  then have e: "covers a e" using assms(5) a(1,2) by (auto simp: covers_def)
  have "\<not> covers a m" if m: "m \<in> set (merge_maps vs es)" for m
  proof
    assume c: "covers a m"
    then have "m \<in> set es" "sm_start (fst v) \<noteq> sm_start (fst m)"
      using merge_drops [OF assms(1,2) m] a(3) assms(3) by auto
    moreover have "m = e" using in_order_covers [OF assms(2) \<open>m \<in> set es\<close> assms(4) c e] .
    ultimately show False using assms(5) by simp
  qed
  then have "\<forall>m\<in>set (merge_maps vs es). \<not> covers a m" "\<not> ptw_aux_contains pid a len (aux_cache_rebuild pid (merge_maps vs es) s)"
    using aux_ranges_rebuilt [OF fresh] by blast+
  moreover have "ptw_merge True vs es = Some (merge_maps vs es)" using assms(3) by (auto simp: ptw_merge_def)
  ultimately show ?thesis using e by blast
qed

text \<open>A map of one page and, in the tables, a second page behind it with the same protection.\<close>

definition hidden_page :: "aux_map list" where
  "hidden_page = map (\<lambda>m. (m, True))
     (co_ents (ptw_coal_flush (ptw_coal_emit 0x2000 0x3000 0x7001 (ptw_coal_emit 0x1000 0x2000 0x6001 no_entries))))"

theorem augment_hides_region_witness:
  "\<forall>s. \<exists>out. ptw_merge True [(\<lparr>sm_start = 0x1000, sm_end = 0x2000, sm_protection = 5\<rparr>, False)] hidden_page = Some out \<and>
     (\<forall>m\<in>set out. \<not> covers 0x2800 m) \<and>
     \<not> ptw_aux_contains 7 0x2800 8 (aux_cache_rebuild 7 out (ptw_flush s))"
proof
  fix s :: ptw
  let ?v = "(\<lparr>sm_start = 0x1000, sm_end = 0x2000, sm_protection = 5\<rparr>, False)"
  let ?e = "(\<lparr>sm_start = 0x1000, sm_end = 0x3000, sm_protection = 5\<rparr>, True)"
  have page: "hidden_page = [?e]"
    by (simp add: hidden_page_def ptw_coal_emit_def ptw_coal_flush_def no_entries_def PTW_MAX_ENTRIES_def
        ptw_prot_from_pte_def PTW_PTE_RW_def PTW_PTE_NX_def)
  have "covers 0x2800 ?e \<and> (\<exists>out. ptw_merge True [?v] [?e] = Some out \<and> (\<forall>m\<in>set out. \<not> covers 0x2800 m) \<and>
      \<not> ptw_aux_contains 7 0x2800 8 (aux_cache_rebuild 7 out (ptw_flush s)))"
    by (rule augment_hides_region [where v = ?v]) (simp_all add: in_order_def covers_def ptw_flush_def AUX_CACHE_SLOTS_def)
  then show "\<exists>out. ptw_merge True [?v] hidden_page = Some out \<and> (\<forall>m\<in>set out. \<not> covers 0x2800 m) \<and>
     \<not> ptw_aux_contains 7 0x2800 8 (aux_cache_rebuild 7 out (ptw_flush s))" unfolding page by blast
qed

end
