(* ===== verification/Debug_State.thy ===== *)
theory Debug_State
  imports Gdb_Regs Memdbg_Status
begin

text \<open>
  The state of the daemon's debugger (\<^verbatim>\<open>src/src/debug/session/internal.h\<close>), the platform
  primitives it calls, and its register and thread operations
  (\<^verbatim>\<open>src/src/debug/session/regs.c\<close>). The primitives of \<^verbatim>\<open>src/include/memdbg/pal/debug.h\<close> end in
  system calls: they are the fields of the record \<open>pal\<close>, functions on a target of any type, and
  everything below holds for all of them unless it says otherwise. A call that fails gives its
  \<^verbatim>\<open>errno\<close>. The operations run under the debugger's lock, so each is one step.
\<close>

section \<open>Errors of the platform\<close>

datatype errno = EACCES | EPERM | ESRCH | ENOENT | EINVAL | ETIMEDOUT | ECONNRESET | EBUSY | EALREADY | ENOTSUP
  | EOPNOTSUPP | EIO | EINTR | ECHILD | Errno int

fun pal_status_from_errno_code :: "errno \<Rightarrow> memdbg_status" where
  "pal_status_from_errno_code EACCES = MEMDBG_ERR_PERMISSION"
| "pal_status_from_errno_code EPERM = MEMDBG_ERR_PERMISSION"
| "pal_status_from_errno_code ESRCH = MEMDBG_ERR_NOT_FOUND"
| "pal_status_from_errno_code ENOENT = MEMDBG_ERR_NOT_FOUND"
| "pal_status_from_errno_code EINVAL = MEMDBG_ERR_PARAM"
| "pal_status_from_errno_code ETIMEDOUT = MEMDBG_ERR_STATE"
| "pal_status_from_errno_code ECONNRESET = MEMDBG_ERR_NET"
| "pal_status_from_errno_code EBUSY = MEMDBG_ERR_STATE"
| "pal_status_from_errno_code EALREADY = MEMDBG_ERR_STATE"
| "pal_status_from_errno_code ENOTSUP = MEMDBG_ERR_UNSUPPORTED"
| "pal_status_from_errno_code EOPNOTSUPP = MEMDBG_ERR_UNSUPPORTED"
| "pal_status_from_errno_code _ = MEMDBG_ERR_IO"

section \<open>The platform primitives\<close>

text \<open>What a wait without blocking reports: nothing, an error, a stop, the end of the target, or another change.\<close>

datatype wait_result = Wait_Nothing | Wait_Error errno | Wait_Stopped | Wait_Gone | Wait_Other

type_synonym dbregs = "u64 list"

record fsgsbase =
  fg_fs :: u64
  fg_gs :: u64

record 't pal =
  pal_debug_supported :: bool
  pal_calloc :: "nat \<Rightarrow> bool"
  pal_debug_attach :: "int \<Rightarrow> 't \<Rightarrow> errno option \<times> 't"
  pal_debug_detach :: "int \<Rightarrow> 't \<Rightarrow> errno option \<times> 't"
  pal_debug_wait :: "int \<Rightarrow> 't \<Rightarrow> wait_result \<times> 't"
  pal_debug_continue :: "int \<Rightarrow> 't \<Rightarrow> errno option \<times> 't"
  pal_debug_stop :: "int \<Rightarrow> 't \<Rightarrow> errno option \<times> 't"
  pal_debug_single_step :: "int \<Rightarrow> int \<Rightarrow> 't \<Rightarrow> errno option \<times> 't"
  pal_debug_suspend_thread :: "int \<Rightarrow> int \<Rightarrow> 't \<Rightarrow> errno option \<times> 't"
  pal_debug_resume_thread :: "int \<Rightarrow> int \<Rightarrow> 't \<Rightarrow> errno option \<times> 't"
  pal_debug_get_thread_list :: "nat \<Rightarrow> int \<Rightarrow> 't \<Rightarrow> (errno + int list) \<times> 't"
  pal_debug_get_thread_name :: "int \<Rightarrow> int \<Rightarrow> 't \<Rightarrow> string option \<times> 't"
  pal_debug_get_thread_state :: "int \<Rightarrow> int \<Rightarrow> 't \<Rightarrow> u32 option \<times> 't"
  pal_debug_get_regs :: "int \<Rightarrow> int \<Rightarrow> 't \<Rightarrow> (errno + debug_regs) \<times> 't"
  pal_debug_set_regs :: "int \<Rightarrow> debug_regs \<Rightarrow> int \<Rightarrow> 't \<Rightarrow> errno option \<times> 't"
  pal_debug_get_dbregs :: "int \<Rightarrow> int \<Rightarrow> 't \<Rightarrow> (errno + dbregs) \<times> 't"
  pal_debug_set_dbregs :: "int \<Rightarrow> dbregs \<Rightarrow> int \<Rightarrow> 't \<Rightarrow> errno option \<times> 't"
  pal_debug_get_fpregs :: "int \<Rightarrow> int \<Rightarrow> 't \<Rightarrow> (errno + debug_fpregs) \<times> 't"
  pal_debug_set_fpregs :: "int \<Rightarrow> debug_fpregs \<Rightarrow> int \<Rightarrow> 't \<Rightarrow> errno option \<times> 't"
  pal_debug_get_fsgsbase :: "int \<Rightarrow> int \<Rightarrow> 't \<Rightarrow> (errno + fsgsbase) \<times> 't"
  pal_debug_set_fsgsbase :: "int \<Rightarrow> fsgsbase \<Rightarrow> int \<Rightarrow> 't \<Rightarrow> errno option \<times> 't"
  pal_memory_read :: "u64 \<Rightarrow> nat \<Rightarrow> int \<Rightarrow> 't \<Rightarrow> (memdbg_status + byte list) \<times> 't"
  pal_memory_write :: "u64 \<Rightarrow> byte list \<Rightarrow> int \<Rightarrow> 't \<Rightarrow> (memdbg_status + nat) \<times> 't"

text \<open>The thread is the first argument where there is one, the process the last.\<close>

section \<open>The state of the debugger\<close>

record breakpoint =
  db_address :: u64
  db_kind :: u32
  db_original_byte :: byte
  db_installed :: bool
  db_active :: bool
  db_cond_reg :: u32
  db_cond_op :: u32
  db_cond_value :: u64

record watchpoint =
  dw_address :: u64
  dw_length :: u32
  dw_type :: u32
  dw_slot :: u32
  dw_installed :: bool

record debugger_state =
  g_pid :: int
  g_attached :: bool
  g_stopped :: bool
  g_stop_lwp :: int
  g_breakpoints :: "breakpoint list"
  g_watchpoints :: "watchpoint list"
  g_dbregs :: dbregs
  g_dbregs_valid :: bool

definition MEMDBG_DEBUGGER_MAX_BREAKPOINTS :: nat where
  "MEMDBG_DEBUGGER_MAX_BREAKPOINTS = 16"

definition MEMDBG_DEBUGGER_MAX_WATCHPOINTS :: nat where
  "MEMDBG_DEBUGGER_MAX_WATCHPOINTS = 4"

definition MEMDBG_DEBUGGER_MAX_THREADS :: nat where
  "MEMDBG_DEBUGGER_MAX_THREADS = 256"

definition MEMDBG_BP_SOFTWARE :: u32 where
  "MEMDBG_BP_SOFTWARE = 0"

definition MEMDBG_BP_HARDWARE :: u32 where
  "MEMDBG_BP_HARDWARE = 1"

definition INT3_OPCODE :: byte where
  "INT3_OPCODE = 0xCC"

definition zero_breakpoint :: breakpoint where
  "zero_breakpoint = \<lparr>db_address = 0, db_kind = 0, db_original_byte = 0, db_installed = False, db_active = False,
     db_cond_reg = 0, db_cond_op = 0, db_cond_value = 0\<rparr>"

definition zero_watchpoint :: watchpoint where
  "zero_watchpoint = \<lparr>dw_address = 0, dw_length = 0, dw_type = 0, dw_slot = 0, dw_installed = False\<rparr>"

definition zero_dbregs :: dbregs where
  "zero_dbregs = replicate 16 0"

definition zero_state :: debugger_state where
  "zero_state = \<lparr>g_pid = 0, g_attached = False, g_stopped = False, g_stop_lwp = 0,
     g_breakpoints = replicate MEMDBG_DEBUGGER_MAX_BREAKPOINTS zero_breakpoint,
     g_watchpoints = replicate MEMDBG_DEBUGGER_MAX_WATCHPOINTS zero_watchpoint,
     g_dbregs = zero_dbregs, g_dbregs_valid = False\<rparr>"

section \<open>Operations on the state and the target\<close>

type_synonym ('t, 'a) dbg = "(debugger_state \<times> 't, 'a) state"

abbreviation done_with :: "'a \<Rightarrow> ('s, 'a) state" where
  "done_with \<equiv> State_Monad.return"

definition dbg_get :: "(debugger_state \<Rightarrow> 'a) \<Rightarrow> ('t, 'a) dbg" where
  "dbg_get f = gets (\<lambda>(g, t). f g)"

definition dbg_set :: "(debugger_state \<Rightarrow> debugger_state) \<Rightarrow> ('t, unit) dbg" where
  "dbg_set f = modify (apfst f)"

text \<open>A primitive is given the process of the session.\<close>

definition sys :: "(int \<Rightarrow> 't \<Rightarrow> 'a \<times> 't) \<Rightarrow> ('t, 'a) dbg" where
  "sys f = State (\<lambda>(g, t). (fst (f (g_pid g) t), g, snd (f (g_pid g) t)))"

definition sys_status :: "(int \<Rightarrow> 't \<Rightarrow> errno option \<times> 't) \<Rightarrow> ('t, status) dbg" where
  "sys_status f = do { e \<leftarrow> sys f; done_with (map_option pal_status_from_errno_code e) }"

definition debugger_memory_read :: "'t pal \<Rightarrow> u64 \<Rightarrow> nat \<Rightarrow> ('t, memdbg_status + byte list) dbg" where
  "debugger_memory_read P address len = do {
     r \<leftarrow> sys (pal_memory_read P address len);
     done_with (case r of Inl st \<Rightarrow> Inl st | Inr bs \<Rightarrow> if length bs \<noteq> len then Inl MEMDBG_ERR_IO else Inr bs) }"

definition debugger_memory_write :: "'t pal \<Rightarrow> u64 \<Rightarrow> byte list \<Rightarrow> ('t, status) dbg" where
  "debugger_memory_write P address bs = do {
     r \<leftarrow> sys (pal_memory_write P address bs);
     done_with (case r of Inl st \<Rightarrow> Some st | Inr n \<Rightarrow> if n \<noteq> length bs then Some MEMDBG_ERR_IO else MEMDBG_OK) }"

section \<open>Conditions of breakpoints\<close>

definition get_reg_value_by_cond_reg :: "debug_regs \<Rightarrow> u32 \<Rightarrow> int" where
  "get_reg_value_by_cond_reg regs cond_reg =
     sint (if cond_reg = 1 then r_rax regs else if cond_reg = 2 then r_rbx regs
      else if cond_reg = 3 then r_rcx regs else if cond_reg = 4 then r_rdx regs
      else if cond_reg = 5 then r_rsi regs else if cond_reg = 6 then r_rdi regs
      else if cond_reg = 7 then r_rbp regs else if cond_reg = 8 then r_rsp regs
      else if cond_reg = 9 then r_r8 regs else if cond_reg = 10 then r_r9 regs
      else if cond_reg = 11 then r_r10 regs else if cond_reg = 12 then r_r11 regs
      else if cond_reg = 13 then r_r12 regs else if cond_reg = 14 then r_r13 regs
      else if cond_reg = 15 then r_r14 regs else if cond_reg = 16 then r_r15 regs
      else if cond_reg = 17 then r_rip regs else 0)"

definition evaluate_bp_condition :: "breakpoint \<Rightarrow> debug_regs \<Rightarrow> bool" where
  "evaluate_bp_condition bp regs =
     (let rv = get_reg_value_by_cond_reg regs (db_cond_reg bp); cv = sint (db_cond_value bp); cond = db_cond_op bp
      in if db_cond_reg bp = 0 then True
         else if cond = 0 then rv = cv else if cond = 1 then rv \<noteq> cv
         else if cond = 2 then rv < cv else if cond = 3 then rv \<le> cv
         else if cond = 4 then rv > cv else if cond = 5 then rv \<ge> cv else True)"

section \<open>Threads\<close>

datatype thread_list = Threads bool "int list"

text \<open>
  The threads of the target, at most \<open>max\<close> of them. Where the enumeration fails with
  \<^verbatim>\<open>EIO\<close> the process stands for its main thread, which the flag says.
\<close>

definition list_threads :: "'t pal \<Rightarrow> nat \<Rightarrow> ('t, memdbg_status + thread_list) dbg" where
  "list_threads P max_count = do {
     attached \<leftarrow> dbg_get g_attached;
     if \<not> attached then done_with (Inl MEMDBG_ERR_STATE)
     else do {
       r \<leftarrow> sys (pal_debug_get_thread_list P max_count);
       pid \<leftarrow> dbg_get g_pid;
       done_with (case r of
           Inr lwps \<Rightarrow> Inr (Threads False lwps)
         | Inl e \<Rightarrow> if e \<noteq> EIO \<or> max_count = 0 then Inl (pal_status_from_errno_code e) else Inr (Threads True [pid])) } }"

text \<open>\<^verbatim>\<open>get_threads_locked\<close> as the debugger itself calls it, without names and states.\<close>

definition get_threads_locked :: "'t pal \<Rightarrow> nat \<Rightarrow> ('t, memdbg_status + int list) dbg" where
  "get_threads_locked P max_count = do {
     r \<leftarrow> list_threads P max_count;
     done_with (case r of Inl st \<Rightarrow> Inl st | Inr (Threads fallback lwps) \<Rightarrow> Inr lwps) }"

definition MEMDBG_THREAD_UNKNOWN :: u32 where
  "MEMDBG_THREAD_UNKNOWN = 4"

definition MEMDBG_THREAD_RUNNING :: u32 where
  "MEMDBG_THREAD_RUNNING = 0"

definition MEMDBG_THREAD_STOPPED :: u32 where
  "MEMDBG_THREAD_STOPPED = 1"

fun thread_names :: "'t pal \<Rightarrow> bool \<Rightarrow> int list \<Rightarrow> ('t, string list) dbg" where
  "thread_names P fallback [] = done_with []"
| "thread_names P fallback (lwp # lwps) =
     (if fallback then do { rest \<leftarrow> thread_names P False lwps; done_with (''main (fallback)'' # rest) }
      else do {
        r \<leftarrow> sys (pal_debug_get_thread_name P lwp);
        rest \<leftarrow> thread_names P False lwps;
        done_with ((case r of Some (c # cs) \<Rightarrow> c # cs | _ \<Rightarrow> snprintf 24 (''lwp-'' @ dec_of_int lwp)) # rest) })"

fun thread_states :: "'t pal \<Rightarrow> bool \<Rightarrow> int list \<Rightarrow> ('t, u32 list) dbg" where
  "thread_states P fallback [] = done_with []"
| "thread_states P fallback (lwp # lwps) =
     (if fallback then do {
        stopped \<leftarrow> dbg_get g_stopped;
        rest \<leftarrow> thread_states P False lwps;
        done_with ((if stopped then MEMDBG_THREAD_STOPPED else MEMDBG_THREAD_RUNNING) # rest) }
      else do {
        r \<leftarrow> sys (pal_debug_get_thread_state P lwp);
        rest \<leftarrow> thread_states P False lwps;
        done_with ((case r of Some st \<Rightarrow> st | None \<Rightarrow> MEMDBG_THREAD_UNKNOWN) # rest) })"

definition memdbg_debugger_get_threads :: "'t pal \<Rightarrow> nat \<Rightarrow> ('t, memdbg_status + (int \<times> string \<times> u32) list) dbg" where
  "memdbg_debugger_get_threads P max_count = do {
     r \<leftarrow> list_threads P max_count;
     case r of
       Inl st \<Rightarrow> done_with (Inl st)
     | Inr (Threads fallback lwps) \<Rightarrow> do {
         names \<leftarrow> thread_names P fallback lwps;
         states \<leftarrow> thread_states P fallback lwps;
         done_with (Inr (zip lwps (zip names states))) } }"

section \<open>Registers\<close>

text \<open>The accessors share their guard: the session must be attached.\<close>

definition reading :: "(int \<Rightarrow> 't \<Rightarrow> (errno + 'a) \<times> 't) \<Rightarrow> ('t, memdbg_status + 'a) dbg" where
  "reading f = do {
     attached \<leftarrow> dbg_get g_attached;
     if \<not> attached then done_with (Inl MEMDBG_ERR_STATE)
     else do { r \<leftarrow> sys f; done_with (case r of Inl e \<Rightarrow> Inl (pal_status_from_errno_code e) | Inr x \<Rightarrow> Inr x) } }"

definition when_attached :: "('t, status) dbg \<Rightarrow> ('t, status) dbg" where
  "when_attached m = do {
     attached \<leftarrow> dbg_get g_attached;
     if \<not> attached then done_with (Some MEMDBG_ERR_STATE) else m }"

definition memdbg_debugger_get_regs :: "'t pal \<Rightarrow> int \<Rightarrow> ('t, memdbg_status + debug_regs) dbg" where
  "memdbg_debugger_get_regs P lwp = reading (pal_debug_get_regs P lwp)"

definition memdbg_debugger_set_regs :: "'t pal \<Rightarrow> int \<Rightarrow> debug_regs \<Rightarrow> ('t, status) dbg" where
  "memdbg_debugger_set_regs P lwp regs = when_attached (sys_status (pal_debug_set_regs P lwp regs))"

definition memdbg_debugger_get_dbregs :: "'t pal \<Rightarrow> int \<Rightarrow> ('t, memdbg_status + dbregs) dbg" where
  "memdbg_debugger_get_dbregs P lwp = reading (pal_debug_get_dbregs P lwp)"

definition memdbg_debugger_set_dbregs :: "'t pal \<Rightarrow> int \<Rightarrow> dbregs \<Rightarrow> ('t, status) dbg" where
  "memdbg_debugger_set_dbregs P lwp dbregs = when_attached (do {
     st \<leftarrow> sys_status (pal_debug_set_dbregs P lwp dbregs);
     _ \<leftarrow> (if st = MEMDBG_OK then dbg_set (\<lambda>g. g\<lparr>g_dbregs := dbregs, g_dbregs_valid := True\<rparr>) else done_with ());
     done_with st })"

definition memdbg_debugger_get_fpregs :: "'t pal \<Rightarrow> int \<Rightarrow> ('t, memdbg_status + debug_fpregs) dbg" where
  "memdbg_debugger_get_fpregs P lwp = reading (pal_debug_get_fpregs P lwp)"

definition memdbg_debugger_set_fpregs :: "'t pal \<Rightarrow> int \<Rightarrow> debug_fpregs \<Rightarrow> ('t, status) dbg" where
  "memdbg_debugger_set_fpregs P lwp fpregs = when_attached (sys_status (pal_debug_set_fpregs P lwp fpregs))"

definition memdbg_debugger_get_fsgsbase :: "'t pal \<Rightarrow> int \<Rightarrow> ('t, memdbg_status + fsgsbase) dbg" where
  "memdbg_debugger_get_fsgsbase P lwp = reading (pal_debug_get_fsgsbase P lwp)"

definition memdbg_debugger_set_fsgsbase :: "'t pal \<Rightarrow> int \<Rightarrow> fsgsbase \<Rightarrow> ('t, status) dbg" where
  "memdbg_debugger_set_fsgsbase P lwp base = when_attached (sys_status (pal_debug_set_fsgsbase P lwp base))"

section \<open>Weakest preconditions\<close>

lemma wp_dbg_get [wp_simps]: "wp (dbg_get f) Q s = Q (f (fst s)) s"
  by (cases s) (simp add: dbg_get_def wp_def)

lemma wp_dbg_set [wp_simps]: "wp (dbg_set f) Q s = Q () (f (fst s), snd s)"
  by (cases s) (simp add: dbg_set_def wp_def)

lemma wp_sys [wp_simps]: "wp (sys f) Q s = Q (fst (f (g_pid (fst s)) (snd s))) (fst s, snd (f (g_pid (fst s)) (snd s)))"
  by (cases s) (simp add: sys_def wp_def)

end
