(* ===== verification/Debug_Breakpoints.thy ===== *)
theory Debug_Breakpoints
  imports Debug_State
begin

text \<open>
  Breakpoints and watchpoints of the daemon's debugger (\<^verbatim>\<open>src/src/debug/session/breakpoints.c\<close>):
  the tables of slots, software breakpoints as an \<^verbatim>\<open>INT3\<close> byte over the code, hardware
  breakpoints and watchpoints through the debug registers of every thread. A pointer to a slot is
  its index.
\<close>

unbundle bit_operations_syntax

section \<open>Slots\<close>

text \<open>The first slot that satisfies a test; \<^const>\<open>None\<close> stands for the result -1.\<close>

fun first_slot :: "('a \<Rightarrow> bool) \<Rightarrow> 'a list \<Rightarrow> nat option" where
  "first_slot p [] = None"
| "first_slot p (x # xs) = (if p x then Some 0 else map_option Suc (first_slot p xs))"

definition find_breakpoint_slot :: "u64 \<Rightarrow> debugger_state \<Rightarrow> nat option" where
  "find_breakpoint_slot address g = first_slot (\<lambda>bp. db_active bp \<and> db_address bp = address) (g_breakpoints g)"

definition alloc_breakpoint_slot :: "debugger_state \<Rightarrow> nat option" where
  "alloc_breakpoint_slot g = first_slot (\<lambda>bp. \<not> db_active bp) (g_breakpoints g)"

definition find_watchpoint_slot :: "u64 \<Rightarrow> debugger_state \<Rightarrow> nat option" where
  "find_watchpoint_slot address g = first_slot (\<lambda>w. dw_installed w \<and> dw_address w = address) (g_watchpoints g)"

definition alloc_hw_slot :: "debugger_state \<Rightarrow> nat option" where
  "alloc_hw_slot g = first_slot (\<lambda>w. \<not> dw_installed w) (g_watchpoints g)"

definition put_breakpoint :: "nat \<Rightarrow> breakpoint \<Rightarrow> debugger_state \<Rightarrow> debugger_state" where
  "put_breakpoint i bp g = g\<lparr>g_breakpoints := (g_breakpoints g)[i := bp]\<rparr>"

definition put_watchpoint :: "nat \<Rightarrow> watchpoint \<Rightarrow> debugger_state \<Rightarrow> debugger_state" where
  "put_watchpoint i w g = g\<lparr>g_watchpoints := (g_watchpoints g)[i := w]\<rparr>"

section \<open>Software breakpoints\<close>

definition install_sw_breakpoint :: "'t pal \<Rightarrow> nat \<Rightarrow> ('t, status) dbg" where
  "install_sw_breakpoint P i = do {
     bp \<leftarrow> dbg_get (\<lambda>g. g_breakpoints g ! i);
     if db_installed bp then done_with MEMDBG_OK
     else do {
       r \<leftarrow> debugger_memory_read P (db_address bp) 1;
       case r of
         Inl st \<Rightarrow> done_with (Some st)
       | Inr bs \<Rightarrow> do {
           _ \<leftarrow> dbg_set (put_breakpoint i (bp\<lparr>db_original_byte := hd bs\<rparr>));
           st \<leftarrow> debugger_memory_write P (db_address bp) [INT3_OPCODE];
           _ \<leftarrow> (if st = MEMDBG_OK then dbg_set (put_breakpoint i (bp\<lparr>db_original_byte := hd bs, db_installed := True\<rparr>))
                 else done_with ());
           done_with st } } }"

definition uninstall_sw_breakpoint :: "'t pal \<Rightarrow> nat \<Rightarrow> ('t, status) dbg" where
  "uninstall_sw_breakpoint P i = do {
     bp \<leftarrow> dbg_get (\<lambda>g. g_breakpoints g ! i);
     if \<not> db_installed bp then done_with MEMDBG_OK
     else do {
       st \<leftarrow> debugger_memory_write P (db_address bp) [db_original_byte bp];
       _ \<leftarrow> (if st = MEMDBG_OK then dbg_set (put_breakpoint i (bp\<lparr>db_installed := False\<rparr>)) else done_with ());
       done_with st } }"

section \<open>Debug registers\<close>

definition dr7_rw :: "u32 \<Rightarrow> u32" where
  "dr7_rw ty = (if ty = 0 then 0 else if ty = 1 then 1 else 3)"

definition dr7_len :: "u32 \<Rightarrow> u32" where
  "dr7_len len = (if len = 1 then 0 else if len = 2 then 1 else if len = 4 then 3 else if len = 8 then 2 else 3)"

definition dr7_slot :: "nat \<Rightarrow> watchpoint \<Rightarrow> u32 \<Rightarrow> u32" where
  "dr7_slot i w dr7 =
     (if \<not> dw_installed w then dr7
      else let shift = 16 + i * 4
           in dr7 OR (push_bit shift (dr7_rw (dw_type w)) OR push_bit (shift + 2) (dr7_len (dw_length w)))
                OR push_bit (i * 2) 1 OR push_bit (i * 2 + 1) 1)"

definition build_dr7 :: "watchpoint list \<Rightarrow> u32" where
  "build_dr7 wps = fold (\<lambda>i. dr7_slot i (wps ! i)) [0..<MEMDBG_DEBUGGER_MAX_WATCHPOINTS] 0"

text \<open>
  \<^verbatim>\<open>apply_dbregs_to_all\<close>: the attempts on the threads, with the registers each one had and
  whether it was changed; then the roll-back.
\<close>

fun set_all_dbregs :: "'t pal \<Rightarrow> dbregs \<Rightarrow> int list \<Rightarrow> ('t, (errno + dbregs) list) dbg" where
  "set_all_dbregs P new [] = done_with []"
| "set_all_dbregs P new (lwp # lwps) = do {
     r \<leftarrow> sys (pal_debug_get_dbregs P lwp);
     case r of
       Inl e \<Rightarrow> do { rest \<leftarrow> set_all_dbregs P new lwps; done_with (Inl e # rest) }
     | Inr original \<Rightarrow> do {
         s \<leftarrow> sys (pal_debug_set_dbregs P lwp new);
         rest \<leftarrow> set_all_dbregs P new lwps;
         done_with ((case s of Some e \<Rightarrow> Inl e | None \<Rightarrow> Inr original) # rest) } }"

fun roll_back :: "'t pal \<Rightarrow> (int \<times> (errno + dbregs)) list \<Rightarrow> ('t, unit) dbg" where
  "roll_back P [] = done_with ()"
| "roll_back P ((lwp, Inl e) # rest) = roll_back P rest"
| "roll_back P ((lwp, Inr original) # rest) = do {
     _ \<leftarrow> sys (pal_debug_set_dbregs P lwp original);
     roll_back P rest }"

definition errors_of :: "('a + 'b) list \<Rightarrow> 'a list" where
  "errors_of rs = concat (map (case_sum (\<lambda>e. [e]) (\<lambda>_. [])) rs)"

definition update_threads :: "'t pal \<Rightarrow> bool \<Rightarrow> int list \<Rightarrow> ('t, status) dbg" where
  "update_threads P allow_partial lwps = do {
     new \<leftarrow> dbg_get g_dbregs;
     results \<leftarrow> set_all_dbregs P new lwps;
     if errors_of results = [] then done_with MEMDBG_OK
     else if allow_partial \<and> length (errors_of results) < length lwps then done_with MEMDBG_OK
     else do {
       _ \<leftarrow> roll_back P (zip lwps results);
       done_with (Some (pal_status_from_errno_code (last (errors_of results)))) } }"

definition apply_dbregs_to_all :: "'t pal \<Rightarrow> bool \<Rightarrow> ('t, status) dbg" where
  "apply_dbregs_to_all P allow_partial = do {
     r \<leftarrow> get_threads_locked P MEMDBG_DEBUGGER_MAX_THREADS;
     case r of
       Inl st \<Rightarrow> done_with (Some st)
     | Inr lwps \<Rightarrow>
         if lwps = [] then done_with (if allow_partial then Some MEMDBG_ERR_IO else MEMDBG_OK)
         else if \<not> pal_calloc P (length lwps * 128) \<or> \<not> pal_calloc P (length lwps) then done_with (Some MEMDBG_ERR_NOMEM)
         else update_threads P allow_partial lwps }"

definition refresh_dbregs_from_thread :: "'t pal \<Rightarrow> int \<Rightarrow> ('t, status) dbg" where
  "refresh_dbregs_from_thread P lwp = do {
     r \<leftarrow> sys (pal_debug_get_dbregs P lwp);
     case r of
       Inl e \<Rightarrow> done_with (Some (pal_status_from_errno_code e))
     | Inr dbregs \<Rightarrow> do {
         _ \<leftarrow> dbg_set (\<lambda>g. g\<lparr>g_dbregs := dbregs[6 := 0], g_dbregs_valid := True\<rparr>);
         done_with MEMDBG_OK } }"

text \<open>The addresses of the table in \<^verbatim>\<open>DR0\<close> to \<^verbatim>\<open>DR3\<close>, its control word in \<^verbatim>\<open>DR7\<close>.\<close>

definition table_dbregs :: "watchpoint list \<Rightarrow> dbregs \<Rightarrow> dbregs" where
  "table_dbregs wps dbregs =
     (fold (\<lambda>i dr. dr[i := (if dw_installed (wps ! i) then dw_address (wps ! i) else 0)])
        [0..<MEMDBG_DEBUGGER_MAX_WATCHPOINTS] dbregs)[7 := ucast (build_dr7 wps)]"

definition clear_hardware_status_locked :: "'t pal \<Rightarrow> int \<Rightarrow> ('t, unit) dbg" where
  "clear_hardware_status_locked P lwp = do {
     r \<leftarrow> sys (pal_debug_get_dbregs P lwp);
     case r of
       Inl e \<Rightarrow> done_with ()
     | Inr dbregs \<Rightarrow>
         if dbregs ! 6 AND 0xF = 0 then done_with ()
         else do {
           wps \<leftarrow> dbg_get g_watchpoints;
           _ \<leftarrow> sys (pal_debug_set_dbregs P lwp ((table_dbregs wps dbregs)[6 := 0]));
           done_with () } }"

definition sync_hardware_dbregs_locked :: "'t pal \<Rightarrow> bool \<Rightarrow> ('t, status) dbg" where
  "sync_hardware_dbregs_locked P allow_partial = do {
     valid \<leftarrow> dbg_get g_dbregs_valid;
     ready \<leftarrow> (if valid then done_with MEMDBG_OK
       else do {
         r \<leftarrow> get_threads_locked P 1;
         case r of
           Inr (lwp # _) \<Rightarrow> refresh_dbregs_from_thread P lwp
         | _ \<Rightarrow> done_with (Some MEMDBG_ERR_IO) });
     case ready of
       Some st \<Rightarrow> done_with (Some st)
     | None \<Rightarrow> do {
         previous \<leftarrow> dbg_get g_dbregs;
         _ \<leftarrow> dbg_set (\<lambda>g. g\<lparr>g_dbregs := table_dbregs (g_watchpoints g) (g_dbregs g)\<rparr>);
         st \<leftarrow> apply_dbregs_to_all P allow_partial;
         _ \<leftarrow> (if st \<noteq> MEMDBG_OK then dbg_set (\<lambda>g. g\<lparr>g_dbregs := previous\<rparr>) else done_with ());
         done_with st } }"

section \<open>Stepping over a software breakpoint\<close>

text \<open>Waiting for a stop, at most \<open>n\<close> times; the first wait gives up on an error, the second does not.\<close>

fun await_stop :: "'t pal \<Rightarrow> bool \<Rightarrow> nat \<Rightarrow> ('t, bool) dbg" where
  "await_stop P strict 0 = done_with False"
| "await_stop P strict (Suc n) = do {
     r \<leftarrow> sys (pal_debug_wait P);
     case r of
       Wait_Stopped \<Rightarrow> done_with True
     | Wait_Error e \<Rightarrow> if strict \<and> e \<noteq> EINTR then done_with False else await_stop P strict n
     | _ \<Rightarrow> await_stop P strict n }"

record step_over =
  so_status :: status
  so_stop_consumed :: bool
  so_watch_hit :: bool

definition plain_step :: "status \<Rightarrow> step_over" where
  "plain_step st = \<lparr>so_status = st, so_stop_consumed = False, so_watch_hit = False\<rparr>"

definition watch_hit :: "watchpoint list \<Rightarrow> dbregs \<Rightarrow> bool" where
  "watch_hit wps dbregs \<longleftrightarrow>
     dbregs ! 6 AND 0x4000 = 0 \<and>
     list_ex (\<lambda>i. dw_installed (wps ! i) \<and> dbregs ! 6 AND push_bit i 1 \<noteq> 0) [0..<MEMDBG_DEBUGGER_MAX_WATCHPOINTS]"

definition step_wait :: "'t pal \<Rightarrow> nat \<Rightarrow> int \<Rightarrow> ('t, step_over) dbg" where
  "step_wait P slot lwp = do {
     first \<leftarrow> await_stop P True 500;
     stopped \<leftarrow> (if first then done_with True
                  else do { _ \<leftarrow> sys (pal_debug_stop P); await_stop P False 500 });
     if \<not> stopped then done_with (plain_step (Some MEMDBG_ERR_STATE))
     else do {
       st \<leftarrow> install_sw_breakpoint P slot;
       if st \<noteq> MEMDBG_OK then done_with (plain_step st)
       else if \<not> first then done_with (plain_step (Some MEMDBG_ERR_STATE))
       else do {
         r \<leftarrow> sys (pal_debug_get_dbregs P lwp);
         wps \<leftarrow> dbg_get g_watchpoints;
         done_with \<lparr>so_status = MEMDBG_OK, so_stop_consumed = True,
                    so_watch_hit = (case r of Inl e \<Rightarrow> False | Inr dbregs \<Rightarrow> watch_hit wps dbregs)\<rparr> } } }"

text \<open>
  Both callers ask for the watchpoint hit; only \<^verbatim>\<open>memdbg_debugger_step\<close> uses the consumed
  stop. Where a primitive fails, the code puts the breakpoint back before it reads
  \<^verbatim>\<open>errno\<close>; the model takes the \<^verbatim>\<open>errno\<close> of the primitive that failed.
\<close>

definition step_off_breakpoint :: "'t pal \<Rightarrow> int \<Rightarrow> debug_regs \<Rightarrow> nat \<Rightarrow> ('t, step_over) dbg" where
  "step_off_breakpoint P lwp regs i = do {
     st \<leftarrow> uninstall_sw_breakpoint P i;
     if st \<noteq> MEMDBG_OK then done_with (plain_step st)
     else do {
       st1 \<leftarrow> sys_status (pal_debug_set_regs P lwp (regs\<lparr>r_rip := r_rip regs - 1\<rparr>));
       if st1 \<noteq> MEMDBG_OK then do { _ \<leftarrow> install_sw_breakpoint P i; done_with (plain_step st1) }
       else do {
         st2 \<leftarrow> sys_status (pal_debug_single_step P lwp);
         if st2 \<noteq> MEMDBG_OK then do { _ \<leftarrow> install_sw_breakpoint P i; done_with (plain_step st2) }
         else step_wait P i lwp } } }"

definition step_over_sw_breakpoint_locked :: "'t pal \<Rightarrow> int \<Rightarrow> ('t, step_over) dbg" where
  "step_over_sw_breakpoint_locked P lwp = do {
     _ \<leftarrow> clear_hardware_status_locked P lwp;
     r \<leftarrow> sys (pal_debug_get_regs P lwp);
     case r of
       Inl e \<Rightarrow> done_with (plain_step (Some (pal_status_from_errno_code e)))
     | Inr regs \<Rightarrow> do {
         slot \<leftarrow> dbg_get (find_breakpoint_slot (r_rip regs - 1));
         bps \<leftarrow> dbg_get g_breakpoints;
         case slot of
           None \<Rightarrow> do { st \<leftarrow> sys_status (pal_debug_single_step P lwp); done_with (plain_step st) }
         | Some i \<Rightarrow>
             if db_kind (bps ! i) \<noteq> MEMDBG_BP_SOFTWARE
             then do { st \<leftarrow> sys_status (pal_debug_single_step P lwp); done_with (plain_step st) }
             else step_off_breakpoint P lwp regs i } }"

section \<open>Setting and clearing breakpoints\<close>

definition plant_hardware :: "'t pal \<Rightarrow> nat \<Rightarrow> watchpoint \<Rightarrow> ('t, status) dbg" where
  "plant_hardware P hw w = do {
     _ \<leftarrow> dbg_set (put_watchpoint hw w);
     st \<leftarrow> sync_hardware_dbregs_locked P True;
     _ \<leftarrow> (if st \<noteq> MEMDBG_OK then dbg_set (put_watchpoint hw zero_watchpoint) else done_with ());
     done_with st }"

definition hardware_watchpoint :: "nat \<Rightarrow> u64 \<Rightarrow> u32 \<Rightarrow> u32 \<Rightarrow> watchpoint" where
  "hardware_watchpoint hw address len ty =
     \<lparr>dw_address = address, dw_length = len, dw_type = ty, dw_slot = word_of_nat hw, dw_installed = True\<rparr>"

text \<open>Planting the breakpoint of a slot that has just been filled; the slot is released on failure.\<close>

definition plant_breakpoint :: "'t pal \<Rightarrow> nat \<Rightarrow> u64 \<Rightarrow> u32 \<Rightarrow> ('t, status) dbg" where
  "plant_breakpoint P i address kind = do {
     hw \<leftarrow> dbg_get alloc_hw_slot;
     st \<leftarrow> (if kind = MEMDBG_BP_SOFTWARE then install_sw_breakpoint P i
            else if kind = MEMDBG_BP_HARDWARE
            then (case hw of None \<Rightarrow> done_with (Some MEMDBG_ERR_NOMEM)
                  | Some k \<Rightarrow> plant_hardware P k (hardware_watchpoint k address 1 0))
            else done_with (Some MEMDBG_ERR_PARAM));
     _ \<leftarrow> (if st \<noteq> MEMDBG_OK then dbg_set (put_breakpoint i zero_breakpoint) else done_with ());
     done_with st }"

definition memdbg_debugger_set_breakpoint_cond :: "'t pal \<Rightarrow> u64 \<Rightarrow> u32 \<Rightarrow> u32 \<Rightarrow> u32 \<Rightarrow> u64 \<Rightarrow> ('t, status) dbg" where
  "memdbg_debugger_set_breakpoint_cond P address kind cond_reg cond_op cond_value = when_attached (
     if cond_reg > 17 then done_with (Some MEMDBG_ERR_PARAM)
     else if cond_op > 5 then done_with (Some MEMDBG_ERR_PARAM)
     else do {
       known \<leftarrow> dbg_get (find_breakpoint_slot address);
       slot \<leftarrow> dbg_get alloc_breakpoint_slot;
       if known \<noteq> None then done_with (Some MEMDBG_ERR_PARAM)
       else case slot of
         None \<Rightarrow> done_with (Some MEMDBG_ERR_NOMEM)
       | Some i \<Rightarrow> do {
           _ \<leftarrow> dbg_set (put_breakpoint i \<lparr>db_address = address, db_kind = kind, db_original_byte = 0,
                  db_installed = False, db_active = True, db_cond_reg = cond_reg, db_cond_op = cond_op,
                  db_cond_value = cond_value\<rparr>);
           plant_breakpoint P i address kind } })"

definition memdbg_debugger_set_breakpoint :: "'t pal \<Rightarrow> u64 \<Rightarrow> u32 \<Rightarrow> ('t, status) dbg" where
  "memdbg_debugger_set_breakpoint P address kind = memdbg_debugger_set_breakpoint_cond P address kind 0 0 0"

text \<open>Taking a slot out of the table, with the strict update of the threads.\<close>

definition remove_hardware :: "'t pal \<Rightarrow> nat \<Rightarrow> ('t, status) dbg" where
  "remove_hardware P hw = do {
     previous \<leftarrow> dbg_get (\<lambda>g. g_watchpoints g ! hw);
     _ \<leftarrow> dbg_set (put_watchpoint hw zero_watchpoint);
     st \<leftarrow> sync_hardware_dbregs_locked P False;
     _ \<leftarrow> (if st \<noteq> MEMDBG_OK then dbg_set (put_watchpoint hw previous) else done_with ());
     done_with st }"

definition drop_breakpoint :: "'t pal \<Rightarrow> nat \<Rightarrow> u64 \<Rightarrow> u32 \<Rightarrow> ('t, status) dbg" where
  "drop_breakpoint P i address kind = do {
     hw \<leftarrow> dbg_get (find_watchpoint_slot address);
     st \<leftarrow> (if kind = MEMDBG_BP_SOFTWARE then uninstall_sw_breakpoint P i
            else if kind = MEMDBG_BP_HARDWARE
            then (case hw of None \<Rightarrow> done_with MEMDBG_OK | Some k \<Rightarrow> remove_hardware P k)
            else done_with MEMDBG_OK);
     _ \<leftarrow> (if st = MEMDBG_OK then dbg_set (put_breakpoint i zero_breakpoint) else done_with ());
     done_with st }"

definition memdbg_debugger_clear_breakpoint :: "'t pal \<Rightarrow> u64 \<Rightarrow> ('t, status) dbg" where
  "memdbg_debugger_clear_breakpoint P address = when_attached (do {
     slot \<leftarrow> dbg_get (find_breakpoint_slot address);
     bps \<leftarrow> dbg_get g_breakpoints;
     case slot of
       None \<Rightarrow> done_with (Some MEMDBG_ERR_NOT_FOUND)
     | Some i \<Rightarrow> drop_breakpoint P i address (db_kind (bps ! i)) })"

definition clear_slot :: "'t pal \<Rightarrow> nat \<Rightarrow> ('t, unit) dbg" where
  "clear_slot P i = do {
     bp \<leftarrow> dbg_get (\<lambda>g. g_breakpoints g ! i);
     hw \<leftarrow> dbg_get (find_watchpoint_slot (db_address bp));
     _ \<leftarrow> (if db_kind bp = MEMDBG_BP_SOFTWARE then do { _ \<leftarrow> uninstall_sw_breakpoint P i; done_with () }
           else if db_kind bp = MEMDBG_BP_HARDWARE
           then (case hw of None \<Rightarrow> done_with () | Some k \<Rightarrow> dbg_set (put_watchpoint k zero_watchpoint))
           else done_with ());
     dbg_set (put_breakpoint i zero_breakpoint) }"

fun clear_slots :: "'t pal \<Rightarrow> nat list \<Rightarrow> ('t, u32) dbg" where
  "clear_slots P [] = done_with 0"
| "clear_slots P (i # is) = do {
     active \<leftarrow> dbg_get (\<lambda>g. db_active (g_breakpoints g ! i));
     if \<not> active then clear_slots P is
     else do { _ \<leftarrow> clear_slot P i; c \<leftarrow> clear_slots P is; done_with (c + 1) } }"

text \<open>The status and the number of breakpoints that were cleared.\<close>

definition memdbg_debugger_clear_all_breakpoints :: "'t pal \<Rightarrow> ('t, status \<times> u32) dbg" where
  "memdbg_debugger_clear_all_breakpoints P = do {
     attached \<leftarrow> dbg_get g_attached;
     if \<not> attached then done_with (Some MEMDBG_ERR_STATE, 0)
     else do {
       c \<leftarrow> clear_slots P [0..<MEMDBG_DEBUGGER_MAX_BREAKPOINTS];
       _ \<leftarrow> (if c > 0 then sync_hardware_dbregs_locked P False else done_with MEMDBG_OK);
       done_with (MEMDBG_OK, c) } }"

definition memdbg_debugger_breakpoints_snapshot :: "nat \<Rightarrow> ('t, breakpoint list) dbg" where
  "memdbg_debugger_breakpoints_snapshot max_count =
     dbg_get (\<lambda>g. take (min max_count MEMDBG_DEBUGGER_MAX_BREAKPOINTS) (g_breakpoints g))"

section \<open>Setting and clearing watchpoints\<close>

definition memdbg_debugger_set_watchpoint :: "'t pal \<Rightarrow> u64 \<Rightarrow> u32 \<Rightarrow> u32 \<Rightarrow> ('t, status) dbg" where
  "memdbg_debugger_set_watchpoint P address len ty = when_attached (
     if len \<noteq> 1 \<and> len \<noteq> 2 \<and> len \<noteq> 4 \<and> len \<noteq> 8 then done_with (Some MEMDBG_ERR_PARAM)
     else if ty > 3 then done_with (Some MEMDBG_ERR_PARAM)
     else do {
       known \<leftarrow> dbg_get (find_watchpoint_slot address);
       slot \<leftarrow> dbg_get alloc_hw_slot;
       if known \<noteq> None then done_with (Some MEMDBG_ERR_PARAM)
       else case slot of
         None \<Rightarrow> done_with (Some MEMDBG_ERR_NOMEM)
       | Some i \<Rightarrow> plant_hardware P i (hardware_watchpoint i address len ty) })"

definition memdbg_debugger_clear_watchpoint :: "'t pal \<Rightarrow> u64 \<Rightarrow> ('t, status) dbg" where
  "memdbg_debugger_clear_watchpoint P address = when_attached (do {
     slot \<leftarrow> dbg_get (find_watchpoint_slot address);
     case slot of
       None \<Rightarrow> done_with (Some MEMDBG_ERR_NOT_FOUND)
     | Some i \<Rightarrow> remove_hardware P i })"

definition memdbg_debugger_clear_all_watchpoints :: "'t pal \<Rightarrow> ('t, status \<times> nat) dbg" where
  "memdbg_debugger_clear_all_watchpoints P = do {
     attached \<leftarrow> dbg_get g_attached;
     if \<not> attached then done_with (Some MEMDBG_ERR_STATE, 0)
     else do {
       previous \<leftarrow> dbg_get g_watchpoints;
       _ \<leftarrow> dbg_set (\<lambda>g. g\<lparr>g_watchpoints := map (\<lambda>w. if dw_installed w then zero_watchpoint else w) (g_watchpoints g)\<rparr>);
       st \<leftarrow> (if list_ex dw_installed previous then sync_hardware_dbregs_locked P False else done_with MEMDBG_OK);
       if st \<noteq> MEMDBG_OK
       then do { _ \<leftarrow> dbg_set (\<lambda>g. g\<lparr>g_watchpoints := previous\<rparr>); done_with (st, 0) }
       else done_with (MEMDBG_OK, length (filter dw_installed previous)) } }"

definition memdbg_debugger_watchpoints_snapshot :: "nat \<Rightarrow> ('t, watchpoint list) dbg" where
  "memdbg_debugger_watchpoints_snapshot max_count =
     dbg_get (\<lambda>g. take (min max_count MEMDBG_DEBUGGER_MAX_WATCHPOINTS) (g_watchpoints g))"

end
