(* ===== verification/Debug_Session.thy ===== *)
theory Debug_Session
  imports Debug_Breakpoints
begin

text \<open>
  The life cycle of a debugging session (\<^verbatim>\<open>src/src/debug/session/debugger.c\<close>): attaching,
  detaching, stopping, continuing, stepping and polling. The wait for a stop makes at most 500
  polls (5000 ms in steps of 10 ms), as in the code.
\<close>

unbundle bit_operations_syntax

section \<open>Attaching\<close>

definition memdbg_debugger_attach :: "'t pal \<Rightarrow> int \<Rightarrow> ('t, status) dbg" where
  "memdbg_debugger_attach P pid =
     (if \<not> pal_debug_supported P then done_with (Some MEMDBG_ERR_UNSUPPORTED)
      else if pid \<le> 1 then done_with (Some MEMDBG_ERR_PERMISSION)
      else do {
        attached \<leftarrow> dbg_get g_attached;
        current \<leftarrow> dbg_get g_pid;
        if attached then done_with (if current = pid then MEMDBG_OK else Some MEMDBG_ERR_STATE)
        else do {
          _ \<leftarrow> dbg_set (\<lambda>_. zero_state\<lparr>g_pid := pid\<rparr>);
          st \<leftarrow> sys_status (pal_debug_attach P);
          _ \<leftarrow> dbg_set (if st \<noteq> MEMDBG_OK then (\<lambda>_. zero_state)
                        else (\<lambda>g. g\<lparr>g_attached := True, g_stopped := True, g_stop_lwp := 0\<rparr>));
          done_with st } })"

section \<open>Polling for events\<close>

text \<open>The thread that reports the stop, by a breakpoint below its instruction pointer.\<close>

datatype stop_cause = Condition_False | Stop_At int | No_Breakpoint

fun find_stop_lwp :: "'t pal \<Rightarrow> int list \<Rightarrow> ('t, stop_cause) dbg" where
  "find_stop_lwp P [] = done_with No_Breakpoint"
| "find_stop_lwp P (lwp # lwps) = do {
     r \<leftarrow> sys (pal_debug_get_regs P lwp);
     case r of
       Inl e \<Rightarrow> find_stop_lwp P lwps
     | Inr regs \<Rightarrow> do {
         slot \<leftarrow> dbg_get (find_breakpoint_slot (r_rip regs - 1));
         bps \<leftarrow> dbg_get g_breakpoints;
         case slot of
           None \<Rightarrow> find_stop_lwp P lwps
         | Some i \<Rightarrow> done_with (if \<not> evaluate_bp_condition (bps ! i) regs then Condition_False else Stop_At lwp) } }"

definition hardware_hit :: "watchpoint list \<Rightarrow> dbregs \<Rightarrow> bool" where
  "hardware_hit wps dbregs \<longleftrightarrow>
     list_ex (\<lambda>i. (dbregs ! 6 AND 0xF) AND push_bit i 1 \<noteq> 0 \<and> dw_installed (wps ! i)) [0..<MEMDBG_DEBUGGER_MAX_WATCHPOINTS]"

text \<open>The first thread with a hit; the search ends when \<^verbatim>\<open>stop_lwp\<close> is no longer zero.\<close>

fun find_hit_lwp :: "'t pal \<Rightarrow> int list \<Rightarrow> ('t, int) dbg" where
  "find_hit_lwp P [] = done_with 0"
| "find_hit_lwp P (lwp # lwps) = do {
     r \<leftarrow> sys (pal_debug_get_dbregs P lwp);
     wps \<leftarrow> dbg_get g_watchpoints;
     case r of
       Inl e \<Rightarrow> find_hit_lwp P lwps
     | Inr dbregs \<Rightarrow> if hardware_hit wps dbregs \<and> lwp \<noteq> 0 then done_with lwp else find_hit_lwp P lwps }"

definition report_stop :: "'t pal \<Rightarrow> ('t, unit) dbg" where
  "report_stop P = do {
     _ \<leftarrow> dbg_set (\<lambda>g. g\<lparr>g_stopped := True, g_stop_lwp := 0\<rparr>);
     r \<leftarrow> get_threads_locked P MEMDBG_DEBUGGER_MAX_THREADS;
     case r of
       Inl st \<Rightarrow> done_with ()
     | Inr lwps \<Rightarrow> do {
         cause \<leftarrow> find_stop_lwp P lwps;
         if cause = Condition_False
         then do {
           _ \<leftarrow> dbg_set (\<lambda>g. g\<lparr>g_stopped := False, g_stop_lwp := 0\<rparr>);
           _ \<leftarrow> sys (pal_debug_continue P);
           done_with () }
         else do {
           lwp \<leftarrow> (case cause of
               Stop_At l \<Rightarrow> if l \<noteq> 0 then done_with l else find_hit_lwp P lwps
             | _ \<Rightarrow> find_hit_lwp P lwps);
           dbg_set (\<lambda>g. g\<lparr>g_stop_lwp := lwp\<rparr>) } } }"

definition memdbg_debugger_poll_events :: "'t pal \<Rightarrow> ('t, status) dbg" where
  "memdbg_debugger_poll_events P = when_attached (do {
     r \<leftarrow> sys (pal_debug_wait P);
     case r of
       Wait_Stopped \<Rightarrow> do { _ \<leftarrow> report_stop P; done_with MEMDBG_OK }
     | Wait_Gone \<Rightarrow> do { _ \<leftarrow> dbg_set (\<lambda>_. zero_state); done_with (Some MEMDBG_ERR_NOT_FOUND) }
     | Wait_Error e \<Rightarrow> done_with (if e \<noteq> ECHILD then Some (pal_status_from_errno_code e) else MEMDBG_OK)
     | _ \<Rightarrow> done_with MEMDBG_OK })"

section \<open>Stopping\<close>

fun poll_until_stopped :: "'t pal \<Rightarrow> nat \<Rightarrow> ('t, status) dbg" where
  "poll_until_stopped P 0 = done_with (Some MEMDBG_ERR_STATE)"
| "poll_until_stopped P (Suc n) = do {
     st \<leftarrow> memdbg_debugger_poll_events P;
     stopped \<leftarrow> dbg_get g_stopped;
     attached \<leftarrow> dbg_get g_attached;
     if st \<noteq> MEMDBG_OK then done_with st
     else if stopped then done_with MEMDBG_OK
     else if \<not> attached then done_with (Some MEMDBG_ERR_STATE)
     else poll_until_stopped P n }"

definition memdbg_debugger_stop :: "'t pal \<Rightarrow> ('t, status) dbg" where
  "memdbg_debugger_stop P = when_attached (do {
     stopped \<leftarrow> dbg_get g_stopped;
     if stopped then memdbg_debugger_poll_events P
     else do {
       st \<leftarrow> sys_status (pal_debug_stop P);
       if st \<noteq> MEMDBG_OK then done_with st else poll_until_stopped P 500 } })"

section \<open>Detaching\<close>

text \<open>All the software breakpoints are taken out; the first failure is remembered.\<close>

fun uninstall_all :: "'t pal \<Rightarrow> nat list \<Rightarrow> ('t, status) dbg" where
  "uninstall_all P [] = done_with MEMDBG_OK"
| "uninstall_all P (i # is) = do {
     bp \<leftarrow> dbg_get (\<lambda>g. g_breakpoints g ! i);
     st \<leftarrow> (if db_active bp \<and> db_kind bp = MEMDBG_BP_SOFTWARE then uninstall_sw_breakpoint P i else done_with MEMDBG_OK);
     rest \<leftarrow> uninstall_all P is;
     done_with (if st \<noteq> MEMDBG_OK then st else rest) }"

definition release_target :: "'t pal \<Rightarrow> ('t, status) dbg" where
  "release_target P = do {
     _ \<leftarrow> dbg_set (\<lambda>g. g\<lparr>g_dbregs := zero_dbregs\<rparr>);
     valid \<leftarrow> dbg_get g_dbregs_valid;
     _ \<leftarrow> (if valid then apply_dbregs_to_all P False else done_with MEMDBG_OK);
     dst \<leftarrow> sys_status (pal_debug_detach P);
     _ \<leftarrow> (if dst = MEMDBG_OK then dbg_set (\<lambda>_. zero_state) else done_with ());
     done_with dst }"

definition memdbg_debugger_detach :: "'t pal \<Rightarrow> ('t, status) dbg" where
  "memdbg_debugger_detach P = when_attached (do {
     stopped \<leftarrow> dbg_get g_stopped;
     stop_st \<leftarrow> (if \<not> stopped then memdbg_debugger_stop P else done_with MEMDBG_OK);
     if stop_st \<noteq> MEMDBG_OK then done_with stop_st
     else do {
       st \<leftarrow> uninstall_all P [0..<MEMDBG_DEBUGGER_MAX_BREAKPOINTS];
       if st \<noteq> MEMDBG_OK then done_with st else release_target P } })"

text \<open>The status and whether the caller has to detach again.\<close>

definition memdbg_debugger_conditional_attach :: "'t pal \<Rightarrow> int \<Rightarrow> ('t, status \<times> bool) dbg" where
  "memdbg_debugger_conditional_attach P pid = do {
     attached \<leftarrow> dbg_get g_attached;
     current \<leftarrow> dbg_get g_pid;
     if attached \<and> current = pid then done_with (MEMDBG_OK, False)
     else do {
       _ \<leftarrow> (if attached then memdbg_debugger_detach P else done_with MEMDBG_OK);
       st \<leftarrow> memdbg_debugger_attach P pid;
       done_with (st, st = MEMDBG_OK) } }"

section \<open>Resuming\<close>

text \<open>Threads that stand after a breakpoint are stepped over it first; this may end the operation.\<close>

fun step_over_threads :: "'t pal \<Rightarrow> int list \<Rightarrow> ('t, status option) dbg" where
  "step_over_threads P [] = done_with None"
| "step_over_threads P (lwp # lwps) = do {
     r \<leftarrow> sys (pal_debug_get_regs P lwp);
     case r of
       Inl e \<Rightarrow> step_over_threads P lwps
     | Inr regs \<Rightarrow> do {
         slot \<leftarrow> dbg_get (find_breakpoint_slot (r_rip regs - 1));
         if slot = None then step_over_threads P lwps
         else do {
           so \<leftarrow> step_over_sw_breakpoint_locked P lwp;
           if so_status so \<noteq> MEMDBG_OK then done_with (Some (so_status so))
           else if so_watch_hit so
           then do { _ \<leftarrow> dbg_set (\<lambda>g. g\<lparr>g_stopped := True, g_stop_lwp := lwp\<rparr>); done_with (Some MEMDBG_OK) }
           else step_over_threads P lwps } } }"

definition memdbg_debugger_continue :: "'t pal \<Rightarrow> ('t, status) dbg" where
  "memdbg_debugger_continue P = when_attached (do {
     hw_armed \<leftarrow> dbg_get (\<lambda>g. list_ex dw_installed (g_watchpoints g));
     _ \<leftarrow> (if hw_armed then sync_hardware_dbregs_locked P True else done_with MEMDBG_OK);
     r \<leftarrow> get_threads_locked P MEMDBG_DEBUGGER_MAX_THREADS;
     ended \<leftarrow> (case r of Inl st \<Rightarrow> done_with None | Inr lwps \<Rightarrow> step_over_threads P lwps);
     case ended of
       Some st \<Rightarrow> done_with st
     | None \<Rightarrow> do {
         st \<leftarrow> sys_status (pal_debug_continue P);
         _ \<leftarrow> (if st = MEMDBG_OK then dbg_set (\<lambda>g. g\<lparr>g_stopped := False, g_stop_lwp := 0\<rparr>) else done_with ());
         done_with st } })"

definition memdbg_debugger_step :: "'t pal \<Rightarrow> int \<Rightarrow> ('t, status) dbg" where
  "memdbg_debugger_step P lwp = when_attached (do {
     so \<leftarrow> step_over_sw_breakpoint_locked P lwp;
     _ \<leftarrow> (if so_status so = MEMDBG_OK
           then dbg_set (\<lambda>g. g\<lparr>g_stopped := so_stop_consumed so, g_stop_lwp := (if so_stop_consumed so then lwp else 0)\<rparr>)
           else done_with ());
     done_with (so_status so) })"

definition memdbg_debugger_suspend_thread :: "'t pal \<Rightarrow> int \<Rightarrow> ('t, status) dbg" where
  "memdbg_debugger_suspend_thread P lwp = when_attached (sys_status (pal_debug_suspend_thread P lwp))"

definition memdbg_debugger_resume_thread :: "'t pal \<Rightarrow> int \<Rightarrow> ('t, status) dbg" where
  "memdbg_debugger_resume_thread P lwp = when_attached (sys_status (pal_debug_resume_thread P lwp))"

section \<open>Sequences of operations\<close>

text \<open>
  A client of the debugger, for the statements about whole sessions: a request names an operation of
  \<^verbatim>\<open>debugger.h\<close> with its arguments, and serving it runs the operation and drops the result.
\<close>

datatype request = Attach int | Conditional_Attach int | Detach | Stop | Continue | Step int | Suspend int | Resume int
  | Poll | Set_Breakpoint u64 u32 u32 u32 u64 | Clear_Breakpoint u64 | Clear_All_Breakpoints
  | Set_Watchpoint u64 u32 u32 | Clear_Watchpoint u64 | Clear_All_Watchpoints
  | Get_Threads nat | Get_Regs int | Set_Regs int debug_regs | Get_Dbregs int | Set_Dbregs int dbregs
  | Get_Fpregs int | Set_Fpregs int debug_fpregs | Get_Fsgsbase int | Set_Fsgsbase int fsgsbase

definition quiet :: "('t, 'a) dbg \<Rightarrow> ('t, unit) dbg" where
  "quiet m = do { _ \<leftarrow> m; done_with () }"

fun serve_request :: "'t pal \<Rightarrow> request \<Rightarrow> ('t, unit) dbg" where
  "serve_request P (Attach pid) = quiet (memdbg_debugger_attach P pid)"
| "serve_request P (Conditional_Attach pid) = quiet (memdbg_debugger_conditional_attach P pid)"
| "serve_request P Detach = quiet (memdbg_debugger_detach P)"
| "serve_request P Stop = quiet (memdbg_debugger_stop P)"
| "serve_request P Continue = quiet (memdbg_debugger_continue P)"
| "serve_request P (Step lwp) = quiet (memdbg_debugger_step P lwp)"
| "serve_request P (Suspend lwp) = quiet (memdbg_debugger_suspend_thread P lwp)"
| "serve_request P (Resume lwp) = quiet (memdbg_debugger_resume_thread P lwp)"
| "serve_request P Poll = quiet (memdbg_debugger_poll_events P)"
| "serve_request P (Set_Breakpoint a k cr co cv) = quiet (memdbg_debugger_set_breakpoint_cond P a k cr co cv)"
| "serve_request P (Clear_Breakpoint a) = quiet (memdbg_debugger_clear_breakpoint P a)"
| "serve_request P Clear_All_Breakpoints = quiet (memdbg_debugger_clear_all_breakpoints P)"
| "serve_request P (Set_Watchpoint a len ty) = quiet (memdbg_debugger_set_watchpoint P a len ty)"
| "serve_request P (Clear_Watchpoint a) = quiet (memdbg_debugger_clear_watchpoint P a)"
| "serve_request P Clear_All_Watchpoints = quiet (memdbg_debugger_clear_all_watchpoints P)"
| "serve_request P (Get_Threads n) = quiet (memdbg_debugger_get_threads P n)"
| "serve_request P (Get_Regs lwp) = quiet (memdbg_debugger_get_regs P lwp)"
| "serve_request P (Set_Regs lwp regs) = quiet (memdbg_debugger_set_regs P lwp regs)"
| "serve_request P (Get_Dbregs lwp) = quiet (memdbg_debugger_get_dbregs P lwp)"
| "serve_request P (Set_Dbregs lwp dbregs) = quiet (memdbg_debugger_set_dbregs P lwp dbregs)"
| "serve_request P (Get_Fpregs lwp) = quiet (memdbg_debugger_get_fpregs P lwp)"
| "serve_request P (Set_Fpregs lwp fpregs) = quiet (memdbg_debugger_set_fpregs P lwp fpregs)"
| "serve_request P (Get_Fsgsbase lwp) = quiet (memdbg_debugger_get_fsgsbase P lwp)"
| "serve_request P (Set_Fsgsbase lwp base) = quiet (memdbg_debugger_set_fsgsbase P lwp base)"

definition serve_requests :: "'t pal \<Rightarrow> request list \<Rightarrow> debugger_state \<times> 't \<Rightarrow> debugger_state \<times> 't" where
  "serve_requests P rs s = fold (\<lambda>r s. snd (run_state (serve_request P r) s)) rs s"

end
