(* ===== verification/Debug_Correct.thy ===== *)
theory Debug_Correct
  imports Debug_Session
begin

text \<open>
  What a debugging session does to the code of the target
  (\<^verbatim>\<open>src/src/debug/session/breakpoints.c\<close>, \<^verbatim>\<open>debugger.c\<close>). Each operation keeps the code as it is
  seen without the breakpoints, whichever primitives fail; the removal of all breakpoints keeps it
  where the code can be written.
\<close>

section \<open>Tables of slots\<close>

lemma first_slot_Some:
  "first_slot p xs = Some i \<longleftrightarrow> i < length xs \<and> p (xs ! i) \<and> (\<forall>j<i. \<not> p (xs ! j))"
proof (induction xs arbitrary: i)
  case Nil
  then show ?case by simp
next
  case (Cons x xs)
  show ?case
  proof (cases i)
    case 0
    then show ?thesis by auto
  next
    case (Suc k)
    then show ?thesis by (auto simp: Cons.IH All_less_Suc2)
  qed
qed

lemma first_slot_None: "first_slot p xs = None \<longleftrightarrow> (\<forall>i<length xs. \<not> p (xs ! i))"
  by (induction xs) (auto simp: All_less_Suc2)

lemma nth_update_any: "xs[i := y] ! j = (if i = j \<and> j < length xs then y else xs ! j)"
  by (cases "i < length xs") (auto simp: nth_list_update list_update_beyond)

definition unique_slots :: "('a \<Rightarrow> bool) \<Rightarrow> ('a \<Rightarrow> 'k) \<Rightarrow> 'a list \<Rightarrow> bool" where
  "unique_slots used key xs \<longleftrightarrow>
     (\<forall>i<length xs. \<forall>j<length xs. used (xs ! i) \<and> used (xs ! j) \<and> key (xs ! i) = key (xs ! j) \<longrightarrow> i = j)"

text \<open>A table of slots of which some are in use: what releasing, reusing and updating a slot keep.\<close>

locale slot_table =
  fixes used :: "'a \<Rightarrow> bool"
    and key :: "'a \<Rightarrow> 'k"
    and zero :: 'a
  assumes zero_unused: "\<not> used zero"
begin

lemma unique_release: "unique_slots used key xs \<Longrightarrow> unique_slots used key (xs[i := zero])"
  by (auto simp: unique_slots_def nth_update_any zero_unused split: if_splits)

lemma unique_reuse:
  "unique_slots used key xs \<Longrightarrow> first_slot (\<lambda>x. used x \<and> key x = key y) xs = None \<Longrightarrow> unique_slots used key (xs[i := y])"
  by (auto simp: unique_slots_def nth_update_any first_slot_None split: if_splits)

lemma unique_update:
  assumes "unique_slots used key xs" "used (xs ! i)" "key y = key (xs ! i)"
  shows "unique_slots used key (xs[i := y])"
proof -
  have "key (xs[i := y] ! j) = key (xs ! j)" "used (xs[i := y] ! j) \<Longrightarrow> used (xs ! j)" for j
    using assms(2,3) by (auto simp: nth_update_any split: if_splits)
  then show ?thesis using assms(1) unfolding unique_slots_def by simp
qed

lemma unique_empty: "unique_slots used key (replicate n zero)"
  by (simp add: unique_slots_def zero_unused)

end

interpretation bp_slots: slot_table db_active db_address zero_breakpoint
  by unfold_locales (simp add: zero_breakpoint_def)

section \<open>The code under the breakpoints\<close>

definition planted :: "breakpoint \<Rightarrow> bool" where
  "planted bp \<longleftrightarrow> db_active bp \<and> db_kind bp = MEMDBG_BP_SOFTWARE \<and> db_installed bp"

text \<open>The memory as the program has it: an \<^verbatim>\<open>INT3\<close> of the debugger stands for the byte it replaced.\<close>

definition code_view :: "debugger_state \<Rightarrow> (u64 \<Rightarrow> byte) \<Rightarrow> u64 \<Rightarrow> byte" where
  "code_view g m a =
     (case first_slot (\<lambda>bp. planted bp \<and> db_address bp = a) (g_breakpoints g) of
        None \<Rightarrow> m a
      | Some i \<Rightarrow> db_original_byte (g_breakpoints g ! i))"

definition debugger_ok :: "debugger_state \<Rightarrow> (u64 \<Rightarrow> byte) \<Rightarrow> bool" where
  "debugger_ok g m \<longleftrightarrow>
     length (g_breakpoints g) = MEMDBG_DEBUGGER_MAX_BREAKPOINTS \<and>
     unique_slots db_active db_address (g_breakpoints g) \<and>
     (\<forall>bp\<in>set (g_breakpoints g). planted bp \<longrightarrow> m (db_address bp) = INT3_OPCODE) \<and>
     (\<not> g_attached g \<longrightarrow> (\<forall>bp\<in>set (g_breakpoints g). \<not> db_active bp))"

definition code_kept :: "(u64 \<Rightarrow> byte) \<Rightarrow> debugger_state \<Rightarrow> (u64 \<Rightarrow> byte) \<Rightarrow> bool" where
  "code_kept v g m \<longleftrightarrow> debugger_ok g m \<and> code_view g m = v"

lemma code_view_planted:
  assumes "unique_slots db_active db_address (g_breakpoints g)" "i < length (g_breakpoints g)" "planted (g_breakpoints g ! i)"
  shows "code_view g m (db_address (g_breakpoints g ! i)) = db_original_byte (g_breakpoints g ! i)"
proof -
  have "first_slot (\<lambda>bp. planted bp \<and> db_address bp = db_address (g_breakpoints g ! i)) (g_breakpoints g) = Some i"
    unfolding first_slot_Some using assms
    by (auto simp: unique_slots_def planted_def) (metis less_trans less_irrefl)
  then show ?thesis by (simp add: code_view_def)
qed

lemma code_view_free:
  "(\<And>i. i < length (g_breakpoints g) \<Longrightarrow> planted (g_breakpoints g ! i) \<Longrightarrow> db_address (g_breakpoints g ! i) \<noteq> a) \<Longrightarrow>
     code_view g m a = m a"
  by (auto simp: code_view_def split: option.split dest!: first_slot_Some [THEN iffD1])

text \<open>Two states show the same code when each address is covered in the same way.\<close>

lemma code_view_cases:
  assumes "unique_slots db_active db_address (g_breakpoints g)"
  obtains (covered) i where "i < length (g_breakpoints g)" "planted (g_breakpoints g ! i)" "db_address (g_breakpoints g ! i) = a"
      "code_view g m a = db_original_byte (g_breakpoints g ! i)"
  | (free) "\<And>i. i < length (g_breakpoints g) \<Longrightarrow> planted (g_breakpoints g ! i) \<Longrightarrow> db_address (g_breakpoints g ! i) \<noteq> a"
      "code_view g m a = m a"
  using code_view_planted [OF assms] code_view_free by metis

lemma code_view_eqI:
  assumes u: "unique_slots db_active db_address (g_breakpoints g)" "unique_slots db_active db_address (g_breakpoints g')"
    and len: "length (g_breakpoints g') = length (g_breakpoints g)" and i: "i < length (g_breakpoints g)"
    and same: "\<And>j. j < length (g_breakpoints g) \<Longrightarrow> j \<noteq> i \<Longrightarrow> g_breakpoints g' ! j = g_breakpoints g ! j"
    and mem: "\<And>a. (\<forall>k\<in>{g_breakpoints g ! i, g_breakpoints g' ! i}. planted k \<longrightarrow> a \<noteq> db_address k) \<Longrightarrow> m' a = m a"
    and here: "planted (g_breakpoints g ! i) \<Longrightarrow>
        code_view g' m' (db_address (g_breakpoints g ! i)) = db_original_byte (g_breakpoints g ! i)"
    and there: "planted (g_breakpoints g' ! i) \<Longrightarrow>
        code_view g m (db_address (g_breakpoints g' ! i)) = db_original_byte (g_breakpoints g' ! i)"
  shows "code_view g' m' = code_view g m"
proof (rule ext)
  fix a
  show "code_view g' m' a = code_view g m a"
  proof (rule code_view_cases [OF u(1), of a m], goal_cases)
    case (1 j)
    then show ?thesis
      using here same code_view_planted [OF u(2), of j m'] len by (cases "j = i") auto
  next
    case free: 2
    show ?thesis
    proof (rule code_view_cases [OF u(2), of a m'], goal_cases)
      case (1 k)
      then show ?thesis
        using there same code_view_planted [OF u(1), of k m] len by (cases "k = i") auto
    next
      case free': 2
      have "m' a = m a" using free(1) free'(1) i len by (intro mem) auto
      then show ?thesis using free(2) free'(2) by simp
    qed
  qed
qed

section \<open>What the target guarantees\<close>

definition keeps :: "('t \<Rightarrow> 'o) \<Rightarrow> (int \<Rightarrow> 't \<Rightarrow> 'a \<times> 't) \<Rightarrow> bool" where
  "keeps obs f \<longleftrightarrow> (\<forall>pid t. obs (snd (f pid t)) = obs t)"

text \<open>
  The hypotheses on the platform, with \<open>mem\<close> the code of the target. A read returns the bytes
  that are there, a write of one byte that reports success has stored it and one that does not has
  changed nothing, and no other primitive changes the code: the program does not write over its own
  instructions while it runs.
\<close>

definition code_target :: "'t pal \<Rightarrow> ('t \<Rightarrow> u64 \<Rightarrow> byte) \<Rightarrow> bool" where
  "code_target P mem \<longleftrightarrow>
     keeps mem (pal_debug_attach P) \<and> keeps mem (pal_debug_detach P) \<and> keeps mem (pal_debug_wait P) \<and>
     keeps mem (pal_debug_continue P) \<and> keeps mem (pal_debug_stop P) \<and>
     (\<forall>lwp. keeps mem (pal_debug_single_step P lwp)) \<and> (\<forall>lwp. keeps mem (pal_debug_suspend_thread P lwp)) \<and>
     (\<forall>lwp. keeps mem (pal_debug_resume_thread P lwp)) \<and> (\<forall>n. keeps mem (pal_debug_get_thread_list P n)) \<and>
     (\<forall>lwp. keeps mem (pal_debug_get_thread_name P lwp)) \<and> (\<forall>lwp. keeps mem (pal_debug_get_thread_state P lwp)) \<and>
     (\<forall>lwp. keeps mem (pal_debug_get_regs P lwp)) \<and> (\<forall>lwp r. keeps mem (pal_debug_set_regs P lwp r)) \<and>
     (\<forall>lwp. keeps mem (pal_debug_get_dbregs P lwp)) \<and> (\<forall>lwp r. keeps mem (pal_debug_set_dbregs P lwp r)) \<and>
     (\<forall>lwp. keeps mem (pal_debug_get_fpregs P lwp)) \<and> (\<forall>lwp r. keeps mem (pal_debug_set_fpregs P lwp r)) \<and>
     (\<forall>lwp. keeps mem (pal_debug_get_fsgsbase P lwp)) \<and> (\<forall>lwp r. keeps mem (pal_debug_set_fsgsbase P lwp r)) \<and>
     (\<forall>a n. keeps mem (pal_memory_read P a n)) \<and>
     (\<forall>a b pid t. fst (pal_memory_read P a 1 pid t) = Inr [b] \<longrightarrow> b = mem t a) \<and>
     (\<forall>a b pid t. mem (snd (pal_memory_write P a [b] pid t)) =
        (if fst (pal_memory_write P a [b] pid t) = Inr 1 then (mem t)(a := b) else mem t))"

text \<open>The target stays alive as long as no wait reports its end.\<close>

definition stays_alive :: "'t pal \<Rightarrow> bool" where
  "stays_alive P \<longleftrightarrow> (\<forall>pid t. fst (pal_debug_wait P pid t) \<noteq> Wait_Gone)"

section \<open>Rules for operations that keep the code\<close>

definition seen :: "('t \<Rightarrow> 'o) \<Rightarrow> (debugger_state \<Rightarrow> 'o \<Rightarrow> bool) \<Rightarrow> debugger_state \<times> 't \<Rightarrow> bool" where
  "seen mem Q s = Q (fst s) (mem (snd s))"

lemma hoare_seen_sys: "keeps mem f \<Longrightarrow> hoare (seen mem Q) (sys f) (seen mem Q)"
  by (rule hoareI) (simp add: seen_def wp_sys keeps_def)

lemma hoare_seen_status: "keeps mem f \<Longrightarrow> hoare (seen mem Q) (sys_status f) (seen mem Q)"
  unfolding sys_status_def by (rule hoare_bind [OF hoare_seen_sys]) (simp_all add: hoare_return)

lemma hoare_seen_set: "(\<And>g m. Q g m \<Longrightarrow> Q (f g) m) \<Longrightarrow> hoare (seen mem Q) (dbg_set f) (seen mem Q)"
  by (rule hoareI) (simp add: seen_def wp_dbg_set)

lemma hoare_seen_get: "hoare (seen mem Q) (dbg_get f) (seen mem Q)"
  by (rule hoareI) (simp add: seen_def wp_dbg_get)

lemma hoare_seen_return: "hoare (seen mem Q) (done_with x) (seen mem Q)"
  by (simp add: hoare_return)

text \<open>A value read from the state is known in what follows.\<close>

lemma hoare_seen_read:
  "(\<And>x. hoare (seen mem (\<lambda>g m. Q g m \<and> f g = x)) (k x) R) \<Longrightarrow> hoare (seen mem Q) (State_Monad.bind (dbg_get f) k) R"
  unfolding hoare_def wp_bind wp_dbg_get by (simp add: seen_def)

lemma hoare_seen_bind:
  "hoare (seen mem Q) m (seen mem Q) \<Longrightarrow> (\<And>a. hoare (seen mem Q) (k a) R) \<Longrightarrow> hoare (seen mem Q) (State_Monad.bind m k) R"
  by (rule hoare_bind)

lemma hoare_seen_weaken:
  "hoare (seen mem Q) m (seen mem R) \<Longrightarrow> (\<And>g c. Q' g c \<Longrightarrow> Q g c) \<Longrightarrow> (\<And>g c. R g c \<Longrightarrow> R' g c) \<Longrightarrow>
     hoare (seen mem Q') m (seen mem R')"
  by (erule hoare_weaken) (simp_all add: seen_def)

lemma hoare_sum: "(\<And>x. hoare P (f x) Q) \<Longrightarrow> (\<And>y. hoare P (g y) Q) \<Longrightarrow> hoare P (case_sum f g v) Q"
  by (cases v) simp_all

lemma hoare_threads: "(\<And>b l. hoare P (f b l) Q) \<Longrightarrow> hoare P (case_thread_list f v) Q"
  by (cases v) simp_all

lemma hoare_wait:
  "hoare P a Q \<Longrightarrow> (\<And>e. hoare P (b e) Q) \<Longrightarrow> hoare P c Q \<Longrightarrow> hoare P d Q \<Longrightarrow> hoare P o' Q \<Longrightarrow>
     hoare P (case_wait_result a b c d o' v) Q"
  by (cases v) simp_all

lemmas seen_rules = hoare_seen_bind hoare_seen_return hoare_seen_get hoare_seen_sys hoare_seen_status hoare_structure
  hoare_sum hoare_threads hoare_wait

lemma code_target_keeps [intro]:
  assumes "code_target P mem"
  shows "keeps mem (pal_debug_attach P)" "keeps mem (pal_debug_detach P)" "keeps mem (pal_debug_wait P)"
    "keeps mem (pal_debug_continue P)" "keeps mem (pal_debug_stop P)" "keeps mem (pal_debug_single_step P lwp)"
    "keeps mem (pal_debug_suspend_thread P lwp)" "keeps mem (pal_debug_resume_thread P lwp)"
    "keeps mem (pal_debug_get_thread_list P n)" "keeps mem (pal_debug_get_thread_name P lwp)"
    "keeps mem (pal_debug_get_thread_state P lwp)" "keeps mem (pal_debug_get_regs P lwp)"
    "keeps mem (pal_debug_set_regs P lwp regs)" "keeps mem (pal_debug_get_dbregs P lwp)"
    "keeps mem (pal_debug_set_dbregs P lwp dbregs)" "keeps mem (pal_debug_get_fpregs P lwp)"
    "keeps mem (pal_debug_set_fpregs P lwp fpregs)" "keeps mem (pal_debug_get_fsgsbase P lwp)"
    "keeps mem (pal_debug_set_fsgsbase P lwp base)" "keeps mem (pal_memory_read P a n)"
  using assms by (simp_all add: code_target_def)

section \<open>Operations that leave the breakpoints alone\<close>

text \<open>A condition on the breakpoints and the code, which no debug register and no flag can break.\<close>

definition on_breakpoints :: "(debugger_state \<Rightarrow> 'o \<Rightarrow> bool) \<Rightarrow> bool" where
  "on_breakpoints Q \<longleftrightarrow>
     (\<forall>g g' m. g_breakpoints g' = g_breakpoints g \<and> g_attached g' = g_attached g \<longrightarrow> Q g m \<longrightarrow> Q g' m)"

lemma on_breakpointsD: "on_breakpoints Q \<Longrightarrow> Q g m \<Longrightarrow> g_breakpoints g' = g_breakpoints g \<Longrightarrow> g_attached g' = g_attached g \<Longrightarrow> Q g' m"
  by (simp add: on_breakpoints_def)

lemma hoare_seen_flags:
  "on_breakpoints Q \<Longrightarrow> (\<And>g. g_breakpoints (f g) = g_breakpoints g) \<Longrightarrow> (\<And>g. g_attached (f g) = g_attached g) \<Longrightarrow>
     hoare (seen mem Q) (dbg_set f) (seen mem Q)"
  by (rule hoare_seen_set) (auto elim: on_breakpointsD)

lemma get_threads_kept: "code_target P mem \<Longrightarrow> hoare (seen mem Q) (get_threads_locked P n) (seen mem Q)"
  unfolding get_threads_locked_def list_threads_def
  by (intro seen_rules code_target_keeps)

lemma set_all_dbregs_kept: "code_target P mem \<Longrightarrow> hoare (seen mem Q) (set_all_dbregs P new lwps) (seen mem Q)"
  by (induction lwps) (auto intro!: seen_rules)

lemma roll_back_kept: "code_target P mem \<Longrightarrow> hoare (seen mem Q) (roll_back P rs) (seen mem Q)"
  by (induction P rs rule: roll_back.induct) (auto intro!: seen_rules)

lemma apply_dbregs_kept: "code_target P mem \<Longrightarrow> hoare (seen mem Q) (apply_dbregs_to_all P partial) (seen mem Q)"
  unfolding apply_dbregs_to_all_def update_threads_def
  by (intro seen_rules get_threads_kept set_all_dbregs_kept roll_back_kept)

lemma clear_hardware_status_kept:
  "code_target P mem \<Longrightarrow> hoare (seen mem Q) (clear_hardware_status_locked P lwp) (seen mem Q)"
  unfolding clear_hardware_status_locked_def by (intro seen_rules code_target_keeps)

lemma sync_hardware_kept:
  assumes "code_target P mem" "on_breakpoints Q"
  shows "hoare (seen mem Q) (sync_hardware_dbregs_locked P partial) (seen mem Q)"
  unfolding sync_hardware_dbregs_locked_def refresh_dbregs_from_thread_def
  by (intro seen_rules get_threads_kept apply_dbregs_kept code_target_keeps hoare_seen_flags assms) simp_all

lemma await_stop_kept: "code_target P mem \<Longrightarrow> hoare (seen mem Q) (await_stop P strict n) (seen mem Q)"
  by (induction n) (auto intro!: seen_rules)

lemma hardware_changes_kept:
  assumes "code_target P mem" "on_breakpoints Q"
  shows "hoare (seen mem Q) (plant_hardware P hw w) (seen mem Q)" "hoare (seen mem Q) (remove_hardware P hw) (seen mem Q)"
  unfolding plant_hardware_def remove_hardware_def
  by (intro seen_rules sync_hardware_kept hoare_seen_flags assms; simp add: put_watchpoint_def)+

section \<open>Planting and taking out a breakpoint\<close>

lemma put_breakpoint_simps [simp]:
  "g_breakpoints (put_breakpoint i bp g) = (g_breakpoints g)[i := bp]"
  "g_attached (put_breakpoint i bp g) = g_attached g" "g_watchpoints (put_breakpoint i bp g) = g_watchpoints g"
  by (simp_all add: put_breakpoint_def)

lemma debugger_ok_put:
  assumes "debugger_ok g m" "unique_slots db_active db_address ((g_breakpoints g)[i := bp])"
    "db_active bp \<Longrightarrow> g_attached g" "planted bp \<Longrightarrow> m' (db_address bp) = INT3_OPCODE"
    "\<And>j. j < length (g_breakpoints g) \<Longrightarrow> j \<noteq> i \<Longrightarrow> planted (g_breakpoints g ! j) \<Longrightarrow>
       m' (db_address (g_breakpoints g ! j)) = m (db_address (g_breakpoints g ! j))"
  shows "debugger_ok (put_breakpoint i bp g) m'"
  using assms unfolding debugger_ok_def
  by (auto simp: all_set_conv_all_nth nth_update_any split: if_splits)

text \<open>A slot that carries no byte of the code, before and after.\<close>

lemma put_unplanted_kept:
  assumes k: "code_kept v g m" and i: "i < length (g_breakpoints g)"
    and n: "\<not> planted (g_breakpoints g ! i)" "\<not> planted bp"
    and u: "unique_slots db_active db_address ((g_breakpoints g)[i := bp])" and a: "db_active bp \<Longrightarrow> g_attached g"
  shows "code_kept v (put_breakpoint i bp g) m"
proof -
  have ok: "debugger_ok g m" "code_view g m = v" using k by (simp_all add: code_kept_def)
  have "code_view (put_breakpoint i bp g) m = code_view g m"
    by (rule code_view_eqI [where i = i]) (use ok u i n in \<open>auto simp: debugger_ok_def\<close>)
  moreover have "debugger_ok (put_breakpoint i bp g) m"
    by (rule debugger_ok_put [OF ok(1) u a]) (use n in auto)
  ultimately show ?thesis using ok(2) by (simp add: code_kept_def)
qed

lemma other_slot_address:
  assumes "debugger_ok g m" "i < length (g_breakpoints g)" "db_active (g_breakpoints g ! i)"
    "j < length (g_breakpoints g)" "j \<noteq> i" "planted (g_breakpoints g ! j)"
  shows "db_address (g_breakpoints g ! j) \<noteq> db_address (g_breakpoints g ! i)"
  using assms unfolding debugger_ok_def unique_slots_def planted_def by blast

definition sw_slot :: "nat \<Rightarrow> debugger_state \<Rightarrow> bool" where
  "sw_slot i g \<longleftrightarrow> i < length (g_breakpoints g) \<and> db_active (g_breakpoints g ! i) \<and> db_kind (g_breakpoints g ! i) = MEMDBG_BP_SOFTWARE"

lemma plant_kept:
  assumes k: "code_kept v g m" and sw: "sw_slot i g" and n: "\<not> db_installed (g_breakpoints g ! i)"
  defines "a \<equiv> db_address (g_breakpoints g ! i)"
  defines "bp \<equiv> (g_breakpoints g ! i)\<lparr>db_original_byte := m a, db_installed := True\<rparr>"
  shows "code_kept v (put_breakpoint i bp g) (m(a := INT3_OPCODE))"
proof -
  have ok: "debugger_ok g m" "code_view g m = v" using k by (simp_all add: code_kept_def)
  have i: "i < length (g_breakpoints g)" "db_active (g_breakpoints g ! i)" using sw by (simp_all add: sw_slot_def)
  have p: "planted bp" "\<not> planted (g_breakpoints g ! i)" "db_address bp = a" "db_original_byte bp = m a" "db_active bp"
    using sw n by (simp_all add: planted_def bp_def sw_slot_def a_def)
  have u: "unique_slots db_active db_address ((g_breakpoints g)[i := bp])"
    using ok(1) i p(3) unfolding debugger_ok_def a_def by (intro bp_slots.unique_update) auto
  have at: "g_attached g" using ok(1) i unfolding debugger_ok_def by (meson nth_mem)
  note other = other_slot_address [OF ok(1) i, folded a_def]
  have free: "code_view g m a = m a" using other p(2) by (intro code_view_free) (metis a_def)
  have "code_view (put_breakpoint i bp g) (m(a := INT3_OPCODE)) = code_view g m"
  proof (rule code_view_eqI [where i = i])
    show "unique_slots db_active db_address (g_breakpoints g)" using ok(1) by (simp add: debugger_ok_def)
  qed (use u i p free in auto)
  moreover have "debugger_ok (put_breakpoint i bp g) (m(a := INT3_OPCODE))"
    by (rule debugger_ok_put [OF ok(1) u]) (use at other p in auto)
  ultimately show ?thesis using ok(2) by (simp add: code_kept_def)
qed

lemma unplant_kept:
  assumes k: "code_kept v g m" and sw: "sw_slot i g" and n: "db_installed (g_breakpoints g ! i)"
  defines "a \<equiv> db_address (g_breakpoints g ! i)"
  defines "bp \<equiv> (g_breakpoints g ! i)\<lparr>db_installed := False\<rparr>"
  shows "code_kept v (put_breakpoint i bp g) (m(a := db_original_byte (g_breakpoints g ! i)))"
proof -
  have ok: "debugger_ok g m" "code_view g m = v" using k by (simp_all add: code_kept_def)
  have i: "i < length (g_breakpoints g)" "db_active (g_breakpoints g ! i)" using sw by (simp_all add: sw_slot_def)
  have p: "planted (g_breakpoints g ! i)" "\<not> planted bp" "db_address bp = a"
    using sw n by (simp_all add: planted_def bp_def sw_slot_def a_def)
  have u: "unique_slots db_active db_address ((g_breakpoints g)[i := bp])"
    using ok(1) i p(3) unfolding debugger_ok_def a_def by (intro bp_slots.unique_update) auto
  have at: "g_attached g" using ok(1) i unfolding debugger_ok_def by (meson nth_mem)
  note other = other_slot_address [OF ok(1) i, folded a_def]
  have "code_view (put_breakpoint i bp g) (m(a := db_original_byte (g_breakpoints g ! i))) = code_view g m"
  proof (rule code_view_eqI [where i = i])
    show "unique_slots db_active db_address (g_breakpoints g)" using ok(1) by (simp add: debugger_ok_def)
    show "code_view (put_breakpoint i bp g) (m(a := db_original_byte (g_breakpoints g ! i))) (db_address (g_breakpoints g ! i)) =
        db_original_byte (g_breakpoints g ! i)"
      using other p(2) i(1) a_def by (subst code_view_free) (auto simp: nth_update_any split: if_splits)
  qed (use u i p a_def in auto)
  moreover have "debugger_ok (put_breakpoint i bp g) (m(a := db_original_byte (g_breakpoints g ! i)))"
    by (rule debugger_ok_put [OF ok(1) u]) (use at other p in auto)
  ultimately show ?thesis using ok(2) by (simp add: code_kept_def)
qed

lemma sw_slot_put:
  "sw_slot i g \<Longrightarrow> db_active bp = db_active (g_breakpoints g ! i) \<Longrightarrow> db_kind bp = db_kind (g_breakpoints g ! i) \<Longrightarrow>
     sw_slot i (put_breakpoint i bp g)"
  by (simp add: sw_slot_def)

text \<open>The byte that is read is noted before the write; a failed write leaves the slot unplanted.\<close>

lemma note_byte_kept:
  assumes k: "code_kept v g m" and sw: "sw_slot i g" and n: "\<not> db_installed (g_breakpoints g ! i)"
  shows "code_kept v (put_breakpoint i ((g_breakpoints g ! i)\<lparr>db_original_byte := b\<rparr>) g) m"
proof (rule put_unplanted_kept [OF k])
  show "unique_slots db_active db_address ((g_breakpoints g)[i := (g_breakpoints g ! i)\<lparr>db_original_byte := b\<rparr>])"
    using k sw by (intro bp_slots.unique_update) (auto simp: code_kept_def debugger_ok_def sw_slot_def)
  show "g_attached g"
    using k sw unfolding code_kept_def debugger_ok_def sw_slot_def by (meson nth_mem)
qed (use sw n in \<open>auto simp: sw_slot_def planted_def\<close>)

lemma put_put_breakpoint [simp]: "put_breakpoint i bp (put_breakpoint i bp' g) = put_breakpoint i bp g"
  by (simp add: put_breakpoint_def)

lemma code_target_read: "code_target P mem \<Longrightarrow> fst (pal_memory_read P a (Suc 0) pid t) = Inr [b] \<Longrightarrow> mem t a = b"
  by (simp add: code_target_def)

lemma code_target_write:
  "code_target P mem \<Longrightarrow> mem (snd (pal_memory_write P a [b] pid t)) =
     (if fst (pal_memory_write P a [b] pid t) = Inr (Suc 0) then (mem t)(a := b) else mem t)"
  by (simp add: code_target_def)

lemma install_kept:
  assumes T: "code_target P mem" and k: "code_kept v (fst s) (mem (snd s))" and sw: "sw_slot i (fst s)"
  shows "wp (install_sw_breakpoint P i) (\<lambda>st. seen mem (\<lambda>g m. code_kept v g m \<and> sw_slot i g \<and>
           (st \<noteq> MEMDBG_OK \<longrightarrow> \<not> db_installed (g_breakpoints g ! i)))) s"
proof (cases "db_installed (g_breakpoints (fst s) ! i)")
  case True
  then show ?thesis using k sw by (simp add: install_sw_breakpoint_def wp_simps seen_def)
next
  case False
  define a where "a = db_address (g_breakpoints (fst s) ! i)"
  have i: "i < length (g_breakpoints (fst s))" using sw by (simp add: sw_slot_def)
  let ?r = "pal_memory_read P a (Suc 0) (g_pid (fst s)) (snd s)"
  have m: "mem (snd ?r) = mem (snd s)" using code_target_keeps(20) [OF T] by (simp add: keeps_def)
  show ?thesis
  proof (cases "\<exists>b. fst ?r = Inr [b]")
    case True
    then obtain b where b: "fst ?r = Inr [b]" by blast
    then have "mem (snd s) a = b" by (rule code_target_read [OF T])
    then show ?thesis
      using plant_kept [OF k sw False] note_byte_kept [OF k sw False] i sw b False
      by (auto simp: install_sw_breakpoint_def debugger_memory_read_def debugger_memory_write_def wp_simps seen_def
          a_def [symmetric] m code_target_write [OF T] sw_slot_put split: sum.split)
  next
    case no: False
    then show ?thesis
      using k sw False m
      by (auto simp: install_sw_breakpoint_def debugger_memory_read_def wp_simps seen_def a_def [symmetric] length_Suc_conv
          split: sum.split)
  qed
qed

lemma uninstall_kept:
  assumes T: "code_target P mem" and k: "code_kept v (fst s) (mem (snd s))" and sw: "sw_slot i (fst s)"
    and J: "\<forall>j\<in>J. \<not> planted (g_breakpoints (fst s) ! j)"
  shows "wp (uninstall_sw_breakpoint P i) (\<lambda>st. seen mem (\<lambda>g m. code_kept v g m \<and> sw_slot i g \<and>
           (st = MEMDBG_OK \<longrightarrow> \<not> db_installed (g_breakpoints g ! i)) \<and> (\<forall>j\<in>J. \<not> planted (g_breakpoints g ! j)))) s"
proof (cases "db_installed (g_breakpoints (fst s) ! i)")
  case True
  have i: "i < length (g_breakpoints (fst s))" using sw by (simp add: sw_slot_def)
  show ?thesis
    using unplant_kept [OF k sw True] k i sw J True
    by (auto simp: uninstall_sw_breakpoint_def debugger_memory_write_def wp_simps seen_def code_target_write [OF T]
        sw_slot_put nth_update_any planted_def split: sum.split)
next
  case False
  then show ?thesis using k sw J by (simp add: uninstall_sw_breakpoint_def wp_simps seen_def)
qed

section \<open>Setting and clearing breakpoints\<close>

lemma hoare_result_bind:
  "(\<And>s. P s \<Longrightarrow> wp m R s) \<Longrightarrow> (\<And>r. hoare (R r) (k r) Q) \<Longrightarrow> hoare P (State_Monad.bind m k) Q"
  unfolding hoare_def wp_bind by (blast intro: wp_mono [of m R])

lemma hoare_result: "hoare P m Q \<Longrightarrow> P s \<Longrightarrow> wp m (\<lambda>_. Q) s"
  by (simp add: hoare_def)

lemma when_attached_kept:
  "hoare (seen mem (\<lambda>g m. Q g m \<and> g_attached g)) m (seen mem Q) \<Longrightarrow> hoare (seen mem Q) (when_attached m) (seen mem Q)"
  unfolding when_attached_def
  by (rule hoare_seen_read) (auto simp: hoare_def seen_def wp_simps)

lemma code_view_cong: "g_breakpoints g' = g_breakpoints g \<Longrightarrow> code_view g' m = code_view g m"
  by (rule ext) (simp add: code_view_def cong: option.case_cong)

lemma code_kept_on_breakpoints [intro]:
  "on_breakpoints (code_kept v)"
  "on_breakpoints (\<lambda>g m. code_kept v g m \<and> sw_slot i g)"
proof -
  have kept: "code_kept v g' m"
    if "g_breakpoints g' = g_breakpoints g" "g_attached g' = g_attached g" "code_kept v g m" for g g' m
    using that code_view_cong [OF that(1), of m] by (simp add: code_kept_def debugger_ok_def)
  then show "on_breakpoints (code_kept v)"
    unfolding on_breakpoints_def by blast
  show "on_breakpoints (\<lambda>g m. code_kept v g m \<and> sw_slot i g)"
    unfolding on_breakpoints_def sw_slot_def by (intro allI impI) (metis kept)
qed

lemma release_kept:
  assumes "code_kept v g m" "i < length (g_breakpoints g)" "\<not> planted (g_breakpoints g ! i)"
  shows "code_kept v (put_breakpoint i zero_breakpoint g) m"
  using assms
  by (intro put_unplanted_kept) (auto simp: planted_def zero_breakpoint_def code_kept_def debugger_ok_def
      intro: bp_slots.unique_release [unfolded zero_breakpoint_def])

text \<open>A slot that has just been taken, and is not planted yet.\<close>

definition taken :: "(u64 \<Rightarrow> byte) \<Rightarrow> nat \<Rightarrow> u32 \<Rightarrow> debugger_state \<Rightarrow> (u64 \<Rightarrow> byte) \<Rightarrow> bool" where
  "taken v i kind g m \<longleftrightarrow> code_kept v g m \<and> i < length (g_breakpoints g) \<and> db_active (g_breakpoints g ! i) \<and>
     db_kind (g_breakpoints g ! i) = kind \<and> \<not> db_installed (g_breakpoints g ! i)"

lemma taken_on_breakpoints: "on_breakpoints (taken v i kind)"
  using code_kept_on_breakpoints(1) [of v] unfolding on_breakpoints_def taken_def by auto

lemma take_slot_kept:
  assumes k: "code_kept v g m" and at: "g_attached g" and f: "find_breakpoint_slot (db_address bp) g = None"
    and al: "alloc_breakpoint_slot g = Some i" and bp: "db_active bp" "\<not> db_installed bp"
  shows "taken v i (db_kind bp) (put_breakpoint i bp g) m"
proof -
  have i: "i < length (g_breakpoints g)" "\<not> planted (g_breakpoints g ! i)"
    using al by (auto simp: alloc_breakpoint_slot_def first_slot_Some planted_def)
  have "unique_slots db_active db_address ((g_breakpoints g)[i := bp])"
    using k f by (intro bp_slots.unique_reuse) (auto simp: code_kept_def debugger_ok_def find_breakpoint_slot_def)
  then have "code_kept v (put_breakpoint i bp g) m"
    using i at bp by (intro put_unplanted_kept [OF k]) (auto simp: planted_def)
  then show ?thesis using i(1) bp by (simp add: taken_def)
qed

lemma finish_set_kept:
  "hoare (seen mem (\<lambda>g m. code_kept v g m \<and> i < length (g_breakpoints g) \<and> (st \<noteq> MEMDBG_OK \<longrightarrow> \<not> planted (g_breakpoints g ! i))))
     (State_Monad.bind (if st \<noteq> MEMDBG_OK then dbg_set (put_breakpoint i zero_breakpoint) else done_with ()) (\<lambda>_. done_with st))
     (seen mem (code_kept v))"
  by (rule hoareI) (auto simp: wp_simps seen_def release_kept)

lemma taken_install:
  assumes "code_target P mem" "seen mem (taken v i kind) s" "kind = MEMDBG_BP_SOFTWARE"
  shows "wp (install_sw_breakpoint P i) (\<lambda>st. seen mem (\<lambda>g m. code_kept v g m \<and> i < length (g_breakpoints g) \<and>
           (st \<noteq> MEMDBG_OK \<longrightarrow> \<not> planted (g_breakpoints g ! i)))) s"
proof -
  have "code_kept v (fst s) (mem (snd s))" "sw_slot i (fst s)"
    using assms(2,3) by (auto simp: seen_def taken_def sw_slot_def)
  from install_kept [OF assms(1) this] show ?thesis
    by (rule wp_mono) (auto simp: seen_def sw_slot_def planted_def)
qed

lemma plant_breakpoint_kept:
  assumes T: "code_target P mem"
  shows "hoare (seen mem (taken v i kind)) (plant_breakpoint P i address kind) (seen mem (code_kept v))"
proof (cases "kind = MEMDBG_BP_SOFTWARE")
  case True
  show ?thesis
    unfolding plant_breakpoint_def if_P [OF True]
    by (rule hoare_seen_bind [OF hoare_seen_get]) (rule hoare_result_bind [OF taken_install [OF T _ True] finish_set_kept])
next
  case False
  have "hoare (seen mem (taken v i kind)) (if kind = MEMDBG_BP_HARDWARE
      then (case hw of None \<Rightarrow> done_with (Some MEMDBG_ERR_NOMEM)
            | Some k \<Rightarrow> plant_hardware P k (hardware_watchpoint k address 1 0))
      else done_with (Some MEMDBG_ERR_PARAM)) (seen mem (taken v i kind))" for hw
    by (intro seen_rules hardware_changes_kept taken_on_breakpoints T)
  moreover have "seen mem (taken v i kind) s \<Longrightarrow> seen mem (\<lambda>g m. code_kept v g m \<and> i < length (g_breakpoints g) \<and>
      (st \<noteq> MEMDBG_OK \<longrightarrow> \<not> planted (g_breakpoints g ! i))) s" for s st
    using False by (auto simp: seen_def taken_def planted_def)
  ultimately show ?thesis
    unfolding plant_breakpoint_def if_not_P [OF False]
    by (intro hoare_seen_bind [OF hoare_seen_get] hoare_result_bind [OF _ finish_set_kept]) (rule wp_mono [OF hoare_result])
qed

lemma set_breakpoint_kept:
  assumes T: "code_target P mem"
  shows "hoare (seen mem (code_kept v)) (memdbg_debugger_set_breakpoint_cond P address kind creg cop cval) (seen mem (code_kept v))"
proof -
  have ret: "hoare (seen mem (\<lambda>g m. code_kept v g m \<and> Q g)) (done_with x) (seen mem (code_kept v))" for Q x
    by (rule hoare_return) (simp add: seen_def)
  have fill: "hoare (seen mem (\<lambda>g m. code_kept v g m \<and> g_attached g \<and> find_breakpoint_slot address g = None \<and>
        alloc_breakpoint_slot g = Some i))
      (dbg_set (put_breakpoint i bp)) (seen mem (taken v i kind))"
    if "db_address bp = address" "db_kind bp = kind" "db_active bp" "\<not> db_installed bp" for i bp
    using that take_slot_kept by (auto simp: hoare_def seen_def wp_simps)
  have body: "hoare (seen mem (\<lambda>g m. ((code_kept v g m \<and> g_attached g) \<and> find_breakpoint_slot address g = known) \<and>
        alloc_breakpoint_slot g = slot))
      (if known \<noteq> None then done_with (Some MEMDBG_ERR_PARAM)
       else case slot of
         None \<Rightarrow> done_with (Some MEMDBG_ERR_NOMEM)
       | Some i \<Rightarrow> State_Monad.bind (dbg_set (put_breakpoint i \<lparr>db_address = address, db_kind = kind, db_original_byte = 0,
                  db_installed = False, db_active = True, db_cond_reg = creg, db_cond_op = cop,
                  db_cond_value = cval\<rparr>)) (\<lambda>_. plant_breakpoint P i address kind))
      (seen mem (code_kept v))" for known slot
    by (cases known; cases slot) (auto simp: seen_def intro!: hoare_return hoare_bind [OF fill plant_breakpoint_kept [OF T]])
  show ?thesis
    unfolding memdbg_debugger_set_breakpoint_cond_def
    by (rule when_attached_kept, (rule hoare_if, rule ret)+, rule hoare_seen_read, rule hoare_seen_read, rule body)
qed

lemma finish_drop_kept:
  "hoare (seen mem (\<lambda>g m. code_kept v g m \<and> i < length (g_breakpoints g) \<and> (st = MEMDBG_OK \<longrightarrow> \<not> planted (g_breakpoints g ! i))))
     (State_Monad.bind (if st = MEMDBG_OK then dbg_set (put_breakpoint i zero_breakpoint) else done_with ()) (\<lambda>_. done_with st))
     (seen mem (code_kept v))"
  by (rule hoareI) (auto simp: wp_simps seen_def release_kept)

text \<open>A slot in use, of a given kind.\<close>

definition slot_of_kind :: "(u64 \<Rightarrow> byte) \<Rightarrow> nat \<Rightarrow> u32 \<Rightarrow> debugger_state \<Rightarrow> (u64 \<Rightarrow> byte) \<Rightarrow> bool" where
  "slot_of_kind v i kind g m \<longleftrightarrow> code_kept v g m \<and> i < length (g_breakpoints g) \<and> db_active (g_breakpoints g ! i) \<and>
     db_kind (g_breakpoints g ! i) = kind"

lemma slot_of_kind_on_breakpoints: "on_breakpoints (slot_of_kind v i kind)"
  using code_kept_on_breakpoints(1) [of v] unfolding on_breakpoints_def slot_of_kind_def by auto

lemma slot_uninstall:
  assumes "code_target P mem" "seen mem (slot_of_kind v i kind) s" "kind = MEMDBG_BP_SOFTWARE"
  shows "wp (uninstall_sw_breakpoint P i) (\<lambda>st. seen mem (\<lambda>g m. code_kept v g m \<and> i < length (g_breakpoints g) \<and>
           (st = MEMDBG_OK \<longrightarrow> \<not> planted (g_breakpoints g ! i)))) s"
proof -
  have "code_kept v (fst s) (mem (snd s))" "sw_slot i (fst s)"
    using assms(2,3) by (auto simp: seen_def slot_of_kind_def sw_slot_def)
  from uninstall_kept [OF assms(1) this, of "{}"] show ?thesis
    by (rule wp_mono) (auto simp: seen_def sw_slot_def planted_def)
qed

lemma drop_breakpoint_kept:
  assumes T: "code_target P mem"
  shows "hoare (seen mem (slot_of_kind v i kind)) (drop_breakpoint P i address kind) (seen mem (code_kept v))"
proof (cases "kind = MEMDBG_BP_SOFTWARE")
  case True
  show ?thesis
    unfolding drop_breakpoint_def if_P [OF True]
    by (rule hoare_seen_bind [OF hoare_seen_get]) (rule hoare_result_bind [OF slot_uninstall [OF T _ True] finish_drop_kept])
next
  case False
  have "hoare (seen mem (slot_of_kind v i kind)) (if kind = MEMDBG_BP_HARDWARE
      then (case hw of None \<Rightarrow> done_with MEMDBG_OK | Some k \<Rightarrow> remove_hardware P k)
      else done_with MEMDBG_OK) (seen mem (slot_of_kind v i kind))" for hw
    by (intro seen_rules hardware_changes_kept slot_of_kind_on_breakpoints T)
  moreover have "seen mem (slot_of_kind v i kind) s \<Longrightarrow> seen mem (\<lambda>g m. code_kept v g m \<and> i < length (g_breakpoints g) \<and>
      (st = MEMDBG_OK \<longrightarrow> \<not> planted (g_breakpoints g ! i))) s" for s st
    using False by (auto simp: seen_def slot_of_kind_def planted_def)
  ultimately show ?thesis
    unfolding drop_breakpoint_def if_not_P [OF False]
    by (intro hoare_seen_bind [OF hoare_seen_get] hoare_result_bind [OF _ finish_drop_kept]) (rule wp_mono [OF hoare_result])
qed

lemma found_slot:
  "code_kept v g m \<Longrightarrow> find_breakpoint_slot address g = Some i \<Longrightarrow> slot_of_kind v i (db_kind (g_breakpoints g ! i)) g m"
  by (simp add: find_breakpoint_slot_def first_slot_Some slot_of_kind_def)

lemma hoare_seen_pre: "hoare (seen mem Q) m R \<Longrightarrow> (\<And>g c. Q' g c \<Longrightarrow> Q g c) \<Longrightarrow> hoare (seen mem Q') m R"
  by (erule hoare_weaken) (auto simp: seen_def)

lemma clear_breakpoint_kept:
  assumes T: "code_target P mem"
  shows "hoare (seen mem (code_kept v)) (memdbg_debugger_clear_breakpoint P address) (seen mem (code_kept v))"
  unfolding memdbg_debugger_clear_breakpoint_def
proof (rule when_attached_kept, rule hoare_seen_read, rule hoare_seen_read, goal_cases)
  case (1 slot bps)
  show ?case
    by (cases slot)
      (auto simp: seen_def dest: found_slot intro!: hoare_return hoare_seen_pre [OF drop_breakpoint_kept [OF T]])
qed

section \<open>Clearing all breakpoints\<close>

text \<open>
  The removal of all breakpoints does not look at the outcome of the writes, so it keeps the code
  only where every write of a byte succeeds.
\<close>

definition code_writable :: "'t pal \<Rightarrow> bool" where
  "code_writable P \<longleftrightarrow> (\<forall>a b pid t. fst (pal_memory_write P a [b] pid t) = Inr 1)"

lemma uninstall_writable: "code_writable P \<Longrightarrow> fst (run_state (uninstall_sw_breakpoint P i) s) = MEMDBG_OK"
  by (cases s) (simp add: code_writable_def uninstall_sw_breakpoint_def debugger_memory_write_def dbg_get_def dbg_set_def sys_def)

lemma clear_slot_kept:
  fixes P :: "'t pal"
  assumes T: "code_target P mem" and W: "code_writable P"
  shows "hoare (seen mem (\<lambda>g m. slot_of_kind v i (db_kind (g_breakpoints g ! i)) g m)) (clear_slot P i) (seen mem (code_kept v))"
proof (rule hoareI)
  fix s :: "debugger_state \<times> 't"
  let ?bp = "g_breakpoints (fst s) ! i"
  assume s: "seen mem (\<lambda>g m. slot_of_kind v i (db_kind (g_breakpoints g ! i)) g m) s"
  then have k: "seen mem (slot_of_kind v i (db_kind ?bp)) s" by (simp add: seen_def)
  show "wp (clear_slot P i) (\<lambda>_. seen mem (code_kept v)) s"
  proof (cases "db_kind ?bp = MEMDBG_BP_SOFTWARE")
    case True
    from slot_uninstall [OF T k True] uninstall_writable [OF W, of i s]
    have "wp (uninstall_sw_breakpoint P i)
        (\<lambda>_. seen mem (\<lambda>g m. code_kept v g m \<and> i < length (g_breakpoints g) \<and> \<not> planted (g_breakpoints g ! i))) s"
      by (simp add: wp_iff_run)
    then have "wp (uninstall_sw_breakpoint P i) (\<lambda>_ u. seen mem (code_kept v) (put_breakpoint i zero_breakpoint (fst u), snd u)) s"
      by (rule wp_mono) (auto simp: wp_simps seen_def release_kept)
    with True show ?thesis by (simp add: clear_slot_def wp_simps)
  next
    case False
    have "seen mem (code_kept v) (put_breakpoint i zero_breakpoint (f (fst s)), snd s)"
      if "g_breakpoints (f (fst s)) = g_breakpoints (fst s)" "g_attached (f (fst s)) = g_attached (fst s)" for f
      using k False that on_breakpointsD [OF slot_of_kind_on_breakpoints, of v i "db_kind ?bp" "fst s" "mem (snd s)" "f (fst s)"]
      by (auto simp: seen_def slot_of_kind_def planted_def intro!: release_kept)
    from this [of id] this [of "put_watchpoint _ zero_watchpoint"] False show ?thesis
      by (auto simp: clear_slot_def wp_simps put_watchpoint_def split: option.split)
  qed
qed

lemma clear_slots_kept:
  assumes "code_target P mem" "code_writable P"
  shows "seen mem (code_kept v) s \<Longrightarrow> \<forall>i\<in>set is. i < MEMDBG_DEBUGGER_MAX_BREAKPOINTS \<Longrightarrow>
      wp (clear_slots P is) (\<lambda>_. seen mem (code_kept v)) s"
proof (induction "is" arbitrary: s)
  case Nil
  then show ?case by (simp add: wp_simps)
next
  case (Cons i "is")
  show ?case
  proof (cases "db_active (g_breakpoints (fst s) ! i)")
    case True
    with Cons.prems have "seen mem (\<lambda>g m. slot_of_kind v i (db_kind (g_breakpoints g ! i)) g m) s"
      by (simp add: seen_def slot_of_kind_def code_kept_def debugger_ok_def)
    from wp_mono [OF hoare_result [OF clear_slot_kept [OF assms] this] wp_mono [OF Cons.IH]] Cons.prems(2) True
    show ?thesis by (simp add: wp_simps)
  next
    case False
    then show ?thesis using Cons by (simp add: wp_simps)
  qed
qed

lemma clear_all_kept:
  assumes T: "code_target P mem" and W: "code_writable P"
  shows "hoare (seen mem (code_kept v)) (memdbg_debugger_clear_all_breakpoints P) (seen mem (code_kept v))"
proof -
  have "hoare (seen mem (code_kept v)) (clear_slots P [0..<MEMDBG_DEBUGGER_MAX_BREAKPOINTS]) (seen mem (code_kept v))"
    by (rule hoareI) (rule clear_slots_kept [OF T W], auto)
  then show ?thesis
    unfolding memdbg_debugger_clear_all_breakpoints_def
    by (intro seen_rules sync_hardware_kept code_kept_on_breakpoints T)
qed

section \<open>Stepping over a breakpoint\<close>

lemma sw_installs_kept:
  assumes "code_target P mem"
  shows "hoare (seen mem (\<lambda>g m. code_kept v g m \<and> sw_slot i g)) (install_sw_breakpoint P i) (seen mem (\<lambda>g m. code_kept v g m \<and> sw_slot i g))"
    "hoare (seen mem (\<lambda>g m. code_kept v g m \<and> sw_slot i g)) (uninstall_sw_breakpoint P i) (seen mem (\<lambda>g m. code_kept v g m \<and> sw_slot i g))"
proof -
  show "hoare (seen mem (\<lambda>g m. code_kept v g m \<and> sw_slot i g)) (install_sw_breakpoint P i) (seen mem (\<lambda>g m. code_kept v g m \<and> sw_slot i g))"
    by (rule hoareI, rule wp_mono [OF install_kept [OF assms]]) (auto simp: seen_def)
  show "hoare (seen mem (\<lambda>g m. code_kept v g m \<and> sw_slot i g)) (uninstall_sw_breakpoint P i) (seen mem (\<lambda>g m. code_kept v g m \<and> sw_slot i g))"
    by (rule hoareI, rule wp_mono [OF uninstall_kept [OF assms, where J = "{}"]]) (auto simp: seen_def)
qed

lemma step_off_kept:
  assumes T: "code_target P mem"
  shows "hoare (seen mem (\<lambda>g m. code_kept v g m \<and> sw_slot i g)) (step_off_breakpoint P lwp regs i) (seen mem (code_kept v))"
proof (rule hoare_seen_weaken)
  show "hoare (seen mem (\<lambda>g m. code_kept v g m \<and> sw_slot i g)) (step_off_breakpoint P lwp regs i)
      (seen mem (\<lambda>g m. code_kept v g m \<and> sw_slot i g))"
    unfolding step_off_breakpoint_def step_wait_def
    by (intro seen_rules sw_installs_kept await_stop_kept code_target_keeps T)
qed auto

lemma step_over_kept:
  assumes T: "code_target P mem"
  shows "hoare (seen mem (code_kept v)) (step_over_sw_breakpoint_locked P lwp) (seen mem (code_kept v))"
proof -
  have plain: "hoare (seen mem (\<lambda>g m. code_kept v g m \<and> Q g))
      (State_Monad.bind (sys_status (pal_debug_single_step P lwp)) (\<lambda>st. done_with (plain_step st))) (seen mem (code_kept v))" for Q
    by (rule hoare_seen_pre [where Q = "code_kept v"]) (auto intro!: seen_rules T)
  have body: "hoare (seen mem (\<lambda>g m. (code_kept v g m \<and> find_breakpoint_slot a g = slot) \<and> g_breakpoints g = bps))
      (case slot of
         None \<Rightarrow> State_Monad.bind (sys_status (pal_debug_single_step P lwp)) (\<lambda>st. done_with (plain_step st))
       | Some i \<Rightarrow>
           if db_kind (bps ! i) \<noteq> MEMDBG_BP_SOFTWARE
           then State_Monad.bind (sys_status (pal_debug_single_step P lwp)) (\<lambda>st. done_with (plain_step st))
           else step_off_breakpoint P lwp regs i) (seen mem (code_kept v))" for a slot bps regs
    by (cases slot) (auto simp: slot_of_kind_def sw_slot_def dest: found_slot
        intro!: plain hoare_seen_pre [OF step_off_kept [OF T]])
  show ?thesis
    unfolding step_over_sw_breakpoint_locked_def
    by (rule hoare_seen_bind [OF clear_hardware_status_kept [OF T]], rule hoare_seen_bind [OF hoare_seen_sys], rule code_target_keeps [OF T],
        rule hoare_sum, rule hoare_seen_return, rule hoare_seen_read, rule hoare_seen_read, rule body)
qed

end
