(* ===== verification/Debug_Session_Correct.thy ===== *)
theory Debug_Session_Correct
  imports Debug_Correct
begin

text \<open>
  Sequences of requests to the daemon's debugger (\<^verbatim>\<open>src/src/debug/session/debugger.c\<close>). A request
  keeps the code of the target as the program has it, and a session that has been detached leaves
  the memory as it found it, while the target lives; the removal of all breakpoints needs a target
  whose code can be written.
\<close>

section \<open>Requests that do not plant or remove breakpoints\<close>

lemma reading_kept: "keeps mem f \<Longrightarrow> hoare (seen mem Q) (reading f) (seen mem Q)"
  unfolding reading_def by (intro seen_rules)

lemma guarded_status_kept: "keeps mem f \<Longrightarrow> hoare (seen mem Q) (when_attached (sys_status f)) (seen mem Q)"
  unfolding when_attached_def by (intro seen_rules)

lemma thread_names_kept: "code_target P mem \<Longrightarrow> hoare (seen mem Q) (thread_names P fallback lwps) (seen mem Q)"
  by (induction P fallback lwps rule: thread_names.induct) (auto intro!: seen_rules)

lemma thread_states_kept: "code_target P mem \<Longrightarrow> hoare (seen mem Q) (thread_states P fallback lwps) (seen mem Q)"
  by (induction P fallback lwps rule: thread_states.induct) (auto intro!: seen_rules)

lemma get_threads_request_kept: "code_target P mem \<Longrightarrow> hoare (seen mem Q) (memdbg_debugger_get_threads P n) (seen mem Q)"
  unfolding memdbg_debugger_get_threads_def list_threads_def
  by (intro seen_rules thread_names_kept thread_states_kept code_target_keeps)

lemma register_requests_kept:
  assumes "code_target P mem"
  shows "hoare (seen mem Q) (memdbg_debugger_get_regs P lwp) (seen mem Q)"
    "hoare (seen mem Q) (memdbg_debugger_set_regs P lwp regs) (seen mem Q)"
    "hoare (seen mem Q) (memdbg_debugger_get_dbregs P lwp) (seen mem Q)"
    "hoare (seen mem Q) (memdbg_debugger_get_fpregs P lwp) (seen mem Q)"
    "hoare (seen mem Q) (memdbg_debugger_set_fpregs P lwp fpregs) (seen mem Q)"
    "hoare (seen mem Q) (memdbg_debugger_get_fsgsbase P lwp) (seen mem Q)"
    "hoare (seen mem Q) (memdbg_debugger_set_fsgsbase P lwp base) (seen mem Q)"
    "hoare (seen mem Q) (memdbg_debugger_suspend_thread P lwp) (seen mem Q)"
    "hoare (seen mem Q) (memdbg_debugger_resume_thread P lwp) (seen mem Q)"
  unfolding memdbg_debugger_get_regs_def memdbg_debugger_set_regs_def memdbg_debugger_get_dbregs_def
    memdbg_debugger_get_fpregs_def memdbg_debugger_set_fpregs_def memdbg_debugger_get_fsgsbase_def
    memdbg_debugger_set_fsgsbase_def memdbg_debugger_suspend_thread_def memdbg_debugger_resume_thread_def
  by (intro reading_kept guarded_status_kept code_target_keeps assms)+

lemma set_dbregs_kept:
  assumes "code_target P mem" "on_breakpoints Q"
  shows "hoare (seen mem Q) (memdbg_debugger_set_dbregs P lwp dbregs) (seen mem Q)"
  unfolding memdbg_debugger_set_dbregs_def when_attached_def
  by (intro seen_rules hoare_seen_flags code_target_keeps assms) simp_all

lemma watchpoint_requests_kept:
  assumes "code_target P mem" "on_breakpoints Q"
  shows "hoare (seen mem Q) (memdbg_debugger_set_watchpoint P address len ty) (seen mem Q)"
    "hoare (seen mem Q) (memdbg_debugger_clear_watchpoint P address) (seen mem Q)"
    "hoare (seen mem Q) (memdbg_debugger_clear_all_watchpoints P) (seen mem Q)"
  unfolding memdbg_debugger_set_watchpoint_def memdbg_debugger_clear_watchpoint_def
    memdbg_debugger_clear_all_watchpoints_def when_attached_def
  by (intro seen_rules hardware_changes_kept sync_hardware_kept hoare_seen_flags assms; simp)+

section \<open>Polling and stopping\<close>

lemma find_stop_lwp_kept: "code_target P mem \<Longrightarrow> hoare (seen mem Q) (find_stop_lwp P lwps) (seen mem Q)"
  by (induction lwps) (auto intro!: seen_rules)

lemma find_hit_lwp_kept: "code_target P mem \<Longrightarrow> hoare (seen mem Q) (find_hit_lwp P lwps) (seen mem Q)"
  by (induction lwps) (auto intro!: seen_rules)

lemma hoare_cause: "hoare P a Q \<Longrightarrow> (\<And>l. hoare P (b l) Q) \<Longrightarrow> hoare P c Q \<Longrightarrow> hoare P (case_stop_cause a b c v) Q"
  by (cases v) simp_all

lemma report_stop_kept:
  assumes "code_target P mem" "on_breakpoints Q"
  shows "hoare (seen mem Q) (report_stop P) (seen mem Q)"
  unfolding report_stop_def
  by (intro seen_rules hoare_cause get_threads_kept find_stop_lwp_kept find_hit_lwp_kept hoare_seen_flags code_target_keeps assms) simp_all

lemma poll_kept:
  assumes T: "code_target P mem" and L: "stays_alive P" and Q: "on_breakpoints Q"
  shows "hoare (seen mem Q) (memdbg_debugger_poll_events P) (seen mem Q)"
  unfolding memdbg_debugger_poll_events_def when_attached_def
proof (intro hoare_seen_bind [OF hoare_seen_get] hoare_if hoare_seen_return,
    rule hoare_result_bind [where R = "\<lambda>r s. seen mem Q s \<and> r \<noteq> Wait_Gone"], goal_cases)
  case (1 a s)
  then show ?case
    using L hoare_result [OF hoare_seen_sys [OF code_target_keeps(3) [OF T]], of Q]
    by (simp add: wp_sys stays_alive_def)
next
  case (2 a r)
  have "hoare (seen mem Q) (State_Monad.bind (report_stop P) (\<lambda>_. done_with MEMDBG_OK)) (seen mem Q)"
    by (intro seen_rules report_stop_kept T Q)
  then show ?case
    by (cases r) (auto simp: hoare_def wp_simps)
qed

lemma poll_until_stopped_kept:
  assumes "code_target P mem" "stays_alive P" "on_breakpoints Q"
  shows "hoare (seen mem Q) (poll_until_stopped P n) (seen mem Q)"
  by (induction n) (auto intro!: seen_rules poll_kept assms)

lemma stop_kept:
  assumes "code_target P mem" "stays_alive P" "on_breakpoints Q"
  shows "hoare (seen mem Q) (memdbg_debugger_stop P) (seen mem Q)"
  unfolding memdbg_debugger_stop_def when_attached_def
  by (intro seen_rules poll_kept poll_until_stopped_kept code_target_keeps assms)

section \<open>Resuming\<close>

lemma step_over_threads_kept:
  assumes "code_target P mem"
  shows "hoare (seen mem (code_kept v)) (step_over_threads P lwps) (seen mem (code_kept v))"
  by (induction lwps)
    (auto intro!: seen_rules step_over_kept hoare_seen_flags code_kept_on_breakpoints assms)

lemma continue_kept:
  assumes "code_target P mem"
  shows "hoare (seen mem (code_kept v)) (memdbg_debugger_continue P) (seen mem (code_kept v))"
  unfolding memdbg_debugger_continue_def when_attached_def
  by (intro seen_rules sync_hardware_kept get_threads_kept step_over_threads_kept hoare_seen_flags
      code_kept_on_breakpoints code_target_keeps assms) simp_all

lemma step_kept:
  assumes "code_target P mem"
  shows "hoare (seen mem (code_kept v)) (memdbg_debugger_step P lwp) (seen mem (code_kept v))"
  unfolding memdbg_debugger_step_def when_attached_def
  by (intro seen_rules step_over_kept hoare_seen_flags code_kept_on_breakpoints assms) simp_all

section \<open>Attaching and detaching\<close>

lemma view_without_breakpoints: "(\<And>bp. bp \<in> set (g_breakpoints g) \<Longrightarrow> \<not> planted bp) \<Longrightarrow> code_view g m = m"
  by (rule ext) (auto intro!: code_view_free)

text \<open>A state without breakpoints shows the memory as it is.\<close>

definition blank :: "(u64 \<Rightarrow> byte) \<Rightarrow> debugger_state \<Rightarrow> (u64 \<Rightarrow> byte) \<Rightarrow> bool" where
  "blank v g m \<longleftrightarrow> g_breakpoints g = g_breakpoints zero_state \<and> m = v"

lemma blank_kept: "blank v g m \<Longrightarrow> code_kept v g m"
  by (auto simp: blank_def code_kept_def debugger_ok_def zero_state_def zero_breakpoint_def planted_def
      bp_slots.unique_empty [unfolded zero_breakpoint_def] intro!: view_without_breakpoints)

lemma unattached_code: "code_kept v g m \<Longrightarrow> \<not> g_attached g \<Longrightarrow> m = v"
  using view_without_breakpoints [of g m] by (auto simp: code_kept_def debugger_ok_def planted_def)

lemma attach_kept:
  assumes T: "code_target P mem"
  shows "hoare (seen mem (code_kept v)) (memdbg_debugger_attach P pid) (seen mem (code_kept v))"
proof -
  have fresh: "hoare (seen mem (blank v))
      (State_Monad.bind (sys_status (pal_debug_attach P)) (\<lambda>st.
         State_Monad.bind (dbg_set (if st \<noteq> MEMDBG_OK then (\<lambda>_. zero_state)
             else (\<lambda>g. g\<lparr>g_attached := True, g_stopped := True, g_stop_lwp := 0\<rparr>))) (\<lambda>_. done_with st)))
      (seen mem (code_kept v))"
    by (rule hoare_seen_weaken [where Q = "blank v" and R = "blank v"])
      (auto intro!: seen_rules hoare_seen_set T blank_kept simp: blank_def)
  have start: "hoare (seen mem (\<lambda>g m. (code_kept v g m \<and> g_attached g = att) \<and> g_pid g = cur))
      (dbg_set (\<lambda>_. zero_state\<lparr>g_pid := pid\<rparr>)) (seen mem (blank v))" if "\<not> att" for att cur
    using that unattached_code by (auto simp: hoare_def seen_def wp_simps blank_def zero_state_def)
  have body: "hoare (seen mem (\<lambda>g m. (code_kept v g m \<and> g_attached g = att) \<and> g_pid g = cur))
      (if att then done_with (if cur = pid then MEMDBG_OK else Some MEMDBG_ERR_STATE)
       else State_Monad.bind (dbg_set (\<lambda>_. zero_state\<lparr>g_pid := pid\<rparr>)) (\<lambda>_.
         State_Monad.bind (sys_status (pal_debug_attach P)) (\<lambda>st.
         State_Monad.bind (dbg_set (if st \<noteq> MEMDBG_OK then (\<lambda>_. zero_state)
             else (\<lambda>g. g\<lparr>g_attached := True, g_stopped := True, g_stop_lwp := 0\<rparr>))) (\<lambda>_. done_with st))))
      (seen mem (code_kept v))" for att cur
  proof (cases att)
    case True
    show ?thesis unfolding if_P [OF True] by (rule hoare_return) (simp add: seen_def)
  next
    case False
    show ?thesis unfolding if_not_P [OF False] by (rule hoare_bind [OF start [OF False] fresh])
  qed
  show ?thesis
    unfolding memdbg_debugger_attach_def
    by (rule hoare_if, rule hoare_seen_return, rule hoare_if, rule hoare_seen_return, rule hoare_seen_read, rule hoare_seen_read, rule body)
qed

lemma uninstall_all_kept:
  assumes T: "code_target P mem"
  shows "seen mem (\<lambda>g m. code_kept v g m \<and> (\<forall>j\<in>J. \<not> planted (g_breakpoints g ! j))) s \<Longrightarrow>
      \<forall>i\<in>set is. i < MEMDBG_DEBUGGER_MAX_BREAKPOINTS \<Longrightarrow>
      wp (uninstall_all P is) (\<lambda>st. seen mem (\<lambda>g m. code_kept v g m \<and>
        (st = MEMDBG_OK \<longrightarrow> (\<forall>j\<in>J \<union> set is. \<not> planted (g_breakpoints g ! j))))) s"
proof (induction "is" arbitrary: J s)
  case Nil
  then show ?case by (simp add: wp_simps seen_def)
next
  case (Cons i "is")
  let ?bp = "g_breakpoints (fst s) ! i"
  let ?m = "if db_active ?bp \<and> db_kind ?bp = MEMDBG_BP_SOFTWARE then uninstall_sw_breakpoint P i else done_with MEMDBG_OK"
  have k: "code_kept v (fst s) (mem (snd s))" "\<forall>j\<in>J. \<not> planted (g_breakpoints (fst s) ! j)"
    using Cons.prems(1) by (simp_all add: seen_def)
  have one: "wp ?m (\<lambda>st. seen mem (\<lambda>g m. code_kept v g m \<and>
      (\<forall>j\<in>(if st = MEMDBG_OK then insert i J else {}). \<not> planted (g_breakpoints g ! j)))) s"
  proof (cases "db_active ?bp \<and> db_kind ?bp = MEMDBG_BP_SOFTWARE")
    case True
    then have "sw_slot i (fst s)"
      using Cons.prems(2) k(1) by (simp add: sw_slot_def code_kept_def debugger_ok_def)
    from uninstall_kept [OF T k(1) this k(2)] show ?thesis
      unfolding if_P [OF True] by (rule wp_mono) (auto simp: seen_def planted_def)
  next
    case False
    then show ?thesis using k by (auto simp: wp_simps seen_def planted_def)
  qed
  show ?case
    unfolding uninstall_all.simps wp_bind wp_dbg_get
  proof (rule wp_mono [OF one], goal_cases)
    case (1 st t)
    show ?case
      by (rule wp_mono [OF Cons.IH [OF 1]]) (use Cons.prems(2) in \<open>auto simp: wp_return seen_def\<close>)
  qed
qed

definition bare :: "(u64 \<Rightarrow> byte) \<Rightarrow> debugger_state \<Rightarrow> (u64 \<Rightarrow> byte) \<Rightarrow> bool" where
  "bare v g m \<longleftrightarrow> code_kept v g m \<and> (\<forall>bp\<in>set (g_breakpoints g). \<not> planted bp)"

lemma bare_on_breakpoints: "on_breakpoints (bare v)"
proof -
  have "bare v g' m" if "g_breakpoints g' = g_breakpoints g" "g_attached g' = g_attached g" "bare v g m" for g g' m
    using that on_breakpointsD [OF code_kept_on_breakpoints(1), of v g m g'] by (simp add: bare_def)
  then show ?thesis unfolding on_breakpoints_def by blast
qed

lemma bare_code: "bare v g m \<Longrightarrow> m = v"
  using view_without_breakpoints [of g m] by (auto simp: bare_def code_kept_def)

text \<open>The result of a detach: the code is kept, and after success nothing of the session is left.\<close>

abbreviation detached :: "('t \<Rightarrow> u64 \<Rightarrow> byte) \<Rightarrow> (u64 \<Rightarrow> byte) \<Rightarrow> status \<Rightarrow> debugger_state \<times> 't \<Rightarrow> bool" where
  "detached mem v st \<equiv> seen mem (\<lambda>g m. code_kept v g m \<and> (st = MEMDBG_OK \<longrightarrow> g = zero_state))"

lemma release_target_kept:
  assumes T: "code_target P mem" and s: "seen mem (bare v) s"
  shows "wp (release_target P) (detached mem v) s"
proof -
  have last: "wp (State_Monad.bind (sys_status (pal_debug_detach P)) (\<lambda>dst. State_Monad.bind
      (if dst = MEMDBG_OK then dbg_set (\<lambda>_. zero_state) else done_with ()) (\<lambda>_. done_with dst))) (detached mem v) t"
    if "seen mem (bare v) t" for t
    unfolding wp_bind
  proof (rule wp_mono [OF hoare_result [OF hoare_seen_status that]])
    show "keeps mem (pal_debug_detach P)" by (rule code_target_keeps [OF T])
    fix dst u
    assume u: "seen mem (bare v) u"
    then have "mem (snd u) = v" "code_kept v (fst u) (mem (snd u))"
      using bare_code by (auto simp: seen_def bare_def)
    then show "wp (if dst = MEMDBG_OK then dbg_set (\<lambda>_. zero_state) else done_with ()) (\<lambda>_. wp (done_with dst) (detached mem v)) u"
      using blank_kept [of v zero_state v] by (cases dst) (simp_all add: wp_simps seen_def blank_def)
  qed
  have clean: "hoare (seen mem (bare v)) (if valid then apply_dbregs_to_all P False else done_with MEMDBG_OK) (seen mem (bare v))" for valid
    by (intro hoare_if apply_dbregs_kept hoare_seen_return T)
  have "seen mem (bare v) ((fst s)\<lparr>g_dbregs := zero_dbregs\<rparr>, snd s)"
    using s on_breakpointsD [OF bare_on_breakpoints, of v "fst s" _ "(fst s)\<lparr>g_dbregs := zero_dbregs\<rparr>"] by (simp add: seen_def)
  from wp_mono [OF hoare_result [OF clean this] last] show ?thesis
    unfolding release_target_def wp_bind [of "dbg_set _"] wp_bind [of "dbg_get _"] wp_dbg_set wp_dbg_get
    by (simp only: wp_bind [of "if _ then _ else _"])
qed

lemma take_out_kept:
  assumes T: "code_target P mem" and s: "seen mem (code_kept v) s"
  shows "wp (uninstall_all P [0..<MEMDBG_DEBUGGER_MAX_BREAKPOINTS]) (\<lambda>st. seen mem (\<lambda>g m. code_kept v g m \<and>
      (st = MEMDBG_OK \<longrightarrow> bare v g m))) s"
  by (rule wp_mono [OF uninstall_all_kept [OF T, where J = "{}" and v = v]])
    (use s in \<open>auto simp: seen_def bare_def code_kept_def debugger_ok_def in_set_conv_nth\<close>)

lemma detach_kept:
  assumes T: "code_target P mem" and L: "stays_alive P" and s: "seen mem (code_kept v) s"
  shows "wp (memdbg_debugger_detach P) (detached mem v) s"
proof -
  have fails: "seen mem (code_kept v) t \<Longrightarrow> wp (done_with (Some e)) (detached mem v) t" for e t
    by (simp add: wp_return seen_def)
  have tail: "wp (uninstall_all P [0..<MEMDBG_DEBUGGER_MAX_BREAKPOINTS])
      (\<lambda>st. wp (if st \<noteq> MEMDBG_OK then done_with st else release_target P) (detached mem v)) t" if "seen mem (code_kept v) t" for t
    by (rule wp_mono [OF take_out_kept [OF T that]])
      (auto simp: wp_return seen_def intro!: release_target_kept [OF T])
  have stop: "hoare (seen mem (code_kept v)) (if \<not> stopped then memdbg_debugger_stop P else done_with MEMDBG_OK) (seen mem (code_kept v))" for stopped
    by (intro hoare_if stop_kept hoare_seen_return T L code_kept_on_breakpoints)
  have go:
    "wp (if \<not> stopped then memdbg_debugger_stop P else done_with MEMDBG_OK) (\<lambda>st. wp (if st \<noteq> MEMDBG_OK then done_with st
      else State_Monad.bind (uninstall_all P [0..<MEMDBG_DEBUGGER_MAX_BREAKPOINTS])
        (\<lambda>st. if st \<noteq> MEMDBG_OK then done_with st else release_target P)) (detached mem v)) s" for stopped
  proof (rule wp_mono [OF hoare_result [OF stop s]], goal_cases)
    case (1 st t)
    then show ?case using fails [OF 1] tail [OF 1] by (cases st) (simp_all add: wp_bind)
  qed
  show ?thesis
    unfolding memdbg_debugger_detach_def when_attached_def wp_bind [of "dbg_get _"] wp_dbg_get
    using fails [OF s] go [of "g_stopped (fst s)"] by (simp add: wp_bind wp_dbg_get)
qed

section \<open>All requests\<close>

lemma hoare_detach:
  "code_target P mem \<Longrightarrow> stays_alive P \<Longrightarrow> hoare (seen mem (code_kept v)) (memdbg_debugger_detach P) (seen mem (code_kept v))"
  by (rule hoareI, rule wp_mono [OF detach_kept]) (auto simp: seen_def)

lemma conditional_attach_kept:
  assumes "code_target P mem" "stays_alive P"
  shows "hoare (seen mem (code_kept v)) (memdbg_debugger_conditional_attach P pid) (seen mem (code_kept v))"
  unfolding memdbg_debugger_conditional_attach_def
  by (intro seen_rules hoare_detach attach_kept assms)

lemma quiet_kept: "hoare (seen mem Q) m (seen mem Q) \<Longrightarrow> hoare (seen mem Q) (quiet m) (seen mem Q)"
  unfolding quiet_def by (intro seen_rules)

lemmas requests_kept = quiet_kept attach_kept conditional_attach_kept hoare_detach stop_kept continue_kept step_kept poll_kept
  register_requests_kept set_breakpoint_kept clear_breakpoint_kept clear_all_kept watchpoint_requests_kept get_threads_request_kept set_dbregs_kept
  code_kept_on_breakpoints

lemma serve_request_kept:
  assumes "code_target P mem" "stays_alive P" "r = Clear_All_Breakpoints \<longrightarrow> code_writable P"
  shows "hoare (seen mem (code_kept v)) (serve_request P r) (seen mem (code_kept v))"
  by (cases r) (use assms in \<open>simp_all add: requests_kept\<close>)

lemma serve_requests_kept:
  assumes "code_target P mem" "stays_alive P" "Clear_All_Breakpoints \<in> set rs \<longrightarrow> code_writable P" "seen mem (code_kept v) s"
  shows "seen mem (code_kept v) (serve_requests P rs s)"
  using assms(3,4) unfolding serve_requests_def
proof (induction rs arbitrary: s)
  case (Cons r rs)
  then have "seen mem (code_kept v) (snd (run_state (serve_request P r) s))"
    by (intro hoareD [OF serve_request_kept [OF assms(1,2)]]) auto
  with Cons show ?case by simp
qed simp

text \<open>C6. On a target that keeps the contract of the platform and does not exit, a sequence of requests
  keeps the debugger's tables consistent (one slot for an address, an \<^verbatim>\<open>INT3\<close> in memory for every
  planted breakpoint, no breakpoint without a session), and the code seen without the breakpoints
  is the same before and after, whichever primitives of the platform fail on the way. One request
  is an exception: when the removal of all breakpoints is among them, the writes of a byte to the
  code have to succeed, since that operation forgets a breakpoint whose byte it could not put back.\<close>

theorem debugger_keeps_code:
  assumes "code_target P mem" "stays_alive P" "Clear_All_Breakpoints \<in> set rs \<longrightarrow> code_writable P" "debugger_ok g (mem t)"
    and "serve_requests P rs (g, t) = (g', t')"
  shows "debugger_ok g' (mem t') \<and> code_view g' (mem t') = code_view g (mem t)"
  using serve_requests_kept [OF assms(1-3), of "code_view g (mem t)" "(g, t)"] assms(4,5)
  by (simp add: seen_def code_kept_def)

text \<open>C5. A session leaves no trace on a target that keeps the contract of the platform and does not
  exit: when a debugger with no session serves requests and then a detach that reports success,
  every byte of the code is what it was, and the debugger has no session, whichever primitives
  failed on the way. When the removal of all breakpoints is among the requests, the writes of a
  byte to the code have to succeed.\<close>

theorem session_restores_code:
  assumes "code_target P mem" "stays_alive P" "Clear_All_Breakpoints \<in> set rs \<longrightarrow> code_writable P"
    and "serve_requests P rs (zero_state, t) = s" "run_state (memdbg_debugger_detach P) s = (MEMDBG_OK, g', t')"
  shows "mem t' = mem t \<and> g' = zero_state"
proof -
  have "seen mem (code_kept (mem t)) (zero_state, t)"
    by (simp add: seen_def blank_kept blank_def)
  then have "seen mem (code_kept (mem t)) s"
    using serve_requests_kept [OF assms(1-3)] assms(4) by blast
  from wp_runD [OF detach_kept [OF assms(1,2) this] assms(5)]
  have "code_kept (mem t) zero_state (mem t')" "g' = zero_state" by (auto simp: seen_def)
  moreover from this(1) have "mem t' = mem t" by (rule unattached_code) (simp add: zero_state_def)
  ultimately show ?thesis by simp
qed

end
