(* ===== verification/Debug_Hardware.thy ===== *)
theory Debug_Hardware
  imports Debug_Correct
begin

text \<open>
  The debug registers (\<^verbatim>\<open>src/src/debug/session/breakpoints.c\<close>): the control word encodes the
  table of watchpoints as the processor reads it, and the strict update of the threads reaches all
  of them or is taken back wherever the platform allows it.
\<close>

unbundle bit_operations_syntax

section \<open>The control word\<close>

text \<open>
  How the processor reads \<^verbatim>\<open>DR7\<close>: slot \<open>i\<close> is armed by bit \<open>2 i\<close> (for the task) or \<open>2 i + 1\<close>
  (for all), and four bits from \<open>16 + 4 i\<close> say which accesses are trapped and how many bytes are
  watched.
\<close>

datatype access = On_Execute | On_Write | On_Port | On_Access

definition access_of :: "u32 \<Rightarrow> access" where
  "access_of rw = (if rw = 0 then On_Execute else if rw = 1 then On_Write else if rw = 2 then On_Port else On_Access)"

definition bytes_of :: "u32 \<Rightarrow> nat" where
  "bytes_of len = (if len = 0 then 1 else if len = 1 then 2 else if len = 2 then 8 else 4)"

definition decode_dr7 :: "u32 \<Rightarrow> nat \<Rightarrow> (access \<times> nat) option" where
  "decode_dr7 d i =
     (if bit d (2 * i) \<or> bit d (2 * i + 1)
      then Some (access_of (take_bit 2 (drop_bit (16 + 4 * i) d)), bytes_of (take_bit 2 (drop_bit (18 + 4 * i) d)))
      else None)"

text \<open>What a slot of the table asks for.\<close>

definition wanted :: "watchpoint \<Rightarrow> (access \<times> nat) option" where
  "wanted w =
     (if \<not> dw_installed w then None
      else Some (if dw_type w = 0 then On_Execute else if dw_type w = 1 then On_Write else On_Access,
                 if dw_length w \<in> {1, 2, 8} then unat (dw_length w) else 4))"

definition in_slot :: "nat \<Rightarrow> watchpoint \<Rightarrow> nat \<Rightarrow> bool" where
  "in_slot i w n \<longleftrightarrow> dw_installed w \<and> (n = 2 * i \<or> n = 2 * i + 1 \<or>
     (n = 16 + 4 * i \<and> bit (dr7_rw (dw_type w)) 0) \<or> (n = 17 + 4 * i \<and> bit (dr7_rw (dw_type w)) 1) \<or>
     (n = 18 + 4 * i \<and> bit (dr7_len (dw_length w)) 0) \<or> (n = 19 + 4 * i \<and> bit (dr7_len (dw_length w)) 1))"

lemma two_bits: "bit (dr7_rw ty) k \<Longrightarrow> k = 0 \<or> k = 1" "bit (dr7_len len) k \<Longrightarrow> k = 0 \<or> k = 1"
  by (auto simp: dr7_rw_def dr7_len_def bit_numeral_rec bit_1_iff split: if_splits nat.splits)

lemma bit_push_two:
  fixes w :: u32
  assumes "\<And>k. bit w k \<Longrightarrow> k = 0 \<or> k = 1" "n < 32"
  shows "bit (push_bit s w) n \<longleftrightarrow> n = s \<and> bit w 0 \<or> n = s + 1 \<and> bit w 1"
proof -
  have "bit (push_bit s w) n \<longleftrightarrow> s \<le> n \<and> bit w (n - s)"
    using assms(2) by (simp add: bit_push_bit_iff)
  also have "\<dots> \<longleftrightarrow> n = s \<and> bit w 0 \<or> n = s + 1 \<and> bit w 1"
    using assms(1) [of "n - s"] by (cases "n - s = 0 \<or> n - s = 1") (auto simp: le_Suc_eq)
  finally show ?thesis .
qed

lemma bit_one_only: "bit (1 :: u32) k \<Longrightarrow> k = 0 \<or> k = 1"
  by (simp add: bit_1_iff)

lemma bit_dr7_slot:
  assumes "n < 32"
  shows "bit (dr7_slot i w d) n \<longleftrightarrow> bit d n \<or> in_slot i w n"
proof (cases "dw_installed w")
  case True
  have push: "bit (push_bit s (dr7_rw ty)) n \<longleftrightarrow> n = s \<and> bit (dr7_rw ty) 0 \<or> n = s + 1 \<and> bit (dr7_rw ty) 1"
    "bit (push_bit s (dr7_len len)) n \<longleftrightarrow> n = s \<and> bit (dr7_len len) 0 \<or> n = s + 1 \<and> bit (dr7_len len) 1"
    "bit (push_bit s (1 :: u32)) n \<longleftrightarrow> n = s \<and> bit (1 :: u32) 0 \<or> n = s + 1 \<and> bit (1 :: u32) 1" for s ty len
    by (rule bit_push_two [OF _ assms], erule two_bits bit_one_only)+
  show ?thesis
    unfolding dr7_slot_def in_slot_def Let_def if_not_P [OF True [THEN not_not [THEN iffD2]]] bit_or_iff push
    using True by (auto simp: bit_1_iff mult.commute)
qed (simp add: dr7_slot_def in_slot_def)

lemma build_dr7_unfold: "build_dr7 wps = dr7_slot 3 (wps ! 3) (dr7_slot 2 (wps ! 2) (dr7_slot 1 (wps ! 1) (dr7_slot 0 (wps ! 0) 0)))"
  by (simp add: build_dr7_def MEMDBG_DEBUGGER_MAX_WATCHPOINTS_def upt_rec numeral_eq_Suc)

lemma bit_build_dr7:
  "n < 32 \<Longrightarrow> bit (build_dr7 wps) n \<longleftrightarrow> in_slot 0 (wps ! 0) n \<or> in_slot 1 (wps ! 1) n \<or> in_slot 2 (wps ! 2) n \<or> in_slot 3 (wps ! 3) n"
  by (auto simp: build_dr7_unfold bit_dr7_slot)

lemma two_bit_field:
  fixes d w :: u32
  assumes "bit d s = bit w 0" "bit d (s + 1) = bit w 1" "\<And>k. bit w k \<Longrightarrow> k = 0 \<or> k = 1"
  shows "take_bit 2 (drop_bit s d) = w"
proof (rule bit_eqI)
  fix k
  show "bit (take_bit 2 (drop_bit s d)) k = bit w k"
    using assms by (cases "k = 0"; cases "k = 1") (auto simp: bit_take_bit_iff bit_drop_bit_eq)
qed

text \<open>C8. The control word that the debugger writes to every thread means the table: for each of the
  four slots the processor reads from it that the slot is armed exactly when it is installed, for
  which kind of access, and for how many bytes.\<close>

theorem build_dr7_correct:
  "map (decode_dr7 (build_dr7 wps)) [0, 1, 2, 3] = map (\<lambda>i. wanted (wps ! i)) [0, 1, 2, 3]"
proof -
  have armed: "bit (build_dr7 wps) (2 * i) \<longleftrightarrow> dw_installed (wps ! i)" "bit (build_dr7 wps) (2 * i + 1) \<longleftrightarrow> dw_installed (wps ! i)"
    and field: "dw_installed (wps ! i) \<Longrightarrow> take_bit 2 (drop_bit (16 + 4 * i) (build_dr7 wps)) = dr7_rw (dw_type (wps ! i))"
      "dw_installed (wps ! i) \<Longrightarrow> take_bit 2 (drop_bit (18 + 4 * i) (build_dr7 wps)) = dr7_len (dw_length (wps ! i))"
    if "i \<in> {0, 1, 2, 3}" for i
    using that by (auto simp: bit_build_dr7 in_slot_def intro!: two_bit_field dest: two_bits)
  have "decode_dr7 (build_dr7 wps) i = wanted (wps ! i)" if "i \<in> {0, 1, 2, 3}" for i
    using armed [OF that] field [OF that]
    by (auto simp: decode_dr7_def wanted_def access_of_def bytes_of_def dr7_rw_def dr7_len_def)
  then show ?thesis by simp
qed

section \<open>The strict update of all threads\<close>

text \<open>
  The hypotheses on the platform, with \<open>regs\<close> the debug registers of each thread: listing the
  threads and reading registers change none, reading returns the registers of the thread, and a
  write stores the registers when it reports success and changes nothing when it is refused.
  Nothing is said of when a write is refused: a thread may accept one write and refuse the next.
\<close>

definition dbregs_target :: "'t pal \<Rightarrow> ('t \<Rightarrow> int \<Rightarrow> dbregs) \<Rightarrow> bool" where
  "dbregs_target P regs \<longleftrightarrow>
     (\<forall>n. keeps regs (pal_debug_get_thread_list P n)) \<and> (\<forall>lwp. keeps regs (pal_debug_get_dbregs P lwp)) \<and>
     (\<forall>lwp pid t r. fst (pal_debug_get_dbregs P lwp pid t) = Inr r \<longrightarrow> r = regs t lwp) \<and>
     (\<forall>lwp r pid t. regs (snd (pal_debug_set_dbregs P lwp r pid t)) =
        (if fst (pal_debug_set_dbregs P lwp r pid t) = None then (regs t)(lwp := r) else regs t))"

text \<open>After the attempts, the threads with a result hold the new registers and the result is what they had.\<close>

definition attempted :: "('t \<Rightarrow> int \<Rightarrow> dbregs) \<Rightarrow> dbregs \<Rightarrow> 't \<Rightarrow> (int \<times> (errno + dbregs)) list \<Rightarrow> 't \<Rightarrow> bool" where
  "attempted regs new t rs t' \<longleftrightarrow>
     (\<forall>l. regs t' l = (if \<exists>r. (l, Inr r) \<in> set rs then new else regs t l)) \<and>
     (\<forall>l r. (l, Inr r) \<in> set rs \<longrightarrow> r = regs t l)"

lemma attempted_changed:
  assumes "attempted regs new t1 rs t'" "regs t1 = (regs t)(l := new)" and fresh: "\<And>x. (l, x) \<notin> set rs"
  shows "attempted regs new t ((l, Inr (regs t l)) # rs) t'"
proof -
  have "k \<noteq> l" if "(k, x) \<in> set rs" for k x using that fresh by blast
  then show ?thesis using assms(1,2) unfolding attempted_def by (auto split: if_splits)
qed

lemma attempted_refused:
  "attempted regs new t1 rs t' \<Longrightarrow> regs t1 = regs t \<Longrightarrow> attempted regs new t ((l, Inl e) # rs) t'"
  by (simp add: attempted_def)

lemma set_all_attempted:
  assumes T: "dbregs_target P regs"
  shows "distinct lwps \<Longrightarrow> wp (set_all_dbregs P new lwps) (\<lambda>rs s'. fst s' = fst s \<and> length rs = length lwps \<and>
           attempted regs new (snd s) (zip lwps rs) (snd s')) s"
proof (induction lwps arbitrary: s)
  case Nil
  then show ?case by (simp add: wp_simps attempted_def)
next
  case (Cons lwp lwps)
  let ?g = "pal_debug_get_dbregs P lwp (g_pid (fst s)) (snd s)"
  let ?s = "pal_debug_set_dbregs P lwp new (g_pid (fst s)) (snd ?g)"
  have g: "regs (snd ?g) = regs (snd s)" "fst ?g = Inr r \<Longrightarrow> r = regs (snd s) lwp" for r
    using T by (auto simp: dbregs_target_def keeps_def)
  have st: "regs (snd ?s) = (if fst ?s = None then (regs (snd s))(lwp := new) else regs (snd s))"
    using T g(1) by (simp add: dbregs_target_def)
  have fresh: "(lwp, x) \<notin> set (zip lwps rs)" for x rs
    using Cons.prems by (auto dest: set_zip_leftD)
  show ?case
  proof (cases "fst ?g")
    case (Inl e)
    show ?thesis
      using wp_mono [OF Cons.IH [of "(fst s, snd ?g)"]] Cons.prems g(1)
      by (simp add: wp_simps Inl attempted_def)
  next
    case (Inr r)
    have "wp (set_all_dbregs P new lwps) (\<lambda>rs s'. fst s' = fst s \<and> length rs = length lwps \<and>
        attempted regs new (snd ?s) (zip lwps rs) (snd s')) (fst s, snd ?s)"
      using Cons.IH [of "(fst s, snd ?s)"] Cons.prems by simp
    then have "wp (set_all_dbregs P new lwps) (\<lambda>rs s'. fst s' = fst s \<and> length rs = length lwps \<and>
        attempted regs new (snd s) ((lwp, case fst ?s of Some e \<Rightarrow> Inl e | None \<Rightarrow> Inr r) # zip lwps rs) (snd s')) (fst s, snd ?s)"
    proof (rule wp_mono, goal_cases)
      case (1 rs s')
      then show ?case
        using st g(2) [OF Inr] attempted_changed [of regs new "snd ?s" "zip lwps rs" "snd s'" "snd s" lwp, OF _ _ fresh]
        by (cases "fst ?s") (auto intro: attempted_refused)
    qed
    then show ?thesis by (simp add: wp_simps Inr)
  qed
qed

text \<open>
  What the roll-back makes of a thread that was changed: it has its registers \<open>r\<close> back, or it still
  has the new ones and the platform refused to give it the old ones.
\<close>

definition given_back :: "'t pal \<Rightarrow> ('t \<Rightarrow> int \<Rightarrow> dbregs) \<Rightarrow> dbregs \<Rightarrow> int \<Rightarrow> int \<Rightarrow> dbregs \<Rightarrow> 't \<Rightarrow> bool" where
  "given_back P regs new pid l r t' \<longleftrightarrow> regs t' l = r \<or>
     regs t' l = new \<and> (\<exists>u. regs u l = new \<and> fst (pal_debug_set_dbregs P l r pid u) \<noteq> None)"

lemma given_back_cong: "regs t' l = regs t l \<Longrightarrow> given_back P regs new pid l r t \<Longrightarrow> given_back P regs new pid l r t'"
  by (simp add: given_back_def)

lemma roll_back_gives_back:
  assumes T: "dbregs_target P regs"
  shows "distinct (map fst rs) \<Longrightarrow> (\<And>l r. (l, Inr r) \<in> set rs \<Longrightarrow> regs (snd s) l = new) \<Longrightarrow>
     wp (roll_back P rs) (\<lambda>_ s'. fst s' = fst s \<and>
       (\<forall>l. (\<forall>r. (l, Inr r) \<notin> set rs) \<longrightarrow> regs (snd s') l = regs (snd s) l) \<and>
       (\<forall>l r. (l, Inr r) \<in> set rs \<longrightarrow> given_back P regs new (g_pid (fst s)) l r (snd s'))) s"
proof (induction rs arbitrary: s)
  case Nil
  then show ?case by (simp add: wp_simps)
next
  case (Cons x rest)
  obtain lwp res where x: "x = (lwp, res)" by force
  show ?case
  proof (cases res)
    case (Inl e)
    have "wp (roll_back P rest) (\<lambda>_ s'. fst s' = fst s \<and>
       (\<forall>l. (\<forall>r. (l, Inr r) \<notin> set rest) \<longrightarrow> regs (snd s') l = regs (snd s) l) \<and>
       (\<forall>l r. (l, Inr r) \<in> set rest \<longrightarrow> given_back P regs new (g_pid (fst s)) l r (snd s'))) s"
      by (rule Cons.IH) (use Cons.prems in auto)
    then show ?thesis by (simp add: x Inl)
  next
    case (Inr r)
    let ?s = "pal_debug_set_dbregs P lwp r (g_pid (fst s)) (snd s)"
    have set: "regs (snd ?s) = (if fst ?s = None then (regs (snd s))(lwp := r) else regs (snd s))"
      using T by (simp add: dbregs_target_def)
    have new: "regs (snd s) lwp = new" using Cons.prems(2) [of lwp r] x Inr by simp
    have fresh: "(lwp, y) \<notin> set rest" for y using Cons.prems(1) x by force
    have here: "given_back P regs new (g_pid (fst s)) lwp r (snd ?s)"
      using set new by (auto simp: given_back_def)
    have "regs (snd ?s) l = new" if "(l, Inr r') \<in> set rest" for l r'
    proof -
      have "l \<noteq> lwp" using that fresh by blast
      then show ?thesis using Cons.prems(2) [of l r'] that set by simp
    qed
    with Cons.IH [of "(fst s, snd ?s)"] Cons.prems(1)
    have rest: "wp (roll_back P rest) (\<lambda>_ s'. fst s' = fst s \<and>
       (\<forall>l. (\<forall>r. (l, Inr r) \<notin> set rest) \<longrightarrow> regs (snd s') l = regs (snd ?s) l) \<and>
       (\<forall>l r. (l, Inr r) \<in> set rest \<longrightarrow> given_back P regs new (g_pid (fst s)) l r (snd s'))) (fst s, snd ?s)"
      by simp
    have "wp (roll_back P rest) (\<lambda>_ s'. fst s' = fst s \<and>
       (\<forall>l. (\<forall>r. (l, Inr r) \<notin> set (x # rest)) \<longrightarrow> regs (snd s') l = regs (snd s) l) \<and>
       (\<forall>l r. (l, Inr r) \<in> set (x # rest) \<longrightarrow> given_back P regs new (g_pid (fst s)) l r (snd s'))) (fst s, snd ?s)"
    proof (rule wp_mono [OF rest], goal_cases)
      case (1 a s')
      then have returned: "given_back P regs new (g_pid (fst s)) lwp r (snd s')"
        using here fresh by (blast intro: given_back_cong)
      have "regs (snd s') l = regs (snd s) l" if "\<forall>r. (l, Inr r) \<notin> set (x # rest)" for l
        using that 1 set by (auto simp: x Inr)
      then show ?case using 1 returned by (auto simp: x Inr)
    qed
    then show ?thesis by (simp add: x Inr wp_simps)
  qed
qed

lemma threads_quiet:
  assumes "dbregs_target P regs"
  shows "wp (get_threads_locked P n) (\<lambda>r s'. fst s' = fst s \<and> regs (snd s') = regs (snd s)) s"
  using assms by (simp add: get_threads_locked_def list_threads_def wp_simps dbregs_target_def keeps_def)

lemma no_errors: "errors_of rs = [] \<Longrightarrow> length rs = length xs \<Longrightarrow> x \<in> set xs \<Longrightarrow> \<exists>r. (x, Inr r) \<in> set (zip xs rs)"
  by (induction xs rs rule: list_induct2') (auto simp: errors_of_def split: sum.splits)

text \<open>The update of the threads that were listed, without an allowance for the ones that refuse.\<close>

definition updated :: "'t pal \<Rightarrow> ('t \<Rightarrow> int \<Rightarrow> dbregs) \<Rightarrow> int list \<Rightarrow> debugger_state \<Rightarrow> 't \<Rightarrow> status \<Rightarrow> 't \<Rightarrow> bool" where
  "updated P regs lwps g t st t' \<longleftrightarrow>
     (\<forall>l. l \<notin> set lwps \<longrightarrow> regs t' l = regs t l) \<and>
     (\<forall>l\<in>set lwps. if st = MEMDBG_OK then regs t' l = g_dbregs g
        else given_back P regs (g_dbregs g) (g_pid g) l (regs t l) t')"

lemma update_strict:
  assumes T: "dbregs_target P regs" and d: "distinct lwps"
  shows "wp (update_threads P False lwps) (\<lambda>st s'. fst s' = fst s \<and> updated P regs lwps (fst s) (snd s) st (snd s')) s"
  unfolding update_threads_def wp_bind [of "dbg_get _"] wp_bind [of "set_all_dbregs _ _ _"] wp_dbg_get
proof (rule wp_mono [OF set_all_attempted [OF T d]], goal_cases)
  case (1 results s')
  then have tried: "attempted regs (g_dbregs (fst s)) (snd s) (zip lwps results) (snd s')" "fst s' = fst s" "length results = length lwps"
    by simp_all
  show ?case
  proof (cases "errors_of results = []")
    case True
    then show ?thesis using tried no_errors [OF True, of lwps] by (auto simp: wp_simps attempted_def updated_def dest: set_zip_leftD)
  next
    case False
    have dz: "distinct (map fst (zip lwps results))" using d tried by simp
    have "wp (roll_back P (zip lwps results)) (\<lambda>_ u. fst u = fst s \<and>
        (\<forall>st. st \<noteq> MEMDBG_OK \<longrightarrow> updated P regs lwps (fst s) (snd s) st (snd u))) s'"
    proof (rule wp_mono [OF roll_back_gives_back [OF T dz, of s' "g_dbregs (fst s)"]], goal_cases)
      case (1 l r)
      then show ?case using tried(1) by (auto simp: attempted_def)
    next
      case (2 a u)
      have "regs (snd u) l = regs (snd s) l" if "\<forall>r. (l, Inr r) \<notin> set (zip lwps results)" for l
        using 2 that tried(1) by (auto simp: attempted_def)
      moreover have "given_back P regs (g_dbregs (fst s)) (g_pid (fst s)) l (regs (snd s) l) (snd u)"
        if "(l, Inr r) \<in> set (zip lwps results)" for l r
        using 2 that tried by (auto simp: attempted_def)
      ultimately show ?case
        using 2 tried(2) unfolding updated_def given_back_def by (metis set_zip_leftD)
    qed
    then have "wp (roll_back P (zip lwps results)) (\<lambda>_ u. fst u = fst s \<and>
        updated P regs lwps (fst s) (snd s) (Some (pal_status_from_errno_code (last (errors_of results)))) (snd u)) s'"
      by (rule wp_mono) simp
    then show ?thesis by (simp add: False wp_simps)
  qed
qed

text \<open>C7. The strict update of the debug registers, by which watchpoints are removed. When it reports
  success every listed thread has the new registers. When it reports an error, whichever thread it
  was that could not be read or refused, every thread has the registers it had before, with one
  exception: a thread that took the new registers and to which the platform then refused to give
  back the old ones keeps the new ones (a roll-back that fails is only logged). No thread is left
  with anything else, threads that are not listed are not touched, and the cached state does not
  change. The threads of the list are distinct.\<close>

theorem dbregs_update_atomic:
  assumes T: "dbregs_target P regs"
    and threads: "fst (run_state (get_threads_locked P MEMDBG_DEBUGGER_MAX_THREADS) (g, t)) = Inr lwps" "distinct lwps"
    and run: "run_state (apply_dbregs_to_all P False) (g, t) = (st, g', t')"
  shows "g' = g \<and> (\<forall>l. l \<notin> set lwps \<longrightarrow> regs t' l = regs t l) \<and>
    (\<forall>l\<in>set lwps. if st = MEMDBG_OK then regs t' l = g_dbregs g
       else regs t' l = regs t l \<or> regs t' l = g_dbregs g \<and>
         (\<exists>u. regs u l = g_dbregs g \<and> fst (pal_debug_set_dbregs P l (regs t l) (g_pid g) u) \<noteq> None))"
proof -
  have list: "wp (get_threads_locked P MEMDBG_DEBUGGER_MAX_THREADS)
      (\<lambda>r s'. r = Inr lwps \<and> fst s' = g \<and> regs (snd s') = regs t) (g, t)"
    using threads(1) threads_quiet [OF T, of MEMDBG_DEBUGGER_MAX_THREADS "(g, t)"] by (simp add: wp_iff_run)
  have "wp (apply_dbregs_to_all P False) (\<lambda>st s'. fst s' = g \<and> updated P regs lwps g t st (snd s')) (g, t)"
    unfolding apply_dbregs_to_all_def wp_bind
  proof (rule wp_mono [OF list], goal_cases)
    case (1 r s)
    then have "updated P regs lwps g (snd s) st t' = updated P regs lwps g t st t'" for st t'
      by (simp add: updated_def)
    then show ?case
      using 1 update_strict [OF T threads(2), of s] by (auto simp: wp_simps updated_def given_back_def elim!: wp_mono [of "update_threads P False lwps"])
  qed
  from wp_runD [OF this run] show ?thesis by (auto simp: updated_def given_back_def)
qed

end
