(* ===== verification/Debug_Errors.thy ===== *)
theory Debug_Errors
  imports Debug_Session_Correct Debug_Hardware
begin

text \<open>
  Where the debugger (\<^verbatim>\<open>src/src/debug/session/breakpoints.c\<close>, \<^verbatim>\<open>debugger.c\<close>) does not keep
  what it promises: the removal of all breakpoints, the removal of a hardware breakpoint that shares
  its address with a watchpoint, and a breakpoint whose condition is false.
\<close>

section \<open>Clearing all breakpoints\<close>

lemma clear_slot_table:
  "wp (clear_slot P i) (\<lambda>_ s'. g_breakpoints (fst s') = (g_breakpoints (fst s))[i := zero_breakpoint] \<and>
      g_attached (fst s') = g_attached (fst s)) s"
  by (auto simp: clear_slot_def uninstall_sw_breakpoint_def debugger_memory_write_def wp_simps put_watchpoint_def split: option.split)

text \<open>The slots that are in use are released and counted.\<close>

lemma clear_slots_table:
  "distinct is \<Longrightarrow> \<forall>i\<in>set is. i < length (g_breakpoints (fst s)) \<Longrightarrow> wp (clear_slots P is) (\<lambda>c s'.
      length (g_breakpoints (fst s')) = length (g_breakpoints (fst s)) \<and>
      (\<forall>j. db_active (g_breakpoints (fst s') ! j) \<longleftrightarrow> j \<notin> set is \<and> db_active (g_breakpoints (fst s) ! j)) \<and>
      c = word_of_nat (length (filter (\<lambda>i. db_active (g_breakpoints (fst s) ! i)) is))) s"
proof (induction "is" arbitrary: s)
  case Nil
  then show ?case by (simp add: wp_simps)
next
  case (Cons i "is")
  show ?case
  proof (cases "db_active (g_breakpoints (fst s) ! i)")
    case True
    have "wp (clear_slot P i) (\<lambda>_ t. wp (clear_slots P is) (\<lambda>c s'.
      length (g_breakpoints (fst s')) = length (g_breakpoints (fst s)) \<and>
      (\<forall>j. db_active (g_breakpoints (fst s') ! j) \<longleftrightarrow> j \<notin> set (i # is) \<and> db_active (g_breakpoints (fst s) ! j)) \<and>
      c = word_of_nat (length (filter (\<lambda>i. db_active (g_breakpoints (fst s) ! i)) is))) t) s"
    proof (rule wp_mono [OF clear_slot_table], goal_cases)
      case (1 a t)
      then have "filter (\<lambda>i. db_active (g_breakpoints (fst t) ! i)) is = filter (\<lambda>i. db_active (g_breakpoints (fst s) ! i)) is"
        using Cons.prems(1) by (intro filter_cong) (auto simp: nth_update_any)
      moreover have "wp (clear_slots P is) (\<lambda>c s'. length (g_breakpoints (fst s')) = length (g_breakpoints (fst t)) \<and>
        (\<forall>j. db_active (g_breakpoints (fst s') ! j) \<longleftrightarrow> j \<notin> set is \<and> db_active (g_breakpoints (fst t) ! j)) \<and>
        c = word_of_nat (length (filter (\<lambda>i. db_active (g_breakpoints (fst t) ! i)) is))) t"
        using Cons.prems 1 by (intro Cons.IH) auto
      ultimately show ?case
        using 1 Cons.prems(2) by (elim wp_mono) (auto simp: nth_update_any zero_breakpoint_def)
    qed
    with True show ?thesis by (auto simp: wp_simps elim!: wp_mono)
  next
    case False
    have "wp (clear_slots P is) (\<lambda>c s'.
      length (g_breakpoints (fst s')) = length (g_breakpoints (fst s)) \<and>
      (\<forall>j. db_active (g_breakpoints (fst s') ! j) \<longleftrightarrow> j \<notin> set is \<and> db_active (g_breakpoints (fst s) ! j)) \<and>
      c = word_of_nat (length (filter (\<lambda>i. db_active (g_breakpoints (fst s) ! i)) is))) s"
      using Cons.prems by (intro Cons.IH) auto
    with False show ?thesis by (auto simp: wp_simps elim!: wp_mono)
  qed
qed

text \<open>A byte that cannot be written stays what it is.\<close>

definition unwritable :: "'t pal \<Rightarrow> u64 \<Rightarrow> bool" where
  "unwritable P a \<longleftrightarrow> (\<forall>b pid t. fst (pal_memory_write P a [b] pid t) \<noteq> Inr 1)"

lemma unwritable_byte:
  assumes "code_target P mem" "unwritable P a"
  shows "mem (snd (pal_memory_write P a' [b] pid t)) a = mem t a"
  using assms by (auto simp: code_target_write unwritable_def)

lemma clear_slots_byte:
  assumes T: "code_target P mem" and U: "unwritable P a"
  shows "hoare (seen mem (\<lambda>g m. m a = x)) (clear_slots P is) (seen mem (\<lambda>g m. m a = x))"
proof -
  have put: "hoare (seen mem (\<lambda>g m. m a = x)) (dbg_set f) (seen mem (\<lambda>g m. m a = x))" for f
    by (rule hoareI) (simp add: seen_def wp_simps)
  have out: "hoare (seen mem (\<lambda>g m. m a = x)) (uninstall_sw_breakpoint P i) (seen mem (\<lambda>g m. m a = x))" for i
    by (rule hoareI) (auto simp: uninstall_sw_breakpoint_def debugger_memory_write_def wp_simps seen_def unwritable_byte [OF T U])
  have one: "hoare (seen mem (\<lambda>g m. m a = x)) (clear_slot P i) (seen mem (\<lambda>g m. m a = x))" for i
    unfolding clear_slot_def by (intro seen_rules put out)
  show ?thesis by (induction "is") (auto intro!: seen_rules one)
qed

text \<open>C36. The removal of all breakpoints forgets a breakpoint that it could not take out. Where the
  byte under a planted breakpoint cannot be written, the operation reports success and counts every
  breakpoint in use as cleared, no slot is in use afterwards, and the \<^verbatim>\<open>INT3\<close> is still in memory: the
  byte of the program, which the debugger could show before, is lost. (Clearing the one breakpoint
  reports the error and keeps the slot.)\<close>

theorem clear_all_leaves_ghost:
  assumes T: "code_target P mem" and ok: "debugger_ok g (mem t)" "g_attached g"
    and bp: "bp \<in> set (g_breakpoints g)" "planted bp" and U: "unwritable P (db_address bp)"
    and run: "run_state (memdbg_debugger_clear_all_breakpoints P) (g, t) = (r, g', t')"
  shows "r = (MEMDBG_OK, word_of_nat (length (filter db_active (g_breakpoints g)))) \<and>
    (\<forall>b\<in>set (g_breakpoints g'). \<not> db_active b) \<and> mem t' (db_address bp) = INT3_OPCODE \<and>
    code_view g (mem t) (db_address bp) = db_original_byte bp \<and> code_view g' (mem t') (db_address bp) = INT3_OPCODE"
proof -
  let ?a = "db_address bp" and ?n = "word_of_nat (length (filter db_active (g_breakpoints g))) :: u32"
  let ?Q = "\<lambda>g m. (\<forall>b\<in>set (g_breakpoints g). \<not> db_active b) \<and> m ?a = INT3_OPCODE"
  have len: "length (g_breakpoints g) = MEMDBG_DEBUGGER_MAX_BREAKPOINTS" and byte: "seen mem (\<lambda>g m. m ?a = INT3_OPCODE) (g, t)"
    using ok bp by (auto simp: debugger_ok_def seen_def)
  have count: "length (filter (\<lambda>i. db_active (g_breakpoints g ! i)) [0..<MEMDBG_DEBUGGER_MAX_BREAKPOINTS]) =
      length (filter db_active (g_breakpoints g))"
    unfolding len [symmetric] using filter_map [of db_active "(!) (g_breakpoints g)" "[0..<length (g_breakpoints g)]"]
    by (simp add: map_nth comp_def)
  have Q: "on_breakpoints ?Q" by (auto simp: on_breakpoints_def)
  have "wp (clear_slots P [0..<MEMDBG_DEBUGGER_MAX_BREAKPOINTS]) (\<lambda>c s. c = ?n \<and> seen mem ?Q s) (g, t)"
    using wp_conj [THEN iffD2, OF conjI, OF clear_slots_table [of "[0..<MEMDBG_DEBUGGER_MAX_BREAKPOINTS]" "(g, t)" P]
        hoare_result [OF clear_slots_byte [OF T U] byte]] len count
    by (auto simp: seen_def in_set_conv_nth elim!: wp_mono)
  then have "wp (memdbg_debugger_clear_all_breakpoints P) (\<lambda>r s. r = (MEMDBG_OK, ?n) \<and> seen mem ?Q s) (g, t)"
    using ok(2) hoare_result [OF sync_hardware_kept [OF T Q]]
    by (auto simp: memdbg_debugger_clear_all_breakpoints_def wp_simps elim!: wp_mono)
  from wp_runD [OF this run] have end': "r = (MEMDBG_OK, ?n)" "\<forall>b\<in>set (g_breakpoints g'). \<not> db_active b" "mem t' ?a = INT3_OPCODE"
    by (simp_all add: seen_def)
  have "code_view g' (mem t') = mem t'"
    using end'(2) by (intro view_without_breakpoints) (auto simp: planted_def)
  moreover have "code_view g (mem t) ?a = db_original_byte bp"
    using ok(1) bp code_view_planted [of g] by (auto simp: debugger_ok_def in_set_conv_nth)
  ultimately show ?thesis using end' by simp
qed

section \<open>Clearing a hardware breakpoint beside a watchpoint\<close>

text \<open>Changes of the debug registers leave both tables alone, on every platform.\<close>

definition tables :: "(breakpoint list \<Rightarrow> watchpoint list \<Rightarrow> bool \<Rightarrow> bool) \<Rightarrow> debugger_state \<times> 't \<Rightarrow> bool" where
  "tables Q = seen (\<lambda>_. ()) (\<lambda>g _. Q (g_breakpoints g) (g_watchpoints g) (g_attached g))"

lemma keeps_nothing: "keeps (\<lambda>_. ()) f"
  by (simp add: keeps_def)

lemma hoare_tables_set:
  "(\<And>g. g_breakpoints (f g) = g_breakpoints g) \<Longrightarrow> (\<And>g. g_watchpoints (f g) = g_watchpoints g) \<Longrightarrow>
     (\<And>g. g_attached (f g) = g_attached g) \<Longrightarrow> hoare (tables Q) (dbg_set f) (tables Q)"
  unfolding tables_def by (rule hoare_seen_set) simp

lemma set_all_dbregs_tables: "hoare (tables Q) (set_all_dbregs P new lwps) (tables Q)"
  unfolding tables_def by (induction lwps) (auto intro!: seen_rules keeps_nothing)

lemma roll_back_tables: "hoare (tables Q) (roll_back P rs) (tables Q)"
  unfolding tables_def by (induction P rs rule: roll_back.induct) (auto intro!: seen_rules keeps_nothing)

lemma get_threads_tables: "hoare (tables Q) (get_threads_locked P n) (tables Q)"
  unfolding tables_def get_threads_locked_def list_threads_def by (intro seen_rules keeps_nothing)

lemma apply_dbregs_tables: "hoare (tables Q) (apply_dbregs_to_all P partial) (tables Q)"
  using set_all_dbregs_tables [of Q] roll_back_tables [of Q] get_threads_tables [of Q]
  unfolding apply_dbregs_to_all_def update_threads_def tables_def
  by (intro seen_rules) auto

lemma sync_hardware_tables: "hoare (tables Q) (sync_hardware_dbregs_locked P partial) (tables Q)"
  unfolding sync_hardware_dbregs_locked_def refresh_dbregs_from_thread_def tables_def
  by (intro seen_rules keeps_nothing get_threads_tables [unfolded tables_def] apply_dbregs_tables [unfolded tables_def]
      hoare_tables_set [unfolded tables_def]) simp_all

lemma sync_hardware_result:
  "wp (sync_hardware_dbregs_locked P partial) (\<lambda>_ s'. g_breakpoints (fst s') = g_breakpoints (fst s) \<and>
     g_watchpoints (fst s') = g_watchpoints (fst s) \<and> g_attached (fst s') = g_attached (fst s)) s"
  using hoare_result [OF sync_hardware_tables [of "\<lambda>b w c. b = g_breakpoints (fst s) \<and> w = g_watchpoints (fst s) \<and> c = g_attached (fst s)" P partial], of s]
  by (auto simp: tables_def seen_def elim!: wp_mono)

lemma put_watchpoint_simps [simp]:
  "g_watchpoints (put_watchpoint i w g) = (g_watchpoints g)[i := w]"
  "g_breakpoints (put_watchpoint i w g) = g_breakpoints g" "g_attached (put_watchpoint i w g) = g_attached g"
  by (simp_all add: put_watchpoint_def)

lemma plant_hardware_table:
  "wp (plant_hardware P k w) (\<lambda>st s'. st = MEMDBG_OK \<longrightarrow> g_breakpoints (fst s') = g_breakpoints (fst s) \<and>
     g_watchpoints (fst s') = (g_watchpoints (fst s))[k := w] \<and> g_attached (fst s') = g_attached (fst s)) s"
  using sync_hardware_result [of P True "(put_watchpoint k w (fst s), snd s)"]
  by (auto simp: plant_hardware_def wp_simps elim!: wp_mono)

lemma remove_hardware_table:
  "wp (remove_hardware P k) (\<lambda>st s'. st = MEMDBG_OK \<longrightarrow> g_breakpoints (fst s') = g_breakpoints (fst s) \<and>
     g_watchpoints (fst s') = (g_watchpoints (fst s))[k := zero_watchpoint]) s"
  using sync_hardware_result [of P False "(put_watchpoint k zero_watchpoint (fst s), snd s)"]
  by (auto simp: remove_hardware_def wp_simps elim!: wp_mono)

text \<open>What a hardware breakpoint that was accepted leaves in the tables.\<close>

lemma set_hardware_breakpoint:
  assumes at: "g_attached (fst s)" and j: "alloc_hw_slot (fst s) = Some j"
  shows "wp (memdbg_debugger_set_breakpoint_cond P a MEMDBG_BP_HARDWARE creg cop cval) (\<lambda>st s'. st = MEMDBG_OK \<longrightarrow>
     (\<exists>i bp. alloc_breakpoint_slot (fst s) = Some i \<and> db_active bp \<and> db_address bp = a \<and> db_kind bp = MEMDBG_BP_HARDWARE \<and>
        g_breakpoints (fst s') = (g_breakpoints (fst s))[i := bp]) \<and>
     g_watchpoints (fst s') = (g_watchpoints (fst s))[j := hardware_watchpoint j a 1 0] \<and> g_attached (fst s')) s"
proof -
  have kinds: "MEMDBG_BP_HARDWARE \<noteq> MEMDBG_BP_SOFTWARE" by (simp add: MEMDBG_BP_HARDWARE_def MEMDBG_BP_SOFTWARE_def)
  have plant: "wp (plant_breakpoint P i a MEMDBG_BP_HARDWARE) (\<lambda>st s'. st = MEMDBG_OK \<longrightarrow>
      g_breakpoints (fst s') = (g_breakpoints (fst s))[i := bp] \<and>
      g_watchpoints (fst s') = (g_watchpoints (fst s))[j := hardware_watchpoint j a 1 0] \<and> g_attached (fst s'))
      (put_breakpoint i bp (fst s), snd s)" for i bp
    using plant_hardware_table [of P j "hardware_watchpoint j a 1 0" "(put_breakpoint i bp (fst s), snd s)"] j at
    by (auto simp: plant_breakpoint_def wp_simps kinds alloc_hw_slot_def elim!: wp_mono)
  let ?bp = "\<lparr>db_address = a, db_kind = MEMDBG_BP_HARDWARE, db_original_byte = 0, db_installed = False, db_active = True,
    db_cond_reg = creg, db_cond_op = cop, db_cond_value = cval\<rparr>"
  show ?thesis
    unfolding memdbg_debugger_set_breakpoint_cond_def when_attached_def
    by (auto simp: wp_simps at split: option.split intro!: wp_mono [OF plant] exI [of _ ?bp])
qed

text \<open>C37. Hardware breakpoints share their slots with the watchpoints and are found by address only.
  When a watchpoint is set at an address, in a slot below the first free one, and a hardware
  breakpoint is then set at the same address and cleared again, both with success and whatever the
  target does in between, the watchpoint is gone, and the execution trap of the breakpoint stays
  installed in its slot although no breakpoint is in use at that address.\<close>

theorem clear_breakpoint_takes_watchpoint:
  assumes at: "g_attached g" and free: "find_breakpoint_slot a g = None"
    and watch: "find_watchpoint_slot a g = Some k" "alloc_hw_slot g = Some j" "k < j"
    and set: "run_state (memdbg_debugger_set_breakpoint_cond P a MEMDBG_BP_HARDWARE creg cop cval) (g, t) = (MEMDBG_OK, g1, t1)"
    and clear: "run_state (memdbg_debugger_clear_breakpoint P a) (g1, t2) = (MEMDBG_OK, g2, t3)"
  shows "dw_installed (g_watchpoints g ! k) \<and> wanted (g_watchpoints g2 ! k) = None \<and>
    g_watchpoints g2 ! j = hardware_watchpoint j a 1 0 \<and> wanted (g_watchpoints g2 ! j) = Some (On_Execute, 1) \<and>
    find_breakpoint_slot a g2 = None"
proof -
  have kinds: "MEMDBG_BP_HARDWARE \<noteq> MEMDBG_BP_SOFTWARE" by (simp add: MEMDBG_BP_HARDWARE_def MEMDBG_BP_SOFTWARE_def)
  from wp_runD [OF set_hardware_breakpoint set] at watch(2) obtain i bp where
    i: "alloc_breakpoint_slot g = Some i" "db_active bp" "db_address bp = a" "db_kind bp = MEMDBG_BP_HARDWARE"
    and g1: "g_breakpoints g1 = (g_breakpoints g)[i := bp]" "g_watchpoints g1 = (g_watchpoints g)[j := hardware_watchpoint j a 1 0]"
      "g_attached g1" by auto
  have slots: "k < length (g_watchpoints g)" "j < length (g_watchpoints g)" "i < length (g_breakpoints g)" "dw_installed (g_watchpoints g ! k)"
    using watch i(1) by (auto simp: find_watchpoint_slot_def alloc_hw_slot_def alloc_breakpoint_slot_def first_slot_Some)
  have fb: "find_breakpoint_slot a g1 = Some i"
    using free i slots g1(1) by (auto simp: find_breakpoint_slot_def first_slot_Some first_slot_None)
  have fw: "find_watchpoint_slot a g1 = Some k"
    using watch g1(2) by (auto simp: find_watchpoint_slot_def first_slot_Some)
  have "wp (memdbg_debugger_clear_breakpoint P a) (\<lambda>st s'. st = MEMDBG_OK \<longrightarrow>
      g_breakpoints (fst s') = (g_breakpoints g1)[i := zero_breakpoint] \<and>
      g_watchpoints (fst s') = (g_watchpoints g1)[k := zero_watchpoint]) (g1, t2)"
    using remove_hardware_table [of P k "(g1, t2)"] slots i g1
    by (auto simp: memdbg_debugger_clear_breakpoint_def when_attached_def drop_breakpoint_def wp_simps fb fw kinds elim!: wp_mono)
  from wp_runD [OF this clear] have g2: "g_breakpoints g2 = (g_breakpoints g)[i := zero_breakpoint]"
      "g_watchpoints g2 = (g_watchpoints g)[j := hardware_watchpoint j a 1 0, k := zero_watchpoint]"
    using g1 by simp_all
  have "find_breakpoint_slot a g2 = None"
    using free slots unfolding find_breakpoint_slot_def g2(1) first_slot_None by (auto simp: nth_update_any zero_breakpoint_def)
  then show ?thesis
    using slots watch(3) by (simp add: g2 wanted_def hardware_watchpoint_def zero_watchpoint_def)
qed

section \<open>A breakpoint whose condition is false\<close>

text \<open>The hypotheses on the platform, with \<open>regs\<close> the registers of each thread: a read returns them.\<close>

definition regs_target :: "'t pal \<Rightarrow> ('t \<Rightarrow> int \<Rightarrow> debug_regs) \<Rightarrow> bool" where
  "regs_target P regs \<longleftrightarrow>
     (\<forall>n. keeps regs (pal_debug_get_thread_list P n)) \<and> (\<forall>lwp. keeps regs (pal_debug_get_regs P lwp)) \<and>
     (\<forall>lwp pid t r. fst (pal_debug_get_regs P lwp pid t) = Inr r \<longrightarrow> r = regs t lwp)"

text \<open>The first thread after a breakpoint decides.\<close>

lemma find_stop_first:
  assumes T: "regs_target P regs"
    and here: "\<And>u. regs u = rs \<Longrightarrow> \<exists>r. fst (pal_debug_get_regs P l (g_pid g) u) = Inr r"
    and slot: "find_breakpoint_slot (r_rip (rs l) - 1) g = Some i" "\<not> evaluate_bp_condition (g_breakpoints g ! i) (rs l)"
  shows "\<forall>x\<in>set xs. find_breakpoint_slot (r_rip (rs x) - 1) g = None \<Longrightarrow> regs t = rs \<Longrightarrow>
     wp (find_stop_lwp P (xs @ l # ys)) (\<lambda>c s. c = Condition_False \<and> fst s = g \<and> regs (snd s) = rs) (g, t)"
proof (induction xs arbitrary: t)
  case Nil
  obtain r where r: "fst (pal_debug_get_regs P l (g_pid g) t) = Inr r" using here Nil by blast
  then show ?case using T Nil slot by (auto simp: wp_simps regs_target_def keeps_def)
next
  case (Cons x xs)
  let ?r = "pal_debug_get_regs P x (g_pid g) t"
  have r: "regs (snd ?r) = rs" "fst ?r = Inr y \<Longrightarrow> y = rs x" for y
    using T Cons.prems(2) by (auto simp: regs_target_def keeps_def)
  show ?case
    using Cons.IH [of "snd ?r"] Cons.prems(1) r by (cases "fst ?r") (auto simp: wp_simps)
qed

text \<open>C38. When a stop is reported and the first thread that stands behind a breakpoint does not satisfy
  its condition, the target is resumed as it is: no register of any thread is changed before the
  platform continues it, and that thread's instruction pointer is one byte after the address of the
  breakpoint. The instruction that begins there, under the \<^verbatim>\<open>INT3\<close>, is not executed. (A continue
  that is requested sets the pointer back and steps over the breakpoint first.)\<close>

theorem false_condition_skips_instruction:
  assumes T: "regs_target P regs" and at: "g_attached g"
    and stop: "pal_debug_wait P (g_pid g) t = (Wait_Stopped, t0)"
    and threads: "fst (pal_debug_get_thread_list P MEMDBG_DEBUGGER_MAX_THREADS (g_pid g) t0) = Inr (xs @ l # ys)"
    and before: "\<forall>x\<in>set xs. find_breakpoint_slot (r_rip (regs t0 x) - 1) g = None"
    and here: "\<And>u. regs u = regs t0 \<Longrightarrow> \<exists>r. fst (pal_debug_get_regs P l (g_pid g) u) = Inr r"
    and slot: "find_breakpoint_slot (r_rip (regs t0 l) - 1) g = Some i" "\<not> evaluate_bp_condition (g_breakpoints g ! i) (regs t0 l)"
    and run: "run_state (memdbg_debugger_poll_events P) (g, t) = (st, g', t')"
  shows "st = MEMDBG_OK \<and> g' = g\<lparr>g_stopped := False, g_stop_lwp := 0\<rparr> \<and>
    (\<exists>u. t' = snd (pal_debug_continue P (g_pid g) u) \<and> regs u = regs t0 \<and>
         r_rip (regs u l) = db_address (g_breakpoints g ! i) + 1)"
proof -
  let ?g = "g\<lparr>g_stopped := True, g_stop_lwp := 0\<rparr>"
  let ?t = "snd (pal_debug_get_thread_list P MEMDBG_DEBUGGER_MAX_THREADS (g_pid g) t0)"
  have t: "regs ?t = regs t0" using T by (simp add: regs_target_def keeps_def)
  have same: "find_breakpoint_slot x ?g = find_breakpoint_slot x g" for x by (simp add: find_breakpoint_slot_def)
  have rip: "r_rip (regs t0 l) = db_address (g_breakpoints g ! i) + 1"
    using slot(1) by (auto simp: find_breakpoint_slot_def first_slot_Some)
  have found: "wp (find_stop_lwp P (xs @ l # ys)) (\<lambda>c s. c = Condition_False \<and> fst s = ?g \<and> regs (snd s) = regs t0) (?g, ?t)"
    by (rule find_stop_first [OF T]) (use here slot before t same in simp_all)
  have "wp (memdbg_debugger_poll_events P) (\<lambda>st s. st = MEMDBG_OK \<and> fst s = g\<lparr>g_stopped := False, g_stop_lwp := 0\<rparr> \<and>
      (\<exists>u. snd s = snd (pal_debug_continue P (g_pid g) u) \<and> regs u = regs t0)) (g, t)"
    using at stop threads
    by (auto simp: memdbg_debugger_poll_events_def when_attached_def report_stop_def get_threads_locked_def list_threads_def
        wp_simps intro!: wp_mono [OF found])
  from wp_runD [OF this run] rip show ?thesis by auto
qed

end
