(* ===== verification/Debug_Runs.thy ===== *)
theory Debug_Runs
  imports Debug_Errors
begin

text \<open>
  A target on which the debugger's operations run: memory and threads with their registers, with a
  platform on which every write succeeds, one on which the code is read only, and one on which a
  thread refuses new debug registers. They satisfy the contracts of the platform, so the hypotheses
  of the theorems on sessions can hold.
\<close>

record machine =
  mc_code :: "u64 \<Rightarrow> byte"
  mc_threads :: "int list"
  mc_regs :: "int \<Rightarrow> debug_regs"
  mc_dbregs :: "int \<Rightarrow> dbregs"
  mc_running :: bool

definition machine_pal :: "machine pal" where
  "machine_pal = \<lparr>
     pal_debug_supported = True,
     pal_calloc = (\<lambda>n. True),
     pal_debug_attach = (\<lambda>pid t. (None, t\<lparr>mc_running := False\<rparr>)),
     pal_debug_detach = (\<lambda>pid t. (None, t\<lparr>mc_running := True\<rparr>)),
     pal_debug_wait = (\<lambda>pid t. (Wait_Stopped, t\<lparr>mc_running := False\<rparr>)),
     pal_debug_continue = (\<lambda>pid t. (None, t\<lparr>mc_running := True\<rparr>)),
     pal_debug_stop = (\<lambda>pid t. (None, t)),
     pal_debug_single_step = (\<lambda>lwp pid t. (None, t)),
     pal_debug_suspend_thread = (\<lambda>lwp pid t. (None, t)),
     pal_debug_resume_thread = (\<lambda>lwp pid t. (None, t)),
     pal_debug_get_thread_list = (\<lambda>n pid t. (Inr (take n (mc_threads t)), t)),
     pal_debug_get_thread_name = (\<lambda>lwp pid t. (None, t)),
     pal_debug_get_thread_state = (\<lambda>lwp pid t. (None, t)),
     pal_debug_get_regs = (\<lambda>lwp pid t. (Inr (mc_regs t lwp), t)),
     pal_debug_set_regs = (\<lambda>lwp r pid t. (None, t\<lparr>mc_regs := (mc_regs t)(lwp := r)\<rparr>)),
     pal_debug_get_dbregs = (\<lambda>lwp pid t. (Inr (mc_dbregs t lwp), t)),
     pal_debug_set_dbregs = (\<lambda>lwp r pid t. (None, t\<lparr>mc_dbregs := (mc_dbregs t)(lwp := r)\<rparr>)),
     pal_debug_get_fpregs = (\<lambda>lwp pid t. (Inl ENOTSUP, t)),
     pal_debug_set_fpregs = (\<lambda>lwp r pid t. (Some ENOTSUP, t)),
     pal_debug_get_fsgsbase = (\<lambda>lwp pid t. (Inl ENOTSUP, t)),
     pal_debug_set_fsgsbase = (\<lambda>lwp r pid t. (Some ENOTSUP, t)),
     pal_memory_read = (\<lambda>a n pid t. (Inr (map (\<lambda>k. mc_code t (a + word_of_nat k)) [0..<n]), t)),
     pal_memory_write = (\<lambda>a bs pid t.
       (Inr (length bs), t\<lparr>mc_code := fold (\<lambda>k c. c(a + word_of_nat k := bs ! k)) [0..<length bs] (mc_code t)\<rparr>))\<rparr>"

definition readonly_pal :: "machine pal" where
  "readonly_pal = machine_pal\<lparr>pal_memory_write := (\<lambda>a bs pid t. (Inl MEMDBG_ERR_IO, t))\<rparr>"

definition refusing_pal :: "machine pal" where
  "refusing_pal = machine_pal\<lparr>pal_debug_set_dbregs := (\<lambda>lwp r pid t.
     if lwp = 2 then (Some EBUSY, t) else (None, t\<lparr>mc_dbregs := (mc_dbregs t)(lwp := r)\<rparr>))\<rparr>"

definition quiet_machine :: machine where
  "quiet_machine = \<lparr>mc_code = (\<lambda>a. 0x90), mc_threads = [1, 2], mc_regs = (\<lambda>l. zero_regs), mc_dbregs = (\<lambda>l. zero_dbregs),
     mc_running = True\<rparr>"

lemma machine_contract: "code_target machine_pal mc_code" "stays_alive machine_pal"
  by (simp_all add: code_target_def stays_alive_def keeps_def machine_pal_def)

lemma machine_writable: "code_writable machine_pal"
  by (simp add: code_writable_def machine_pal_def)

lemma readonly_contract: "code_target readonly_pal mc_code" "unwritable readonly_pal a"
  by (simp_all add: code_target_def unwritable_def keeps_def machine_pal_def readonly_pal_def)

lemma refusing_dbregs: "dbregs_target refusing_pal mc_dbregs"
  by (simp add: dbregs_target_def keeps_def machine_pal_def refusing_pal_def)

lemma machine_regs: "regs_target machine_pal mc_regs"
  by (simp add: regs_target_def keeps_def machine_pal_def)

lemma zero_state_ok: "debugger_ok zero_state m"
  using blank_kept [of m zero_state m] by (simp add: blank_def code_kept_def)

section \<open>Instances of the theorems\<close>

definition some_requests :: "request list" where
  "some_requests = [Attach 100, Set_Breakpoint 0x1000 0 0 0 0, Clear_All_Breakpoints,
     Set_Breakpoint 0x1000 0 0 0 0, Set_Watchpoint 0x2000 4 1, Continue, Poll]"

theorem debugger_keeps_code_witness:
  "mc_code (snd (serve_requests machine_pal some_requests (zero_state, quiet_machine))) 0x1000 = 0xCC \<and>
   code_view (fst (serve_requests machine_pal some_requests (zero_state, quiet_machine)))
     (mc_code (snd (serve_requests machine_pal some_requests (zero_state, quiet_machine)))) = code_view zero_state (\<lambda>a. 0x90)"
proof
  show "mc_code (snd (serve_requests machine_pal some_requests (zero_state, quiet_machine))) 0x1000 = 0xCC"
    by code_simp
  show "code_view (fst (serve_requests machine_pal some_requests (zero_state, quiet_machine)))
     (mc_code (snd (serve_requests machine_pal some_requests (zero_state, quiet_machine)))) = code_view zero_state (\<lambda>a. 0x90)"
    using debugger_keeps_code [OF machine_contract, of some_requests zero_state quiet_machine, OF _ zero_state_ok, OF _ surjective_pairing]
      machine_writable
    by (simp add: quiet_machine_def)
qed

theorem session_restores_code_witness:
  "fst (run_state (memdbg_debugger_detach machine_pal) (serve_requests machine_pal some_requests (zero_state, quiet_machine))) = MEMDBG_OK \<and>
   mc_code (snd (snd (run_state (memdbg_debugger_detach machine_pal) (serve_requests machine_pal some_requests (zero_state, quiet_machine))))) =
     (\<lambda>a. 0x90)"
proof
  let ?r = "run_state (memdbg_debugger_detach machine_pal) (serve_requests machine_pal some_requests (zero_state, quiet_machine))"
  show ok: "fst ?r = MEMDBG_OK" by code_simp
  have run: "?r = (MEMDBG_OK, fst (snd ?r), snd (snd ?r))" unfolding ok [symmetric] by simp
  show "mc_code (snd (snd ?r)) = (\<lambda>a. 0x90)"
    using session_restores_code [OF machine_contract _ refl run] machine_writable
    by (simp add: quiet_machine_def)
qed

definition armed_state :: debugger_state where
  "armed_state = zero_state\<lparr>g_pid := 100, g_attached := True, g_dbregs := zero_dbregs[0 := 0x1000, 7 := 3]\<rparr>"

theorem dbregs_update_atomic_witness:
  "fst (run_state (apply_dbregs_to_all refusing_pal False) (armed_state, quiet_machine)) = Some MEMDBG_ERR_STATE \<and>
   mc_dbregs (snd (snd (run_state (apply_dbregs_to_all refusing_pal False) (armed_state, quiet_machine)))) 1 = zero_dbregs"
proof
  let ?r = "run_state (apply_dbregs_to_all refusing_pal False) (armed_state, quiet_machine)"
  show st: "fst ?r = Some MEMDBG_ERR_STATE" by code_simp
  have run: "?r = (Some MEMDBG_ERR_STATE, fst (snd ?r), snd (snd ?r))" unfolding st [symmetric] by simp
  have "fst (run_state (get_threads_locked refusing_pal MEMDBG_DEBUGGER_MAX_THREADS) (armed_state, quiet_machine)) = Inr [1, 2]"
    by code_simp
  from dbregs_update_atomic [OF refusing_dbregs this _ run] show "mc_dbregs (snd (snd ?r)) 1 = zero_dbregs"
    by (simp add: quiet_machine_def refusing_pal_def)
qed

text \<open>A session with a software breakpoint, when the code has become read only.\<close>

definition software_session :: "debugger_state \<times> machine" where
  "software_session = serve_requests machine_pal [Attach 100, Set_Breakpoint 0x1000 0 0 0 0] (zero_state, quiet_machine)"

theorem clear_all_leaves_ghost_witness:
  "planted (g_breakpoints (fst software_session) ! 0) \<and>
   mc_code (snd (snd (run_state (memdbg_debugger_clear_all_breakpoints readonly_pal) software_session))) 0x1000 = INT3_OPCODE"
proof
  let ?bp = "g_breakpoints (fst software_session) ! 0"
  let ?r = "run_state (memdbg_debugger_clear_all_breakpoints readonly_pal) (fst software_session, snd software_session)"
  show p: "planted ?bp" by code_simp
  have "seen mc_code (code_kept (mc_code quiet_machine)) software_session"
    unfolding software_session_def
    by (rule serve_requests_kept [OF machine_contract]) (simp_all add: seen_def blank_kept blank_def)
  then have ok: "debugger_ok (fst software_session) (mc_code (snd software_session))"
    by (simp add: seen_def code_kept_def)
  have at: "g_attached (fst software_session)" by code_simp
  have "0 < length (g_breakpoints (fst software_session))" by code_simp
  then have m: "?bp \<in> set (g_breakpoints (fst software_session))" by simp
  have "db_address ?bp = 0x1000" by code_simp
  with clear_all_leaves_ghost [OF readonly_contract(1) ok at m p readonly_contract(2), of "fst ?r" "fst (snd ?r)" "snd (snd ?r)"]
  show "mc_code (snd (snd (run_state (memdbg_debugger_clear_all_breakpoints readonly_pal) software_session))) 0x1000 = INT3_OPCODE"
    by simp
qed

text \<open>A session with a watchpoint, to which a hardware breakpoint at the same address is added.\<close>

definition watch_session :: "debugger_state \<times> machine" where
  "watch_session = serve_requests machine_pal [Attach 100, Set_Watchpoint 0x1000 4 1] (zero_state, quiet_machine)"

definition shared_session :: "debugger_state \<times> machine" where
  "shared_session = snd (run_state (memdbg_debugger_set_breakpoint_cond machine_pal 0x1000 MEMDBG_BP_HARDWARE 0 0 0) watch_session)"

definition cleared_session :: "debugger_state \<times> machine" where
  "cleared_session = snd (run_state (memdbg_debugger_clear_breakpoint machine_pal 0x1000) shared_session)"

theorem clear_breakpoint_takes_watchpoint_witness:
  "wanted (g_watchpoints (fst watch_session) ! 0) = Some (On_Write, 4) \<and> wanted (g_watchpoints (fst cleared_session) ! 0) = None \<and>
   wanted (g_watchpoints (fst cleared_session) ! 1) = Some (On_Execute, 1) \<and> find_breakpoint_slot 0x1000 (fst cleared_session) = None"
proof -
  have start: "g_attached (fst watch_session)" "find_breakpoint_slot 0x1000 (fst watch_session) = None"
    "find_watchpoint_slot 0x1000 (fst watch_session) = Some 0" "alloc_hw_slot (fst watch_session) = Some 1"
    "wanted (g_watchpoints (fst watch_session) ! 0) = Some (On_Write, 4)"
    by code_simp+
  have "fst (run_state (memdbg_debugger_set_breakpoint_cond machine_pal 0x1000 MEMDBG_BP_HARDWARE 0 0 0) watch_session) = MEMDBG_OK"
    by code_simp
  then have set: "run_state (memdbg_debugger_set_breakpoint_cond machine_pal 0x1000 MEMDBG_BP_HARDWARE 0 0 0)
      (fst watch_session, snd watch_session) = (MEMDBG_OK, fst shared_session, snd shared_session)"
    by (simp add: shared_session_def prod_eq_iff)
  have "fst (run_state (memdbg_debugger_clear_breakpoint machine_pal 0x1000) shared_session) = MEMDBG_OK"
    by code_simp
  then have clear: "run_state (memdbg_debugger_clear_breakpoint machine_pal 0x1000) (fst shared_session, snd shared_session) =
      (MEMDBG_OK, fst cleared_session, snd cleared_session)"
    by (simp add: cleared_session_def prod_eq_iff)
  from clear_breakpoint_takes_watchpoint [OF start(1-4) zero_less_one set clear] start(5) show ?thesis by blast
qed

text \<open>The session when thread 1 has executed the \<^verbatim>\<open>INT3\<close> of a breakpoint with the condition \<^verbatim>\<open>rax == 5\<close>.\<close>

definition conditional_session :: "debugger_state \<times> machine" where
  "conditional_session = apsnd (\<lambda>t. t\<lparr>mc_regs := (mc_regs t)(1 := zero_regs\<lparr>r_rip := 0x1001\<rparr>)\<rparr>)
     (serve_requests machine_pal [Attach 100, Set_Breakpoint 0x1000 0 1 0 5] (zero_state, quiet_machine))"

theorem false_condition_skips_instruction_witness:
  "mc_code (snd conditional_session) 0x1000 = INT3_OPCODE \<and>
   r_rip (mc_regs (snd (snd (run_state (memdbg_debugger_poll_events machine_pal) conditional_session))) 1) = 0x1001"
proof
  let ?g = "fst conditional_session" and ?t = "snd conditional_session"
  let ?r = "run_state (memdbg_debugger_poll_events machine_pal) (?g, ?t)"
  show "mc_code ?t 0x1000 = INT3_OPCODE" by code_simp
  have start: "g_attached ?g" "mc_threads ?t = [1, 2]" "find_breakpoint_slot (r_rip (mc_regs ?t 1) - 1) ?g = Some 0"
    "\<not> evaluate_bp_condition (g_breakpoints ?g ! 0) (mc_regs ?t 1)" "db_address (g_breakpoints ?g ! 0) = 0x1000"
    by code_simp+
  have "\<exists>u. snd (snd ?r) = snd (pal_debug_continue machine_pal (g_pid ?g) u) \<and> mc_regs u = mc_regs ?t \<and> r_rip (mc_regs u 1) = 0x1001"
    using false_condition_skips_instruction [OF machine_regs start(1), of ?t "?t\<lparr>mc_running := False\<rparr>" "[]" 1 "[2]" 0
        "fst ?r" "fst (snd ?r)" "snd (snd ?r)"] start
    by (simp add: machine_pal_def MEMDBG_DEBUGGER_MAX_THREADS_def)
  then show "r_rip (mc_regs (snd (snd (run_state (memdbg_debugger_poll_events machine_pal) conditional_session))) 1) = 0x1001"
    by (auto simp: machine_pal_def)
qed

section \<open>Two more runs\<close>

text \<open>A session with a hardware breakpoint, in which a thread then refuses new debug registers.\<close>

definition hardware_session :: "debugger_state \<times> machine" where
  "hardware_session = serve_requests machine_pal [Attach 100, Set_Breakpoint 0x1000 1 0 0 0] (zero_state, quiet_machine)"

text \<open>
  Clearing all breakpoints reports success although the other threads are rolled back and stay
  armed while the table is empty; clearing one breakpoint reports its error and keeps the slot.
\<close>

lemma clear_all_refused_run:
  "let r = run_state (memdbg_debugger_clear_all_breakpoints refusing_pal) hardware_session
   in fst r = (MEMDBG_OK, 1) \<and> \<not> list_ex dw_installed (g_watchpoints (fst (snd r))) \<and>
      decode_dr7 (ucast (mc_dbregs (snd (snd r)) 1 ! 7)) 0 = Some (On_Execute, 1) \<and> mc_dbregs (snd (snd r)) 1 ! 0 = 0x1000"
  by code_simp

lemma clear_one_refused_run:
  "let r = run_state (memdbg_debugger_clear_breakpoint readonly_pal 0x1000) software_session
   in fst r = Some MEMDBG_ERR_IO \<and> code_view (fst (snd r)) (mc_code (snd (snd r))) 0x1000 = 0x90"
  by code_simp

end
