(* ===== verification/Spec2Isabelle.thy ===== *)
theory Spec2Isabelle
  imports Rsp_Memory_Correct Rsp_Run_Correct Scan_Plan Structure_Compare Client_Properties Client_Wire Batchcode_Correct
    Client_Pool_Refine Bridge_Main Page_Walker_Correct Debug_Runs
begin

text \<open>
  \<^bold>\<open>A verification development for MemDBG.\<close>

  MemDBG is a remote memory debugger. A daemon in C runs on the console
  (\<^verbatim>\<open>src/src\<close>); a frontend in C++ (\<^verbatim>\<open>src/frontend/src\<close>) talks to it over a binary
  protocol through the class \<^verbatim>\<open>Client\<close>; a bridge in C++ (\<^verbatim>\<open>src/tools/gdb_bridge\<close>)
  speaks GDB's remote serial protocol on one side and uses the same \<^verbatim>\<open>Client\<close> on the other.
  The development models the bridge, the client with the wire formats it shares with the
  daemon, and parts of the frontend that compute.

  \<^bold>\<open>Conventions.\<close> A C or C++ integer is a word of its width; \<^verbatim>\<open>size_t\<close> positions in buffers
  are natural numbers where they cannot wrap, and the wrap is written out where they can. A
  \<^verbatim>\<open>std::string\<close> is a list of characters, a byte buffer a list of 8-bit words. A class is a
  record of its fields and its methods are functions in the state monad. An error is a value: an
  option, a sum or a datatype of the component. A socket is a list of the results of the
  successive calls, so a theorem about all lists is a theorem about every behaviour of the
  network. Code outside the repository, and the target, are arguments.

  \<^bold>\<open>Theories.\<close>

  \<^item> \<open>Memdbg_Prelude\<close>: words, strings, character classes, number printing, little-endian
    views, the codec interfaces (locales \<open>codec\<close>, \<open>field_codec\<close>), invariants of machines
    (\<open>invariant_machine\<close>), and a weakest-precondition calculus for the state monad.

  \<^item> \<open>Hex_Codec\<close>, \<open>Rsp_Protocol\<close>: hexadecimal text, thread ids, \<^verbatim>\<open>qXfer\<close> windows, the
    memory-range test of \<^verbatim>\<open>rsp_protocol.cpp\<close>. The parsers are compared with reference
    definitions in unbounded arithmetic.

  \<^item> \<open>Rsp_Framing\<close>: \<^verbatim>\<open>RspConnection\<close> of \<^verbatim>\<open>rsp_server.cpp\<close>, with checksums, escapes,
    run lengths and retransmission. Sending and receiving are inverse, what is received is
    justified by the input, and a damaged frame is recovered from.

  \<^item> \<open>Gdb_Regs\<close>, \<open>Target_Xml\<close>: the register files (locale \<open>register_file\<close>, instances for
    the core registers and the FXSAVE image) and the target description.

  \<^item> \<open>Rsp_Handler\<close>, \<open>Rsp_Memory\<close>, \<open>Rsp_Run\<close>, \<open>Rsp_Registers\<close>, \<open>Rsp_Query\<close>,
    \<open>Rsp_Session\<close>: the packet handler, one theory per source file, and the serving loop. The
    abstract class \<^verbatim>\<open>RspBackend\<close> is a record of functions on a state of its own. The wait for
    a stop polls until the target reports one; it takes fuel, and \<^const>\<open>None\<close> means that the
    target is still running.

  \<^item> \<open>Rsp_Safety\<close>, \<open>Rsp_Memory_Correct\<close>, \<open>Rsp_Run_Correct\<close>: the debugger calls of every
    session form a legal sequence, the memory packets return the target's memory whatever the
    chunking, and resuming reports the stop.

  \<^item> \<open>Lz4\<close>, \<open>Lz4_Correct\<close>, \<open>Framed_Payload\<close>: the codec of \<^verbatim>\<open>src/src/util/lz4.c\<close> with
    every access to a buffer checked, and the frames around it.

  \<^item> \<open>Wire_Parsers\<close>: the daemon's process and map lists and the client's parsers for them.

  \<^item> \<open>Client_Transport\<close>, \<open>Client_Lifecycle\<close>, \<open>Client_Ops\<close>, \<open>Client_Scan\<close>,
    \<open>Client_Debug\<close>: the class \<^verbatim>\<open>Client\<close>, one theory per group of operations, and the adapter
    \<^verbatim>\<open>ClientRspBackend\<close> that makes it a backend of the bridge.

  \<^item> \<open>Client_Correct\<close>, \<open>Client_Wire\<close>, \<open>Client_End_To_End\<close>, \<open>Client_Properties\<close>: no
    operation leaves part of a response in the stream of an open connection (with one exception
    that is proved too), lists of records are read within the response, and whole exchanges with
    the daemon's handlers return what the daemon read.

  \<^item> \<open>Scan_Plan\<close>, \<open>Structure_Compare\<close>: the splitting of maps into scan units and the
    comparison of structures in the scanner.

  \<^item> \<open>Batchcode\<close>, \<open>Batchcode_Correct\<close>: the parser of the trainer's batchcode, a lexer with
    pushback and a loop over records whose termination rests on the work left to the lexer.

  \<^item> \<open>Client_Pool\<close>, \<open>Client_Pool_Correct\<close>, \<open>Client_Pool_Refine\<close>: \<^verbatim>\<open>ClientPool\<close>
    with its threads, a transition system with one step for each atomic access or critical
    section, so that a theorem about every reachable state covers every interleaving. The
    invariant ties the generation, the role slots and the clients still open together; the pool
    refines an abstract table that holds a client for each role.

  \<^item> \<open>Rsp_Trace\<close>, \<open>Bridge_Main\<close>: the trace of debugger calls only grows; the program of
    the bridge with its command line, its connection and the loop over the clients. The loop is
    bounded by a number of clients and the serving of each by a number of packets; \<^const>\<open>None\<close>
    means that the bridge is still running, and the theorems are about every bound.

  \<^item> \<open>Scan_Match\<close>, \<open>Scan_Range\<close>, \<open>Scan_Match_Correct\<close>, \<open>Scan_Range_Correct\<close>,
    \<open>Scan_Exact_Correct\<close>: the daemon's range scanners (\<^verbatim>\<open>src/src/scanner/scan\<close>): the shift
    tables, the result builder, reads with a retry on faults, and the loop over chunks with its
    carry-over. The target's memory, the allocator and the chunk size are arguments. The locale
    \<open>window_scanner\<close> says what a scanner of one window owes the loop and proves the scan of the
    whole range from it; \<open>shift_table\<close> and \<open>safe_shifts\<close> say what the pattern search needs of
    its table.

  \<^item> \<open>Scan_Parallel\<close>, \<open>Scan_Parallel_Correct\<close>: the scans of a whole process: the partition of
    the maps between the threads, the workers, the merging of their results. A worker shares nothing
    it writes with the others but the counters of a tracked scan, so it is a function of its slice.
    The locale \<open>map_scanner\<close> says what the scan of one map owes the workers; with it the
    parallel scan is the scan of one map after the other, for values and for byte patterns.

  \<^item> \<open>Page_Walker\<close>, \<open>Page_Walker_Correct\<close>: the page-table walker
    (\<^verbatim>\<open>src/src/scanner/scan/walker.c\<close>): the search for the kernel's direct map, the walk, reads
    and writes in batches, the enumeration of the tables and its merging with the maps. The kernel
    primitives are a record of functions. The reads are compared with a definition of the
    processor's translation, byte by byte; the merging can hide a region, which is proved too.

  \<^item> \<open>Memdbg_Status\<close>, \<open>Debug_State\<close>, \<open>Debug_Breakpoints\<close>, \<open>Debug_Session\<close>: the daemon's
    debugger (\<^verbatim>\<open>src/src/debug/session\<close>), one theory per source file: registers and threads, the
    tables of breakpoints and watchpoints, attaching to polling. The platform primitives are a record
    of functions on a target of any type; every call may fail.

  \<^item> \<open>Debug_Correct\<close>, \<open>Debug_Session_Correct\<close>, \<open>Debug_Hardware\<close>: on a target that keeps the
    platform's contract and does not exit, the requests keep the code as it is seen without the
    breakpoints, and a detached session has left no trace in it (locale \<open>slot_table\<close> for the
    tables); with the removal of all breakpoints among the requests this holds where the code can
    be written. The control word means the table of watchpoints, and the strict update of the
    threads reaches all of them or is taken back, except where the platform refuses the way back.

  \<^item> \<open>Debug_Errors\<close>, \<open>Debug_Runs\<close>: three situations in which the debugger does not do what it
    promises, for every platform and target in which they arise: the removal of all breakpoints
    over code that cannot be written, a hardware breakpoint at the address of a watchpoint, and a
    condition that is false. \<open>Debug_Runs\<close> has a target and platforms that satisfy the hypotheses of
    the theorems on the debugger.

  \<^bold>\<open>Not modelled.\<close> The ImGui screens and the application shell of the frontend (state of
  widgets and drawing), its plugin engines and sandboxes (embedded Lua and Python), downloads
  and release checks (network and files through external libraries), the web and mobile
  frontends and the x64dbg plugin (other languages or another host's interface), and on the
  console the pointer scan, the tracer, the privilege code and the platform
  layer, which act through system calls and kernel structures. Locks and threads are modelled
  only where the theory says so; elsewhere each operation is taken as atomic, as the class's own
  lock makes it.
\<close>

end
